(* ===== verification/Casual_Prelude.thy ===== *)
theory Casual_Prelude
  imports Main "HOL-Library.Multiset"
begin

section \<open>Shared list operations\<close>

text \<open>
  The C++ sources work on vectors through \<open>range::find_if\<close>, which yields the first match by
  reference. A reference that is later written to is modelled by \<open>upd_first\<close> (change the
  first match in place); an erase at the found position by \<open>erase_first\<close>. The fact
  collections of the development are declared here: \<open>erase_simps\<close> rewrites the two list
  operations, \<open>wf_intros\<close> collects the preservation lemmas of the component invariants.
\<close>

named_theorems wf_intros \<open>preservation of component invariants\<close>

subsection \<open>First match: update and erase\<close>

fun upd_first :: "('a \<Rightarrow> bool) \<Rightarrow> ('a \<Rightarrow> 'a) \<Rightarrow> 'a list \<Rightarrow> 'a list" where
  "upd_first P f [] = []"
| "upd_first P f (x # xs) = (if P x then f x # xs else x # upd_first P f xs)"

fun erase_first :: "('a \<Rightarrow> bool) \<Rightarrow> 'a list \<Rightarrow> 'a list" where
  "erase_first P [] = []"
| "erase_first P (x # xs) = (if P x then xs else x # erase_first P xs)"

lemma length_upd_first [simp]: "length (upd_first P f xs) = length xs"
  by (induction xs) auto

lemma upd_first_Nil_iff [simp]: "upd_first P f xs = [] \<longleftrightarrow> xs = []"
  by (cases xs) auto

lemma map_upd_first: "(\<And>x. g (f x) = g x) \<Longrightarrow> map g (upd_first P f xs) = map g xs"
  by (induction xs) auto

lemma set_upd_first_subset: "set (upd_first P f xs) \<subseteq> set xs \<union> f ` {x \<in> set xs. P x}"
  by (induction xs) auto

lemma in_set_upd_firstE:
  assumes "y \<in> set (upd_first P f xs)"
  obtains "y \<in> set xs" | x where "x \<in> set xs" "P x" "y = f x"
  using assms set_upd_first_subset [of P f xs] by blast

lemma upd_first_none: "(\<And>x. x \<in> set xs \<Longrightarrow> \<not> P x) \<Longrightarrow> upd_first P f xs = xs"
  by (induction xs) auto

lemma erase_first_none: "(\<And>x. x \<in> set xs \<Longrightarrow> \<not> P x) \<Longrightarrow> erase_first P xs = xs"
  by (induction xs) auto

lemma set_erase_first_subset: "set (erase_first P xs) \<subseteq> set xs"
  by (induction xs) auto

lemma in_erase_firstD: "x \<in> set (erase_first P xs) \<Longrightarrow> x \<in> set xs"
  using set_erase_first_subset [of P xs] by blast

lemma not_P_in_erase_first: "x \<in> set xs \<Longrightarrow> \<not> P x \<Longrightarrow> x \<in> set (erase_first P xs)"
  by (induction xs) auto

lemma erase_first_as_upd: "distinct (map g xs) \<Longrightarrow> distinct (map g (erase_first P xs))"
  by (induction xs) (auto dest: in_erase_firstD)

lemma length_erase_first:
  "length (erase_first P xs) = (if \<exists>x\<in>set xs. P x then length xs - 1 else length xs)"
  by (induction xs) (auto dest: length_pos_if_in_set)

lemma mset_erase_first:
  "List.find P xs = Some x \<Longrightarrow> mset xs = add_mset x (mset (erase_first P xs))"
  by (induction xs) (auto split: if_splits)

lemma find_Some_in: "List.find P xs = Some x \<Longrightarrow> x \<in> set xs \<and> P x"
  by (induction xs) (auto split: if_splits)

lemma find_None_iff': "List.find P xs = None \<longleftrightarrow> (\<forall>x\<in>set xs. \<not> P x)"
  by (induction xs) auto

lemma find_append: "List.find P (xs @ ys) =
    (case List.find P xs of None \<Rightarrow> List.find P ys | Some x \<Rightarrow> Some x)"
  by (induction xs) auto

lemma find_upd_first:
  assumes "\<And>x. P x \<Longrightarrow> P (f x)"
  shows "List.find P (upd_first P f xs) = map_option f (List.find P xs)"
  using assms by (induction xs) auto

lemma find_upd_first_other:
  assumes "\<And>x. P x \<Longrightarrow> \<not> Q x" and "\<And>x. P x \<Longrightarrow> \<not> Q (f x)"
  shows "List.find Q (upd_first P f xs) = List.find Q xs"
  using assms by (induction xs) auto

text \<open>
  A vector in which no two elements are related by the key comparison used to search it: erasing the
  first match leaves no match.
\<close>

lemma find_erase_first_distinct:
  assumes "distinct (map k xs)" and "\<And>x y. P x \<Longrightarrow> P y \<Longrightarrow> k x = k y"
  shows "List.find P (erase_first P xs) = None"
  using assms(1)
proof (induction xs)
  case (Cons x xs)
  show ?case
  proof (cases "P x")
    case True
    have "\<not> P y" if "y \<in> set xs" for y
    proof
      assume "P y"
      with True have "k x = k y" by (rule assms(2))
      with Cons.prems that show False by auto
    qed
    with True show ?thesis by (simp add: find_None_iff')
  next
    case False
    with Cons show ?thesis by simp
  qed
qed simp

subsection \<open>Partition, unique and sums\<close>

lemma mset_filter_partition:
  "mset (filter P xs) + mset (filter (\<lambda>x. \<not> P x) xs) = mset xs"
  by (induction xs) auto

lemma sorted_map_snoc: "sorted (xs @ [x]) \<longleftrightarrow> sorted xs \<and> (\<forall>y\<in>set xs. y \<le> (x::nat))"
  by (simp add: sorted_append)

lemma sum_list_map_filter_le:
  "sum_list (map (f :: 'a \<Rightarrow> nat) (filter P xs)) \<le> sum_list (map f xs)"
  by (induction xs) auto

end
