(* ===== verification/Byteorder.thy ===== *)
theory Byteorder
  imports Casual_Prelude "HOL-Library.Word"
begin

text \<open>
  The network byte order of middleware/common (\<open>network/byteorder.h\<close> and
  \<open>network/byteorder.cpp\<close>): the table of serialized sizes, the swap done on a little endian
  host, and the memory image of an encoded value. A native value of \<open>n\<close> bytes is its unsigned
  bit pattern, a \<open>nat\<close> below \<open>256 ^ n\<close>; \<open>float\<close> and \<open>double\<close> are the patterns
  that the source's \<open>reinterpret_cast\<close> reads. The lemmas show that encode and decode are inverse
  and that the bytes on the wire do not depend on the byte order of the host.
\<close>

type_synonym byte = "8 word"

section \<open>Big endian byte lists\<close>

fun be_bytes :: "nat \<Rightarrow> nat \<Rightarrow> byte list" where
  "be_bytes 0 v = []"
| "be_bytes (Suc n) v = be_bytes n (v div 256) @ [of_nat v]"

definition be_value :: "byte list \<Rightarrow> nat" where
  "be_value bs = foldl (\<lambda>a b. 256 * a + unat b) 0 bs"

lemma length_be_bytes [simp]: "length (be_bytes n v) = n"
  by (induction n arbitrary: v) auto

lemma be_value_Nil [simp]: "be_value [] = 0"
  by (simp add: be_value_def)

lemma be_value_snoc [simp]: "be_value (bs @ [b]) = 256 * be_value bs + unat b"
  by (simp add: be_value_def)

lemma unat_of_nat_byte: "unat (of_nat v :: byte) = v mod 256"
  by (simp add: unat_of_nat)

lemma be_value_be_bytes: "be_value (be_bytes n v) = v mod 256 ^ n"
proof (induction n arbitrary: v)
  case (Suc n)
  have "256 * (v div 256 mod 256 ^ n) + v mod 256 = v mod (256 * 256 ^ n)"
    by (simp add: mod_mult2_eq)
  with Suc show ?case by (simp add: unat_of_nat_byte)
qed simp

lemma be_value_bound: "be_value bs < 256 ^ length bs"
proof (induction bs rule: rev_induct)
  case (snoc b bs)
  have "unat b < 256" using unsigned_less [of b, where ?'a = nat] by simp
  with snoc have "256 * be_value bs + unat b < 256 * (be_value bs + 1)" by simp
  also have "\<dots> \<le> 256 * 256 ^ length bs" using snoc by (intro mult_le_mono2) simp
  finally show ?case by simp
qed simp

lemma be_bytes_be_value: "be_bytes (length bs) (be_value bs) = bs"
proof (induction bs rule: rev_induct)
  case (snoc b bs)
  have b: "unat b < 256" using unsigned_less [of b, where ?'a = nat] by simp
  have "(256 * be_value bs + unat b) div 256 = be_value bs" using b by simp
  moreover have "(of_nat (256 * be_value bs + unat b) :: byte) = b"
  proof -
    have "unat (of_nat (256 * be_value bs + unat b) :: byte) = unat b"
      using b by (simp only: unat_of_nat_byte) simp
    then show ?thesis by (rule word_unat_eq_iff [THEN iffD2])
  qed
  ultimately show ?case using snoc by simp
qed simp

section \<open>The host's byte order\<close>

datatype endian = LITTLE_ENDIAN | BIG_ENDIAN

definition host_bytes :: "endian \<Rightarrow> nat \<Rightarrow> nat \<Rightarrow> byte list" where
  "host_bytes e n v = (case e of BIG_ENDIAN \<Rightarrow> be_bytes n v | LITTLE_ENDIAN \<Rightarrow> rev (be_bytes n v))"

definition host_value :: "endian \<Rightarrow> byte list \<Rightarrow> nat" where
  "host_value e bs = (case e of BIG_ENDIAN \<Rightarrow> be_value bs | LITTLE_ENDIAN \<Rightarrow> be_value (rev bs))"

text \<open>\<open>__bswap_16/32/64\<close> and the macros \<open>HTOBE\<close> and \<open>BETOH\<close> built on it.\<close>

definition bswap :: "nat \<Rightarrow> nat \<Rightarrow> nat" where
  "bswap n v = be_value (rev (be_bytes n v))"

definition transcode_encode :: "endian \<Rightarrow> nat \<Rightarrow> nat \<Rightarrow> nat" where
  "transcode_encode e n v = (case e of LITTLE_ENDIAN \<Rightarrow> bswap n v | BIG_ENDIAN \<Rightarrow> v)"

definition transcode_decode :: "endian \<Rightarrow> nat \<Rightarrow> nat \<Rightarrow> nat" where
  "transcode_decode e n v = (case e of LITTLE_ENDIAN \<Rightarrow> bswap n v | BIG_ENDIAN \<Rightarrow> v)"

lemma bswap_bound: "bswap n v < 256 ^ n"
  using be_value_bound [of "rev (be_bytes n v)"] by (simp add: bswap_def)

lemma be_bytes_bswap: "be_bytes n (bswap n v) = rev (be_bytes n v)"
  using be_bytes_be_value [of "rev (be_bytes n v)"] by (simp add: bswap_def)

lemma bswap_bswap: "v < 256 ^ n \<Longrightarrow> bswap n (bswap n v) = v"
  by (simp add: bswap_def [of n "bswap n v"] be_bytes_bswap be_value_be_bytes)

lemma transcode_decode_encode:
  "v < 256 ^ n \<Longrightarrow> transcode_decode e n (transcode_encode e n v) = v"
  by (cases e) (auto simp: transcode_encode_def transcode_decode_def bswap_bswap)

text \<open>The memory image of an encoded value: big endian on every host.\<close>

lemma wire_image: "host_bytes e n (transcode_encode e n v) = be_bytes n v"
  by (cases e) (auto simp: host_bytes_def transcode_encode_def be_bytes_bswap)

text \<open>Decoding what lies in memory reads the big endian value on every host.\<close>

lemma wire_value:
  assumes "length bs = n"
  shows "transcode_decode e n (host_value e bs) = be_value bs"
proof (cases e)
  case LITTLE_ENDIAN
  have "be_bytes n (be_value (rev bs)) = rev bs"
    using be_bytes_be_value [of "rev bs"] assms by simp
  with LITTLE_ENDIAN show ?thesis
    by (simp add: transcode_decode_def host_value_def bswap_def)
qed (simp add: transcode_decode_def host_value_def)

section \<open>Serialized sizes of the native types\<close>

datatype ctype = T_bool | T_char | T_short | T_int | T_long | T_float | T_double

text \<open>\<open>detail::size::traits\<close>: an \<open>int\<close> travels as eight bytes.\<close>

fun size_traits :: "ctype \<Rightarrow> nat" where
  "size_traits T_bool = 1"
| "size_traits T_char = 1"
| "size_traits T_short = 2"
| "size_traits T_int = 8"
| "size_traits T_long = 8"
| "size_traits T_float = 4"
| "size_traits T_double = 8"

section \<open>Signed integers\<close>

definition to_unsigned :: "nat \<Rightarrow> int \<Rightarrow> nat" where
  "to_unsigned n i = nat (i mod 256 ^ n)"

definition to_signed :: "nat \<Rightarrow> nat \<Rightarrow> int" where
  "to_signed n u = (if 2 * int u < 256 ^ n then int u else int u - 256 ^ n)"

definition in_range :: "nat \<Rightarrow> int \<Rightarrow> bool" where
  "in_range n i \<longleftrightarrow> - (256 ^ n) \<le> 2 * i \<and> 2 * i < 256 ^ n"

lemma to_unsigned_bound: "to_unsigned n i < 256 ^ n"
proof -
  have "i mod 256 ^ n < 256 ^ n" by simp
  then have "nat (i mod 256 ^ n) < nat (256 ^ n)" by (subst nat_less_eq_zless) auto
  then show ?thesis by (simp add: to_unsigned_def nat_power_eq)
qed

lemma to_signed_to_unsigned:
  assumes "in_range n i"
  shows "to_signed n (to_unsigned n i) = i"
proof (cases "0 \<le> i")
  case True
  with assms have "i mod 256 ^ n = i" by (simp add: in_range_def)
  with True assms show ?thesis by (simp add: to_signed_def to_unsigned_def in_range_def)
next
  case False
  have "i mod 256 ^ n = (i + 256 ^ n) mod 256 ^ n" by simp
  also have "\<dots> = i + 256 ^ n" using False assms by (intro mod_pos_pos_trivial) (auto simp: in_range_def)
  finally have m: "i mod 256 ^ n = i + 256 ^ n" .
  have "0 \<le> i + 256 ^ n" using assms False by (simp add: in_range_def)
  with m False assms show ?thesis by (simp add: to_signed_def to_unsigned_def in_range_def)
qed

text \<open>\<open>byteorder::encode\<close> and \<open>byteorder::decode\<close> of a signed integer of \<open>n\<close> bytes.\<close>

definition encode_int :: "nat \<Rightarrow> int \<Rightarrow> byte list" where
  "encode_int n i = be_bytes n (to_unsigned n i)"

definition decode_int :: "nat \<Rightarrow> byte list \<Rightarrow> int" where
  "decode_int n bs = to_signed n (be_value bs)"

lemma length_encode_int [simp]: "length (encode_int n i) = n"
  by (simp add: encode_int_def)

lemma decode_encode_int: "in_range n i \<Longrightarrow> decode_int n (encode_int n i) = i"
  using to_unsigned_bound [of n i]
  by (simp add: decode_int_def encode_int_def be_value_be_bytes to_signed_to_unsigned)

abbreviation encode_long :: "int \<Rightarrow> byte list" where
  "encode_long \<equiv> encode_int 8"

abbreviation decode_long :: "byte list \<Rightarrow> int" where
  "decode_long \<equiv> decode_int 8"

lemma in_range_8_iff: "in_range 8 i \<longleftrightarrow> - (2 ^ 63) \<le> i \<and> i < 2 ^ 63"
  by (auto simp: in_range_def)

end
