(* ===== verification/Field_Store.thy ===== *)
theory Field_Store
  imports Byteorder
begin

text \<open>
  The interface between the field buffer and the C functions over it (\<open>buffer/field.h\<close>): the
  return codes, the two loops the C functions run (\<open>CasualFieldRemoveId\<close> and
  \<open>CasualFieldChangeValue\<close>), and the locale \<open>field_store\<close> with what a buffer promises:
  every id has a list of occurrences, append adds one at the end, update replaces one, remove closes
  the gap, and an operation that reports failure changes nothing. The lemmas of the locale prove the
  two loops once for every such store.
\<close>

section \<open>Return codes\<close>

datatype field_code =
    FIELD_SUCCESS | FIELD_NO_SPACE | FIELD_NO_OCCURRENCE | FIELD_UNKNOWN_ID | FIELD_INVALID_BUFFER
  | FIELD_INVALID_ID | FIELD_INVALID_TYPE | FIELD_INVALID_ARGUMENT | FIELD_SYSTEM_FAILURE
  | FIELD_INTERNAL_FAILURE

fun field_code_value :: "field_code \<Rightarrow> int" where
  "field_code_value FIELD_SUCCESS = 0"
| "field_code_value FIELD_NO_SPACE = 1"
| "field_code_value FIELD_NO_OCCURRENCE = 2"
| "field_code_value FIELD_UNKNOWN_ID = 3"
| "field_code_value FIELD_INVALID_BUFFER = 4"
| "field_code_value FIELD_INVALID_ID = 5"
| "field_code_value FIELD_INVALID_TYPE = 6"
| "field_code_value FIELD_INVALID_ARGUMENT = 7"
| "field_code_value FIELD_SYSTEM_FAILURE = 8"
| "field_code_value FIELD_INTERNAL_FAILURE = 9"

section \<open>The loops of the C functions\<close>

text \<open>\<open>while( occurrences) remove( buffer, id, --occurrences)\<close>\<close>

fun remove_loop :: "('b \<Rightarrow> int \<Rightarrow> int \<Rightarrow> bool \<times> 'b) \<Rightarrow> 'b \<Rightarrow> int \<Rightarrow> nat \<Rightarrow> 'b" where
  "remove_loop rm b i 0 = b"
| "remove_loop rm b i (Suc k) = remove_loop rm (snd (rm b i (int k))) i k"

text \<open>
  The recursion of \<open>CasualFieldChangeValue\<close>: update, and while the occurrence is missing add an
  empty one and try again. \<open>None\<close> is a recursion that does not end.
\<close>

partial_function (option) change_loop ::
    "('b \<Rightarrow> field_code \<times> 'b) \<Rightarrow> ('b \<Rightarrow> field_code \<times> 'b) \<Rightarrow> 'b \<Rightarrow> (field_code \<times> 'b) option" where
  "change_loop upd add b =
     (case upd b of (c, b1) \<Rightarrow>
        if c = FIELD_NO_OCCURRENCE then
          (case add b1 of (c2, b2) \<Rightarrow>
             if c2 \<noteq> FIELD_SUCCESS then Some (c2, b2) else change_loop upd add b2)
        else Some (c, b1))"

section \<open>What a buffer promises\<close>

definition remove_nth :: "nat \<Rightarrow> 'a list \<Rightarrow> 'a list" where
  "remove_nth n xs = take n xs @ drop (Suc n) xs"

lemma length_remove_nth: "n < length xs \<Longrightarrow> length (remove_nth n xs) = length xs - 1"
  by (simp add: remove_nth_def)

lemma remove_nth_last: "length xs = Suc n \<Longrightarrow> remove_nth n xs = take n xs"
  by (simp add: remove_nth_def)

locale field_store =
  fixes inv :: "'b \<Rightarrow> bool"
    and occs :: "'b \<Rightarrow> int \<Rightarrow> byte list list"
    and append :: "'b \<Rightarrow> int \<Rightarrow> byte list \<Rightarrow> bool \<times> 'b"
    and update :: "'b \<Rightarrow> int \<Rightarrow> int \<Rightarrow> byte list \<Rightarrow> bool \<times> 'b"
    and remove :: "'b \<Rightarrow> int \<Rightarrow> int \<Rightarrow> bool \<times> 'b"
    and storable :: "int \<Rightarrow> byte list \<Rightarrow> bool"
  assumes append_true: "inv b \<Longrightarrow> storable i d \<Longrightarrow> append b i d = (True, b') \<Longrightarrow>
      inv b' \<and> occs b' = (occs b)(i := occs b i @ [d])"
    and append_false: "append b i d = (False, b') \<Longrightarrow> b' = b"
    and update_true: "inv b \<Longrightarrow> storable i d \<Longrightarrow> update b i n d = (True, b') \<Longrightarrow>
      inv b' \<and> 0 \<le> n \<and> nat n < length (occs b i) \<and>
      occs b' = (occs b)(i := (occs b i)[nat n := d])"
    and update_false: "update b i n d = (False, b') \<Longrightarrow> b' = b"
    and remove_hit: "inv b \<Longrightarrow> 0 \<le> n \<Longrightarrow> nat n < length (occs b i) \<Longrightarrow>
      \<exists>b'. remove b i n = (True, b') \<and> inv b' \<and> occs b' = (occs b)(i := remove_nth (nat n) (occs b i))"
    and remove_miss: "inv b \<Longrightarrow> \<not> (0 \<le> n \<and> nat n < length (occs b i)) \<Longrightarrow> remove b i n = (False, b)"
begin

lemma remove_loop_all:
  "inv b \<Longrightarrow> length (occs b i) = k \<Longrightarrow>
   inv (remove_loop remove b i k) \<and> occs (remove_loop remove b i k) = (occs b)(i := [])"
proof (induction k arbitrary: b)
  case (Suc k)
  obtain b' where b': "remove b i (int k) = (True, b')" "inv b'"
      "occs b' = (occs b)(i := remove_nth k (occs b i))"
    using remove_hit [of b "int k" i] Suc.prems by auto
  then have "length (occs b' i) = k" using Suc.prems by (simp add: length_remove_nth)
  with Suc.IH [of b'] b' show ?case by (simp add: fun_upd_upd del: fun_upd_apply)
qed (simp add: fun_eq_iff)

text \<open>
  The recursion ends when the update reports a missing occurrence exactly while there is one, and the
  empty value can be stored: each round adds one occurrence.
\<close>

lemma change_loop_returns:
  assumes upd: "\<And>b. inv b \<Longrightarrow> fst (upd b) = FIELD_NO_OCCURRENCE \<Longrightarrow>
      snd (upd b) = b \<and> length (occs b i) \<le> nat n"
    and add: "\<And>b. inv b \<Longrightarrow> fst (add b) = FIELD_SUCCESS \<Longrightarrow>
      inv (snd (add b)) \<and> length (occs b i) < length (occs (snd (add b)) i)"
    and stop: "\<And>b. inv b \<Longrightarrow> fst (upd b) \<noteq> FIELD_NO_OCCURRENCE \<Longrightarrow> R (upd b)"
    and fail: "\<And>b. inv b \<Longrightarrow> fst (add b) \<noteq> FIELD_SUCCESS \<Longrightarrow> R (add b)"
  shows "inv b \<Longrightarrow> \<exists>r. change_loop upd add b = Some r \<and> R r"
proof (induction "Suc (nat n) - length (occs b i)" arbitrary: b rule: less_induct)
  case less
  obtain c b1 where u: "upd b = (c, b1)" by fastforce
  obtain c2 b2 where a: "add b1 = (c2, b2)" by fastforce
  show ?case
  proof (cases "c = FIELD_NO_OCCURRENCE \<and> c2 = FIELD_SUCCESS")
    case True
    with upd [OF less.prems] u have b1: "b1 = b" "length (occs b i) \<le> nat n" by auto
    with add [OF less.prems] a True have "inv b2" "length (occs b i) < length (occs b2 i)" by auto
    with less.hyps [of b2] b1 have "\<exists>r. change_loop upd add b2 = Some r \<and> R r" by simp
    with True u a show ?thesis by (subst change_loop.simps) simp
  next
    case False
    show ?thesis
    proof (cases "c = FIELD_NO_OCCURRENCE")
      case True
      with upd [OF less.prems] u False fail [OF less.prems] a have "R (c2, b2)" by auto
      with True False u a show ?thesis by (subst change_loop.simps) simp
    next
      case no: False
      with stop [OF less.prems] u show ?thesis by (subst change_loop.simps) simp
    qed
  qed
qed

end

end
