(* ===== verification/Field_Buffer.thy ===== *)
theory Field_Buffer
  imports Field_Store
begin

text \<open>
  The field buffer of middleware/buffer (\<open>source/field.cpp\<close>, class \<open>Buffer\<close>): a byte
  vector holding fields laid out as \<open>|id|size|data|\<close> in network byte order, beside an index of
  (id, offset) pairs. \<open>long\<close> values are \<open>int\<close>; unsigned comparisons are taken modulo
  \<open>2 ^ 64\<close> as the source's \<open>size_type\<close> arithmetic does. The second half of the theory
  relates a buffer to the list of fields it stands for (\<open>fb_rep\<close>) and shows that each operation
  is the obvious one on that list, stays inside the vector and never needs a reallocation.
\<close>

section \<open>The buffer\<close>

record fbuf =
  fb_capacity :: nat
  fb_memory :: "byte list"
  fb_index :: "(int \<times> int) list"

definition item_offset :: nat where "item_offset = 0"
definition size_offset :: nat where "size_offset = 8"
definition data_offset :: nat where "data_offset = 16"

definition fb_reserved :: "fbuf \<Rightarrow> nat" where
  "fb_reserved b = fb_capacity b"

definition fb_utilized :: "fbuf \<Rightarrow> nat" where
  "fb_utilized b = length (fb_memory b)"

text \<open>\<open>transport\<close> throws when the user claims more than is allocated.\<close>

definition fb_transport :: "fbuf \<Rightarrow> nat \<Rightarrow> nat option" where
  "fb_transport b user_size = (if user_size > fb_reserved b then None else Some (fb_utilized b))"

text \<open>
  \<open>find_if_index\<close>: \<open>p( item) && !(i--)\<close>. The count goes down at every match, so a
  negative index is never met. The result is a position; the length of the list stands for
  \<open>end()\<close>.
\<close>

fun find_if_index :: "('a \<Rightarrow> bool) \<Rightarrow> 'a list \<Rightarrow> int \<Rightarrow> nat" where
  "find_if_index p [] i = 0"
| "find_if_index p (x # xs) i =
     (if p x then (if i = 0 then 0 else Suc (find_if_index p xs (i - 1)))
      else Suc (find_if_index p xs i))"

definition fb_position :: "fbuf \<Rightarrow> int \<Rightarrow> int \<Rightarrow> nat" where
  "fb_position b fid occurrence = find_if_index (\<lambda>e. fst e = fid) (fb_index b) occurrence"

text \<open>\<open>offset\<close>: \<open>None\<close> is the \<open>std::out_of_range\<close> of \<open>at\<close>.\<close>

definition fb_offset :: "fbuf \<Rightarrow> int \<Rightarrow> int \<Rightarrow> int option" where
  "fb_offset b fid occurrence =
     (let k = fb_position b fid occurrence
      in if k < length (fb_index b) then Some (snd (fb_index b ! k)) else None)"

definition fb_find :: "fbuf \<Rightarrow> int \<Rightarrow> int \<Rightarrow> nat option" where
  "fb_find b fid occurrence = map_option nat (fb_offset b fid occurrence)"

definition read_long :: "byte list \<Rightarrow> nat \<Rightarrow> int" where
  "read_long mem pos = decode_long (take 8 (drop pos mem))"

definition overwrite :: "nat \<Rightarrow> byte list \<Rightarrow> byte list \<Rightarrow> byte list" where
  "overwrite pos bs mem = take pos mem @ bs @ drop (pos + length bs) mem"

definition splice :: "nat \<Rightarrow> nat \<Rightarrow> byte list \<Rightarrow> byte list \<Rightarrow> byte list" where
  "splice pos n bs mem = take pos mem @ bs @ drop (pos + n) mem"

text \<open>\<open>append( id, value, count)\<close>; \<open>data\<close> is the \<open>count\<close> bytes at \<open>value\<close>.\<close>

definition fb_append :: "fbuf \<Rightarrow> int \<Rightarrow> byte list \<Rightarrow> bool \<times> fbuf" where
  "fb_append b fid data =
     (let count = int (length data);
          total = to_unsigned 8 (int (fb_utilized b) + int data_offset + count)
      in if total > fb_reserved b then (False, b)
         else (True, b\<lparr>fb_index := fb_index b @ [(fid, int (fb_utilized b))],
                       fb_memory := fb_memory b @ encode_long fid @ encode_long count @ data\<rparr>))"

text \<open>A C string is appended with its terminating null.\<close>

definition fb_append_string :: "fbuf \<Rightarrow> int \<Rightarrow> byte list \<Rightarrow> bool \<times> fbuf" where
  "fb_append_string b fid text = fb_append b fid (takeWhile (\<lambda>c. c \<noteq> 0) text @ [0])"

text \<open>A native value of \<open>n\<close> bytes with the unsigned pattern \<open>v\<close>.\<close>

definition fb_append_value :: "fbuf \<Rightarrow> int \<Rightarrow> nat \<Rightarrow> nat \<Rightarrow> bool \<times> fbuf" where
  "fb_append_value b fid n v = fb_append b fid (be_bytes n v)"

text \<open>The three \<open>select\<close>s: where the data is and its size, the position of the text, the value.\<close>

definition fb_select :: "fbuf \<Rightarrow> int \<Rightarrow> int \<Rightarrow> (nat \<times> int) option" where
  "fb_select b fid occurrence =
     (case fb_find b fid occurrence of
        None \<Rightarrow> None
      | Some where' \<Rightarrow> Some (where' + data_offset, read_long (fb_memory b) (where' + size_offset)))"

definition fb_select_string :: "fbuf \<Rightarrow> int \<Rightarrow> int \<Rightarrow> nat option" where
  "fb_select_string b fid occurrence = map_option (\<lambda>w. w + data_offset) (fb_find b fid occurrence)"

definition fb_select_value :: "fbuf \<Rightarrow> int \<Rightarrow> int \<Rightarrow> nat \<Rightarrow> nat option" where
  "fb_select_value b fid occurrence n =
     map_option (\<lambda>w. be_value (take n (drop (w + data_offset) (fb_memory b))))
       (fb_find b fid occurrence)"

text \<open>\<open>update_second\<close> applied to the entries from position \<open>k\<close> on.\<close>

definition shift_from :: "nat \<Rightarrow> int \<Rightarrow> (int \<times> int) list \<Rightarrow> (int \<times> int) list" where
  "shift_from k d idx = take k idx @ map (\<lambda>e. (fst e, snd e + d)) (drop k idx)"

definition fb_update :: "fbuf \<Rightarrow> int \<Rightarrow> int \<Rightarrow> byte list \<Rightarrow> bool \<times> fbuf" where
  "fb_update b fid occurrence data =
     (let k = fb_position b fid occurrence; size = int (length data)
      in if k < length (fb_index b) then
           let pos = nat (snd (fb_index b ! k));
               count = read_long (fb_memory b) (pos + size_offset)
           in if to_unsigned 8 (int (fb_utilized b) - count + size) > fb_reserved b then (False, b)
              else (True, b\<lparr>
                fb_memory := splice (pos + data_offset) (nat count) data
                               (overwrite (pos + size_offset) (encode_long size) (fb_memory b)),
                fb_index := shift_from (Suc k) (size - count) (fb_index b)\<rparr>)
         else (False, b))"

definition fb_update_string :: "fbuf \<Rightarrow> int \<Rightarrow> int \<Rightarrow> byte list \<Rightarrow> bool \<times> fbuf" where
  "fb_update_string b fid occurrence text =
     fb_update b fid occurrence (takeWhile (\<lambda>c. c \<noteq> 0) text @ [0])"

definition fb_update_value :: "fbuf \<Rightarrow> int \<Rightarrow> int \<Rightarrow> nat \<Rightarrow> nat \<Rightarrow> bool \<times> fbuf" where
  "fb_update_value b fid occurrence n v =
     (case fb_offset b fid occurrence of
        None \<Rightarrow> (False, b)
      | Some pos \<Rightarrow> (True, b\<lparr>fb_memory := overwrite (nat pos + data_offset) (be_bytes n v) (fb_memory b)\<rparr>))"

definition fb_remove :: "fbuf \<Rightarrow> int \<Rightarrow> int \<Rightarrow> bool \<times> fbuf" where
  "fb_remove b fid occurrence =
     (let k = fb_position b fid occurrence
      in if k < length (fb_index b) then
           let pos = nat (snd (fb_index b ! k));
               count = read_long (fb_memory b) (pos + size_offset)
           in (True, b\<lparr>
                fb_memory := splice pos (data_offset + nat count) [] (fb_memory b),
                fb_index := take k (fb_index b) @
                  map (\<lambda>e. (fst e, snd e + (0 - int data_offset - count))) (drop (Suc k) (fb_index b))\<rparr>)
         else (False, b))"

definition fb_reset :: "fbuf \<Rightarrow> fbuf" where
  "fb_reset b = b\<lparr>fb_memory := [], fb_index := []\<rparr>"

definition fb_length :: "fbuf \<Rightarrow> int \<Rightarrow> int \<Rightarrow> int option" where
  "fb_length b fid occurrence =
     map_option (\<lambda>w. read_long (fb_memory b) (w + size_offset)) (fb_find b fid occurrence)"

definition fb_count :: "fbuf \<Rightarrow> int" where
  "fb_count b = int (length (fb_index b))"

definition fb_count_id :: "fbuf \<Rightarrow> int \<Rightarrow> int" where
  "fb_count_id b fid = int (length (filter (\<lambda>e. fst e = fid) (fb_index b)))"

text \<open>
  \<open>update_index\<close>: the loop that rebuilds the index from the bytes. A header read outside the
  vector is undefined behaviour in the source and the outcome \<open>Overrun\<close> here; a loop that does
  not end is \<open>None\<close>.
\<close>

datatype index_result = Index "(int \<times> int) list" | Overrun

partial_function (option) update_index_from ::
    "byte list \<Rightarrow> int \<Rightarrow> (int \<times> int) list \<Rightarrow> index_result option" where
  "update_index_from mem cursor acc =
     (if cursor < int (length mem) then
        (if cursor < 0 \<or> int (length mem) < cursor + int data_offset then Some Overrun
         else update_index_from mem
                (cursor + (int data_offset + read_long mem (nat cursor + size_offset)))
                (acc @ [(read_long mem (nat cursor + item_offset), cursor)]))
      else Some (Index acc))"

definition update_index :: "byte list \<Rightarrow> index_result option" where
  "update_index mem = update_index_from mem 0 []"

text \<open>\<open>copy\<close> from another buffer and from raw memory.\<close>

definition fb_copy :: "fbuf \<Rightarrow> fbuf \<Rightarrow> bool \<times> fbuf" where
  "fb_copy b other =
     (if fb_reserved b < fb_utilized other then (False, b)
      else (True, b\<lparr>fb_memory := fb_memory other, fb_index := fb_index other\<rparr>))"

datatype copy_result = Copied bool fbuf | Copy_overrun

definition fb_copy_memory :: "fbuf \<Rightarrow> byte list \<Rightarrow> nat \<Rightarrow> copy_result option" where
  "fb_copy_memory b data bytes =
     (if fb_capacity b < bytes then Some (Copied False b)
      else (case update_index (take bytes data) of
              None \<Rightarrow> None
            | Some Overrun \<Rightarrow> Some Copy_overrun
            | Some (Index idx) \<Rightarrow>
                Some (Copied True (b\<lparr>fb_memory := take bytes data, fb_index := idx\<rparr>))))"

section \<open>The fields a buffer stands for\<close>

type_synonym field = "int \<times> byte list"

definition enc_field :: "field \<Rightarrow> byte list" where
  "enc_field f = encode_long (fst f) @ encode_long (int (length (snd f))) @ snd f"

definition flatten :: "field list \<Rightarrow> byte list" where
  "flatten fs = concat (map enc_field fs)"

fun idx_from :: "int \<Rightarrow> field list \<Rightarrow> (int \<times> int) list" where
  "idx_from start [] = []"
| "idx_from start (f # fs) = (fst f, start) # idx_from (start + 16 + int (length (snd f))) fs"

text \<open>
  No allocation and no value handed to the library reaches \<open>2 ^ 62\<close> bytes, so that the unsigned
  sums of the source do not wrap.
\<close>

definition max_bytes :: nat where "max_bytes = 2 ^ 62"

definition fb_rep :: "fbuf \<Rightarrow> field list \<Rightarrow> bool" where
  "fb_rep b fs \<longleftrightarrow>
     fb_memory b = flatten fs \<and> fb_index b = idx_from 0 fs \<and>
     (\<forall>f\<in>set fs. in_range 8 (fst f)) \<and>
     length (flatten fs) \<le> fb_capacity b \<and> fb_capacity b < max_bytes"

definition fs_position :: "field list \<Rightarrow> int \<Rightarrow> int \<Rightarrow> nat" where
  "fs_position fs i occurrence = find_if_index (\<lambda>f. fst f = i) fs occurrence"

definition fs_count :: "field list \<Rightarrow> int \<Rightarrow> nat" where
  "fs_count fs i = length (filter (\<lambda>f. fst f = i) fs)"

lemma length_enc_field [simp]: "length (enc_field f) = 16 + length (snd f)"
  by (simp add: enc_field_def)

lemma flatten_simps [simp]:
  "flatten [] = []" "flatten (f # fs) = enc_field f @ flatten fs"
  "flatten (fs @ gs) = flatten fs @ flatten gs"
  by (simp_all add: flatten_def)

lemma length_idx_from [simp]: "length (idx_from s fs) = length fs"
  by (induction fs arbitrary: s) auto

lemma idx_from_append [simp]:
  "idx_from s (fs @ gs) = idx_from s fs @ idx_from (s + int (length (flatten fs))) gs"
  by (induction fs arbitrary: s) (auto simp: algebra_simps)

lemma idx_from_shift: "map (\<lambda>e. (fst e, snd e + d)) (idx_from s fs) = idx_from (s + d) fs"
  by (induction fs arbitrary: s) (auto simp: algebra_simps)

lemma find_if_index_idx:
  "find_if_index (\<lambda>e. fst e = i) (idx_from s fs) n = find_if_index (\<lambda>f. fst f = i) fs n"
  by (induction fs arbitrary: s n) auto

lemma filter_idx:
  "length (filter (\<lambda>e. fst e = i) (idx_from s fs)) = length (filter (\<lambda>f. fst f = i) fs)"
  by (induction fs arbitrary: s) auto

subsection \<open>Positions of occurrences\<close>

lemma find_if_index_le: "find_if_index p xs n \<le> length xs"
  by (induction xs arbitrary: n) auto

lemma find_if_index_hit:
  assumes "find_if_index p xs n < length xs"
  shows "p (xs ! find_if_index p xs n) \<and> length (filter p (take (find_if_index p xs n) xs)) = nat n \<and> 0 \<le> n"
  using assms
proof (induction xs arbitrary: n)
  case (Cons x xs)
  show ?case
  proof (cases "p x \<and> n \<noteq> 0")
    case True
    with Cons.prems have "find_if_index p xs (n - 1) < length xs" by simp
    with Cons.IH True show ?thesis by fastforce
  next
    case False
    with Cons show ?thesis by (cases "p x") auto
  qed
qed simp

lemma find_if_index_found:
  "find_if_index p xs n < length xs \<longleftrightarrow> 0 \<le> n \<and> nat n < length (filter p xs)"
proof (induction xs arbitrary: n)
  case (Cons x xs)
  show ?case
  proof (cases "p x")
    case True
    with Cons [of "n - 1"] show ?thesis by (cases "n = 0") (auto simp: nat_less_iff)
  qed (simp add: Cons)
qed simp

lemma fb_position_rep: "fb_rep b fs \<Longrightarrow> fb_position b i n = fs_position fs i n"
  by (simp add: fb_position_def fs_position_def fb_rep_def find_if_index_idx)

lemma length_index_rep: "fb_rep b fs \<Longrightarrow> length (fb_index b) = length fs"
  by (simp add: fb_rep_def)

lemma fs_position_less: "fs_position fs i n < length fs \<longleftrightarrow> 0 \<le> n \<and> nat n < fs_count fs i"
  by (simp add: fs_position_def fs_count_def find_if_index_found)

lemma fs_position_id: "fs_position fs i n < length fs \<Longrightarrow> fst (fs ! fs_position fs i n) = i"
  using find_if_index_hit [of "\<lambda>f. fst f = i" fs n] by (simp add: fs_position_def)

subsection \<open>Reading a field in place\<close>

lemma read_long_at:
  "in_range 8 v \<Longrightarrow> length xs = p \<Longrightarrow> read_long (xs @ encode_long v @ ys) p = v"
  by (auto simp: read_long_def decode_encode_int)

lemma flatten_split:
  "k < length fs \<Longrightarrow> flatten fs = flatten (take k fs) @ enc_field (fs ! k) @ flatten (drop (Suc k) fs)"
  by (subst id_take_nth_drop [of k fs]) (auto simp del: append_take_drop_id)

lemma idx_split:
  assumes "k < length fs"
  shows "idx_from 0 fs = idx_from 0 (take k fs) @ (fst (fs ! k), int (length (flatten (take k fs)))) #
    idx_from (int (length (flatten (take k fs))) + 16 + int (length (snd (fs ! k)))) (drop (Suc k) fs)"
  using assms by (subst id_take_nth_drop [of k fs]) (auto simp del: append_take_drop_id)

lemma to_unsigned_8: "0 \<le> i \<Longrightarrow> i < 2 ^ 64 \<Longrightarrow> to_unsigned 8 i = nat i"
  by (simp add: to_unsigned_def)

lemma in_range_small: "n < 2 * max_bytes \<Longrightarrow> in_range 8 (int n)"
  by (simp add: in_range_def max_bytes_def)

text \<open>
  Where field \<open>k\<close> lies: the index entry is its offset, its header holds its id and size, its data
  follows, and all of it is inside the vector.
\<close>

lemma rep_field_at:
  assumes rep: "fb_rep b fs" and k: "k < length fs"
  defines "p \<equiv> length (flatten (take k fs))"
  shows "snd (fb_index b ! k) = int p"
    and "read_long (fb_memory b) (p + size_offset) = int (length (snd (fs ! k)))"
    and "take (length (snd (fs ! k))) (drop (p + data_offset) (fb_memory b)) = snd (fs ! k)"
    and "p + data_offset + length (snd (fs ! k)) \<le> length (fb_memory b)"
proof -
  have mem: "fb_memory b = flatten (take k fs) @ enc_field (fs ! k) @ flatten (drop (Suc k) fs)"
    using rep k by (simp add: fb_rep_def flatten_split [OF k])
  have "length (snd (fs ! k)) \<le> length (fb_memory b)" by (simp add: mem)
  then have len: "length (snd (fs ! k)) < max_bytes"
    using rep by (simp add: fb_rep_def)
  show "snd (fb_index b ! k) = int p"
    using rep k by (simp add: fb_rep_def idx_split [OF k] p_def nth_append)
  have hdr: "fb_memory b = (flatten (take k fs) @ encode_long (fst (fs ! k))) @
      encode_long (int (length (snd (fs ! k)))) @ snd (fs ! k) @ flatten (drop (Suc k) fs)"
    using mem by (simp add: enc_field_def)
  have "in_range 8 (int (length (snd (fs ! k))))"
    using len by (intro in_range_small) simp
  then show "read_long (fb_memory b) (p + size_offset) = int (length (snd (fs ! k)))"
    by (subst hdr, intro read_long_at) (simp_all add: p_def size_offset_def)
  show "take (length (snd (fs ! k))) (drop (p + data_offset) (fb_memory b)) = snd (fs ! k)"
    by (simp add: mem p_def data_offset_def enc_field_def)
  show "p + data_offset + length (snd (fs ! k)) \<le> length (fb_memory b)"
    by (simp add: mem p_def data_offset_def)
qed

lemma fb_offset_rep:
  assumes rep: "fb_rep b fs"
  shows "fb_offset b i n = (if fs_position fs i n < length fs
    then Some (int (length (flatten (take (fs_position fs i n) fs)))) else None)"
  using rep_field_at(1) [OF rep] rep
  by (simp add: fb_offset_def Let_def fb_position_rep length_index_rep)

lemma fb_find_rep:
  "fb_rep b fs \<Longrightarrow> fb_find b i n = (if fs_position fs i n < length fs
    then Some (length (flatten (take (fs_position fs i n) fs))) else None)"
  by (simp add: fb_find_def fb_offset_rep)

subsection \<open>Each operation on the list of fields\<close>

definition fs_select :: "field list \<Rightarrow> int \<Rightarrow> int \<Rightarrow> byte list option" where
  "fs_select fs i n = (let k = fs_position fs i n in if k < length fs then Some (snd (fs ! k)) else None)"

definition fs_update :: "field list \<Rightarrow> int \<Rightarrow> int \<Rightarrow> byte list \<Rightarrow> field list" where
  "fs_update fs i n d = (let k = fs_position fs i n in fs[k := (i, d)])"

definition fs_remove :: "field list \<Rightarrow> int \<Rightarrow> int \<Rightarrow> field list" where
  "fs_remove fs i n = (let k = fs_position fs i n in take k fs @ drop (Suc k) fs)"

definition fs_bytes :: "field list \<Rightarrow> nat" where
  "fs_bytes fs = (\<Sum>f\<leftarrow>fs. 16 + length (snd f))"

lemma fs_bytes_simps [simp]:
  "fs_bytes [] = 0" "fs_bytes (f # fs) = 16 + length (snd f) + fs_bytes fs"
  "fs_bytes (fs @ gs) = fs_bytes fs + fs_bytes gs"
  by (simp_all add: fs_bytes_def)

lemma length_flatten: "length (flatten fs) = fs_bytes fs"
  by (induction fs) auto

lemma fb_utilized_rep:
  assumes "fb_rep b fs"
  shows "fb_utilized b = fs_bytes fs" "fs_bytes fs \<le> fb_capacity b" "fs_bytes fs < max_bytes"
  using assms by (auto simp: fb_rep_def fb_utilized_def length_flatten)

lemma fb_append_rep:
  assumes rep: "fb_rep b fs" and i: "in_range 8 i" and d: "length d < max_bytes"
  shows "fb_append b i d = (fs_bytes fs + 16 + length d \<le> fb_capacity b, snd (fb_append b i d))"
    and "fb_rep (snd (fb_append b i d))
           (if fs_bytes fs + 16 + length d \<le> fb_capacity b then fs @ [(i, d)] else fs)"
    and "fb_capacity (snd (fb_append b i d)) = fb_capacity b"
proof -
  have u: "length (fb_memory b) = fs_bytes fs" "fs_bytes fs < max_bytes"
    using fb_utilized_rep [OF rep] by (auto simp: fb_utilized_def)
  have t: "to_unsigned 8 (int (fb_utilized b) + int data_offset + int (length d))
      = fs_bytes fs + 16 + length d"
    using u d by (subst to_unsigned_8) (auto simp: fb_utilized_def data_offset_def max_bytes_def)
  show "fb_append b i d = (fs_bytes fs + 16 + length d \<le> fb_capacity b, snd (fb_append b i d))"
    by (simp add: fb_append_def Let_def t fb_reserved_def)
  show "fb_rep (snd (fb_append b i d))
      (if fs_bytes fs + 16 + length d \<le> fb_capacity b then fs @ [(i, d)] else fs)"
    using rep i u t [unfolded fb_utilized_def u(1)]
    by (auto simp: fb_append_def Let_def fb_reserved_def fb_rep_def fb_utilized_def enc_field_def
        length_flatten)
  show "fb_capacity (snd (fb_append b i d)) = fb_capacity b"
    by (simp add: fb_append_def Let_def)
qed

lemma fb_remove_rep:
  assumes rep: "fb_rep b fs"
  shows "fst (fb_remove b i n) = (fs_position fs i n < length fs)"
    and "fb_rep (snd (fb_remove b i n)) (fs_remove fs i n)"
    and "fb_capacity (snd (fb_remove b i n)) = fb_capacity b"
proof -
  let ?k = "fs_position fs i n"
  show "fst (fb_remove b i n) = (?k < length fs)"
    using rep by (simp add: fb_remove_def Let_def fb_position_rep length_index_rep)
  show "fb_capacity (snd (fb_remove b i n)) = fb_capacity b"
    by (simp add: fb_remove_def Let_def)
  show "fb_rep (snd (fb_remove b i n)) (fs_remove fs i n)"
  proof (cases "?k < length fs")
    case True
    note at = rep_field_at [OF rep True]
    have mem: "fb_memory b = flatten (take ?k fs) @ enc_field (fs ! ?k) @ flatten (drop (Suc ?k) fs)"
      and idx: "fb_index b = idx_from 0 fs"
      using rep flatten_split [OF True] by (simp_all add: fb_rep_def)
    have b': "snd (fb_remove b i n) = b\<lparr>fb_memory := flatten (fs_remove fs i n),
        fb_index := idx_from 0 (fs_remove fs i n)\<rparr>"
      using True at rep
      by (simp add: fb_remove_def Let_def fb_position_rep length_index_rep mem splice_def
          data_offset_def fs_remove_def)
        (simp add: idx idx_split [OF True] idx_from_shift)
    have "length (flatten (fs_remove fs i n)) \<le> length (flatten fs)"
      by (simp add: fs_remove_def Let_def flatten_split [OF True])
    moreover have "set (fs_remove fs i n) \<subseteq> set fs"
      by (auto simp: fs_remove_def Let_def dest: in_set_takeD in_set_dropD)
    ultimately show ?thesis
      using rep by (auto simp: fb_rep_def b')
  next
    case False
    with rep show ?thesis
      by (simp add: fb_remove_def fs_remove_def Let_def fb_position_rep length_index_rep)
  qed
qed

lemma fb_update_rep:
  fixes i n :: int
  assumes rep: "fb_rep b fs" and d: "length d < max_bytes"
  defines "k \<equiv> fs_position fs i n"
  defines "fits \<equiv> k < length fs \<and> fs_bytes fs - length (snd (fs ! k)) + length d \<le> fb_capacity b"
  shows "fst (fb_update b i n d) = fits"
    and "fb_rep (snd (fb_update b i n d)) (if fits then fs_update fs i n d else fs)"
    and "fb_capacity (snd (fb_update b i n d)) = fb_capacity b"
proof -
  show "fb_capacity (snd (fb_update b i n d)) = fb_capacity b"
    by (simp add: fb_update_def Let_def)
  have "fst (fb_update b i n d) = fits \<and>
    fb_rep (snd (fb_update b i n d)) (if fits then fs_update fs i n d else fs)"
  proof (cases "k < length fs")
    case True
    let ?p = "length (flatten (take k fs))" and ?c = "length (snd (fs ! k))"
    note at = rep_field_at [OF rep True]
    have mem: "fb_memory b = flatten (take k fs) @ enc_field (fs ! k) @ flatten (drop (Suc k) fs)"
      and idx: "fb_index b = idx_from 0 fs"
      using rep flatten_split [OF True] by (simp_all add: fb_rep_def)
    note u = fb_utilized_rep [OF rep]
    have c: "?c \<le> fs_bytes fs"
      using arg_cong [OF flatten_split [OF True], of length] by (simp add: length_flatten)
    have t: "to_unsigned 8 (int (fs_bytes fs) - int ?c + int (length d)) = fs_bytes fs - ?c + length d"
      using u c d by (subst to_unsigned_8) (auto simp: max_bytes_def)
    have fst_k: "fst (fs ! k) = i"
      using fs_position_id True by (simp add: k_def)
    have upd: "fs_update fs i n d = take k fs @ (i, d) # drop (Suc k) fs"
      using True by (simp add: fs_update_def Let_def k_def upd_conv_take_nth_drop)
    have b': "fb_update b i n d = (if fs_bytes fs - ?c + length d > fb_capacity b then (False, b)
        else (True, b\<lparr>fb_memory := flatten (fs_update fs i n d),
                    fb_index := idx_from 0 (fs_update fs i n d)\<rparr>))"
      using True at rep u fst_k
      by (simp add: fb_update_def Let_def fb_position_rep [OF rep] length_index_rep [OF rep]
          k_def [symmetric] t fb_reserved_def)
        (simp add: mem splice_def overwrite_def data_offset_def size_offset_def enc_field_def upd
          idx idx_split [OF True] idx_from_shift shift_from_def add.assoc)
    have "length (flatten (fs_update fs i n d)) = fs_bytes fs - ?c + length d"
      using arg_cong [OF flatten_split [OF True], of length] by (simp add: upd length_flatten)
    moreover have "in_range 8 i"
      using rep True fst_k by (metis fb_rep_def nth_mem)
    ultimately show ?thesis
      using rep True by (auto simp: fits_def b' fb_rep_def upd dest: in_set_takeD in_set_dropD)
  next
    case False
    with rep show ?thesis
      by (simp add: fits_def fb_update_def Let_def fb_position_rep length_index_rep k_def)
  qed
  then show "fst (fb_update b i n d) = fits"
    and "fb_rep (snd (fb_update b i n d)) (if fits then fs_update fs i n d else fs)" by simp_all
qed

lemma fb_select_rep:
  assumes rep: "fb_rep b fs"
  shows "map_option (\<lambda>(p, c). take (nat c) (drop p (fb_memory b))) (fb_select b i n) = fs_select fs i n"
    and "fb_select b i n = Some (p, c) \<Longrightarrow> 0 \<le> c \<and> p + nat c \<le> length (fb_memory b)"
  using rep_field_at [OF rep]
  by (auto simp: fb_select_def fb_find_rep [OF rep] fs_select_def Let_def split: if_splits)

lemma fb_select_value_rep:
  assumes rep: "fb_rep b fs" and "fs_select fs i n = Some d" and "m \<le> length d"
  shows "fb_select_value b i n m = Some (be_value (take m d))"
proof -
  let ?k = "fs_position fs i n"
  have k: "?k < length fs" and d: "d = snd (fs ! ?k)"
    using assms by (auto simp: fs_select_def Let_def split: if_splits)
  have "take m (drop (length (flatten (take ?k fs)) + data_offset) (fb_memory b)) = take m d"
    using arg_cong [OF rep_field_at(3) [OF rep k], of "take m"] assms(3)
    by (simp add: d min_def)
  with k show ?thesis by (simp add: fb_select_value_def fb_find_rep [OF rep])
qed

lemma fb_update_value_rep:
  fixes i n :: int
  assumes rep: "fb_rep b fs" and old: "fs_select fs i n = Some d" and m: "length d = m"
  shows "fb_update_value b i n m v = (True, snd (fb_update_value b i n m v))"
    and "fb_rep (snd (fb_update_value b i n m v)) (fs_update fs i n (be_bytes m v))"
proof -
  let ?k = "fs_position fs i n"
  have k: "?k < length fs" and d: "snd (fs ! ?k) = d"
    using old by (auto simp: fs_select_def Let_def split: if_splits)
  have mem: "fb_memory b = flatten (take ?k fs) @ enc_field (fs ! ?k) @ flatten (drop (Suc ?k) fs)"
    and idx: "fb_index b = idx_from 0 fs"
    using rep flatten_split [OF k] by (simp_all add: fb_rep_def)
  have i: "fst (fs ! ?k) = i" using fs_position_id k by simp
  have upd: "fs_update fs i n (be_bytes m v) = take ?k fs @ (i, be_bytes m v) # drop (Suc ?k) fs"
    using k by (simp add: fs_update_def Let_def upd_conv_take_nth_drop)
  have off: "fb_offset b i n = Some (int (length (flatten (take ?k fs))))"
    using k by (simp add: fb_offset_rep [OF rep])
  have "fb_update_value b i n m v = (True, b\<lparr>fb_memory := flatten (fs_update fs i n (be_bytes m v))\<rparr>)"
    using d m by (simp add: fb_update_value_def off mem overwrite_def data_offset_def enc_field_def upd i)
  moreover have "fb_index b = idx_from 0 (fs_update fs i n (be_bytes m v))"
    using d m i by (simp add: idx idx_split [OF k] upd)
  moreover have "length (flatten (fs_update fs i n (be_bytes m v))) = length (flatten fs)"
    using d m by (simp add: upd flatten_split [OF k])
  ultimately show "fb_update_value b i n m v = (True, snd (fb_update_value b i n m v))"
    and "fb_rep (snd (fb_update_value b i n m v)) (fs_update fs i n (be_bytes m v))"
    using rep k i by (auto simp: fb_rep_def upd dest: in_set_takeD in_set_dropD)
      (metis nth_mem)
qed

lemma fb_reset_rep: "fb_rep b fs \<Longrightarrow> fb_rep (fb_reset b) []"
  by (simp add: fb_rep_def fb_reset_def)

lemma fb_copy_rep:
  assumes "fb_rep b fs" and "fb_rep other gs"
  shows "fst (fb_copy b other) = (fs_bytes gs \<le> fb_capacity b)"
    and "fb_rep (snd (fb_copy b other)) (if fs_bytes gs \<le> fb_capacity b then gs else fs)"
  using assms fb_utilized_rep [OF assms(2)]
  by (auto simp: fb_copy_def fb_reserved_def fb_rep_def length_flatten)

lemma fb_count_rep:
  "fb_rep b fs \<Longrightarrow> fb_count b = int (length fs)"
  "fb_rep b fs \<Longrightarrow> fb_count_id b i = int (fs_count fs i)"
  by (simp_all add: fb_count_def fb_count_id_def fb_rep_def filter_idx fs_count_def)

section \<open>Rebuilding the index\<close>

lemma update_index_from_flatten:
  assumes "\<forall>f\<in>set (xs @ ys). in_range 8 (fst f)" and "length (flatten (xs @ ys)) < max_bytes"
  shows "update_index_from (flatten (xs @ ys)) (int (length (flatten xs))) acc =
    Some (Index (acc @ idx_from (int (length (flatten xs))) ys))"
  using assms
proof (induction ys arbitrary: xs acc)
  case Nil
  then show ?case by (simp add: update_index_from.simps)
next
  case (Cons f ys)
  let ?mem = "flatten (xs @ f # ys)" and ?p = "length (flatten xs)"
  have id: "read_long ?mem (?p + item_offset) = fst f"
    using Cons.prems by (simp add: item_offset_def enc_field_def read_long_at)
  have hdr: "?mem = (flatten xs @ encode_long (fst f)) @
      encode_long (int (length (snd f))) @ snd f @ flatten ys"
    by (simp add: enc_field_def)
  have "in_range 8 (int (length (snd f)))"
    using Cons.prems by (intro in_range_small) simp
  then have size: "read_long ?mem (?p + size_offset) = int (length (snd f))"
    by (subst hdr, intro read_long_at) (simp_all add: size_offset_def)
  have IH: "update_index_from ?mem (int (length (flatten (xs @ [f])))) (acc @ [(fst f, int ?p)]) =
      Some (Index ((acc @ [(fst f, int ?p)]) @ idx_from (int (length (flatten (xs @ [f])))) ys))"
    using Cons.IH [of "xs @ [f]" "acc @ [(fst f, int ?p)]"] Cons.prems by simp
  have "update_index_from ?mem (int ?p) acc =
      update_index_from ?mem (int (length (flatten (xs @ [f])))) (acc @ [(fst f, int ?p)])"
    using id size by (subst update_index_from.simps) (simp add: data_offset_def add.assoc)
  with IH show ?case by (simp add: add.assoc)
qed

lemma update_index_rep: "fb_rep b fs \<Longrightarrow> update_index (fb_memory b) = Some (Index (fb_index b))"
  using update_index_from_flatten [of "[]" fs "[]"] by (auto simp: update_index_def fb_rep_def)

text \<open>
  A header whose size is \<open>-16\<close> sends the cursor back to where it was: the loop never ends.
\<close>

lemma update_index_from_loops:
  assumes "16 \<le> length mem" and "read_long mem 8 = - 16"
  shows "update_index_from mem 0 acc = None"
proof (rule ccontr)
  assume "update_index_from mem 0 acc \<noteq> None"
  then obtain r where r: "update_index_from mem 0 acc = Some r" by auto
  have "mem = mem \<longrightarrow> (0::int) = 0 \<longrightarrow> \<not> (16 \<le> length mem \<and> read_long mem 8 = - 16)"
  proof (rule update_index_from.raw_induct [where P = "\<lambda>m c acc r.
      m = mem \<longrightarrow> c = 0 \<longrightarrow> \<not> (16 \<le> length m \<and> read_long m 8 = - 16)", OF _ r])
    fix f m c acc r
    assume IH: "\<And>m c acc r. f m c acc = Some r \<Longrightarrow>
        m = mem \<longrightarrow> c = 0 \<longrightarrow> \<not> (16 \<le> length m \<and> read_long m 8 = - 16)"
      and eq: "(if c < int (length m)
          then if c < 0 \<or> int (length m) < c + int data_offset then Some Overrun
               else f m (c + (int data_offset + read_long m (nat c + size_offset)))
                     (acc @ [(read_long m (nat c + item_offset), c)])
          else Some (Index acc)) = Some r"
    show "m = mem \<longrightarrow> c = 0 \<longrightarrow> \<not> (16 \<le> length m \<and> read_long m 8 = - 16)"
      using eq IH [of m 0] by (auto simp: data_offset_def size_offset_def split: if_splits)
  qed
  with assms show False by simp
qed

section \<open>Occurrences\<close>

definition occurrences :: "field list \<Rightarrow> int \<Rightarrow> byte list list" where
  "occurrences fs i = map snd (filter (\<lambda>f. fst f = i) fs)"

lemma occurrences_append [simp]: "occurrences (fs @ gs) i = occurrences fs i @ occurrences gs i"
  by (simp add: occurrences_def)

lemma occurrences_Cons [simp]:
  "occurrences (f # fs) i = (if fst f = i then snd f # occurrences fs i else occurrences fs i)"
  by (simp add: occurrences_def)

lemma occurrences_Nil [simp]: "occurrences [] i = []"
  by (simp add: occurrences_def)

lemma length_occurrences: "length (occurrences fs i) = fs_count fs i"
  by (simp add: occurrences_def fs_count_def)

text \<open>The fields before a hit hold as many occurrences as the index asked for.\<close>

lemma occurrences_before:
  assumes "fs_position fs i n < length fs"
  shows "length (occurrences (take (fs_position fs i n) fs) i) = nat n \<and> 0 \<le> n"
  using find_if_index_hit [of "\<lambda>f. fst f = i" fs n] assms
  by (simp add: fs_position_def occurrences_def)

lemma split_at_hit:
  assumes "fs_position fs i n < length fs"
  obtains xs d ys where "fs = xs @ (i, d) # ys" "fs_position fs i n = length xs"
    "length (occurrences xs i) = nat n" "0 \<le> n"
proof -
  let ?k = "fs_position fs i n"
  have "fs = take ?k fs @ (i, snd (fs ! ?k)) # drop (Suc ?k) fs"
    using id_take_nth_drop [OF assms] fs_position_id [OF assms] by (metis prod.collapse)
  with occurrences_before [OF assms] assms that show thesis
    by (metis length_take less_or_eq_imp_le min.absorb2)
qed

lemma fs_select_occurrences:
  "fs_select fs i n =
    (if 0 \<le> n \<and> nat n < length (occurrences fs i) then Some (occurrences fs i ! nat n) else None)"
proof (cases "fs_position fs i n < length fs")
  case True
  then obtain xs d ys where "fs = xs @ (i, d) # ys" "fs_position fs i n = length xs"
    "length (occurrences xs i) = nat n" "0 \<le> n" by (rule split_at_hit)
  then show ?thesis by (simp add: fs_select_def nth_append)
next
  case False
  then show ?thesis
    by (auto simp: fs_select_def length_occurrences fs_position_less)
qed

lemma occurrences_update:
  assumes "fs_position fs i n < length fs"
  shows "occurrences (fs_update fs i n d) = (occurrences fs)(i := (occurrences fs i)[nat n := d])"
proof -
  obtain xs d' ys where "fs = xs @ (i, d') # ys" "fs_position fs i n = length xs"
    "length (occurrences xs i) = nat n" "0 \<le> n" using assms by (rule split_at_hit)
  then show ?thesis by (auto simp: fun_eq_iff fs_update_def list_update_append)
qed

lemma occurrences_remove:
  assumes "fs_position fs i n < length fs"
  shows "occurrences (fs_remove fs i n) = (occurrences fs)(i := remove_nth (nat n) (occurrences fs i))"
proof -
  obtain xs d' ys where "fs = xs @ (i, d') # ys" "fs_position fs i n = length xs"
    "length (occurrences xs i) = nat n" "0 \<le> n" using assms by (rule split_at_hit)
  then show ?thesis by (auto simp: fun_eq_iff fs_remove_def remove_nth_def)
qed

section \<open>The buffer is a field store\<close>

text \<open>The fields read back from the bytes through the index.\<close>

definition fb_fields :: "fbuf \<Rightarrow> field list" where
  "fb_fields b = map (\<lambda>e. (fst e, take (nat (read_long (fb_memory b) (nat (snd e) + size_offset)))
      (drop (nat (snd e) + data_offset) (fb_memory b)))) (fb_index b)"

definition fb_inv :: "fbuf \<Rightarrow> bool" where
  "fb_inv b \<longleftrightarrow> fb_rep b (fb_fields b)"

definition fb_occs :: "fbuf \<Rightarrow> int \<Rightarrow> byte list list" where
  "fb_occs b = occurrences (fb_fields b)"

definition fb_storable :: "int \<Rightarrow> byte list \<Rightarrow> bool" where
  "fb_storable i d \<longleftrightarrow> in_range 8 i \<and> length d < max_bytes"

lemma fst_nth_idx_from: "k < length fs \<Longrightarrow> fst (idx_from s fs ! k) = fst (fs ! k)"
  by (induction fs arbitrary: s k) (auto simp: nth_Cons')

lemma fb_fields_rep:
  assumes rep: "fb_rep b fs"
  shows "fb_fields b = fs"
proof (rule nth_equalityI)
  show "length (fb_fields b) = length fs" using rep by (simp add: fb_fields_def fb_rep_def)
  fix k assume "k < length (fb_fields b)"
  then have k: "k < length fs" using rep by (simp add: fb_fields_def fb_rep_def)
  have "fst (fb_index b ! k) = fst (fs ! k)"
    using rep k by (simp add: fb_rep_def fst_nth_idx_from)
  with rep_field_at [OF rep k] k rep show "fb_fields b ! k = fs ! k"
    by (simp add: fb_fields_def length_index_rep prod_eq_iff)
qed

lemma fb_inv_rep: "fb_rep b fs \<Longrightarrow> fb_inv b \<and> fb_occs b = occurrences fs"
  by (simp add: fb_inv_def fb_occs_def fb_fields_rep)

interpretation fb: field_store fb_inv fb_occs fb_append fb_update fb_remove fb_storable
proof unfold_locales
  fix b i d b' assume inv: "fb_inv b" and st: "fb_storable i d" and ap: "fb_append b i d = (True, b')"
  note ar = fb_append_rep [of b "fb_fields b" i d]
  have "fb_rep b' (fb_fields b @ [(i, d)])"
    using ar(1,2) inv st ap by (simp add: fb_inv_def fb_storable_def)
  from fb_inv_rep [OF this] show "fb_inv b' \<and> fb_occs b' = (fb_occs b)(i := fb_occs b i @ [d])"
    by (auto simp: fb_occs_def fun_eq_iff)
next
  fix b i n d b' assume inv: "fb_inv b" and st: "fb_storable i d" and up: "fb_update b i n d = (True, b')"
  note ur = fb_update_rep [of b "fb_fields b" d i n]
  have k: "fs_position (fb_fields b) i n < length (fb_fields b)"
    and rep: "fb_rep b' (fs_update (fb_fields b) i n d)"
    using ur(1,2) inv st up by (auto simp: fb_inv_def fb_storable_def split: if_splits)
  from fb_inv_rep [OF rep] k fs_position_less [of "fb_fields b" i n]
  show "fb_inv b' \<and> 0 \<le> n \<and> nat n < length (fb_occs b i) \<and>
      fb_occs b' = (fb_occs b)(i := (fb_occs b i)[nat n := d])"
    by (simp add: fb_occs_def occurrences_update length_occurrences)
next
  fix b i and n :: int assume inv: "fb_inv b" and n: "0 \<le> n" "nat n < length (fb_occs b i)"
  have k: "fs_position (fb_fields b) i n < length (fb_fields b)"
    using n by (simp add: fs_position_less fb_occs_def length_occurrences)
  from fb_remove_rep [of b "fb_fields b" i n] inv k
  have "fst (fb_remove b i n)" "fb_rep (snd (fb_remove b i n)) (fs_remove (fb_fields b) i n)"
    by (simp_all add: fb_inv_def)
  with fb_inv_rep [OF this(2)] k
  show "\<exists>b'. fb_remove b i n = (True, b') \<and> fb_inv b' \<and>
      fb_occs b' = (fb_occs b)(i := remove_nth (nat n) (fb_occs b i))"
    by (intro exI [of _ "snd (fb_remove b i n)"]) (simp add: prod_eq_iff fb_occs_def occurrences_remove)
next
  fix b i and n :: int assume "fb_inv b" "\<not> (0 \<le> n \<and> nat n < length (fb_occs b i))"
  then have "\<not> fb_position b i n < length (fb_index b)"
    by (simp add: fb_inv_def fb_position_rep length_index_rep fs_position_less fb_occs_def
        length_occurrences)
  then show "fb_remove b i n = (False, b)" by (simp add: fb_remove_def)
qed (auto simp: fb_append_def fb_update_def Let_def split: if_splits)

end
