(* ===== verification/Field_Api.thy ===== *)
theory Field_Api
  imports Field_Buffer
begin

text \<open>
  The C interface of the field buffer (\<open>buffer/field.h\<close>, the functions of
  \<open>buffer/source/field.cpp\<close> after the class \<open>Buffer\<close>), over the pool of buffers
  the process holds. A handle is the address of a buffer's memory. A pointer the caller passes is the
  bytes it points to, and an optional one (that the code tests for null) an option; what the function
  writes through a pointer is part of its result. The handles of a pool and the addresses a new
  allocation yields are natural numbers chosen by the allocator, here an argument.
\<close>

section \<open>The pool\<close>

type_synonym handle = nat
type_synonym fpool = "(handle \<times> fbuf) list"

definition pool_find :: "(handle \<times> 'b) list \<Rightarrow> handle \<Rightarrow> 'b option" where
  "pool_find p h = map_option snd (find (\<lambda>e. fst e = h) p)"

text \<open>What a function does to \<open>*find( handle)\<close>.\<close>

definition pool_put :: "(handle \<times> 'b) list \<Rightarrow> handle \<Rightarrow> 'b \<Rightarrow> (handle \<times> 'b) list" where
  "pool_put p h b = upd_first (\<lambda>e. fst e = h) (\<lambda>_. (h, b)) p"

text \<open>
  \<open>Allocator::allocate\<close> reserves at least one byte; \<open>reallocate\<close> shrinks to the bytes in
  use when less is asked for than is allocated, and then reserves. The vector moves when its capacity
  changes. \<open>None\<close> of \<open>reallocate\<close> is the write through \<open>end()\<close> for an unknown handle.
\<close>

definition pool_allocate :: "fpool \<Rightarrow> handle \<Rightarrow> nat \<Rightarrow> handle \<times> fpool" where
  "pool_allocate p fresh bytes =
     (fresh, p @ [(fresh, \<lparr>fb_capacity = (if bytes \<noteq> 0 then bytes else 1), fb_memory = [], fb_index = []\<rparr>)])"

definition fb_reallocate :: "fbuf \<Rightarrow> nat \<Rightarrow> fbuf" where
  "fb_reallocate b bytes =
     (let shrunk = (if bytes < fb_capacity b then length (fb_memory b) else fb_capacity b)
      in b\<lparr>fb_capacity := max shrunk (if bytes \<noteq> 0 then bytes else 1)\<rparr>)"

definition pool_reallocate :: "fpool \<Rightarrow> handle \<Rightarrow> handle \<Rightarrow> nat \<Rightarrow> (handle \<times> fpool) option" where
  "pool_reallocate p h fresh bytes =
     (case pool_find p h of
        None \<Rightarrow> None
      | Some b \<Rightarrow>
          let b' = fb_reallocate b bytes;
              h' = (if bytes < fb_capacity b \<or> fb_capacity b' \<noteq> fb_capacity b then fresh else h)
          in Some (h', upd_first (\<lambda>e. fst e = h) (\<lambda>_. (h', b')) p))"

definition pool_deallocate :: "(handle \<times> 'b) list \<Rightarrow> handle \<Rightarrow> (handle \<times> 'b) list" where
  "pool_deallocate p h = erase_first (\<lambda>e. fst e = h) p"

text \<open>\<open>insert\<close> adopts a payload: the constructor of \<open>Buffer\<close> rebuilds the index.\<close>

definition pool_insert :: "fpool \<Rightarrow> handle \<Rightarrow> nat \<Rightarrow> byte list \<Rightarrow> (handle \<times> fpool) option" where
  "pool_insert p fresh capacity memory =
     (case update_index memory of
        Some (Index idx) \<Rightarrow>
          Some (fresh, p @ [(fresh, \<lparr>fb_capacity = capacity, fb_memory = memory, fb_index = idx\<rparr>)])
      | _ \<Rightarrow> None)"

section \<open>Types and ids\<close>

definition TYPE_BASE :: int where "TYPE_BASE = 0x2000000"
definition NO_ID :: int where "NO_ID = 0"
definition NO_TYPE :: int where "NO_TYPE = 0"

datatype field_type = F_SHORT | F_LONG | F_CHAR | F_FLOAT | F_DOUBLE | F_STRING | F_BINARY

fun type_code :: "field_type \<Rightarrow> int" where
  "type_code F_SHORT = 1"
| "type_code F_LONG = 2"
| "type_code F_CHAR = 3"
| "type_code F_FLOAT = 4"
| "type_code F_DOUBLE = 5"
| "type_code F_STRING = 6"
| "type_code F_BINARY = 7"

definition field_types :: "field_type list" where
  "field_types = [F_SHORT, F_LONG, F_CHAR, F_FLOAT, F_DOUBLE, F_STRING, F_BINARY]"

text \<open>The cases of a \<open>switch\<close> over the type codes; \<open>None\<close> is the default.\<close>

definition type_of_code :: "int \<Rightarrow> field_type option" where
  "type_of_code c = find (\<lambda>t. type_code t = c) field_types"

text \<open>\<open>id / CASUAL_FIELD_TYPE_BASE\<close>: division of signed longs truncates towards zero.\<close>

definition id_type :: "int \<Rightarrow> int" where
  "id_type i = (if i < 0 then - ((- i) div TYPE_BASE) else i div TYPE_BASE)"

text \<open>The same stored in an \<open>int\<close>, where the code does that.\<close>

definition id_type_int :: "int \<Rightarrow> int" where
  "id_type_int i = to_signed 4 (to_unsigned 4 (id_type i))"

text \<open>\<open>CasualFieldPlainTypeHostSize\<close> for a count that is not null.\<close>

fun host_size :: "field_type \<Rightarrow> int option" where
  "host_size F_SHORT = Some 2"
| "host_size F_LONG = Some 8"
| "host_size F_CHAR = Some 1"
| "host_size F_FLOAT = Some 4"
| "host_size F_DOUBLE = Some 8"
| "host_size F_STRING = None"
| "host_size F_BINARY = None"

definition field_plain_type_host_size :: "int \<Rightarrow> field_code \<times> int option" where
  "field_plain_type_host_size type =
     (case Option.bind (type_of_code type) host_size of
        Some n \<Rightarrow> (FIELD_SUCCESS, Some n)
      | None \<Rightarrow> (FIELD_INVALID_TYPE, None))"

fun type_ctype :: "field_type \<Rightarrow> ctype" where
  "type_ctype F_SHORT = T_short"
| "type_ctype F_LONG = T_long"
| "type_ctype F_FLOAT = T_float"
| "type_ctype F_DOUBLE = T_double"
| "type_ctype _ = T_char"

definition net_size :: "field_type \<Rightarrow> nat" where
  "net_size t = size_traits (type_ctype t)"

section \<open>The operations on a handle\<close>

definition field_remove :: "fpool \<Rightarrow> handle \<Rightarrow> int \<Rightarrow> int \<Rightarrow> field_code \<times> fpool" where
  "field_remove p h i n =
     (if \<not> i > NO_ID then (FIELD_INVALID_ID, p)
      else (case pool_find p h of
          None \<Rightarrow> (FIELD_INVALID_BUFFER, p)
        | Some b \<Rightarrow> (case fb_remove b i n of (ok, b') \<Rightarrow>
            (if ok then FIELD_SUCCESS else FIELD_NO_OCCURRENCE, pool_put p h b'))))"

text \<open>The templates \<open>add\<close>, \<open>update\<close> and \<open>get\<close> over the buffer's overloads.\<close>

definition field_add ::
    "fpool \<Rightarrow> handle \<Rightarrow> int \<Rightarrow> field_type \<Rightarrow> (fbuf \<Rightarrow> bool \<times> fbuf) \<Rightarrow> field_code \<times> fpool" where
  "field_add p h i t app =
     (if type_code t \<noteq> id_type i then (FIELD_INVALID_ID, p)
      else (case pool_find p h of
          None \<Rightarrow> (FIELD_INVALID_BUFFER, p)
        | Some b \<Rightarrow> (case app b of (ok, b') \<Rightarrow>
            (if ok then FIELD_SUCCESS else FIELD_NO_SPACE, pool_put p h b'))))"

definition field_update ::
    "fpool \<Rightarrow> handle \<Rightarrow> int \<Rightarrow> int \<Rightarrow> field_type \<Rightarrow> (fbuf \<Rightarrow> bool \<times> fbuf) \<Rightarrow> field_code \<times> fpool" where
  "field_update p h i n t update =
     (if type_code t \<noteq> id_type i then (FIELD_INVALID_ID, p)
      else (case pool_find p h of
          None \<Rightarrow> (FIELD_INVALID_BUFFER, p)
        | Some b \<Rightarrow> (case update b of (ok, b') \<Rightarrow>
            (if ok then FIELD_SUCCESS
             else if fb_find b' i n \<noteq> None then FIELD_NO_SPACE else FIELD_NO_OCCURRENCE,
             pool_put p h b'))))"

definition field_get ::
    "fpool \<Rightarrow> handle \<Rightarrow> int \<Rightarrow> field_type \<Rightarrow> (fbuf \<Rightarrow> 'a option) \<Rightarrow> field_code \<times> 'a option" where
  "field_get p h i t select =
     (if type_code t \<noteq> id_type i then (FIELD_INVALID_ID, None)
      else (case pool_find p h of
          None \<Rightarrow> (FIELD_INVALID_BUFFER, None)
        | Some b \<Rightarrow> (case select b of
            Some r \<Rightarrow> (FIELD_SUCCESS, Some r)
          | None \<Rightarrow> (FIELD_NO_OCCURRENCE, None))))"

definition field_length :: "fpool \<Rightarrow> handle \<Rightarrow> int \<Rightarrow> int \<Rightarrow> field_code \<times> int option" where
  "field_length p h i n =
     (case pool_find p h of
        None \<Rightarrow> (FIELD_INVALID_BUFFER, None)
      | Some b \<Rightarrow> (case fb_length b i n of
          Some c \<Rightarrow> (FIELD_SUCCESS, Some c)
        | None \<Rightarrow> (FIELD_NO_OCCURRENCE, None)))"

definition field_exist :: "fpool \<Rightarrow> handle \<Rightarrow> int \<Rightarrow> int \<Rightarrow> field_code" where
  "field_exist p h i n =
     (case pool_find p h of
        None \<Rightarrow> FIELD_INVALID_BUFFER
      | Some b \<Rightarrow> if fb_find b i n \<noteq> None then FIELD_SUCCESS else FIELD_NO_OCCURRENCE)"

text \<open>\<open>next\<close> and \<open>first\<close> yield the new id and index.\<close>

definition field_next :: "fpool \<Rightarrow> handle \<Rightarrow> int \<Rightarrow> int \<Rightarrow> field_code \<times> (int \<times> int) option" where
  "field_next p h i n =
     (case pool_find p h of
        None \<Rightarrow> (FIELD_INVALID_BUFFER, None)
      | Some b \<Rightarrow>
          let current = fb_position b i n; adjacent = current + 1
          in if current < length (fb_index b) then
               if adjacent < length (fb_index b) then
                 let i' = fst (fb_index b ! adjacent)
                 in (FIELD_SUCCESS,
                     Some (i', int (length (filter (\<lambda>e. fst e = i') (take adjacent (fb_index b))))))
               else (FIELD_NO_OCCURRENCE, None)
             else (FIELD_INVALID_ID, None))"

definition field_first :: "fpool \<Rightarrow> handle \<Rightarrow> field_code \<times> (int \<times> int) option" where
  "field_first p h =
     (case pool_find p h of
        None \<Rightarrow> (FIELD_INVALID_BUFFER, None)
      | Some b \<Rightarrow>
          if fb_index b = [] then (FIELD_NO_OCCURRENCE, None)
          else (FIELD_SUCCESS, Some (fst (fb_index b ! 0), 0)))"

definition field_count_id :: "fpool \<Rightarrow> handle \<Rightarrow> int \<Rightarrow> field_code \<times> int option" where
  "field_count_id p h i =
     (case pool_find p h of
        None \<Rightarrow> (FIELD_INVALID_BUFFER, None)
      | Some b \<Rightarrow> (FIELD_SUCCESS, Some (fb_count_id b i)))"

definition field_count :: "fpool \<Rightarrow> handle \<Rightarrow> field_code \<times> int option" where
  "field_count p h =
     (case pool_find p h of
        None \<Rightarrow> (FIELD_INVALID_BUFFER, None)
      | Some b \<Rightarrow> (FIELD_SUCCESS, Some (fb_count b)))"

definition field_reset :: "fpool \<Rightarrow> handle \<Rightarrow> field_code \<times> fpool" where
  "field_reset p h =
     (case pool_find p h of
        None \<Rightarrow> (FIELD_INVALID_BUFFER, p)
      | Some b \<Rightarrow> (FIELD_SUCCESS, pool_put p h (fb_reset b)))"

definition field_explore :: "fpool \<Rightarrow> handle \<Rightarrow> field_code \<times> (nat \<times> nat) option" where
  "field_explore p h =
     (case pool_find p h of
        None \<Rightarrow> (FIELD_INVALID_BUFFER, None)
      | Some b \<Rightarrow> (FIELD_SUCCESS, Some (fb_reserved b, fb_utilized b)))"

definition field_copy :: "fpool \<Rightarrow> handle \<Rightarrow> handle \<Rightarrow> field_code \<times> fpool" where
  "field_copy p target source =
     (case (pool_find p target, pool_find p source) of
        (Some t, Some s) \<Rightarrow> (case fb_copy t s of (ok, t') \<Rightarrow>
          (if ok then FIELD_SUCCESS else FIELD_NO_SPACE, pool_put p target t'))
      | _ \<Rightarrow> (FIELD_INVALID_BUFFER, p))"

text \<open>
  \<open>serialize\<close>. \<open>None\<close>: the index loop does not end; \<open>Inl ()\<close>: it reads past the
  bytes. A negative count is a huge one for the buffer.
\<close>

definition field_serialize ::
    "fpool \<Rightarrow> handle \<Rightarrow> byte list \<Rightarrow> int \<Rightarrow> (unit + field_code \<times> fpool) option" where
  "field_serialize p h source cnt =
     (case pool_find p h of
        None \<Rightarrow> Some (Inr (FIELD_INVALID_BUFFER, p))
      | Some b \<Rightarrow> (case fb_copy_memory b source (to_unsigned 8 cnt) of
          None \<Rightarrow> None
        | Some Copy_overrun \<Rightarrow> Some (Inl ())
        | Some (Copied ok b') \<Rightarrow>
            Some (Inr (if ok then FIELD_SUCCESS else FIELD_NO_SPACE, pool_put p h b'))))"


section \<open>The C functions\<close>

definition CasualFieldExploreBuffer :: "fpool \<Rightarrow> handle \<Rightarrow> field_code \<times> (nat \<times> nat) option" where
  "CasualFieldExploreBuffer p h = field_explore p h"

text \<open>\<open>count\<close> tells whether the caller passed a count; the result holds what is written to it.\<close>

definition CasualFieldExploreValue ::
    "fpool \<Rightarrow> handle \<Rightarrow> int \<Rightarrow> int \<Rightarrow> bool \<Rightarrow> field_code \<times> int option" where
  "CasualFieldExploreValue p h i n cnt =
     (if cnt then
        (if type_of_code (id_type i) \<in> {Some F_STRING, Some F_BINARY} then field_length p h i n
         else (case field_plain_type_host_size (id_type_int i) of (code, result) \<Rightarrow>
           if code \<noteq> FIELD_SUCCESS then (code, result) else (field_exist p h i n, result)))
      else (field_exist p h i n, None))"

definition CasualFieldOccurrencesOfId :: "fpool \<Rightarrow> handle \<Rightarrow> int \<Rightarrow> bool \<Rightarrow> field_code \<times> int option" where
  "CasualFieldOccurrencesOfId p h i wanted =
     (if wanted \<and> i \<noteq> NO_ID then field_count_id p h i else (FIELD_INVALID_ARGUMENT, None))"

definition CasualFieldOccurrencesInBuffer :: "fpool \<Rightarrow> handle \<Rightarrow> bool \<Rightarrow> field_code \<times> int option" where
  "CasualFieldOccurrencesInBuffer p h wanted =
     (if wanted then field_count p h else (FIELD_INVALID_ARGUMENT, None))"

text \<open>
  The add functions for the plain types take the unsigned pattern of the value, the one for strings
  the characters up to the null, the one for binaries the bytes.
\<close>

definition CasualFieldAddPlain :: "fpool \<Rightarrow> handle \<Rightarrow> int \<Rightarrow> field_type \<Rightarrow> nat \<Rightarrow> field_code \<times> fpool" where
  "CasualFieldAddPlain p h i t v = field_add p h i t (\<lambda>b. fb_append_value b i (net_size t) v)"

definition CasualFieldAddString :: "fpool \<Rightarrow> handle \<Rightarrow> int \<Rightarrow> byte list \<Rightarrow> field_code \<times> fpool" where
  "CasualFieldAddString p h i v = field_add p h i F_STRING (\<lambda>b. fb_append_string b i v)"

definition CasualFieldAddBinary :: "fpool \<Rightarrow> handle \<Rightarrow> int \<Rightarrow> byte list \<Rightarrow> int \<Rightarrow> field_code \<times> fpool" where
  "CasualFieldAddBinary p h i v cnt =
     (if cnt < 0 then (FIELD_INVALID_ARGUMENT, p)
      else field_add p h i F_BINARY (\<lambda>b. fb_append b i (take (nat cnt) v)))"

text \<open>\<open>*static_cast<const T*>( value)\<close> on a host of byte order \<open>e\<close>\<close>

definition load_plain :: "endian \<Rightarrow> field_type \<Rightarrow> byte list \<Rightarrow> nat" where
  "load_plain e t v = host_value e (take (net_size t) v)"

definition CasualFieldAddValue ::
    "endian \<Rightarrow> fpool \<Rightarrow> handle \<Rightarrow> int \<Rightarrow> byte list \<Rightarrow> int \<Rightarrow> field_code \<times> fpool" where
  "CasualFieldAddValue e p h i v cnt =
     (case type_of_code (id_type i) of
        None \<Rightarrow> (FIELD_INVALID_ID, p)
      | Some F_STRING \<Rightarrow> CasualFieldAddString p h i v
      | Some F_BINARY \<Rightarrow> CasualFieldAddBinary p h i v cnt
      | Some t \<Rightarrow> CasualFieldAddPlain p h i t (load_plain e t v))"

definition CasualFieldAddEmpty :: "fpool \<Rightarrow> handle \<Rightarrow> int \<Rightarrow> field_code \<times> fpool" where
  "CasualFieldAddEmpty p h i =
     (case type_of_code (id_type i) of
        None \<Rightarrow> (FIELD_INVALID_ID, p)
      | Some F_STRING \<Rightarrow> CasualFieldAddString p h i []
      | Some F_BINARY \<Rightarrow> CasualFieldAddBinary p h i [] 0
      | Some t \<Rightarrow> CasualFieldAddPlain p h i t 0)"

definition CasualFieldGetPlain ::
    "fpool \<Rightarrow> handle \<Rightarrow> int \<Rightarrow> int \<Rightarrow> field_type \<Rightarrow> field_code \<times> nat option" where
  "CasualFieldGetPlain p h i n t = field_get p h i t (\<lambda>b. fb_select_value b i n (net_size t))"

text \<open>The pointer handed out is a position in the memory of the buffer.\<close>

definition CasualFieldGetString :: "fpool \<Rightarrow> handle \<Rightarrow> int \<Rightarrow> int \<Rightarrow> field_code \<times> nat option" where
  "CasualFieldGetString p h i n = field_get p h i F_STRING (\<lambda>b. fb_select_string b i n)"

definition CasualFieldGetBinary :: "fpool \<Rightarrow> handle \<Rightarrow> int \<Rightarrow> int \<Rightarrow> field_code \<times> (nat \<times> int) option" where
  "CasualFieldGetBinary p h i n = field_get p h i F_BINARY (\<lambda>b. fb_select b i n)"

text \<open>
  \<open>CasualFieldGetValue\<close>: \<open>value\<close> tells whether the caller passed memory for the value, the
  count is null or the size of that memory. The result is the code, the count afterwards and the
  bytes written.
\<close>

definition get_size :: "fpool \<Rightarrow> handle \<Rightarrow> int \<Rightarrow> int \<Rightarrow> field_code \<times> (nat \<times> int)" where
  "get_size p h i n =
     (case type_of_code (id_type_int i) of
        Some t \<Rightarrow>
          if t = F_STRING \<or> t = F_BINARY then
            (case field_get p h i t (\<lambda>b. fb_select b i n) of (code, r) \<Rightarrow>
              (code, case r of None \<Rightarrow> (0, 0) | Some d \<Rightarrow> d))
          else (case field_plain_type_host_size (id_type_int i) of (code, r) \<Rightarrow>
              (code, (0, case r of None \<Rightarrow> 0 | Some m \<Rightarrow> m)))
      | None \<Rightarrow> (FIELD_INVALID_TYPE, (0, 0)))"

definition CasualFieldGetValue ::
    "endian \<Rightarrow> fpool \<Rightarrow> handle \<Rightarrow> int \<Rightarrow> int \<Rightarrow> bool \<Rightarrow> int option \<Rightarrow>
     field_code \<times> int option \<times> byte list option" where
  "CasualFieldGetValue e p h i n value cnt =
     (if \<not> value then
        (case CasualFieldExploreValue p h i n (cnt \<noteq> None) of (code, r) \<Rightarrow>
           (code, (case r of None \<Rightarrow> cnt | Some c \<Rightarrow> Some c), None))
      else (case get_size p h i n of (code, (data, sz)) \<Rightarrow>
        if code \<noteq> FIELD_SUCCESS then (code, cnt, None)
        else if (case cnt of None \<Rightarrow> False | Some c \<Rightarrow> c < sz) then (FIELD_NO_SPACE, cnt, None)
        else
          let cnt' = map_option (\<lambda>_. sz) cnt
          in (case type_of_code (id_type_int i) of
                Some t \<Rightarrow>
                  if t = F_STRING \<or> t = F_BINARY then
                    (FIELD_SUCCESS, cnt',
                     map_option (\<lambda>b. take (nat sz) (drop data (fb_memory b))) (pool_find p h))
                  else (case CasualFieldGetPlain p h i n t of (c, v) \<Rightarrow>
                    (c, cnt', map_option (host_bytes e (net_size t)) v))
              | None \<Rightarrow> (FIELD_INVALID_TYPE, cnt', None))))"


definition CasualFieldUpdatePlain ::
    "fpool \<Rightarrow> handle \<Rightarrow> int \<Rightarrow> int \<Rightarrow> field_type \<Rightarrow> nat \<Rightarrow> field_code \<times> fpool" where
  "CasualFieldUpdatePlain p h i n t v =
     field_update p h i n t (\<lambda>b. fb_update_value b i n (net_size t) v)"

definition CasualFieldUpdateString ::
    "fpool \<Rightarrow> handle \<Rightarrow> int \<Rightarrow> int \<Rightarrow> byte list option \<Rightarrow> field_code \<times> fpool" where
  "CasualFieldUpdateString p h i n value =
     (case value of
        Some v \<Rightarrow> field_update p h i n F_STRING (\<lambda>b. fb_update_string b i n v)
      | None \<Rightarrow> (FIELD_INVALID_ARGUMENT, p))"

definition CasualFieldUpdateBinary ::
    "fpool \<Rightarrow> handle \<Rightarrow> int \<Rightarrow> int \<Rightarrow> byte list \<Rightarrow> int \<Rightarrow> field_code \<times> fpool" where
  "CasualFieldUpdateBinary p h i n v cnt =
     (if cnt < 0 then (FIELD_INVALID_ARGUMENT, p)
      else field_update p h i n F_BINARY (\<lambda>b. fb_update b i n (take (nat cnt) v)))"

definition CasualFieldUpdateValue ::
    "endian \<Rightarrow> fpool \<Rightarrow> handle \<Rightarrow> int \<Rightarrow> int \<Rightarrow> byte list option \<Rightarrow> int \<Rightarrow> field_code \<times> fpool" where
  "CasualFieldUpdateValue e p h i n value cnt =
     (case value of
        None \<Rightarrow> (FIELD_INVALID_ARGUMENT, p)
      | Some v \<Rightarrow>
          (case type_of_code (id_type i) of
             None \<Rightarrow> (FIELD_INVALID_ID, p)
           | Some F_STRING \<Rightarrow> CasualFieldUpdateString p h i n (Some v)
           | Some F_BINARY \<Rightarrow> CasualFieldUpdateBinary p h i n v cnt
           | Some t \<Rightarrow> CasualFieldUpdatePlain p h i n t (load_plain e t v)))"

text \<open>
  The recursion of \<open>CasualFieldChangeValue\<close> is \<open>change_loop\<close>; \<open>None\<close> is a recursion
  that does not end. The value is not null when the index is negative: the add functions dereference it.
\<close>

definition CasualFieldChangeValue ::
    "endian \<Rightarrow> fpool \<Rightarrow> handle \<Rightarrow> int \<Rightarrow> int \<Rightarrow> byte list option \<Rightarrow> int \<Rightarrow> (field_code \<times> fpool) option" where
  "CasualFieldChangeValue e p h i n value cnt =
     (if n < 0 then map_option (\<lambda>v. CasualFieldAddValue e p h i v cnt) value
      else change_loop (\<lambda>q. CasualFieldUpdateValue e q h i n value cnt)
             (\<lambda>q. CasualFieldAddEmpty q h i) p)"

definition CasualFieldRemoveAll :: "fpool \<Rightarrow> handle \<Rightarrow> field_code \<times> fpool" where
  "CasualFieldRemoveAll p h = field_reset p h"

definition CasualFieldRemoveId :: "fpool \<Rightarrow> handle \<Rightarrow> int \<Rightarrow> field_code \<times> fpool" where
  "CasualFieldRemoveId p h i =
     (case field_count_id p h i of
        (code, None) \<Rightarrow> (code, p)
      | (code, Some k) \<Rightarrow>
          if code \<noteq> FIELD_SUCCESS then (code, p)
          else if k \<noteq> 0 then
            (FIELD_SUCCESS,
             remove_loop (\<lambda>q i n. case field_remove q h i n of (c, q') \<Rightarrow> (c = FIELD_SUCCESS, q')) p i (nat k))
          else (FIELD_NO_OCCURRENCE, p))"

definition CasualFieldRemoveOccurrence :: "fpool \<Rightarrow> handle \<Rightarrow> int \<Rightarrow> int \<Rightarrow> field_code \<times> fpool" where
  "CasualFieldRemoveOccurrence p h i n = field_remove p h i n"

text \<open>The id and the index are both in and out; the result is their new values.\<close>

definition CasualFieldNext ::
    "fpool \<Rightarrow> handle \<Rightarrow> int option \<Rightarrow> int option \<Rightarrow> field_code \<times> (int \<times> int) option" where
  "CasualFieldNext p h i n =
     (case (i, n) of
        (Some i, Some n) \<Rightarrow> if i = NO_ID then field_first p h else field_next p h i n
      | _ \<Rightarrow> (FIELD_INVALID_ARGUMENT, None))"

definition CasualFieldCopyBuffer :: "fpool \<Rightarrow> handle \<Rightarrow> handle \<Rightarrow> field_code \<times> fpool" where
  "CasualFieldCopyBuffer p target source = field_copy p target source"

definition CasualFieldCopyMemory ::
    "fpool \<Rightarrow> handle \<Rightarrow> byte list \<Rightarrow> int \<Rightarrow> (unit + field_code \<times> fpool) option" where
  "CasualFieldCopyMemory p target source cnt = field_serialize p target source cnt"

section \<open>The repository of ids and names\<close>

fun type_name :: "field_type \<Rightarrow> string" where
  "type_name F_SHORT = ''short''"
| "type_name F_LONG = ''long''"
| "type_name F_CHAR = ''char''"
| "type_name F_FLOAT = ''float''"
| "type_name F_DOUBLE = ''double''"
| "type_name F_STRING = ''string''"
| "type_name F_BINARY = ''binary''"

definition name_to_type :: "string \<Rightarrow> int option" where
  "name_to_type name = map_option type_code (find (\<lambda>t. type_name t = name) field_types)"

definition type_to_name :: "int \<Rightarrow> string option" where
  "type_to_name type = map_option type_name (type_of_code type)"

record rfield =
  rf_id :: int
  rf_name :: string
  rf_type :: string

record rgroup =
  rg_base :: int
  rg_fields :: "rfield list"

text \<open>
  \<open>fetch_fields\<close>: entries with an unknown type or an id that is not positive are skipped (with a
  warning in the log); the arithmetic on longs is not taken to overflow.
\<close>

definition fetch_fields :: "rgroup list \<Rightarrow> rfield list" where
  "fetch_fields groups = concat (map (\<lambda>g. concat (map (\<lambda>f.
     (case name_to_type (rf_type f) of
        None \<Rightarrow> []
      | Some t \<Rightarrow>
          let i = t * TYPE_BASE + rg_base g + rf_id f
          in if i > NO_ID then [f\<lparr>rf_id := i\<rparr>] else [])) (rg_fields g))) groups)"

text \<open>\<open>emplace\<close> keeps the first entry of a key.\<close>

definition name_to_id :: "rgroup list \<Rightarrow> string \<Rightarrow> int" where
  "name_to_id groups name =
     (case map_of (map (\<lambda>f. (rf_name f, rf_id f)) (fetch_fields groups)) name of
        Some i \<Rightarrow> i
      | None \<Rightarrow> NO_ID)"

definition id_to_name :: "rgroup list \<Rightarrow> int \<Rightarrow> string option" where
  "id_to_name groups i = map_of (map (\<lambda>f. (rf_id f, rf_name f)) (fetch_fields groups)) i"

definition CasualFieldNameOfId :: "rgroup list \<Rightarrow> int \<Rightarrow> field_code \<times> string option" where
  "CasualFieldNameOfId groups i =
     (if i > NO_ID then
        (case id_to_name groups i of
           Some name \<Rightarrow> (FIELD_SUCCESS, Some name)
         | None \<Rightarrow> (FIELD_UNKNOWN_ID, None))
      else (FIELD_INVALID_ID, None))"

definition CasualFieldIdOfName :: "rgroup list \<Rightarrow> string option \<Rightarrow> field_code \<times> int option" where
  "CasualFieldIdOfName groups name =
     (case name of
        Some s \<Rightarrow>
          (let result = name_to_id groups s
           in if result \<noteq> 0 then (FIELD_SUCCESS, Some result) else (FIELD_UNKNOWN_ID, None))
      | None \<Rightarrow> (FIELD_INVALID_ARGUMENT, None))"

definition CasualFieldTypeOfId :: "int \<Rightarrow> field_code \<times> int option" where
  "CasualFieldTypeOfId i =
     (let result = id_type_int i
      in if type_of_code result = None then (FIELD_INVALID_ID, None) else (FIELD_SUCCESS, Some result))"

definition CasualFieldNameOfType :: "int \<Rightarrow> field_code \<times> string option" where
  "CasualFieldNameOfType type =
     (case type_to_name type of
        Some name \<Rightarrow> (FIELD_SUCCESS, Some name)
      | None \<Rightarrow> (FIELD_INVALID_TYPE, None))"

definition CasualFieldTypeOfName :: "string option \<Rightarrow> field_code \<times> int option" where
  "CasualFieldTypeOfName name =
     (case name of
        Some s \<Rightarrow>
          (let result = (case name_to_type s of Some t \<Rightarrow> t | None \<Rightarrow> NO_TYPE)
           in if result \<noteq> 0 then (FIELD_SUCCESS, Some result) else (FIELD_INVALID_TYPE, None))
      | None \<Rightarrow> (FIELD_INVALID_ARGUMENT, None))"

fun CasualFieldDescription :: "int \<Rightarrow> string" where
  "CasualFieldDescription code =
     (if code = 0 then ''Success''
      else if code = 1 then ''No space''
      else if code = 2 then ''No occurrence''
      else if code = 3 then ''Unknown id''
      else if code = 4 then ''Invalid buffer''
      else if code = 5 then ''Invalid id''
      else if code = 6 then ''Invalid type''
      else if code = 7 then ''Invalid argument''
      else if code = 8 then ''System failure''
      else if code = 9 then ''Internal failure''
      else ''Unknown code'')"


section \<open>The pool is a field store for each of its handles\<close>

lemma find_find_upd_first:
  "pool_find p h = Some b0 \<Longrightarrow>
    pool_find (pool_put p h b) h' = (if h' = h then Some b else pool_find p h')"
  by (induction p) (auto simp: pool_find_def pool_put_def split: if_splits)

lemma pool_put_same: "pool_find p h = Some b \<Longrightarrow> pool_put p h b = p"
  by (induction p) (auto simp: pool_find_def pool_put_def split: if_splits)

lemma pool_find_in: "pool_find p h = Some b \<Longrightarrow> (h, b) \<in> set p"
  by (induction p) (auto simp: pool_find_def split: if_splits)

lemma in_pool_put: "x \<in> set (pool_put p h b) \<Longrightarrow> x = (h, b) \<or> x \<in> set p"
  by (induction p) (auto simp: pool_put_def split: if_splits)

text \<open>A field of a plain type holds exactly the network image of a value.\<close>

definition plain_ok :: "int \<Rightarrow> byte list \<Rightarrow> bool" where
  "plain_ok i d \<longleftrightarrow> (case type_of_code (id_type i) of
     Some t \<Rightarrow> host_size t = None \<or> length d = net_size t
   | None \<Rightarrow> True)"

definition fb_typed :: "fbuf \<Rightarrow> bool" where
  "fb_typed b \<longleftrightarrow> list_all (\<lambda>f. plain_ok (fst f) (snd f)) (fb_fields b)"

definition pool_inv :: "fpool \<Rightarrow> bool" where
  "pool_inv p \<longleftrightarrow> list_all (\<lambda>e. fb_inv (snd e) \<and> fb_typed (snd e)) p"

definition pool_occs :: "fpool \<Rightarrow> handle \<Rightarrow> int \<Rightarrow> byte list list" where
  "pool_occs p h = (case pool_find p h of Some b \<Rightarrow> fb_occs b | None \<Rightarrow> (\<lambda>_. []))"

definition field_storable :: "int \<Rightarrow> byte list \<Rightarrow> bool" where
  "field_storable i d \<longleftrightarrow> fb_storable i d \<and> plain_ok i d"

definition on_handle :: "fpool \<Rightarrow> handle \<Rightarrow> (fbuf \<Rightarrow> bool \<times> fbuf) \<Rightarrow> bool \<times> fpool" where
  "on_handle p h f = (case pool_find p h of
     None \<Rightarrow> (False, p)
   | Some b \<Rightarrow> (case f b of (ok, b') \<Rightarrow> (ok, pool_put p h b')))"

lemma fb_typed_occs: "fb_typed b \<longleftrightarrow> (\<forall>i. \<forall>d\<in>set (fb_occs b i). plain_ok i d)"
  by (auto simp: fb_typed_def fb_occs_def occurrences_def list_all_iff)

lemma pool_inv_find: "pool_inv p \<Longrightarrow> pool_find p h = Some b \<Longrightarrow> fb_inv b \<and> fb_typed b"
  using pool_find_in [of p h b] by (fastforce simp: pool_inv_def list_all_iff)

lemma pool_inv_put: "pool_inv p \<Longrightarrow> fb_inv b \<Longrightarrow> fb_typed b \<Longrightarrow> pool_inv (pool_put p h b)"
  by (auto simp: pool_inv_def list_all_iff dest: in_pool_put)

lemma pool_occs_put:
  "pool_find p h = Some b0 \<Longrightarrow> pool_occs (pool_put p h b) h' = (if h' = h then fb_occs b else pool_occs p h')"
  by (simp add: pool_occs_def find_find_upd_first)

text \<open>An operation of the buffer that changes the occurrences of one id does so in the pool.\<close>

lemma on_handle_step:
  assumes inv: "pool_inv p" and b: "pool_find p h = Some b" "f b = (ok, b')"
    and b': "fb_inv b'" "fb_occs b' = (fb_occs b)(i := ds)" "\<forall>d\<in>set ds. plain_ok i d"
  shows "on_handle p h f = (ok, pool_put p h b')" "pool_inv (pool_put p h b')"
    "pool_occs (pool_put p h b') h = (pool_occs p h)(i := ds)"
proof -
  from pool_inv_find [OF inv b(1)] b' have "fb_typed b'" by (auto simp: fb_typed_occs)
  with pool_inv_put [OF inv b'(1)] show "pool_inv (pool_put p h b')" by blast
  show "pool_occs (pool_put p h b') h = (pool_occs p h)(i := ds)"
    using b' b by (simp add: pool_occs_put) (simp add: pool_occs_def)
  show "on_handle p h f = (ok, pool_put p h b')" using b by (simp add: on_handle_def)
qed

lemma on_handle_true:
  assumes "on_handle p h f = (True, p')"
  obtains b b' where "pool_find p h = Some b" "f b = (True, b')" "p' = pool_put p h b'"
  using assms by (auto simp: on_handle_def split: option.splits prod.splits)

lemma on_handle_false:
  "(\<And>b b'. f b = (False, b') \<Longrightarrow> b' = b) \<Longrightarrow> on_handle p h f = (False, p') \<Longrightarrow> p' = p"
  by (auto simp: on_handle_def split: option.splits prod.splits) (metis pool_put_same)

lemma plain_ok_occs: "fb_typed b \<Longrightarrow> d \<in> set (fb_occs b i) \<Longrightarrow> plain_ok i d"
  by (simp add: fb_typed_occs)

lemma set_remove_nth_subset: "set (remove_nth n xs) \<subseteq> set xs"
  by (auto simp: remove_nth_def dest: in_set_takeD in_set_dropD)

interpretation fp: field_store pool_inv "\<lambda>p. pool_occs p h"
  "\<lambda>p i d. on_handle p h (\<lambda>b. fb_append b i d)"
  "\<lambda>p i n d. on_handle p h (\<lambda>b. fb_update b i n d)"
  "\<lambda>p i n. on_handle p h (\<lambda>b. fb_remove b i n)" field_storable for h
proof unfold_locales
  fix p i d p'
  assume inv: "pool_inv p" and st: "field_storable i d"
    and ap: "on_handle p h (\<lambda>b. fb_append b i d) = (True, p')"
  from ap obtain b b' where b: "pool_find p h = Some b" "fb_append b i d = (True, b')" "p' = pool_put p h b'"
    by (rule on_handle_true)
  note ib = pool_inv_find [OF inv b(1)]
  from fb.append_true [OF _ _ b(2)] ib st
  have "fb_inv b'" "fb_occs b' = (fb_occs b)(i := fb_occs b i @ [d])" by (auto simp: field_storable_def)
  moreover from ib st have "\<forall>x\<in>set (fb_occs b i @ [d]). plain_ok i x"
    by (auto simp: field_storable_def dest: plain_ok_occs)
  ultimately show "pool_inv p' \<and> pool_occs p' h = (pool_occs p h)(i := pool_occs p h i @ [d])"
    using on_handle_step [OF inv b(1), of "\<lambda>b. fb_append b i d", OF b(2)] b(1,3) by (simp add: pool_occs_def)
next
  fix p i n d p'
  assume inv: "pool_inv p" and st: "field_storable i d"
    and up: "on_handle p h (\<lambda>b. fb_update b i n d) = (True, p')"
  from up obtain b b' where b: "pool_find p h = Some b" "fb_update b i n d = (True, b')" "p' = pool_put p h b'"
    by (rule on_handle_true)
  note ib = pool_inv_find [OF inv b(1)]
  from fb.update_true [OF _ _ b(2)] ib st have n: "0 \<le> n" "nat n < length (fb_occs b i)"
    and "fb_inv b'" "fb_occs b' = (fb_occs b)(i := (fb_occs b i)[nat n := d])"
    by (auto simp: field_storable_def)
  moreover from ib st have "\<forall>x\<in>set ((fb_occs b i)[nat n := d]). plain_ok i x"
    by (auto simp: field_storable_def dest: plain_ok_occs dest!: set_update_subset_insert [THEN subsetD])
  ultimately show "pool_inv p' \<and> 0 \<le> n \<and> nat n < length (pool_occs p h i) \<and>
      pool_occs p' h = (pool_occs p h)(i := (pool_occs p h i)[nat n := d])"
    using on_handle_step [OF inv b(1), of "\<lambda>b. fb_update b i n d", OF b(2)] b(1,3) by (simp add: pool_occs_def)
next
  fix p i and n :: int
  assume inv: "pool_inv p" and n: "0 \<le> n" "nat n < length (pool_occs p h i)"
  then obtain b where b: "pool_find p h = Some b" by (auto simp: pool_occs_def split: option.splits)
  note ib = pool_inv_find [OF inv b]
  from fb.remove_hit [of b n i] ib n b obtain b' where b': "fb_remove b i n = (True, b')" "fb_inv b'"
    "fb_occs b' = (fb_occs b)(i := remove_nth (nat n) (fb_occs b i))" by (auto simp: pool_occs_def)
  moreover have "\<forall>x\<in>set (remove_nth (nat n) (fb_occs b i)). plain_ok i x"
    using ib set_remove_nth_subset by (fastforce dest: plain_ok_occs)
  ultimately show "\<exists>p'. on_handle p h (\<lambda>b. fb_remove b i n) = (True, p') \<and> pool_inv p' \<and>
      pool_occs p' h = (pool_occs p h)(i := remove_nth (nat n) (pool_occs p h i))"
    using on_handle_step [OF inv b, of "\<lambda>b. fb_remove b i n", OF b'(1)] b by (simp add: pool_occs_def)
next
  fix p i and n :: int
  assume inv: "pool_inv p" and n: "\<not> (0 \<le> n \<and> nat n < length (pool_occs p h i))"
  show "on_handle p h (\<lambda>b. fb_remove b i n) = (False, p)"
  proof (cases "pool_find p h")
    case (Some b)
    with fb.remove_miss [of b n i] pool_inv_find [OF inv Some] n
    show ?thesis by (simp add: on_handle_def pool_occs_def pool_put_same)
  qed (simp add: on_handle_def)
qed (auto dest: on_handle_false [rotated] fb.append_false fb.update_false)

end
