(* ===== verification/Field_Theorems.thy ===== *)
theory Field_Theorems
  imports Field_Api
begin

text \<open>
  What the C interface of the field buffer promises: values come back as they were added, on hosts of
  either byte order; an id is removed with all its occurrences; changing a value ends; the iteration
  visits every field; and every buffer a program can reach satisfies the invariant of the pool.
\<close>

section \<open>The bytes a value is stored as\<close>

definition stored :: "endian \<Rightarrow> field_type \<Rightarrow> byte list \<Rightarrow> int \<Rightarrow> byte list" where
  "stored e t v cnt =
     (case t of
        F_STRING \<Rightarrow> takeWhile (\<lambda>c. c \<noteq> 0) v @ [0]
      | F_BINARY \<Rightarrow> take (nat cnt) v
      | _ \<Rightarrow> be_bytes (net_size t) (load_plain e t v))"

definition empty_value :: "field_type \<Rightarrow> byte list" where
  "empty_value t =
     (case t of F_STRING \<Rightarrow> [0] | F_BINARY \<Rightarrow> [] | _ \<Rightarrow> be_bytes (net_size t) 0)"

lemma type_of_code_code: "type_of_code (type_code t) = Some t"
  by (cases t) (simp_all add: type_of_code_def field_types_def)

lemma type_of_codeD: "type_of_code c = Some t \<Longrightarrow> type_code t = c"
  by (auto simp: type_of_code_def field_types_def split: if_splits)

lemma host_size_net_size: "host_size t = Some m \<Longrightarrow> m = int (net_size t)"
  by (cases t) (simp_all add: net_size_def)

lemma host_size_None: "host_size t = None \<longleftrightarrow> t = F_STRING \<or> t = F_BINARY"
  by (cases t) simp_all

lemma net_size_pos: "0 < net_size t \<and> net_size t \<le> 8"
  by (cases t) (simp_all add: net_size_def)

lemma plain_ok_stored: "type_of_code (id_type i) = Some t \<Longrightarrow> plain_ok i (stored e t v cnt)"
  by (cases t) (simp_all add: plain_ok_def stored_def)

lemma plain_ok_empty: "type_of_code (id_type i) = Some t \<Longrightarrow> plain_ok i (empty_value t)"
  by (cases t) (simp_all add: plain_ok_def empty_value_def)

lemma length_stored:
  "length v < 2 ^ 61 \<Longrightarrow> length (stored e t v cnt) < max_bytes"
  using net_size_pos [of t] length_takeWhile_le [of "\<lambda>c. c \<noteq> 0" v]
  by (cases t) (auto simp: stored_def max_bytes_def)

lemma length_empty_value: "length (empty_value t) < max_bytes"
  using net_size_pos [of t] by (cases t) (auto simp: empty_value_def max_bytes_def)

section \<open>The functions over the pool as a field store\<close>

lemma field_add_on_handle:
  "field_add p h i t f =
    (if type_code t \<noteq> id_type i then (FIELD_INVALID_ID, p)
     else if pool_find p h = None then (FIELD_INVALID_BUFFER, p)
     else (case on_handle p h f of (ok, p') \<Rightarrow> (if ok then FIELD_SUCCESS else FIELD_NO_SPACE, p')))"
  by (auto simp: field_add_def on_handle_def split: option.splits prod.splits)

lemma add_value_eq:
  assumes "type_of_code (id_type i) = Some t" and "t = F_BINARY \<Longrightarrow> 0 \<le> cnt"
  shows "CasualFieldAddValue e p h i v cnt = field_add p h i t (\<lambda>b. fb_append b i (stored e t v cnt))"
  using assms
  by (cases t) (auto simp: CasualFieldAddValue_def CasualFieldAddPlain_def CasualFieldAddString_def
      CasualFieldAddBinary_def fb_append_value_def fb_append_string_def stored_def)

lemma add_empty_eq:
  assumes "type_of_code (id_type i) = Some t"
  shows "CasualFieldAddEmpty p h i = field_add p h i t (\<lambda>b. fb_append b i (empty_value t))"
  using assms
  by (cases t) (auto simp: CasualFieldAddEmpty_def CasualFieldAddPlain_def CasualFieldAddString_def
      CasualFieldAddBinary_def fb_append_value_def fb_append_string_def empty_value_def)

lemma field_add_success:
  assumes inv: "pool_inv p" and st: "field_storable i d"
    and add: "field_add p h i t (\<lambda>b. fb_append b i d) = (c, p')"
  shows "pool_inv p'"
    and "c = FIELD_SUCCESS \<Longrightarrow> pool_occs p' h = (pool_occs p h)(i := pool_occs p h i @ [d])"
    and "c \<noteq> FIELD_SUCCESS \<Longrightarrow> p' = p"
    and "c \<noteq> FIELD_NO_OCCURRENCE"
proof -
  obtain ok q where r: "on_handle p h (\<lambda>b. fb_append b i d) = (ok, q)" by fastforce
  from fp.append_true [OF inv st] fp.append_false r
  have "if ok then pool_inv q \<and> pool_occs q h = (pool_occs p h)(i := pool_occs p h i @ [d]) else q = p"
    by (cases ok) auto
  with inv r add show "pool_inv p'"
    and "c = FIELD_SUCCESS \<Longrightarrow> pool_occs p' h = (pool_occs p h)(i := pool_occs p h i @ [d])"
    and "c \<noteq> FIELD_SUCCESS \<Longrightarrow> p' = p"
    and "c \<noteq> FIELD_NO_OCCURRENCE"
    by (auto simp: field_add_on_handle split: if_splits)
qed

text \<open>Overwriting a value of a plain type in place is the update with bytes of the same length.\<close>

lemma rep_determines: "fb_rep b fs \<Longrightarrow> fb_rep b' fs \<Longrightarrow> fb_capacity b = fb_capacity b' \<Longrightarrow> b = (b' :: fbuf)"
  by (simp add: fb_rep_def)

lemma fb_update_value_is_update:
  assumes inv: "fb_inv b" "fb_typed b" and t: "type_of_code (id_type i) = Some t" "host_size t \<noteq> None"
  shows "fb_update_value b i n (net_size t) v = fb_update b i n (be_bytes (net_size t) v)"
proof (cases "fs_select (fb_fields b) i n")
  case None
  then have "\<not> fs_position (fb_fields b) i n < length (fb_fields b)"
    by (auto simp: fs_select_def Let_def split: if_splits)
  moreover from inv have rep: "fb_rep b (fb_fields b)" by (simp add: fb_inv_def)
  ultimately show ?thesis
    by (simp add: fb_update_value_def fb_update_def fb_offset_rep [OF rep] fb_position_rep [OF rep]
        length_index_rep [OF rep])
next
  case (Some d)
  from inv have rep: "fb_rep b (fb_fields b)" by (simp add: fb_inv_def)
  from Some have k: "fs_position (fb_fields b) i n < length (fb_fields b)"
    and d: "d = snd (fb_fields b ! fs_position (fb_fields b) i n)"
    by (auto simp: fs_select_def Let_def split: if_splits)
  from inv(2) k have "plain_ok i d"
    using fs_position_id [OF k] by (metis d fb_typed_def list_all_length)
  with t have len: "length d = net_size t" by (auto simp: plain_ok_def)
  have "length (be_bytes (net_size t) v) < max_bytes" using net_size_pos [of t] by (simp add: max_bytes_def)
  note up = fb_update_rep [OF rep this, of i n]
  have fits: "fs_bytes (fb_fields b) - length d + net_size t \<le> fb_capacity b"
    using fb_utilized_rep [OF rep] len length_flatten [of "fb_fields b"] flatten_split [OF k]
    by (simp add: d)
  note uv = fb_update_value_rep [OF rep Some len, of v]
  have "fb_capacity (snd (fb_update_value b i n (net_size t) v)) = fb_capacity b"
    by (simp add: fb_update_value_def split: option.splits)
  with rep_determines [OF uv(2)] up k fits
  have "snd (fb_update_value b i n (net_size t) v) = snd (fb_update b i n (be_bytes (net_size t) v))"
    by (simp add: d)
  with uv(1) up(1) k fits show ?thesis by (simp add: d prod_eq_iff)
qed


lemma update_value_eq:
  assumes inv: "pool_inv p" and t: "type_of_code (id_type i) = Some t" and "t = F_BINARY \<Longrightarrow> 0 \<le> cnt"
  shows "CasualFieldUpdateValue e p h i n (Some v) cnt =
    field_update p h i n t (\<lambda>b. fb_update b i n (stored e t v cnt))"
proof (cases "host_size t = None")
  case True
  with t assms(3) show ?thesis
    by (cases t) (auto simp: CasualFieldUpdateValue_def CasualFieldUpdateString_def
        CasualFieldUpdateBinary_def fb_update_string_def stored_def)
next
  case False
  have *: "CasualFieldUpdateValue e p h i n (Some v) cnt =
      field_update p h i n t (\<lambda>b. fb_update_value b i n (net_size t) (load_plain e t v))"
    "stored e t v cnt = be_bytes (net_size t) (load_plain e t v)"
    using False t by (cases t; simp add: CasualFieldUpdateValue_def CasualFieldUpdatePlain_def stored_def)+
  show ?thesis
  proof (cases "pool_find p h")
    case (Some b)
    with pool_inv_find [OF inv Some] fb_update_value_is_update [OF _ _ t False]
    show ?thesis by (simp add: * field_update_def)
  qed (simp add: * field_update_def)
qed

lemma field_update_success:
  assumes inv: "pool_inv p" and st: "field_storable i d"
    and upd: "field_update p h i n t (\<lambda>b. fb_update b i n d) = (c, p')"
  shows "pool_inv p'"
    and "c = FIELD_SUCCESS \<Longrightarrow> 0 \<le> n \<and> nat n < length (pool_occs p h i) \<and>
      pool_occs p' h = (pool_occs p h)(i := (pool_occs p h i)[nat n := d])"
    and "c \<noteq> FIELD_SUCCESS \<Longrightarrow> p' = p"
    and "c = FIELD_NO_OCCURRENCE \<Longrightarrow> \<not> (0 \<le> n \<and> nat n < length (pool_occs p h i))"
proof -
  obtain ok q where r: "on_handle p h (\<lambda>b. fb_update b i n d) = (ok, q)" by fastforce
  from fp.update_true [OF inv st] fp.update_false r
  have q: "if ok then pool_inv q \<and> 0 \<le> n \<and> nat n < length (pool_occs p h i) \<and>
      pool_occs q h = (pool_occs p h)(i := (pool_occs p h i)[nat n := d]) else q = p"
    by (cases ok) auto
  have c: "p' = (if c = FIELD_INVALID_ID then p else q) \<and> (c = FIELD_SUCCESS \<longrightarrow> ok) \<and>
      (ok \<longrightarrow> c \<in> {FIELD_SUCCESS, FIELD_INVALID_ID})"
    using upd r by (auto simp: field_update_def on_handle_def split: if_splits option.splits prod.splits)
  from c q inv show "pool_inv p'" and "c \<noteq> FIELD_SUCCESS \<Longrightarrow> p' = p"
    and "c = FIELD_SUCCESS \<Longrightarrow> 0 \<le> n \<and> nat n < length (pool_occs p h i) \<and>
      pool_occs p' h = (pool_occs p h)(i := (pool_occs p h i)[nat n := d])"
    by (auto split: if_splits)
  assume no: "c = FIELD_NO_OCCURRENCE"
  then obtain b b' where b: "pool_find p h = Some b" "fb_update b i n d = (False, b')" "fb_find b' i n = None"
    using upd by (auto simp: field_update_def split: if_splits option.splits prod.splits)
  from pool_inv_find [OF inv b(1)] fb.update_false [OF b(2)] b(3)
  have "\<not> fs_position (fb_fields b) i n < length (fb_fields b)"
    by (auto simp: fb_inv_def fb_find_rep split: if_splits)
  with b(1) show "\<not> (0 \<le> n \<and> nat n < length (pool_occs p h i))"
    by (simp add: fs_position_less pool_occs_def fb_occs_def length_occurrences)
qed

lemma field_storable_stored:
  "in_range 8 i \<Longrightarrow> type_of_code (id_type i) = Some t \<Longrightarrow> length v < 2 ^ 61 \<Longrightarrow>
    field_storable i (stored e t v cnt)"
  by (simp add: field_storable_def fb_storable_def length_stored plain_ok_stored)

lemma field_storable_empty:
  "in_range 8 i \<Longrightarrow> type_of_code (id_type i) = Some t \<Longrightarrow> field_storable i (empty_value t)"
  by (simp add: field_storable_def fb_storable_def length_empty_value plain_ok_empty)

section \<open>Removing an id\<close>

lemma remove_loop_cong:
  "(\<And>b n. rm b i n = rm' b i n) \<Longrightarrow> remove_loop rm b i k = remove_loop rm' b i k"
  by (induction k arbitrary: b) simp_all

lemma field_remove_on_handle:
  assumes "NO_ID < i"
  shows "(case field_remove p h i n of (c, p') \<Rightarrow> (c = FIELD_SUCCESS, p')) = on_handle p h (\<lambda>b. fb_remove b i n)"
  using assms by (auto simp: field_remove_def on_handle_def split: option.splits prod.splits)

lemma count_id_occs:
  assumes "pool_inv p" and "pool_find p h = Some b"
  shows "fb_count_id b i = int (length (pool_occs p h i))"
  using pool_inv_find [OF assms] assms(2)
  by (simp add: fb_inv_def fb_count_rep pool_occs_def fb_occs_def length_occurrences)

text \<open>
  For an id that is not positive (which only bytes copied in can hold) every removal is refused, and
  \<open>CasualFieldRemoveId\<close>, which looks at none of the results, still reports success.
\<close>

lemma remove_id_misses_negative_ids:
  assumes inv: "pool_inv p" and i: "\<not> NO_ID < i" and occ: "pool_occs p h i \<noteq> []"
  shows "CasualFieldRemoveId p h i = (FIELD_SUCCESS, p)"
proof -
  from occ obtain b where b: "pool_find p h = Some b" by (auto simp: pool_occs_def split: option.splits)
  have "remove_loop (\<lambda>q i n. (case field_remove q h i n of (c, q') \<Rightarrow> (c = FIELD_SUCCESS, q'))) p i k = p" for k
    using i by (induction k) (auto simp: field_remove_def)
  with b occ count_id_occs [OF inv b] show ?thesis
    by (simp add: CasualFieldRemoveId_def field_count_id_def)
qed



section \<open>Changing a value\<close>

lemma update_value_invalid:
  "type_of_code (id_type i) = None \<or> type_of_code (id_type i) = Some F_BINARY \<and> cnt < 0 \<Longrightarrow>
    fst (CasualFieldUpdateValue e p h i n (Some v) cnt) \<notin> {FIELD_SUCCESS, FIELD_NO_OCCURRENCE} \<and>
    snd (CasualFieldUpdateValue e p h i n (Some v) cnt) = p"
  by (auto simp: CasualFieldUpdateValue_def CasualFieldUpdateBinary_def)

lemma change_value_run:
  assumes inv: "pool_inv p" and i: "in_range 8 i" and v: "length v < 2 ^ 61" and n: "0 \<le> n"
    and t: "type_of_code (id_type i) = Some t"
  shows "\<exists>c p'. CasualFieldChangeValue e p h i n (Some v) cnt = Some (c, p') \<and> pool_inv p' \<and>
    (c = FIELD_SUCCESS \<longrightarrow>
      nat n < length (pool_occs p' h i) \<and> pool_occs p' h i ! nat n = stored e t v cnt)"
proof -
  let ?R = "\<lambda>r. pool_inv (snd r) \<and> (fst r = FIELD_SUCCESS \<longrightarrow>
      nat n < length (pool_occs (snd r) h i) \<and> pool_occs (snd r) h i ! nat n = stored e t v cnt)"
  let ?upd = "\<lambda>q. CasualFieldUpdateValue e q h i n (Some v) cnt"
  let ?add = "\<lambda>q. CasualFieldAddEmpty q h i"
  have upd: "?R (?upd q) \<and> (fst (?upd q) = FIELD_NO_OCCURRENCE \<longrightarrow>
      snd (?upd q) = q \<and> length (pool_occs q h i) \<le> nat n)" if q: "pool_inv q" for q
  proof (cases "t = F_BINARY \<and> cnt < 0")
    case True
    with update_value_invalid [of i cnt e q h n v] t q show ?thesis by simp
  next
    case False
    obtain c q' where r: "?upd q = (c, q')" by fastforce
    with update_value_eq [OF q t, of cnt e h n v] False
    have "field_update q h i n t (\<lambda>b. fb_update b i n (stored e t v cnt)) = (c, q')" by auto
    from field_update_success [OF q field_storable_stored [OF i t v] this] r n show ?thesis by auto
  qed
  have add: "pool_inv (snd (?add q)) \<and> fst (?add q) \<noteq> FIELD_NO_OCCURRENCE \<and>
      (fst (?add q) = FIELD_SUCCESS \<longrightarrow> length (pool_occs q h i) < length (pool_occs (snd (?add q)) h i))"
    if q: "pool_inv q" for q
  proof -
    obtain c q' where r: "?add q = (c, q')" by fastforce
    with add_empty_eq [OF t] have "field_add q h i t (\<lambda>b. fb_append b i (empty_value t)) = (c, q')" by auto
    from field_add_success [OF q field_storable_empty [OF i t] this] r show ?thesis by auto
  qed
  have "\<exists>r. change_loop ?upd ?add p = Some r \<and> ?R r"
    using upd add by (intro fp.change_loop_returns [OF _ _ _ _ inv, of _ h i n]) auto
  with n show ?thesis by (auto simp: CasualFieldChangeValue_def)
qed

text \<open>
  C38: \<open>CasualFieldChangeValue\<close> always returns: with a value and an index that is not negative,
  the recursion that adds empty occurrences ends. When it reports success, the occurrence at the
  index holds the value, and whatever it reports the pool keeps its invariant.
\<close>

theorem change_value_returns:
  assumes inv: "pool_inv p" and i: "in_range 8 i" and v: "length v < 2 ^ 61" and n: "0 \<le> n"
    and t: "type_of_code (id_type i) = Some t"
  shows "\<exists>c p'. CasualFieldChangeValue e p h i n (Some v) cnt = Some (c, p') \<and> pool_inv p' \<and>
    (c = FIELD_SUCCESS \<longrightarrow>
      nat n < length (pool_occs p' h i) \<and> pool_occs p' h i ! nat n = stored e t v cnt)"
  using change_value_run [OF inv i v n t] .

section \<open>Reading a value back\<close>

lemma host_bytes_host_value: "length v = n \<Longrightarrow> host_bytes e n (host_value e v) = v"
  using be_bytes_be_value [of v] be_bytes_be_value [of "rev v"]
  by (cases e) (auto simp: host_bytes_def host_value_def)

lemma host_value_bound: "length v = n \<Longrightarrow> host_value e v < 256 ^ n"
  using be_value_bound [of v] be_value_bound [of "rev v"] by (cases e) (auto simp: host_value_def)

lemma id_type_int_eq: "type_of_code (id_type i) = Some t \<Longrightarrow> id_type_int i = id_type i"
  by (drule type_of_codeD, cases t) (auto simp: id_type_int_def to_signed_def to_unsigned_def dest: sym)

lemma pool_occs_hit:
  assumes inv: "pool_inv p" and n: "0 \<le> n" "nat n < length (pool_occs p h i)"
  obtains b where "pool_find p h = Some b" "fb_rep b (fb_fields b)" "fb_typed b"
    "fs_select (fb_fields b) i n = Some (pool_occs p h i ! nat n)"
    "plain_ok i (pool_occs p h i ! nat n)"
proof -
  from n obtain b where b: "pool_find p h = Some b" by (auto simp: pool_occs_def split: option.splits)
  note ib = pool_inv_find [OF inv b]
  from n b have o: "fs_select (fb_fields b) i n = Some (pool_occs p h i ! nat n)"
    by (simp add: pool_occs_def fb_occs_def fs_select_occurrences)
  from ib n b have "plain_ok i (pool_occs p h i ! nat n)" by (auto simp: pool_occs_def fb_typed_occs)
  with that b ib o show thesis by (simp add: fb_inv_def)
qed

text \<open>What \<open>CasualFieldGetValue\<close> hands out for the bytes of a field.\<close>

definition loaded :: "endian \<Rightarrow> field_type \<Rightarrow> byte list \<Rightarrow> byte list" where
  "loaded e t d = (if t = F_STRING \<or> t = F_BINARY then d else host_bytes e (net_size t) (be_value d))"

lemma fb_select_data:
  assumes "fb_rep b fs" and "fs_select fs i n = Some d"
  obtains pos where "fb_select b i n = Some (pos, int (length d))" "take (length d) (drop pos (fb_memory b)) = d"
proof -
  from fb_select_rep(1) [OF assms(1), of i n] assms(2) obtain pos c
    where s: "fb_select b i n = Some (pos, c)" "take (nat c) (drop pos (fb_memory b)) = d" by auto
  from fb_select_rep(2) [OF assms(1) s(1)] s(2) have "c = int (length d)" by auto
  with s that show thesis by simp
qed

lemma get_value_hit:
  assumes inv: "pool_inv p" and n: "0 \<le> n" "nat n < length (pool_occs p h i)"
    and t: "type_of_code (id_type i) = Some t"
  defines "d \<equiv> pool_occs p h i ! nat n"
  assumes cnt: "case cnt of None \<Rightarrow> True | Some c \<Rightarrow> int (length d) \<le> c"
  shows "CasualFieldGetValue e p h i n True cnt =
    (FIELD_SUCCESS, map_option (\<lambda>_. int (length d)) cnt, Some (loaded e t d))"
proof -
  from pool_occs_hit [OF inv n] obtain b where b: "pool_find p h = Some b" and rep: "fb_rep b (fb_fields b)"
    and sel: "fs_select (fb_fields b) i n = Some d" and ok: "plain_ok i d" unfolding d_def by metis
  show ?thesis
  proof (cases "t = F_STRING \<or> t = F_BINARY")
    case True
    from fb_select_data [OF rep sel] obtain pos where "fb_select b i n = Some (pos, int (length d))"
      "take (length d) (drop pos (fb_memory b)) = d" by metis
    with True cnt t b type_of_codeD [OF t] show ?thesis
      by (auto simp: CasualFieldGetValue_def get_size_def field_get_def id_type_int_eq loaded_def
          split: option.splits)
  next
    case False
    then obtain m where m: "host_size t = Some m" by (cases t) auto
    from ok t m have len: "length d = net_size t" by (auto simp: plain_ok_def)
    from fb_select_value_rep [OF rep sel, of "net_size t"] len
    have "fb_select_value b i n (net_size t) = Some (be_value d)" by simp
    with False cnt t b m len type_of_codeD [OF t] host_size_net_size [OF m] show ?thesis
      by (auto simp: CasualFieldGetValue_def get_size_def field_get_def CasualFieldGetPlain_def
          field_plain_type_host_size_def id_type_int_eq loaded_def split: option.splits)
  qed
qed

text \<open>The memory a caller passes for a value of each type.\<close>

definition c_value :: "field_type \<Rightarrow> byte list \<Rightarrow> int \<Rightarrow> bool" where
  "c_value t v cnt = (case t of
     F_STRING \<Rightarrow> v \<noteq> [] \<and> last v = 0 \<and> 0 \<notin> set (butlast v)
   | F_BINARY \<Rightarrow> cnt = int (length v)
   | _ \<Rightarrow> length v = net_size t)"

lemma takeWhile_to_null: "v \<noteq> [] \<Longrightarrow> last v = 0 \<Longrightarrow> 0 \<notin> set (butlast v) \<Longrightarrow> takeWhile (\<lambda>c. c \<noteq> 0) v @ [0] = v"
  for v :: "byte list"
proof -
  assume v: "v \<noteq> []" "last v = 0" "0 \<notin> set (butlast v)"
  then have "takeWhile (\<lambda>c. c \<noteq> 0) (butlast v @ [0]) = butlast v"
    by (subst takeWhile_append2) auto
  with v show ?thesis by (metis append_butlast_last_id)
qed

lemma loaded_stored: "c_value t v cnt \<Longrightarrow> loaded e t (stored e t v cnt) = v"
  by (cases t) (simp_all add: c_value_def loaded_def stored_def load_plain_def takeWhile_to_null
      be_value_be_bytes host_value_bound host_bytes_host_value)

text \<open>
  C37: a value of any of the seven types that \<open>CasualFieldAddValue\<close> accepted is what
  \<open>CasualFieldGetValue\<close> returns for the new last occurrence of its id, byte for byte, on hosts of
  either byte order; the occurrences before it and those of other ids are untouched.
\<close>

theorem add_value_get_value:
  assumes inv: "pool_inv p" and i: "in_range 8 i" and v: "c_value t v cnt" "length v < 2 ^ 61"
    and t: "type_of_code (id_type i) = Some t"
    and add: "CasualFieldAddValue e p h i v cnt = (FIELD_SUCCESS, p')"
  shows "CasualFieldGetValue e p' h i (int (length (pool_occs p h i))) True None
      = (FIELD_SUCCESS, None, Some v) \<and>
    pool_inv p' \<and> pool_occs p' h = (pool_occs p h)(i := pool_occs p h i @ [stored e t v cnt])"
proof -
  have bin: "t = F_BINARY \<Longrightarrow> 0 \<le> cnt" using v by (simp add: c_value_def)
  from add add_value_eq [OF t bin]
  have "field_add p h i t (\<lambda>b. fb_append b i (stored e t v cnt)) = (FIELD_SUCCESS, p')" by simp
  from field_add_success [OF inv field_storable_stored [OF i t v(2)] this]
  have p': "pool_inv p'" "pool_occs p' h = (pool_occs p h)(i := pool_occs p h i @ [stored e t v cnt])" by auto
  with get_value_hit [OF p'(1) _ _ t, of "int (length (pool_occs p h i))" h None e] loaded_stored [OF v(1)]
  show ?thesis by simp
qed

section \<open>Iterating over a buffer\<close>

text \<open>Every field as its id and its occurrence number, in the order they lie in the buffer.\<close>

definition numbered :: "field list \<Rightarrow> (int \<times> int) list" where
  "numbered fs = map (\<lambda>k. (fst (fs ! k), int (fs_count (take k fs) (fst (fs ! k))))) [0..<length fs]"

text \<open>A client that calls \<open>CasualFieldNext\<close> until it reports something else than success.\<close>

fun field_walk :: "fpool \<Rightarrow> handle \<Rightarrow> nat \<Rightarrow> int \<Rightarrow> int \<Rightarrow> (int \<times> int) list \<times> field_code option" where
  "field_walk p h 0 i n = ([], None)"
| "field_walk p h (Suc fuel) i n =
     (case CasualFieldNext p h (Some i) (Some n) of
        (FIELD_SUCCESS, Some (i', n')) \<Rightarrow> (case field_walk p h fuel i' n' of (xs, c) \<Rightarrow> ((i', n') # xs, c))
      | (c, _) \<Rightarrow> ([], Some c))"

lemma find_if_index_number:
  "k < length xs \<Longrightarrow> P (xs ! k) \<Longrightarrow> find_if_index P xs (int (length (filter P (take k xs)))) = k"
proof (induction xs arbitrary: k)
  case (Cons x xs)
  then show ?case by (cases k) auto
qed simp

lemma length_numbered [simp]: "length (numbered fs) = length fs"
  by (simp add: numbered_def)

lemma filter_idx_take:
  "length (filter (\<lambda>e. fst e = i) (take k (idx_from s fs))) = length (filter (\<lambda>f. fst f = i) (take k fs))"
  by (induction fs arbitrary: s k) (auto simp: take_Cons')

lemma next_numbered:
  assumes b: "pool_find p h = Some b" and rep: "fb_rep b fs" and k: "k < length fs"
    and id: "fst (fs ! k) \<noteq> NO_ID"
  shows "CasualFieldNext p h (Some (fst (numbered fs ! k))) (Some (snd (numbered fs ! k))) =
    (if Suc k < length fs then (FIELD_SUCCESS, Some (numbered fs ! Suc k)) else (FIELD_NO_OCCURRENCE, None))"
proof -
  have pos: "fb_position b (fst (fs ! k)) (int (fs_count (take k fs) (fst (fs ! k)))) = k"
    using find_if_index_number [OF k, of "\<lambda>f. fst f = fst (fs ! k)"]
    by (simp add: fb_position_rep [OF rep] fs_position_def fs_count_def)
  from rep have "fb_index b = idx_from 0 fs" by (simp add: fb_rep_def)
  with b pos k id show ?thesis
    by (auto simp: CasualFieldNext_def field_next_def numbered_def Let_def fst_nth_idx_from
        filter_idx_take fs_count_def simp del: upt_Suc)
qed

lemma first_numbered:
  assumes "pool_find p h = Some b" and rep: "fb_rep b fs"
  shows "CasualFieldNext p h (Some NO_ID) (Some n) =
    (if 0 < length fs then (FIELD_SUCCESS, Some (numbered fs ! 0)) else (FIELD_NO_OCCURRENCE, None))"
proof (cases fs)
  case (Cons f gs)
  with assms show ?thesis by (simp add: CasualFieldNext_def field_first_def fb_rep_def numbered_def fs_count_def nth_append del: upt_Suc)
qed (use assms in \<open>simp add: CasualFieldNext_def field_first_def fb_rep_def\<close>)

lemma field_walk_from:
  assumes b: "pool_find p h = Some b" and rep: "fb_rep b fs" and ids: "\<forall>f\<in>set fs. fst f \<noteq> NO_ID"
  shows "k < length fs \<Longrightarrow> length fs \<le> k + fuel \<Longrightarrow>
    field_walk p h fuel (fst (numbered fs ! k)) (snd (numbered fs ! k)) =
      (drop (Suc k) (numbered fs), Some FIELD_NO_OCCURRENCE)"
proof (induction fuel arbitrary: k)
  case (Suc fuel)
  from ids Suc.prems have "fst (fs ! k) \<noteq> NO_ID" by auto
  note nxt = next_numbered [OF b rep Suc.prems(1) this]
  show ?case
  proof (cases "Suc k < length fs")
    case True
    with Suc.IH [of "Suc k"] Suc.prems nxt show ?thesis
      by (cases "numbered fs ! Suc k") (simp add: Cons_nth_drop_Suc [symmetric])
  next
    case False
    with nxt Suc.prems show ?thesis by simp
  qed
qed simp

text \<open>
  Starting from no id, repeated calls of \<open>CasualFieldNext\<close> visit every field of the buffer
  exactly once, in the order of the buffer, each with its occurrence number, and then report that
  there is no further occurrence. The buffer holds no field with the id that means no id.
\<close>

theorem next_visits_every_field:
  assumes inv: "pool_inv p" and b: "pool_find p h = Some b"
    and ids: "\<forall>f\<in>set (fb_fields b). fst f \<noteq> NO_ID" and fuel: "length (fb_fields b) < fuel"
  shows "field_walk p h fuel NO_ID n = (numbered (fb_fields b), Some FIELD_NO_OCCURRENCE)"
proof -
  let ?fs = "fb_fields b"
  from pool_inv_find [OF inv b] have rep: "fb_rep b ?fs" by (simp add: fb_inv_def)
  from fuel obtain m where m: "fuel = Suc m" "length ?fs \<le> m" by (cases fuel) auto
  show ?thesis
  proof (cases "?fs = []")
    case True
    with first_numbered [OF b rep] m show ?thesis by (simp add: numbered_def)
  next
    case False
    then have "0 < length ?fs" by simp
    moreover from this have "numbered ?fs = numbered ?fs ! 0 # drop (Suc 0) (numbered ?fs)"
      by (simp add: Cons_nth_drop_Suc)
    ultimately show ?thesis
      using first_numbered [OF b rep] field_walk_from [OF b rep ids, of 0 m] m
      by (cases "numbered ?fs ! 0") simp
  qed
qed

section \<open>Rebuilding a buffer from its bytes\<close>

lemma fb_inv_bytes: "fb_inv b \<Longrightarrow> update_index (fb_memory b) = Some (Index (fb_index b))"
  by (auto simp: fb_inv_def intro: update_index_rep)

lemma fb_utilized_bound: "fb_inv b \<Longrightarrow> fb_utilized b \<le> fb_capacity b \<and> fb_capacity b < max_bytes"
  using fb_utilized_rep [of b "fb_fields b"] by (simp add: fb_inv_def fb_rep_def)

lemma fb_fields_cong:
  "fb_memory b' = fb_memory b \<Longrightarrow> fb_index b' = fb_index b \<Longrightarrow> fb_fields (b' :: fbuf) = fb_fields (b :: fbuf)"
  by (simp add: fb_fields_def)

lemma fb_inv_capacity:
  assumes "fb_inv b" and "fb_memory b' = fb_memory b" "fb_index b' = fb_index b"
    and "length (fb_memory b) \<le> fb_capacity b'" "fb_capacity (b' :: fbuf) < max_bytes"
  shows "fb_inv b' \<and> (fb_typed b \<longrightarrow> fb_typed b') \<and> fb_occs b' = fb_occs b"
  using assms fb_fields_cong [OF assms(2,3)] by (simp add: fb_inv_def fb_rep_def fb_typed_def fb_occs_def)

lemma copy_memory_of_buffer:
  assumes inv: "pool_inv p" and s: "pool_find p source = Some b" and t: "pool_find p target = Some tb"
  shows "\<exists>p'. CasualFieldCopyMemory p target (fb_memory b) (int (fb_utilized b)) =
      Some (Inr (if fb_utilized b \<le> fb_reserved tb then FIELD_SUCCESS else FIELD_NO_SPACE, p')) \<and>
      pool_inv p' \<and>
      pool_occs p' target = (if fb_utilized b \<le> fb_reserved tb then pool_occs p source else pool_occs p target)"
proof -
  note ib = pool_inv_find [OF inv s] and it = pool_inv_find [OF inv t]
  from ib have idx: "update_index (fb_memory b) = Some (Index (fb_index b))" by (simp add: fb_inv_bytes)
  have cnt: "to_unsigned 8 (int (fb_utilized b)) = fb_utilized b"
    using fb_utilized_bound [of b] ib by (subst to_unsigned_8) (auto simp: max_bytes_def)
  let ?tb = "tb\<lparr>fb_memory := fb_memory b, fb_index := fb_index b\<rparr>"
  have tb: "fb_inv ?tb \<and> fb_typed ?tb \<and> fb_occs ?tb = fb_occs b" if "fb_utilized b \<le> fb_reserved tb"
    using fb_inv_capacity [of b ?tb] ib fb_utilized_bound [of tb] it that
    by (simp add: fb_utilized_def fb_reserved_def)
  show ?thesis
  proof (cases "fb_utilized b \<le> fb_reserved tb")
    case True
    with s t tb idx pool_inv_put [OF inv, of ?tb target] show ?thesis
      by (simp add: CasualFieldCopyMemory_def field_serialize_def fb_copy_memory_def cnt fb_reserved_def)
        (simp add: fb_utilized_def pool_occs_def find_find_upd_first)
  next
    case False
    with t inv show ?thesis
      by (simp add: CasualFieldCopyMemory_def field_serialize_def fb_copy_memory_def cnt fb_reserved_def
          pool_put_same)
  qed
qed

text \<open>
  C40: the bytes of a buffer are all that travels. Given the bytes of one buffer,
  \<open>CasualFieldCopyMemory\<close> returns: it rebuilds the same fields in the target, or reports that they
  do not fit and changes nothing; a received payload with these bytes becomes a buffer with the same
  fields.
\<close>

theorem wire_bytes_rebuild_the_buffer:
  assumes inv: "pool_inv p" and s: "pool_find p source = Some b" and t: "pool_find p target = Some tb"
  shows "(\<exists>p'. CasualFieldCopyMemory p target (fb_memory b) (int (fb_utilized b)) =
      Some (Inr (if fb_utilized b \<le> fb_reserved tb then FIELD_SUCCESS else FIELD_NO_SPACE, p')) \<and>
      pool_inv p' \<and>
      pool_occs p' target = (if fb_utilized b \<le> fb_reserved tb then pool_occs p source else pool_occs p target)) \<and>
    pool_insert [] fresh (fb_utilized b) (fb_memory b) = Some (fresh, [(fresh, b\<lparr>fb_capacity := fb_utilized b\<rparr>)])"
  using copy_memory_of_buffer [OF inv s t] pool_inv_find [OF inv s] fb_inv_bytes [of b]
  by (simp add: pool_insert_def)

section \<open>Every reachable pool keeps the invariant\<close>

text \<open>
  One call of the interface on values that fit in memory. Raw memory is only copied in when it is the
  bytes of a buffer.
\<close>

inductive field_step :: "fpool \<Rightarrow> fpool \<Rightarrow> bool" where
  step_allocate: "bytes < max_bytes \<Longrightarrow> field_step p (snd (pool_allocate p fresh bytes))"
| step_reallocate: "bytes < max_bytes \<Longrightarrow> pool_reallocate p h fresh bytes = Some (h', p') \<Longrightarrow> field_step p p'"
| step_deallocate: "field_step p (pool_deallocate p h)"
| step_add: "in_range 8 i \<Longrightarrow> length v < 2 ^ 61 \<Longrightarrow> field_step p (snd (CasualFieldAddValue e p h i v cnt))"
| step_add_empty: "in_range 8 i \<Longrightarrow> field_step p (snd (CasualFieldAddEmpty p h i))"
| step_update: "in_range 8 i \<Longrightarrow> length v < 2 ^ 61 \<Longrightarrow>
    field_step p (snd (CasualFieldUpdateValue e p h i n (Some v) cnt))"
| step_change: "in_range 8 i \<Longrightarrow> length v < 2 ^ 61 \<Longrightarrow>
    CasualFieldChangeValue e p h i n (Some v) cnt = Some (c, p') \<Longrightarrow> field_step p p'"
| step_remove_all: "field_step p (snd (CasualFieldRemoveAll p h))"
| step_remove_id: "field_step p (snd (CasualFieldRemoveId p h i))"
| step_remove_occurrence: "field_step p (snd (CasualFieldRemoveOccurrence p h i n))"
| step_copy_buffer: "field_step p (snd (CasualFieldCopyBuffer p target source))"
| step_copy_memory: "pool_find p source = Some b \<Longrightarrow> pool_find p target = Some tb \<Longrightarrow>
    CasualFieldCopyMemory p target (fb_memory b) (int (fb_utilized b)) = Some (Inr (c, p')) \<Longrightarrow> field_step p p'"

lemma pool_inv_remove: "pool_inv p \<Longrightarrow> pool_inv (snd (field_remove p h i n))"
proof (cases "NO_ID < i")
  case True
  assume inv: "pool_inv p"
  from fp.remove_hit [OF inv, of n h i] fp.remove_miss [OF inv, of n h i] inv
  have "pool_inv (snd (on_handle p h (\<lambda>b. fb_remove b i n)))"
    by (cases "0 \<le> n \<and> nat n < length (pool_occs p h i)") auto
  then have "pool_inv (snd (case field_remove p h i n of (c, p') \<Rightarrow> (c = FIELD_SUCCESS, p')))"
    by (simp only: field_remove_on_handle [OF True])
  then show ?thesis by (simp add: case_prod_unfold)
qed (simp add: field_remove_def)

lemma remove_loop_inv: "(\<And>b n. I b \<Longrightarrow> I (snd (rm b i n))) \<Longrightarrow> I b \<Longrightarrow> I (remove_loop rm b i k)"
  by (induction k arbitrary: b) auto

lemma pool_inv_remove_id: "pool_inv p \<Longrightarrow> pool_inv (snd (CasualFieldRemoveId p h i))"
  by (simp add: CasualFieldRemoveId_def case_prod_unfold pool_inv_remove remove_loop_inv split: option.split)

lemma pool_inv_add:
  assumes "pool_inv p" "in_range 8 i" "length v < 2 ^ 61"
  shows "pool_inv (snd (CasualFieldAddValue e p h i v cnt))"
proof (cases "type_of_code (id_type i)")
  case None
  with assms show ?thesis by (simp add: CasualFieldAddValue_def)
next
  case (Some t)
  show ?thesis
  proof (cases "t = F_BINARY \<and> cnt < 0")
    case True
    with Some assms show ?thesis by (simp add: CasualFieldAddValue_def CasualFieldAddBinary_def)
  next
    case False
    then have "t = F_BINARY \<Longrightarrow> 0 \<le> cnt" by auto
    from add_value_eq [OF Some this] field_add_success(1) [OF assms(1) field_storable_stored [OF assms(2) Some assms(3)]]
    show ?thesis by (metis prod.collapse)
  qed
qed

lemma pool_inv_add_empty: "pool_inv p \<Longrightarrow> in_range 8 i \<Longrightarrow> pool_inv (snd (CasualFieldAddEmpty p h i))"
proof (cases "type_of_code (id_type i)")
  case (Some t)
  assume "pool_inv p" "in_range 8 i"
  from add_empty_eq [OF Some] field_add_success(1) [OF this(1) field_storable_empty [OF this(2) Some]]
  show ?thesis by (metis prod.collapse)
qed (simp add: CasualFieldAddEmpty_def)

lemma pool_inv_update:
  assumes "pool_inv p" "in_range 8 i" "length v < 2 ^ 61"
  shows "pool_inv (snd (CasualFieldUpdateValue e p h i n (Some v) cnt))"
proof (cases "type_of_code (id_type i) = None \<or> type_of_code (id_type i) = Some F_BINARY \<and> cnt < 0")
  case True
  from update_value_invalid [OF this] assms(1) show ?thesis by simp
next
  case False
  then obtain t where t: "type_of_code (id_type i) = Some t" "t = F_BINARY \<Longrightarrow> 0 \<le> cnt" by auto
  from update_value_eq [OF assms(1) t]
    field_update_success(1) [OF assms(1) field_storable_stored [OF assms(2) t(1) assms(3)]]
  show ?thesis by (metis prod.collapse)
qed

lemma pool_inv_change:
  assumes "pool_inv p" "in_range 8 i" "length v < 2 ^ 61"
    and r: "CasualFieldChangeValue e p h i n (Some v) cnt = Some (c, p')"
  shows "pool_inv p'"
proof (cases "n < 0")
  case True
  with r pool_inv_add [OF assms(1-3), of e h cnt] show ?thesis by (simp add: CasualFieldChangeValue_def)
next
  case False
  show ?thesis
  proof (cases "type_of_code (id_type i)")
    case None
    then have "CasualFieldChangeValue e p h i n (Some v) cnt = Some (FIELD_INVALID_ID, p)"
      using False by (simp add: CasualFieldChangeValue_def CasualFieldUpdateValue_def change_loop.simps)
    with r assms(1) show ?thesis by simp
  next
    case (Some t)
    with change_value_run [OF assms(1-3) _ Some, of n e h cnt] r False show ?thesis by auto
  qed
qed

lemma fb_reallocate_inv:
  assumes "fb_inv b" "bytes < max_bytes"
  shows "fb_inv (fb_reallocate b bytes) \<and> (fb_typed b \<longrightarrow> fb_typed (fb_reallocate b bytes))"
  using fb_inv_capacity [OF assms(1), of "fb_reallocate b bytes"] fb_utilized_bound [OF assms(1)] assms(2)
  by (auto simp: fb_reallocate_def Let_def fb_utilized_def max_bytes_def)

lemma pool_inv_reallocate:
  assumes inv: "pool_inv p" and "bytes < max_bytes" and r: "pool_reallocate p h fresh bytes = Some (h', p')"
  shows "pool_inv p'"
proof -
  from r obtain b h'' where b: "pool_find p h = Some b"
    and p': "p' = upd_first (\<lambda>e. fst e = h) (\<lambda>_. (h'', fb_reallocate b bytes)) p"
    by (auto simp: pool_reallocate_def Let_def split: option.splits)
  from pool_inv_find [OF inv b] fb_reallocate_inv [of b bytes] assms(2) inv show ?thesis
    by (auto simp: p' pool_inv_def list_all_iff elim!: in_set_upd_firstE)
qed

lemma pool_inv_copy: "pool_inv p \<Longrightarrow> pool_inv (snd (CasualFieldCopyBuffer p target source))"
proof (cases "pool_find p target"; cases "pool_find p source")
  fix t s assume inv: "pool_inv p" and t: "pool_find p target = Some t" and s: "pool_find p source = Some s"
  note it = pool_inv_find [OF inv t] and ib = pool_inv_find [OF inv s]
  have "fb_inv (snd (fb_copy t s)) \<and> fb_typed (snd (fb_copy t s))"
    using it fb_inv_capacity [of s "snd (fb_copy t s)"] ib fb_utilized_bound [of t]
    by (auto simp: fb_copy_def fb_reserved_def fb_utilized_def)
  with pool_inv_put [OF inv] t s show ?thesis
    by (simp add: CasualFieldCopyBuffer_def field_copy_def case_prod_unfold)
qed (simp_all add: CasualFieldCopyBuffer_def field_copy_def)

lemma pool_inv_reset: "pool_inv p \<Longrightarrow> pool_inv (snd (CasualFieldRemoveAll p h))"
proof (cases "pool_find p h")
  case (Some b)
  assume inv: "pool_inv p"
  from pool_inv_find [OF this Some] have rep: "fb_rep (fb_reset b) []"
    by (auto simp: fb_inv_def intro: fb_reset_rep)
  then have "fb_inv (fb_reset b)" "fb_typed (fb_reset b)"
    by (simp_all add: fb_inv_rep fb_typed_def fb_fields_rep [OF rep])
  with pool_inv_put [OF inv] Some show ?thesis by (simp add: CasualFieldRemoveAll_def field_reset_def)
qed (simp add: CasualFieldRemoveAll_def field_reset_def)

lemma pool_inv_copy_memory:
  assumes inv: "pool_inv p" and s: "pool_find p source = Some b" and t: "pool_find p target = Some tb"
    and r: "CasualFieldCopyMemory p target (fb_memory b) (int (fb_utilized b)) = Some (Inr (c, p'))"
  shows "pool_inv p'"
  using copy_memory_of_buffer [OF inv s t] r by auto

lemma pool_inv_allocate:
  "pool_inv p \<Longrightarrow> size' < max_bytes \<Longrightarrow> pool_inv (snd (pool_allocate p fresh size'))"
  by (auto simp: pool_inv_def pool_allocate_def fb_inv_def fb_rep_def fb_fields_def fb_typed_def max_bytes_def)

lemma pool_inv_deallocate: "pool_inv p \<Longrightarrow> pool_inv (pool_deallocate p h)"
  by (auto simp: pool_deallocate_def pool_inv_def list_all_iff dest: in_erase_firstD)

lemmas pool_inv_intros = pool_inv_deallocate pool_inv_allocate pool_inv_reallocate pool_inv_add pool_inv_add_empty pool_inv_update
  pool_inv_change pool_inv_reset pool_inv_remove_id pool_inv_remove pool_inv_copy pool_inv_copy_memory

lemma pool_inv_step: "field_step p p' \<Longrightarrow> pool_inv p \<Longrightarrow> pool_inv p'"
  by (induction rule: field_step.induct)
    (unfold CasualFieldRemoveOccurrence_def, (blast intro: pool_inv_intros)+)


section \<open>Concrete runs\<close>

text \<open>A small pool for concrete runs: one buffer of the given capacity at address 1.\<close>

definition small_pool :: "nat \<Rightarrow> fpool" where
  "small_pool capacity = snd (pool_allocate [] 1 capacity)"

lemma pool_inv_small: "capacity < max_bytes \<Longrightarrow> pool_inv (small_pool capacity)"
  unfolding small_pool_def by (rule pool_inv_allocate) (simp_all add: pool_inv_def)

lemma pool_find_small: "pool_find (small_pool capacity) 1 \<noteq> None"
  by (simp add: small_pool_def pool_allocate_def pool_find_def)

definition sample_pool :: fpool where
  "sample_pool = snd (CasualFieldAddValue LITTLE_ENDIAN (small_pool 100) 1 0x4000001 [1, 2, 3, 4, 5, 6, 7, 8] 0)"

lemma sample_id: "in_range 8 0x4000001 \<and> type_of_code (id_type 0x4000001) = Some F_LONG \<and>
    c_value F_LONG [1, 2, 3, 4, 5, 6, 7, 8] 0"
  by (simp add: in_range_def id_type_def TYPE_BASE_def type_of_code_def field_types_def c_value_def net_size_def)

lemma sample_add: "CasualFieldAddValue LITTLE_ENDIAN (small_pool 100) 1 0x4000001 [1, 2, 3, 4, 5, 6, 7, 8] 0
    = (FIELD_SUCCESS, sample_pool)"
proof -
  have "fst (CasualFieldAddValue LITTLE_ENDIAN (small_pool 100) 1 0x4000001 [1, 2, 3, 4, 5, 6, 7, 8] 0) = FIELD_SUCCESS"
    using sample_id
    by (simp add: CasualFieldAddValue_def CasualFieldAddPlain_def field_add_def small_pool_def pool_allocate_def
      pool_find_def fb_append_value_def fb_append_def Let_def fb_utilized_def fb_reserved_def net_size_def data_offset_def
      to_unsigned_def id_type_def TYPE_BASE_def)
  then show ?thesis by (simp add: sample_pool_def prod_eq_iff)
qed

lemma small_pool_occs: "pool_occs (small_pool 100) 1 = (\<lambda>_. [])"
  by (simp add: small_pool_def pool_allocate_def pool_occs_def pool_find_def fb_occs_def fb_fields_def fun_eq_iff)

lemma sample_occs: "pool_inv sample_pool \<and> pool_occs sample_pool 1 =
    (\<lambda>_. [])(0x4000001 := [stored LITTLE_ENDIAN F_LONG [1, 2, 3, 4, 5, 6, 7, 8] 0])"
proof -
  show ?thesis
    using small_pool_occs field_add_success(1,2) [OF pool_inv_small field_storable_stored, of 100 "0x4000001" F_LONG "[1, 2, 3, 4, 5, 6, 7, 8]"
      1 F_LONG LITTLE_ENDIAN 0 FIELD_SUCCESS sample_pool] sample_id sample_add
      add_value_eq [of "0x4000001" F_LONG 0 LITTLE_ENDIAN "small_pool 100" 1 "[1, 2, 3, 4, 5, 6, 7, 8]"]
    by (simp add: max_bytes_def)
qed

lemma sample_find: "\<exists>b. pool_find sample_pool 1 = Some b"
  using sample_occs by (cases "pool_find sample_pool 1") (auto simp: pool_occs_def fun_eq_iff split: if_splits)

lemma occurrences_single: "occurrences fs = (\<lambda>_. [])(i := [d]) \<Longrightarrow> fs = [(i, d)]"
proof (cases fs)
  case (Cons f gs)
  assume o: "occurrences fs = (\<lambda>_. [])(i := [d])"
  from fun_cong [OF o, of "fst f"] Cons have f: "fst f = i" "snd f = d" "occurrences gs i = []"
    by (auto split: if_splits)
  have "occurrences gs j = []" for j
    using fun_cong [OF o, of j] Cons f by (auto split: if_splits)
  from this [of "fst (hd gs)"] have "gs = []" by (cases gs) auto
  with f Cons show ?thesis by (simp add: prod_eq_iff)
qed (simp add: fun_eq_iff split: if_splits)

lemma sample_fields: "\<exists>b. pool_find sample_pool 1 = Some b \<and>
    fb_fields b = [(0x4000001, stored LITTLE_ENDIAN F_LONG [1, 2, 3, 4, 5, 6, 7, 8] 0)]"
  using sample_occs sample_find by (auto simp: pool_occs_def fb_occs_def intro: occurrences_single)


theorem change_value_returns_witness:
  "\<exists>c p'. CasualFieldChangeValue BIG_ENDIAN sample_pool 1 0x4000001 3 (Some [0, 0, 0, 0, 0, 0, 0, 9]) 0 = Some (c, p')"
  using change_value_returns [of sample_pool "0x4000001" "[0, 0, 0, 0, 0, 0, 0, 9]" 3 F_LONG BIG_ENDIAN 1 0]
    sample_occs sample_id by auto

theorem add_value_get_value_witness:
  "CasualFieldGetValue LITTLE_ENDIAN sample_pool 1 0x4000001 0 True None =
    (FIELD_SUCCESS, None, Some [1, 2, 3, 4, 5, 6, 7, 8])"
  using add_value_get_value [of "small_pool 100" "0x4000001" F_LONG "[1, 2, 3, 4, 5, 6, 7, 8]" 0
      LITTLE_ENDIAN 1 sample_pool] sample_id sample_add pool_inv_small [of 100] small_pool_occs
  by (simp add: max_bytes_def)

theorem next_visits_every_field_witness:
  "field_walk sample_pool 1 2 NO_ID 0 = ([(0x4000001, 0)], Some FIELD_NO_OCCURRENCE)"
proof -
  from sample_fields obtain b where b: "pool_find sample_pool 1 = Some b"
    "fb_fields b = [(0x4000001, stored LITTLE_ENDIAN F_LONG [1, 2, 3, 4, 5, 6, 7, 8] 0)]" by blast
  with next_visits_every_field [of sample_pool 1 b 2 0] sample_occs
  show ?thesis by (simp add: NO_ID_def numbered_def fs_count_def)
qed

theorem wire_bytes_rebuild_the_buffer_witness:
  "\<exists>b p'. pool_find sample_pool 1 = Some b \<and>
    CasualFieldCopyMemory sample_pool 1 (fb_memory b) (int (fb_utilized b)) = Some (Inr (FIELD_SUCCESS, p'))"
proof -
  from sample_fields obtain b where b: "pool_find sample_pool 1 = Some b" by blast
  moreover from this sample_occs pool_inv_find [of sample_pool 1 b] fb_utilized_bound [of b]
  have "fb_utilized b \<le> fb_reserved b" by (simp add: fb_reserved_def)
  ultimately show ?thesis
    using wire_bytes_rebuild_the_buffer [of sample_pool 1 b 1 b 0] sample_occs by auto
qed


section \<open>The byte order of the host does not show\<close>

text \<open>
  Two hosts of different byte order that add the same number as a field of a plain type store the
  same bytes: the buffer after \<open>CasualFieldAddValue\<close> does not depend on the byte order in which the
  caller's memory holds the value.
\<close>

lemma host_order_does_not_show:
  assumes "type_of_code (id_type i) = Some t" and "host_size t \<noteq> None" and "x < 256 ^ net_size t"
  shows "CasualFieldAddValue e p h i (host_bytes e (net_size t) x) cnt =
    CasualFieldAddValue e' p h i (host_bytes e' (net_size t) x) cnt"
proof -
  have "load_plain e t (host_bytes e (net_size t) x) = x" for e
    using assms(3) by (cases e) (simp_all add: load_plain_def host_value_def host_bytes_def be_value_be_bytes)
  with assms(1,2) show ?thesis by (cases t) (simp_all add: CasualFieldAddValue_def)
qed

lemma host_order_does_not_show_witness:
  "CasualFieldAddValue LITTLE_ENDIAN (small_pool 100) 1 0x4000001 (host_bytes LITTLE_ENDIAN 8 258) 0 =
   CasualFieldAddValue BIG_ENDIAN (small_pool 100) 1 0x4000001 (host_bytes BIG_ENDIAN 8 258) 0"
  using host_order_does_not_show [of "0x4000001" F_LONG 258 LITTLE_ENDIAN "small_pool 100" 1 0 BIG_ENDIAN]
    sample_id by (simp add: net_size_def)

section \<open>The repository\<close>

text \<open>
  When the table gives every accepted field a name and an id of its own, looking up the name of a
  field and then the id of that name gives the id back, and both functions report success exactly for
  the accepted fields.
\<close>

lemma repository_round_trip:
  assumes "distinct (map rf_name (fetch_fields groups))" and "distinct (map rf_id (fetch_fields groups))"
    and f: "f \<in> set (fetch_fields groups)"
  shows "CasualFieldNameOfId groups (rf_id f) = (FIELD_SUCCESS, Some (rf_name f)) \<and>
    CasualFieldIdOfName groups (Some (rf_name f)) = (FIELD_SUCCESS, Some (rf_id f)) \<and>
    NO_ID < rf_id f"
proof -
  have pos: "NO_ID < rf_id f" using f
    by (auto simp: fetch_fields_def Let_def split: option.splits if_splits)
  have "map_of (map (\<lambda>f. (rf_name f, rf_id f)) (fetch_fields groups)) (rf_name f) = Some (rf_id f)"
    using assms by (intro map_of_is_SomeI) (auto simp: comp_def)
  moreover have "map_of (map (\<lambda>f. (rf_id f, rf_name f)) (fetch_fields groups)) (rf_id f) = Some (rf_name f)"
    using assms by (intro map_of_is_SomeI) (auto simp: comp_def)
  ultimately show ?thesis using pos
    by (simp add: CasualFieldNameOfId_def CasualFieldIdOfName_def id_to_name_def name_to_id_def NO_ID_def)
qed

definition sample_groups :: "rgroup list" where
  "sample_groups = [\<lparr>rg_base = 2000,
     rg_fields = [\<lparr>rf_id = 1, rf_name = ''A'', rf_type = ''long''\<rparr>, \<lparr>rf_id = 1, rf_name = ''B'', rf_type = ''short''\<rparr>,
                  \<lparr>rf_id = 2, rf_name = ''C'', rf_type = ''money''\<rparr>]\<rparr>]"

lemma sample_repository_round_trip:
  "CasualFieldIdOfName sample_groups (Some ''A'') = (FIELD_SUCCESS, Some 0x40007D1)"
  using repository_round_trip [of sample_groups "\<lparr>rf_id = 0x40007D1, rf_name = ''A'', rf_type = ''long''\<rparr>"]
  by (simp add: fetch_fields_def sample_groups_def name_to_type_def field_types_def TYPE_BASE_def NO_ID_def)

end
