(* ===== verification/Xid.thy ===== *)
theory Xid
  imports Byteorder
begin

text \<open>
  Transaction identifiers (\<open>common/transaction/id.h\<close>, \<open>common/source/transaction/id.cpp\<close>) and
  the process handles they carry. An \<open>XID\<close> is compared by \<open>memcmp\<close> over its memory: the three
  longs in the byte order of the host and the bytes of the global and the branch part.
\<close>

section \<open>Process handles and identifiers\<close>

type_synonym uuid = int

definition nil_uuid :: uuid where "nil_uuid = 0"

record process_handle =
  ph_pid :: int
  ph_queue :: int

definition no_process :: process_handle where
  "no_process = \<lparr>ph_pid = 0, ph_queue = 0\<rparr>"

text \<open>\<open>operator <\<close> of \<open>process::Handle\<close>\<close>

definition handle_less :: "process_handle \<Rightarrow> process_handle \<Rightarrow> bool" where
  "handle_less l r = (if ph_pid l = ph_pid r then ph_queue l < ph_queue r else ph_pid l < ph_pid r)"

record xid =
  formatID :: int
  gtrid_length :: int
  bqual_length :: int
  xid_data :: "byte list"

record trid =
  t_xid :: xid
  t_owner :: process_handle

definition XIDDATASIZE :: nat where "XIDDATASIZE = 128"
definition cNull :: int where "cNull = - 1"
definition cCasual :: int where "cCasual = 42"

definition xid_null :: "xid \<Rightarrow> bool" where
  "xid_null x \<longleftrightarrow> formatID x = cNull"

text \<open>The memory of an identifier: three longs and the data.\<close>

definition long_image :: "endian \<Rightarrow> int \<Rightarrow> byte list" where
  "long_image e i = host_bytes e 8 (to_unsigned 8 i)"

definition xid_image :: "endian \<Rightarrow> xid \<Rightarrow> byte list" where
  "xid_image e x = long_image e (formatID x) @ long_image e (gtrid_length x) @
     long_image e (bqual_length x) @ xid_data x"

text \<open>\<open>std::memcmp\<close>: the sign of the first difference of two memory areas.\<close>

fun memcmp :: "byte list \<Rightarrow> byte list \<Rightarrow> nat \<Rightarrow> int" where
  "memcmp (x # xs) (y # ys) (Suc n) = (if x = y then memcmp xs ys n else if x < y then - 1 else 1)"
| "memcmp _ _ _ = 0"

definition compared_bytes :: "xid \<Rightarrow> nat" where
  "compared_bytes x = nat (24 + gtrid_length x + bqual_length x)"

definition xid_equal :: "endian \<Rightarrow> xid \<Rightarrow> xid \<Rightarrow> bool" where
  "xid_equal e l r =
     (if formatID l \<noteq> formatID r then False
      else if formatID l = cNull then True
      else memcmp (xid_image e l) (xid_image e r) (compared_bytes l) = 0)"

definition xid_less :: "endian \<Rightarrow> xid \<Rightarrow> xid \<Rightarrow> bool" where
  "xid_less e l r =
     (if formatID l \<noteq> formatID r then formatID l < formatID r
      else if formatID l = cNull then False
      else memcmp (xid_image e l) (xid_image e r) (compared_bytes l) < 0)"

definition xid_global :: "xid \<Rightarrow> byte list" where
  "xid_global x = take (nat (gtrid_length x)) (xid_data x)"

definition xid_branch :: "xid \<Rightarrow> byte list" where
  "xid_branch x = take (nat (bqual_length x)) (drop (nat (gtrid_length x)) (xid_data x))"

definition xid_range :: "xid \<Rightarrow> byte list" where
  "xid_range x = take (nat (gtrid_length x + bqual_length x)) (xid_data x)"

text \<open>
  The constructors. Uuids are their sixteen bytes; \<open>garbage\<close> is the memory the constructor from two
  uuids leaves uninitialised.
\<close>

definition null_id :: "process_handle \<Rightarrow> trid" where
  "null_id owner = \<lparr>t_xid = \<lparr>formatID = cNull, gtrid_length = 0, bqual_length = 0,
     xid_data = replicate XIDDATASIZE 0\<rparr>, t_owner = owner\<rparr>"

definition casual_xid :: "byte list \<Rightarrow> byte list \<Rightarrow> byte list \<Rightarrow> xid" where
  "casual_xid gtrid bqual garbage =
     \<lparr>formatID = cCasual, gtrid_length = int (length bqual), bqual_length = int (length bqual),
      xid_data = take XIDDATASIZE (gtrid @ bqual @ garbage)\<rparr>"

definition create_id :: "byte list \<Rightarrow> byte list \<Rightarrow> byte list \<Rightarrow> process_handle \<Rightarrow> trid" where
  "create_id gtrid bqual garbage owner = \<lparr>t_xid = casual_xid gtrid bqual garbage, t_owner = owner\<rparr>"

text \<open>\<open>ID::branch\<close>: the same global part, the branch part overwritten with a new uuid.\<close>

definition branch_id :: "trid \<Rightarrow> byte list \<Rightarrow> trid" where
  "branch_id t fresh =
     (if xid_null (t_xid t) then t
      else (let x = t_xid t; g = nat (gtrid_length x); b = nat (bqual_length x)
            in t\<lparr>t_xid := x\<lparr>xid_data := take g (xid_data x) @ take b fresh @ drop (g + length (take b fresh)) (xid_data x)\<rparr>\<rparr>))"

text \<open>A move leaves the source null.\<close>

definition move_id :: "trid \<Rightarrow> trid \<times> trid" where
  "move_id t = (t, t\<lparr>t_xid := (t_xid t)\<lparr>formatID := cNull\<rparr>\<rparr>)"

section \<open>XA codes and flags\<close>

definition XA_OK :: int where "XA_OK = 0"
definition XA_RDONLY :: int where "XA_RDONLY = 3"
definition XAER_RMERR :: int where "XAER_RMERR = - 3"
definition XAER_NOTA :: int where "XAER_NOTA = - 4"
definition XAER_PROTO :: int where "XAER_PROTO = - 6"
definition XAER_RMFAIL :: int where "XAER_RMFAIL = - 7"
definition TMNOFLAGS :: int where "TMNOFLAGS = 0"
definition TMONEPHASE :: int where "TMONEPHASE = 0x40000000"

section \<open>Comparison\<close>

text \<open>An identifier whose lengths fit its memory.\<close>

definition xid_wf :: "xid \<Rightarrow> bool" where
  "xid_wf x \<longleftrightarrow> length (xid_data x) = XIDDATASIZE \<and> in_range 8 (formatID x) \<and>
     0 \<le> gtrid_length x \<and> 0 \<le> bqual_length x \<and> gtrid_length x + bqual_length x \<le> 128"

text \<open>What the comparison is meant to be: the same format, global part and branch part.\<close>

definition same_xid :: "xid \<Rightarrow> xid \<Rightarrow> bool" where
  "same_xid l r \<longleftrightarrow> formatID l = formatID r \<and>
     (xid_null l \<or> gtrid_length l = gtrid_length r \<and> bqual_length l = bqual_length r \<and>
       xid_range l = xid_range r)"

definition same_trid :: "trid \<Rightarrow> trid \<Rightarrow> bool" where
  "same_trid l r \<longleftrightarrow> same_xid (t_xid l) (t_xid r)"

lemma same_trid_refl [simp]: "same_trid t t"
  by (simp add: same_trid_def same_xid_def)

lemma same_trid_sym: "same_trid s t \<Longrightarrow> same_trid t s"
  by (auto simp: same_trid_def same_xid_def xid_null_def)

lemma same_trid_trans: "same_trid s t \<Longrightarrow> same_trid t u \<Longrightarrow> same_trid s u"
  by (auto simp: same_trid_def same_xid_def xid_null_def)

lemma memcmp_zero: "n \<le> length xs \<Longrightarrow> n \<le> length ys \<Longrightarrow> memcmp xs ys n = 0 \<longleftrightarrow> take n xs = take n ys"
  by (induction xs ys n rule: memcmp.induct) (auto simp: take_Cons' split: nat.splits)

lemma long_image_inj: "in_range 8 i \<Longrightarrow> in_range 8 j \<Longrightarrow> long_image e i = long_image e j \<longleftrightarrow> i = j"
proof
  assume r: "in_range 8 i" "in_range 8 j" and eq: "long_image e i = long_image e j"
  have "be_bytes 8 (to_unsigned 8 i) = be_bytes 8 (to_unsigned 8 j)"
    using eq by (cases e) (auto simp: long_image_def host_bytes_def)
  then have "decode_long (encode_long i) = decode_long (encode_long j)" by (simp add: encode_int_def)
  with r show "i = j" by (simp add: decode_encode_int)
qed simp

lemma length_long_image [simp]: "length (long_image e i) = 8"
  by (cases e) (simp_all add: long_image_def host_bytes_def)

lemma xid_wf_range: "xid_wf x \<Longrightarrow> in_range 8 (gtrid_length x) \<and> in_range 8 (bqual_length x)"
  by (auto simp: xid_wf_def in_range_def)

lemma compared_bytes_le: "xid_wf x \<Longrightarrow> compared_bytes x \<le> 152 \<and> length (xid_image e x) = 152"
  by (auto simp: xid_wf_def compared_bytes_def xid_image_def XIDDATASIZE_def)

lemma take_image: "xid_wf x \<Longrightarrow> take (24 + n) (xid_image e x) =
    long_image e (formatID x) @ long_image e (gtrid_length x) @ long_image e (bqual_length x) @ take n (xid_data x)"
  by (simp add: xid_image_def)

lemma compared_bytes_split: "xid_wf x \<Longrightarrow> compared_bytes x = 24 + nat (gtrid_length x + bqual_length x)"
  by (simp add: xid_wf_def compared_bytes_def nat_add_distrib)

lemma xid_equal_iff:
  assumes l: "xid_wf l" and r: "xid_wf r"
  shows "xid_equal e l r \<longleftrightarrow> same_xid l r"
proof (cases "formatID l = formatID r \<and> \<not> xid_null l")
  case True
  let ?n = "nat (gtrid_length l + bqual_length l)"
  have "memcmp (xid_image e l) (xid_image e r) (compared_bytes l) = 0 \<longleftrightarrow>
      take (24 + ?n) (xid_image e l) = take (24 + ?n) (xid_image e r)"
    using compared_bytes_le [OF l] compared_bytes_le [OF r] compared_bytes_split [OF l]
    by (subst memcmp_zero) auto
  also have "\<dots> \<longleftrightarrow> gtrid_length l = gtrid_length r \<and> bqual_length l = bqual_length r \<and> xid_range l = xid_range r"
    using True l r xid_wf_range [OF l] xid_wf_range [OF r]
    by (auto simp: take_image long_image_inj xid_wf_def xid_range_def)
  finally show ?thesis using True by (auto simp: xid_equal_def same_xid_def xid_null_def)
qed (auto simp: xid_equal_def same_xid_def xid_null_def)

definition byte_less :: "(byte \<times> byte) set" where
  "byte_less = {(a, b). a < b}"

lemma byte_less_order: "trans byte_less" "(a, a) \<notin> byte_less" "(a, b) \<in> byte_less \<or> a = b \<or> (b, a) \<in> byte_less"
  by (auto simp: byte_less_def trans_def)

lemma memcmp_negative:
  "n \<le> length xs \<Longrightarrow> n \<le> length ys \<Longrightarrow>
    memcmp xs ys n < 0 \<longleftrightarrow> (take n xs, take n ys) \<in> lexord byte_less"
  by (induction xs ys n rule: memcmp.induct) (auto simp: byte_less_def take_Cons' split: nat.splits)

lemma lexord_same_length_append:
  "length u = length v \<Longrightarrow> (u @ x, v @ y) \<in> lexord byte_less \<longleftrightarrow>
    (u, v) \<in> lexord byte_less \<or> u = v \<and> (x, y) \<in> lexord byte_less"
  by (induction u v rule: list_induct2) (auto simp: byte_less_order)

text \<open>The bytes that decide the order: the header and the global and branch part.\<close>

definition xid_header :: "endian \<Rightarrow> xid \<Rightarrow> byte list" where
  "xid_header e x = long_image e (formatID x) @ long_image e (gtrid_length x) @ long_image e (bqual_length x)"

definition xid_key :: "endian \<Rightarrow> xid \<Rightarrow> byte list" where
  "xid_key e x = xid_header e x @ xid_range x"

lemma xid_header_eq:
  "xid_wf l \<Longrightarrow> xid_wf r \<Longrightarrow> xid_header e l = xid_header e r \<longleftrightarrow>
    formatID l = formatID r \<and> gtrid_length l = gtrid_length r \<and> bqual_length l = bqual_length r"
  using xid_wf_range [of l] xid_wf_range [of r] by (simp add: xid_header_def long_image_inj xid_wf_def)

lemma xid_less_key:
  assumes l: "xid_wf l" and r: "xid_wf r"
  shows "xid_less e l r \<longleftrightarrow> formatID l < formatID r \<or>
    formatID l = formatID r \<and> \<not> xid_null l \<and> (xid_key e l, xid_key e r) \<in> lexord byte_less"
proof -
  let ?n = "nat (gtrid_length l + bqual_length l)"
  have len: "length (xid_header e l) = length (xid_header e r)" by (simp add: xid_header_def)
  have "memcmp (xid_image e l) (xid_image e r) (compared_bytes l) < 0 \<longleftrightarrow>
      (take (24 + ?n) (xid_image e l), take (24 + ?n) (xid_image e r)) \<in> lexord byte_less"
    using compared_bytes_le [OF l] compared_bytes_le [OF r] compared_bytes_split [OF l]
    by (subst memcmp_negative) auto
  also have "\<dots> \<longleftrightarrow> (xid_header e l @ xid_range l, xid_header e r @ take ?n (xid_data r)) \<in> lexord byte_less"
    by (simp add: take_image [OF l] take_image [OF r] xid_header_def xid_range_def)
  also have "\<dots> \<longleftrightarrow> (xid_key e l, xid_key e r) \<in> lexord byte_less"
    unfolding xid_key_def lexord_same_length_append [OF len] using xid_header_eq [OF l r, of e]
    by (auto simp: xid_range_def)
  finally show ?thesis by (auto simp: xid_less_def xid_null_def)
qed

lemma same_xid_key:
  assumes "xid_wf l" "xid_wf r"
  shows "same_xid l r \<longleftrightarrow> formatID l = formatID r \<and> (xid_null l \<or> xid_key e l = xid_key e r)"
proof -
  have "length (xid_header e l) = length (xid_header e r)" by (simp add: xid_header_def)
  then show ?thesis using xid_header_eq [OF assms, of e] by (auto simp: same_xid_def xid_key_def)
qed

text \<open>
  C8: the comparison operators of transaction identifiers, which compare raw memory, are what an ordered
  container needs, on hosts of either byte order: equality holds exactly for the same format, global
  part and branch part (and between null identifiers), whatever the rest of the memory holds; the order is
  transitive and never holds both ways; and two identifiers of which neither is less are equal.
\<close>

theorem xid_comparison_is_an_order:
  assumes "xid_wf x" and "xid_wf y" and "xid_wf z"
  shows "(xid_equal e x y \<longleftrightarrow> same_xid x y) \<and>
    (xid_less e x y \<longrightarrow> \<not> xid_less e y x \<and> \<not> xid_equal e x y) \<and>
    (xid_less e x y \<and> xid_less e y z \<longrightarrow> xid_less e x z) \<and>
    (xid_less e x y \<or> xid_equal e x y \<or> xid_less e y x)"
proof (intro conjI)
  note key = xid_less_key [OF assms(1,2)] xid_less_key [OF assms(2,1)] xid_less_key [OF assms(2,3)]
    xid_less_key [OF assms(1,3)] xid_equal_iff [OF assms(1,2)] same_xid_key [OF assms(1,2), of e]
  have trans: "trans (lexord byte_less)" by (rule lexord_transI) (rule byte_less_order(1))
  have irrefl: "(a, a) \<notin> lexord byte_less" for a by (rule lexord_irreflexive) (simp add: byte_less_order)
  have linear: "(a, b) \<in> lexord byte_less \<or> a = b \<or> (b, a) \<in> lexord byte_less" for a b
    by (rule lexord_linear) (use byte_less_order in blast)
  have asym: "(a, b) \<in> lexord byte_less \<Longrightarrow> (b, a) \<notin> lexord byte_less" for a b
    using transD [OF trans, of a b a] irrefl by blast
  show "xid_equal e x y \<longleftrightarrow> same_xid x y" by (fact xid_equal_iff [OF assms(1,2)])
  show "xid_less e x y \<longrightarrow> \<not> xid_less e y x \<and> \<not> xid_equal e x y"
    unfolding key using irrefl asym by (auto simp: xid_null_def)
  show "xid_less e x y \<and> xid_less e y z \<longrightarrow> xid_less e x z"
    unfolding key using transD [OF trans, of "xid_key e x" "xid_key e y" "xid_key e z"]
    by (auto simp: xid_null_def)
  show "xid_less e x y \<or> xid_equal e x y \<or> xid_less e y x"
    unfolding key using linear [of "xid_key e x" "xid_key e y"] by (auto simp: xid_null_def)
qed

text \<open>Two identifiers with different garbage behind the branch part, and one with another branch.\<close>

definition sample_xid :: "byte \<Rightarrow> byte \<Rightarrow> xid" where
  "sample_xid branch garbage = casual_xid [1, 2] [3, branch] (replicate 124 garbage)"

theorem xid_comparison_is_an_order_witness:
  "xid_equal LITTLE_ENDIAN (sample_xid 4 9) (sample_xid 4 8) \<and>
   (xid_less LITTLE_ENDIAN (sample_xid 4 9) (sample_xid 5 8) \<or> xid_less LITTLE_ENDIAN (sample_xid 5 8) (sample_xid 4 9))"
proof -
  have wf: "xid_wf (sample_xid b g)" for b g
    by (simp add: xid_wf_def sample_xid_def casual_xid_def XIDDATASIZE_def cCasual_def in_range_def)
  have "same_xid (sample_xid 4 9) (sample_xid 4 8)" "\<not> same_xid (sample_xid 4 9) (sample_xid 5 8)"
    by (simp_all add: same_xid_def sample_xid_def casual_xid_def XIDDATASIZE_def xid_null_def cCasual_def
        cNull_def xid_range_def)
  then show ?thesis
    using xid_comparison_is_an_order [OF wf wf wf, of LITTLE_ENDIAN 4 9 4 8 5 8]
      xid_comparison_is_an_order [OF wf wf wf, of LITTLE_ENDIAN 4 9 5 8 5 8] by blast
qed

text \<open>Reading the two parts back from an identifier made of two uuids.\<close>

lemma casual_xid_parts:
  assumes "length gtrid = 16" "length bqual = 16"
  shows "xid_global (casual_xid gtrid bqual garbage) = gtrid"
    and "xid_branch (casual_xid gtrid bqual garbage) = bqual"
  using assms by (simp_all add: xid_global_def xid_branch_def casual_xid_def XIDDATASIZE_def)

lemma branch_id_keeps_global:
  assumes "xid_wf (t_xid t)"
  shows "xid_global (t_xid (branch_id t fresh)) = xid_global (t_xid t) \<and> t_owner (branch_id t fresh) = t_owner t"
  using assms by (auto simp: branch_id_def Let_def xid_global_def xid_wf_def XIDDATASIZE_def)

end
