(* ===== verification/Tm_State.thy ===== *)
theory Tm_State
  imports Casual_Prelude Xid
begin

text \<open>
  The state of the transaction manager (\<open>transaction/manager/state.h\<close>, \<open>state.cpp\<close>,
  \<open>log.cpp\<close>): the resource proxies with their instances, the transactions with the resources
  involved in them, the backlog of replies and requests, and the transaction log. The manager's
  surroundings are part of the state: what its sends meet, the clock, the processes it starts.
\<close>

section \<open>XA codes and how severe they are\<close>

text \<open>\<open>Transaction::Resource::Result\<close>, from the most severe to the least.\<close>

datatype result =
    R_HEURHAZ | R_HEURMIX | R_HEURCOM | R_HEURRB | R_RMFAIL | R_RMERR | R_RBINTEGRITY | R_RBCOMMFAIL
  | R_RBROLLBACK | R_RBOTHER | R_RBDEADLOCK | R_PROTO | R_RBPROTO | R_RBTIMEOUT | R_RBTRANSIENT
  | R_INVAL | R_NOMIGRATE | R_OUTSIDE | R_ASYNC | R_RETRY | R_DUPID | R_NOTA | R_OK | R_RDONLY

definition all_results :: "result list" where
  "all_results = [R_HEURHAZ, R_HEURMIX, R_HEURCOM, R_HEURRB, R_RMFAIL, R_RMERR, R_RBINTEGRITY,
     R_RBCOMMFAIL, R_RBROLLBACK, R_RBOTHER, R_RBDEADLOCK, R_PROTO, R_RBPROTO, R_RBTIMEOUT,
     R_RBTRANSIENT, R_INVAL, R_NOMIGRATE, R_OUTSIDE, R_ASYNC, R_RETRY, R_DUPID, R_NOTA, R_OK, R_RDONLY]"

text \<open>\<open>Transaction::Resource::Stage\<close>\<close>

datatype stage =
    S_involved | S_prepare_requested | S_prepare_replied | S_commit_requested | S_commit_replied
  | S_rollback_requested | S_rollback_replied | S_done | S_error | S_not_involved

text \<open>The comparisons of the code are those of the enumerators' values.\<close>

fun result_rank :: "result \<Rightarrow> nat" where
  "result_rank R_HEURHAZ = 0" | "result_rank R_HEURMIX = 1" | "result_rank R_HEURCOM = 2"
| "result_rank R_HEURRB = 3" | "result_rank R_RMFAIL = 4" | "result_rank R_RMERR = 5"
| "result_rank R_RBINTEGRITY = 6" | "result_rank R_RBCOMMFAIL = 7" | "result_rank R_RBROLLBACK = 8"
| "result_rank R_RBOTHER = 9" | "result_rank R_RBDEADLOCK = 10" | "result_rank R_PROTO = 11"
| "result_rank R_RBPROTO = 12" | "result_rank R_RBTIMEOUT = 13" | "result_rank R_RBTRANSIENT = 14"
| "result_rank R_INVAL = 15" | "result_rank R_NOMIGRATE = 16" | "result_rank R_OUTSIDE = 17"
| "result_rank R_ASYNC = 18" | "result_rank R_RETRY = 19" | "result_rank R_DUPID = 20"
| "result_rank R_NOTA = 21" | "result_rank R_OK = 22" | "result_rank R_RDONLY = 23"

fun stage_rank :: "stage \<Rightarrow> nat" where
  "stage_rank S_involved = 0" | "stage_rank S_prepare_requested = 1" | "stage_rank S_prepare_replied = 2"
| "stage_rank S_commit_requested = 3" | "stage_rank S_commit_replied = 4"
| "stage_rank S_rollback_requested = 5" | "stage_rank S_rollback_replied = 6" | "stage_rank S_done = 7"
| "stage_rank S_error = 8" | "stage_rank S_not_involved = 9"

lemma result_rank_inj: "result_rank r = result_rank q \<Longrightarrow> r = q"
  by (cases r; cases q; simp)

lemma stage_rank_inj: "stage_rank r = stage_rank q \<Longrightarrow> r = q"
  by (cases r; cases q; simp)

instantiation result :: linorder
begin

definition less_eq_result :: "result \<Rightarrow> result \<Rightarrow> bool" where
  "less_eq_result r q \<longleftrightarrow> result_rank r \<le> result_rank q"

definition less_result :: "result \<Rightarrow> result \<Rightarrow> bool" where
  "less_result r q \<longleftrightarrow> result_rank r < result_rank q"

instance
  by standard (auto simp: less_eq_result_def less_result_def intro: result_rank_inj)

end

instantiation stage :: linorder
begin

definition less_eq_stage :: "stage \<Rightarrow> stage \<Rightarrow> bool" where
  "less_eq_stage r q \<longleftrightarrow> stage_rank r \<le> stage_rank q"

definition less_stage :: "stage \<Rightarrow> stage \<Rightarrow> bool" where
  "less_stage r q \<longleftrightarrow> stage_rank r < stage_rank q"

instance
  by standard (auto simp: less_eq_stage_def less_stage_def intro: stage_rank_inj)

end

text \<open>The two \<open>convert\<close> functions; a code that is no XA code counts as a failed resource.\<close>

fun convert_result :: "result \<Rightarrow> int" where
  "convert_result R_HEURHAZ = 8" | "convert_result R_HEURMIX = 5" | "convert_result R_HEURCOM = 7"
| "convert_result R_HEURRB = 6" | "convert_result R_RMFAIL = - 7" | "convert_result R_RMERR = - 3"
| "convert_result R_RBINTEGRITY = 103" | "convert_result R_RBCOMMFAIL = 101"
| "convert_result R_RBROLLBACK = 100" | "convert_result R_RBOTHER = 104"
| "convert_result R_RBDEADLOCK = 102" | "convert_result R_PROTO = - 6" | "convert_result R_RBPROTO = 105"
| "convert_result R_RBTIMEOUT = 106" | "convert_result R_RBTRANSIENT = 107" | "convert_result R_INVAL = - 5"
| "convert_result R_NOMIGRATE = 9" | "convert_result R_OUTSIDE = - 9" | "convert_result R_ASYNC = - 2"
| "convert_result R_RETRY = 4" | "convert_result R_DUPID = - 8" | "convert_result R_NOTA = - 4"
| "convert_result R_OK = 0" | "convert_result R_RDONLY = 3"

definition convert_code :: "int \<Rightarrow> result" where
  "convert_code c =
     (if c = 8 then R_HEURHAZ else if c = 5 then R_HEURMIX else if c = 7 then R_HEURCOM
      else if c = 6 then R_HEURRB else if c = - 7 then R_RMFAIL else if c = - 3 then R_RMERR
      else if c = 103 then R_RBINTEGRITY else if c = 101 then R_RBCOMMFAIL
      else if c = 100 then R_RBROLLBACK else if c = 104 then R_RBOTHER
      else if c = 102 then R_RBDEADLOCK else if c = - 6 then R_PROTO else if c = 105 then R_RBPROTO
      else if c = 106 then R_RBTIMEOUT else if c = 107 then R_RBTRANSIENT else if c = - 5 then R_INVAL
      else if c = 9 then R_NOMIGRATE else if c = - 9 then R_OUTSIDE else if c = - 4 then R_NOTA
      else if c = - 2 then R_ASYNC else if c = 4 then R_RETRY else if c = - 8 then R_DUPID
      else if c = 0 then R_OK else if c = 3 then R_RDONLY else R_RMFAIL)"

text \<open>
  The severity codes translate without loss: every result comes back from its XA code, every XA
  code comes back from its result, and every other number is taken for a failed resource manager.
\<close>

theorem xa_codes_round_trip:
  "convert_code (convert_result r) = r \<and>
   convert_result (convert_code c) = (if c \<in> convert_result ` set all_results then c else XAER_RMFAIL)"
proof
  show "convert_code (convert_result r) = r" by (cases r) (simp_all add: convert_code_def)
  show "convert_result (convert_code c) = (if c \<in> convert_result ` set all_results then c else XAER_RMFAIL)"
    by (auto simp: convert_code_def all_results_def XAER_RMFAIL_def)
qed

section \<open>Statistics\<close>

text \<open>Time points and durations in microseconds.\<close>

record statistics =
  st_min :: int
  st_max :: int
  st_total :: int
  st_invoked :: nat
  st_start :: int

definition no_statistics :: statistics where
  "no_statistics = \<lparr>st_min = 2 ^ 63 - 1, st_max = 0, st_total = 0, st_invoked = 0, st_start = 0\<rparr>"

definition statistics_start :: "int \<Rightarrow> statistics \<Rightarrow> statistics" where
  "statistics_start now st = st\<lparr>st_start := now\<rparr>"

definition statistics_time :: "int \<Rightarrow> int \<Rightarrow> statistics \<Rightarrow> statistics" where
  "statistics_time start end st =
     (let time = end - start
      in st\<lparr>st_total := st_total st + time,
            st_min := (if time < st_min st then time else st_min st),
            st_max := (if time > st_max st then time else st_max st),
            st_invoked := st_invoked st + 1\<rparr>)"

definition statistics_end :: "int \<Rightarrow> statistics \<Rightarrow> statistics" where
  "statistics_end end st = statistics_time (st_start st) end st"

definition statistics_add :: "statistics \<Rightarrow> statistics \<Rightarrow> statistics" where
  "statistics_add lhs rhs =
     lhs\<lparr>st_min := (if st_min rhs < st_min lhs then st_min rhs else st_min lhs),
         st_max := (if st_max rhs > st_max lhs then st_max rhs else st_max lhs),
         st_total := st_total lhs + st_total rhs,
         st_invoked := st_invoked lhs + st_invoked rhs\<rparr>"

record stats =
  ss_resource :: statistics
  ss_roundtrip :: statistics

definition no_stats :: stats where
  "no_stats = \<lparr>ss_resource = no_statistics, ss_roundtrip = no_statistics\<rparr>"

definition stats_add :: "stats \<Rightarrow> stats \<Rightarrow> stats" where
  "stats_add lhs rhs = \<lparr>ss_resource = statistics_add (ss_resource lhs) (ss_resource rhs),
     ss_roundtrip = statistics_add (ss_roundtrip lhs) (ss_roundtrip rhs)\<rparr>"

section \<open>Resource proxies\<close>

datatype instance_state = I_absent | I_started | I_idle | I_busy | I_startup_error | I_shutdown

record rm_instance =
  in_id :: int
  in_process :: process_handle
  in_statistics :: stats
  in_state :: instance_state

text \<open>\<open>Instance::state( State)\<close>: an instance that is shut down stays so.\<close>

definition set_instance_state :: "instance_state \<Rightarrow> rm_instance \<Rightarrow> rm_instance" where
  "set_instance_state st i = (if in_state i \<noteq> I_shutdown then i\<lparr>in_state := st\<rparr> else i)"

record proxy =
  rm_id :: int
  rm_key :: string
  rm_openinfo :: string
  rm_closeinfo :: string
  rm_concurency :: nat
  rm_statistics :: stats
  rm_instances :: "rm_instance list"

definition proxy_ready :: "proxy \<Rightarrow> bool" where
  "proxy_ready p = list_all (\<lambda>i. in_state i = I_idle) (rm_instances p)"

definition instance_running :: "rm_instance \<Rightarrow> bool" where
  "instance_running i \<longleftrightarrow> in_state i = I_idle \<or> in_state i = I_busy"

definition proxy_running :: "proxy \<Rightarrow> bool" where
  "proxy_running p = list_ex instance_running (rm_instances p)"

section \<open>Transactions\<close>

record tx_resource =
  r_id :: int
  r_stage :: stage
  r_result :: result

definition new_resource :: "int \<Rightarrow> tx_resource" where
  "new_resource i = \<lparr>r_id = i, r_stage = S_involved, r_result = R_OK\<rparr>"

record transaction =
  tx_trid :: trid
  tx_resources :: "tx_resource list"
  tx_started :: int
  tx_deadline :: int
  tx_correlation :: uuid

definition new_transaction :: "trid \<Rightarrow> transaction" where
  "new_transaction t = \<lparr>tx_trid = t, tx_resources = [], tx_started = 0, tx_deadline = 0,
     tx_correlation = nil_uuid\<rparr>"

text \<open>\<open>Transaction::stage\<close> and \<open>Transaction::results\<close>: the loops over the resources.\<close>

definition tx_stage :: "transaction \<Rightarrow> stage" where
  "tx_stage t = fold (\<lambda>r acc. if acc > r_stage r then r_stage r else acc) (tx_resources t) S_not_involved"

definition tx_results :: "transaction \<Rightarrow> result" where
  "tx_results t = fold (\<lambda>r acc. if r_result r < acc then r_result r else acc) (tx_resources t) R_RDONLY"

section \<open>Messages and the backlog\<close>

datatype rm_call = Rm_prepare | Rm_commit | Rm_rollback

datatype reply_stage = Reply_prepare | Reply_commit | Reply_rollback | Reply_error

datatype tm_message =
    Resource_request rm_call bool process_handle trid int
      \<comment> \<open>the call, whether on behalf of another domain, sender, transaction, flags\<close>
  | Commit_reply uuid process_handle trid int reply_stage
  | Rollback_reply uuid process_handle trid int reply_stage
  | Resource_reply rm_call uuid process_handle trid int
      \<comment> \<open>to another domain\<close>
  | Shutdown_request
  | Tm_ready process_handle

record pending_reply =
  pr_target :: int
  pr_message :: tm_message

record pending_request =
  pq_message :: tm_message
  pq_resources :: "int list"

section \<open>The transaction log\<close>

record log_row =
  lg_gtrid :: "byte list"
  lg_bqual :: "byte list"
  lg_format :: int
  lg_pid :: int
  lg_state :: int
  lg_started :: int
  lg_deadline :: int

text \<open>
  The table, the table as of the last commit, whether the writer has begun a database transaction
  (\<open>persistent::Writer\<close>), and the counters.
\<close>

record tm_log =
  log_rows :: "log_row list"
  log_durable :: "log_row list"
  log_begun :: bool
  log_prepares :: nat
  log_removes :: nat
  log_writes :: nat

definition cPrepared :: int where "cPrepared = 10"

definition log_key :: "trid \<Rightarrow> byte list \<times> byte list" where
  "log_key t = (xid_global (t_xid t), xid_branch (t_xid t))"

definition row_key :: "log_row \<Rightarrow> byte list \<times> byte list" where
  "row_key r = (lg_gtrid r, lg_bqual r)"

text \<open>
  The insert fails when the primary key exists, or when one of its parts is empty, for an empty range is
  bound as null: \<open>None\<close>.
\<close>

definition log_prepare :: "transaction \<Rightarrow> tm_log \<Rightarrow> tm_log option" where
  "log_prepare t l =
     (let row = \<lparr>lg_gtrid = xid_global (t_xid (tx_trid t)), lg_bqual = xid_branch (t_xid (tx_trid t)),
                 lg_format = formatID (t_xid (tx_trid t)), lg_pid = ph_pid (t_owner (tx_trid t)),
                 lg_state = cPrepared, lg_started = tx_started t, lg_deadline = tx_deadline t\<rparr>
      in if lg_gtrid row = [] \<or> lg_bqual row = [] \<or> row_key row \<in> row_key ` set (log_rows l) then None
         else Some (l\<lparr>log_rows := log_rows l @ [row], log_prepares := log_prepares l + 1\<rparr>))"

definition log_remove :: "trid \<Rightarrow> tm_log \<Rightarrow> tm_log" where
  "log_remove t l = l\<lparr>log_rows := filter (\<lambda>r. row_key r \<noteq> log_key t) (log_rows l),
     log_removes := log_removes l + 1\<rparr>"

definition writer_begin :: "tm_log \<Rightarrow> tm_log" where
  "writer_begin l = l\<lparr>log_begun := True\<rparr>"

definition writer_commit :: "tm_log \<Rightarrow> tm_log" where
  "writer_commit l =
     (if log_begun l then l\<lparr>log_durable := log_rows l, log_begun := False, log_writes := log_writes l + 1\<rparr>
      else l)"

section \<open>The state\<close>

text \<open>What a push on a queue meets; when the list runs out every push succeeds.\<close>

datatype push_outcome = Push_sent | Push_full | Push_unavailable

datatype tm_exn =
    Invalid_argument | Queue_unavailable | User_error int | Sql_error | Out_of_range | Spawn_failed
  | Shutdown_exn

record tm_state =
  tm_switches :: "(string \<times> string) list"
  tm_resources :: "proxy list"
  tm_transactions :: "transaction list"
  tm_replies :: "pending_reply list"
  tm_pending :: "pending_request list"
  tm_requests :: "pending_request list"
  tm_log_state :: tm_log
  tm_self :: process_handle
  tm_broker :: int
  tm_sent :: "(int \<times> tm_message) list"
  tm_push :: "push_outcome list"
  tm_clock :: "int list"
  tm_pids :: "int list"
  tm_killed :: "int list"

type_synonym 'a tm = "tm_state \<Rightarrow> (tm_exn + 'a) \<times> tm_state"

definition tm_return :: "'a \<Rightarrow> 'a tm" where
  "tm_return x s = (Inr x, s)"

definition tm_throw :: "tm_exn \<Rightarrow> 'a tm" where
  "tm_throw e s = (Inl e, s)"

definition tm_bind :: "'a tm \<Rightarrow> ('a \<Rightarrow> 'b tm) \<Rightarrow> 'b tm" where
  "tm_bind f g s = (case f s of (Inl e, s') \<Rightarrow> (Inl e, s') | (Inr x, s') \<Rightarrow> g x s')"

text \<open>\<open>clock_type::now\<close>\<close>

definition tm_now :: "tm_state \<Rightarrow> int \<times> tm_state" where
  "tm_now s = (case tm_clock s of [] \<Rightarrow> (0, s) | t # ts \<Rightarrow> (t, s\<lparr>tm_clock := ts\<rparr>))"

text \<open>\<open>non_blocking_push\<close> and \<open>non_blocking_send\<close>: a queue that is gone raises an exception.\<close>

definition tm_push_message :: "int \<Rightarrow> tm_message \<Rightarrow> bool tm" where
  "tm_push_message queue m s =
     (case tm_push s of
        [] \<Rightarrow> (Inr True, s\<lparr>tm_sent := tm_sent s @ [(queue, m)]\<rparr>)
      | Push_sent # os \<Rightarrow> (Inr True, s\<lparr>tm_push := os, tm_sent := tm_sent s @ [(queue, m)]\<rparr>)
      | Push_full # os \<Rightarrow> (Inr False, s\<lparr>tm_push := os\<rparr>)
      | Push_unavailable # os \<Rightarrow> (Inl Queue_unavailable, s\<lparr>tm_push := os\<rparr>))"

definition tm_pending_work :: "tm_state \<Rightarrow> bool" where
  "tm_pending_work s \<longleftrightarrow> tm_replies s \<noteq> []"

definition tm_all_ready :: "tm_state \<Rightarrow> bool" where
  "tm_all_ready s = list_all proxy_ready (tm_resources s)"

definition tm_instances :: "tm_state \<Rightarrow> nat" where
  "tm_instances s = sum_list (map (\<lambda>p. length (rm_instances p)) (tm_resources s))"

definition tm_processes :: "tm_state \<Rightarrow> int list" where
  "tm_processes s = concat (map (\<lambda>p. map (\<lambda>i. ph_pid (in_process i)) (rm_instances p)) (tm_resources s))"

text \<open>
  \<open>State::operator()( Exit)\<close>: the first proxy with an instance of that process takes over its
  statistics and drops it.
\<close>

definition tm_remove_process :: "int \<Rightarrow> tm_state \<Rightarrow> tm_state" where
  "tm_remove_process pid s = s\<lparr>tm_resources := upd_first
     (\<lambda>p. list_ex (\<lambda>i. ph_pid (in_process i) = pid) (rm_instances p))
     (\<lambda>p. p\<lparr>rm_statistics := (case find (\<lambda>i. ph_pid (in_process i) = pid) (rm_instances p) of
               Some i \<Rightarrow> stats_add (rm_statistics p) (in_statistics i) | None \<Rightarrow> rm_statistics p),
            rm_instances := erase_first (\<lambda>i. ph_pid (in_process i) = pid) (rm_instances p)\<rparr>)
     (tm_resources s)\<rparr>"

text \<open>\<open>get_resource\<close>, \<open>get_instance\<close> and \<open>idle_instance\<close>; the first match.\<close>

definition get_resource :: "tm_state \<Rightarrow> int \<Rightarrow> tm_exn + proxy" where
  "get_resource s rm = (case find (\<lambda>p. rm_id p = rm) (tm_resources s) of
     Some p \<Rightarrow> Inr p | None \<Rightarrow> Inl Invalid_argument)"

definition get_instance :: "tm_state \<Rightarrow> int \<Rightarrow> int \<Rightarrow> tm_exn + rm_instance" where
  "get_instance s rm pid = (case get_resource s rm of
     Inl e \<Rightarrow> Inl e
   | Inr p \<Rightarrow> (case find (\<lambda>i. ph_pid (in_process i) = pid) (rm_instances p) of
       Some i \<Rightarrow> Inr i | None \<Rightarrow> Inl Invalid_argument))"

definition idle_instance :: "tm_state \<Rightarrow> int \<Rightarrow> tm_exn + rm_instance option" where
  "idle_instance s rm = (case get_resource s rm of
     Inl e \<Rightarrow> Inl e | Inr p \<Rightarrow> Inr (find (\<lambda>i. in_state i = I_idle) (rm_instances p)))"

text \<open>What is done to the instance found: the first match of \<open>P\<close> in the first proxy with the id.\<close>

definition on_instance :: "int \<Rightarrow> (rm_instance \<Rightarrow> bool) \<Rightarrow> (rm_instance \<Rightarrow> rm_instance) \<Rightarrow> tm_state \<Rightarrow> tm_state" where
  "on_instance rm P f s = s\<lparr>tm_resources := upd_first (\<lambda>p. rm_id p = rm)
     (\<lambda>p. p\<lparr>rm_instances := upd_first P f (rm_instances p)\<rparr>) (tm_resources s)\<rparr>"

definition has_pid :: "int \<Rightarrow> rm_instance \<Rightarrow> bool" where
  "has_pid pid i \<longleftrightarrow> ph_pid (in_process i) = pid"

text \<open>
  \<open>configure\<close>: the switches by key (a key given twice is an error) and one proxy for each configured
  resource.
\<close>

record rm_config =
  rc_instances :: nat
  rc_id :: int
  rc_key :: string
  rc_openinfo :: string
  rc_closeinfo :: string

definition transform_resource :: "rm_config \<Rightarrow> proxy" where
  "transform_resource c = \<lparr>rm_id = rc_id c, rm_key = rc_key c, rm_openinfo = rc_openinfo c,
     rm_closeinfo = rc_closeinfo c, rm_concurency = rc_instances c, rm_statistics = no_stats,
     rm_instances = []\<rparr>"

definition tm_configure :: "(string \<times> string) list \<Rightarrow> rm_config list \<Rightarrow> tm_state \<Rightarrow> tm_state option" where
  "tm_configure switches config s =
     (if distinct (map fst (tm_switches s @ switches)) then
        Some (s\<lparr>tm_switches := tm_switches s @ switches,
                tm_resources := tm_resources s @ map transform_resource config\<rparr>)
      else None)"

end
