(* ===== verification/Algorithm.thy ===== *)
theory Algorithm
  imports Casual_Prelude
begin

text \<open>
  The algorithms of \<open>common/algorithm.h\<close> whose order of work shows in the components: partition, also
  with a predicate that sends, and unique.
\<close>

section \<open>Partition\<close>

text \<open>
  \<open>range::partition\<close> is \<open>std::partition\<close>. The vector's iterators are bidirectional: the
  standard libraries search the first element from the left that does not satisfy the predicate, then
  the last from the right that does, swap the two and go on. The predicate is applied once to each
  element, in that order, which shows when it has effects. \<open>L\<close> and \<open>R\<close> are the parts that are
  done.
\<close>

function partition_from :: "('a \<Rightarrow> bool) \<Rightarrow> 'a list \<Rightarrow> 'a option \<Rightarrow> 'a list \<Rightarrow> 'a list \<Rightarrow> 'a list \<times> 'a list" where
  "partition_from P L None [] R = (L, R)"
| "partition_from P L None (x # M) R =
     (if P x then partition_from P (L @ [x]) None M R else partition_from P L (Some x) M R)"
| "partition_from P L (Some x) [] R = (L, x # R)"
| "partition_from P L (Some x) (y # M) R =
     (let z = last (y # M); M' = butlast (y # M)
      in if P z then partition_from P (L @ [z]) None M' (x # R)
         else partition_from P L (Some x) M' (z # R))"
  by pat_completeness auto
termination by (relation "measure (\<lambda>(P, L, h, M, R). length M)") auto

definition range_partition :: "('a \<Rightarrow> bool) \<Rightarrow> 'a list \<Rightarrow> 'a list \<times> 'a list" where
  "range_partition P xs = partition_from P [] None xs []"

text \<open>
  The same with a predicate that has effects: it may change the element and the state, or raise. The
  elements of which it is true come first. On an exception the list is what is left in the vector.
\<close>

function send_from :: "('a \<Rightarrow> 's \<Rightarrow> ('e + bool) \<times> 'a \<times> 's) \<Rightarrow> 'a list \<Rightarrow> 'a option \<Rightarrow> 'a list \<Rightarrow> 'a list \<Rightarrow> 's \<Rightarrow>
      ('e + 'a list \<times> 'a list) \<times> 'a list \<times> 's" where
  "send_from p L None [] R s = (Inr (L, R), L @ R, s)"
| "send_from p L None (x # M) R s =
     (case p x s of
        (Inl e, x', s') \<Rightarrow> (Inl e, L @ x' # M @ R, s')
      | (Inr b, x', s') \<Rightarrow>
          if b then send_from p (L @ [x']) None M R s' else send_from p L (Some x') M R s')"
| "send_from p L (Some x) [] R s = (Inr (L, x # R), L @ x # R, s)"
| "send_from p L (Some x) (y # M) R s =
     (let z = last (y # M); M' = butlast (y # M)
      in (case p z s of
            (Inl e, z', s') \<Rightarrow> (Inl e, L @ x # M' @ z' # R, s')
          | (Inr b, z', s') \<Rightarrow>
              if b then send_from p (L @ [z']) None M' (x # R) s'
              else send_from p L (Some x) M' (z' # R) s'))"
  by pat_completeness auto
termination by (relation "measure (\<lambda>(p, L, h, M, R, s). length M)") auto

definition send_partition ::
    "('a \<Rightarrow> 's \<Rightarrow> ('e + bool) \<times> 'a \<times> 's) \<Rightarrow> 'a list \<Rightarrow> 's \<Rightarrow> ('e + 'a list \<times> 'a list) \<times> 'a list \<times> 's" where
  "send_partition p xs s = send_from p [] None xs [] s"

definition held :: "'a option \<Rightarrow> 'a multiset" where
  "held h = (case h of None \<Rightarrow> {#} | Some x \<Rightarrow> {#x#})"

lemma snoc_of_Cons:
  obtains M' z where "y # M = M' @ [z]" "last (y # M) = z" "butlast (y # M) = M'"
  by (metis append_butlast_last_id list.distinct(1))

lemma partition_from_snoc:
  "partition_from P L (Some x) (M @ [z]) R =
    (if P z then partition_from P (L @ [z]) None M (x # R) else partition_from P L (Some x) M (z # R))"
proof -
  obtain y N where e: "M @ [z] = y # N" by (cases M) auto
  then have l: "last (y # N) = z" "butlast (y # N) = M" by (metis last_snoc, metis butlast_snoc)
  show ?thesis by (simp only: e partition_from.simps(4) Let_def l)
qed

lemma send_from_snoc:
  "send_from p L (Some x) (M @ [z]) R s =
    (case p z s of
       (Inl e, z', s') \<Rightarrow> (Inl e, L @ x # M @ z' # R, s')
     | (Inr b, z', s') \<Rightarrow>
         if b then send_from p (L @ [z']) None M (x # R) s' else send_from p L (Some x) M (z' # R) s')"
proof -
  obtain y N where e: "M @ [z] = y # N" by (cases M) auto
  then have l: "last (y # N) = z" "butlast (y # N) = M" by (metis last_snoc, metis butlast_snoc)
  show ?thesis by (simp only: e send_from.simps(4) Let_def l)
qed

lemma partition_from_mset:
  "partition_from P L h M R = (A, B) \<Longrightarrow> mset A + mset B = mset L + held h + mset M + mset R"
proof (induction P L h M R rule: partition_from.induct)
  case (4 P L x y M R)
  obtain M' z where e: "y # M = M' @ [z]" "last (y # M) = z" "butlast (y # M) = M'" by (rule snoc_of_Cons)
  note ih = 4(1,2) [OF e(2) [symmetric] e(3) [symmetric]] and run = 4(3) [unfolded e(1) partition_from_snoc]
  have "mset (y # M) = add_mset z (mset M')" by (simp add: e(1))
  with ih run show ?case by (cases "P z") (simp_all add: held_def)
qed (auto simp: held_def split: if_splits)

lemma partition_from_separates:
  "partition_from P L h M R = (A, B) \<Longrightarrow> list_all P L \<Longrightarrow> list_all (\<lambda>x. \<not> P x) R \<Longrightarrow>
    (case h of Some x \<Rightarrow> \<not> P x | None \<Rightarrow> True) \<Longrightarrow> list_all P A \<and> list_all (\<lambda>x. \<not> P x) B"
proof (induction P L h M R rule: partition_from.induct)
  case (2 P L x M R)
  then show ?case by (cases "P x") simp_all
next
  case (4 P L x y M R)
  obtain M' z where e: "y # M = M' @ [z]" "last (y # M) = z" "butlast (y # M) = M'" by (rule snoc_of_Cons)
  note ih = 4(1,2) [OF e(2) [symmetric] e(3) [symmetric]] and run = 4(3) [unfolded e(1) partition_from_snoc]
  show ?case
  proof (cases "P z")
    case True
    with run have "partition_from P (L @ [z]) None M' (x # R) = (A, B)" by simp
    with ih(1) [OF True] 4(4-6) True show ?thesis by simp
  next
    case False
    with run have "partition_from P L (Some x) M' (z # R) = (A, B)" by simp
    with ih(2) [OF False] 4(4-6) False show ?thesis by simp
  qed
qed auto

text \<open>The two parts of a partition: together the elements of the list, separated by the predicate.\<close>

lemma range_partition:
  assumes "range_partition P xs = (A, B)"
  shows "mset A + mset B = mset xs" "\<forall>x\<in>set A. P x" "\<forall>x\<in>set B. \<not> P x"
  using partition_from_mset [of P "[]" None xs "[]" A B] partition_from_separates [of P "[]" None xs "[]" A B] assms
  by (simp_all add: range_partition_def held_def list_all_iff)

lemma filter_mset_all: "\<forall>x\<in>set xs. P x \<Longrightarrow> filter_mset P (mset xs) = mset xs"
  by (induction xs) auto

lemma filter_mset_none: "\<forall>x\<in>set xs. \<not> P x \<Longrightarrow> filter_mset P (mset xs) = {#}"
  by (induction xs) auto

lemma range_partition_filter:
  assumes "range_partition P xs = (A, B)"
  shows "mset A = mset (filter P xs)" "mset B = mset (filter (\<lambda>x. \<not> P x) xs)"
proof -
  note rp = range_partition [OF assms]
  have "filter_mset P (mset A + mset B) = mset A" "filter_mset (\<lambda>x. \<not> P x) (mset A + mset B) = mset B"
    using rp(2,3) filter_mset_all [of A P] filter_mset_none [of B P]
      filter_mset_all [of B "\<lambda>x. \<not> P x"] filter_mset_none [of A "\<lambda>x. \<not> P x"] by simp_all
  with rp(1) show "mset A = mset (filter P xs)" "mset B = mset (filter (\<lambda>x. \<not> P x) xs)" by simp_all
qed

section \<open>Unique\<close>

text \<open>\<open>std::unique\<close>: of neighbours with the same key the first stays.\<close>

fun unique_by :: "('a \<Rightarrow> 'b) \<Rightarrow> 'a list \<Rightarrow> 'a list" where
  "unique_by f [] = []"
| "unique_by f [x] = [x]"
| "unique_by f (x # y # xs) = (if f x = f y then unique_by f (x # xs) else x # unique_by f (y # xs))"

lemma unique_by_subset: "set (unique_by f xs) \<subseteq> set xs"
  by (induction f xs rule: unique_by.induct) auto

lemma unique_by_distinct: "sorted (map f xs) \<Longrightarrow> sorted (map f (unique_by f xs)) \<and> distinct (map f (unique_by f xs))"
  for f :: "'a \<Rightarrow> 'b :: linorder"
proof (induction f xs rule: unique_by.induct)
  case (3 f x y xs)
  show ?case
  proof (cases "f x = f y")
    case False
    have "\<forall>z\<in>set (unique_by f (y # xs)). f y \<le> f z"
      using 3(3) unique_by_subset [of f "y # xs"] by auto
    with 3 False show ?thesis by fastforce
  qed (use 3 in auto)
qed auto

lemma unique_by_hd:
  "sorted (map f xs) \<Longrightarrow> z \<in> set (unique_by f xs) \<Longrightarrow> z = hd (filter (\<lambda>y. f y = f z) xs)"
  for f :: "'a \<Rightarrow> 'b :: linorder"
proof (induction f xs rule: unique_by.induct)
  case (3 f x y xs)
  show ?case
  proof (cases "f x = f y")
    case True
    with 3(1) [OF True] 3(3,4) have "z = hd (filter (\<lambda>y. f y = f z) (x # xs))" by simp
    with True show ?thesis by (cases "f x = f z") simp_all
  next
    case False
    show ?thesis
    proof (cases "z = x")
      case True
      then show ?thesis by simp
    next
      case other: False
      with 3(4) False have z: "z \<in> set (unique_by f (y # xs))" by simp
      then have "z \<in> set (y # xs)" using unique_by_subset [of f "y # xs"] by blast
      with 3(3) False have "f x \<noteq> f z" by fastforce
      with 3(2) [OF False _ z] 3(3) show ?thesis by simp
    qed
  qed
qed auto

lemma unique_by_Nil_iff [simp]: "unique_by f xs = [] \<longleftrightarrow> xs = []"
  by (induction f xs rule: unique_by.induct) auto

section \<open>Sort, unique\<close>

text \<open>
  \<open>range::unique( range::sort( range))\<close> after a \<open>push_back\<close>, for values that are equal when
  neither is less: the sort orders them whatever its algorithm.
\<close>

definition insert_unique :: "'a :: linorder \<Rightarrow> 'a list \<Rightarrow> 'a list" where
  "insert_unique x xs = unique_by (\<lambda>x. x) (sort (xs @ [x]))"

lemma set_unique_by: "set (unique_by (\<lambda>x. x) xs) = set xs"
  by (induction "\<lambda>x. x :: 'a" xs rule: unique_by.induct) auto

lemma insert_unique:
  shows set_insert_unique: "set (insert_unique x xs) = insert x (set xs)"
    and sorted_insert_unique: "sorted (insert_unique x xs)"
    and distinct_insert_unique: "distinct (insert_unique x xs)"
  using unique_by_distinct [of "\<lambda>x. x" "sort (xs @ [x])"] unfolding insert_unique_def
  by (auto simp: set_unique_by)

text \<open>
  \<open>std::sort\<close> for up to sixteen elements is an insertion sort: an element that is less than the first
  moves to the front, any other moves left past the elements it is less than. This matters where the
  comparison is no order.
\<close>

fun shift_left :: "('a \<Rightarrow> 'a \<Rightarrow> bool) \<Rightarrow> 'a \<Rightarrow> 'a list \<Rightarrow> 'a list" where
  "shift_left lt x [] = [x]"
| "shift_left lt x (y # ys) = (if lt x y then y # shift_left lt x ys else x # y # ys)"

definition linear_insert :: "('a \<Rightarrow> 'a \<Rightarrow> bool) \<Rightarrow> 'a list \<Rightarrow> 'a \<Rightarrow> 'a list" where
  "linear_insert lt xs x =
     (if xs \<noteq> [] \<and> lt x (hd xs) then x # xs else rev (shift_left lt x (rev xs)))"

definition insertion_sort :: "('a \<Rightarrow> 'a \<Rightarrow> bool) \<Rightarrow> 'a list \<Rightarrow> 'a list" where
  "insertion_sort lt xs = foldl (linear_insert lt) [] xs"

text \<open>
  \<open>std::stable_sort\<close>: each half is cut into chunks of seven, which are sorted by insertion and then
  merged in pairs; then the halves are merged.
\<close>

fun merge_by :: "('a \<Rightarrow> 'a \<Rightarrow> bool) \<Rightarrow> 'a list \<Rightarrow> 'a list \<Rightarrow> 'a list" where
  "merge_by lt [] ys = ys"
| "merge_by lt xs [] = xs"
| "merge_by lt (x # xs) (y # ys) =
     (if lt y x then y # merge_by lt (x # xs) ys else x # merge_by lt xs (y # ys))"

fun sorted_chunks :: "('a \<Rightarrow> 'a \<Rightarrow> bool) \<Rightarrow> 'a list \<Rightarrow> 'a list list" where
  "sorted_chunks lt [] = []"
| "sorted_chunks lt (x # xs) = insertion_sort lt (take 7 (x # xs)) # sorted_chunks lt (drop 7 (x # xs))"

fun merge_pairs :: "('a \<Rightarrow> 'a \<Rightarrow> bool) \<Rightarrow> 'a list list \<Rightarrow> 'a list list" where
  "merge_pairs lt (xs # ys # zss) = merge_by lt xs ys # merge_pairs lt zss"
| "merge_pairs lt xss = xss"

lemma length_merge_pairs: "length (merge_pairs lt xss) = (length xss + 1) div 2"
  by (induction lt xss rule: merge_pairs.induct) auto

function merge_runs :: "('a \<Rightarrow> 'a \<Rightarrow> bool) \<Rightarrow> 'a list list \<Rightarrow> 'a list" where
  "merge_runs lt [] = []"
| "merge_runs lt [xs] = xs"
| "merge_runs lt (xs # ys # zss) = merge_runs lt (merge_pairs lt (xs # ys # zss))"
  by pat_completeness auto
termination by (relation "measure (\<lambda>(lt, xss). length xss)") (auto simp: length_merge_pairs)

definition stable_sort :: "('a \<Rightarrow> 'a \<Rightarrow> bool) \<Rightarrow> 'a list \<Rightarrow> 'a list" where
  "stable_sort lt xs =
     (let n = (length xs + 1) div 2; half = (\<lambda>ys. merge_runs lt (sorted_chunks lt ys))
      in merge_by lt (half (take n xs)) (half (drop n xs)))"

lemma mset_shift_left: "mset (shift_left lt x xs) = add_mset x (mset xs)"
  by (induction xs) auto

lemma mset_insertion_sort: "mset (insertion_sort lt xs) = mset xs"
proof -
  have "mset (foldl (linear_insert lt) ys xs) = mset ys + mset xs" for ys
    by (induction xs arbitrary: ys) (simp_all add: linear_insert_def mset_shift_left)
  then show ?thesis by (simp add: insertion_sort_def)
qed

lemma mset_merge_by: "mset (merge_by lt xs ys) = mset xs + mset ys"
  by (induction lt xs ys rule: merge_by.induct) auto

lemma mset_sorted_chunks: "mset (concat (sorted_chunks lt xs)) = mset xs"
proof (induction lt xs rule: sorted_chunks.induct)
  case (2 lt x xs)
  have "mset (take 7 (x # xs)) + mset (drop 7 (x # xs)) = mset (x # xs)"
    by (metis append_take_drop_id mset_append)
  with 2 show ?case by (simp add: mset_insertion_sort)
qed simp

lemma mset_merge_pairs: "mset (concat (merge_pairs lt xss)) = mset (concat xss)"
  by (induction lt xss rule: merge_pairs.induct) (auto simp: mset_merge_by)

lemma mset_merge_runs: "mset (merge_runs lt xss) = mset (concat xss)"
proof (induction lt xss rule: merge_runs.induct)
  case (3 lt xs ys zss)
  then show ?case using mset_merge_pairs [of lt "xs # ys # zss"] by simp
qed auto

lemma mset_stable_sort: "mset (stable_sort lt xs) = mset xs"
proof -
  have "mset (take n xs) + mset (drop n xs) = mset xs" for n by (metis append_take_drop_id mset_append)
  then show ?thesis by (simp add: stable_sort_def Let_def mset_merge_by mset_merge_runs mset_sorted_chunks)
qed

text \<open>A first element that is less than no other, and than which none is less, stays first.\<close>

lemma hd_insertion_sort:
  assumes "\<forall>y\<in>set xs. \<not> lt y x"
  shows "\<exists>ys. insertion_sort lt (x # xs) = x # ys"
proof -
  have last_kept: "\<exists>ws. shift_left lt y (zs @ [x]) = ws @ [x]" if "\<not> lt y x" for y zs
    using that by (induction zs) auto
  have "\<exists>ys. foldl (linear_insert lt) (x # zs) xs = x # ys" for zs
    using assms
  proof (induction xs arbitrary: zs)
    case (Cons y xs)
    then obtain ws where "shift_left lt y (rev zs @ [x]) = ws @ [x]" using last_kept by force
    with Cons show ?case by (simp add: linear_insert_def)
  qed simp
  from this [of "[]"] show ?thesis by (simp add: insertion_sort_def linear_insert_def)
qed

lemma hd_stable_sort:
  assumes "\<forall>y\<in>set xs. \<not> lt y x"
  shows "\<exists>ys. stable_sort lt (x # xs) = x # ys"
proof -
  have pairs: "\<exists>ys yss. merge_pairs lt ((x # as) # zss) = (x # ys) # yss"
    if "\<forall>y\<in>set (concat zss). \<not> lt y x" for as zss
  proof (cases zss)
    case (Cons z rest)
    then show ?thesis using that by (cases z) (auto simp: neq_Nil_conv)
  qed simp
  have runs: "\<exists>ys. merge_runs lt ((x # as) # zss) = x # ys"
    if "\<forall>y\<in>set (concat zss). \<not> lt y x" for as zss
    using that
  proof (induction "length zss" arbitrary: as zss rule: less_induct)
    case less
    show ?case
    proof (cases zss)
      case (Cons z rest)
      obtain ys yss where p: "merge_pairs lt ((x # as) # zss) = (x # ys) # yss" using pairs less(2) by blast
      then have yss: "yss = merge_pairs lt rest" using Cons by simp
      have "set (concat yss) = set (concat rest)"
        unfolding yss using mset_merge_pairs [of lt rest] by (metis set_mset_mset)
      moreover have "length yss < length zss" unfolding yss Cons by (simp add: length_merge_pairs)
      moreover have "set (concat rest) \<subseteq> set (concat zss)" unfolding Cons by simp
      ultimately have "\<exists>ys'. merge_runs lt ((x # ys) # yss) = x # ys'" using less(1) [of yss ys] less(2) by blast
      with p Cons show ?thesis by simp
    qed simp
  qed
  have half: "\<exists>ys. merge_runs lt (sorted_chunks lt (x # zs)) = x # ys" if z: "\<forall>y\<in>set zs. \<not> lt y x" for zs
  proof -
    have "set (concat (sorted_chunks lt (drop 6 zs))) \<subseteq> set zs"
      using mset_sorted_chunks [of lt "drop 6 zs"] by (metis set_drop_subset set_mset_mset)
    moreover obtain as where "insertion_sort lt (x # take 6 zs) = x # as"
      using hd_insertion_sort [of "take 6 zs" lt x] z by (meson in_set_takeD)
    ultimately show ?thesis using runs [of "sorted_chunks lt (drop 6 zs)" as] z by auto
  qed
  let ?n = "(length xs + 2) div 2"
  obtain m where n: "?n = Suc m" by (cases ?n) auto
  obtain ys where a: "merge_runs lt (sorted_chunks lt (x # take m xs)) = x # ys"
    using half [of "take m xs"] assms by (meson in_set_takeD)
  have "set (merge_runs lt (sorted_chunks lt (drop m xs))) \<subseteq> set xs"
    by (metis mset_merge_runs mset_sorted_chunks set_drop_subset set_mset_mset)
  with assms have "\<exists>zs. merge_by lt (x # ys) (merge_runs lt (sorted_chunks lt (drop m xs))) = x # zs"
    by (cases "merge_runs lt (sorted_chunks lt (drop m xs))") auto
  then show ?thesis using a n by (simp add: stable_sort_def Let_def)
qed

end
