(* ===== verification/Tm_Action.thy ===== *)
theory Tm_Action
  imports Tm_State Algorithm
begin

text \<open>
  The actions of the transaction manager (\<open>transaction/source/manager/action.cpp\<close>): sending a
  request to idle instances of the resources it is for, sending a reply, and starting and stopping
  instances.
\<close>

section \<open>Sending\<close>

text \<open>\<open>resource::instance::request\<close>: push the message to the instance and mark it busy.\<close>

definition instance_request :: "tm_message \<Rightarrow> int \<Rightarrow> rm_instance \<Rightarrow> (rm_instance \<Rightarrow> bool) \<Rightarrow> bool tm" where
  "instance_request m rm i P =
     tm_bind (tm_push_message (ph_queue (in_process i)) m) (\<lambda>sent s.
       if sent then
         (case tm_now s of (now, s1) \<Rightarrow>
            (Inr True, on_instance rm P (\<lambda>i. (set_instance_state I_busy i)\<lparr>in_statistics :=
               (in_statistics i)\<lparr>ss_roundtrip := statistics_start now (ss_roundtrip (in_statistics i))\<rparr>\<rparr>) s1))
       else (Inr False, s))"

text \<open>
  \<open>resource::request\<close>: one message to an idle instance of each resource; the ids that got none stay
  in the request, which is the first component of the result. An exception ends the loop.
\<close>

fun request_loop :: "tm_message \<Rightarrow> int list \<Rightarrow> int list \<Rightarrow> int list tm" where
  "request_loop m [] unsent s = (Inr unsent, s)"
| "request_loop m (rm # ids) unsent s =
     (case idle_instance s rm of
        Inl e \<Rightarrow> (Inl e, s)
      | Inr None \<Rightarrow> request_loop m ids (unsent @ [rm]) s
      | Inr (Some i) \<Rightarrow>
          (case instance_request m rm i (\<lambda>i. in_state i = I_idle) s of
             (Inl e, s') \<Rightarrow> (Inl e, s')
           | (Inr sent, s') \<Rightarrow> request_loop m ids (if sent then unsent else unsent @ [rm]) s'))"

definition resource_request :: "pending_request \<Rightarrow> tm_state \<Rightarrow> (tm_exn + bool) \<times> pending_request \<times> tm_state" where
  "resource_request q s =
     (case request_loop (pq_message q) (pq_resources q) [] s of
        (Inl e, s') \<Rightarrow> (Inl e, q\<lparr>pq_resources := []\<rparr>, s')
      | (Inr unsent, s') \<Rightarrow> (Inr (unsent = []), q\<lparr>pq_resources := unsent\<rparr>, s'))"

text \<open>
  \<open>persistent::Send\<close> of a reply: a queue that is gone counts as done, the reply is dropped.
\<close>

definition send_pending_reply :: "pending_reply \<Rightarrow> tm_state \<Rightarrow> bool \<times> tm_state" where
  "send_pending_reply r s =
     (case tm_push_message (pr_target r) (pr_message r) s of
        (Inl e, s') \<Rightarrow> (True, s')
      | (Inr sent, s') \<Rightarrow> (sent, s'))"

section \<open>Starting and stopping instances\<close>

text \<open>\<open>process::spawn\<close>: the next process id, or an exception.\<close>

definition tm_spawn :: "int tm" where
  "tm_spawn s = (case tm_pids s of [] \<Rightarrow> (Inl Spawn_failed, s) | p # ps \<Rightarrow> (Inr p, s\<lparr>tm_pids := ps\<rparr>))"

text \<open>
  \<open>Instances::operator()\<close> changes the proxy through a reference: the functions return it beside
  the outcome, as it is when they return or raise.
\<close>

fun spawn_instances :: "nat \<Rightarrow> proxy \<Rightarrow> tm_state \<Rightarrow> (tm_exn + unit) \<times> proxy \<times> tm_state" where
  "spawn_instances 0 p s = (Inr (), p, s)"
| "spawn_instances (Suc n) p s =
     (if rm_key p \<notin> fst ` set (tm_switches s) then (Inl Out_of_range, p, s)
      else (case tm_spawn s of
          (Inl e, s') \<Rightarrow> (Inl e, p, s')
        | (Inr pid, s') \<Rightarrow>
            spawn_instances n (p\<lparr>rm_instances := rm_instances p @
              [set_instance_state I_started \<lparr>in_id = rm_id p, in_process = \<lparr>ph_pid = pid, ph_queue = 0\<rparr>,
                 in_statistics = no_stats, in_state = I_absent\<rparr>]\<rparr>) s'))"

definition stop_instance :: "rm_instance \<Rightarrow> tm_state \<Rightarrow> (tm_exn + unit) \<times> rm_instance \<times> tm_state" where
  "stop_instance i s =
     (if in_state i = I_absent \<or> in_state i = I_started then
        (Inr (), set_instance_state I_shutdown i, s\<lparr>tm_killed := tm_killed s @ [ph_pid (in_process i)]\<rparr>)
      else if in_state i = I_shutdown then (Inr (), i, s)
      else
        (case tm_push_message (ph_queue (in_process i)) Shutdown_request s of
           (Inl e, s') \<Rightarrow> (Inl e, set_instance_state I_shutdown i, s')
         | (Inr sent, s') \<Rightarrow> (Inr (), set_instance_state I_shutdown i,
             if sent then s'
             else s'\<lparr>tm_replies := tm_replies s' @
               [\<lparr>pr_target = ph_queue (in_process i), pr_message = Shutdown_request\<rparr>]\<rparr>)))"

fun stop_instances :: "rm_instance list \<Rightarrow> tm_state \<Rightarrow> (tm_exn + unit) \<times> rm_instance list \<times> tm_state" where
  "stop_instances [] s = (Inr (), [], s)"
| "stop_instances (i # is) s =
     (case stop_instance i s of
        (Inl e, i', s') \<Rightarrow> (Inl e, i' # is, s')
      | (Inr _, i', s') \<Rightarrow> (case stop_instances is s' of (r, is', s'') \<Rightarrow> (r, i' # is', s'')))"

text \<open>
  With fewer instances than configured the missing ones are started, otherwise the surplus at the end
  of the list is stopped; the code's count is the difference of the two sizes read as a signed number.
\<close>

definition update_instances :: "proxy \<Rightarrow> tm_state \<Rightarrow> (tm_exn + unit) \<times> proxy \<times> tm_state" where
  "update_instances p s =
     (let n = length (rm_instances p); wanted = rm_concurency p
      in if n < wanted then spawn_instances (wanted - n) p s
         else (case stop_instances (drop wanted (rm_instances p)) s of
            (r, stopped, s') \<Rightarrow> (r, p\<lparr>rm_instances := take wanted (rm_instances p) @ stopped\<rparr>, s')))"

definition put_proxy :: "proxy \<Rightarrow> tm_state \<Rightarrow> tm_state" where
  "put_proxy p s = s\<lparr>tm_resources := upd_first (\<lambda>q. rm_id q = rm_id p) (\<lambda>_. p) (tm_resources s)\<rparr>"

text \<open>
  \<open>action::resource::insances\<close>: directives of resource id and number of instances, sorted, one for
  each resource; an unknown resource is left out of the result.
\<close>

fun apply_directives :: "(int \<times> nat) list \<Rightarrow> proxy list tm" where
  "apply_directives [] s = (Inr [], s)"
| "apply_directives ((rm, n) # ds) s =
     (case get_resource s rm of
        Inl e \<Rightarrow> if e = Invalid_argument then apply_directives ds s else (Inl e, s)
      | Inr p \<Rightarrow>
          (case update_instances (p\<lparr>rm_concurency := n\<rparr>) s of
             (Inl e, p', s') \<Rightarrow>
               if e = Invalid_argument then apply_directives ds (put_proxy p' s') else (Inl e, put_proxy p' s')
           | (Inr _, p', s') \<Rightarrow>
               (case apply_directives ds (put_proxy p' s') of
                  (Inl e, s'') \<Rightarrow> (Inl e, s'')
                | (Inr ps, s'') \<Rightarrow> (Inr (p' # ps), s''))))"

definition insances :: "(int \<times> nat) list \<Rightarrow> proxy list tm" where
  "insances ds s = apply_directives (unique_by fst (sort_key fst ds)) s"

text \<open>The manager's start, \<open>for_each( resources, Instances)\<close>: an exception ends it.\<close>

fun start_proxies :: "proxy list \<Rightarrow> tm_state \<Rightarrow> (tm_exn + unit) \<times> proxy list \<times> tm_state" where
  "start_proxies [] s = (Inr (), [], s)"
| "start_proxies (p # ps) s =
     (case update_instances p s of
        (Inl e, p', s') \<Rightarrow> (Inl e, p' # ps, s')
      | (Inr _, p', s') \<Rightarrow> (case start_proxies ps s' of (r, ps', s'') \<Rightarrow> (r, p' # ps', s'')))"

definition start_instances :: "unit tm" where
  "start_instances s = (case start_proxies (tm_resources s) s of (r, ps, s') \<Rightarrow> (r, s'\<lparr>tm_resources := ps\<rparr>))"

text \<open>The manager's destructor: no resource shall have instances, and its processes are waited for.\<close>

definition stop_all :: "unit tm" where
  "stop_all s = start_instances (s\<lparr>tm_resources := map (\<lambda>p. p\<lparr>rm_concurency := 0\<rparr>) (tm_resources s)\<rparr>)"

end
