(* ===== verification/Tm_Handle.thy ===== *)
theory Tm_Handle
  imports Tm_Action
begin

text \<open>
  The message handlers of the transaction manager (\<open>transaction/source/manager/handle.cpp\<close>). A
  handler's result is an exception or its value, with the state as it is when the handler returns or
  raises. A transaction the code holds by reference is named by its identifier: the first of the state
  with that identifier. Log output is not modelled.
\<close>

section \<open>Messages to the manager\<close>

record user_request =
  uq_correlation :: uuid
  uq_process :: process_handle
  uq_trid :: trid
  uq_resources :: "int list"

record rm_reply =
  rp_process :: process_handle
  rp_trid :: trid
  rp_resource :: int
  rp_state :: int
  rp_start :: int
  rp_end :: int

record domain_request =
  dq_correlation :: uuid
  dq_process :: process_handle
  dq_trid :: trid
  dq_flags :: int

section \<open>Transactions of the state\<close>

definition is_tx :: "trid \<Rightarrow> transaction \<Rightarrow> bool" where
  "is_tx t x \<longleftrightarrow> same_trid (tx_trid x) t"

definition find_tx :: "tm_state \<Rightarrow> trid \<Rightarrow> transaction option" where
  "find_tx s t = find (is_tx t) (tm_transactions s)"

definition on_tx :: "trid \<Rightarrow> (transaction \<Rightarrow> transaction) \<Rightarrow> tm_state \<Rightarrow> tm_state" where
  "on_tx t f s = s\<lparr>tm_transactions := upd_first (is_tx t) f (tm_transactions s)\<rparr>"

definition erase_tx :: "trid \<Rightarrow> tm_state \<Rightarrow> tm_state" where
  "erase_tx t s = s\<lparr>tm_transactions := erase_first (is_tx t) (tm_transactions s)\<rparr>"

definition add_tx :: "trid \<Rightarrow> tm_state \<Rightarrow> tm_state" where
  "add_tx t s = s\<lparr>tm_transactions := tm_transactions s @ [new_transaction t]\<rparr>"

section \<open>Sending replies and requests\<close>

text \<open>\<open>send::persistent::reply\<close>: sent after the log is written.\<close>

definition persistent_reply :: "tm_message \<Rightarrow> process_handle \<Rightarrow> tm_state \<Rightarrow> tm_state" where
  "persistent_reply m target s = s\<lparr>tm_replies := tm_replies s @ [\<lparr>pr_target = ph_queue target, pr_message = m\<rparr>]\<rparr>"

text \<open>\<open>send::reply\<close>: sent now, or put in the backlog when the queue is full.\<close>

definition send_reply :: "tm_message \<Rightarrow> process_handle \<Rightarrow> tm_state \<Rightarrow> tm_state" where
  "send_reply m target s =
     (case send_pending_reply \<lparr>pr_target = ph_queue target, pr_message = m\<rparr> s of (sent, s') \<Rightarrow>
        if sent then s' else persistent_reply m target s')"

text \<open>
  \<open>send::resource::request\<close>: the resources of the transaction that the filter picks get the new stage
  and a request; those whose instances were all busy keep waiting in the pending requests.
\<close>

definition send_resource_request ::
    "rm_call \<Rightarrow> bool \<Rightarrow> transaction \<Rightarrow> (tx_resource \<Rightarrow> bool) \<Rightarrow> stage \<Rightarrow> int \<Rightarrow> unit tm" where
  "send_resource_request call domain x pick new_stage flags s =
     (case range_partition pick (tx_resources x) of (picked, others) \<Rightarrow>
        let s1 = on_tx (tx_trid x) (\<lambda>x. x\<lparr>tx_resources :=
                   map (\<lambda>r. r\<lparr>r_stage := new_stage\<rparr>) picked @ others\<rparr>) s
        in (case resource_request \<lparr>pq_message = Resource_request call domain (tm_self s) (tx_trid x) flags,
                                  pq_resources = map r_id picked\<rparr> s1 of
              (Inl e, q, s2) \<Rightarrow> (Inl e, s2)
            | (Inr done', q, s2) \<Rightarrow>
                (Inr (), if done' then s2 else s2\<lparr>tm_pending := tm_pending s2 @ [q]\<rparr>)))"

definition stage_is :: "stage \<Rightarrow> tx_resource \<Rightarrow> bool" where
  "stage_is st r \<longleftrightarrow> r_stage r = st"

section \<open>Instances that are done\<close>

definition waits_for :: "int \<Rightarrow> pending_request \<Rightarrow> bool" where
  "waits_for rm q \<longleftrightarrow> rm \<in> set (pq_resources q)"

text \<open>
  \<open>instance::done\<close> on the instance \<open>i\<close> found for the resource and the process: it is idle, and gets the
  first pending request for its resource.
\<close>

definition instance_done :: "int \<Rightarrow> int \<Rightarrow> rm_instance \<Rightarrow> unit tm" where
  "instance_done rm pid i s =
     (let s1 = on_instance rm (has_pid pid) (set_instance_state I_idle) s
      in (case find (waits_for (in_id i)) (tm_pending s) of
            None \<Rightarrow> (Inr (), s1)
          | Some q \<Rightarrow>
              (case tm_push_message (ph_queue (in_process i)) (pq_message q) s1 of
                 (Inl e, s2) \<Rightarrow> (Inl e, s2)
               | (Inr sent, s2) \<Rightarrow>
                   if sent then
                     let s3 = on_instance rm (has_pid pid) (set_instance_state I_busy) s2;
                         left = remove1 (in_id i) (pq_resources q)
                     in (Inr (), s3\<lparr>tm_pending :=
                          (if left = [] then erase_first (waits_for (in_id i)) (tm_pending s3)
                           else upd_first (waits_for (in_id i)) (\<lambda>q. q\<lparr>pq_resources := left\<rparr>) (tm_pending s3))\<rparr>)
                   else (Inr (), s2))))"

definition instance_statistics :: "int \<Rightarrow> int \<Rightarrow> rm_reply \<Rightarrow> int \<Rightarrow> tm_state \<Rightarrow> tm_state" where
  "instance_statistics rm pid m now =
     on_instance rm (has_pid pid) (\<lambda>i. i\<lparr>in_statistics :=
       \<lparr>ss_resource = statistics_time (rp_start m) (rp_end m) (ss_resource (in_statistics i)),
        ss_roundtrip = statistics_end now (ss_roundtrip (in_statistics i))\<rparr>\<rparr>)"

section \<open>Involving resources\<close>

text \<open>
  \<open>resource::involved\<close>: known resources are added, sorted by id, each once. The sort is
  \<open>std::sort\<close>, which the standard libraries do by insertion for up to sixteen elements, and which then
  keeps the order of equal ids, so that a resource already there keeps its stage; beyond that the
  standard does not say which of two equal elements comes first.
\<close>

definition involve :: "tm_state \<Rightarrow> int list \<Rightarrow> transaction \<Rightarrow> transaction" where
  "involve s ids x = x\<lparr>tx_resources := unique_by r_id (sort_key r_id
     (tx_resources x @ map new_resource (filter (\<lambda>i. list_ex (\<lambda>p. rm_id p = i) (tm_resources s)) ids)))\<rparr>"

definition handle_involved :: "trid \<Rightarrow> int list \<Rightarrow> tm_state \<Rightarrow> tm_state" where
  "handle_involved t ids s =
     (let s1 = (if find_tx s t = None then add_tx t s else s) in on_tx t (involve s1 ids) s1)"

section \<open>Replies of the resources\<close>

text \<open>A handler of a reply gets the transaction as it is; its value tells whether to remove it.\<close>

definition set_resource :: "int \<Rightarrow> (tx_resource \<Rightarrow> tx_resource) \<Rightarrow> transaction \<Rightarrow> transaction" where
  "set_resource rm f x = x\<lparr>tx_resources := upd_first (\<lambda>r. r_id r = rm) f (tx_resources x)\<rparr>"

definition basic_prepare :: "rm_reply \<Rightarrow> transaction \<Rightarrow> bool tm" where
  "basic_prepare m x s =
     (let res = convert_code (rp_state m);
          f = set_resource (rp_resource m) (\<lambda>r. r\<lparr>r_result := res,
                r_stage := (if res = R_RDONLY then S_not_involved else S_prepare_replied)\<rparr>);
          x1 = f x; s1 = on_tx (tx_trid x) f s; owner = t_owner (tx_trid x1)
      in if tx_stage x1 = S_prepare_replied then
           (if tx_results x1 = R_RDONLY then
              (Inr True, send_reply (Commit_reply (tx_correlation x1) (rp_process m) (rp_trid m) XA_RDONLY Reply_commit) owner
                 (s1\<lparr>tm_log_state := log_remove (tx_trid x1) (tm_log_state s1)\<rparr>))
            else if tx_results x1 = R_OK then
              (case log_prepare (new_transaction (tx_trid x1)) (tm_log_state s1) of
                 None \<Rightarrow> (Inl Sql_error, s1)
               | Some l \<Rightarrow>
                   let s2 = persistent_reply (Commit_reply (tx_correlation x1) (rp_process m) (rp_trid m) XA_OK Reply_prepare)
                              owner (s1\<lparr>tm_log_state := l\<rparr>)
                   in tm_bind (send_resource_request Rm_commit False x1
                                 (\<lambda>r. r_result r = R_OK \<and> stage_is S_prepare_replied r) S_prepare_requested TMNOFLAGS)
                        (\<lambda>_. tm_return False) s2)
            else
              tm_bind (send_resource_request Rm_rollback False x1 (stage_is S_prepare_replied) S_rollback_requested TMNOFLAGS)
                (\<lambda>_. tm_return False) s1)
         else (Inr False, s1))"

definition basic_commit_reply :: "rm_reply \<Rightarrow> transaction \<Rightarrow> bool tm" where
  "basic_commit_reply m x s =
     (let f = set_resource (rp_resource m) (\<lambda>r. r\<lparr>r_stage := S_commit_replied\<rparr>);
          x1 = f x; s1 = on_tx (tx_trid x) f s; owner = t_owner (tx_trid x1)
      in if tx_stage x1 = S_commit_replied then
           (if tx_results x1 = R_OK then
              let reply = Commit_reply (tx_correlation x1) (rp_process m) (rp_trid m) XA_OK Reply_commit;
                  s2 = (if length (tx_resources x1) \<le> 1 then send_reply reply owner s1
                        else persistent_reply reply owner s1)
              in (Inr True, s2\<lparr>tm_log_state := log_remove (rp_trid m) (tm_log_state s2)\<rparr>)
            else (Inr False, persistent_reply
                   (Commit_reply (tx_correlation x1) (rp_process m) (rp_trid m) (convert_result (tx_results x1)) Reply_commit) owner s1))
         else (Inr False, s1))"

definition basic_rollback_reply :: "rm_reply \<Rightarrow> transaction \<Rightarrow> bool tm" where
  "basic_rollback_reply m x s =
     (let f = set_resource (rp_resource m) (\<lambda>r. r\<lparr>r_stage := S_rollback_replied\<rparr>);
          x1 = f x; s1 = on_tx (tx_trid x) f s; owner = t_owner (tx_trid x1)
      in if tx_stage x1 = S_rollback_replied then
           (if tx_results x1 \<in> {R_OK, R_NOTA, R_RDONLY} then
              let s2 = send_reply (Rollback_reply (tx_correlation x1) (rp_process m) (rp_trid m) XA_OK Reply_rollback) owner s1
              in (Inr True, s2\<lparr>tm_log_state := log_remove (rp_trid m) (tm_log_state s2)\<rparr>)
            else (Inr False, persistent_reply
                   (Rollback_reply (tx_correlation x1) (rp_process m) (rp_trid m) (convert_result (tx_results x1)) Reply_rollback) owner s1))
         else (Inr False, s1))"

text \<open>The same for transactions of another domain: the reply goes to the sender of the last reply.\<close>

definition domain_prepare_reply :: "rm_reply \<Rightarrow> transaction \<Rightarrow> bool tm" where
  "domain_prepare_reply m x s =
     (let f = set_resource (rp_resource m) (\<lambda>r. r\<lparr>r_result := convert_code (rp_state m), r_stage := S_prepare_replied\<rparr>);
          x1 = f x; s1 = on_tx (tx_trid x) f s
      in if list_all (stage_is S_prepare_replied) (tx_resources x1) then
           (Inr False, send_reply (Resource_reply Rm_prepare nil_uuid (rp_process m) (rp_trid m)
              (convert_result (tx_results x1))) (rp_process m) s1)
         else (Inr False, s1))"

definition domain_commit_reply :: "rm_reply \<Rightarrow> transaction \<Rightarrow> bool tm" where
  "domain_commit_reply m x s =
     (let f = set_resource (rp_resource m) (\<lambda>r. r\<lparr>r_result := convert_code (rp_state m), r_stage := S_commit_replied\<rparr>);
          x1 = f x; s1 = on_tx (tx_trid x) f s
      in if list_all (stage_is S_commit_replied) (tx_resources x1) then
           (Inr True, send_reply (Resource_reply Rm_commit nil_uuid (rp_process m) (rp_trid m)
              (convert_result (tx_results x1))) (rp_process m) s1)
         else (Inr False, s1))"

definition domain_rollback_reply :: "rm_reply \<Rightarrow> transaction \<Rightarrow> bool tm" where
  "domain_rollback_reply m x s = (Inr False, s)"

text \<open>
  \<open>Wrapper\<close>: the instance is done, its statistics are kept, and the handler gets the transaction when
  the resource is involved in it.
\<close>

definition reply_wrapper :: "(rm_reply \<Rightarrow> transaction \<Rightarrow> bool tm) \<Rightarrow> rm_reply \<Rightarrow> unit tm" where
  "reply_wrapper handler m s =
     (case tm_now s of (now, s0) \<Rightarrow>
        let rm = rp_resource m; pid = ph_pid (rp_process m)
        in (case get_instance s0 rm pid of
              Inl e \<Rightarrow> (Inl e, s0)
            | Inr i \<Rightarrow>
                tm_bind (instance_done rm pid i) (\<lambda>_ s1.
                  let s2 = instance_statistics rm pid m now s1
                  in (case find_tx s2 (rp_trid m) of
                        None \<Rightarrow> (Inr (), s2)
                      | Some x \<Rightarrow>
                          if list_ex (\<lambda>r. r_id r = rm) (tx_resources x) then
                            tm_bind (handler m x) (\<lambda>remove s3.
                              (Inr (), if remove then erase_tx (rp_trid m) s3 else s3)) s2
                          else (Inr (), s2))) s0))"

text \<open>The handler of a reply by the call it answers and whether it is for another domain.\<close>

fun reply_handler :: "rm_call \<Rightarrow> bool \<Rightarrow> rm_reply \<Rightarrow> transaction \<Rightarrow> bool tm" where
  "reply_handler Rm_prepare False = basic_prepare"
| "reply_handler Rm_commit False = basic_commit_reply"
| "reply_handler Rm_rollback False = basic_rollback_reply"
| "reply_handler Rm_prepare True = domain_prepare_reply"
| "reply_handler Rm_commit True = domain_commit_reply"
| "reply_handler Rm_rollback True = domain_rollback_reply"

section \<open>Requests of the users\<close>

text \<open>
  \<open>basic_commit\<close>: the recursion for an unknown transaction runs once, on the transaction just added.
\<close>

definition commit_found :: "user_request \<Rightarrow> unit tm" where
  "commit_found m s =
     (case find_tx s (uq_trid m) of
        None \<Rightarrow> (Inr (), s)
      | Some x0 \<Rightarrow>
          let s1 = on_tx (uq_trid m) (involve s (uq_resources m)) s; x = involve s (uq_resources m) x0;
              keep = on_tx (uq_trid m) (\<lambda>x. x\<lparr>tx_correlation := uq_correlation m\<rparr>)
          in if tx_stage x \<noteq> S_involved \<and> tx_stage x \<noteq> S_not_involved then (Inl (User_error XAER_PROTO), s1)
             else if length (tx_resources x) = 0 then
               (Inr (), send_reply (Commit_reply (uq_correlation m) (tm_self s) (uq_trid m) XA_RDONLY Reply_commit)
                  (uq_process m) (erase_tx (uq_trid m) s1))
             else if length (tx_resources x) = 1 then
               send_resource_request Rm_commit False x (stage_is S_involved) S_commit_requested TMONEPHASE (keep s1)
             else
               send_resource_request Rm_prepare False x (stage_is S_involved) S_prepare_requested TMNOFLAGS (keep s1))"

definition basic_commit :: "user_request \<Rightarrow> unit tm" where
  "basic_commit m s =
     (if find_tx s (uq_trid m) = None then commit_found m (add_tx (uq_trid m) s) else commit_found m s)"

definition rollback_found :: "user_request \<Rightarrow> unit tm" where
  "rollback_found m s =
     (case find_tx s (uq_trid m) of
        None \<Rightarrow> (Inr (), s)
      | Some x0 \<Rightarrow>
          let s1 = on_tx (uq_trid m) (involve s (uq_resources m)) s; x = involve s (uq_resources m) x0;
              keep = on_tx (uq_trid m) (\<lambda>x. x\<lparr>tx_correlation := uq_correlation m\<rparr>)
          in if tx_resources x = [] then
               (Inr (), send_reply (Rollback_reply (uq_correlation m) (tm_self s) (uq_trid m) XA_OK Reply_rollback)
                  (uq_process m) (erase_tx (uq_trid m) s1))
             else
               send_resource_request Rm_rollback False x (stage_is S_involved) S_rollback_requested TMNOFLAGS (keep s1))"

definition basic_rollback :: "user_request \<Rightarrow> unit tm" where
  "basic_rollback m s =
     (if find_tx s (uq_trid m) = None then rollback_found m (add_tx (uq_trid m) s) else rollback_found m s)"

text \<open>
  \<open>user_reply_wrapper\<close>: every exception of the handler (a termination signal is not modelled) becomes
  an error reply to the requester.
\<close>

definition user_reply_wrapper ::
    "(uuid \<Rightarrow> process_handle \<Rightarrow> trid \<Rightarrow> int \<Rightarrow> reply_stage \<Rightarrow> tm_message) \<Rightarrow> (user_request \<Rightarrow> unit tm) \<Rightarrow>
     user_request \<Rightarrow> tm_state \<Rightarrow> tm_state" where
  "user_reply_wrapper reply handler m s =
     (case handler m s of
        (Inr _, s') \<Rightarrow> s'
      | (Inl e, s') \<Rightarrow>
          send_reply (reply (uq_correlation m) (tm_self s') (uq_trid m)
            (case e of User_error code \<Rightarrow> code | _ \<Rightarrow> XAER_RMERR) Reply_error) (uq_process m) s')"

definition handle_commit :: "user_request \<Rightarrow> tm_state \<Rightarrow> tm_state" where
  "handle_commit = user_reply_wrapper Commit_reply basic_commit"

definition handle_rollback :: "user_request \<Rightarrow> tm_state \<Rightarrow> tm_state" where
  "handle_rollback = user_reply_wrapper Rollback_reply basic_rollback"

section \<open>Dead processes and connecting resources\<close>

text \<open>\<open>process::Exit\<close>: the transactions a dead process owns are rolled back.\<close>

definition handle_exit :: "int \<Rightarrow> tm_state \<Rightarrow> tm_state" where
  "handle_exit pid s =
     fold (\<lambda>t. handle_rollback \<lparr>uq_correlation = nil_uuid, uq_process = tm_self s, uq_trid = t, uq_resources = []\<rparr>)
       (map tx_trid (filter (\<lambda>x. ph_pid (t_owner (tx_trid x)) = pid) (tm_transactions s))) s"

text \<open>A send that waits for room: only a queue that is gone stops it.\<close>

definition tm_blocking_send :: "int \<Rightarrow> tm_message \<Rightarrow> unit tm" where
  "tm_blocking_send queue m s =
     (let s1 = s\<lparr>tm_push := drop 1 (tm_push s)\<rparr>
      in if tm_push s \<noteq> [] \<and> hd (tm_push s) = Push_unavailable then (Inl Queue_unavailable, s1)
         else (Inr (), s1\<lparr>tm_sent := tm_sent s1 @ [(queue, m)]\<rparr>))"

text \<open>
  \<open>Connect\<close>: the instance takes the queue of its process and is ready for work; an unknown instance is
  discarded. The handler reports to the broker once, when every resource has a running instance:
  \<open>connected\<close> is its flag, and its new value the result.
\<close>

definition handle_connect :: "process_handle \<Rightarrow> int \<Rightarrow> int \<Rightarrow> bool \<Rightarrow> bool tm" where
  "handle_connect p rm code connected s =
     tm_bind (\<lambda>s. case get_instance s rm (ph_pid p) of
         Inl e \<Rightarrow> (Inr (), s)
       | Inr i \<Rightarrow>
           if code = XA_OK then
             instance_done rm (ph_pid p) (i\<lparr>in_process := p\<rparr>)
               (on_instance rm (has_pid (ph_pid p)) (\<lambda>i. i\<lparr>in_process := p\<rparr>) s)
           else (Inr (), on_instance rm (has_pid (ph_pid p)) (set_instance_state I_startup_error) s))
       (\<lambda>_ s.
         if \<not> connected \<and> list_all proxy_running (tm_resources s) then
           tm_bind (tm_blocking_send (tm_broker s) (Tm_ready (tm_self s))) (\<lambda>_. tm_return True) s
         else (Inr connected, s)) s"

section \<open>Requests of other domains\<close>

definition domain_request_handler :: "rm_call \<Rightarrow> domain_request \<Rightarrow> unit tm" where
  "domain_request_handler call m s =
     (let reply = (\<lambda>code. send_reply (Resource_reply call (dq_correlation m) (tm_self s) (dq_trid m) code) (dq_process m))
      in (case (find_tx s (dq_trid m), call) of
            (Some x, Rm_prepare) \<Rightarrow>
              if tx_resources x \<noteq> [] then
                send_resource_request Rm_prepare True x (stage_is S_involved) S_prepare_requested (dq_flags m) s
              else (Inr (), reply XA_RDONLY s)
          | (Some x, Rm_commit) \<Rightarrow>
              send_resource_request Rm_commit True x (stage_is S_prepare_replied) S_commit_requested (dq_flags m) s
          | (Some x, Rm_rollback) \<Rightarrow>
              send_resource_request Rm_commit True x (stage_is S_prepare_replied) S_rollback_requested (dq_flags m) s
          | (None, Rm_prepare) \<Rightarrow> (Inr (), reply XA_RDONLY s)
          | (None, _) \<Rightarrow> (Inr (), reply XAER_NOTA s)))"

end
