(* ===== verification/Tm_Pump.thy ===== *)
theory Tm_Pump
  imports Tm_Handle
begin

text \<open>
  The message pump of the transaction manager (\<open>transaction/source/manager/manager.cpp\<close>): the
  dispatch of a message to its handler, the batch of messages between two writes of the log, and the
  sending of what waits for the write.
\<close>

section \<open>Dispatch\<close>

datatype tm_event =
    Ev_commit user_request
  | Ev_rollback user_request
  | Ev_involved trid "int list"
  | Ev_connect process_handle int int
  | Ev_reply rm_call bool rm_reply
  | Ev_domain rm_call domain_request
  | Ev_dead int
  | Ev_instances "(int \<times> nat) list"
  | Ev_shutdown
  | Ev_other

text \<open>
  The admin service that changes the number of instances answers an exception with an error reply.
  Other messages (a ping, a discarded connect reply) leave the state as it is. The flag is that of the
  \<open>Connect\<close> handler.
\<close>

definition dispatch :: "tm_event \<Rightarrow> bool \<Rightarrow> bool tm" where
  "dispatch ev connected s =
     (case ev of
        Ev_commit m \<Rightarrow> (Inr connected, handle_commit m s)
      | Ev_rollback m \<Rightarrow> (Inr connected, handle_rollback m s)
      | Ev_involved t ids \<Rightarrow> (Inr connected, handle_involved t ids s)
      | Ev_connect p rm code \<Rightarrow> handle_connect p rm code connected s
      | Ev_reply call domain m \<Rightarrow> tm_bind (reply_wrapper (reply_handler call domain) m) (\<lambda>_. tm_return connected) s
      | Ev_domain call m \<Rightarrow> tm_bind (domain_request_handler call m) (\<lambda>_. tm_return connected) s
      | Ev_dead pid \<Rightarrow> (Inr connected, handle_exit pid s)
      | Ev_instances ds \<Rightarrow> (Inr connected, snd (insances ds s))
      | Ev_shutdown \<Rightarrow> (Inl Shutdown_exn, s)
      | Ev_other \<Rightarrow> (Inr connected, s))"

section \<open>A round of the pump\<close>

definition batch_transaction :: nat where "batch_transaction = 100"

text \<open>
  The inner loop: \<open>polls\<close> are the results of the non blocking reads, none when the queue was empty (and
  when the list runs out). An empty queue is polled at most \<open>count\<close> times.
\<close>

function poll_loop :: "tm_event option list \<Rightarrow> nat \<Rightarrow> bool \<Rightarrow> bool tm" where
  "poll_loop polls n connected s =
     (let next' = (case polls of [] \<Rightarrow> None | e # _ \<Rightarrow> e)
      in (case (case next' of None \<Rightarrow> (Inr connected, s) | Some ev \<Rightarrow> dispatch ev connected s) of
            (Inl e, s') \<Rightarrow> (Inl e, s')
          | (Inr connected', s') \<Rightarrow>
              if (next' \<noteq> None \<or> n > 1) \<and> length (tm_replies s') < batch_transaction then
                poll_loop (drop 1 polls) (if next' \<noteq> None then n else n - 1) connected' s'
              else (Inr connected', s')))"
  by pat_completeness auto
termination
  by (relation "measure (\<lambda>(polls, n, connected, s). length polls + n)") (auto split: list.splits)

text \<open>
  What waits for the log: the replies, of which those that meet a full queue stay, then the requests,
  of which those without an idle instance become pending requests.
\<close>

definition negated_send_reply ::
    "pending_reply \<Rightarrow> tm_state \<Rightarrow> (tm_exn + bool) \<times> pending_reply \<times> tm_state" where
  "negated_send_reply r s = (case send_pending_reply r s of (sent, s') \<Rightarrow> (Inr (\<not> sent), r, s'))"

definition negated_send_request ::
    "pending_request \<Rightarrow> tm_state \<Rightarrow> (tm_exn + bool) \<times> pending_request \<times> tm_state" where
  "negated_send_request q s =
     (case resource_request q s of
        (Inl e, q', s') \<Rightarrow> (Inl e, q', s')
      | (Inr done', q', s') \<Rightarrow> (Inr (\<not> done'), q', s'))"

definition flush_replies :: "unit tm" where
  "flush_replies s =
     (case send_partition negated_send_reply (tm_replies s) s of
        (Inl e, rs, s') \<Rightarrow> (Inl e, s'\<lparr>tm_replies := rs\<rparr>)
      | (Inr (failed, _), _, s') \<Rightarrow> (Inr (), s'\<lparr>tm_replies := failed\<rparr>))"

definition flush_requests :: "unit tm" where
  "flush_requests s =
     (case send_partition negated_send_request (tm_requests s) s of
        (Inl e, qs, s') \<Rightarrow> (Inl e, s'\<lparr>tm_requests := qs\<rparr>)
      | (Inr (failed, _), _, s') \<Rightarrow> (Inr (), s'\<lparr>tm_pending := tm_pending s' @ failed, tm_requests := []\<rparr>))"

definition with_log :: "(tm_log \<Rightarrow> tm_log) \<Rightarrow> tm_state \<Rightarrow> tm_state" where
  "with_log f s = s\<lparr>tm_log_state := f (tm_log_state s)\<rparr>"

definition flush :: "unit tm" where
  "flush s =
     (if tm_replies s \<noteq> [] \<or> tm_requests s \<noteq> [] then
        tm_bind flush_replies (\<lambda>_. flush_requests) (with_log writer_commit s)
      else (Inr (), s))"

text \<open>
  One round: with a backlog of replies the pump does not wait for a message; otherwise \<open>first\<close> is the
  message it waits for.
\<close>

definition pump_round :: "tm_event \<Rightarrow> tm_event option list \<Rightarrow> bool \<Rightarrow> bool tm" where
  "pump_round first polls connected s =
     (let s0 = with_log writer_begin s
      in tm_bind (if tm_pending_work s0 then tm_return connected else dispatch first connected)
           (\<lambda>c. tm_bind (poll_loop polls batch_transaction c)
             (\<lambda>c. tm_bind flush (\<lambda>_. tm_return c))) s0)"

text \<open>
  The manager's constructor: it starts the instances and handles connects (and a shutdown; other messages
  stay in the queue) until every instance is idle. The value is whether that happened before the messages
  ran out.
\<close>

fun boot_event :: "tm_event \<Rightarrow> bool" where
  "boot_event (Ev_connect p rm code) = True"
| "boot_event Ev_shutdown = True"
| "boot_event _ = False"

fun await_ready :: "tm_event list \<Rightarrow> bool \<Rightarrow> bool tm" where
  "await_ready evs connected s =
     (if tm_all_ready s then (Inr True, s)
      else (case evs of
          [] \<Rightarrow> (Inr False, s)
        | ev # evs' \<Rightarrow>
            if boot_event ev then tm_bind (dispatch ev connected) (await_ready evs') s
            else await_ready evs' connected s))"

definition manager_boot :: "tm_event list \<Rightarrow> bool tm" where
  "manager_boot evs = tm_bind start_instances (\<lambda>_. await_ready evs False)"

text \<open>
  The pump runs rounds until an exception ends it: a shutdown is its normal end, any other leaves the
  manager's start. Either way the writer's destructor commits the log, and the manager's destructor
  stops the instances.
\<close>

fun pump :: "(tm_event \<times> tm_event option list) list \<Rightarrow> bool \<Rightarrow> tm_state \<Rightarrow> tm_exn option \<times> tm_state" where
  "pump [] connected s = (None, s)"
| "pump ((first, polls) # rounds) connected s =
     (case pump_round first polls connected s of
        (Inl e, s') \<Rightarrow> (Some e, snd (stop_all (with_log writer_commit s')))
      | (Inr connected', s') \<Rightarrow> pump rounds connected' s')"

end
