(* ===== verification/Tm_Invariant.thy ===== *)
theory Tm_Invariant
  imports Tm_Pump
begin

text \<open>
  What holds of every state the transaction manager reaches: transactions have different identifiers,
  each involves a resource once and only configured ones, requests wait only for configured resources,
  and an instance belongs to its proxy. The handlers are proved to keep this by what they leave alone:
  \<open>quiet\<close> relates states that differ at most in the instances, the backlog of replies and the
  manager's surroundings.
\<close>

definition known :: "tm_state \<Rightarrow> int list" where
  "known s = map rm_id (tm_resources s)"

definition own_instances :: "tm_state \<Rightarrow> bool" where
  "own_instances s = list_all (\<lambda>p. list_all (\<lambda>i. in_id i = rm_id p) (rm_instances p)) (tm_resources s)"

definition quiet :: "tm_state \<Rightarrow> tm_state \<Rightarrow> bool" where
  "quiet s s' \<longleftrightarrow> tm_transactions s' = tm_transactions s \<and> tm_pending s' = tm_pending s \<and>
     tm_requests s' = tm_requests s \<and> tm_log_state s' = tm_log_state s \<and> tm_self s' = tm_self s \<and>
     known s' = known s \<and> (own_instances s \<longrightarrow> own_instances s')"

lemma quiet_refl [simp]: "quiet s s"
  by (simp add: quiet_def)

lemma quiet_trans: "quiet s t \<Longrightarrow> quiet t u \<Longrightarrow> quiet s u"
  by (simp add: quiet_def)

lemma quiet_push: "quiet s (snd (tm_push_message q m s))"
  by (auto simp: quiet_def tm_push_message_def known_def own_instances_def split: list.splits push_outcome.splits)

lemma quiet_now: "quiet s (snd (tm_now s))"
  by (auto simp: quiet_def tm_now_def known_def own_instances_def split: list.splits)

lemma upd_first_all: "list_all P xs \<Longrightarrow> (\<And>x. P x \<Longrightarrow> P (f x)) \<Longrightarrow> list_all P (upd_first Q f xs)"
  by (induction xs) auto

lemma quiet_on_instance: "(\<And>i. in_id (f i) = in_id i) \<Longrightarrow> quiet s (on_instance rm P f s)"
  unfolding quiet_def on_instance_def known_def own_instances_def
  by (auto simp: map_upd_first intro!: upd_first_all)

lemma in_id_set_state [simp]: "in_id (set_instance_state st i) = in_id i"
  by (simp add: set_instance_state_def)

lemma quiet_replies: "quiet s (s\<lparr>tm_replies := rs\<rparr>)"
  by (simp add: quiet_def known_def own_instances_def)

lemma quiet_send_pending_reply: "quiet s (snd (send_pending_reply r s))"
  using quiet_push [of s "pr_target r" "pr_message r"]
  by (auto simp: send_pending_reply_def split: prod.splits sum.splits)

lemma quiet_persistent_reply: "quiet s (persistent_reply m p s)"
  by (simp add: persistent_reply_def quiet_replies)

lemma quiet_send_reply: "quiet s (send_reply m p s)"
  using quiet_send_pending_reply [of s "\<lparr>pr_target = ph_queue p, pr_message = m\<rparr>"]
  by (auto simp: send_reply_def split: prod.splits intro: quiet_trans quiet_persistent_reply)

lemma quiet_instance_request: "quiet s (snd (instance_request m rm i P s))"
proof -
  obtain r s1 where p: "tm_push_message (ph_queue (in_process i)) m s = (r, s1)" by fastforce
  obtain now s2 where n: "tm_now s1 = (now, s2)" by fastforce
  let ?f = "\<lambda>i. (set_instance_state I_busy i)\<lparr>in_statistics :=
      (in_statistics i)\<lparr>ss_roundtrip := statistics_start now (ss_roundtrip (in_statistics i))\<rparr>\<rparr>"
  have q: "quiet s s1" using quiet_push [of s "ph_queue (in_process i)" m] p by simp
  have "quiet s1 s2" using quiet_now [of s1] n by simp
  moreover have "quiet s2 (on_instance rm P ?f s2)" by (rule quiet_on_instance) simp
  ultimately have "quiet s (on_instance rm P ?f s2)" using q quiet_trans by blast
  with q p n show ?thesis by (cases r) (simp_all add: instance_request_def tm_bind_def)
qed

lemma quiet_request_loop: "request_loop m ids unsent s = (r, s') \<Longrightarrow>
    quiet s s' \<and> (\<forall>us. r = Inr us \<longrightarrow> set us \<subseteq> set unsent \<union> set ids)"
proof (induction m ids unsent s rule: request_loop.induct)
  case (2 m rm ids unsent s)
  show ?case
  proof (cases "idle_instance s rm")
    case (Inl e)
    with 2 show ?thesis by auto
  next
    case (Inr f)
    show ?thesis
    proof (cases f)
      case None
      with Inr 2 show ?thesis by fastforce
    next
      case (Some i)
      obtain q s1 where i: "instance_request m rm i (\<lambda>i. in_state i = I_idle) s = (q, s1)" by fastforce
      then have q1: "quiet s s1" using quiet_instance_request [of s m rm i] by (metis snd_conv)
      show ?thesis
      proof (cases q)
        case (Inl e)
        with Some Inr i q1 2 show ?thesis by auto
      next
        case b: (Inr b)
        with Some Inr i 2(3) have "request_loop m ids (if b then unsent else unsent @ [rm]) s1 = (r, s')" by simp
        with 2(2) [OF Inr Some i [symmetric] b] q1 show ?thesis
          by (fastforce intro: quiet_trans split: if_splits)
      qed
    qed
  qed
qed auto

lemma quiet_resource_request:
  assumes "resource_request q s = (r, q', s')"
  shows "quiet s s'" "set (pq_resources q') \<subseteq> set (pq_resources q)" "pq_message q' = pq_message q"
proof -
  obtain l s1 where l: "request_loop (pq_message q) (pq_resources q) [] s = (l, s1)" by fastforce
  from quiet_request_loop [OF l] l assms show "quiet s s'" "set (pq_resources q') \<subseteq> set (pq_resources q)"
    "pq_message q' = pq_message q"
    by (auto simp: resource_request_def split: sum.splits)
qed

section \<open>The invariant\<close>

definition tx_ok :: "int list \<Rightarrow> transaction \<Rightarrow> bool" where
  "tx_ok ids x \<longleftrightarrow> distinct (map r_id (tx_resources x)) \<and> r_id ` set (tx_resources x) \<subseteq> set ids"

definition tx_distinct :: "transaction list \<Rightarrow> bool" where
  "tx_distinct xs = sorted_wrt (\<lambda>x y. \<not> same_trid (tx_trid x) (tx_trid y)) xs"

fun prepared_reply :: "tm_message \<Rightarrow> bool" where
  "prepared_reply (Commit_reply c p t code st) = (st = Reply_prepare)"
| "prepared_reply _ = False"

fun is_request :: "tm_message \<Rightarrow> bool" where
  "is_request (Resource_request call domain p t flags) = True"
| "is_request _ = False"

definition request_ok :: "int list \<Rightarrow> pending_request \<Rightarrow> bool" where
  "request_ok ids q \<longleftrightarrow> set (pq_resources q) \<subseteq> set ids \<and> is_request (pq_message q)"

definition requests_ok :: "int list \<Rightarrow> pending_request list \<Rightarrow> bool" where
  "requests_ok ids qs = list_all (request_ok ids) qs"

definition tm_inv :: "tm_state \<Rightarrow> bool" where
  "tm_inv s \<longleftrightarrow> tx_distinct (tm_transactions s) \<and> list_all (tx_ok (known s)) (tm_transactions s) \<and>
     requests_ok (known s) (tm_pending s) \<and> tm_requests s = [] \<and> own_instances s"

lemma inv_quiet: "tm_inv s \<Longrightarrow> quiet s s' \<Longrightarrow> tm_inv s'"
  by (simp add: tm_inv_def quiet_def)

lemma known_simps [simp]:
  "known (s\<lparr>tm_transactions := a\<rparr>) = known s" "known (s\<lparr>tm_pending := b\<rparr>) = known s"
  "known (s\<lparr>tm_log_state := c\<rparr>) = known s" "known (s\<lparr>tm_replies := d\<rparr>) = known s"
  "known (s\<lparr>tm_requests := e\<rparr>) = known s"
  by (simp_all add: known_def)

lemma own_instances_simps [simp]:
  "own_instances (s\<lparr>tm_transactions := a\<rparr>) = own_instances s"
  "own_instances (s\<lparr>tm_pending := b\<rparr>) = own_instances s"
  "own_instances (s\<lparr>tm_log_state := c\<rparr>) = own_instances s"
  "own_instances (s\<lparr>tm_requests := e\<rparr>) = own_instances s"
  by (simp_all add: own_instances_def)

lemma in_upd_first: "x \<in> set (upd_first P f xs) \<Longrightarrow> x \<in> set xs \<or> (\<exists>y\<in>set xs. x = f y)"
  using in_set_upd_firstE by metis

lemma tx_distinct_upd: "tx_distinct xs \<Longrightarrow> (\<And>x. tx_trid (f x) = tx_trid x) \<Longrightarrow> tx_distinct (upd_first P f xs)"
  unfolding tx_distinct_def
proof (induction xs)
  case (Cons x xs)
  then show ?case using in_upd_first [of _ P f xs] by auto metis
qed simp

lemma tx_distinct_erase: "tx_distinct xs \<Longrightarrow> tx_distinct (erase_first P xs)"
  unfolding tx_distinct_def by (induction xs) (auto dest: in_erase_firstD)

lemma known_on_tx [simp]: "known (on_tx t f s) = known s"
  by (simp add: on_tx_def)

lemma inv_on_tx [wf_intros]:
  assumes "tm_inv s" and "\<And>x. tx_trid (f x) = tx_trid x" and "\<And>x. tx_ok (known s) x \<Longrightarrow> tx_ok (known s) (f x)"
  shows "tm_inv (on_tx t f s)"
  using assms by (simp add: tm_inv_def on_tx_def tx_distinct_upd upd_first_all)

lemma inv_erase_tx [wf_intros]: "tm_inv s \<Longrightarrow> tm_inv (erase_tx t s)"
  by (auto simp: tm_inv_def erase_tx_def tx_distinct_erase list_all_iff dest: in_erase_firstD)

lemma find_tx_None: "find_tx s t = None \<longleftrightarrow> (\<forall>x\<in>set (tm_transactions s). \<not> same_trid (tx_trid x) t)"
  by (auto simp: find_tx_def is_tx_def find_None_iff)

lemma inv_add_tx [wf_intros]: "tm_inv s \<Longrightarrow> find_tx s t = None \<Longrightarrow> tm_inv (add_tx t s)"
  by (auto simp: tm_inv_def add_tx_def find_tx_None tx_distinct_def sorted_wrt_append new_transaction_def tx_ok_def)

lemma inv_log [wf_intros]: "tm_inv s \<Longrightarrow> tm_inv (s\<lparr>tm_log_state := l\<rparr>)"
  by (simp add: tm_inv_def)

lemma inv_send_reply [wf_intros]: "tm_inv s \<Longrightarrow> tm_inv (send_reply m p s)"
  using inv_quiet quiet_send_reply by blast

lemma inv_persistent_reply [wf_intros]: "tm_inv s \<Longrightarrow> tm_inv (persistent_reply m p s)"
  using inv_quiet quiet_persistent_reply by blast

lemma find_tx_ok: "tm_inv s \<Longrightarrow> find_tx s t = Some x \<Longrightarrow> tx_ok (known s) x \<and> same_trid (tx_trid x) t"
  using find_Some_in [of "is_tx t" "tm_transactions s" x]
  by (auto simp: tm_inv_def find_tx_def is_tx_def list_all_iff)

lemma inv_send_resource_request [wf_intros]:
  assumes inv: "tm_inv s" and x: "tx_ok (known s) x"
  shows "tm_inv (snd (send_resource_request call domain x pick st flags s))"
proof -
  obtain A B where part: "range_partition pick (tx_resources x) = (A, B)" by fastforce
  note rp = range_partition [OF part]
  have "mset (map r_id A @ map r_id B) = mset (map r_id (tx_resources x))"
    using arg_cong [OF rp(1), of "image_mset r_id"] by simp
  then have ids: "distinct (map r_id A @ map r_id B) \<and> set (map r_id A @ map r_id B) \<subseteq> set (known s)"
    using x mset_eq_setD mset_eq_imp_distinct_iff unfolding tx_ok_def by (metis set_map)
  let ?s1 = "on_tx (tx_trid x) (\<lambda>x. x\<lparr>tx_resources := map (\<lambda>r. r\<lparr>r_stage := st\<rparr>) A @ B\<rparr>) s"
  have ok: "tx_ok (known s) (y\<lparr>tx_resources := map (\<lambda>r. r\<lparr>r_stage := st\<rparr>) A @ B\<rparr>)" for y
    using ids by (auto simp: tx_ok_def comp_def image_image)
  have inv1: "tm_inv ?s1" by (rule inv_on_tx [OF inv]) (simp_all add: ok)
  let ?q = "\<lparr>pq_message = Resource_request call domain (tm_self s) (tx_trid x) flags, pq_resources = map r_id A\<rparr>"
  obtain r q' s2 where rr: "resource_request ?q ?s1 = (r, q', s2)" by (metis prod_cases3)
  note qr = quiet_resource_request [OF rr]
  have inv2: "tm_inv s2" using inv_quiet [OF inv1 qr(1)] .
  have "known s2 = known s" using qr(1) by (simp add: quiet_def)
  with inv2 qr(2,3) ids have "tm_inv (s2\<lparr>tm_pending := tm_pending s2 @ [q']\<rparr>)"
    by (auto simp: tm_inv_def requests_ok_def request_ok_def)
  with inv2 part rr show ?thesis by (auto simp: send_resource_request_def Let_def split: sum.splits)
qed

lemma inv_done_pending:
  assumes "tm_inv s" and "find (waits_for i) (tm_pending s) = Some q"
  shows "tm_inv (s\<lparr>tm_pending := (if remove1 i (pq_resources q) = [] then erase_first (waits_for i) (tm_pending s)
     else upd_first (waits_for i) (\<lambda>q'. q'\<lparr>pq_resources := remove1 i (pq_resources q)\<rparr>) (tm_pending s))\<rparr>)"
proof -
  from assms find_Some_in [OF assms(2)] have "set (remove1 i (pq_resources q)) \<subseteq> set (known s)"
    using set_remove1_subset by (fastforce simp: tm_inv_def requests_ok_def request_ok_def list_all_iff)
  with assms(1) show ?thesis
    by (auto simp: tm_inv_def requests_ok_def request_ok_def list_all_iff dest!: in_erase_firstD in_upd_first)
qed

lemma inv_instance_done [wf_intros]: "tm_inv s \<Longrightarrow> tm_inv (snd (instance_done rm pid i s))"
proof -
  assume inv: "tm_inv s"
  let ?s1 = "on_instance rm (has_pid pid) (set_instance_state I_idle) s"
  have inv1: "tm_inv ?s1" by (rule inv_quiet [OF inv quiet_on_instance]) simp
  have p1: "tm_pending ?s1 = tm_pending s" by (simp add: on_instance_def)
  show ?thesis
  proof (cases "find (waits_for (in_id i)) (tm_pending s)")
    case None
    with inv1 show ?thesis by (simp add: instance_done_def Let_def)
  next
    case (Some q)
    obtain r s2 where push: "tm_push_message (ph_queue (in_process i)) (pq_message q) ?s1 = (r, s2)" by fastforce
    have q2: "quiet ?s1 s2" using quiet_push [of ?s1] push by (metis snd_conv)
    let ?s3 = "on_instance rm (has_pid pid) (set_instance_state I_busy) s2"
    have inv2: "tm_inv s2" using inv_quiet [OF inv1 q2] .
    have "quiet s2 ?s3" by (rule quiet_on_instance) simp
    then have inv3: "tm_inv ?s3" using inv_quiet [OF inv2] by blast
    have "tm_pending ?s3 = tm_pending s" using q2 p1 by (simp add: quiet_def on_instance_def)
    with inv_done_pending [OF inv3, of "in_id i" q] inv2 Some push show ?thesis
      by (auto simp: instance_done_def Let_def split: sum.splits)
  qed
qed

section \<open>The resources of a transaction\<close>

lemma tx_ok_involve: "tx_ok (known s) x \<Longrightarrow> tx_ok (known s) (involve s ids x)"
proof -
  assume ok: "tx_ok (known s) x"
  let ?xs = "tx_resources x @ map new_resource (filter (\<lambda>i. list_ex (\<lambda>p. rm_id p = i) (tm_resources s)) ids)"
  have "r_id ` set ?xs \<subseteq> set (known s)" using ok
    by (auto simp: tx_ok_def known_def new_resource_def list_ex_iff)
  moreover have "set (unique_by r_id (sort_key r_id ?xs)) \<subseteq> set ?xs"
    using unique_by_subset [of r_id "sort_key r_id ?xs"] by simp
  ultimately have "r_id ` set (unique_by r_id (sort_key r_id ?xs)) \<subseteq> set (known s)" by blast
  then show ?thesis using unique_by_distinct [of r_id "sort_key r_id ?xs"]
    by (simp add: tx_ok_def involve_def)
qed

lemma tx_trid_involve [simp]: "tx_trid (involve s ids x) = tx_trid x"
  by (simp add: involve_def)

lemma known_cong: "tm_resources s' = tm_resources s \<Longrightarrow> known s' = known s \<and> involve s' = involve s"
  by (simp add: known_def involve_def fun_eq_iff)

lemma inv_on_tx_involve [wf_intros]: "tm_inv s \<Longrightarrow> tm_inv (on_tx t (involve s ids) s)"
  by (rule inv_on_tx) (simp_all add: tx_ok_involve)

lemma set_resource_trid [simp]: "tx_trid (set_resource rm f x) = tx_trid x"
  by (simp add: set_resource_def)

lemma tx_ok_set_resource: "(\<And>r. r_id (f r) = r_id r) \<Longrightarrow> tx_ok ids x \<Longrightarrow> tx_ok ids (set_resource rm f x)"
proof -
  assume f: "\<And>r. r_id (f r) = r_id r" and ok: "tx_ok ids x"
  have m: "map r_id (upd_first (\<lambda>r. r_id r = rm) f (tx_resources x)) = map r_id (tx_resources x)"
    by (rule map_upd_first) (simp add: f)
  then have "r_id ` set (upd_first (\<lambda>r. r_id r = rm) f (tx_resources x)) = r_id ` set (tx_resources x)"
    by (metis list.set_map)
  with ok m show ?thesis by (simp add: tx_ok_def set_resource_def)
qed

lemma known_quiet: "quiet s s' \<Longrightarrow> known s' = known s"
  by (simp add: quiet_def)

lemma known_replies [simp]: "known (persistent_reply m p s) = known s" "known (send_reply m p s) = known s"
  using known_quiet quiet_persistent_reply quiet_send_reply by blast+

section \<open>Instances\<close>

lemma known_put_proxy: "known (put_proxy p s) = known s"
proof -
  have "map rm_id (upd_first (\<lambda>q. rm_id q = rm_id p) (\<lambda>_. p) xs) = map rm_id xs" for xs
    by (induction xs) auto
  then show ?thesis by (simp add: known_def put_proxy_def)
qed

lemma quiet_spawn:
  "spawn_instances n p s = (r, p', s') \<Longrightarrow>
    quiet s s' \<and> rm_id p' = rm_id p \<and>
    (list_all (\<lambda>i. in_id i = rm_id p) (rm_instances p) \<longrightarrow> list_all (\<lambda>i. in_id i = rm_id p) (rm_instances p'))"
proof (induction n arbitrary: p s)
  case (Suc n)
  show ?case
  proof (cases "rm_key p \<notin> fst ` set (tm_switches s) \<or> tm_pids s = []")
    case True
    with Suc.prems show ?thesis by (auto simp: tm_spawn_def split: if_splits)
  next
    case False
    then obtain pid ps where ps: "tm_pids s = pid # ps" by (cases "tm_pids s") auto
    let ?p = "p\<lparr>rm_instances := rm_instances p @
      [set_instance_state I_started \<lparr>in_id = rm_id p, in_process = \<lparr>ph_pid = pid, ph_queue = 0\<rparr>,
         in_statistics = no_stats, in_state = I_absent\<rparr>]\<rparr>"
    have "quiet s (s\<lparr>tm_pids := ps\<rparr>)" by (simp add: quiet_def known_def own_instances_def)
    moreover from Suc.prems False ps have "spawn_instances n ?p (s\<lparr>tm_pids := ps\<rparr>) = (r, p', s')"
      by (simp add: tm_spawn_def)
    ultimately show ?thesis using Suc.IH [of ?p "s\<lparr>tm_pids := ps\<rparr>"] quiet_trans by auto
  qed
qed auto

lemma quiet_killed: "quiet s (s\<lparr>tm_killed := k\<rparr>)"
  by (simp add: quiet_def known_def own_instances_def)

lemma quiet_stop_instance:
  "stop_instance i s = (r, i', s') \<Longrightarrow> quiet s s' \<and> in_id i' = in_id i"
proof -
  assume st: "stop_instance i s = (r, i', s')"
  obtain q s1 where p: "tm_push_message (ph_queue (in_process i)) Shutdown_request s = (q, s1)" by fastforce
  have q1: "quiet s s1" using quiet_push [of s] p by (metis snd_conv)
  moreover have "quiet s (s1\<lparr>tm_replies := rs\<rparr>)" for rs using q1 quiet_replies quiet_trans by blast
  ultimately show ?thesis using st p quiet_killed
    by (auto simp: stop_instance_def split: if_splits sum.splits)
qed

lemma quiet_stop_instances:
  "stop_instances is s = (r, is', s') \<Longrightarrow> quiet s s' \<and> map in_id is' = map in_id is"
proof (induction "is" arbitrary: s r is' s')
  case (Cons i "is")
  obtain r1 i1 s1 where i1: "stop_instance i s = (r1, i1, s1)" by (metis prod_cases3)
  obtain r2 is2 s2 where is2: "stop_instances is s1 = (r2, is2, s2)" by (metis prod_cases3)
  from quiet_stop_instance [OF i1] Cons.IH [OF is2] Cons.prems i1 is2 show ?case
    by (auto intro: quiet_trans split: sum.splits)
qed simp

lemma quiet_update_instances:
  assumes "update_instances p s = (r, p', s')"
  shows "quiet s s' \<and> rm_id p' = rm_id p \<and>
    (list_all (\<lambda>i. in_id i = rm_id p) (rm_instances p) \<longrightarrow> list_all (\<lambda>i. in_id i = rm_id p) (rm_instances p'))"
proof (cases "length (rm_instances p) < rm_concurency p")
  case True
  with assms quiet_spawn show ?thesis by (simp add: update_instances_def Let_def)
next
  case False
  obtain r1 is1 s1 where st: "stop_instances (drop (rm_concurency p) (rm_instances p)) s = (r1, is1, s1)"
    by (metis prod_cases3)
  note q = quiet_stop_instances [OF st]
  have "list_all (\<lambda>i. in_id i = rm_id p) is1"
    if "list_all (\<lambda>i. in_id i = rm_id p) (rm_instances p)"
  proof -
    have "\<forall>j\<in>set (map in_id is1). j = rm_id p"
      using that unfolding conjunct2 [OF q] by (auto simp: list_all_iff dest: in_set_dropD)
    then show ?thesis by (simp add: list_all_iff)
  qed
  moreover have "list_all (\<lambda>i. in_id i = rm_id p) (take (rm_concurency p) (rm_instances p))"
    if "list_all (\<lambda>i. in_id i = rm_id p) (rm_instances p)"
    using that by (metis append_take_drop_id list_all_append)
  ultimately show ?thesis using q st False assms by (auto simp: update_instances_def Let_def)
qed

lemma get_resource_in: "get_resource s rm = Inr p \<Longrightarrow> p \<in> set (tm_resources s) \<and> rm_id p = rm"
  by (auto simp: get_resource_def dest: find_Some_in split: option.splits)

lemma inv_put_proxy:
  "tm_inv s \<Longrightarrow> list_all (\<lambda>i. in_id i = rm_id p) (rm_instances p) \<Longrightarrow> tm_inv (put_proxy p s)"
proof -
  assume inv: "tm_inv s" and p: "list_all (\<lambda>i. in_id i = rm_id p) (rm_instances p)"
  have "quiet s (put_proxy p s)" using p known_put_proxy [of p s]
    by (auto simp: quiet_def own_instances_def put_proxy_def list_all_iff dest!: in_upd_first)
  with inv_quiet [OF inv] show ?thesis .
qed

lemma inv_apply_directives: "tm_inv s \<Longrightarrow> tm_inv (snd (apply_directives ds s))"
proof (induction ds arbitrary: s)
  case (Cons d ds)
  obtain rm n where d: "d = (rm, n)" by fastforce
  show ?case
  proof (cases "get_resource s rm")
    case (Inl e)
    with Cons d show ?thesis by auto
  next
    case (Inr p)
    obtain r p' s' where u: "update_instances (p\<lparr>rm_concurency := n\<rparr>) s = (r, p', s')" by (metis prod_cases3)
    note q = quiet_update_instances [OF u]
    have "list_all (\<lambda>i. in_id i = rm_id p) (rm_instances p)"
      using get_resource_in [OF Inr] Cons.prems by (auto simp: tm_inv_def own_instances_def list_all_iff)
    with q have inv: "tm_inv (put_proxy p' s')" using inv_quiet [OF Cons.prems] by (intro inv_put_proxy) auto
    obtain q2 s2 where n: "apply_directives ds (put_proxy p' s') = (q2, s2)" by fastforce
    have "tm_inv s2" using Cons.IH [OF inv] n by simp
    with inv n Inr u d show ?thesis by (cases r; cases q2) auto
  qed
qed simp

lemma inv_insances [wf_intros]: "tm_inv s \<Longrightarrow> tm_inv (snd (insances ds s))"
  by (simp add: insances_def inv_apply_directives)

section \<open>The backlog\<close>

text \<open>A predicate that keeps an invariant of the state and one of the elements, run over a backlog.\<close>

definition all_held :: "('a \<Rightarrow> bool) \<Rightarrow> 'a option \<Rightarrow> bool" where
  "all_held E h = (case h of Some x \<Rightarrow> E x | None \<Rightarrow> True)"

lemma send_from_keeps:
  assumes p: "\<And>x s r x' s'. p x s = (r, x', s') \<Longrightarrow> I s \<Longrightarrow> E x \<Longrightarrow> I s' \<and> E x'"
  shows "length M = n \<Longrightarrow> send_from p L h M R s = (r, xs, s') \<Longrightarrow> I s \<Longrightarrow> list_all E (L @ M @ R) \<Longrightarrow> all_held E h \<Longrightarrow>
    I s' \<and> list_all E xs \<and> (\<forall>A B. r = Inr (A, B) \<longrightarrow> list_all E (A @ B))"
proof (induction n arbitrary: L h M R s r xs s')
  case 0
  then show ?case by (cases h) (auto simp: all_held_def)
next
  case (Suc n)
  show ?case
  proof (cases h)
    case None
    from Suc.prems(1) obtain x M' where M: "M = x # M'" "length M' = n" by (cases M) auto
    obtain q x' s1 where px: "p x s = (q, x', s1)" by (metis prod_cases3)
    have e: "E x" "list_all E L" "list_all E M'" "list_all E R" using Suc.prems(4) M by simp_all
    from p [OF px Suc.prems(3) e(1)] have 1: "I s1" "E x'" by auto
    from Suc.prems(2) None M px have run: "(case q of Inl e \<Rightarrow> (Inl e, L @ x' # M' @ R, s1)
        | Inr b \<Rightarrow> if b then send_from p (L @ [x']) None M' R s1 else send_from p L (Some x') M' R s1) = (r, xs, s')"
      by (cases q) simp_all
    show ?thesis
    proof (cases q)
      case (Inl e')
      with run e 1 show ?thesis by auto
    next
      case (Inr b)
      show ?thesis
      proof (cases b)
        case True
        with run Inr have "send_from p (L @ [x']) None M' R s1 = (r, xs, s')" by simp
        then show ?thesis by (rule Suc.IH [OF M(2) _ 1(1)]) (use e 1 in \<open>simp_all add: all_held_def\<close>)
      next
        case False
        with run Inr have "send_from p L (Some x') M' R s1 = (r, xs, s')" by simp
        then show ?thesis by (rule Suc.IH [OF M(2) _ 1(1)]) (use e 1 in \<open>simp_all add: all_held_def\<close>)
      qed
    qed
  next
    case (Some x)
    from Suc.prems(1) obtain z M' where M: "M = M' @ [z]" "length M' = n" by (cases M rule: rev_cases) auto
    obtain q z' s1 where pz: "p z s = (q, z', s1)" by (metis prod_cases3)
    have e: "E z" "list_all E L" "list_all E M'" "list_all E R" "E x"
      using Suc.prems(4,5) M Some by (simp_all add: all_held_def)
    from p [OF pz Suc.prems(3) e(1)] have 1: "I s1" "E z'" by auto
    from Suc.prems(2) have run: "(case q of Inl e \<Rightarrow> (Inl e, L @ x # M' @ z' # R, s1)
        | Inr b \<Rightarrow> if b then send_from p (L @ [z']) None M' (x # R) s1
            else send_from p L (Some x) M' (z' # R) s1) = (r, xs, s')"
      by (cases q) (simp_all add: Some M pz send_from_snoc)
    show ?thesis
    proof (cases q)
      case (Inl e')
      with run e 1 show ?thesis by auto
    next
      case (Inr b)
      show ?thesis
      proof (cases b)
        case True
        with run Inr have "send_from p (L @ [z']) None M' (x # R) s1 = (r, xs, s')" by simp
        then show ?thesis by (rule Suc.IH [OF M(2) _ 1(1)]) (use e 1 in \<open>simp_all add: all_held_def\<close>)
      next
        case False
        with run Inr have "send_from p L (Some x) M' (z' # R) s1 = (r, xs, s')" by simp
        then show ?thesis by (rule Suc.IH [OF M(2) _ 1(1)]) (use e 1 in \<open>simp_all add: all_held_def\<close>)
      qed
    qed
  qed
qed

lemma send_partition_keeps:
  assumes p: "\<And>x s r x' s'. p x s = (r, x', s') \<Longrightarrow> I s \<Longrightarrow> E x \<Longrightarrow> I s' \<and> E x'"
    and f: "send_partition p ys s = (r, xs, s')" and "I s" and "list_all E ys"
  shows "I s'" "list_all E xs" "r = Inr (A, B) \<Longrightarrow> list_all E A"
  using send_from_keeps [of p I E, OF p refl f [unfolded send_partition_def]] assms(3,4)
  by (simp_all add: all_held_def)

lemma quiet_flush_replies: "quiet s (snd (flush_replies s))"
proof -
  obtain r xs s' where f: "send_partition negated_send_reply (tm_replies s) s = (r, xs, s')"
    by (metis prod_cases3)
  have p: "quiet s t'" if "negated_send_reply x t = (q, x', t')" "quiet s t" for x t q x' t'
    using that quiet_send_pending_reply [of t x] quiet_trans
    by (auto simp: negated_send_reply_def split: prod.splits)
  have "quiet s s'"
    by (rule send_partition_keeps(1) [where I = "quiet s" and E = "\<lambda>_. True", OF _ f])
      (use p in \<open>auto simp: list_all_iff\<close>)
  then have "quiet s (s'\<lparr>tm_replies := rs\<rparr>)" for rs using quiet_replies quiet_trans by blast
  then show ?thesis using f by (cases r) (auto simp: flush_replies_def)
qed

text \<open>No handler puts a request in the list that waits for the log, so there is none to send.\<close>

lemma flush_requests_none: "tm_requests s = [] \<Longrightarrow> flush_requests s = (Inr (), s)"
  by (simp add: flush_requests_def send_partition_def)

end
