(* ===== verification/Tm_Walk.thy ===== *)
theory Tm_Walk
  imports Tm_Invariant
begin

text \<open>
  What the handlers need from an invariant, as an interface: the operations on the state that the
  handlers are made of keep it. Inside, every message handler and the loop of the pump are proved to keep
  it; the invariant of the manager's state is the first instance.
\<close>

lemma get_instance_process:
  assumes "get_instance s rm (ph_pid p) = Inr i"
  shows "get_instance (on_instance rm (has_pid (ph_pid p)) (\<lambda>i. i\<lparr>in_process := p\<rparr>) s) rm (ph_pid p) =
    Inr (i\<lparr>in_process := p\<rparr>)"
proof -
  let ?P = "has_pid (ph_pid p)" and ?f = "\<lambda>i. i\<lparr>in_process := p\<rparr>"
  have pid: "(\<lambda>i. ph_pid (in_process i) = ph_pid p) = ?P" by (simp add: has_pid_def fun_eq_iff)
  have "find (\<lambda>p. rm_id p = rm) (upd_first (\<lambda>p. rm_id p = rm) (\<lambda>q. q\<lparr>rm_instances := upd_first ?P ?f (rm_instances q)\<rparr>) ps) =
      map_option (\<lambda>q. q\<lparr>rm_instances := upd_first ?P ?f (rm_instances q)\<rparr>) (find (\<lambda>p. rm_id p = rm) ps)" for ps :: "proxy list"
    by (rule find_upd_first) simp
  moreover have "find ?P (upd_first ?P ?f is) = map_option ?f (find ?P is)" for "is" :: "rm_instance list"
    by (rule find_upd_first) (simp add: has_pid_def)
  ultimately show ?thesis using assms
    by (auto simp: get_instance_def get_resource_def on_instance_def pid split: option.splits)
qed

section \<open>The interface\<close>

locale manager_invariant =
  fixes I :: "tm_state \<Rightarrow> bool"
  assumes inv: "I s \<Longrightarrow> tm_inv s"
    and on_tx: "I s \<Longrightarrow> (\<And>x. tx_trid (f x) = tx_trid x) \<Longrightarrow>
      (\<And>x. tx_ok (known s) x \<Longrightarrow> tx_ok (known s) (f x)) \<Longrightarrow> I (on_tx t f s)"
    and erased: "I s \<Longrightarrow> I (erase_tx t s)"
    and added: "I s \<Longrightarrow> find_tx s t = None \<Longrightarrow> I (add_tx t s)"
    and logged: "I s \<Longrightarrow> log_prepare x (tm_log_state s) = Some l \<Longrightarrow> I (s\<lparr>tm_log_state := l\<rparr>)"
    and unlogged: "I s \<Longrightarrow> I (s\<lparr>tm_log_state := log_remove t (tm_log_state s)\<rparr>)"
    and replied: "I s \<Longrightarrow> \<not> prepared_reply m \<Longrightarrow> I (send_reply m p s)"
    and later: "I s \<Longrightarrow> I (persistent_reply m p s)"
    and requested: "I s \<Longrightarrow> tx_ok (known s) x \<Longrightarrow> I (snd (send_resource_request call domain x pick st flags s))"
    and finished: "I s \<Longrightarrow> get_instance s rm pid = Inr i \<Longrightarrow> I (snd (instance_done rm pid i s))"
    and on_instance: "I s \<Longrightarrow> (\<And>i. in_id (g i) = in_id i) \<Longrightarrow> (\<And>i. in_state (g i) = I_idle \<Longrightarrow> in_state i = I_idle) \<Longrightarrow>
      I (on_instance rm P g s)"
    and now: "I s \<Longrightarrow> I (snd (tm_now s))"
    and ready: "I s \<Longrightarrow> I (snd (tm_blocking_send q (Tm_ready p) s))"
    and scaled: "I s \<Longrightarrow> I (snd (insances ds s))"
begin

lemmas steps = erased added logged unlogged replied later requested now ready scaled

lemma bind: "I (snd (f s)) \<Longrightarrow> (\<And>x s'. I s' \<Longrightarrow> I (snd (g x s'))) \<Longrightarrow> I (snd (tm_bind f g s))"
  unfolding tm_bind_def by (cases "f s"; cases "fst (f s)") auto

lemma bind_return: "I (snd (f s)) \<Longrightarrow> I (snd (tm_bind f (\<lambda>_. tm_return x) s))"
  by (rule bind) (simp_all add: tm_return_def)

lemma involved: "I s \<Longrightarrow> I (on_tx t (involve s ids) s)"
  by (rule on_tx) (simp_all add: tx_ok_involve)

lemma resource_set: "I s \<Longrightarrow> (\<And>r. r_id (f r) = r_id r) \<Longrightarrow> I (on_tx t (set_resource rm f) s)"
  by (rule on_tx) (simp_all add: tx_ok_set_resource)

lemma correlated: "I s \<Longrightarrow> I (on_tx t (\<lambda>x. x\<lparr>tx_correlation := c\<rparr>) s)"
  by (rule on_tx) (simp_all add: tx_ok_def)

lemma found_ok: "I s \<Longrightarrow> find_tx s t = Some x \<Longrightarrow> tx_ok (known s) x"
  using find_tx_ok inv by blast

section \<open>Replies of the resources\<close>

definition keeps :: "(rm_reply \<Rightarrow> transaction \<Rightarrow> bool tm) \<Rightarrow> bool" where
  "keeps h \<longleftrightarrow> (\<forall>m x s. I s \<longrightarrow> tx_ok (known s) x \<longrightarrow> I (snd (h m x s)))"

lemma keeps_prepare: "keeps basic_prepare"
  unfolding keeps_def basic_prepare_def Let_def
  by (auto intro!: steps resource_set bind_return simp: tx_ok_set_resource split: option.split)

lemma keeps_commit: "keeps basic_commit_reply"
  unfolding keeps_def basic_commit_reply_def Let_def by (auto intro!: steps resource_set)

lemma keeps_rollback: "keeps basic_rollback_reply"
  unfolding keeps_def basic_rollback_reply_def Let_def by (auto intro!: steps resource_set)

lemma keeps_domain: "keeps domain_prepare_reply" "keeps domain_commit_reply" "keeps domain_rollback_reply"
  unfolding keeps_def domain_prepare_reply_def domain_commit_reply_def domain_rollback_reply_def Let_def
  by (auto intro!: steps resource_set)

lemma keeps_handler: "keeps (reply_handler call domain)"
  by (cases call; cases domain) (simp_all add: keeps_prepare keeps_commit keeps_rollback keeps_domain)

lemma reply_wrapper:
  assumes h: "keeps h" and s: "I s"
  shows "I (snd (reply_wrapper h m s))"
proof -
  obtain now s0 where now: "tm_now s = (now, s0)" by fastforce
  let ?rm = "rp_resource m" and ?pid = "ph_pid (rp_process m)"
  have inv0: "I s0" using now [THEN arg_cong [of _ _ snd]] manager_invariant.now [OF manager_invariant_axioms s] by simp
  show ?thesis
  proof (cases "get_instance s0 ?rm ?pid")
    case (Inl e)
    with now inv0 show ?thesis by (simp add: reply_wrapper_def Let_def)
  next
    case (Inr i)
    obtain r s1 where d: "instance_done ?rm ?pid i s0 = (r, s1)" by fastforce
    have inv1: "I s1" using finished [OF inv0 Inr] d by (metis snd_conv)
    let ?s2 = "instance_statistics ?rm ?pid m now s1"
    have inv2: "I ?s2" unfolding instance_statistics_def by (rule on_instance [OF inv1]) simp_all
    show ?thesis
    proof (cases "find_tx ?s2 (rp_trid m)")
      case None
      with now Inr d inv1 inv2 show ?thesis
        by (cases r) (simp_all add: reply_wrapper_def Let_def tm_bind_def)
    next
      case (Some x)
      obtain r' s3 where h3: "h m x ?s2 = (r', s3)" by fastforce
      have "I s3" using h inv2 found_ok [OF inv2 Some] h3 unfolding keeps_def by (metis snd_conv)
      with now Inr d Some inv1 inv2 h3 show ?thesis
        by (cases r; cases r') (simp_all add: reply_wrapper_def Let_def tm_bind_def erased)
    qed
  qed
qed

section \<open>Requests of the users\<close>

lemma found_involve: "I s \<Longrightarrow> find_tx s t = Some x \<Longrightarrow> tx_ok (known s) (involve s ids x)"
  using tx_ok_involve found_ok by blast

lemma commit_found: "I s \<Longrightarrow> I (snd (commit_found m s))"
  unfolding commit_found_def Let_def
  by (auto intro!: steps correlated involved simp: found_involve split: option.split)

lemma rollback_found: "I s \<Longrightarrow> I (snd (rollback_found m s))"
  unfolding rollback_found_def Let_def
  by (auto intro!: steps correlated involved simp: found_involve split: option.split)

lemma user_reply:
  assumes h: "\<And>m s. I s \<Longrightarrow> I (snd (h m s))" and r: "\<And>c p t code. \<not> prepared_reply (reply c p t code Reply_error)" and s: "I s"
  shows "I (user_reply_wrapper reply h m s)"
  using h [OF s, of m] r by (auto simp: user_reply_wrapper_def intro!: replied split: prod.split sum.split)

lemma commit: "I s \<Longrightarrow> I (handle_commit m s)"
  unfolding handle_commit_def by (rule user_reply) (auto simp: basic_commit_def intro: commit_found added)

lemma rollback: "I s \<Longrightarrow> I (handle_rollback m s)"
  unfolding handle_rollback_def by (rule user_reply) (auto simp: basic_rollback_def intro: rollback_found added)

lemma exit: "I s \<Longrightarrow> I (handle_exit pid s)"
proof -
  have "(\<And>x s. I s \<Longrightarrow> I (f x s)) \<Longrightarrow> I s \<Longrightarrow> I (fold f xs s)" for f :: "trid \<Rightarrow> tm_state \<Rightarrow> tm_state" and xs s
    by (induction xs arbitrary: s) auto
  then show "I s \<Longrightarrow> ?thesis" unfolding handle_exit_def using rollback by simp
qed

section \<open>Connecting resources and other domains\<close>

lemma connect: "I s \<Longrightarrow> I (snd (handle_connect p rm code connected s))"
  unfolding handle_connect_def
proof (rule bind)
  assume s: "I s"
  let ?s0 = "on_instance rm (has_pid (ph_pid p)) (\<lambda>i. i\<lparr>in_process := p\<rparr>) s"
  have 0: "I ?s0" by (rule on_instance [OF s]) simp_all
  have 1: "I (on_instance rm P (set_instance_state I_startup_error) s)" for P
    by (rule on_instance [OF s]) (auto simp: set_instance_state_def split: if_splits)
  show "I (snd (case get_instance s rm (ph_pid p) of
         Inl e \<Rightarrow> (Inr (), s)
       | Inr i \<Rightarrow>
           if code = XA_OK then instance_done rm (ph_pid p) (i\<lparr>in_process := p\<rparr>) ?s0
           else (Inr (), on_instance rm (has_pid (ph_pid p)) (set_instance_state I_startup_error) s)))"
    using s 1 finished [OF 0 get_instance_process] by (auto split: sum.split)
next
  fix x :: unit and s'
  assume "I s'"
  then show "I (snd (if \<not> connected \<and> list_all proxy_running (tm_resources s') then
        tm_bind (tm_blocking_send (tm_broker s') (Tm_ready (tm_self s'))) (\<lambda>_. tm_return True) s'
      else (Inr connected, s')))"
    by (auto intro!: bind_return ready)
qed

lemma domain_request: "I s \<Longrightarrow> I (snd (domain_request_handler call m s))"
  by (cases "find_tx s (dq_trid m)"; cases call)
    (auto simp: domain_request_handler_def Let_def found_ok intro!: replied requested)

section \<open>The pump\<close>

lemma dispatch: "I s \<Longrightarrow> I (snd (dispatch ev connected s))"
  by (cases ev) (auto simp: dispatch_def keeps_handler handle_involved_def Let_def added
      intro!: bind_return reply_wrapper commit rollback exit connect domain_request scaled involved)

lemma poll_loop: "I s \<Longrightarrow> I (snd (poll_loop polls n connected s))"
proof (induction polls n connected s rule: poll_loop.induct)
  case (1 polls n connected s)
  let ?next = "case polls of [] \<Rightarrow> None | e # _ \<Rightarrow> e"
  obtain r s' where r: "(case ?next of None \<Rightarrow> (Inr connected, s) | Some ev \<Rightarrow> dispatch ev connected s) = (r, s')"
    by fastforce
  have inv: "I s'" using r 1(2) dispatch [of s _ connected]
    by (cases ?next) (auto, metis snd_conv)
  show ?case
  proof (cases r)
    case (Inl e)
    with r inv show ?thesis by (subst poll_loop.simps) (simp add: Let_def)
  next
    case (Inr c)
    note ih = 1(1) [OF refl r [symmetric] Inr _ inv]
    show ?thesis
    proof (cases "(?next \<noteq> None \<or> n > 1) \<and> length (tm_replies s') < batch_transaction")
      case True
      from ih [OF True] r Inr True show ?thesis by (subst poll_loop.simps) (simp only: Let_def prod.case sum.case if_True simp_thms)
    next
      case False
      with r Inr inv show ?thesis by (subst poll_loop.simps) (simp only: Let_def prod.case sum.case if_False snd_conv)
    qed
  qed
qed

lemma await_ready: "I s \<Longrightarrow> I (snd (await_ready evs connected s))"
proof (induction evs arbitrary: connected s)
  case (Cons ev evs)
  have "I (snd (tm_bind (dispatch ev connected) (await_ready evs) s))"
    by (rule bind) (simp_all only: dispatch Cons)
  with Cons show ?case by (subst await_ready.simps) (simp del: await_ready.simps)
qed simp

end

text \<open>
  An invariant that the start of the manager, the log's transactions and the sending of the backlog keep
  too holds in every round.
\<close>

locale manager_cycle = manager_invariant +
  assumes started: "I s \<Longrightarrow> I (snd (start_instances s))"
    and written: "I s \<Longrightarrow> f \<in> {writer_begin, writer_commit} \<Longrightarrow> I (with_log f s)"
    and flushed: "I s \<Longrightarrow> I (snd (flush_replies s))"
    and retired: "I s \<Longrightarrow> I (s\<lparr>tm_resources := map (\<lambda>p. p\<lparr>rm_concurency := 0\<rparr>) (tm_resources s)\<rparr>)"
begin

lemma flush: "I s \<Longrightarrow> I (snd (flush s))"
proof -
  assume s: "I s"
  then have w: "I (with_log writer_commit s)" by (simp add: written)
  have "I (snd (tm_bind flush_replies (\<lambda>_. flush_requests) (with_log writer_commit s)))"
    by (rule bind) (use w flushed inv in \<open>auto simp: flush_requests_none tm_inv_def\<close>)
  with s show ?thesis by (simp add: flush_def)
qed

lemma pump_round: "I s \<Longrightarrow> I (snd (pump_round first polls connected s))"
  unfolding pump_round_def Let_def
  by (rule bind) (auto intro!: bind poll_loop flush dispatch written simp: tm_return_def)

lemma manager_boot: "I s \<Longrightarrow> I (snd (manager_boot evs s))"
  unfolding manager_boot_def by (rule bind) (simp_all only: started await_ready)

lemma pump: "I s \<Longrightarrow> I (snd (pump rounds connected s))"
proof (induction rounds connected s rule: pump.induct)
  case (2 first polls rounds connected s)
  obtain r s' where r: "pump_round first polls connected s = (r, s')" by fastforce
  have s': "I s'" using pump_round [OF 2(2), of first polls connected] r by simp
  show ?case
  proof (cases r)
    case (Inl e)
    have "I (snd (stop_all (with_log writer_commit s')))"
      unfolding stop_all_def by (intro started retired written) (simp_all add: s')
    with Inl r show ?thesis by simp
  next
    case (Inr c)
    with 2(1) [OF r [symmetric] Inr s'] r show ?thesis by simp
  qed
qed simp

end

section \<open>The state of the manager\<close>

lemma inv_start_proxies:
  "start_proxies ps s = (r, ps', s') \<Longrightarrow> quiet s s' \<and> map rm_id ps' = map rm_id ps \<and>
    (list_all (\<lambda>p. list_all (\<lambda>i. in_id i = rm_id p) (rm_instances p)) ps \<longrightarrow>
     list_all (\<lambda>p. list_all (\<lambda>i. in_id i = rm_id p) (rm_instances p)) ps')"
proof (induction ps arbitrary: s r ps' s')
  case (Cons p ps)
  obtain r1 p1 s1 where u: "update_instances p s = (r1, p1, s1)" by (metis prod_cases3)
  obtain r2 ps2 s2 where n: "start_proxies ps s1 = (r2, ps2, s2)" by (metis prod_cases3)
  note q = quiet_update_instances [OF u]
  from q Cons.IH [OF n] Cons.prems u n show ?case
    by (auto intro: quiet_trans split: sum.splits)
qed auto

lemma inv_start_instances: "tm_inv s \<Longrightarrow> tm_inv (snd (start_instances s))"
proof -
  assume inv: "tm_inv s"
  obtain r ps s' where st: "start_proxies (tm_resources s) s = (r, ps, s')" by (metis prod_cases3)
  note q = inv_start_proxies [OF st]
  from q inv have "known (s'\<lparr>tm_resources := ps\<rparr>) = known s" by (simp add: known_def)
  with q inv st show ?thesis
    by (simp add: start_instances_def tm_inv_def quiet_def own_instances_def)
qed

lemma quiet_blocking_send: "quiet s (snd (tm_blocking_send q m s))"
  by (simp add: tm_blocking_send_def Let_def quiet_def known_def own_instances_def)

interpretation state: manager_cycle tm_inv
proof
  fix s rm P and g :: "rm_instance \<Rightarrow> rm_instance"
  assume "tm_inv s" "\<And>i. in_id (g i) = in_id i"
  then show "tm_inv (on_instance rm P g s)" using inv_quiet quiet_on_instance by blast
next
  fix s assume inv: "tm_inv s"
  have "quiet s (s\<lparr>tm_resources := map (\<lambda>p. p\<lparr>rm_concurency := 0\<rparr>) (tm_resources s)\<rparr>)"
    by (simp add: quiet_def known_def own_instances_def list_all_iff comp_def)
  with inv show "tm_inv (s\<lparr>tm_resources := map (\<lambda>p. p\<lparr>rm_concurency := 0\<rparr>) (tm_resources s)\<rparr>)"
    using inv_quiet by blast
qed (auto intro: wf_intros inv_start_instances inv_quiet quiet_now quiet_blocking_send quiet_flush_replies
    simp: with_log_def)

section \<open>Reachable states\<close>

definition tm_initial :: "process_handle \<Rightarrow> int \<Rightarrow> tm_log \<Rightarrow> push_outcome list \<Rightarrow> int list \<Rightarrow> int list \<Rightarrow> tm_state" where
  "tm_initial self broker l pushes clock pids =
     \<lparr>tm_switches = [], tm_resources = [], tm_transactions = [], tm_replies = [], tm_pending = [],
      tm_requests = [], tm_log_state = l, tm_self = self, tm_broker = broker, tm_sent = [],
      tm_push = pushes, tm_clock = clock, tm_pids = pids, tm_killed = []\<rparr>"

inductive tm_reach :: "tm_state \<Rightarrow> bool" where
  reach_configured: "tm_configure switches config (tm_initial self broker l pushes clock pids) = Some s \<Longrightarrow> tm_reach s"
| reach_booted: "tm_reach s \<Longrightarrow> manager_boot evs s = (r, s') \<Longrightarrow> tm_reach s'"
| reach_round: "tm_reach s \<Longrightarrow> pump_round first polls connected s = (r, s') \<Longrightarrow> tm_reach s'"

inductive_cases tm_reachE: "tm_reach s"

lemma inv_configured: "tm_configure sw cfg (tm_initial self broker l pushes clock pids) = Some s \<Longrightarrow> tm_inv s"
  by (auto simp: tm_configure_def tm_initial_def tm_inv_def tx_distinct_def requests_ok_def
      own_instances_def transform_resource_def list_all_iff split: if_splits)

lemma reach_inv: "tm_reach s \<Longrightarrow> tm_inv s"
proof (induction rule: tm_reach.induct)
  case (reach_configured switches config self broker l pushes clock pids s)
  then show ?case by (rule inv_configured)
next
  case (reach_booted s evs r s')
  with state.manager_boot [OF reach_booted.IH, of evs] show ?case by simp
next
  case (reach_round s first polls connected r s')
  with state.pump_round [OF reach_round.IH, of first polls connected] show ?case by simp
qed

end
