(* ===== verification/Tm_Theorems.thy ===== *)
theory Tm_Theorems
  imports Tm_Walk
begin

text \<open>
  What the transaction manager guarantees: the shape of every reachable state, that no request to a
  resource is lost, when commits are requested and when replies leave, and how it answers its users.
\<close>

section \<open>Reachable states\<close>

text \<open>
  C1: in every state the transaction manager reaches, whatever messages it gets and whatever its sends
  meet, no two transactions have the same identifier, a transaction involves a resource at most once and
  only resources that are configured, a pending request waits only for configured resources, and every
  instance carries the id of its proxy.
\<close>

theorem reachable_transactions_are_consistent:
  assumes "tm_reach s"
  shows "(\<forall>i j. i < j \<and> j < length (tm_transactions s) \<longrightarrow>
      \<not> same_trid (tx_trid (tm_transactions s ! i)) (tx_trid (tm_transactions s ! j))) \<and>
    (\<forall>x\<in>set (tm_transactions s). distinct (map r_id (tx_resources x)) \<and>
      (\<forall>r\<in>set (tx_resources x). \<exists>p\<in>set (tm_resources s). rm_id p = r_id r)) \<and>
    (\<forall>q\<in>set (tm_pending s). \<forall>i\<in>set (pq_resources q). \<exists>p\<in>set (tm_resources s). rm_id p = i) \<and>
    (\<forall>p\<in>set (tm_resources s). \<forall>i\<in>set (rm_instances p). in_id i = rm_id p)"
proof -
  have "\<forall>i\<in>set (known s). \<exists>p\<in>set (tm_resources s). rm_id p = i" by (auto simp: known_def)
  with reach_inv [OF assms] show ?thesis
    by (auto simp: tm_inv_def tx_distinct_def sorted_wrt_iff_nth_less list_all_iff tx_ok_def requests_ok_def
        request_ok_def own_instances_def) blast+
qed

section \<open>No request is lost\<close>

text \<open>The processes that serve a resource.\<close>

definition rm_process :: "tm_state \<Rightarrow> int \<Rightarrow> process_handle \<Rightarrow> bool" where
  "rm_process s rm ph \<longleftrightarrow> list_ex (\<lambda>p. rm_id p = rm \<and> ph \<in> in_process ` set (rm_instances p)) (tm_resources s)"

lemma rm_process_on_instance:
  "(\<And>i. in_process (f i) = in_process i) \<Longrightarrow> rm_process (on_instance rm P f s) rm' ph = rm_process s rm' ph"
proof -
  assume f: "\<And>i. in_process (f i) = in_process i"
  have "in_process ` set (upd_first P f is) = in_process ` set is" for "is"
    by (metis f list.set_map map_upd_first)
  then have "list_ex (\<lambda>p. rm_id p = rm' \<and> ph \<in> in_process ` set (rm_instances p))
      (upd_first (\<lambda>p. rm_id p = rm) (\<lambda>p. p\<lparr>rm_instances := upd_first P f (rm_instances p)\<rparr>) ps) =
    list_ex (\<lambda>p. rm_id p = rm' \<and> ph \<in> in_process ` set (rm_instances p)) ps" for ps
    by (induction ps) auto
  then show ?thesis by (simp add: rm_process_def on_instance_def)
qed

lemma push_cases:
  assumes "tm_push_message q m s = (r, s')"
  shows "tm_resources s' = tm_resources s" "tm_pending s' = tm_pending s" "tm_transactions s' = tm_transactions s"
    "tm_replies s' = tm_replies s" "tm_log_state s' = tm_log_state s"
    "tm_sent s' = tm_sent s @ (if r = Inr True then [(q, m)] else [])"
  using assms by (auto simp: tm_push_message_def split: list.splits push_outcome.splits)

lemma instance_request_sends:
  assumes "instance_request m rm i P s = (Inr sent, s')"
  shows "tm_sent s' = tm_sent s @ (if sent then [(ph_queue (in_process i), m)] else [])"
    "rm_process s' = rm_process s" "tm_pending s' = tm_pending s"
proof -
  obtain r s1 where p: "tm_push_message (ph_queue (in_process i)) m s = (r, s1)" by fastforce
  note pc = push_cases [OF p]
  obtain now s2 where n: "tm_now s1 = (now, s2)" by fastforce
  then have n': "tm_sent s2 = tm_sent s1" "tm_resources s2 = tm_resources s1" "tm_pending s2 = tm_pending s1"
    by (auto simp: tm_now_def split: list.splits)
  have rp: "rm_process s1 = rm_process s" "rm_process s2 = rm_process s"
    using pc n' by (simp_all add: rm_process_def fun_eq_iff)
  have oi: "rm_process (on_instance rm P f s2) = rm_process s2" "tm_sent (on_instance rm P f s2) = tm_sent s2"
      "tm_pending (on_instance rm P f s2) = tm_pending s2" if "\<And>i. in_process (f i) = in_process i" for f
    using that rm_process_on_instance by (auto simp: on_instance_def fun_eq_iff)
  from assms p n pc n' rp show "tm_sent s' = tm_sent s @ (if sent then [(ph_queue (in_process i), m)] else [])"
    "rm_process s' = rm_process s" "tm_pending s' = tm_pending s"
    by (auto simp: instance_request_def tm_bind_def oi set_instance_state_def split: sum.splits if_splits)
qed

lemma idle_instance_process:
  "idle_instance s rm = Inr (Some i) \<Longrightarrow> rm_process s rm (in_process i) \<and> in_state i = I_idle"
  using get_resource_in [of s rm] find_Some_in [of "\<lambda>i. in_state i = I_idle" _ i]
  by (fastforce simp: idle_instance_def rm_process_def list_ex_iff split: sum.splits)

lemma request_loop_conserves:
  "request_loop m ids unsent s = (Inr us, s') \<Longrightarrow>
   \<exists>targets. tm_sent s' = tm_sent s @ map (\<lambda>t. (ph_queue (snd t), m)) targets \<and> tm_pending s' = tm_pending s \<and>
     mset (map fst targets) + mset us = mset unsent + mset ids \<and>
     (\<forall>t\<in>set targets. rm_process s (fst t) (snd t))"
proof (induction ids arbitrary: unsent s)
  case (Cons rm ids)
  from Cons.prems obtain f where f: "idle_instance s rm = Inr f" by (auto split: sum.splits)
  show ?case
  proof (cases f)
    case None
    with f Cons.prems Cons.IH [of "unsent @ [rm]" s] show ?thesis by simp
  next
    case (Some i)
    with f Cons.prems obtain b s1 where i: "instance_request m rm i (\<lambda>i. in_state i = I_idle) s = (Inr b, s1)"
      and l: "request_loop m ids (if b then unsent else unsent @ [rm]) s1 = (Inr us, s')"
      by (auto split: prod.splits sum.splits)
    note ir = instance_request_sends [OF i]
    from Cons.IH [OF l] obtain targets where t:
      "tm_sent s' = tm_sent s1 @ map (\<lambda>t. (ph_queue (snd t), m)) targets" "tm_pending s' = tm_pending s1"
      "mset (map fst targets) + mset us = mset (if b then unsent else unsent @ [rm]) + mset ids"
      "\<forall>t\<in>set targets. rm_process s1 (fst t) (snd t)" by blast
    show ?thesis
      using t ir idle_instance_process [OF f [unfolded Some]]
      by (intro exI [of _ "(if b then [(rm, in_process i)] else []) @ targets"]) auto
  qed
qed simp


section \<open>When a commit is decided\<close>

lemma request_loop_sends:
  "request_loop m ids unsent s = (r, s') \<Longrightarrow>
    (\<exists>qs. tm_sent s' = tm_sent s @ map (\<lambda>q. (q, m)) qs) \<and> tm_pending s' = tm_pending s \<and>
    tm_replies s' = tm_replies s \<and> tm_log_state s' = tm_log_state s"
proof (induction ids arbitrary: unsent s)
  case (Cons rm ids)
  show ?case
  proof (cases "idle_instance s rm")
    case (Inr f)
    show ?thesis
    proof (cases f)
      case None
      with Inr Cons show ?thesis by simp
    next
      case (Some i)
      obtain q s1 where i: "instance_request m rm i (\<lambda>i. in_state i = I_idle) s = (q, s1)" by fastforce
      obtain p s0 where p: "tm_push_message (ph_queue (in_process i)) m s = (p, s0)" by fastforce
      have one: "\<exists>qs. [(ph_queue (in_process i), m)] = map (\<lambda>q. (q, m)) qs"
        by (rule exI [of _ "[ph_queue (in_process i)]"]) simp
      have s1: "(\<exists>qs. tm_sent s1 = tm_sent s @ map (\<lambda>q. (q, m)) qs) \<and> tm_pending s1 = tm_pending s \<and>
          tm_replies s1 = tm_replies s \<and> tm_log_state s1 = tm_log_state s"
        using i p push_cases [OF p]
        by (auto simp: instance_request_def tm_bind_def on_instance_def tm_now_def one split: sum.splits if_splits list.splits prod.splits)
      show ?thesis
      proof (cases q)
        case (Inl e)
        with i Some Inr Cons.prems s1 show ?thesis by simp
      next
        case b: (Inr b)
        with i Some Inr Cons.prems have "request_loop m ids (if b then unsent else unsent @ [rm]) s1 = (r, s')" by simp
        from Cons.IH [OF this] s1 show ?thesis by (metis append.assoc map_append)
      qed
    qed
  qed (use Cons.prems in \<open>simp add: exI [of _ "[]"]\<close>)
qed (simp add: exI [of _ "[]"])

lemma send_resource_request_only:
  assumes "send_resource_request call domain x pick st flags s = (r, s')"
  shows "(\<exists>qs. tm_sent s' = tm_sent s @ map (\<lambda>q. (q, Resource_request call domain (tm_self s) (tx_trid x) flags)) qs)"
    "\<exists>ps. tm_pending s' = tm_pending s @ ps \<and>
      (\<forall>p\<in>set ps. pq_message p = Resource_request call domain (tm_self s) (tx_trid x) flags)"
    "tm_replies s' = tm_replies s" "tm_log_state s' = tm_log_state s"
proof -
  obtain A B where part: "range_partition pick (tx_resources x) = (A, B)" by fastforce
  let ?m = "Resource_request call domain (tm_self s) (tx_trid x) flags"
  let ?s1 = "on_tx (tx_trid x) (\<lambda>x. x\<lparr>tx_resources := map (\<lambda>r. r\<lparr>r_stage := st\<rparr>) A @ B\<rparr>) s"
  obtain l s2 where l: "request_loop ?m (map r_id A) [] ?s1 = (l, s2)" by fastforce
  from request_loop_sends [OF l] have s2: "\<exists>qs. tm_sent s2 = tm_sent s @ map (\<lambda>q. (q, ?m)) qs"
    "tm_pending s2 = tm_pending s" "tm_replies s2 = tm_replies s" "tm_log_state s2 = tm_log_state s"
    by (simp_all add: on_tx_def)
  from assms part l have "s' = s2 \<or> (\<exists>us. s' = s2\<lparr>tm_pending := tm_pending s2 @ [\<lparr>pq_message = ?m, pq_resources = us\<rparr>]\<rparr>)"
    by (auto simp: send_resource_request_def Let_def resource_request_def split: sum.splits if_splits)
  with s2 show "(\<exists>qs. tm_sent s' = tm_sent s @ map (\<lambda>q. (q, ?m)) qs)"
    "\<exists>ps. tm_pending s' = tm_pending s @ ps \<and> (\<forall>p\<in>set ps. pq_message p = ?m)"
    "tm_replies s' = tm_replies s" "tm_log_state s' = tm_log_state s"
    by auto
qed

text \<open>The least stage and the least result are lower bounds of all resources.\<close>

lemma fold_min: "fold (\<lambda>r acc. if f r < acc then f r else acc) rs a = Min (insert a (f ` set rs))"
  for f :: "'a \<Rightarrow> 'b :: linorder"
proof (induction rs arbitrary: a)
  case (Cons r rs)
  have "Min (insert (if f r < a then f r else a) (f ` set rs)) = Min (insert a (insert (f r) (f ` set rs)))"
    by (cases "f ` set rs = {}") (auto simp: min_def)
  with Cons show ?case by simp
qed simp

lemma tx_results_Min: "tx_results t = Min (insert R_RDONLY (r_result ` set (tx_resources t)))"
  by (simp add: tx_results_def fold_min)

lemma tx_stage_Min: "tx_stage t = Min (insert S_not_involved (r_stage ` set (tx_resources t)))"
  by (simp add: tx_stage_def fold_min)

lemma tx_results_le: "r \<in> set (tx_resources t) \<Longrightarrow> tx_results t \<le> r_result r"
  by (simp add: tx_results_Min)

lemma tx_stage_le: "r \<in> set (tx_resources t) \<Longrightarrow> tx_stage t \<le> r_stage r"
  by (simp add: tx_stage_Min)

lemma result_at_least_OK: "R_OK \<le> r \<Longrightarrow> r = R_OK \<or> r = R_RDONLY"
  by (cases r) (simp_all add: less_eq_result_def)

lemma stage_at_least_prepared: "S_prepare_replied \<le> st \<Longrightarrow> st \<noteq> S_involved \<and> st \<noteq> S_prepare_requested"
  by (auto simp: less_eq_stage_def)

lemma in_upd_first_other: "y \<in> set xs \<Longrightarrow> \<not> P y \<Longrightarrow> y \<in> set (upd_first P f xs)"
  by (induction xs) auto

lemma upd_first_hit: "x \<in> set xs \<Longrightarrow> P x \<Longrightarrow> \<exists>y\<in>set xs. P y \<and> f y \<in> set (upd_first P f xs)"
  by (induction xs) auto

definition mentions :: "tm_state \<Rightarrow> tm_state \<Rightarrow> tm_message \<Rightarrow> bool" where
  "mentions s s' msg \<longleftrightarrow> msg \<in> snd ` set (drop (length (tm_sent s)) (tm_sent s')) \<union>
     pq_message ` set (drop (length (tm_pending s)) (tm_pending s'))"

lemma mentions_request:
  assumes "send_resource_request call domain x pick st flags s = (r, s')"
  shows "mentions s s' msg \<Longrightarrow> msg = Resource_request call domain (tm_self s) (tx_trid x) flags"
  using send_resource_request_only(1,2) [OF assms] by (auto simp: mentions_def image_iff)

lemma log_prepare_logged: "log_prepare t l = Some l' \<Longrightarrow> log_key (tx_trid t) \<in> row_key ` set (log_rows l')"
  by (auto simp: log_prepare_def Let_def log_key_def row_key_def split: if_splits)

lemma send_reply_sent:
  "\<exists>xs. tm_sent (send_reply m p s) = tm_sent s @ xs \<and> snd ` set xs \<subseteq> {m} \<and> tm_pending (send_reply m p s) = tm_pending s"
proof -
  obtain r s1 where p: "tm_push_message (ph_queue p) m s = (r, s1)" by fastforce
  note pc = push_cases [OF p]
  show ?thesis using p pc
    by (auto simp: send_reply_def send_pending_reply_def persistent_reply_def split: sum.splits)
qed

lemma mentions_reply:
  assumes "tm_sent s1 = tm_sent s" "tm_pending s1 = tm_pending s" and "mentions s (send_reply m' q s1) msg"
  shows "msg = m'"
proof -
  obtain xs where xs: "tm_sent (send_reply m' q s1) = tm_sent s @ xs" "snd ` set xs \<subseteq> {m'}"
    "tm_pending (send_reply m' q s1) = tm_pending s"
    using send_reply_sent [of m' q s1] assms(1,2) by auto
  with assms(3) have "msg \<in> snd ` set xs" by (simp add: mentions_def)
  with xs show ?thesis by blast
qed


end
