(* ===== verification/Tm_Replies.thy ===== *)
theory Tm_Replies
  imports Tm_Theorems
begin

text \<open>
  When replies leave the transaction manager: the reply that a transaction is prepared waits for the
  write of the log, and the backlog of replies is neither lost nor sent twice.
\<close>

section \<open>What a step sends\<close>

text \<open>
  The step sends messages of any kind but the reply that the transaction is prepared, and leaves the
  database transaction of the log as it is.
\<close>

definition begun :: "tm_state \<Rightarrow> bool" where
  "begun s = log_begun (tm_log_state s)"

definition discreet :: "tm_state \<Rightarrow> tm_state \<Rightarrow> bool" where
  "discreet s s' \<longleftrightarrow> (\<exists>xs. tm_sent s' = tm_sent s @ xs \<and> (\<forall>x\<in>set xs. \<not> prepared_reply (snd x))) \<and> begun s' = begun s"

lemma begun_simps [simp]:
  "begun (on_tx t f s) = begun s" "begun (erase_tx t s) = begun s" "begun (add_tx t s) = begun s"
  "begun (on_instance rm P g s) = begun s" "begun (persistent_reply m p s) = begun s"
  "begun (put_proxy q s) = begun s" "begun (handle_involved t ids s) = begun s"
  "begun (s\<lparr>tm_pending := b\<rparr>) = begun s" "begun (s\<lparr>tm_replies := c\<rparr>) = begun s"
  "begun (s\<lparr>tm_requests := d\<rparr>) = begun s" "begun (s\<lparr>tm_resources := e\<rparr>) = begun s"
  "begun (s\<lparr>tm_pids := k\<rparr>) = begun s" "begun (s\<lparr>tm_killed := k\<rparr>) = begun s"
  "begun (s\<lparr>tm_log_state := l\<rparr>) = log_begun l"
  by (simp_all add: begun_def on_tx_def erase_tx_def add_tx_def on_instance_def persistent_reply_def
      put_proxy_def handle_involved_def Let_def)

lemma log_begun_remove [simp]: "log_begun (log_remove t l) = log_begun l"
  by (simp add: log_remove_def)

lemma log_prepare_begun: "log_prepare t l = Some l' \<Longrightarrow> log_begun l' = log_begun l"
  by (auto simp: log_prepare_def Let_def split: if_splits)

lemma begun_send_reply [simp]: "begun (send_reply m p s) = begun s"
  using quiet_send_reply [of s m p] by (simp add: begun_def quiet_def)

lemma begun_push: "tm_push_message q m s = (r, s') \<Longrightarrow> begun s' = begun s"
  using push_cases(5) [of q m s r s'] by (simp add: begun_def)

lemma begun_now: "begun (snd (tm_now s)) = begun s"
  by (simp add: begun_def tm_now_def split: list.split)

lemma begun_request: "send_resource_request call domain x pick st flags s = (r, s') \<Longrightarrow> begun s' = begun s"
  using send_resource_request_only(4) [of call domain x pick st flags s r s'] by (simp add: begun_def)

lemma begun_blocking_send: "begun (snd (tm_blocking_send q m s)) = begun s"
  by (simp add: begun_def tm_blocking_send_def Let_def)

text \<open>From here on the flag is read through \<open>begun\<close>.\<close>

lemma begun_fold [simp]: "log_begun (tm_log_state s) = begun s"
  by (simp add: begun_def)

lemma discreet_same: "tm_sent s' = tm_sent s \<Longrightarrow> begun s' = begun s \<Longrightarrow> discreet s s'"
  by (simp add: discreet_def)

lemma discreet_trans: "discreet s t \<Longrightarrow> discreet t u \<Longrightarrow> discreet s u"
  unfolding discreet_def by fastforce

lemma discreet_push: "\<not> prepared_reply m \<Longrightarrow> tm_push_message q m s = (r, s') \<Longrightarrow> discreet s s'"
  using push_cases(6) [of q m s r s'] begun_push by (simp add: discreet_def)

lemma discreet_send_reply:
  "\<not> prepared_reply m \<Longrightarrow> tm_sent s1 = tm_sent s \<Longrightarrow> begun s1 = begun s \<Longrightarrow> discreet s (send_reply m p s1)"
  using send_reply_sent [of m p s1] by (force simp: discreet_def)

lemma discreet_request:
  "send_resource_request call domain x pick st flags s = (r, s') \<Longrightarrow> discreet s s'"
  using send_resource_request_only(1) [of call domain x pick st flags s r s'] begun_request by (auto simp: discreet_def)

lemma discreet_request_snd:
  "tm_sent s1 = tm_sent s \<Longrightarrow> begun s1 = begun s \<Longrightarrow>
    discreet s (snd (send_resource_request call domain x pick st flags s1))"
  using discreet_request [of call domain x pick st flags s1] discreet_same discreet_trans
  by (metis prod.collapse)

lemma sent_simps [simp]:
  "tm_sent (on_tx t f s) = tm_sent s" "tm_sent (erase_tx t s) = tm_sent s" "tm_sent (add_tx t s) = tm_sent s"
  "tm_sent (on_instance rm P g s) = tm_sent s" "tm_sent (persistent_reply m p s) = tm_sent s"
  "tm_sent (put_proxy q s) = tm_sent s" "tm_sent (with_log l s) = tm_sent s"
  "tm_sent (handle_involved t ids s) = tm_sent s"
  by (simp_all add: on_tx_def erase_tx_def add_tx_def on_instance_def persistent_reply_def put_proxy_def
      with_log_def handle_involved_def Let_def)

lemma discreet_simps [simp]:
  "discreet s (t\<lparr>tm_pending := b\<rparr>) = discreet s t"
  "discreet s (t\<lparr>tm_replies := c\<rparr>) = discreet s t" "discreet s (t\<lparr>tm_requests := d\<rparr>) = discreet s t"
  "discreet s (t\<lparr>tm_resources := e\<rparr>) = discreet s t" "discreet s (t\<lparr>tm_pids := p\<rparr>) = discreet s t"
  "discreet s (on_tx tr f t) = discreet s t" "discreet s (erase_tx tr t) = discreet s t"
  "discreet s (on_instance rm P g t) = discreet s t" "discreet s (add_tx tr t) = discreet s t" "discreet s (put_proxy q t) = discreet s t"
  "discreet s (persistent_reply m ph t) = discreet s t"
  "log_begun l = begun t \<Longrightarrow> discreet s (t\<lparr>tm_log_state := l\<rparr>) = discreet s t"
  by (simp_all add: discreet_def)

lemma discreet_now: "tm_now s = (t, s') \<Longrightarrow> discreet s s'"
  using begun_now [of s] by (auto simp: tm_now_def discreet_def split: list.splits)

lemma discreet_instance_done: "tm_inv s \<Longrightarrow> instance_done rm pid i s = (r, s') \<Longrightarrow> discreet s s'"
proof -
  assume inv: "tm_inv s" and d: "instance_done rm pid i s = (r, s')"
  let ?s1 = "on_instance rm (has_pid pid) (set_instance_state I_idle) s"
  show ?thesis
  proof (cases "find (waits_for (in_id i)) (tm_pending s)")
    case None
    with d show ?thesis by (auto simp: instance_done_def Let_def discreet_same)
  next
    case (Some q)
    with inv find_Some_in [OF Some] have "is_request (pq_message q)"
      by (auto simp: tm_inv_def requests_ok_def request_ok_def list_all_iff)
    then have np: "\<not> prepared_reply (pq_message q)" by (cases "pq_message q") simp_all
    obtain b s2 where p: "tm_push_message (ph_queue (in_process i)) (pq_message q) ?s1 = (b, s2)" by fastforce
    have "discreet s s2" using discreet_push [OF np p] by (simp add: discreet_def)
    with d Some p show ?thesis by (auto simp: instance_done_def Let_def split: sum.splits if_splits)
  qed
qed

lemma discreet_spawn: "spawn_instances n p s = (r, p', s') \<Longrightarrow> discreet s s'"
proof (induction n arbitrary: p s)
  case (Suc n)
  then show ?case
    by (fastforce simp: tm_spawn_def discreet_def split: if_splits list.splits)
qed (simp add: discreet_same)

lemma discreet_stop: "stop_instance i s = (r, i', s') \<Longrightarrow> discreet s s'"
proof -
  assume st: "stop_instance i s = (r, i', s')"
  obtain q s1 where p: "tm_push_message (ph_queue (in_process i)) Shutdown_request s = (q, s1)" by fastforce
  have "discreet s s1" using discreet_push [OF _ p] by simp
  moreover have "discreet s (s\<lparr>tm_killed := k\<rparr>)" for k by (simp add: discreet_def)
  ultimately show ?thesis using st p
    by (auto simp: stop_instance_def discreet_same split: if_splits sum.splits)
qed

lemma discreet_stop_all: "stop_instances is s = (r, is', s') \<Longrightarrow> discreet s s'"
proof (induction "is" arbitrary: s r is')
  case (Cons i "is")
  obtain r1 i1 s1 where i1: "stop_instance i s = (r1, i1, s1)" by (metis prod_cases3)
  obtain r2 is2 s2 where is2: "stop_instances is s1 = (r2, is2, s2)" by (metis prod_cases3)
  from Cons.IH is2 discreet_stop [OF i1] Cons.prems i1 show ?case
    by (auto intro: discreet_trans split: sum.splits)
qed (simp add: discreet_same)

lemma discreet_update: "update_instances p s = (r, p', s') \<Longrightarrow> discreet s s'"
  by (auto simp: update_instances_def Let_def dest: discreet_spawn discreet_stop_all split: if_splits prod.splits)

lemma discreet_directives: "discreet s (snd (apply_directives ds s))"
proof (induction ds arbitrary: s)
  case (Cons d ds)
  obtain rm n where d: "d = (rm, n)" by fastforce
  show ?case
  proof (cases "get_resource s rm")
    case (Inl e)
    with Cons d show ?thesis by (simp add: discreet_same)
  next
    case (Inr p)
    obtain r p' s' where u: "update_instances (p\<lparr>rm_concurency := n\<rparr>) s = (r, p', s')" by (metis prod_cases3)
    from discreet_update [OF u] have 1: "discreet s (put_proxy p' s')" by simp
    from Cons.IH [of "put_proxy p' s'"] have 2: "discreet s (snd (apply_directives ds (put_proxy p' s')))"
      using 1 discreet_trans by blast
    with 1 Inr u d show ?thesis by (auto split: sum.split prod.splits)
  qed
qed (simp add: discreet_same)

lemma discreet_blocking_send: "\<not> prepared_reply m \<Longrightarrow> discreet s (snd (tm_blocking_send q m s))"
  using begun_blocking_send [of q m s] by (simp add: tm_blocking_send_def Let_def discreet_def)

text \<open>So every handler and the loop of the pump are discreet.\<close>

interpretation discreet: manager_invariant "\<lambda>s. tm_inv s \<and> discreet s0 s" for s0
proof
  fix s call domain x pick st flags
  assume "tm_inv s \<and> discreet s0 s" "tx_ok (known s) x"
  then show "tm_inv (snd (send_resource_request call domain x pick st flags s)) \<and>
      discreet s0 (snd (send_resource_request call domain x pick st flags s))"
    using inv_send_resource_request discreet_trans [OF _ discreet_request_snd [OF refl refl]] by blast
next
  fix s rm pid i
  assume s: "tm_inv s \<and> discreet s0 s"
  obtain r s' where d: "instance_done rm pid i s = (r, s')" by fastforce
  with s discreet_trans discreet_instance_done [OF _ d] inv_instance_done [of s rm pid i]
  show "tm_inv (snd (instance_done rm pid i s)) \<and> discreet s0 (snd (instance_done rm pid i s))" by auto
next
  fix s m p
  assume "tm_inv s \<and> discreet s0 s" "\<not> prepared_reply m"
  then show "tm_inv (send_reply m p s) \<and> discreet s0 (send_reply m p s)"
    using inv_send_reply discreet_trans [OF _ discreet_send_reply [OF _ refl refl]] by blast
next
  fix s
  assume s: "tm_inv s \<and> discreet s0 s"
  obtain t s' where n: "tm_now s = (t, s')" by fastforce
  with s discreet_trans discreet_now [OF n] state.now [of s]
  show "tm_inv (snd (tm_now s)) \<and> discreet s0 (snd (tm_now s))" by auto
next
  fix s q p
  assume "tm_inv s \<and> discreet s0 s"
  then show "tm_inv (snd (tm_blocking_send q (Tm_ready p) s)) \<and> discreet s0 (snd (tm_blocking_send q (Tm_ready p) s))"
    using state.ready discreet_trans [OF _ discreet_blocking_send] by auto
next
  fix s ds
  assume "tm_inv s \<and> discreet s0 s"
  then show "tm_inv (snd (insances ds s)) \<and> discreet s0 (snd (insances ds s))"
    using inv_insances discreet_trans discreet_directives unfolding insances_def by blast
next
  fix s x l
  assume "tm_inv s \<and> discreet s0 s" "log_prepare x (tm_log_state s) = Some l"
  then show "tm_inv (s\<lparr>tm_log_state := l\<rparr>) \<and> discreet s0 (s\<lparr>tm_log_state := l\<rparr>)"
    using log_prepare_begun by (simp add: inv_log)
qed (auto intro: wf_intros state.on_instance discreet_trans discreet_same)

section \<open>The log is written first\<close>

lemma flush_replies_log: "flush_replies s = (r, s') \<Longrightarrow> tm_log_state s' = tm_log_state s"
proof -
  assume run: "flush_replies s = (r, s')"
  obtain q xs s1 where f: "send_partition negated_send_reply (tm_replies s) s = (q, xs, s1)" by (metis prod_cases3)
  have p: "tm_log_state t' = tm_log_state s \<and> True"
    if "negated_send_reply x t = (b, x', t')" "tm_log_state t = tm_log_state s" for x t b x' t'
    using that quiet_send_pending_reply [of t x] by (auto simp: negated_send_reply_def quiet_def split: prod.splits)
  have "tm_log_state s1 = tm_log_state s"
    by (rule send_partition_keeps(1) [where I = "\<lambda>t. tm_log_state t = tm_log_state s" and E = "\<lambda>_. True", OF _ f])
      (use p in \<open>auto simp: list_all_iff\<close>)
  with run f show ?thesis by (auto simp: flush_replies_def split: sum.splits)
qed

lemma flush_requests_log: "flush_requests s = (r, s') \<Longrightarrow> tm_log_state s' = tm_log_state s"
proof -
  assume run: "flush_requests s = (r, s')"
  obtain q xs s1 where f: "send_partition negated_send_request (tm_requests s) s = (q, xs, s1)" by (metis prod_cases3)
  have p: "tm_log_state t' = tm_log_state s \<and> True"
    if n: "negated_send_request x t = (b, x', t')" and l: "tm_log_state t = tm_log_state s" for x t b x' t'
  proof -
    obtain b1 where "resource_request x t = (b1, x', t')"
      using n by (auto simp: negated_send_request_def split: prod.splits sum.splits)
    from quiet_resource_request(1) [OF this] l show ?thesis by (simp add: quiet_def)
  qed
  have "tm_log_state s1 = tm_log_state s"
    by (rule send_partition_keeps(1) [where I = "\<lambda>t. tm_log_state t = tm_log_state s" and E = "\<lambda>_. True", OF _ f])
      (use p in \<open>auto simp: list_all_iff\<close>)
  with run f show ?thesis by (auto simp: flush_requests_def split: sum.splits)
qed

lemma flush_log:
  assumes run: "flush s = (r, s')"
  shows "s' = s \<or> tm_log_state s' = writer_commit (tm_log_state s)"
proof -
  obtain r1 s1 where f: "flush_replies (with_log writer_commit s) = (r1, s1)" by fastforce
  obtain r2 s2 where g: "flush_requests s1 = (r2, s2)" by fastforce
  from flush_replies_log [OF f] flush_requests_log [OF g] run f g show ?thesis
    by (auto simp: flush_def tm_bind_def with_log_def split: if_splits sum.splits)
qed


section \<open>The backlog of replies\<close>

abbreviation reply_sent :: "pending_reply \<Rightarrow> int \<times> tm_message" where
  "reply_sent r \<equiv> (pr_target r, pr_message r)"

lemma negated_send_reply_cases:
  obtains (sent) s' where "negated_send_reply r s = (Inr False, r, s')" "tm_sent s' = tm_sent s @ [reply_sent r]"
      "set (tm_push s') \<subseteq> set (tm_push s)"
  | (full) s' where "negated_send_reply r s = (Inr True, r, s')" "tm_sent s' = tm_sent s" "set (tm_push s') \<subseteq> set (tm_push s)"
  | (gone) s' where "negated_send_reply r s = (Inr False, r, s')" "tm_sent s' = tm_sent s"
      "set (tm_push s') \<subseteq> set (tm_push s)" "Push_unavailable \<in> set (tm_push s)"
proof (cases "tm_push s")
  case Nil
  with sent show ?thesis by (simp add: negated_send_reply_def send_pending_reply_def tm_push_message_def)
next
  case (Cons a os)
  note defs = negated_send_reply_def send_pending_reply_def tm_push_message_def
  show ?thesis
  proof (cases a)
    case Push_sent
    with Cons sent show ?thesis by (force simp: defs)
  next
    case Push_full
    with Cons full show ?thesis by (force simp: defs)
  next
    case Push_unavailable
    with Cons gone show ?thesis by (force simp: defs)
  qed
qed

text \<open>One step of the loop: the element taken, and the loop on the rest.\<close>

lemma send_replies_step:
  assumes "M \<noteq> []"
  obtains x M' where "mset M = add_mset x (mset M')" "length M = Suc (length M')"
    "\<And>x' s'. negated_send_reply x s = (Inr True, x', s') \<Longrightarrow>
       send_from negated_send_reply L h M R s = (case h of None \<Rightarrow> send_from negated_send_reply (L @ [x']) None M' R s'
         | Some y \<Rightarrow> send_from negated_send_reply (L @ [x']) None M' (y # R) s')"
    "\<And>x' s'. negated_send_reply x s = (Inr False, x', s') \<Longrightarrow>
       send_from negated_send_reply L h M R s = (case h of None \<Rightarrow> send_from negated_send_reply L (Some x') M' R s'
         | Some y \<Rightarrow> send_from negated_send_reply L (Some y) M' (x' # R) s')"
proof (cases h)
  case None
  with assms that [of "hd M" "tl M"] show ?thesis by (cases M) auto
next
  case (Some y)
  obtain z M' where M: "M = M' @ [z]" using assms by (cases M rule: rev_cases) auto
  with Some that [of z M'] show ?thesis by (auto simp: send_from_snoc)
qed

lemma send_replies_conserve:
  "\<exists>A B sent dropped. fst (send_from negated_send_reply L h M R s) = Inr (A, B) \<and>
     tm_sent (snd (snd (send_from negated_send_reply L h M R s))) = tm_sent s @ map reply_sent sent \<and>
     mset A + mset sent + mset dropped = mset L + mset M \<and>
     (Push_unavailable \<notin> set (tm_push s) \<longrightarrow> dropped = [])"
proof (induction "length M" arbitrary: L h M R s)
  case 0
  then show ?case by (cases h) auto
next
  case (Suc n)
  then have "M \<noteq> []" by auto
  then obtain x M' where M: "mset M = add_mset x (mset M')" "length M = Suc (length M')"
    and t: "\<And>x' s'. negated_send_reply x s = (Inr True, x', s') \<Longrightarrow>
       send_from negated_send_reply L h M R s = (case h of None \<Rightarrow> send_from negated_send_reply (L @ [x']) None M' R s'
         | Some y \<Rightarrow> send_from negated_send_reply (L @ [x']) None M' (y # R) s')"
    and f: "\<And>x' s'. negated_send_reply x s = (Inr False, x', s') \<Longrightarrow>
       send_from negated_send_reply L h M R s = (case h of None \<Rightarrow> send_from negated_send_reply L (Some x') M' R s'
         | Some y \<Rightarrow> send_from negated_send_reply L (Some y) M' (x' # R) s')"
    by (rule send_replies_step [where L = L and h = h and R = R and s = s]) blast+
  from Suc(2) M(2) have n: "n = length M'" by simp
  note ih = Suc(1) [OF n]
  show ?case
  proof (cases rule: negated_send_reply_cases [of x s])
    case (sent s')
    obtain L' h' R' where e: "send_from negated_send_reply L h M R s = send_from negated_send_reply L' h' M' R' s'"
      "L' = L" using f [OF sent(1)] by (cases h) auto
    from ih [of L' h' R' s'] obtain A B snt dropped where
      "fst (send_from negated_send_reply L h M R s) = Inr (A, B)"
      "tm_sent (snd (snd (send_from negated_send_reply L h M R s))) = tm_sent s' @ map reply_sent snt"
      "mset A + mset snt + mset dropped = mset L + mset M'"
      "Push_unavailable \<notin> set (tm_push s') \<longrightarrow> dropped = []" unfolding e by blast
    moreover from this(4) sent(3) have "Push_unavailable \<notin> set (tm_push s) \<longrightarrow> dropped = []" by blast
    ultimately show ?thesis
      by (intro exI [of _ A] exI [of _ B] exI [of _ "x # snt"] exI [of _ dropped]) (simp add: sent(2) M(1) e(2))
  next
    case (full s')
    obtain h' R' where e: "send_from negated_send_reply L h M R s = send_from negated_send_reply (L @ [x]) h' M' R' s'"
      using t [OF full(1)] by (cases h) auto
    from ih [of "L @ [x]" h' R' s'] obtain A B snt dropped where
      "fst (send_from negated_send_reply L h M R s) = Inr (A, B)"
      "tm_sent (snd (snd (send_from negated_send_reply L h M R s))) = tm_sent s' @ map reply_sent snt"
      "mset A + mset snt + mset dropped = mset (L @ [x]) + mset M'"
      "Push_unavailable \<notin> set (tm_push s') \<longrightarrow> dropped = []" unfolding e by blast
    moreover from this(4) full(3) have "Push_unavailable \<notin> set (tm_push s) \<longrightarrow> dropped = []" by blast
    ultimately show ?thesis
      by (intro exI [of _ A] exI [of _ B] exI [of _ snt] exI [of _ dropped]) (simp add: full(2) M(1))
  next
    case (gone s')
    obtain L' h' R' where e: "send_from negated_send_reply L h M R s = send_from negated_send_reply L' h' M' R' s'"
      "L' = L" using f [OF gone(1)] by (cases h) auto
    from ih [of L' h' R' s'] obtain A B snt dropped where
      "fst (send_from negated_send_reply L h M R s) = Inr (A, B)"
      "tm_sent (snd (snd (send_from negated_send_reply L h M R s))) = tm_sent s' @ map reply_sent snt"
      "mset A + mset snt + mset dropped = mset L + mset M'" unfolding e by blast
    then show ?thesis
      by (intro exI [of _ A] exI [of _ B] exI [of _ snt] exI [of _ "x # dropped"]) (simp add: gone(2,4) M(1) e(2))
  qed
qed

text \<open>
  Sending the backlog of replies never fails, and conserves it: every reply is sent once, or stays
  in the backlog because its queue was full, or is dropped because its queue is gone; none is dropped as
  long as no queue is gone.
\<close>

lemma backlog_of_replies_is_conserved:
  "\<exists>s' sent dropped. flush_replies s = (Inr (), s') \<and>
     tm_sent s' = tm_sent s @ map (\<lambda>r. (pr_target r, pr_message r)) sent \<and>
     mset (tm_replies s') + mset sent + mset dropped = mset (tm_replies s) \<and>
     (Push_unavailable \<notin> set (tm_push s) \<longrightarrow> dropped = [])"
proof -
  obtain r xs s1 where p: "send_partition negated_send_reply (tm_replies s) s = (r, xs, s1)" by (metis prod_cases3)
  with send_replies_conserve [of "[]" None "tm_replies s" "[]" s] obtain A B sent dropped where
    "r = Inr (A, B)" "tm_sent s1 = tm_sent s @ map reply_sent sent"
    "mset A + mset sent + mset dropped = mset (tm_replies s)"
    "Push_unavailable \<notin> set (tm_push s) \<longrightarrow> dropped = []"
    by (auto simp: send_partition_def)
  with p show ?thesis by (auto simp: flush_replies_def)
qed

lemma push_always: "tm_push s = [] \<Longrightarrow> negated_send_reply r s = (Inr False, r, s\<lparr>tm_sent := tm_sent s @ [reply_sent r]\<rparr>)"
  by (simp add: negated_send_reply_def send_pending_reply_def tm_push_message_def)

lemma send_replies_reversed:
  "tm_push s = [] \<Longrightarrow> send_from negated_send_reply L (Some x) M R s =
    (Inr (L, x # M @ R), L @ x # M @ R, s\<lparr>tm_sent := tm_sent s @ map reply_sent (rev M)\<rparr>)"
  by (induction M arbitrary: R s rule: rev_induct) (simp_all add: send_from_snoc push_always)

text \<open>
  The order is not that of the backlog: the first reply leaves first, and the others leave in reverse.
  So of three waiting replies the last overtakes the second.
\<close>

lemma backlog_leaves_reversed:
  assumes "tm_push s = []" and "tm_replies s = r # rs"
  shows "flush_replies s = (Inr (), s\<lparr>tm_replies := [], tm_sent := tm_sent s @ map reply_sent (r # rev rs)\<rparr>)"
  using assms push_always [OF assms(1), of r]
    send_replies_reversed [of "s\<lparr>tm_sent := tm_sent s @ [reply_sent r]\<rparr>" "[]" r rs "[]"]
  by (simp add: flush_replies_def send_partition_def)

end
