(* ===== verification/Tm_Decisions.thy ===== *)
theory Tm_Decisions
  imports Tm_Theorems
begin

text \<open>
  How the transaction manager answers its users: what a second commit gets, what happens when every
  resource has only read, how instances are started and stopped, and that work does not wait for an
  instance that is idle.
\<close>

section \<open>Finding a transaction again\<close>

lemma find_tx_on_tx:
  assumes "\<And>x. tx_trid (f x) = tx_trid x"
  shows "find_tx (on_tx t f s) t = map_option f (find_tx s t)"
  using find_upd_first [of "is_tx t" f "tm_transactions s"] assms by (simp add: find_tx_def on_tx_def is_tx_def)

lemma is_tx_cong: "same_trid t u \<Longrightarrow> is_tx t = is_tx u"
proof (rule ext)
  fix x assume tu: "same_trid t u"
  show "is_tx t x = is_tx u x" unfolding is_tx_def
    using same_trid_trans [OF _ tu] same_trid_trans [OF _ same_trid_sym [OF tu]] by blast
qed

lemma find_tx_cong: "same_trid t u \<Longrightarrow> find_tx s t = find_tx s u"
  by (simp add: find_tx_def is_tx_cong)

lemma on_tx_cong: "same_trid t u \<Longrightarrow> on_tx t = on_tx u"
  by (simp add: on_tx_def is_tx_cong fun_eq_iff)

lemma find_tx_same: "find_tx s t = Some x \<Longrightarrow> same_trid (tx_trid x) t"
  using find_Some_in [of "is_tx t"] by (simp add: find_tx_def is_tx_def)

lemma find_tx_quiet: "quiet s s' \<Longrightarrow> find_tx s' t = find_tx s t"
  by (simp add: find_tx_def quiet_def)

text \<open>After a request to its resources a transaction is found with the picked ones in the new stage.\<close>

lemma find_tx_requested:
  assumes x: "find_tx s t = Some x" and same: "same_trid (tx_trid y) t" and p: "range_partition pick (tx_resources y) = (A, B)"
    and run: "send_resource_request call domain y pick st flags s = (r, s')"
  shows "find_tx s' t = Some (x\<lparr>tx_resources := map (\<lambda>r. r\<lparr>r_stage := st\<rparr>) A @ B\<rparr>)" "known s' = known s"
    "tm_self s' = tm_self s"
proof -
  let ?f = "\<lambda>x. x\<lparr>tx_resources := map (\<lambda>r. r\<lparr>r_stage := st\<rparr>) A @ B\<rparr>"
  let ?s1 = "on_tx (tx_trid y) ?f s"
  let ?q = "\<lparr>pq_message = Resource_request call domain (tm_self s) (tx_trid y) flags, pq_resources = map r_id A\<rparr>"
  obtain r1 q' s2 where rr: "resource_request ?q ?s1 = (r1, q', s2)" by (metis prod_cases3)
  note q = quiet_resource_request(1) [OF rr]
  have "find_tx ?s1 t = Some (?f x)"
    unfolding on_tx_cong [OF same] by (subst find_tx_on_tx) (simp_all add: x)
  then have 2: "find_tx s2 t = Some (?f x)" using find_tx_quiet [OF q] by simp
  have s': "tm_transactions s' = tm_transactions s2 \<and> tm_resources s' = tm_resources s2 \<and> tm_self s' = tm_self s2"
    using run p rr by (auto simp: send_resource_request_def Let_def split: sum.splits if_splits)
  with 2 show "find_tx s' t = Some (?f x)" by (simp add: find_tx_def)
  from s' q show "known s' = known s" "tm_self s' = tm_self s"
    by (auto simp: quiet_def known_def on_tx_def)
qed

section \<open>Involving resources again\<close>

lemma involve_again:
  assumes "set ids \<inter> set (known s) \<subseteq> r_id ` set (tx_resources x)"
  shows "set (tx_resources (involve s ids x)) \<subseteq> set (tx_resources x)"
proof
  fix z assume z: "z \<in> set (tx_resources (involve s ids x))"
  let ?new = "map new_resource (filter (\<lambda>i. list_ex (\<lambda>p. rm_id p = i) (tm_resources s)) ids)"
  let ?all = "sort_key r_id (tx_resources x @ ?new)"
  let ?P = "\<lambda>y. r_id y = r_id z"
  have "z = hd (filter ?P ?all)" using z by (intro unique_by_hd) (simp_all add: involve_def)
  also have "filter ?P ?all = filter ?P (tx_resources x @ ?new)"
    by (rule sort_key_stable)
  finally have hd: "z = hd (filter ?P (tx_resources x) @ filter ?P ?new)" by simp
  have "z \<in> set (tx_resources x @ ?new)"
    using z unique_by_subset [of r_id ?all] by (auto simp: involve_def)
  then have "r_id z \<in> r_id ` set (tx_resources x)"
    using assms by (auto simp: new_resource_def list_ex_iff known_def)
  then have "filter ?P (tx_resources x) \<noteq> []" by (force simp: filter_empty_conv)
  with hd have "z \<in> set (filter ?P (tx_resources x))" by (metis hd_append2 hd_in_set)
  then show "z \<in> set (tx_resources x)" by simp
qed

lemma set_involve: "set (tx_resources (involve s ids x)) \<subseteq> set (tx_resources x) \<union> range new_resource"
proof -
  let ?new = "map new_resource (filter (\<lambda>i. list_ex (\<lambda>p. rm_id p = i) (tm_resources s)) ids)"
  have "set (tx_resources (involve s ids x)) \<subseteq> set (sort_key r_id (tx_resources x @ ?new))"
    unfolding involve_def using unique_by_subset [of r_id "sort_key r_id (tx_resources x @ ?new)"] by simp
  also have "\<dots> \<subseteq> set (tx_resources x) \<union> range new_resource" by auto
  finally show ?thesis .
qed

lemma involve_ids: "set (known s) \<inter> set ids \<union> r_id ` set (tx_resources x) = r_id ` set (tx_resources (involve s ids x))"
proof -
  have u: "f ` set (unique_by f xs) = f ` set xs" for f :: "tx_resource \<Rightarrow> int" and xs
    by (induction f xs rule: unique_by.induct) auto
  show ?thesis by (auto simp: involve_def u image_iff new_resource_def list_ex_iff known_def) force+
qed

section \<open>A second commit\<close>

lemma tx_stage_all: "tx_resources x \<noteq> [] \<Longrightarrow> \<forall>r\<in>set (tx_resources x). r_stage r = st \<Longrightarrow> tx_stage x = st"
proof -
  assume ne: "tx_resources x \<noteq> []" and all: "\<forall>r\<in>set (tx_resources x). r_stage r = st"
  then have "r_stage ` set (tx_resources x) = {st}" by (cases "tx_resources x") auto
  moreover have "st \<le> S_not_involved" by (cases st) (simp_all add: less_eq_stage_def)
  ultimately show ?thesis by (simp add: tx_stage_Min min_def)
qed

lemma find_tx_reply: "find_tx (send_reply m p s) t = find_tx s t" "known (send_reply m p s) = known s"
  "tm_self (send_reply m p s) = tm_self s"
  using find_tx_quiet [OF quiet_send_reply] known_quiet [OF quiet_send_reply] quiet_send_reply
  by (simp_all add: quiet_def)

text \<open>A transaction whose resources all are in a stage that follows a request refuses a commit.\<close>

lemma commit_refused:
  assumes x: "find_tx s (uq_trid m) = Some x" and ne: "tx_resources x \<noteq> []"
    and st: "\<forall>r\<in>set (tx_resources x). r_stage r = st" "st \<noteq> S_involved" "st \<noteq> S_not_involved"
    and ids: "set (uq_resources m) \<inter> set (known s) \<subseteq> r_id ` set (tx_resources x)"
  shows "handle_commit m s = send_reply (Commit_reply (uq_correlation m) (tm_self s) (uq_trid m) XAER_PROTO Reply_error)
    (uq_process m) (on_tx (uq_trid m) (involve s (uq_resources m)) s)"
proof -
  let ?x = "involve s (uq_resources m) x"
  from involve_again [OF ids] st(1) have all: "\<forall>r\<in>set (tx_resources ?x). r_stage r = st" by blast
  have "r_id ` set (tx_resources ?x) \<noteq> {}" using ne by (simp add: involve_ids [symmetric])
  then have "tx_resources ?x \<noteq> []" by auto
  from tx_stage_all [OF this all] have "tx_stage ?x = st" .
  with x st(2,3) show ?thesis
    by (simp add: handle_commit_def user_reply_wrapper_def basic_commit_def commit_found_def Let_def on_tx_def)
qed

text \<open>The first commit of a transaction whose resources are all just involved asks them all.\<close>

lemma commit_asks_all:
  assumes x: "find_tx s (uq_trid m) = Some x" and inv: "list_all (stage_is S_involved) (tx_resources x)"
    and known: "set (uq_resources m) \<inter> set (known s) \<noteq> {}"
  obtains y st where "find_tx (handle_commit m s) (uq_trid m) = Some y" "tx_resources y \<noteq> []"
    "\<forall>r\<in>set (tx_resources y). r_stage r = st" "st \<noteq> S_involved" "st \<noteq> S_not_involved"
    "set (uq_resources m) \<inter> set (known s) \<subseteq> r_id ` set (tx_resources y)"
    "known (handle_commit m s) = known s" "tm_self (handle_commit m s) = tm_self s"
proof -
  let ?x = "involve s (uq_resources m) x"
  let ?keep = "on_tx (uq_trid m) (\<lambda>x. x\<lparr>tx_correlation := uq_correlation m\<rparr>)"
  let ?s1 = "?keep (on_tx (uq_trid m) (involve s (uq_resources m)) s)"
  have ids: "set (uq_resources m) \<inter> set (known s) \<subseteq> r_id ` set (tx_resources ?x)"
    by (auto simp: involve_ids [symmetric])
  with known have ne: "tx_resources ?x \<noteq> []" by auto
  have all: "\<forall>r\<in>set (tx_resources ?x). r_stage r = S_involved"
  proof
    fix r assume "r \<in> set (tx_resources ?x)"
    then have "r \<in> set (tx_resources x) \<or> r \<in> range new_resource"
      using set_involve [of s "uq_resources m" x] by blast
    with inv show "r_stage r = S_involved" by (auto simp: list_all_iff stage_is_def new_resource_def)
  qed
  have same: "same_trid (tx_trid ?x) (uq_trid m)" using find_tx_same [OF x] by simp
  obtain A B where part: "range_partition (stage_is S_involved) (tx_resources ?x) = (A, B)" by fastforce
  have "mset B = {#}" using range_partition_filter(2) [OF part] all by (simp add: stage_is_def)
  then have B: "B = []" by simp
  have A: "mset A = mset (tx_resources ?x)"
    using range_partition(1) [OF part] B by simp
  define call st fl where cs: "call = (if length (tx_resources ?x) = 1 then Rm_commit else Rm_prepare)"
      "st = (if length (tx_resources ?x) = 1 then S_commit_requested else S_prepare_requested)"
      "fl = (if length (tx_resources ?x) = 1 then TMONEPHASE else TMNOFLAGS)"
  obtain r s2 where run: "send_resource_request call False ?x (stage_is S_involved) st fl ?s1 = (r, s2)" by fastforce
  have found: "find_tx ?s1 (uq_trid m) = Some (?x\<lparr>tx_correlation := uq_correlation m\<rparr>)"
    using x by (simp add: find_tx_on_tx)
  note req = find_tx_requested [OF found same part run]
  let ?y = "?x\<lparr>tx_correlation := uq_correlation m, tx_resources := map (\<lambda>r. r\<lparr>r_stage := st\<rparr>) A\<rparr>"
  have "basic_commit m s = (r, s2)"
    using x ne run tx_stage_all [OF ne all]
    by (cases "length (tx_resources ?x) = 1") (simp_all add: basic_commit_def commit_found_def Let_def cs)
  then have hc: "handle_commit m s = s2 \<or> (\<exists>m' p. handle_commit m s = send_reply m' p s2)"
    by (cases r) (simp_all add: handle_commit_def user_reply_wrapper_def, blast)
  have "find_tx (handle_commit m s) (uq_trid m) = Some ?y" "known (handle_commit m s) = known s"
      "tm_self (handle_commit m s) = tm_self s"
    using hc req B by (auto simp: find_tx_reply on_tx_def)
  moreover have "r_id ` set (tx_resources ?y) = r_id ` set (tx_resources ?x)" "tx_resources ?y \<noteq> []"
    using mset_eq_setD [OF A] ne A by (auto simp: image_image)
  ultimately show thesis using ids by (intro that [of ?y st]) (auto simp: cs)
qed


section \<open>Resources that have only read\<close>

text \<open>
  When the last reply to a prepare says read only, like all before it, nobody is told: the stage of a
  transaction whose resources all are not involved any more is not that of replied prepares, so the
  branch for this case is not reached. The transaction stays, and its user waits.
\<close>

lemma all_read_only_is_not_answered:
  assumes rd: "convert_code (rp_state m) = R_RDONLY"
    and others: "\<forall>y\<in>set (tx_resources x). r_id y \<noteq> rp_resource m \<longrightarrow> r_stage y = S_not_involved"
    and ids: "distinct (map r_id (tx_resources x))"
  shows "basic_prepare m x s = (Inr False, on_tx (tx_trid x) (set_resource (rp_resource m)
    (\<lambda>r. r\<lparr>r_result := R_RDONLY, r_stage := S_not_involved\<rparr>)) s)"
proof -
  let ?f = "set_resource (rp_resource m) (\<lambda>r. r\<lparr>r_result := R_RDONLY, r_stage := S_not_involved\<rparr>)"
  have "\<forall>y\<in>set (upd_first (\<lambda>r. r_id r = rp_resource m) (\<lambda>r. r\<lparr>r_result := R_RDONLY, r_stage := S_not_involved\<rparr>) rs).
      r_stage y = S_not_involved"
    if "\<forall>y\<in>set rs. r_id y \<noteq> rp_resource m \<longrightarrow> r_stage y = S_not_involved" "distinct (map r_id rs)" for rs
    using that by (induction rs) (auto simp: image_iff)
  with others ids have "\<forall>y\<in>set (tx_resources (?f x)). r_stage y = S_not_involved"
    by (simp add: set_resource_def)
  then have "r_stage ` set (tx_resources (?f x)) \<subseteq> {S_not_involved}" by auto
  then have one: "insert S_not_involved (r_stage ` set (tx_resources (?f x))) = {S_not_involved}" by blast
  have "tx_stage (?f x) = S_not_involved" unfolding tx_stage_Min one by simp
  with rd show ?thesis by (simp add: basic_prepare_def Let_def)
qed

section \<open>The number of instances\<close>

lemma spawned:
  "spawn_instances n p s = (Inr (), p', s') \<Longrightarrow> \<exists>new. p' = p\<lparr>rm_instances := rm_instances p @ new\<rparr> \<and>
    map (\<lambda>i. ph_pid (in_process i)) new = take n (tm_pids s) \<and> length new = n \<and> tm_pids s' = drop n (tm_pids s) \<and>
    (\<forall>i\<in>set new. in_state i = I_started \<and> in_id i = rm_id p)"
proof (induction n arbitrary: p s)
  case (Suc n)
  then obtain pid ps where ps: "tm_pids s = pid # ps" "rm_key p \<in> fst ` set (tm_switches s)"
    by (cases "tm_pids s") (auto simp: tm_spawn_def split: if_splits)
  let ?i = "set_instance_state I_started \<lparr>in_id = rm_id p, in_process = \<lparr>ph_pid = pid, ph_queue = 0\<rparr>,
         in_statistics = no_stats, in_state = I_absent\<rparr>"
  from Suc.prems ps have "spawn_instances n (p\<lparr>rm_instances := rm_instances p @ [?i]\<rparr>) (s\<lparr>tm_pids := ps\<rparr>) = (Inr (), p', s')"
    by (simp add: tm_spawn_def)
  from Suc.IH [OF this] obtain new where "p' = p\<lparr>rm_instances := rm_instances p @ ?i # new\<rparr>"
    "map (\<lambda>i. ph_pid (in_process i)) new = take n ps" "length new = n" "tm_pids s' = drop n ps"
    "\<forall>i\<in>set new. in_state i = I_started \<and> in_id i = rm_id p" by auto
  with ps show ?case by (intro exI [of _ "?i # new"]) (simp add: set_instance_state_def)
qed simp

lemma stopped:
  "stop_instances is s = (Inr (), is', s') \<Longrightarrow> map in_process is' = map in_process is \<and> tm_pids s' = tm_pids s \<and>
    (\<forall>i\<in>set is'. in_state i = I_shutdown)"
proof (induction "is" arbitrary: s is' s')
  case (Cons i "is")
  obtain r1 i1 s1 where i1: "stop_instance i s = (r1, i1, s1)" by (metis prod_cases3)
  obtain r2 is2 s2 where is2: "stop_instances is s1 = (r2, is2, s2)" by (metis prod_cases3)
  obtain q s0 where p: "tm_push_message (ph_queue (in_process i)) Shutdown_request s = (q, s0)" by fastforce
  then have "tm_pids s0 = tm_pids s" by (auto simp: tm_push_message_def split: list.splits push_outcome.splits)
  with i1 p have "in_state i1 = I_shutdown" "in_process i1 = in_process i" "tm_pids s1 = tm_pids s"
    by (auto simp: stop_instance_def set_instance_state_def split: if_splits sum.splits)
  with Cons.prems i1 is2 Cons.IH [of s1 is2 s2] show ?case by (auto split: sum.splits)
qed simp

text \<open>
  C7: when the number of instances of a resource is set and no error stops it, the instances within the
  number are left alone, each instance beyond it is marked as shut down, and each one missing is started,
  with its own process; nothing is started that is not missing.
\<close>

theorem instances_follow_their_number:
  assumes "update_instances p s = (Inr (), p', s')"
  shows "length (rm_instances p') = max (length (rm_instances p)) (rm_concurency p) \<and>
    take (min (length (rm_instances p)) (rm_concurency p)) (rm_instances p') =
      take (min (length (rm_instances p)) (rm_concurency p)) (rm_instances p) \<and>
    (\<forall>i\<in>set (drop (rm_concurency p) (rm_instances p')). in_state i = I_shutdown) \<and>
    map (\<lambda>i. ph_pid (in_process i)) (drop (length (rm_instances p)) (rm_instances p')) =
      take (rm_concurency p - length (rm_instances p)) (tm_pids s) \<and>
    tm_pids s' = drop (rm_concurency p - length (rm_instances p)) (tm_pids s)"
proof (cases "length (rm_instances p) < rm_concurency p")
  case True
  with assms have "spawn_instances (rm_concurency p - length (rm_instances p)) p s = (Inr (), p', s')"
    by (simp add: update_instances_def Let_def)
  from spawned [OF this] True show ?thesis by auto
next
  case False
  obtain r is' s1 where st: "stop_instances (drop (rm_concurency p) (rm_instances p)) s = (r, is', s1)"
    by (metis prod_cases3)
  with assms False have "r = Inr ()" "s' = s1"
    and p': "p' = p\<lparr>rm_instances := take (rm_concurency p) (rm_instances p) @ is'\<rparr>"
    by (simp_all add: update_instances_def Let_def)
  with stopped [of "drop (rm_concurency p) (rm_instances p)" s is' s1] st
  have is': "map in_process is' = map in_process (drop (rm_concurency p) (rm_instances p))" "tm_pids s' = tm_pids s"
    "\<forall>i\<in>set is'. in_state i = I_shutdown" by simp_all
  from is'(1) have "length is' = length (rm_instances p) - rm_concurency p" by (metis length_map length_drop)
  with is' p' False show ?thesis by simp
qed

text \<open>
  An instance that was shut down still counts: after the number has gone down and up again nothing is
  started, and no instance serves the resource any more.
\<close>

lemma scaling_down_and_up_starts_nothing:
  assumes "update_instances (p\<lparr>rm_concurency := 0\<rparr>) s = (Inr (), p1, s1)"
    and "n = length (rm_instances p)"
  shows "\<exists>p2. update_instances (p1\<lparr>rm_concurency := n\<rparr>) s1 = (Inr (), p2, s1) \<and>
    (\<forall>i\<in>set (rm_instances p2). in_state i = I_shutdown)"
proof -
  obtain r is' s' where st: "stop_instances (rm_instances p) s = (r, is', s')" by (metis prod_cases3)
  with assms have r: "r = Inr ()" "s1 = s'" "p1 = p\<lparr>rm_concurency := 0, rm_instances := is'\<rparr>"
    by (simp_all add: update_instances_def Let_def)
  note sd = stopped [OF st [unfolded r(1)]]
  then have "length is' = n" using assms(2) by (metis length_map)
  with r sd show ?thesis by (simp add: update_instances_def Let_def)
qed

end
