(* ===== verification/Tm_Work.thy ===== *)
theory Tm_Work
  imports Tm_Theorems
begin

text \<open>
  Work does not wait for an idle instance: as long as the queues of the instances have room, no instance
  is idle while a request waits for its resource.
\<close>

definition busy_rm :: "tm_state \<Rightarrow> int \<Rightarrow> bool" where
  "busy_rm s rm \<longleftrightarrow> (case get_resource s rm of Inl _ \<Rightarrow> True
     | Inr p \<Rightarrow> list_all (\<lambda>i. in_state i \<noteq> I_idle) (rm_instances p))"

definition served :: "tm_state \<Rightarrow> bool" where
  "served s \<longleftrightarrow> list_all (\<lambda>q. list_all (busy_rm s) (pq_resources q)) (tm_pending s)"

definition sure :: "tm_state \<Rightarrow> bool" where
  "sure s \<longleftrightarrow> set (tm_push s) \<subseteq> {Push_sent}"

definition calm :: "tm_state \<Rightarrow> tm_state \<Rightarrow> bool" where
  "calm s s' \<longleftrightarrow> (\<forall>rm. busy_rm s rm \<longrightarrow> busy_rm s' rm) \<and> tm_pending s' = tm_pending s \<and> (sure s \<longrightarrow> sure s')"

lemma calm_refl [simp]: "calm s s" by (simp add: calm_def)

lemma calm_trans: "calm s t \<Longrightarrow> calm t u \<Longrightarrow> calm s u" by (simp add: calm_def)

lemma busy_rm_cong: "tm_resources s' = tm_resources s \<Longrightarrow> busy_rm s' = busy_rm s"
  by (simp add: busy_rm_def get_resource_def fun_eq_iff)

lemma calm_same: "tm_resources s' = tm_resources s \<Longrightarrow> tm_pending s' = tm_pending s \<Longrightarrow>
    set (tm_push s') \<subseteq> set (tm_push s) \<Longrightarrow> calm s s'"
  using busy_rm_cong [of s' s] by (auto simp: calm_def sure_def)

lemma served_calm: "served s \<Longrightarrow> calm s s' \<Longrightarrow> served s'"
  by (auto simp: served_def calm_def list_all_iff)

lemma push_subset: "tm_push_message q m s = (r, s') \<Longrightarrow> set (tm_push s') \<subseteq> set (tm_push s)"
  by (auto simp: tm_push_message_def split: list.splits push_outcome.splits)

lemma calm_push: "tm_push_message q m s = (r, s') \<Longrightarrow> calm s s'"
  using push_cases(1,2) [of q m s r s'] push_subset by (simp add: calm_same)

lemma sure_push: "sure s \<Longrightarrow> tm_push_message q m s = (r, s') \<Longrightarrow> r = Inr True"
  by (cases "tm_push s") (auto simp: sure_def tm_push_message_def)

lemma calm_now: "tm_now s = (t, s') \<Longrightarrow> calm s s'"
  by (rule calm_same) (auto simp: tm_now_def split: list.splits)

lemma get_resource_on_instance:
  "get_resource (on_instance rm P f s) rm' = (case get_resource s rm' of Inl e \<Rightarrow> Inl e
     | Inr p \<Rightarrow> Inr (if rm' = rm then p\<lparr>rm_instances := upd_first P f (rm_instances p)\<rparr> else p))"
proof (cases "rm' = rm")
  case True
  have "find (\<lambda>p. rm_id p = rm) (upd_first (\<lambda>p. rm_id p = rm) (\<lambda>q. q\<lparr>rm_instances := upd_first P f (rm_instances q)\<rparr>) ps) =
      map_option (\<lambda>q. q\<lparr>rm_instances := upd_first P f (rm_instances q)\<rparr>) (find (\<lambda>p. rm_id p = rm) ps)" for ps :: "proxy list"
    by (rule find_upd_first) simp
  with True show ?thesis by (simp add: get_resource_def on_instance_def split: option.split)
next
  case False
  have "find (\<lambda>p. rm_id p = rm') (upd_first (\<lambda>p. rm_id p = rm) (\<lambda>q. q\<lparr>rm_instances := upd_first P f (rm_instances q)\<rparr>) ps) =
      find (\<lambda>p. rm_id p = rm') ps" for ps :: "proxy list"
    by (rule find_upd_first_other) (use False in auto)
  with False show ?thesis by (simp add: get_resource_def on_instance_def split: option.split)
qed

lemma busy_on_instance:
  assumes "busy_rm s rm'" and f: "rm' = rm \<longrightarrow> (\<forall>i. in_state (f i) = I_idle \<longrightarrow> in_state i = I_idle)"
  shows "busy_rm (on_instance rm P f s) rm'"
proof (cases "get_resource s rm'")
  case (Inr p)
  with assms have "\<forall>i\<in>set (rm_instances p). in_state i \<noteq> I_idle" by (simp add: busy_rm_def list_all_iff)
  then have "rm' = rm \<Longrightarrow> \<forall>i\<in>set (upd_first P f (rm_instances p)). in_state i \<noteq> I_idle"
    using f in_upd_first [of _ P f "rm_instances p"] by blast
  with Inr assms(1) show ?thesis by (simp add: busy_rm_def get_resource_on_instance list_all_iff)
qed (simp add: busy_rm_def get_resource_on_instance)

lemma pending_on_instance [simp]: "tm_pending (on_instance rm P f s) = tm_pending s" "tm_push (on_instance rm P f s) = tm_push s"
  by (simp_all add: on_instance_def)

lemma calm_on_instance: "(\<And>i. in_state (f i) = I_idle \<Longrightarrow> in_state i = I_idle) \<Longrightarrow> calm s (on_instance rm P f s)"
  by (simp add: calm_def sure_def busy_on_instance)

lemma calm_instance_request: "instance_request m rm i P s = (r, s') \<Longrightarrow> calm s s' \<and> (sure s \<longrightarrow> r = Inr True)"
proof -
  assume run: "instance_request m rm i P s = (r, s')"
  obtain b s1 where p: "tm_push_message (ph_queue (in_process i)) m s = (b, s1)" by fastforce
  obtain t s2 where n: "tm_now s1 = (t, s2)" by fastforce
  let ?f = "\<lambda>i. (set_instance_state I_busy i)\<lparr>in_statistics :=
      (in_statistics i)\<lparr>ss_roundtrip := statistics_start t (ss_roundtrip (in_statistics i))\<rparr>\<rparr>"
  have "calm s2 (on_instance rm P ?f s2)"
    by (rule calm_on_instance) (auto simp: set_instance_state_def split: if_splits)
  with calm_push [OF p] calm_now [OF n] have "calm s s1" "calm s (on_instance rm P ?f s2)"
    by (auto intro: calm_trans)
  with run p n sure_push [OF _ p] show ?thesis
    by (auto simp: instance_request_def tm_bind_def split: sum.splits if_splits)
qed

lemma idle_instance_None: "idle_instance s rm = Inr None \<Longrightarrow> busy_rm s rm"
  by (auto simp: idle_instance_def busy_rm_def find_None_iff list_all_iff split: sum.splits)

lemma request_loop_busy:
  "request_loop m ids unsent s = (r, s') \<Longrightarrow> sure s \<Longrightarrow> \<forall>rm\<in>set unsent. busy_rm s rm \<Longrightarrow>
    calm s s' \<and> (\<forall>us. r = Inr us \<longrightarrow> (\<forall>rm\<in>set us. busy_rm s' rm))"
proof (induction ids arbitrary: unsent s)
  case (Cons rm ids)
  show ?case
  proof (cases "idle_instance s rm")
    case (Inl e)
    with Cons.prems show ?thesis by auto
  next
    case (Inr f)
    show ?thesis
    proof (cases f)
      case None
      with Inr Cons.prems Cons.IH [of "unsent @ [rm]" s] idle_instance_None [of s rm] show ?thesis by simp
    next
      case (Some i)
      obtain q s1 where i: "instance_request m rm i (\<lambda>i. in_state i = I_idle) s = (q, s1)" by fastforce
      note c = calm_instance_request [OF i]
      with Cons.prems(2) have "q = Inr True" "sure s1" by (simp_all add: calm_def)
      with Some Inr i Cons.prems have "request_loop m ids unsent s1 = (r, s')" by simp
      from Cons.IH [OF this \<open>sure s1\<close>] c Cons.prems(3) show ?thesis
        by (auto simp: calm_def)
    qed
  qed
qed auto

lemma busy_rm_simps [simp]:
  "busy_rm (on_tx t f s) = busy_rm s" "busy_rm (s\<lparr>tm_pending := ps\<rparr>) = busy_rm s"
  by (rule busy_rm_cong, simp add: on_tx_def)+

lemma served_on_tx [simp]: "served (on_tx t f s) = served s" "sure (on_tx t f s) = sure s"
  using busy_rm_simps(1) [of t f s] by (simp_all add: served_def sure_def) (simp_all add: on_tx_def)

lemma served_request:
  assumes s: "served s" "sure s" and run: "send_resource_request call domain x pick st flags s = (r, s')"
  shows "served s' \<and> sure s'"
proof -
  obtain A B where part: "range_partition pick (tx_resources x) = (A, B)" by fastforce
  let ?m = "Resource_request call domain (tm_self s) (tx_trid x) flags"
  let ?s1 = "on_tx (tx_trid x) (\<lambda>x. x\<lparr>tx_resources := map (\<lambda>r. r\<lparr>r_stage := st\<rparr>) A @ B\<rparr>) s"
  obtain l s2 where l: "request_loop ?m (map r_id A) [] ?s1 = (l, s2)" by fastforce
  from request_loop_busy [OF l] s have b: "calm ?s1 s2" "\<forall>us. l = Inr us \<longrightarrow> (\<forall>rm\<in>set us. busy_rm s2 rm)" by simp_all
  have s2: "served s2" "sure s2" using b(1) s served_calm [of ?s1 s2] by (simp_all add: calm_def)
  have p: "served (s2\<lparr>tm_pending := tm_pending s2 @ [\<lparr>pq_message = ?m, pq_resources = us\<rparr>]\<rparr>)" if "l = Inr us" for us
    using s2(1) b(2) that by (simp add: served_def list_all_iff)
  have "sure (s2\<lparr>tm_pending := ps\<rparr>) = sure s2" for ps by (simp add: sure_def)
  with run part l s2 p show ?thesis
    by (auto simp: send_resource_request_def Let_def resource_request_def split: sum.splits if_splits)
qed

section \<open>An instance that is done\<close>

lemma in_id_of_instance: "own_instances s \<Longrightarrow> get_instance s rm pid = Inr i \<Longrightarrow> in_id i = rm"
  using get_resource_in [of s rm]
  by (auto simp: get_instance_def own_instances_def list_all_iff split: sum.splits option.splits dest!: find_Some_in)

lemma busy_again:
  assumes "\<forall>i\<in>set is. in_state i \<noteq> I_idle"
  shows "\<forall>i\<in>set (upd_first (has_pid pid) (set_instance_state I_busy)
    (upd_first (has_pid pid) (set_instance_state I_idle) is)). in_state i \<noteq> I_idle"
  using assms by (induction "is") (auto simp: has_pid_def set_instance_state_def)

lemma served_done:
  assumes inv: "tm_inv s" and s: "served s" "sure s" and i: "get_instance s rm pid = Inr i"
    and run: "instance_done rm pid i s = (r, s')"
  shows "served s' \<and> sure s'"
proof -
  have rm: "in_id i = rm" using in_id_of_instance [OF _ i] inv by (simp add: tm_inv_def)
  let ?s1 = "on_instance rm (has_pid pid) (set_instance_state I_idle) s"
  have other: "busy_rm ?s1 rm'" if "busy_rm s rm'" "rm' \<noteq> rm" for rm'
    using that by (simp add: busy_on_instance)
  show ?thesis
  proof (cases "find (waits_for rm) (tm_pending s)")
    case None
    then have "\<forall>q\<in>set (tm_pending s). rm \<notin> set (pq_resources q)" by (simp add: find_None_iff waits_for_def)
    with s(1) other have "\<forall>q\<in>set (tm_pending s). \<forall>x\<in>set (pq_resources q). busy_rm ?s1 x"
      unfolding served_def list_all_iff by metis
    then have "served ?s1" by (simp add: served_def list_all_iff)
    with None rm run s(2) show ?thesis by (auto simp: instance_done_def Let_def sure_def)
  next
    case (Some q)
    obtain b s2 where p: "tm_push_message (ph_queue (in_process i)) (pq_message q) ?s1 = (b, s2)" by fastforce
    have sure1: "sure ?s1" using s(2) by (simp add: sure_def)
    have b: "b = Inr True" "sure s2" "tm_pending s2 = tm_pending s" "tm_resources s2 = tm_resources ?s1"
      using sure_push [OF sure1 p] calm_push [OF p] sure1 push_cases(1) [OF p] by (simp_all add: calm_def)
    let ?s3 = "on_instance rm (has_pid pid) (set_instance_state I_busy) s2"
    let ?s4 = "on_instance rm (has_pid pid) (set_instance_state I_busy) ?s1"
    have "tm_resources ?s3 = tm_resources ?s4" using b(4) by (simp add: on_instance_def)
    then have eq: "busy_rm ?s3 = busy_rm ?s4" by (rule busy_rm_cong)
    have "busy_rm s rm" using find_Some_in [OF Some] s(1) by (auto simp: served_def waits_for_def list_all_iff)
    then have "busy_rm ?s4 rm" using busy_again
      by (auto simp: busy_rm_def get_resource_on_instance list_all_iff split: sum.splits)
    then have all: "busy_rm ?s3 rm'" if "busy_rm s rm'" for rm'
      using that other [of rm'] eq by (cases "rm' = rm") (simp_all add: busy_on_instance)
    let ?left = "remove1 rm (pq_resources q)"
    let ?ps = "if ?left = [] then erase_first (waits_for rm) (tm_pending s)
      else upd_first (waits_for rm) (\<lambda>q. q\<lparr>pq_resources := ?left\<rparr>) (tm_pending s)"
    have left: "set ?left \<subseteq> set (pq_resources q)" by (rule set_remove1_subset)
    have "\<forall>q'\<in>set ?ps. \<exists>q\<in>set (tm_pending s). set (pq_resources q') \<subseteq> set (pq_resources q)"
    proof
      fix q' assume "q' \<in> set ?ps"
      then consider "q' \<in> set (tm_pending s)" | "set (pq_resources q') = set ?left"
        by (auto dest!: in_erase_firstD in_upd_first split: if_splits)
      then show "\<exists>q\<in>set (tm_pending s). set (pq_resources q') \<subseteq> set (pq_resources q)"
        using find_Some_in [OF Some] left by cases blast+
    qed
    with s(1) all have "\<forall>q'\<in>set ?ps. \<forall>rm'\<in>set (pq_resources q'). busy_rm ?s3 rm'"
      unfolding served_def list_all_iff by blast
    then have "served (?s3\<lparr>tm_pending := ?ps\<rparr>)" by (simp only: served_def list_all_iff busy_rm_simps) simp
    moreover have "sure (?s3\<lparr>tm_pending := ?ps\<rparr>)" using b(2) by (simp add: sure_def)
    moreover have "s' = ?s3\<lparr>tm_pending := ?ps\<rparr>"
      using run Some rm p b by (auto simp: instance_done_def Let_def)
    ultimately show ?thesis by simp
  qed
qed

section \<open>Starting and stopping instances\<close>

lemma calm_outside: "tm_resources s' = tm_resources s \<Longrightarrow> tm_pending s' = tm_pending s \<Longrightarrow> tm_push s' = tm_push s \<Longrightarrow> calm s s'"
  by (rule calm_same) simp_all

definition no_new_idle :: "proxy \<Rightarrow> proxy \<Rightarrow> bool" where
  "no_new_idle p p' \<longleftrightarrow> rm_id p' = rm_id p \<and>
     (list_all (\<lambda>i. in_state i \<noteq> I_idle) (rm_instances p) \<longrightarrow> list_all (\<lambda>i. in_state i \<noteq> I_idle) (rm_instances p'))"

lemma calm_spawn: "spawn_instances n p s = (r, p', s') \<Longrightarrow> calm s s' \<and> tm_resources s' = tm_resources s \<and> no_new_idle p p'"
proof (induction n arbitrary: p s)
  case (Suc n)
  show ?case
  proof (cases "rm_key p \<notin> fst ` set (tm_switches s) \<or> tm_pids s = []")
    case True
    with Suc.prems show ?thesis by (auto simp: tm_spawn_def no_new_idle_def split: if_splits)
  next
    case False
    then obtain pid ps where ps: "tm_pids s = pid # ps" by (cases "tm_pids s") auto
    let ?p = "p\<lparr>rm_instances := rm_instances p @
      [set_instance_state I_started \<lparr>in_id = rm_id p, in_process = \<lparr>ph_pid = pid, ph_queue = 0\<rparr>,
         in_statistics = no_stats, in_state = I_absent\<rparr>]\<rparr>"
    have "calm s (s\<lparr>tm_pids := ps\<rparr>)" by (rule calm_outside) simp_all
    moreover from Suc.prems False ps have "spawn_instances n ?p (s\<lparr>tm_pids := ps\<rparr>) = (r, p', s')"
      by (simp add: tm_spawn_def)
    ultimately show ?thesis using Suc.IH [of ?p "s\<lparr>tm_pids := ps\<rparr>"] calm_trans
      by (auto simp: no_new_idle_def set_instance_state_def)
  qed
qed (simp add: no_new_idle_def)

lemma calm_stop_instance:
  "stop_instance i s = (r, i', s') \<Longrightarrow> calm s s' \<and> tm_resources s' = tm_resources s \<and> in_state i' = I_shutdown"
proof -
  assume st: "stop_instance i s = (r, i', s')"
  obtain q s1 where p: "tm_push_message (ph_queue (in_process i)) Shutdown_request s = (q, s1)" by fastforce
  have c: "calm s (s\<lparr>tm_killed := k\<rparr>)" "calm s1 (s1\<lparr>tm_replies := rs\<rparr>)" for k rs by (auto intro: calm_outside)
  show ?thesis using st p calm_push [OF p] push_cases(1) [OF p] c calm_trans [of s s1]
    by (auto simp: stop_instance_def set_instance_state_def split: if_splits sum.splits)
qed

lemma calm_stop_instances:
  "stop_instances is s = (r, is', s') \<Longrightarrow> calm s s' \<and> tm_resources s' = tm_resources s \<and>
    (list_all (\<lambda>i. in_state i \<noteq> I_idle) is \<longrightarrow> list_all (\<lambda>i. in_state i \<noteq> I_idle) is')"
proof (induction "is" arbitrary: s r is' s')
  case (Cons i "is")
  obtain r1 i1 s1 where i1: "stop_instance i s = (r1, i1, s1)" by (metis prod_cases3)
  obtain r2 is2 s2 where is2: "stop_instances is s1 = (r2, is2, s2)" by (metis prod_cases3)
  from calm_stop_instance [OF i1] Cons.IH [OF is2] Cons.prems i1 is2 show ?case
    by (auto intro: calm_trans split: sum.splits)
qed simp

lemma calm_update:
  assumes "update_instances p s = (r, p', s')"
  shows "calm s s' \<and> tm_resources s' = tm_resources s \<and> no_new_idle p p'"
proof (cases "length (rm_instances p) < rm_concurency p")
  case True
  with assms have "spawn_instances (rm_concurency p - length (rm_instances p)) p s = (r, p', s')"
    by (simp add: update_instances_def Let_def)
  then show ?thesis by (rule calm_spawn)
next
  case False
  obtain r1 is1 s1 where st: "stop_instances (drop (rm_concurency p) (rm_instances p)) s = (r1, is1, s1)"
    by (metis prod_cases3)
  have "rm_instances p = take (rm_concurency p) (rm_instances p) @ drop (rm_concurency p) (rm_instances p)" by simp
  then have split: "list_all (\<lambda>i. in_state i \<noteq> I_idle) (rm_instances p) \<longleftrightarrow>
      list_all (\<lambda>i. in_state i \<noteq> I_idle) (take (rm_concurency p) (rm_instances p)) \<and>
      list_all (\<lambda>i. in_state i \<noteq> I_idle) (drop (rm_concurency p) (rm_instances p))"
    by (metis list_all_append)
  from False st assms have "p' = p\<lparr>rm_instances := take (rm_concurency p) (rm_instances p) @ is1\<rparr>" "s' = s1"
    by (simp_all add: update_instances_def Let_def)
  with calm_stop_instances [OF st] split show ?thesis by (simp add: no_new_idle_def)
qed

lemma calm_put_proxy:
  assumes "get_resource s rm = Inr p" and "no_new_idle p p'"
  shows "calm s (put_proxy p' s)"
proof -
  have p: "rm_id p' = rm" using assms get_resource_in by (auto simp: no_new_idle_def)
  have same: "find (\<lambda>q. rm_id q = rm) (upd_first (\<lambda>q. rm_id q = rm) (\<lambda>_. p') ps) =
      map_option (\<lambda>_. p') (find (\<lambda>q. rm_id q = rm) ps)" for ps
    by (rule find_upd_first) (rule p)
  have other: "find (\<lambda>q. rm_id q = rm') (upd_first (\<lambda>q. rm_id q = rm) (\<lambda>_. p') ps) = find (\<lambda>q. rm_id q = rm') ps"
    if "rm' \<noteq> rm" for ps rm'
    by (rule find_upd_first_other) (use that p in auto)
  have "busy_rm (put_proxy p' s) rm'" if b: "busy_rm s rm'" for rm'
  proof (cases "rm' = rm")
    case True
    have "get_resource (put_proxy p' s) rm = Inr p'"
      using assms(1) same [of "tm_resources s"] by (simp add: get_resource_def put_proxy_def p split: option.splits)
    with b assms True show ?thesis by (simp add: busy_rm_def no_new_idle_def)
  next
    case False
    have "get_resource (put_proxy p' s) rm' = get_resource s rm'"
      using other [OF False] by (simp add: get_resource_def put_proxy_def p)
    with b show ?thesis by (simp add: busy_rm_def)
  qed
  then show ?thesis by (simp add: calm_def put_proxy_def sure_def)
qed

lemma calm_directives: "calm s (snd (apply_directives ds s))"
proof (induction ds arbitrary: s)
  case (Cons d ds)
  obtain rm n where d: "d = (rm, n)" by fastforce
  show ?case
  proof (cases "get_resource s rm")
    case (Inl e)
    with Cons d show ?thesis by simp
  next
    case (Inr p)
    obtain r p' s' where u: "update_instances (p\<lparr>rm_concurency := n\<rparr>) s = (r, p', s')" by (metis prod_cases3)
    note c = calm_update [OF u]
    then have "get_resource s' rm = Inr p" "no_new_idle p p'"
      using Inr by (simp_all add: get_resource_def no_new_idle_def)
    with c have 1: "calm s (put_proxy p' s')" using calm_put_proxy calm_trans by blast
    from Cons.IH [of "put_proxy p' s'"] have 2: "calm s (snd (apply_directives ds (put_proxy p' s')))"
      using 1 calm_trans by blast
    with 1 Inr u d show ?thesis by (auto split: sum.split prod.splits)
  qed
qed simp

lemma calm_start_proxies:
  "start_proxies ps s = (r, ps', s') \<Longrightarrow> calm s s' \<and> tm_resources s' = tm_resources s \<and> list_all2 no_new_idle ps ps'"
proof (induction ps arbitrary: s r ps' s')
  case (Cons p ps)
  obtain r1 p1 s1 where u: "update_instances p s = (r1, p1, s1)" by (metis prod_cases3)
  obtain r2 ps2 s2 where n: "start_proxies ps s1 = (r2, ps2, s2)" by (metis prod_cases3)
  have "list_all2 no_new_idle ps ps" by (simp add: list_all2_same no_new_idle_def)
  with calm_update [OF u] Cons.IH [OF n] Cons.prems u n show ?case
    by (auto intro: calm_trans split: sum.splits)
qed simp

lemma find_no_new_idle: "list_all2 no_new_idle ps ps' \<Longrightarrow> rel_option no_new_idle (find (\<lambda>p. rm_id p = rm) ps) (find (\<lambda>p. rm_id p = rm) ps')"
  by (induction rule: list_all2_induct) (auto simp: no_new_idle_def)

lemma calm_resources: "list_all2 no_new_idle (tm_resources s) ps \<Longrightarrow> calm s (s\<lparr>tm_resources := ps\<rparr>)"
proof -
  assume "list_all2 no_new_idle (tm_resources s) ps"
  then have "busy_rm s rm \<Longrightarrow> busy_rm (s\<lparr>tm_resources := ps\<rparr>) rm" for rm
    using find_no_new_idle [of "tm_resources s" ps rm]
    by (auto simp: busy_rm_def get_resource_def no_new_idle_def rel_option_iff split: option.splits)
  then show ?thesis by (simp add: calm_def sure_def)
qed

lemma calm_flush_replies: "calm s (snd (flush_replies s))"
proof -
  obtain r xs s' where f: "send_partition negated_send_reply (tm_replies s) s = (r, xs, s')"
    by (metis prod_cases3)
  have p: "calm s t'" if n: "negated_send_reply x t = (q, x', t')" and c: "calm s t" for x t q x' t'
  proof -
    obtain b t1 where push: "tm_push_message (pr_target x) (pr_message x) t = (b, t1)" by fastforce
    with n have "t' = t1" by (auto simp: negated_send_reply_def send_pending_reply_def split: sum.splits)
    with c calm_push [OF push] show ?thesis using calm_trans by blast
  qed
  have "calm s s'"
    by (rule send_partition_keeps(1) [where I = "calm s" and E = "\<lambda>_. True", OF _ f])
      (use p in \<open>auto simp: list_all_iff\<close>)
  moreover have "calm s' (s'\<lparr>tm_replies := rs\<rparr>)" for rs by (rule calm_outside) simp_all
  ultimately have "calm s (s'\<lparr>tm_replies := rs\<rparr>)" for rs using calm_trans by blast
  then show ?thesis using f by (cases r) (auto simp: flush_replies_def)
qed

lemma calm_send_reply: "calm s (send_reply m p s)"
proof -
  obtain b s1 where push: "tm_push_message (ph_queue p) m s = (b, s1)" by fastforce
  have "calm s1 (s1\<lparr>tm_replies := rs\<rparr>)" for rs by (rule calm_outside) simp_all
  with calm_push [OF push] have "calm s s1" "calm s (s1\<lparr>tm_replies := rs\<rparr>)" for rs using calm_trans by blast+
  with push show ?thesis
    by (auto simp: send_reply_def send_pending_reply_def persistent_reply_def split: sum.splits)
qed

section \<open>The invariant\<close>

definition work_conserving :: "tm_state \<Rightarrow> bool" where
  "work_conserving s \<longleftrightarrow> tm_inv s \<and> served s \<and> sure s"

lemma conserving_calm: "work_conserving s \<Longrightarrow> calm s s' \<Longrightarrow> tm_inv s' \<Longrightarrow> work_conserving s'"
  using served_calm by (auto simp: work_conserving_def calm_def)

interpretation work: manager_cycle work_conserving
proof
  fix s :: tm_state
  assume s: "work_conserving s"
  then show inv: "tm_inv s" by (simp add: work_conserving_def)
  note keep = conserving_calm [OF s]
  show "work_conserving (on_tx t f s)"
    if "\<And>x. tx_trid (f x) = tx_trid x" "\<And>x. tx_ok (known s) x \<Longrightarrow> tx_ok (known s) (f x)" for t f
    by (rule keep [OF calm_same state.on_tx]) (use inv that in \<open>simp_all add: on_tx_def\<close>)
  show "work_conserving (erase_tx t s)" for t
    by (rule keep [OF calm_same state.erased [OF inv]]) (simp_all add: erase_tx_def)
  show "work_conserving (add_tx t s)" if "find_tx s t = None" for t
    by (rule keep [OF calm_same state.added [OF inv that]]) (simp_all add: add_tx_def)
  show "work_conserving (s\<lparr>tm_log_state := l\<rparr>)" for l
    by (rule keep [OF calm_same inv_log [OF inv]]) simp_all
  then show "work_conserving (s\<lparr>tm_log_state := l\<rparr>)" for l .
  show "work_conserving (with_log f s)" for f
    by (rule keep [OF calm_same]) (simp_all add: with_log_def inv_log inv)
  show "work_conserving (send_reply m p s)" for m p
    by (rule keep [OF calm_send_reply inv_send_reply [OF inv]])
  show "work_conserving (persistent_reply m p s)" for m p
    by (rule keep [OF calm_same state.later [OF inv]]) (simp_all add: persistent_reply_def)
  show "work_conserving (snd (send_resource_request call domain x pick st flags s))" if "tx_ok (known s) x"
    for call domain x pick st flags
    using s served_request [OF _ _ prod.collapse [symmetric], of s call domain x pick st flags] state.requested [OF inv that]
    by (simp add: work_conserving_def)
  show "work_conserving (snd (instance_done rm pid i s))" if "get_instance s rm pid = Inr i" for rm pid i
    using s served_done [OF inv _ _ that prod.collapse [symmetric]] state.finished [OF inv that]
    by (simp add: work_conserving_def)
  show "work_conserving (on_instance rm P g s)" if "\<And>i. in_id (g i) = in_id i" "\<And>i. in_state (g i) = I_idle \<Longrightarrow> in_state i = I_idle"
    for rm P g
    by (rule keep [OF calm_on_instance state.on_instance [OF inv]]) (use that in auto)
  show "work_conserving (snd (tm_now s))"
    by (rule keep [OF calm_now state.now [OF inv]]) (rule prod.collapse [symmetric])
  show "work_conserving (snd (tm_blocking_send q (Tm_ready p) s))" for q p
    by (rule keep [OF calm_same state.ready [OF inv]]) (auto simp: tm_blocking_send_def Let_def dest: in_set_dropD)
  show "work_conserving (snd (insances ds s))" for ds
    by (rule keep [OF _ state.scaled [OF inv]]) (simp add: insances_def calm_directives)
  show "work_conserving (snd (flush_replies s))"
    by (rule keep [OF calm_flush_replies state.flushed [OF inv]])
  show "work_conserving (snd (start_instances s))"
  proof (rule keep [OF _ state.started [OF inv]])
    obtain r ps s' where st: "start_proxies (tm_resources s) s = (r, ps, s')" by (metis prod_cases3)
    note c = calm_start_proxies [OF st]
    then have "list_all2 no_new_idle (tm_resources s') ps" by simp
    with c calm_resources calm_trans have "calm s (s'\<lparr>tm_resources := ps\<rparr>)" by blast
    with st show "calm s (snd (start_instances s))" by (simp add: start_instances_def)
  qed
  show "work_conserving (s\<lparr>tm_resources := map (\<lambda>p. p\<lparr>rm_concurency := 0\<rparr>) (tm_resources s)\<rparr>)"
    by (rule keep [OF calm_resources state.retired [OF inv]])
      (simp add: list_all2_map2 list_all2_same no_new_idle_def)
qed

text \<open>
  C5: work does not wait for an idle instance. In a run of the manager, from its start over any sequence
  of messages, in which no queue is full or gone, no instance is idle, after any number of rounds, that
  serves a resource a pending request waits for.
\<close>

theorem no_idle_instance_while_work_waits:
  assumes "tm_configure switches config (tm_initial self broker l pushes clock pids) = Some s0"
    and "set pushes \<subseteq> {Push_sent}" and "manager_boot evs s0 = (r, s1)" and "pump rounds connected s1 = (e, s2)"
  shows "\<forall>q\<in>set (tm_pending s2). \<forall>rm\<in>set (pq_resources q). \<forall>p i.
    get_resource s2 rm = Inr p \<and> i \<in> set (rm_instances p) \<longrightarrow> in_state i \<noteq> I_idle"
proof -
  have "tm_pending s0 = []" "tm_push s0 = pushes"
    using assms(1) by (auto simp: tm_configure_def tm_initial_def split: if_splits)
  with inv_configured [OF assms(1)] assms(2) have "work_conserving s0"
    by (simp add: work_conserving_def served_def sure_def)
  from work.manager_boot [OF this, of evs] assms(3) have "work_conserving s1" by simp
  from work.pump [OF this, of rounds connected] assms(4) have "served s2" by (simp add: work_conserving_def)
  then show ?thesis by (fastforce simp: served_def list_all_iff busy_rm_def)
qed

end
