(* ===== verification/Tm_Examples.thy ===== *)
theory Tm_Examples
  imports Tm_Replies Tm_Decisions Tm_Work
begin

text \<open>
  A manager with two resources of one instance each, and a transaction of both: its properties apply to
  this run.
\<close>

section \<open>The run\<close>

definition no_log :: tm_log where
  "no_log = \<lparr>log_rows = [], log_durable = [], log_begun = False, log_prepares = 0, log_removes = 0, log_writes = 0\<rparr>"

definition sample_switches :: "(string \<times> string) list" where
  "sample_switches = [(''db'', ''rm-proxy'')]"

definition sample_config :: "rm_config list" where
  "sample_config = [\<lparr>rc_instances = 1, rc_id = 1, rc_key = ''db'', rc_openinfo = '''', rc_closeinfo = ''''\<rparr>,
     \<lparr>rc_instances = 1, rc_id = 2, rc_key = ''db'', rc_openinfo = '''', rc_closeinfo = ''''\<rparr>]"

definition sample_initial :: tm_state where
  "sample_initial = tm_initial \<lparr>ph_pid = 1, ph_queue = 10\<rparr> 5 no_log [] [] [11, 12]"

definition sample_start :: tm_state where
  "sample_start = the (tm_configure sample_switches sample_config sample_initial)"

definition sample_connects :: "tm_event list" where
  "sample_connects = [Ev_connect \<lparr>ph_pid = 11, ph_queue = 111\<rparr> 1 XA_OK, Ev_connect \<lparr>ph_pid = 12, ph_queue = 112\<rparr> 2 XA_OK]"

definition sample_tm :: tm_state where
  "sample_tm = snd (manager_boot sample_connects sample_start)"

definition sample_trid :: trid where
  "sample_trid = create_id (replicate 16 1) (replicate 16 2) [] \<lparr>ph_pid = 77, ph_queue = 770\<rparr>"

definition sample_commit :: user_request where
  "sample_commit = \<lparr>uq_correlation = 9, uq_process = \<lparr>ph_pid = 77, ph_queue = 770\<rparr>, uq_trid = sample_trid, uq_resources = [2, 1, 7]\<rparr>"

definition sample_reply :: "int \<Rightarrow> int \<Rightarrow> rm_reply" where
  "sample_reply rm code = \<lparr>rp_process = \<lparr>ph_pid = 10 + rm, ph_queue = 110 + rm\<rparr>, rp_trid = sample_trid,
     rp_resource = rm, rp_state = code, rp_start = 0, rp_end = 1\<rparr>"

definition sample_committed :: tm_state where
  "sample_committed = handle_commit sample_commit sample_tm"

text \<open>The first resource has replied to its prepare; the reply of the second is next.\<close>

definition sample_prepared :: tm_state where
  "sample_prepared = snd (reply_wrapper basic_prepare (sample_reply 1 XA_OK) sample_committed)"

definition sample_transaction :: transaction where
  "sample_transaction = hd (tm_transactions sample_prepared)"

definition sample_polls :: "tm_event option list" where
  "sample_polls = [Some (Ev_reply Rm_prepare False (sample_reply 1 XA_OK)), Some (Ev_reply Rm_prepare False (sample_reply 2 XA_OK))]"

definition sample_round :: tm_state where
  "sample_round = snd (pump_round (Ev_commit sample_commit) sample_polls True sample_tm)"

lemma sample_start_configured: "tm_configure sample_switches sample_config sample_initial = Some sample_start"
proof -
  have "tm_configure sample_switches sample_config sample_initial \<noteq> None" by code_simp
  then show ?thesis by (auto simp: sample_start_def)
qed

lemma sample_tm_reached: "tm_reach sample_tm"
proof -
  have "tm_reach sample_start"
    using sample_start_configured reach_configured by (simp add: sample_initial_def)
  then show ?thesis unfolding sample_tm_def by (rule reach_booted) (rule prod.collapse [symmetric])
qed

lemma sample_round_reached: "tm_reach sample_round"
  unfolding sample_round_def by (rule reach_round [OF sample_tm_reached]) (rule prod.collapse [symmetric])

section \<open>The properties at work\<close>

theorem reachable_transactions_are_consistent_witness:
  "distinct (map r_id (tx_resources (hd (tm_transactions sample_round)))) \<and> length (tm_transactions sample_round) = 1"
proof -
  have one: "length (tm_transactions sample_round) = 1" by code_simp
  then have "hd (tm_transactions sample_round) \<in> set (tm_transactions sample_round)" by (intro hd_in_set) auto
  with one reachable_transactions_are_consistent [OF sample_round_reached] show ?thesis by blast
qed

definition sample_both :: transaction where
  "sample_both = (new_transaction sample_trid)\<lparr>tx_resources := [new_resource 1, new_resource 2]\<rparr>"

definition sample_request :: "(tm_exn + unit) \<times> tm_state" where
  "sample_request = send_resource_request Rm_prepare False sample_both (stage_is S_involved) S_prepare_requested TMNOFLAGS sample_tm"


definition sample_decision :: "(tm_exn + bool) \<times> tm_state" where
  "sample_decision = basic_prepare (sample_reply 2 XA_OK) sample_transaction sample_prepared"




text \<open>A second transaction of the same resources: its prepares wait, and both instances are busy.\<close>

definition sample_other :: user_request where
  "sample_other = sample_commit\<lparr>uq_trid := create_id (replicate 16 3) (replicate 16 4) [] \<lparr>ph_pid = 78, ph_queue = 780\<rparr>\<rparr>"

definition sample_outcome :: "tm_exn option \<times> tm_state" where
  "sample_outcome = pump [(Ev_commit sample_commit, []), (Ev_commit sample_other, [])] True sample_tm"

definition sample_instance :: rm_instance where
  "sample_instance = hd (rm_instances (projr (get_resource (snd sample_outcome) 1)))"

theorem no_idle_instance_while_work_waits_witness:
  "map pq_resources (tm_pending (snd sample_outcome)) = [[1, 2]] \<and> in_state sample_instance \<noteq> I_idle"
proof
  show waits: "map pq_resources (tm_pending (snd sample_outcome)) = [[1, 2]]" by code_simp
  then obtain q where q: "q \<in> set (tm_pending (snd sample_outcome))" "1 \<in> set (pq_resources q)" by auto
  have "isl (get_resource (snd sample_outcome) 1) = False" by code_simp
  then have p: "get_resource (snd sample_outcome) 1 = Inr (projr (get_resource (snd sample_outcome) 1))"
    by (cases "get_resource (snd sample_outcome) 1") simp_all
  have "length (rm_instances (projr (get_resource (snd sample_outcome) 1))) = 1" by code_simp
  then have i: "sample_instance \<in> set (rm_instances (projr (get_resource (snd sample_outcome) 1)))"
    unfolding sample_instance_def by (intro hd_in_set) auto
  have boot: "manager_boot sample_connects sample_start = (fst (manager_boot sample_connects sample_start), sample_tm)"
    by (simp add: sample_tm_def)
  have run: "pump [(Ev_commit sample_commit, []), (Ev_commit sample_other, [])] True sample_tm =
      (fst sample_outcome, snd sample_outcome)"
    by (simp add: sample_outcome_def)
  from no_idle_instance_while_work_waits [OF sample_start_configured [unfolded sample_initial_def] _ boot run] q p i
  show "in_state sample_instance \<noteq> I_idle" by auto
qed

definition sample_proxy :: proxy where
  "sample_proxy = (hd (tm_resources sample_tm))\<lparr>rm_concurency := 3\<rparr>"

definition sample_spawning :: tm_state where
  "sample_spawning = sample_tm\<lparr>tm_pids := [13, 14, 15]\<rparr>"

theorem instances_follow_their_number_witness:
  "tm_pids (snd (snd (update_instances sample_proxy sample_spawning))) = [15]"
proof -
  have "fst (update_instances sample_proxy sample_spawning) = Inr ()" by code_simp
  then have "update_instances sample_proxy sample_spawning =
      (Inr (), fst (snd (update_instances sample_proxy sample_spawning)), snd (snd (update_instances sample_proxy sample_spawning)))"
    by (metis prod.collapse)
  from instances_follow_their_number [OF this] have
    "tm_pids (snd (snd (update_instances sample_proxy sample_spawning))) =
      drop (rm_concurency sample_proxy - length (rm_instances sample_proxy)) (tm_pids sample_spawning)" by blast
  moreover have "length (rm_instances sample_proxy) = 1" by code_simp
  moreover have "rm_concurency sample_proxy = 3" "tm_pids sample_spawning = [13, 14, 15]"
    by (simp_all add: sample_proxy_def sample_spawning_def)
  ultimately show ?thesis by simp
qed

end
