(* ===== verification/Queue_Database.thy ===== *)
theory Queue_Database
  imports Algorithm Xid
begin

text \<open>
  The queue database (\<open>queue/source/group/database.cpp\<close>): the tables of queues and messages, the
  triggers that keep the counters of a queue, and the statements of \<open>Database\<close> as operations on the
  tables. A statement that violates a constraint raises \<open>sql::database::exception::Query\<close> and leaves
  the tables as they were.
\<close>

section \<open>Tables\<close>

definition cGroupErrorQueue :: int where "cGroupErrorQueue = 1"
definition cErrorQueue :: int where "cErrorQueue = 2"
definition cQueue :: int where "cQueue = 3"

datatype message_state = added | enqueued | removed | dequeued

record queue_row =
  qr_id :: int
  qr_name :: string
  qr_retries :: int
  qr_error :: int
  qr_type :: int
  qr_count :: int
  qr_size :: int
  qr_uncommitted :: int
  qr_timestamp :: int

text \<open>
  An empty range and an empty vector have no address, and are bound as null: the global transaction id
  of a message that was not enqueued in a transaction, and an empty payload.
\<close>

record message_row =
  mr_rowid :: int
  mr_id :: uuid
  mr_queue :: int
  mr_origin :: int
  mr_gtrid :: "byte list option"
  mr_properties :: string
  mr_state :: message_state
  mr_reply :: string
  mr_redelivered :: int
  mr_type :: string
  mr_subtype :: string
  mr_avalible :: int
  mr_timestamp :: int
  mr_payload :: "byte list option"

record tables =
  t_queues :: "queue_row list"
  t_messages :: "message_row list"

definition bound :: "byte list \<Rightarrow> byte list option" where
  "bound bs = (if bs = [] then None else Some bs)"

text \<open>\<open>global( trid)\<close> as it is bound: the range of a null id is empty.\<close>

definition bound_gtrid :: "trid \<Rightarrow> byte list option" where
  "bound_gtrid t = bound (xid_global (t_xid t))"

definition has_trid :: "trid \<Rightarrow> bool" where
  "has_trid t \<longleftrightarrow> \<not> xid_null (t_xid t)"

section \<open>Statements\<close>

datatype sql_error = Sql_query_failed

type_synonym 'a db = "tables \<Rightarrow> (sql_error + 'a) \<times> tables"

definition db_return :: "'a \<Rightarrow> 'a db" where
  "db_return x t = (Inr x, t)"

definition db_bind :: "'a db \<Rightarrow> ('a \<Rightarrow> 'b db) \<Rightarrow> 'b db" where
  "db_bind f g t = (case f t of (Inl e, t') \<Rightarrow> (Inl e, t') | (Inr x, t') \<Rightarrow> g x t')"

definition statement :: "(tables \<Rightarrow> tables option) \<Rightarrow> unit db" where
  "statement f t = (case f t of None \<Rightarrow> (Inl Sql_query_failed, t) | Some t' \<Rightarrow> (Inr (), t'))"

definition db_query :: "(tables \<Rightarrow> 'a) \<Rightarrow> 'a db" where
  "db_query f t = (Inr (f t), t)"

text \<open>The foreign key of the messages.\<close>

definition fk_ok :: "tables \<Rightarrow> bool" where
  "fk_ok t = list_all (\<lambda>m. mr_queue m \<in> qr_id ` set (t_queues t)) (t_messages t)"

definition next_id :: "int list \<Rightarrow> int" where
  "next_id xs = (if xs = [] then 1 else Max (set xs) + 1)"

section \<open>Triggers\<close>

text \<open>\<open>UPDATE queue SET ... WHERE id = k\<close>\<close>

definition update_queue :: "int \<Rightarrow> (queue_row \<Rightarrow> queue_row option) \<Rightarrow> queue_row list \<Rightarrow> queue_row list option" where
  "update_queue k f qs = those (map (\<lambda>q. if qr_id q = k then f q else Some q) qs)"

text \<open>
  A message more or less in the counters of its queue. The length of a null payload is null, and the
  size of a queue must not be.
\<close>

definition tally :: "int \<Rightarrow> message_row \<Rightarrow> queue_row \<Rightarrow> queue_row option" where
  "tally d m q = (case mr_payload m of None \<Rightarrow> None
     | Some p \<Rightarrow> Some (q\<lparr>qr_count := qr_count q + d, qr_size := qr_size q + d * int (length p)\<rparr>))"

definition insert_message_trigger :: "message_row \<Rightarrow> queue_row list \<Rightarrow> queue_row list option" where
  "insert_message_trigger m qs =
     (if mr_state m = added then update_queue (mr_queue m)
        (\<lambda>q. Some (q\<lparr>qr_timestamp := mr_timestamp m, qr_uncommitted := qr_uncommitted q + 1\<rparr>)) qs
      else if mr_state m = enqueued then update_queue (mr_queue m)
        (\<lambda>q. map_option (\<lambda>q. q\<lparr>qr_timestamp := mr_timestamp m\<rparr>) (tally 1 m q)) qs
      else Some qs)"

definition update_state_trigger :: "message_row \<Rightarrow> message_row \<Rightarrow> queue_row list \<Rightarrow> queue_row list option" where
  "update_state_trigger old new qs =
     (if mr_state old = added \<and> mr_state new = enqueued then update_queue (mr_queue new)
        (\<lambda>q. map_option (\<lambda>q. q\<lparr>qr_uncommitted := qr_uncommitted q - 1\<rparr>) (tally 1 new q)) qs
      else Some qs)"

definition update_queue_trigger :: "message_row \<Rightarrow> message_row \<Rightarrow> queue_row list \<Rightarrow> queue_row list option" where
  "update_queue_trigger old new qs =
     (if mr_queue new \<noteq> mr_queue old then
        Option.bind (update_queue (mr_queue new) (tally 1 new) qs)
          (update_queue (mr_queue old) (tally (- 1) old))
      else Some qs)"

definition delete_message_trigger :: "message_row \<Rightarrow> queue_row list \<Rightarrow> queue_row list option" where
  "delete_message_trigger m qs =
     (if mr_state m = enqueued \<or> mr_state m = removed then update_queue (mr_queue m) (tally (- 1) m) qs
      else if mr_state m = added then update_queue (mr_queue m)
        (\<lambda>q. Some (q\<lparr>qr_uncommitted := qr_uncommitted q - 1\<rparr>)) qs
      else Some qs)"

text \<open>
  \<open>UPDATE message SET ... WHERE ...\<close> and \<open>DELETE FROM message WHERE ...\<close>: row by row, each with its
  trigger.
\<close>

fun update_messages :: "(message_row \<Rightarrow> bool) \<Rightarrow> (message_row \<Rightarrow> message_row) \<Rightarrow>
    (message_row \<Rightarrow> message_row \<Rightarrow> queue_row list \<Rightarrow> queue_row list option) \<Rightarrow>
    message_row list \<Rightarrow> queue_row list \<Rightarrow> (message_row list \<times> queue_row list) option" where
  "update_messages P f trigger [] qs = Some ([], qs)"
| "update_messages P f trigger (m # ms) qs =
     (if P m then
        (case trigger m (f m) qs of None \<Rightarrow> None
         | Some qs' \<Rightarrow> map_option (\<lambda>(ms', qs''). (f m # ms', qs'')) (update_messages P f trigger ms qs'))
      else map_option (\<lambda>(ms', qs''). (m # ms', qs'')) (update_messages P f trigger ms qs))"

fun delete_messages :: "(message_row \<Rightarrow> bool) \<Rightarrow> message_row list \<Rightarrow> queue_row list \<Rightarrow>
    (message_row list \<times> queue_row list) option" where
  "delete_messages P [] qs = Some ([], qs)"
| "delete_messages P (m # ms) qs =
     (if P m then
        (case delete_message_trigger m qs of None \<Rightarrow> None | Some qs' \<Rightarrow> delete_messages P ms qs')
      else map_option (\<lambda>(ms', qs'). (m # ms', qs')) (delete_messages P ms qs))"

definition on_messages :: "(message_row list \<Rightarrow> queue_row list \<Rightarrow> (message_row list \<times> queue_row list) option) \<Rightarrow>
    tables \<Rightarrow> tables option" where
  "on_messages f t = (case f (t_messages t) (t_queues t) of None \<Rightarrow> None
     | Some (ms, qs) \<Rightarrow> let t' = t\<lparr>t_messages := ms, t_queues := qs\<rparr> in if fk_ok t' then Some t' else None)"

section \<open>The database is opened\<close>

text \<open>
  \<open>INSERT OR REPLACE INTO queue\<close>: the rows with the same id or the same name are gone. An empty group
  name is replaced by a new uuid; \<open>name\<close> is the name used. Rows are listed by id.
\<close>

definition db_open :: "string \<Rightarrow> int \<Rightarrow> unit db" where
  "db_open name now = statement (\<lambda>t.
     let row = \<lparr>qr_id = 1, qr_name = name @ ''.group.error'', qr_retries = 0, qr_error = 1,
                qr_type = cGroupErrorQueue, qr_count = 0, qr_size = 0, qr_uncommitted = 0, qr_timestamp = now\<rparr>;
         t' = t\<lparr>t_queues := row # filter (\<lambda>q. qr_id q \<noteq> 1 \<and> qr_name q \<noteq> qr_name row) (t_queues t)\<rparr>
     in if fk_ok t' then Some t' else None)"

definition no_tables :: tables where
  "no_tables = \<lparr>t_queues = [], t_messages = []\<rparr>"

section \<open>Queues\<close>

record queue_info =
  qi_id :: int
  qi_name :: string
  qi_retries :: nat
  qi_error :: int
  qi_type :: int

definition error_queue :: int where "error_queue = 1"

definition insert_queue :: "string \<Rightarrow> int \<Rightarrow> int \<Rightarrow> int \<Rightarrow> int \<Rightarrow> int db" where
  "insert_queue name retries err type now t =
     (let row = next_id (map qr_id (t_queues t)) in
      if name \<in> qr_name ` set (t_queues t) then (Inl Sql_query_failed, t)
      else (Inr row, t\<lparr>t_queues := t_queues t @ [\<lparr>qr_id = row, qr_name = name, qr_retries = retries,
          qr_error = err, qr_type = type, qr_count = 0, qr_size = 0, qr_uncommitted = 0, qr_timestamp = now\<rparr>]\<rparr>))"

definition db_create :: "int \<Rightarrow> queue_info \<Rightarrow> queue_info db" where
  "db_create now q =
     db_bind (insert_queue (qi_name q @ ''.error'') (int (qi_retries q)) error_queue cErrorQueue now) (\<lambda>err.
     db_bind (insert_queue (qi_name q) (int (qi_retries q)) err cQueue now) (\<lambda>row.
     db_return (q\<lparr>qi_error := err, qi_id := row, qi_type := cQueue\<rparr>)))"

text \<open>
  \<open>Database::queue\<close>: the type is read from a column the statement does not select; it is not used.
\<close>

definition db_queue :: "int \<Rightarrow> tables \<Rightarrow> queue_row option" where
  "db_queue i t = find (\<lambda>q. qr_id q = i \<and> qr_type q = cQueue) (t_queues t)"

definition rename_queue :: "string \<Rightarrow> int \<Rightarrow> int \<Rightarrow> unit db" where
  "rename_queue name retries i = statement (\<lambda>t.
     if list_ex (\<lambda>q. qr_id q \<noteq> i \<and> qr_name q = name) (t_queues t) \<and> i \<in> qr_id ` set (t_queues t) then None
     else Some (t\<lparr>t_queues := map (\<lambda>q. if qr_id q = i then q\<lparr>qr_name := name, qr_retries := retries\<rparr> else q) (t_queues t)\<rparr>))"

definition db_update_queue :: "queue_info \<Rightarrow> unit db" where
  "db_update_queue q t =
     (case db_queue (qi_id q) t of
        None \<Rightarrow> (Inr (), t)
      | Some existing \<Rightarrow>
          db_bind (rename_queue (qi_name q) (int (qi_retries q)) (qi_id q))
            (\<lambda>_. rename_queue (qi_name q @ ''.error'') (int (qi_retries q)) (qr_error existing)) t)"

definition delete_queue :: "int \<Rightarrow> unit db" where
  "delete_queue i = statement (\<lambda>t.
     let t' = t\<lparr>t_queues := filter (\<lambda>q. qr_id q \<noteq> i) (t_queues t)\<rparr> in if fk_ok t' then Some t' else None)"

definition db_remove_queue :: "int \<Rightarrow> unit db" where
  "db_remove_queue i t =
     (case db_queue i t of
        None \<Rightarrow> (Inr (), t)
      | Some existing \<Rightarrow> db_bind (delete_queue (qr_error existing)) (\<lambda>_. delete_queue (qr_id existing)) t)"

fun db_each :: "('a \<Rightarrow> 'b db) \<Rightarrow> 'a list \<Rightarrow> 'b list db" where
  "db_each f [] t = (Inr [], t)"
| "db_each f (x # xs) t = db_bind (f x) (\<lambda>y. db_bind (db_each f xs) (\<lambda>ys. db_return (y # ys))) t"

section \<open>Messages\<close>

record base_message =
  bm_id :: uuid
  bm_properties :: string
  bm_reply :: string
  bm_avalible :: int
  bm_type :: string
  bm_subtype :: string
  bm_payload :: "byte list"

record enqueue_request =
  er_correlation :: uuid
  er_process :: process_handle
  er_trid :: trid
  er_queue :: int
  er_message :: base_message

record dequeue_request =
  dr_correlation :: uuid
  dr_process :: process_handle
  dr_trid :: trid
  dr_queue :: int
  dr_properties :: string
  dr_id :: uuid
  dr_block :: bool

record dequeued_message =
  dm_id :: uuid
  dm_properties :: string
  dm_reply :: string
  dm_redelivered :: int
  dm_type :: string
  dm_subtype :: string
  dm_avalible :: int
  dm_timestamp :: int
  dm_payload :: "byte list"

definition reply_message :: "message_row \<Rightarrow> dequeued_message" where
  "reply_message m = \<lparr>dm_id = mr_id m, dm_properties = mr_properties m, dm_reply = mr_reply m,
     dm_redelivered = mr_redelivered m, dm_type = mr_type m, dm_subtype = mr_subtype m,
     dm_avalible = mr_avalible m, dm_timestamp = mr_timestamp m,
     dm_payload = (case mr_payload m of None \<Rightarrow> [] | Some p \<Rightarrow> p)\<rparr>"

text \<open>\<open>fresh\<close> is the uuid made when the message has none.\<close>

definition message_id :: "uuid \<Rightarrow> enqueue_request \<Rightarrow> uuid" where
  "message_id fresh r = (if bm_id (er_message r) \<noteq> nil_uuid then bm_id (er_message r) else fresh)"

definition new_message :: "uuid \<Rightarrow> int \<Rightarrow> enqueue_request \<Rightarrow> tables \<Rightarrow> message_row" where
  "new_message fresh now r t =
     \<lparr>mr_rowid = next_id (map mr_rowid (t_messages t)), mr_id = message_id fresh r, mr_queue = er_queue r,
      mr_origin = er_queue r, mr_gtrid = bound_gtrid (er_trid r), mr_properties = bm_properties (er_message r),
      mr_state = (if has_trid (er_trid r) then added else enqueued), mr_reply = bm_reply (er_message r),
      mr_redelivered = 0, mr_type = bm_type (er_message r), mr_subtype = bm_subtype (er_message r),
      mr_avalible = bm_avalible (er_message r), mr_timestamp = now, mr_payload = bound (bm_payload (er_message r))\<rparr>"

definition insert_message :: "message_row \<Rightarrow> tables \<Rightarrow> tables option" where
  "insert_message m t =
     (if mr_id m \<in> mr_id ` set (t_messages t) then None
      else on_messages (\<lambda>ms qs. map_option (\<lambda>qs'. (ms @ [m], qs')) (insert_message_trigger m qs)) t)"

definition db_enqueue :: "uuid \<Rightarrow> int \<Rightarrow> enqueue_request \<Rightarrow> uuid db" where
  "db_enqueue fresh now r t =
     db_bind (statement (insert_message (new_message fresh now r t))) (\<lambda>_. db_return (message_id fresh r)) t"

text \<open>
  The three selects of a dequeue. A message is there to be dequeued when it is committed, and its time has
  come. Of those the first has the least timestamp, and the least row of that timestamp.
\<close>

definition dequeable :: "int \<Rightarrow> int \<Rightarrow> message_row \<Rightarrow> bool" where
  "dequeable queue now m \<longleftrightarrow> mr_queue m = queue \<and> mr_state m = enqueued \<and> mr_avalible m < now"

definition selected :: "dequeue_request \<Rightarrow> message_row \<Rightarrow> bool" where
  "selected r m \<longleftrightarrow>
     (if dr_id r \<noteq> nil_uuid then mr_id m = dr_id r
      else if dr_properties r \<noteq> [] then mr_properties m = dr_properties r else True)"

definition first_message :: "int \<Rightarrow> dequeue_request \<Rightarrow> tables \<Rightarrow> message_row option" where
  "first_message now r t =
     (case sort_key mr_timestamp (filter (\<lambda>m. dequeable (dr_queue r) now m \<and> selected r m) (t_messages t)) of
        [] \<Rightarrow> None | m # _ \<Rightarrow> Some m)"

definition mark_removed :: "byte list option \<Rightarrow> int \<Rightarrow> tables \<Rightarrow> tables option" where
  "mark_removed gtrid row = on_messages (update_messages (\<lambda>m. mr_rowid m = row)
     (\<lambda>m. m\<lparr>mr_gtrid := gtrid, mr_state := removed\<rparr>) update_state_trigger)"

definition delete_row :: "int \<Rightarrow> tables \<Rightarrow> tables option" where
  "delete_row row = on_messages (delete_messages (\<lambda>m. mr_rowid m = row))"

definition db_dequeue :: "int \<Rightarrow> dequeue_request \<Rightarrow> dequeued_message option db" where
  "db_dequeue now r t =
     (case first_message now r t of
        None \<Rightarrow> (Inr None, t)
      | Some m \<Rightarrow>
          db_bind (statement (if has_trid (dr_trid r) then mark_removed (bound_gtrid (dr_trid r)) (mr_rowid m)
                              else delete_row (mr_rowid m)))
            (\<lambda>_. db_return (Some (reply_message m))) t)"

section \<open>Transactions\<close>

text \<open>\<open>gtrid = :gtrid\<close> is not true when either is null.\<close>

definition of_gtrid :: "byte list option \<Rightarrow> message_state \<Rightarrow> message_row \<Rightarrow> bool" where
  "of_gtrid gtrid st m \<longleftrightarrow> gtrid \<noteq> None \<and> mr_gtrid m = gtrid \<and> mr_state m = st"

definition commit1 :: "byte list option \<Rightarrow> tables \<Rightarrow> tables option" where
  "commit1 gtrid = on_messages (update_messages (of_gtrid gtrid added) (\<lambda>m. m\<lparr>mr_state := enqueued\<rparr>) update_state_trigger)"

definition commit2 :: "byte list option \<Rightarrow> tables \<Rightarrow> tables option" where
  "commit2 gtrid = on_messages (delete_messages (of_gtrid gtrid removed))"

definition db_commit :: "trid \<Rightarrow> unit db" where
  "db_commit x = db_bind (statement (commit1 (bound_gtrid x))) (\<lambda>_. statement (commit2 (bound_gtrid x)))"

definition rollback1 :: "byte list option \<Rightarrow> tables \<Rightarrow> tables option" where
  "rollback1 gtrid = on_messages (delete_messages (of_gtrid gtrid added))"

definition rollback2 :: "byte list option \<Rightarrow> tables \<Rightarrow> tables option" where
  "rollback2 gtrid = on_messages (update_messages (of_gtrid gtrid removed)
     (\<lambda>m. m\<lparr>mr_state := enqueued, mr_redelivered := mr_redelivered m + 1\<rparr>) update_state_trigger)"

text \<open>All messages, of whatever transaction, that were redelivered too often move to the error queue.\<close>

definition exhausted :: "queue_row list \<Rightarrow> message_row \<Rightarrow> bool" where
  "exhausted qs m \<longleftrightarrow> (case find (\<lambda>q. qr_id q = mr_queue m) qs of None \<Rightarrow> False
     | Some q \<Rightarrow> mr_redelivered m > qr_retries q)"

definition to_error :: "queue_row list \<Rightarrow> message_row \<Rightarrow> message_row" where
  "to_error qs m = (case find (\<lambda>q. qr_id q = mr_queue m) qs of None \<Rightarrow> m
     | Some q \<Rightarrow> m\<lparr>mr_redelivered := 0, mr_queue := qr_error q\<rparr>)"

definition rollback3 :: "tables \<Rightarrow> tables option" where
  "rollback3 t = on_messages (update_messages (exhausted (t_queues t)) (to_error (t_queues t)) update_queue_trigger) t"

definition db_rollback :: "trid \<Rightarrow> unit db" where
  "db_rollback x =
     db_bind (statement (rollback1 (bound_gtrid x))) (\<lambda>_.
     db_bind (statement (rollback2 (bound_gtrid x))) (\<lambda>_. statement rollback3))"

definition db_committed :: "trid \<Rightarrow> tables \<Rightarrow> int list" where
  "db_committed x t = remdups (map mr_queue (filter (of_gtrid (bound_gtrid x) enqueued) (t_messages t)))"

definition db_update :: "int \<Rightarrow> queue_info list \<Rightarrow> int list \<Rightarrow> queue_info list db" where
  "db_update now qs remove =
     (case range_partition (\<lambda>q. qi_id q = 0) qs of (create, change) \<Rightarrow>
        db_bind (db_each (db_create now) create) (\<lambda>created.
        db_bind (db_each db_update_queue change) (\<lambda>_.
        db_bind (db_each db_remove_queue remove) (\<lambda>_. db_return created))))"

definition db_queues :: "tables \<Rightarrow> queue_row list" where
  "db_queues t = t_queues t"

record message_info =
  mi_id :: uuid
  mi_queue :: int
  mi_origin :: int
  mi_trid :: "byte list"
  mi_state :: message_state
  mi_reply :: string
  mi_redelivered :: int
  mi_type :: string
  mi_subtype :: string
  mi_avalible :: int
  mi_timestamp :: int
  mi_size :: nat

text \<open>A null is read as no bytes, and its length as none.\<close>

definition information_message :: "message_row \<Rightarrow> message_info" where
  "information_message m = \<lparr>mi_id = mr_id m, mi_queue = mr_queue m, mi_origin = mr_origin m,
     mi_trid = (case mr_gtrid m of None \<Rightarrow> [] | Some g \<Rightarrow> g), mi_state = mr_state m, mi_reply = mr_reply m,
     mi_redelivered = mr_redelivered m, mi_type = mr_type m, mi_subtype = mr_subtype m,
     mi_avalible = mr_avalible m, mi_timestamp = mr_timestamp m,
     mi_size = (case mr_payload m of None \<Rightarrow> 0 | Some p \<Rightarrow> length p)\<rparr>"

definition db_messages :: "int \<Rightarrow> tables \<Rightarrow> message_info list" where
  "db_messages i t = map information_message (filter (\<lambda>m. mr_queue m = i) (t_messages t))"

section \<open>The connection\<close>

text \<open>
  The tables, what a restart would find of them, and whether a database transaction is open. A statement
  outside of one is written at once.
\<close>

record database =
  d_tables :: tables
  d_durable :: tables
  d_begun :: bool

definition in_db :: "'a db \<Rightarrow> database \<Rightarrow> (sql_error + 'a) \<times> database" where
  "in_db f d = (case f (d_tables d) of (r, t) \<Rightarrow>
     (r, d\<lparr>d_tables := t, d_durable := (if d_begun d then d_durable d else t)\<rparr>))"

definition exclusive_begin :: "database \<Rightarrow> database" where
  "exclusive_begin d = d\<lparr>d_begun := True\<rparr>"

definition connection_commit :: "database \<Rightarrow> database" where
  "connection_commit d = (if d_begun d then d\<lparr>d_durable := d_tables d, d_begun := False\<rparr> else d)"

definition connection_rollback :: "database \<Rightarrow> database" where
  "connection_rollback d = (if d_begun d then d\<lparr>d_tables := d_durable d, d_begun := False\<rparr> else d)"

end
