(* ===== verification/Effects.thy ===== *)
theory Effects
  imports Casual_Prelude
begin

text \<open>
  Code with effects: a function on a state whose result is an exception or a value. A block with
  exception handler is \<open>catch\<close>; the state is the one the exception left.
\<close>

type_synonym ('s, 'e, 'a) effect = "'s \<Rightarrow> ('e + 'a) \<times> 's"

definition return :: "'a \<Rightarrow> ('s, 'e, 'a) effect" where
  "return x s = (Inr x, s)"

definition throw :: "'e \<Rightarrow> ('s, 'e, 'a) effect" where
  "throw e s = (Inl e, s)"

definition after :: "('s, 'e, 'a) effect \<Rightarrow> ('a \<Rightarrow> ('s, 'e, 'b) effect) \<Rightarrow> ('s, 'e, 'b) effect" where
  "after f g s = (case f s of (Inl e, s') \<Rightarrow> (Inl e, s') | (Inr x, s') \<Rightarrow> g x s')"

definition catch :: "('s, 'e, 'a) effect \<Rightarrow> ('e \<Rightarrow> ('s, 'e, 'a) effect) \<Rightarrow> ('s, 'e, 'a) effect" where
  "catch f h s = (case f s of (Inl e, s') \<Rightarrow> h e s' | (Inr x, s') \<Rightarrow> (Inr x, s'))"

definition read_state :: "('s \<Rightarrow> 'a) \<Rightarrow> ('s, 'e, 'a) effect" where
  "read_state f s = (Inr (f s), s)"

definition change :: "('s \<Rightarrow> 's) \<Rightarrow> ('s, 'e, unit) effect" where
  "change f s = (Inr (), f s)"

fun for_each :: "('a \<Rightarrow> ('s, 'e, unit) effect) \<Rightarrow> 'a list \<Rightarrow> ('s, 'e, unit) effect" where
  "for_each f [] s = (Inr (), s)"
| "for_each f (x # xs) s = after (f x) (\<lambda>_. for_each f xs) s"

lemma after_assoc: "after (after f g) h = after f (\<lambda>x. after (g x) h)"
  by (rule ext) (simp add: after_def split: prod.split sum.split)

text \<open>The effects that keep a property of the state, whatever their result.\<close>

definition maintains :: "('s \<Rightarrow> bool) \<Rightarrow> ('s, 'e, 'a) effect \<Rightarrow> bool" where
  "maintains P f \<longleftrightarrow> (\<forall>s. P s \<longrightarrow> P (snd (f s)))"

lemma maintainsD: "maintains P f \<Longrightarrow> P s \<Longrightarrow> f s = (r, s') \<Longrightarrow> P s'"
  unfolding maintains_def by (metis snd_conv)

lemma maintains_after [wf_intros]:
  assumes "maintains P f" "\<And>x. maintains P (g x)"
  shows "maintains P (after f g)"
  using assms unfolding maintains_def after_def by (auto split: prod.split sum.split)

lemma maintains_catch [wf_intros]:
  assumes "maintains P f" "\<And>e. maintains P (h e)"
  shows "maintains P (catch f h)"
  using assms unfolding maintains_def catch_def by (auto split: prod.split sum.split)

lemma maintains_return [wf_intros]: "maintains P (return x)"
  by (simp add: maintains_def return_def)

lemma maintains_throw [wf_intros]: "maintains P (throw e)"
  by (simp add: maintains_def throw_def)

lemma maintains_read [wf_intros]: "maintains P (read_state f)"
  by (simp add: maintains_def read_state_def)

lemma maintains_change [wf_intros]: "(\<And>s. P s \<Longrightarrow> P (f s)) \<Longrightarrow> maintains P (change f)"
  by (simp add: maintains_def change_def)

lemma maintains_if [wf_intros]: "(b \<Longrightarrow> maintains P f) \<Longrightarrow> (\<not> b \<Longrightarrow> maintains P g) \<Longrightarrow> maintains P (if b then f else g)"
  by simp

lemma maintains_for_each [wf_intros]: "(\<And>x. maintains P (f x)) \<Longrightarrow> maintains P (for_each f xs)"
proof (induction xs)
  case (Cons x xs)
  then have "maintains P (after (f x) (\<lambda>_. for_each f xs))" by (intro wf_intros) simp_all
  then show ?case by (simp add: maintains_def)
qed (simp add: maintains_def)

text \<open>The exceptions an effect may raise.\<close>

definition raises :: "'e set \<Rightarrow> ('s, 'e, 'a) effect \<Rightarrow> bool" where
  "raises X f \<longleftrightarrow> (\<forall>s e s'. f s = (Inl e, s') \<longrightarrow> e \<in> X)"

lemma raises_after: "raises X f \<Longrightarrow> (\<And>x. raises X (g x)) \<Longrightarrow> raises X (after f g)"
  unfolding raises_def after_def by (auto split: prod.splits sum.splits)

lemma raises_catch:
  assumes "raises X f" "\<And>e. e \<in> X \<Longrightarrow> raises Y (h e)"
  shows "raises Y (catch f h)"
  unfolding raises_def catch_def
proof (intro allI impI)
  fix s e s' assume c: "(case f s of (Inl e, s') \<Rightarrow> h e s' | (Inr x, s') \<Rightarrow> (Inr x, s')) = (Inl e, s')"
  then obtain e1 s1 where f: "f s = (Inl e1, s1)" by (cases "f s"; cases "fst (f s)") auto
  with c have "h e1 s1 = (Inl e, s')" by simp
  moreover have "e1 \<in> X" using assms(1) f by (auto simp: raises_def)
  ultimately show "e \<in> Y" using assms(2) by (auto simp: raises_def)
qed

lemma raises_return: "raises X (return x)" and raises_change: "raises X (change f)" and raises_read: "raises X (read_state h)"
  by (simp_all add: raises_def return_def change_def read_state_def)

lemma raises_throw: "e \<in> X \<Longrightarrow> raises X (throw e)"
  by (simp add: raises_def throw_def)

lemma raises_if: "(b \<Longrightarrow> raises X f) \<Longrightarrow> (\<not> b \<Longrightarrow> raises X g) \<Longrightarrow> raises X (if b then f else g)"
  by simp

lemmas raises_intros = raises_after raises_return raises_change raises_read raises_if

text \<open>One that raises nothing returns.\<close>

lemma raises_none: "raises {} f \<Longrightarrow> \<exists>x s'. f s = (Inr x, s')"
  unfolding raises_def by (metis empty_iff obj_sumE surj_pair)

text \<open>
  A Hoare logic: from a state with \<open>P\<close> the effect returns with \<open>Q\<close>, or raises with \<open>R\<close>.
\<close>

definition triple :: "('s \<Rightarrow> bool) \<Rightarrow> ('s, 'e, 'a) effect \<Rightarrow> ('a \<Rightarrow> 's \<Rightarrow> bool) \<Rightarrow> ('e \<Rightarrow> 's \<Rightarrow> bool) \<Rightarrow> bool" where
  "triple P f Q R \<longleftrightarrow> (\<forall>s. P s \<longrightarrow> (case f s of (Inl e, s') \<Rightarrow> R e s' | (Inr x, s') \<Rightarrow> Q x s'))"

lemma triple_after:
  assumes "triple P f Q R" "\<And>x. triple (Q x) (g x) Q' R"
  shows "triple P (after f g) Q' R"
  unfolding triple_def
proof (intro allI impI)
  fix s assume "P s"
  with assms(1) have 1: "case f s of (Inl e, s') \<Rightarrow> R e s' | (Inr x, s') \<Rightarrow> Q x s'" by (simp add: triple_def)
  obtain r s1 where f: "f s = (r, s1)" by fastforce
  show "case after f g s of (Inl e, s') \<Rightarrow> R e s' | (Inr x, s') \<Rightarrow> Q' x s'"
  proof (cases r)
    case (Inl e)
    with 1 f show ?thesis by (simp add: after_def)
  next
    case (Inr x)
    with 1 f have "Q x s1" by simp
    with assms(2) [of x] f Inr show ?thesis by (simp add: triple_def after_def)
  qed
qed

lemma triple_catch:
  assumes "triple P f Q R" "\<And>e. triple (R e) (h e) Q R'"
  shows "triple P (catch f h) Q R'"
  unfolding triple_def
proof (intro allI impI)
  fix s assume "P s"
  with assms(1) have 1: "case f s of (Inl e, s') \<Rightarrow> R e s' | (Inr x, s') \<Rightarrow> Q x s'" by (simp add: triple_def)
  obtain r s1 where f: "f s = (r, s1)" by fastforce
  show "case catch f h s of (Inl e, s') \<Rightarrow> R' e s' | (Inr x, s') \<Rightarrow> Q x s'"
  proof (cases r)
    case (Inr x)
    with 1 f show ?thesis by (simp add: catch_def)
  next
    case (Inl e)
    with 1 f have "R e s1" by simp
    with assms(2) [of e] f Inl show ?thesis by (simp add: triple_def catch_def)
  qed
qed

lemma triple_return: "(\<And>s. P s \<Longrightarrow> Q x s) \<Longrightarrow> triple P (return x) Q R"
  by (simp add: triple_def return_def)

lemma triple_throw: "(\<And>s. P s \<Longrightarrow> R e s) \<Longrightarrow> triple P (throw e) Q R"
  by (simp add: triple_def throw_def)

lemma triple_change: "(\<And>s. P s \<Longrightarrow> Q () (f s)) \<Longrightarrow> triple P (change f) Q R"
  by (simp add: triple_def change_def)

lemma triple_if: "(b \<Longrightarrow> triple P f Q R) \<Longrightarrow> (\<not> b \<Longrightarrow> triple P g Q R) \<Longrightarrow> triple P (if b then f else g) Q R"
  by simp

lemma triple_weaken:
  assumes "triple P f Q R" "\<And>x s. Q x s \<Longrightarrow> Q' x s" "\<And>e s. R e s \<Longrightarrow> R' e s"
  shows "triple P f Q' R'"
  using assms unfolding triple_def by (auto split: prod.splits sum.splits)

lemma maintains_triple: "maintains P f \<longleftrightarrow> triple P f (\<lambda>_. P) (\<lambda>_. P)"
  unfolding maintains_def triple_def by (auto split: prod.split sum.split) (metis snd_conv sum.exhaust prod.collapse)+

end
