(* ===== verification/Queue_Group.thy ===== *)
theory Queue_Group
  imports Queue_Database Effects
begin

text \<open>
  A queue group (\<open>queue/source/group/group.cpp\<close>, \<open>queue/source/group/handle.cpp\<close>): the process that
  owns a queue database. Its state, the requests that wait for a message (\<open>State::Pending\<close>), a handler
  for each message, and the pump that runs many handlers within one transaction of the database and sends
  the replies that wait for it afterwards.
\<close>

section \<open>Messages and state\<close>

datatype group_message =
    Queue_connect_request process_handle
  | Dead_registration process_handle
  | Queue_information process_handle "queue_row list"
  | Group_involved process_handle trid
  | Enqueue_reply uuid uuid
  | Dequeue_reply uuid "dequeued_message list"
  | Forget_reply uuid bool
  | Group_commit_reply uuid process_handle trid int
  | Group_rollback_reply uuid process_handle trid int
  | Queues_reply uuid process_handle "queue_row list"
  | Messages_reply uuid process_handle "message_info list"

text \<open>\<open>pending::Message\<close> with \<open>Targets::all\<close>\<close>

record persistent_message =
  pm_targets :: "int list"
  pm_message :: group_message

record forget_request =
  fr_correlation :: uuid
  fr_process :: process_handle
  fr_queue :: int

record rm_request =
  rr_correlation :: uuid
  rr_process :: process_handle
  rr_trid :: trid

text \<open>
  \<open>State::Pending\<close>: the blocked dequeue requests, and for each transaction how many messages it has
  enqueued to each queue someone waits for. The map is ordered by the comparison of identifiers: there is one
  entry for identifiers that are the same.
\<close>

record pending =
  pe_requests :: "dequeue_request list"
  pe_transactions :: "(trid \<times> (int \<rightharpoonup> nat)) list"

datatype group_exn = G_unavailable | G_sql | G_shutdown

text \<open>What a push on a queue meets. A blocking send waits while the queue is full.\<close>

datatype group_push = P_sent | P_full | P_gone

record group_state =
  gs_db :: database
  gs_persistent :: "persistent_message list"
  gs_pending :: pending
  gs_self :: process_handle
  gs_broker :: int
  gs_domain :: int
  gs_sent :: "(int \<times> group_message) list"
  gs_push :: "group_push list"
  gs_clock :: "int list"
  gs_uuids :: "uuid list"

type_synonym 'a group = "(group_state, group_exn, 'a) effect"

section \<open>The environment\<close>

definition group_push :: "int \<Rightarrow> group_message \<Rightarrow> bool group" where
  "group_push queue m s =
     (case gs_push s of
        [] \<Rightarrow> (Inr True, s\<lparr>gs_sent := gs_sent s @ [(queue, m)]\<rparr>)
      | P_sent # os \<Rightarrow> (Inr True, s\<lparr>gs_push := os, gs_sent := gs_sent s @ [(queue, m)]\<rparr>)
      | P_full # os \<Rightarrow> (Inr False, s\<lparr>gs_push := os\<rparr>)
      | P_gone # os \<Rightarrow> (Inl G_unavailable, s\<lparr>gs_push := os\<rparr>))"

definition group_send :: "int \<Rightarrow> group_message \<Rightarrow> unit group" where
  "group_send queue m s = after (group_push queue m) (\<lambda>_. return ()) (s\<lparr>gs_push := dropWhile (\<lambda>p. p = P_full) (gs_push s)\<rparr>)"

definition group_now :: "int group" where
  "group_now s = (case gs_clock s of [] \<Rightarrow> (Inr 0, s) | t # ts \<Rightarrow> (Inr t, s\<lparr>gs_clock := ts\<rparr>))"

text \<open>\<open>uuid::make\<close> is called when the message has no id.\<close>

definition group_uuid :: "uuid \<Rightarrow> uuid group" where
  "group_uuid i s = (if i \<noteq> nil_uuid then (Inr i, s)
     else (case gs_uuids s of [] \<Rightarrow> (Inr nil_uuid, s) | u # us \<Rightarrow> (Inr u, s\<lparr>gs_uuids := us\<rparr>)))"

definition on_db :: "'a db \<Rightarrow> 'a group" where
  "on_db f s = (case in_db f (gs_db s) of
     (Inl e, d) \<Rightarrow> (Inl G_sql, s\<lparr>gs_db := d\<rparr>) | (Inr x, d) \<Rightarrow> (Inr x, s\<lparr>gs_db := d\<rparr>))"

definition group_tables :: "group_state \<Rightarrow> tables" where
  "group_tables s = d_tables (gs_db s)"

section \<open>Pending requests\<close>

definition pending_dequeue :: "dequeue_request \<Rightarrow> pending \<Rightarrow> pending" where
  "pending_dequeue r p = (if dr_block r then p\<lparr>pe_requests := pe_requests p @ [r]\<rparr> else p)"

text \<open>\<open>transactions[ trid][ id]++\<close>\<close>

fun bump :: "trid \<Rightarrow> int \<Rightarrow> (trid \<times> (int \<rightharpoonup> nat)) list \<Rightarrow> (trid \<times> (int \<rightharpoonup> nat)) list" where
  "bump x i [] = [(x, [i \<mapsto> 1])]"
| "bump x i ((y, m) # ts) =
     (if same_trid y x then (y, m(i \<mapsto> (case m i of None \<Rightarrow> 0 | Some n \<Rightarrow> n) + 1)) # ts else (y, m) # bump x i ts)"

definition pending_enqueue :: "trid \<Rightarrow> int \<Rightarrow> pending \<Rightarrow> pending" where
  "pending_enqueue x i p =
     (if list_ex (\<lambda>r. dr_queue r = i) (pe_requests p)
      then p\<lparr>pe_transactions := bump x i (pe_transactions p)\<rparr> else p)"

definition forgotten_by :: "forget_request \<Rightarrow> dequeue_request \<Rightarrow> bool" where
  "forgotten_by f r \<longleftrightarrow> dr_queue r = fr_queue f \<and> dr_process r = fr_process f"

definition pending_forget :: "forget_request \<Rightarrow> pending \<Rightarrow> bool \<times> pending" where
  "pending_forget f p =
     (if list_ex (forgotten_by f) (pe_requests p) then
        (let rs = erase_first (forgotten_by f) (pe_requests p)
         in (True, p\<lparr>pe_requests := rs, pe_transactions := (if rs = [] then [] else pe_transactions p)\<rparr>))
      else (False, p))"

definition same_key :: "trid \<Rightarrow> trid \<times> 'a \<Rightarrow> bool" where
  "same_key x = (\<lambda>(y, _). same_trid y x)"

text \<open>\<open>Pending::commit\<close>: the requests for the queues of the transaction, in their order, and its counts.\<close>

definition pending_commit :: "trid \<Rightarrow> pending \<Rightarrow> (dequeue_request list \<times> (int \<rightharpoonup> nat)) \<times> pending" where
  "pending_commit x p =
     (case find (same_key x) (pe_transactions p) of
        None \<Rightarrow> (([], Map.empty), p)
      | Some (_, counts) \<Rightarrow>
          ((filter (\<lambda>r. counts (dr_queue r) \<noteq> None) (pe_requests p), counts),
           p\<lparr>pe_transactions := erase_first (same_key x) (pe_transactions p),
             pe_requests := filter (\<lambda>r. counts (dr_queue r) = None) (pe_requests p)\<rparr>))"

definition pending_rollback :: "trid \<Rightarrow> pending \<Rightarrow> pending" where
  "pending_rollback x p = p\<lparr>pe_transactions := erase_first (same_key x) (pe_transactions p)\<rparr>"

definition pending_erase :: "int \<Rightarrow> pending \<Rightarrow> pending" where
  "pending_erase pid p = p\<lparr>pe_requests := filter (\<lambda>r. ph_pid (dr_process r) \<noteq> pid) (pe_requests p)\<rparr>"

definition on_pending :: "(pending \<Rightarrow> pending) \<Rightarrow> group_state \<Rightarrow> group_state" where
  "on_pending f s = s\<lparr>gs_pending := f (gs_pending s)\<rparr>"

section \<open>Handlers\<close>

definition persist :: "group_message \<Rightarrow> int list \<Rightarrow> unit group" where
  "persist m targets = change (\<lambda>s. s\<lparr>gs_persistent := gs_persistent s @ [\<lparr>pm_targets = targets, pm_message = m\<rparr>]\<rparr>)"

definition involved :: "trid \<Rightarrow> unit group" where
  "involved x s = group_send (gs_broker s) (Group_involved (gs_self s) x) s"

text \<open>\<open>dequeue::request\<close>: an error of the database is logged; whether a reply has been sent.\<close>

definition try_dequeue :: "dequeue_request \<Rightarrow> bool group" where
  "try_dequeue r = catch
     (after group_now (\<lambda>now. after (on_db (db_dequeue now r)) (\<lambda>found.
        if dr_block r \<and> found = None then
          after (change (on_pending (pending_dequeue r))) (\<lambda>_. return False)
        else
          after (if found \<noteq> None \<and> has_trid (dr_trid r) then involved (dr_trid r) else return ()) (\<lambda>_.
          after (group_send (ph_queue (dr_process r))
            (Dequeue_reply (dr_correlation r) (case found of None \<Rightarrow> [] | Some m \<Rightarrow> [m]))) (\<lambda>_. return True)))))
     (\<lambda>e. if e = G_sql then return False else throw e)"

text \<open>
  \<open>local::pending::replies\<close>: as many requests are tried as messages were committed to their queue. A
  request for which no message is left is not put back.
\<close>

definition try_request :: "dequeue_request \<Rightarrow> bool group" where
  "try_request r = catch
     (after (try_dequeue r) (\<lambda>done.
        if done then return True
        else after (change (on_pending (pending_dequeue r))) (\<lambda>_. return False)))
     (\<lambda>e. if e = G_unavailable then return False else throw e)"

fun pending_loop :: "(int \<rightharpoonup> nat) \<Rightarrow> dequeue_request list \<Rightarrow> unit group" where
  "pending_loop counts [] s = (Inr (), s)"
| "pending_loop counts (r # rs) s =
     (let remaining = (case counts (dr_queue r) of None \<Rightarrow> 0 | Some n \<Rightarrow> n) in
      if remaining > 0 then
        after (try_request r) (\<lambda>done.
          pending_loop (if done then counts(dr_queue r \<mapsto> remaining - 1) else counts) rs) s
      else pending_loop counts rs s)"

definition pending_replies :: "trid \<Rightarrow> unit group" where
  "pending_replies x s =
     (case pending_commit x (gs_pending s) of
        ((rs, counts), p) \<Rightarrow> pending_loop counts rs (s\<lparr>gs_pending := p\<rparr>))"

definition handle_dead :: "int \<Rightarrow> unit group" where
  "handle_dead pid = change (on_pending (pending_erase pid))"

definition handle_queues :: "uuid \<Rightarrow> process_handle \<Rightarrow> unit group" where
  "handle_queues corr p s = group_send (ph_queue p) (Queues_reply corr (gs_self s) (db_queues (group_tables s))) s"

definition handle_messages :: "uuid \<Rightarrow> process_handle \<Rightarrow> int \<Rightarrow> unit group" where
  "handle_messages corr p qid s =
     group_send (ph_queue p) (Messages_reply corr (gs_self s) (db_messages qid (group_tables s))) s"

definition handle_enqueue :: "enqueue_request \<Rightarrow> unit group" where
  "handle_enqueue r = catch
     (after (group_uuid (bm_id (er_message r))) (\<lambda>fresh.
      after group_now (\<lambda>now.
      after (on_db (db_enqueue fresh now r)) (\<lambda>mid.
      after (change (on_pending (pending_enqueue (er_trid r) (er_queue r)))) (\<lambda>_.
        if has_trid (er_trid r) then
          after (involved (er_trid r)) (\<lambda>_. group_send (ph_queue (er_process r)) (Enqueue_reply (er_correlation r) mid))
        else
          after (persist (Enqueue_reply (er_correlation r) mid) [ph_queue (er_process r)]) (\<lambda>_.
            pending_replies (er_trid r)))))))
     (\<lambda>e. if e = G_sql then return () else throw e)"

definition handle_dequeue :: "dequeue_request \<Rightarrow> unit group" where
  "handle_dequeue r = after (try_dequeue r) (\<lambda>_. return ())"

definition handle_forget :: "forget_request \<Rightarrow> unit group" where
  "handle_forget f = catch
     (\<lambda>s. case pending_forget f (gs_pending s) of (found, p) \<Rightarrow>
        group_send (ph_queue (fr_process f)) (Forget_reply (fr_correlation f) found) (s\<lparr>gs_pending := p\<rparr>))
     (\<lambda>_. return ())"

text \<open>The two requests of the transaction manager: any exception becomes \<open>XAER_RMFAIL\<close>.\<close>

definition outcome :: "unit group \<Rightarrow> int group" where
  "outcome f = catch (after f (\<lambda>_. return XA_OK)) (\<lambda>_. return XAER_RMFAIL)"

definition handle_group_commit :: "rm_request \<Rightarrow> unit group" where
  "handle_group_commit r s =
     after (outcome (after (on_db (db_commit (rr_trid r))) (\<lambda>_. pending_replies (rr_trid r)))) (\<lambda>code.
       persist (Group_commit_reply (rr_correlation r) (gs_self s) (rr_trid r) code) [ph_queue (rr_process r)]) s"

definition handle_group_rollback :: "rm_request \<Rightarrow> unit group" where
  "handle_group_rollback r s =
     after (outcome (after (on_db (db_rollback (rr_trid r))) (\<lambda>_.
         change (on_pending (pending_rollback (rr_trid r)))))) (\<lambda>code.
       persist (Group_rollback_reply (rr_correlation r) (gs_self s) (rr_trid r) code) [ph_queue (rr_process r)]) s"

section \<open>The pump\<close>

datatype group_event =
    Ge_dead int
  | Ge_enqueue enqueue_request
  | Ge_dequeue dequeue_request
  | Ge_forget forget_request
  | Ge_commit rm_request
  | Ge_rollback rm_request
  | Ge_queues uuid process_handle
  | Ge_messages uuid process_handle int
  | Ge_shutdown
  | Ge_other

text \<open>A message of an unknown type is discarded; then, as without a message, the handler returns false.\<close>

definition group_dispatch :: "group_event \<Rightarrow> bool group" where
  "group_dispatch ev =
     (if ev = Ge_other then return False
      else after (case ev of
          Ge_dead pid \<Rightarrow> handle_dead pid
        | Ge_enqueue r \<Rightarrow> handle_enqueue r
        | Ge_dequeue r \<Rightarrow> handle_dequeue r
        | Ge_forget f \<Rightarrow> handle_forget f
        | Ge_commit r \<Rightarrow> handle_group_commit r
        | Ge_rollback r \<Rightarrow> handle_group_rollback r
        | Ge_queues corr p \<Rightarrow> handle_queues corr p
        | Ge_messages corr p qid \<Rightarrow> handle_messages corr p qid
        | Ge_shutdown \<Rightarrow> throw G_shutdown
        | Ge_other \<Rightarrow> return ()) (\<lambda>_. return True))"

definition group_batch :: nat where "group_batch = 100"

text \<open>The messages that are in the queue, until it is empty or enough replies wait.\<close>

fun group_poll :: "group_event list \<Rightarrow> unit group" where
  "group_poll [] s = (Inr (), s)"
| "group_poll (ev # evs) s =
     (case group_dispatch ev s of
        (Inl e, s') \<Rightarrow> (Inl e, s')
      | (Inr handled, s') \<Rightarrow>
          if handled \<and> length (gs_persistent s') < group_batch then group_poll evs s' else (Inr (), s'))"

text \<open>
  \<open>pending::send\<close> to all targets: those that are full stay, one that is gone counts as sent. Then
  \<open>remove_if\<close>: the messages without targets are gone, the others stay in their order.
\<close>

fun send_targets :: "group_message \<Rightarrow> int list \<Rightarrow> group_state \<Rightarrow> int list \<times> group_state" where
  "send_targets m [] s = ([], s)"
| "send_targets m (q # qs) s =
     (case group_push q m s of
        (Inr False, s') \<Rightarrow> (case send_targets m qs s' of (rest, s'') \<Rightarrow> (q # rest, s''))
      | (_, s') \<Rightarrow> send_targets m qs s')"

fun send_persistent :: "persistent_message list \<Rightarrow> group_state \<Rightarrow> persistent_message list \<times> group_state" where
  "send_persistent [] s = ([], s)"
| "send_persistent (m # ms) s =
     (case send_targets (pm_message m) (pm_targets m) s of (rest, s') \<Rightarrow>
        (case send_persistent ms s' of (ms', s'') \<Rightarrow>
           (if rest = [] then ms' else m\<lparr>pm_targets := rest\<rparr> # ms', s'')))"

definition group_flush :: "group_state \<Rightarrow> group_state" where
  "group_flush s = (case send_persistent (gs_persistent s) s of (ms, s') \<Rightarrow> s'\<lparr>gs_persistent := ms\<rparr>)"

definition on_connection :: "(database \<Rightarrow> database) \<Rightarrow> group_state \<Rightarrow> group_state" where
  "on_connection f s = s\<lparr>gs_db := f (gs_db s)\<rparr>"

text \<open>
  One round. The database transaction is committed at its end and also when an exception leaves it. With
  replies that still wait, the pump does not wait for the message \<open>first\<close>.
\<close>

definition group_batch_run :: "group_event \<Rightarrow> group_event list \<Rightarrow> unit group" where
  "group_batch_run first polls s =
     (case (if gs_persistent s = [] then after (group_dispatch first) (\<lambda>_. group_poll polls) else group_poll polls)
        (on_connection exclusive_begin s) of
        (r, s') \<Rightarrow> (r, on_connection connection_commit s'))"

definition group_round :: "group_event \<Rightarrow> group_event list \<Rightarrow> unit group" where
  "group_round first polls = after (group_batch_run first polls) (\<lambda>_. change group_flush)"

definition group_pump :: "(group_event \<times> group_event list) list \<Rightarrow> unit group" where
  "group_pump = for_each (\<lambda>(first, polls). group_round first polls)"

section \<open>The start\<close>

definition configured_queue :: "string \<Rightarrow> nat \<Rightarrow> queue_info" where
  "configured_queue name retries = \<lparr>qi_id = 0, qi_name = name, qi_retries = retries, qi_error = 0, qi_type = 0\<rparr>"

text \<open>
  The constructor of \<open>Server\<close>: the database is opened, the queues that the configuration names and that
  do not exist are created, and the broker gets all of them. \<open>config\<close> is the broker's reply.
\<close>

definition create_missing :: "string list \<Rightarrow> string \<times> nat \<Rightarrow> unit group" where
  "create_missing existing = (\<lambda>(name, retries).
     if name \<in> set existing then return ()
     else after group_now (\<lambda>now. after (on_db (db_create now (configured_queue name retries))) (\<lambda>_. return ())))"

definition group_start :: "string \<Rightarrow> (string \<times> nat) list \<Rightarrow> unit group" where
  "group_start name config =
     after group_now (\<lambda>now. after (on_db (db_open name now)) (\<lambda>_ s.
       after (group_send (gs_broker s) (Queue_connect_request (gs_self s))) (\<lambda>_.
       after (group_send (gs_domain s) (Dead_registration (gs_self s))) (\<lambda>_.
       after (read_state (\<lambda>s. map qr_name (db_queues (group_tables s)))) (\<lambda>existing.
       after (for_each (create_missing existing) config) (\<lambda>_ s.
         group_send (gs_broker s) (Queue_information (gs_self s) (db_queues (group_tables s))) s)))) s))"

end
