(* ===== verification/Queue_Counters.thy ===== *)
theory Queue_Counters
  imports Queue_Database
begin

text \<open>
  The counters of the queues. The triggers keep, for each queue, the number and the size of its
  committed messages and the number of its uncommitted ones; here a counter is compared with the sum of
  the shares of the messages, and every operation of the database is shown to keep them equal, together
  with the keys of the tables.
\<close>

section \<open>Counters and shares\<close>

datatype counter = Count | Size | Uncommitted

fun counter_of :: "counter \<Rightarrow> queue_row \<Rightarrow> int" where
  "counter_of Count q = qr_count q"
| "counter_of Size q = qr_size q"
| "counter_of Uncommitted q = qr_uncommitted q"

definition live :: "message_row \<Rightarrow> bool" where
  "live m \<longleftrightarrow> mr_state m = enqueued \<or> mr_state m = removed"

fun share :: "counter \<Rightarrow> message_row \<Rightarrow> int" where
  "share Count m = (if live m then 1 else 0)"
| "share Size m = (if live m then int (length (the (mr_payload m))) else 0)"
| "share Uncommitted m = (if mr_state m = added then 1 else 0)"

definition share_in :: "int \<Rightarrow> counter \<Rightarrow> message_row \<Rightarrow> int" where
  "share_in i c m = (if mr_queue m = i then share c m else 0)"

definition load :: "message_row list \<Rightarrow> counter \<Rightarrow> int \<Rightarrow> int" where
  "load ms c i = sum_list (map (share_in i c) ms)"

definition counted :: "tables \<Rightarrow> bool" where
  "counted t \<longleftrightarrow> (\<forall>q\<in>set (t_queues t). \<forall>c. counter_of c q = load (t_messages t) c (qr_id q))"

text \<open>The counters change by \<open>d\<close>, and nothing else but the time stamps.\<close>

definition same_queue :: "queue_row \<Rightarrow> queue_row \<Rightarrow> bool" where
  "same_queue q q' \<longleftrightarrow> qr_id q' = qr_id q \<and> qr_name q' = qr_name q \<and> qr_retries q' = qr_retries q \<and>
     qr_error q' = qr_error q \<and> qr_type q' = qr_type q"

definition shifted :: "(counter \<Rightarrow> int \<Rightarrow> int) \<Rightarrow> queue_row list \<Rightarrow> queue_row list \<Rightarrow> bool" where
  "shifted d = list_all2 (\<lambda>q q'. same_queue q q' \<and> (\<forall>c. counter_of c q' = counter_of c q + d c (qr_id q)))"

lemma shifted_refl: "(\<And>c q. q \<in> set qs \<Longrightarrow> d c (qr_id q) = 0) \<Longrightarrow> shifted d qs qs"
  by (auto simp: shifted_def same_queue_def intro!: list.rel_refl_strong)

lemma shifted_trans:
  assumes "shifted d qs qs'" "shifted e qs' qs''" "\<And>c i. f c i = d c i + e c i"
  shows "shifted f qs qs''"
  using assms(1,2) unfolding shifted_def
  by (rule list_all2_trans [rotated]) (auto simp: same_queue_def assms(3))

lemma shifted_cong: "shifted d qs qs' \<Longrightarrow> (\<And>c i. d c i = e c i) \<Longrightarrow> shifted e qs qs'"
  by (metis ext)

lemma shifted_same:
  assumes "shifted d qs qs'"
  shows "map qr_id qs' = map qr_id qs" "map qr_name qs' = map qr_name qs" "map qr_retries qs' = map qr_retries qs"
    "map qr_error qs' = map qr_error qs" "map qr_type qs' = map qr_type qs"
  using assms unfolding shifted_def by (induction rule: list_all2_induct) (auto simp: same_queue_def)

lemma update_queue_shifted:
  assumes "update_queue k f qs = Some qs'"
    and "\<And>q q'. f q = Some q' \<Longrightarrow> same_queue q q' \<and> (\<forall>c. counter_of c q' = counter_of c q + d c)"
  shows "shifted (\<lambda>c i. if i = k then d c else 0) qs qs'"
  using assms(1)
proof (induction qs arbitrary: qs')
  case Nil
  then show ?case by (simp add: update_queue_def shifted_def)
next
  case (Cons q qs)
  then obtain q' qs'' where s: "update_queue k f qs = Some qs''" "qs' = q' # qs''"
    and q: "(if qr_id q = k then f q else Some q) = Some q'"
    by (auto simp: update_queue_def split: option.splits)
  from Cons.IH [OF s(1)] q s(2) assms(2) [of q q'] show ?case
    by (auto simp: shifted_def same_queue_def split: if_splits)
qed

lemma update_queue_total:
  "(\<And>q. q \<in> set qs \<Longrightarrow> qr_id q = k \<Longrightarrow> f q \<noteq> None) \<Longrightarrow> update_queue k f qs \<noteq> None"
  by (induction qs) (fastforce simp: update_queue_def)+

lemma tally_shift:
  "tally d m q = Some q' \<Longrightarrow> same_queue q q' \<and> qr_count q' = qr_count q + d \<and>
     qr_size q' = qr_size q + d * int (length (the (mr_payload m))) \<and> qr_uncommitted q' = qr_uncommitted q"
  by (auto simp: tally_def same_queue_def split: option.splits)

lemma counter_all: "(\<forall>c. Q c) \<longleftrightarrow> Q Count \<and> Q Size \<and> Q Uncommitted"
  by (metis counter.exhaust)

lemma shifted_at:
  assumes "update_queue k f qs = Some qs'"
    and "\<And>q q'. f q = Some q' \<Longrightarrow> same_queue q q' \<and> (\<forall>c. counter_of c q' = counter_of c q + d c k)"
    and "\<And>c i. i \<noteq> k \<Longrightarrow> d c i = 0"
  shows "shifted d qs qs'"
  by (rule shifted_cong [OF update_queue_shifted [OF assms(1,2)]]) (auto simp: assms(3))

lemmas shift_simps = counter_all live_def same_queue_def share_in_def tally_shift

text \<open>The triggers keep the counters: what a message adds to its queue comes and goes with it.\<close>

lemma insert_message_trigger_shifted:
  assumes "insert_message_trigger m qs = Some qs'" "mr_state m = added \<or> mr_state m = enqueued"
  shows "shifted (\<lambda>c i. share_in i c m) qs qs'"
proof (cases "mr_state m = added")
  case True
  with assms(1) show ?thesis unfolding insert_message_trigger_def
    by simp (erule shifted_at; auto simp: shift_simps)
next
  case False
  with assms show ?thesis unfolding insert_message_trigger_def
    by simp (erule shifted_at; auto simp: shift_simps dest!: tally_shift)
qed

lemma delete_message_trigger_shifted:
  assumes "delete_message_trigger m qs = Some qs'"
  shows "shifted (\<lambda>c i. - share_in i c m) qs qs'"
proof (cases "live m")
  case True
  with assms show ?thesis unfolding delete_message_trigger_def live_def
    by simp (erule shifted_at; auto simp: shift_simps dest!: tally_shift)
next
  case dead: False
  show ?thesis
  proof (cases "mr_state m = added")
    case True
    with assms show ?thesis unfolding delete_message_trigger_def
      by simp (erule shifted_at; auto simp: shift_simps)
  next
    case False
    with assms dead have "qs' = qs" by (simp add: delete_message_trigger_def live_def)
    moreover have "share_in i c m = 0" for i c using False dead by (cases c) (simp_all add: share_in_def)
    ultimately show ?thesis by (simp add: shifted_refl)
  qed
qed

definition moved :: "message_row \<Rightarrow> message_row \<Rightarrow> counter \<Rightarrow> int \<Rightarrow> int" where
  "moved m m' c i = share_in i c m' - share_in i c m"

lemma update_state_trigger_shifted:
  assumes "update_state_trigger m m' qs = Some qs'" "mr_queue m' = mr_queue m" "mr_payload m' = mr_payload m"
    and "if mr_state m = added then mr_state m' = enqueued else live m \<and> live m'"
  shows "shifted (moved m m') qs qs'"
proof (cases "mr_state m = added")
  case True
  with assms show ?thesis unfolding update_state_trigger_def
    by simp (erule shifted_at; auto simp: shift_simps moved_def dest!: tally_shift)
next
  case False
  with assms have "qs' = qs" by (simp add: update_state_trigger_def)
  moreover have "moved m m' c i = 0" for i c
    using assms(2-4) False by (cases c) (auto simp: moved_def share_in_def live_def)
  ultimately show ?thesis by (simp add: shifted_refl)
qed

lemma update_queue_trigger_shifted:
  assumes "update_queue_trigger m m' qs = Some qs'" "mr_state m' = mr_state m" "mr_payload m' = mr_payload m" "live m"
  shows "shifted (moved m m') qs qs'"
proof (cases "mr_queue m' = mr_queue m")
  case True
  have "moved m m' c i = 0" for i c
    using assms(2-4) True by (cases c) (auto simp: moved_def share_in_def live_def)
  with True assms(1) show ?thesis by (simp add: update_queue_trigger_def shifted_refl)
next
  case False
  with assms(1) obtain qs1 where s: "update_queue (mr_queue m') (tally 1 m') qs = Some qs1"
      "update_queue (mr_queue m) (tally (- 1) m) qs1 = Some qs'"
    by (auto simp: update_queue_trigger_def bind_eq_Some_conv)
  have l: "live m'" using assms by (simp add: live_def)
  have "shifted (\<lambda>c i. share_in i c m') qs qs1"
    by (rule shifted_at [OF s(1)]) (use l in \<open>auto simp: shift_simps dest!: tally_shift\<close>)
  moreover have "shifted (\<lambda>c i. - share_in i c m) qs1 qs'"
    by (rule shifted_at [OF s(2)]) (use assms(4) in \<open>auto simp: shift_simps dest!: tally_shift\<close>)
  ultimately show ?thesis by (rule shifted_trans) (simp add: moved_def)
qed

lemma total_Nil [simp]: "load [] c i = 0"
  by (simp add: load_def)

lemma total_Cons [simp]: "load (m # ms) c i = share_in i c m + load ms c i"
  by (simp add: load_def)

lemma total_append [simp]: "load (ms @ ms') c i = load ms c i + load ms' c i"
  by (simp add: load_def)

text \<open>A statement over many rows.\<close>

lemma update_messages_shifted:
  assumes "update_messages P f trigger ms qs = Some (ms', qs')"
    and "\<And>m qs qs'. m \<in> set ms \<Longrightarrow> P m \<Longrightarrow> trigger m (f m) qs = Some qs' \<Longrightarrow> shifted (moved m (f m)) qs qs'"
  shows "ms' = map (\<lambda>m. if P m then f m else m) ms \<and> shifted (\<lambda>c i. load ms' c i - load ms c i) qs qs'"
  using assms
proof (induction ms arbitrary: ms' qs)
  case Nil
  then show ?case by (simp add: shifted_refl)
next
  case (Cons m ms)
  show ?case
  proof (cases "P m")
    case True
    with Cons.prems(1) obtain qs1 ms1 where s: "trigger m (f m) qs = Some qs1"
        "update_messages P f trigger ms qs1 = Some (ms1, qs')" "ms' = f m # ms1"
      by (auto split: option.splits)
    have "ms1 = map (\<lambda>m. if P m then f m else m) ms \<and>
      shifted (\<lambda>c i. load ms1 c i - load ms c i) qs1 qs'"
      by (rule Cons.IH [OF s(2)]) (use Cons.prems(2) in simp)
    note ih = conjunct1 [OF this] conjunct2 [OF this]
    have "shifted (moved m (f m)) qs qs1" using Cons.prems(2) [OF _ True s(1)] by simp
    then have "shifted (\<lambda>c i. load ms' c i - load (m # ms) c i) qs qs'"
      by (rule shifted_trans [OF _ ih(2)]) (simp add: s(3) moved_def)
    with True ih(1) s(3) show ?thesis by simp
  next
    case False
    with Cons.prems(1) obtain ms1 where s: "update_messages P f trigger ms qs = Some (ms1, qs')" "ms' = m # ms1"
      by (auto split: option.splits)
    have "ms1 = map (\<lambda>m. if P m then f m else m) ms \<and>
      shifted (\<lambda>c i. load ms1 c i - load ms c i) qs qs'"
      by (rule Cons.IH [OF s(1)]) (use Cons.prems(2) in simp)
    note ih = conjunct1 [OF this] conjunct2 [OF this]
    have "shifted (\<lambda>c i. load ms' c i - load (m # ms) c i) qs qs'"
      by (rule shifted_cong [OF ih(2)]) (simp add: s(2))
    with False ih(1) s(2) show ?thesis by simp
  qed
qed

lemma delete_messages_shifted:
  "delete_messages P ms qs = Some (ms', qs') \<Longrightarrow>
    ms' = filter (\<lambda>m. \<not> P m) ms \<and> shifted (\<lambda>c i. load ms' c i - load ms c i) qs qs'"
proof (induction P ms qs arbitrary: ms' rule: delete_messages.induct)
  case (1 P qs)
  then show ?case by (simp add: shifted_refl)
next
  case (2 P m ms qs)
  show ?case
  proof (cases "P m")
    case True
    with 2(3) obtain qs1 where s: "delete_message_trigger m qs = Some qs1" "delete_messages P ms qs1 = Some (ms', qs')"
      by (auto split: option.splits)
    note ih = conjunct1 [OF 2(1) [OF True s]] conjunct2 [OF 2(1) [OF True s]]
    have "shifted (\<lambda>c i. load ms' c i - load (m # ms) c i) qs qs'"
      by (rule shifted_trans [OF delete_message_trigger_shifted [OF s(1)] ih(2)]) simp
    with True ih(1) show ?thesis by simp
  next
    case False
    with 2(3) obtain ms1 where s: "delete_messages P ms qs = Some (ms1, qs')" "ms' = m # ms1"
      by (auto split: option.splits)
    note ih = conjunct1 [OF 2(2) [OF False s(1)]] conjunct2 [OF 2(2) [OF False s(1)]]
    have "shifted (\<lambda>c i. load ms' c i - load (m # ms) c i) qs qs'"
      by (rule shifted_cong [OF ih(2)]) (simp add: s(2))
    with False ih(1) s(2) show ?thesis by simp
  qed
qed

lemma counted_shifted:
  assumes "counted t" "shifted (\<lambda>c i. load ms c i - load (t_messages t) c i) (t_queues t) qs"
  shows "counted (t\<lparr>t_messages := ms, t_queues := qs\<rparr>)"
  using assms unfolding counted_def shifted_def same_queue_def
  by (fastforce simp: list_all2_conv_all_nth in_set_conv_nth)

section \<open>The tables are consistent\<close>

definition row_ok :: "message_row \<Rightarrow> bool" where
  "row_ok m \<longleftrightarrow> mr_state m \<noteq> dequeued \<and> 0 \<le> mr_redelivered m \<and> (mr_state m = added \<longrightarrow> mr_redelivered m = 0) \<and>
     (live m \<longrightarrow> mr_payload m \<noteq> None)"

definition db_ok :: "tables \<Rightarrow> bool" where
  "db_ok t \<longleftrightarrow> fk_ok t \<and> counted t \<and> (\<forall>m\<in>set (t_messages t). row_ok m) \<and> (\<forall>q\<in>set (t_queues t). 0 \<le> qr_retries q) \<and>
     distinct (map mr_rowid (t_messages t)) \<and> distinct (map mr_id (t_messages t)) \<and>
     distinct (map qr_id (t_queues t)) \<and> distinct (map qr_name (t_queues t))"

text \<open>What no statement on messages changes of the queues.\<close>

definition same_queues :: "tables \<Rightarrow> tables \<Rightarrow> bool" where
  "same_queues t t' \<longleftrightarrow> list_all2 same_queue (t_queues t) (t_queues t')"

lemma same_queues_refl [simp]: "same_queues t t"
  by (auto simp: same_queues_def same_queue_def intro!: list.rel_refl)

lemma same_queues_trans: "same_queues t t' \<Longrightarrow> same_queues t' t'' \<Longrightarrow> same_queues t t''"
  unfolding same_queues_def by (rule list_all2_trans) (auto simp: same_queue_def)

lemma shifted_same_queues: "shifted d qs qs' \<Longrightarrow> list_all2 same_queue qs qs'"
  unfolding shifted_def by (erule list_all2_mono) simp

lemma same_queue_maps:
  assumes "list_all2 same_queue qs qs'"
  shows "map qr_id qs' = map qr_id qs" "map qr_name qs' = map qr_name qs" "map qr_retries qs' = map qr_retries qs"
    "map qr_error qs' = map qr_error qs" "map qr_type qs' = map qr_type qs"
  using assms by (induction rule: list_all2_induct) (auto simp: same_queue_def)

lemma same_queue_sets:
  assumes "list_all2 same_queue qs qs'"
  shows "qr_id ` set qs' = qr_id ` set qs" "qr_retries ` set qs' = qr_retries ` set qs" "qr_error ` set qs' = qr_error ` set qs"
  using same_queue_maps [OF assms] by (metis set_map)+

lemma counted_after:
  assumes "db_ok t" "shifted (\<lambda>c i. load ms c i - load (t_messages t) c i) (t_queues t) qs"
    and "fk_ok (t\<lparr>t_messages := ms, t_queues := qs\<rparr>)" "\<forall>m\<in>set ms. row_ok m"
    and "distinct (map mr_rowid ms)" "distinct (map mr_id ms)"
  shows "db_ok (t\<lparr>t_messages := ms, t_queues := qs\<rparr>) \<and> same_queues t (t\<lparr>t_messages := ms, t_queues := qs\<rparr>)"
proof -
  note same = shifted_same_queues [OF assms(2)]
  have "\<forall>q\<in>set qs. 0 \<le> qr_retries q"
    using assms(1) same_queue_sets(2) [OF same] unfolding db_ok_def by (metis imageE imageI)
  with assms counted_shifted [OF _ assms(2)] same_queue_maps [OF same] show ?thesis
    by (simp add: db_ok_def same_queues_def same)
qed

text \<open>A trigger that has succeeded for a queue that is there: the payload is not null.\<close>

lemma update_queue_called:
  "update_queue k f qs = Some qs' \<Longrightarrow> k \<in> qr_id ` set qs \<Longrightarrow> \<exists>q q'. f q = Some q'"
  by (induction qs arbitrary: qs') (auto simp: update_queue_def split: if_splits option.splits)

lemma update_messages_triggered:
  assumes "update_messages P f trigger ms qs = Some (ms', qs')" "m \<in> set ms" "P m"
    and "\<And>m qs qs'. trigger m (f m) qs = Some qs' \<Longrightarrow> map qr_id qs' = map qr_id qs"
  shows "\<exists>qs1 qs2. trigger m (f m) qs1 = Some qs2 \<and> map qr_id qs1 = map qr_id qs"
  using assms(1,2)
proof (induction ms arbitrary: ms' qs)
  case (Cons a ms)
  show ?case
  proof (cases "P a")
    case True
    with Cons.prems(1) obtain qs1 ms1 where s: "trigger a (f a) qs = Some qs1"
        "update_messages P f trigger ms qs1 = Some (ms1, qs')"
      by (auto split: option.splits)
    show ?thesis
    proof (cases "m = a")
      case True
      with s(1) show ?thesis by blast
    next
      case False
      with Cons.IH [OF s(2)] Cons.prems(2) assms(4) [OF s(1)] show ?thesis by simp
    qed
  next
    case False
    with Cons assms(3) show ?thesis by (auto split: option.splits)
  qed
qed simp

lemma update_messages_total:
  "(\<And>m qs. m \<in> set ms \<Longrightarrow> P m \<Longrightarrow> trigger m (f m) qs \<noteq> None) \<Longrightarrow> update_messages P f trigger ms qs \<noteq> None"
proof (induction ms arbitrary: qs)
  case (Cons m ms)
  then have "\<exists>r. update_messages P f trigger ms qs = Some r" for qs by simp
  with Cons.prems [of m qs] show ?case by (cases "P m") (fastforce split: option.splits)+
qed simp

lemma delete_messages_total:
  "(\<And>m qs. m \<in> set ms \<Longrightarrow> P m \<Longrightarrow> delete_message_trigger m qs \<noteq> None) \<Longrightarrow> delete_messages P ms qs \<noteq> None"
proof (induction ms arbitrary: qs)
  case (Cons m ms)
  then have "\<exists>r. delete_messages P ms qs = Some r" for qs by simp
  with Cons.prems [of m qs] show ?case by (cases "P m") (fastforce split: option.splits)+
qed simp

lemma tally_total: "mr_payload m \<noteq> None \<Longrightarrow> tally d m q \<noteq> None"
  by (auto simp: tally_def)

lemma delete_message_trigger_total: "row_ok m \<Longrightarrow> delete_message_trigger m qs \<noteq> None"
  unfolding delete_message_trigger_def using tally_total [of m]
  by (auto simp: row_ok_def live_def simp del: not_None_eq intro!: update_queue_total)

lemma update_state_trigger_total: "mr_payload m' \<noteq> None \<Longrightarrow> update_state_trigger m m' qs \<noteq> None"
  unfolding update_state_trigger_def by (auto simp: tally_def simp del: not_None_eq intro!: update_queue_total)

lemma update_queue_trigger_total:
  assumes "mr_payload m \<noteq> None" "mr_payload m' \<noteq> None"
  shows "update_queue_trigger m m' qs \<noteq> None"
proof -
  have "update_queue k (tally d x) qs \<noteq> None" if "mr_payload x \<noteq> None" for k d x qs
    using that by (intro update_queue_total tally_total)
  with assms have "\<exists>r. update_queue k (tally d x) qs = Some r" if "x \<in> {m, m'}" for k d x qs
    using that by auto
  then show ?thesis unfolding update_queue_trigger_def by (metis bind.bind_lunit insertCI option.distinct(1))
qed

text \<open>The two kinds of statement on messages, as one rule each.\<close>

lemma update_rows:
  assumes "db_ok t" "on_messages (update_messages P f trigger) t = Some t'"
    and keys: "\<And>m. mr_rowid (f m) = mr_rowid m" "\<And>m. mr_id (f m) = mr_id m"
    and shift: "\<And>m qs qs'. m \<in> set (t_messages t) \<Longrightarrow> P m \<Longrightarrow> trigger m (f m) qs = Some qs' \<Longrightarrow> shifted (moved m (f m)) qs qs'"
    and ids: "\<And>m qs qs'. trigger m (f m) qs = Some qs' \<Longrightarrow> map qr_id qs' = map qr_id qs"
    and row: "\<And>m qs qs'. m \<in> set (t_messages t) \<Longrightarrow> P m \<Longrightarrow> trigger m (f m) qs = Some qs' \<Longrightarrow>
       map qr_id qs = map qr_id (t_queues t) \<Longrightarrow> row_ok (f m)"
  shows "db_ok t' \<and> same_queues t t' \<and> t_messages t' = map (\<lambda>m. if P m then f m else m) (t_messages t)"
proof -
  from assms(2) obtain ms qs where u: "update_messages P f trigger (t_messages t) (t_queues t) = Some (ms, qs)"
    and t': "t' = t\<lparr>t_messages := ms, t_queues := qs\<rparr>" "fk_ok (t\<lparr>t_messages := ms, t_queues := qs\<rparr>)"
    by (auto simp: on_messages_def Let_def split: option.splits if_splits)
  have s: "ms = map (\<lambda>m. if P m then f m else m) (t_messages t)"
      "shifted (\<lambda>c i. load ms c i - load (t_messages t) c i) (t_queues t) qs"
    by (rule update_messages_shifted [OF u shift, THEN conjunct1], assumption+)
      (rule update_messages_shifted [OF u shift, THEN conjunct2], assumption+)
  have "row_ok (if P m then f m else m)" if m: "m \<in> set (t_messages t)" for m
  proof (cases "P m")
    case True
    have "\<exists>qs1 qs2. trigger m (f m) qs1 = Some qs2 \<and> map qr_id qs1 = map qr_id (t_queues t)"
      by (rule update_messages_triggered [OF u m True]) (rule ids)
    with row [OF m True] True show ?thesis by auto
  next
    case False
    with m assms(1) show ?thesis by (simp add: db_ok_def)
  qed
  then have rows: "\<forall>m\<in>set ms. row_ok m" unfolding s(1) set_map by blast
  have "map mr_rowid ms = map mr_rowid (t_messages t)" "map mr_id ms = map mr_id (t_messages t)"
    unfolding s(1) using keys by simp_all
  then have "distinct (map mr_rowid ms)" "distinct (map mr_id ms)" using assms(1) by (simp_all add: db_ok_def)
  from counted_after [OF assms(1) s(2) t'(2) rows this] s(1) t'(1) show ?thesis by simp
qed

lemma delete_rows:
  assumes "db_ok t" "on_messages (delete_messages P) t = Some t'"
  shows "db_ok t' \<and> same_queues t t' \<and> t_messages t' = filter (\<lambda>m. \<not> P m) (t_messages t)"
proof -
  from assms(2) obtain ms qs where u: "delete_messages P (t_messages t) (t_queues t) = Some (ms, qs)"
    and t': "t' = t\<lparr>t_messages := ms, t_queues := qs\<rparr>" "fk_ok (t\<lparr>t_messages := ms, t_queues := qs\<rparr>)"
    by (auto simp: on_messages_def Let_def split: option.splits if_splits)
  note s = delete_messages_shifted [OF u]
  from s assms(1) have rows: "\<forall>m\<in>set ms. row_ok m" "distinct (map mr_rowid ms)" "distinct (map mr_id ms)"
    by (auto simp: db_ok_def distinct_map_filter)
  from counted_after [OF assms(1) conjunct2 [OF s] t'(2) rows] s t'(1) show ?thesis by simp
qed

section \<open>Every operation keeps them consistent\<close>

lemma next_id_fresh: "next_id xs \<notin> set xs"
proof
  assume "next_id xs \<in> set xs"
  then have "xs \<noteq> []" "next_id xs \<le> Max (set xs)" by auto
  then show False by (simp add: next_id_def)
qed

lemma update_queue_ids:
  assumes "update_queue k f qs = Some qs'" "\<And>q q'. f q = Some q' \<Longrightarrow> qr_id q' = qr_id q"
  shows "map qr_id qs' = map qr_id qs"
  using assms(1)
proof (induction qs arbitrary: qs')
  case (Cons q qs)
  then show ?case by (auto simp: update_queue_def assms(2) split: if_splits option.splits)
qed (simp add: update_queue_def)

lemma tally_id: "tally d m q = Some q' \<Longrightarrow> qr_id q' = qr_id q"
  by (auto simp: tally_def split: option.splits)

lemma update_state_trigger_ids: "update_state_trigger m m' qs = Some qs' \<Longrightarrow> map qr_id qs' = map qr_id qs"
  by (auto simp: update_state_trigger_def dest!: tally_id elim!: update_queue_ids split: if_splits)

lemma update_queue_trigger_ids: "update_queue_trigger m m' qs = Some qs' \<Longrightarrow> map qr_id qs' = map qr_id qs"
  by (auto simp: update_queue_trigger_def bind_eq_Some_conv split: if_splits
      dest!: update_queue_ids [OF _ tally_id])

lemma added_payload:
  assumes "update_state_trigger m m' qs = Some qs'" "mr_state m = added" "mr_state m' = enqueued"
    "mr_queue m' \<in> qr_id ` set qs"
  shows "mr_payload m' \<noteq> None"
  using assms update_queue_called [OF _ assms(4)] by (fastforce simp: update_state_trigger_def tally_def split: option.splits)

lemma enqueued_payload:
  assumes "insert_message_trigger m qs = Some qs'" "mr_state m = enqueued" "mr_queue m \<in> qr_id ` set qs"
  shows "mr_payload m \<noteq> None"
  using assms update_queue_called [OF _ assms(3)] by (fastforce simp: insert_message_trigger_def tally_def split: option.splits)

lemma insert_message_ok:
  assumes "db_ok t" "insert_message m t = Some t'" "mr_state m = added \<or> mr_state m = enqueued"
    and "mr_redelivered m = 0" "mr_rowid m \<notin> mr_rowid ` set (t_messages t)"
  shows "db_ok t' \<and> same_queues t t' \<and> t_messages t' = t_messages t @ [m]"
proof -
  from assms(2) obtain qs where u: "insert_message_trigger m (t_queues t) = Some qs" "mr_id m \<notin> mr_id ` set (t_messages t)"
    and t': "t' = t\<lparr>t_messages := t_messages t @ [m], t_queues := qs\<rparr>"
      "fk_ok (t\<lparr>t_messages := t_messages t @ [m], t_queues := qs\<rparr>)"
    by (auto simp: insert_message_def on_messages_def Let_def split: option.splits if_splits)
  have shift: "shifted (\<lambda>c i. load (t_messages t @ [m]) c i - load (t_messages t) c i) (t_queues t) qs"
    by (rule shifted_cong [OF insert_message_trigger_shifted [OF u(1) assms(3)]]) simp
  have "mr_queue m \<in> qr_id ` set qs" using t'(2) by (simp add: fk_ok_def)
  then have "mr_queue m \<in> qr_id ` set (t_queues t)" using same_queue_sets [OF shifted_same_queues [OF shift]] by simp
  then have "row_ok m"
    using enqueued_payload [OF u(1)] assms(3,4) by (auto simp: row_ok_def live_def)
  with assms(1,5) u(2) have "\<forall>m\<in>set (t_messages t @ [m]). row_ok m" "distinct (map mr_rowid (t_messages t @ [m]))"
      "distinct (map mr_id (t_messages t @ [m]))"
    by (auto simp: db_ok_def)
  from counted_after [OF assms(1) shift t'(2) this] t'(1) show ?thesis by simp
qed

lemma commit1_ok:
  assumes "db_ok t" "commit1 g t = Some t'"
  shows "db_ok t' \<and> same_queues t t' \<and>
    t_messages t' = map (\<lambda>m. if of_gtrid g added m then m\<lparr>mr_state := enqueued\<rparr> else m) (t_messages t)"
proof (rule update_rows [OF assms(1) assms(2) [unfolded commit1_def]])
  fix m :: message_row and qs qs'
  assume m: "(m :: message_row) \<in> set (t_messages t)" "of_gtrid g added m"
    and u: "update_state_trigger m (m\<lparr>mr_state := enqueued\<rparr>) qs = Some qs'"
  show "shifted (moved m (m\<lparr>mr_state := enqueued\<rparr>)) qs qs'"
    by (rule update_state_trigger_shifted [OF u]) (use m in \<open>auto simp: of_gtrid_def\<close>)
  assume "map qr_id qs = map qr_id (t_queues t)"
  then have "qr_id ` set qs = qr_id ` set (t_queues t)" by (metis set_map)
  moreover have "mr_queue m \<in> qr_id ` set (t_queues t)" using assms(1) m by (auto simp: db_ok_def fk_ok_def list_all_iff)
  ultimately have "mr_payload m \<noteq> None" using added_payload [OF u] m by (simp add: of_gtrid_def)
  then show "row_ok (m\<lparr>mr_state := enqueued\<rparr>)" using assms(1) m by (auto simp: db_ok_def row_ok_def)
qed (auto dest: update_state_trigger_ids)

lemma mark_removed_ok:
  assumes "db_ok t" "mark_removed g row t = Some t'"
    and "\<And>m. m \<in> set (t_messages t) \<Longrightarrow> mr_rowid m = row \<Longrightarrow> mr_state m = enqueued"
  shows "db_ok t' \<and> same_queues t t' \<and>
    t_messages t' = map (\<lambda>m. if mr_rowid m = row then m\<lparr>mr_gtrid := g, mr_state := removed\<rparr> else m) (t_messages t)"
proof (rule update_rows [OF assms(1) assms(2) [unfolded mark_removed_def]])
  fix m :: message_row and qs qs'
  assume m: "(m :: message_row) \<in> set (t_messages t)" "mr_rowid m = row"
    and u: "update_state_trigger m (m\<lparr>mr_gtrid := g, mr_state := removed\<rparr>) qs = Some qs'"
  show "shifted (moved m (m\<lparr>mr_gtrid := g, mr_state := removed\<rparr>)) qs qs'"
    by (rule update_state_trigger_shifted [OF u]) (use assms(3) [OF m] in \<open>auto simp: live_def\<close>)
  show "row_ok (m\<lparr>mr_gtrid := g, mr_state := removed\<rparr>)"
    using assms(1,3) m by (auto simp: db_ok_def row_ok_def live_def)
qed (auto dest: update_state_trigger_ids)

lemma rollback2_ok:
  assumes "db_ok t" "rollback2 g t = Some t'"
  shows "db_ok t' \<and> same_queues t t' \<and> t_messages t' = map (\<lambda>m. if of_gtrid g removed m
     then m\<lparr>mr_state := enqueued, mr_redelivered := mr_redelivered m + 1\<rparr> else m) (t_messages t)"
proof (rule update_rows [OF assms(1) assms(2) [unfolded rollback2_def]])
  fix m :: message_row and qs qs'
  let ?m = "m\<lparr>mr_state := enqueued, mr_redelivered := mr_redelivered m + 1\<rparr>"
  assume m: "(m :: message_row) \<in> set (t_messages t)" "of_gtrid g removed m" and u: "update_state_trigger m ?m qs = Some qs'"
  show "shifted (moved m ?m) qs qs'"
    by (rule update_state_trigger_shifted [OF u]) (use m in \<open>auto simp: of_gtrid_def live_def\<close>)
  show "row_ok ?m" using assms(1) m by (auto simp: db_ok_def row_ok_def live_def of_gtrid_def)
qed (auto dest: update_state_trigger_ids)

text \<open>A message that is redelivered too often has been committed: the retries are not negative.\<close>

lemma exhausted_live:
  assumes "db_ok t" "m \<in> set (t_messages t)" "exhausted (t_queues t) m"
  shows "live m"
proof -
  obtain q where "q \<in> set (t_queues t)" "qr_retries q < mr_redelivered m"
    using assms(3) by (auto simp: exhausted_def dest!: find_Some_in split: option.splits)
  with assms(1,2) show ?thesis by (cases "mr_state m") (force simp: db_ok_def row_ok_def live_def)+
qed

lemma to_error_fields [simp]:
  "mr_rowid (to_error qs m) = mr_rowid m" "mr_id (to_error qs m) = mr_id m" "mr_state (to_error qs m) = mr_state m"
  "mr_payload (to_error qs m) = mr_payload m" "mr_gtrid (to_error qs m) = mr_gtrid m"
  by (auto simp: to_error_def split: option.splits)

lemma rollback3_ok:
  assumes "db_ok t" "rollback3 t = Some t'"
  shows "db_ok t' \<and> same_queues t t' \<and> t_messages t' =
    map (\<lambda>m. if exhausted (t_queues t) m then to_error (t_queues t) m else m) (t_messages t)"
proof (rule update_rows [OF assms(1) assms(2) [unfolded rollback3_def]])
  fix m :: message_row and qs qs'
  let ?m = "to_error (t_queues t) m"
  assume m: "(m :: message_row) \<in> set (t_messages t)" "exhausted (t_queues t) m" and u: "update_queue_trigger m ?m qs = Some qs'"
  show "shifted (moved m ?m) qs qs'"
    by (rule update_queue_trigger_shifted [OF u]) (simp_all add: exhausted_live [OF assms(1) m])
  show "row_ok ?m" using assms(1) m
    by (auto simp: db_ok_def row_ok_def live_def to_error_def split: option.splits)
qed (auto dest: update_queue_trigger_ids)

end
