(* ===== verification/Queue_Operations.thy ===== *)
theory Queue_Operations
  imports Queue_Counters
begin

text \<open>
  The operations of the queue database, each as a whole: that it keeps the tables consistent, when it
  succeeds and what it then leaves in the tables; and every sequence of operations on a new database.
\<close>

section \<open>Statements\<close>

lemma statement_cases:
  assumes "statement f t = (r, t')"
  obtains "r = Inl Sql_query_failed" "t' = t" "f t = None" | "r = Inr ()" "f t = Some t'"
  using assms by (auto simp: statement_def split: option.splits)

lemma statement_ok:
  assumes "statement f t = (r, t')" "db_ok t" "\<And>t'. f t = Some t' \<Longrightarrow> db_ok t' \<and> same_queues t t'"
  shows "db_ok t' \<and> same_queues t t'"
  using assms(1) by (rule statement_cases) (use assms in auto)

lemma db_bind_ok:
  assumes "db_bind f g t = (r, t')" "db_ok t"
    and "\<And>r t'. f t = (r, t') \<Longrightarrow> db_ok t' \<and> same_queues t t'"
    and "\<And>x t1 r t'. db_ok t1 \<Longrightarrow> g x t1 = (r, t') \<Longrightarrow> db_ok t' \<and> same_queues t1 t'"
  shows "db_ok t' \<and> same_queues t t'"
proof (cases "f t")
  case (Pair a t1)
  note 1 = assms(3) [OF Pair]
  show ?thesis
  proof (cases a)
    case (Inl e)
    with assms(1) Pair 1 show ?thesis by (simp add: db_bind_def)
  next
    case (Inr x)
    with assms(1) Pair have "g x t1 = (r, t')" by (simp add: db_bind_def)
    from assms(4) [OF _ this] 1 show ?thesis by (auto intro: same_queues_trans)
  qed
qed

text \<open>A statement that changes neither the queue of a message nor the ids of the queues meets no foreign key.\<close>

lemma same_keys_fk:
  assumes "fk_ok t" "qr_id ` set (t_queues t') = qr_id ` set (t_queues t)"
    "mr_queue ` set (t_messages t') \<subseteq> mr_queue ` set (t_messages t)"
  shows "fk_ok t'"
  using assms unfolding fk_ok_def list_all_iff by (metis (no_types, lifting) image_iff image_subset_iff)

section \<open>Each operation\<close>

lemma insert_message_keeps:
  assumes "db_ok t" "insert_message (new_message fresh now r t) t = Some t'"
  shows "db_ok t' \<and> same_queues t t' \<and> t_messages t' = t_messages t @ [new_message fresh now r t]"
  by (rule insert_message_ok [OF assms]) (use next_id_fresh [of "map mr_rowid (t_messages t)"] in
      \<open>simp_all add: new_message_def\<close>)

lemma db_enqueue_ok:
  assumes "db_ok t" "db_enqueue fresh now r t = (res, t')"
  shows "db_ok t' \<and> same_queues t t'"
  using assms(2) unfolding db_enqueue_def
  by (rule db_bind_ok) (use assms(1) in \<open>auto simp: db_return_def dest: insert_message_keeps elim!: statement_ok\<close>)

lemma first_message_in:
  assumes "first_message now r t = Some m"
  shows "m \<in> set (t_messages t)" "dequeable (dr_queue r) now m" "selected r m"
proof -
  let ?ms = "filter (\<lambda>m. dequeable (dr_queue r) now m \<and> selected r m) (t_messages t)"
  from assms have "m \<in> set (sort_key mr_timestamp ?ms)"
    unfolding first_message_def by (cases "sort_key mr_timestamp ?ms") simp_all
  then show "m \<in> set (t_messages t)" "dequeable (dr_queue r) now m" "selected r m" by simp_all
qed

lemma same_row: "db_ok t \<Longrightarrow> m \<in> set (t_messages t) \<Longrightarrow> m' \<in> set (t_messages t) \<Longrightarrow> mr_rowid m = mr_rowid m' \<Longrightarrow> m = m'"
  by (auto simp: db_ok_def distinct_map inj_on_def)

lemma mark_first_ok:
  assumes "db_ok t" "first_message now r t = Some m" "mark_removed g (mr_rowid m) t = Some t'"
  shows "db_ok t' \<and> same_queues t t' \<and> t_messages t' =
    map (\<lambda>m'. if mr_rowid m' = mr_rowid m then m'\<lparr>mr_gtrid := g, mr_state := removed\<rparr> else m') (t_messages t)"
  using mark_removed_ok [OF assms(1,3)] same_row [OF assms(1)] first_message_in [OF assms(2)]
  by (auto simp: dequeable_def)

lemma delete_row_ok:
  assumes "db_ok t" "delete_row row t = Some t'"
  shows "db_ok t' \<and> same_queues t t' \<and> t_messages t' = filter (\<lambda>m. mr_rowid m \<noteq> row) (t_messages t)"
  by (rule delete_rows [OF assms(1) assms(2) [unfolded delete_row_def]])

lemma db_dequeue_ok:
  assumes "db_ok t" "db_dequeue now r t = (res, t')"
  shows "db_ok t' \<and> same_queues t t'"
proof (cases "first_message now r t")
  case None
  with assms show ?thesis by (simp add: db_dequeue_def)
next
  case (Some m)
  show ?thesis
    using assms(2) unfolding db_dequeue_def Some option.case
    by (rule db_bind_ok) (use assms(1) Some in \<open>auto simp: db_return_def dest: mark_first_ok delete_row_ok
        elim!: statement_ok split: if_splits\<close>)
qed

lemma commit2_ok:
  "db_ok t \<Longrightarrow> commit2 g t = Some t' \<Longrightarrow>
    db_ok t' \<and> same_queues t t' \<and> t_messages t' = filter (\<lambda>m. \<not> of_gtrid g removed m) (t_messages t)"
  unfolding commit2_def by (rule delete_rows)

lemma rollback1_ok:
  "db_ok t \<Longrightarrow> rollback1 g t = Some t' \<Longrightarrow>
    db_ok t' \<and> same_queues t t' \<and> t_messages t' = filter (\<lambda>m. \<not> of_gtrid g added m) (t_messages t)"
  unfolding rollback1_def by (rule delete_rows)

text \<open>
  What keeps the tables consistent and changes them only as \<open>R\<close> allows, by the way it is composed: \<open>R\<close> is
  that the queues, or that the messages are the same.
\<close>

definition keeps :: "(tables \<Rightarrow> tables \<Rightarrow> bool) \<Rightarrow> 'a db \<Rightarrow> bool" where
  "keeps R f \<longleftrightarrow> (\<forall>t r t'. db_ok t \<longrightarrow> f t = (r, t') \<longrightarrow> db_ok t' \<and> R t t')"

definition same_messages :: "tables \<Rightarrow> tables \<Rightarrow> bool" where
  "same_messages t t' \<longleftrightarrow> t_messages t' = t_messages t"

lemma order_same [simp]: "reflp same_queues" "transp same_queues" "reflp same_messages" "transp same_messages"
  by (auto simp: reflp_def same_messages_def intro: transpI same_queues_trans)

lemma keepsD: "keeps R f \<Longrightarrow> db_ok t \<Longrightarrow> f t = (r, t') \<Longrightarrow> db_ok t' \<and> R t t'"
  by (simp add: keeps_def)

lemma keeps_bind:
  assumes "keeps R f" "\<And>x. keeps R (g x)" "transp R"
  shows "keeps R (db_bind f g)"
  unfolding keeps_def
proof (intro allI impI)
  fix t r t'
  assume t: "db_ok t" "db_bind f g t = (r, t')"
  obtain a t1 where f: "f t = (a, t1)" by fastforce
  note 1 = keepsD [OF assms(1) t(1) f]
  show "db_ok t' \<and> R t t'"
  proof (cases a)
    case (Inl e)
    with 1 t(2) f show ?thesis by (simp add: db_bind_def)
  next
    case (Inr x)
    with t(2) f have "g x t1 = (r, t')" by (simp add: db_bind_def)
    with 1 keepsD [OF assms(2)] transpD [OF assms(3)] show ?thesis by blast
  qed
qed

lemma keeps_return: "reflp R \<Longrightarrow> keeps R (db_return x)"
  by (simp add: keeps_def db_return_def reflp_def)

lemma keeps_statement:
  assumes "\<And>t t'. db_ok t \<Longrightarrow> f t = Some t' \<Longrightarrow> db_ok t' \<and> R t t'" "reflp R"
  shows "keeps R (statement f)"
  using assms unfolding keeps_def statement_def by (auto simp: reflp_def split: option.splits)

lemma keeps_each: "(\<And>x. keeps R (f x)) \<Longrightarrow> reflp R \<Longrightarrow> transp R \<Longrightarrow> keeps R (db_each f xs)"
proof (induction xs)
  case (Cons x xs)
  have "keeps R (db_bind (f x) (\<lambda>y. db_bind (db_each f xs) (\<lambda>ys. db_return (y # ys))))"
    using Cons by (intro keeps_bind keeps_return) simp_all
  then show ?case by (simp add: keeps_def)
qed (simp add: keeps_def reflp_def)

lemma keeps_db_enqueue: "keeps same_queues (db_enqueue fresh now r)"
  unfolding keeps_def using db_enqueue_ok by metis

lemma keeps_db_dequeue: "keeps same_queues (db_dequeue now r)"
  unfolding keeps_def using db_dequeue_ok by metis

lemma keeps_db_commit: "keeps same_queues (db_commit x)"
  unfolding db_commit_def
  by (intro keeps_bind keeps_statement order_same) (drule (1) commit1_ok commit2_ok, simp)+

lemma keeps_db_rollback: "keeps same_queues (db_rollback x)"
  unfolding db_rollback_def
  by (intro keeps_bind keeps_statement order_same) (drule (1) rollback1_ok rollback2_ok rollback3_ok, simp)+

section \<open>Queues\<close>

lemma load_none: "(\<And>m. m \<in> set ms \<Longrightarrow> mr_queue m \<noteq> i) \<Longrightarrow> load ms c i = 0"
  by (induction ms) (auto simp: share_in_def)

lemma no_messages_of_new_queue:
  assumes "fk_ok t" "i \<notin> qr_id ` set (t_queues t)"
  shows "load (t_messages t) c i = 0"
  using assms by (intro load_none) (auto simp: fk_ok_def list_all_iff)

lemma keeps_insert_queue:
  assumes "0 \<le> retries"
  shows "keeps same_messages (insert_queue name retries err type now)"
  unfolding keeps_def
proof (intro allI impI)
  fix t r t'
  assume t: "db_ok t" "insert_queue name retries err type now t = (r, t')"
  show "db_ok t' \<and> same_messages t t'"
  proof (cases "name \<in> qr_name ` set (t_queues t)")
    case True
    with t show ?thesis by (simp add: insert_queue_def same_messages_def)
  next
    case False
    let ?i = "next_id (map qr_id (t_queues t))"
    have new: "?i \<notin> qr_id ` set (t_queues t)" using next_id_fresh [of "map qr_id (t_queues t)"] by simp
    have fk: "fk_ok t" using t(1) by (simp add: db_ok_def)
    have zero: "load (t_messages t) c ?i = 0" for c by (rule no_messages_of_new_queue [OF fk new])
    have "t' = t\<lparr>t_queues := t_queues t @ [\<lparr>qr_id = ?i, qr_name = name, qr_retries = retries, qr_error = err,
        qr_type = type, qr_count = 0, qr_size = 0, qr_uncommitted = 0, qr_timestamp = now\<rparr>]\<rparr>"
      using t(2) False by (simp add: insert_queue_def Let_def)
    with t(1) assms new False zero show ?thesis
      by (simp add: db_ok_def counted_def counter_all fk_ok_def list_all_iff same_messages_def)
  qed
qed

lemma keeps_create: "keeps same_messages (db_create now q)"
  unfolding db_create_def by (intro keeps_bind keeps_return keeps_insert_queue order_same) simp_all

lemma distinct_map_change:
  assumes "distinct (map f xs)" "\<And>x. x \<in> set xs \<Longrightarrow> \<not> P x \<Longrightarrow> f x \<noteq> v"
    "\<And>x y. x \<in> set xs \<Longrightarrow> y \<in> set xs \<Longrightarrow> P x \<Longrightarrow> P y \<Longrightarrow> f x = f y"
  shows "distinct (map (\<lambda>x. if P x then v else f x) xs)"
  using assms
proof (induction xs)
  case (Cons x xs)
  then have "distinct (map (\<lambda>x. if P x then v else f x) xs)" by simp
  moreover have "(if P x then v else f x) \<noteq> (if P y then v else f y)" if y: "y \<in> set xs" for y
  proof -
    have "f x \<noteq> f y" using Cons.prems(1) y by (metis distinct.simps(2) image_eqI list.simps(9) set_map)
    with Cons.prems(2) [of x] Cons.prems(2) [of y] Cons.prems(3) [of x y] y show ?thesis
      by (cases "P x"; cases "P y") simp_all
  qed
  then have "(if P x then v else f x) \<notin> (\<lambda>y. if P y then v else f y) ` set xs" by blast
  ultimately show ?case by (simp del: if_image_distrib)
qed simp

lemma keeps_rename_queue:
  assumes "0 \<le> retries"
  shows "keeps same_messages (rename_queue name retries i)"
  unfolding rename_queue_def
proof (rule keeps_statement)
  fix t t'
  let ?f = "\<lambda>q. if qr_id q = i then q\<lparr>qr_name := name, qr_retries := retries\<rparr> else q"
  assume t: "db_ok t" and s: "(if list_ex (\<lambda>q. qr_id q \<noteq> i \<and> qr_name q = name) (t_queues t) \<and> i \<in> qr_id ` set (t_queues t)
     then None else Some (t\<lparr>t_queues := map ?f (t_queues t)\<rparr>)) = Some t'"
  then have t': "t' = t\<lparr>t_queues := map ?f (t_queues t)\<rparr>"
      and free: "i \<in> qr_id ` set (t_queues t) \<Longrightarrow> q \<in> set (t_queues t) \<Longrightarrow> qr_id q \<noteq> i \<Longrightarrow> qr_name q \<noteq> name" for q
    by (auto simp: list_ex_iff split: if_splits)
  have ids: "map qr_id (map ?f (t_queues t)) = map qr_id (t_queues t)" by simp
  have names: "distinct (map qr_name (map ?f (t_queues t)))"
  proof (cases "i \<in> qr_id ` set (t_queues t)")
    case True
    have "distinct (map (\<lambda>q. if qr_id q = i then name else qr_name q) (t_queues t))"
      using t free [OF True] by (intro distinct_map_change) (auto simp: db_ok_def distinct_map inj_on_def)
    moreover have "map qr_name (map ?f (t_queues t)) = map (\<lambda>q. if qr_id q = i then name else qr_name q) (t_queues t)"
      by (simp add: comp_def cong: if_cong)
    ultimately show ?thesis by (simp only:)
  next
    case False
    then have "map ?f (t_queues t) = t_queues t" by (intro map_idI) auto
    with t show ?thesis by (simp add: db_ok_def)
  qed
  have "counter_of c (?f q) = counter_of c q" for c q by (cases c) simp_all
  then have "counted t'" using t by (auto simp: t' db_ok_def counted_def simp del: if_image_distrib split: if_splits)
  moreover have "qr_id ` set (map ?f (t_queues t)) = qr_id ` set (t_queues t)" using ids by (metis set_map)
  then have "fk_ok t'" using t by (simp add: t' db_ok_def fk_ok_def del: set_map if_image_distrib)
  moreover have "\<forall>q\<in>set (t_queues t'). 0 \<le> qr_retries q" using t assms by (auto simp: t' db_ok_def)
  ultimately show "db_ok t' \<and> same_messages t t'"
    using t names ids by (simp add: t' db_ok_def same_messages_def del: map_map)
qed simp

lemma keeps_update_queue: "keeps same_messages (db_update_queue q)"
  unfolding keeps_def
proof (intro allI impI)
  fix t r t'
  assume t: "db_ok t" "db_update_queue q t = (r, t')"
  show "db_ok t' \<and> same_messages t t'"
  proof (cases "db_queue (qi_id q) t")
    case None
    with t show ?thesis by (simp add: db_update_queue_def same_messages_def)
  next
    case (Some e)
    with t(2) have "db_bind (rename_queue (qi_name q) (int (qi_retries q)) (qi_id q))
      (\<lambda>_. rename_queue (qi_name q @ ''.error'') (int (qi_retries q)) (qr_error e)) t = (r, t')"
      by (simp add: db_update_queue_def)
    moreover have "keeps same_messages (db_bind (rename_queue (qi_name q) (int (qi_retries q)) (qi_id q))
      (\<lambda>_. rename_queue (qi_name q @ ''.error'') (int (qi_retries q)) (qr_error e)))"
      by (intro keeps_bind keeps_rename_queue order_same) simp_all
    ultimately show ?thesis using t(1) unfolding keeps_def by blast
  qed
qed

lemma keeps_delete_queue: "keeps same_messages (delete_queue i)"
  unfolding delete_queue_def
proof (rule keeps_statement)
  fix t t'
  assume t: "db_ok t" and "(let t' = t\<lparr>t_queues := filter (\<lambda>q. qr_id q \<noteq> i) (t_queues t)\<rparr>
    in if fk_ok t' then Some t' else None) = Some t'"
  then have "t' = t\<lparr>t_queues := filter (\<lambda>q. qr_id q \<noteq> i) (t_queues t)\<rparr>" "fk_ok t'"
    by (auto simp: Let_def split: if_splits)
  with t show "db_ok t' \<and> same_messages t t'"
    by (auto simp: db_ok_def counted_def same_messages_def distinct_map_filter)
qed simp

lemma keeps_remove_queue: "keeps same_messages (db_remove_queue i)"
  unfolding keeps_def
proof (intro allI impI)
  fix t r t'
  assume t: "db_ok t" "db_remove_queue i t = (r, t')"
  show "db_ok t' \<and> same_messages t t'"
  proof (cases "db_queue i t")
    case None
    with t show ?thesis by (simp add: db_remove_queue_def same_messages_def)
  next
    case (Some e)
    with t(2) have "db_bind (delete_queue (qr_error e)) (\<lambda>_. delete_queue (qr_id e)) t = (r, t')"
      by (simp add: db_remove_queue_def)
    moreover have "keeps same_messages (db_bind (delete_queue (qr_error e)) (\<lambda>_. delete_queue (qr_id e)))"
      by (intro keeps_bind keeps_delete_queue order_same)
    ultimately show ?thesis using t(1) unfolding keeps_def by blast
  qed
qed

lemma keeps_update: "keeps same_messages (db_update now qs remove)"
  unfolding db_update_def
  by (cases "range_partition (\<lambda>q. qi_id q = 0) qs")
    (auto intro!: keeps_bind keeps_each keeps_return keeps_create keeps_update_queue keeps_remove_queue)

section \<open>Every sequence of operations\<close>

datatype db_op =
    Op_enqueue uuid int enqueue_request
  | Op_dequeue int dequeue_request
  | Op_commit trid
  | Op_rollback trid
  | Op_create int queue_info
  | Op_update int "queue_info list" "int list"

fun run_op :: "db_op \<Rightarrow> tables \<Rightarrow> tables" where
  "run_op (Op_enqueue fresh now r) t = snd (db_enqueue fresh now r t)"
| "run_op (Op_dequeue now r) t = snd (db_dequeue now r t)"
| "run_op (Op_commit x) t = snd (db_commit x t)"
| "run_op (Op_rollback x) t = snd (db_rollback x t)"
| "run_op (Op_create now q) t = snd (db_create now q t)"
| "run_op (Op_update now qs remove) t = snd (db_update now qs remove t)"

lemma keeps_snd: "keeps R f \<Longrightarrow> db_ok t \<Longrightarrow> db_ok (snd (f t))"
  by (metis keepsD prod.collapse)

lemma run_op_ok: "db_ok t \<Longrightarrow> db_ok (run_op op t)"
  by (cases op) (auto intro: keeps_snd keeps_db_enqueue keeps_db_dequeue keeps_db_commit keeps_db_rollback keeps_create keeps_update)

lemma new_database_ok: "db_ok (snd (db_open name now no_tables))"
  by (simp add: db_open_def no_tables_def statement_def fk_ok_def db_ok_def counted_def counter_all)

text \<open>
  C9: The queue database is consistent after any sequence of operations on a new database file, failed ones
  included: each queue's counters are the number and size of its committed messages and the number of its
  uncommitted ones, every message is in an existing queue, ids and names are unique, and a committed
  message has a payload.
\<close>

theorem counters_follow_the_messages:
  "db_ok (fold run_op ops (snd (db_open name now no_tables)))"
proof -
  have "db_ok (fold run_op ops t)" if "db_ok t" for t
    using that by (induction ops arbitrary: t) (auto intro: run_op_ok)
  then show ?thesis using new_database_ok by blast
qed

end
