(* ===== verification/Queue_Store.thy ===== *)
theory Queue_Store
  imports Queue_Operations
begin

text \<open>
  What the queue database promises its clients: a transactional store of messages. A message is ready, or
  new in a transaction that has enqueued it, or taken by a transaction that has dequeued it. Every operation
  of \<open>Database\<close> on messages is shown to do to this store what its specification says, with the conditions
  under which it fails and changes nothing.
\<close>

section \<open>The abstract store\<close>

text \<open>A queue and a message as a client gets it.\<close>

type_synonym entry = "int \<times> dequeued_message"

record store =
  st_ready :: "entry multiset"
  st_new :: "byte list \<Rightarrow> entry multiset"
  st_taken :: "byte list \<Rightarrow> entry multiset"

definition entry :: "message_row \<Rightarrow> entry" where
  "entry m = (mr_queue m, reply_message m)"

definition entries :: "(message_row \<Rightarrow> bool) \<Rightarrow> message_row list \<Rightarrow> entry multiset" where
  "entries P ms = image_mset entry (filter_mset P (mset ms))"

definition is_ready :: "message_row \<Rightarrow> bool" where
  "is_ready m \<longleftrightarrow> mr_state m = enqueued"

definition store_of :: "tables \<Rightarrow> store" where
  "store_of t = \<lparr>st_ready = entries is_ready (t_messages t),
     st_new = (\<lambda>g. entries (of_gtrid (Some g) added) (t_messages t)),
     st_taken = (\<lambda>g. entries (of_gtrid (Some g) removed) (t_messages t))\<rparr>"

text \<open>
  The specification. \<open>expire\<close> moves a message that has been redelivered too often to the error queue of its
  queue; \<open>fate\<close> gives a queue's retries and its error queue.
\<close>

type_synonym fate = "int \<Rightarrow> (int \<times> int) option"

definition expire :: "fate \<Rightarrow> entry \<Rightarrow> entry" where
  "expire fate = (\<lambda>(q, d). case fate q of None \<Rightarrow> (q, d)
     | Some (retries, err) \<Rightarrow> if dm_redelivered d > retries then (err, d\<lparr>dm_redelivered := 0\<rparr>) else (q, d))"

definition redeliver :: "entry \<Rightarrow> entry" where
  "redeliver = (\<lambda>(q, d). (q, d\<lparr>dm_redelivered := dm_redelivered d + 1\<rparr>))"

definition spec_enqueue :: "byte list option \<Rightarrow> entry \<Rightarrow> store \<Rightarrow> store" where
  "spec_enqueue g e s = (case g of None \<Rightarrow> s\<lparr>st_ready := add_mset e (st_ready s)\<rparr>
     | Some g \<Rightarrow> s\<lparr>st_new := (st_new s)(g := add_mset e (st_new s g))\<rparr>)"

definition spec_take :: "byte list option \<Rightarrow> entry \<Rightarrow> store \<Rightarrow> store" where
  "spec_take g e s = (case g of None \<Rightarrow> s\<lparr>st_ready := st_ready s - {#e#}\<rparr>
     | Some g \<Rightarrow> s\<lparr>st_ready := st_ready s - {#e#}, st_taken := (st_taken s)(g := add_mset e (st_taken s g))\<rparr>)"

definition spec_commit :: "byte list \<Rightarrow> store \<Rightarrow> store" where
  "spec_commit g s = s\<lparr>st_ready := st_ready s + st_new s g, st_new := (st_new s)(g := {#}),
     st_taken := (st_taken s)(g := {#})\<rparr>"

definition spec_undo :: "byte list \<Rightarrow> store \<Rightarrow> store" where
  "spec_undo g s = s\<lparr>st_ready := st_ready s + image_mset redeliver (st_taken s g),
     st_new := (st_new s)(g := {#}), st_taken := (st_taken s)(g := {#})\<rparr>"

definition spec_expire :: "fate \<Rightarrow> store \<Rightarrow> store" where
  "spec_expire fate s = s\<lparr>st_ready := image_mset (expire fate) (st_ready s),
     st_taken := (\<lambda>g. image_mset (expire fate) (st_taken s g))\<rparr>"

definition spec_rollback :: "fate \<Rightarrow> byte list \<Rightarrow> store \<Rightarrow> store" where
  "spec_rollback fate g s = spec_expire fate (spec_undo g s)"

definition fate_of :: "tables \<Rightarrow> fate" where
  "fate_of t q = map_option (\<lambda>r. (qr_retries r, qr_error r)) (find (\<lambda>r. qr_id r = q) (t_queues t))"

section \<open>Entries of a list of rows\<close>

lemma entries_append [simp]: "entries P (ms @ ms') = entries P ms + entries P ms'"
  by (simp add: entries_def)

lemma entries_Nil [simp]: "entries P [] = {#}"
  by (simp add: entries_def)

lemma entries_Cons [simp]: "entries P (m # ms) = (if P m then add_mset (entry m) (entries P ms) else entries P ms)"
  by (simp add: entries_def)

lemma entries_cong: "(\<And>m. m \<in> set ms \<Longrightarrow> P m = Q m) \<Longrightarrow> entries P ms = entries Q ms"
  by (induction ms) auto

lemma entries_filter: "entries P (filter Q ms) = entries (\<lambda>m. P m \<and> Q m) ms"
  by (induction ms) auto

lemma entries_none: "(\<And>m. m \<in> set ms \<Longrightarrow> \<not> P m) \<Longrightarrow> entries P ms = {#}"
  by (induction ms) auto

text \<open>Rows that are changed: what is counted afterwards was counted before or comes from the changed ones.\<close>

lemma entries_map:
  assumes "\<And>m. m \<in> set ms \<Longrightarrow> P (f m) \<longleftrightarrow> Q m \<or> R m" "\<And>m. m \<in> set ms \<Longrightarrow> \<not> (Q m \<and> R m)"
    and "\<And>m. m \<in> set ms \<Longrightarrow> Q m \<Longrightarrow> entry (f m) = entry m"
    and "\<And>m. m \<in> set ms \<Longrightarrow> R m \<Longrightarrow> entry (f m) = h (entry m)"
  shows "entries P (map f ms) = entries Q ms + image_mset h (entries R ms)"
  using assms by (induction ms) (auto, (metis add_mset_commute)?)

lemma entries_map_same:
  assumes "\<And>m. m \<in> set ms \<Longrightarrow> P (f m) \<longleftrightarrow> Q m" "\<And>m. m \<in> set ms \<Longrightarrow> Q m \<Longrightarrow> entry (f m) = h (entry m)"
  shows "entries P (map f ms) = image_mset h (entries Q ms)"
  using assms by (induction ms) auto

lemma entries_map_unchanged:
  assumes "\<And>m. m \<in> set ms \<Longrightarrow> P (f m) \<longleftrightarrow> Q m" "\<And>m. m \<in> set ms \<Longrightarrow> Q m \<Longrightarrow> entry (f m) = entry m"
  shows "entries P (map f ms) = entries Q ms"
  using assms by (induction ms) auto

section \<open>Commit\<close>

lemma update_rows_succeed:
  assumes "db_ok t"
    and total: "\<And>m qs. m \<in> set (t_messages t) \<Longrightarrow> P m \<Longrightarrow> trigger m (f m) qs \<noteq> None"
    and shift: "\<And>m qs qs'. m \<in> set (t_messages t) \<Longrightarrow> P m \<Longrightarrow> trigger m (f m) qs = Some qs' \<Longrightarrow> shifted (moved m (f m)) qs qs'"
    and queue: "\<And>m. m \<in> set (t_messages t) \<Longrightarrow> P m \<Longrightarrow> mr_queue (f m) \<in> qr_id ` set (t_queues t)"
  shows "\<exists>t'. on_messages (update_messages P f trigger) t = Some t'"
proof -
  obtain ms qs where u: "update_messages P f trigger (t_messages t) (t_queues t) = Some (ms, qs)"
    using update_messages_total [of "t_messages t" P trigger f "t_queues t"] total by fastforce
  have s: "ms = map (\<lambda>m. if P m then f m else m) (t_messages t)"
      "shifted (\<lambda>c i. load ms c i - load (t_messages t) c i) (t_queues t) qs"
    by (rule update_messages_shifted [OF u shift, THEN conjunct1], assumption+)
      (rule update_messages_shifted [OF u shift, THEN conjunct2], assumption+)
  have "qr_id ` set qs = qr_id ` set (t_queues t)" by (rule same_queue_sets(1) [OF shifted_same_queues [OF s(2)]])
  then have "fk_ok (t\<lparr>t_messages := ms, t_queues := qs\<rparr>)"
    using assms(1) queue unfolding s(1) by (auto simp: fk_ok_def list_all_iff db_ok_def)
  with u show ?thesis by (simp add: on_messages_def)
qed

lemma delete_rows_succeed:
  assumes "db_ok t"
  shows "\<exists>t'. on_messages (delete_messages P) t = Some t'"
proof -
  obtain ms qs where u: "delete_messages P (t_messages t) (t_queues t) = Some (ms, qs)"
    using delete_messages_total [of "t_messages t" P "t_queues t"] delete_message_trigger_total assms
    by (fastforce simp: db_ok_def)
  note s = delete_messages_shifted [OF u]
  have "qr_id ` set qs = qr_id ` set (t_queues t)"
    by (rule same_queue_sets(1) [OF shifted_same_queues [OF conjunct2 [OF s]]])
  then have "fk_ok (t\<lparr>t_messages := ms, t_queues := qs\<rparr>)"
    using assms unfolding conjunct1 [OF s] by (auto simp: fk_ok_def list_all_iff db_ok_def)
  with u show ?thesis by (simp add: on_messages_def)
qed

lemma message_queue_exists: "db_ok t \<Longrightarrow> m \<in> set (t_messages t) \<Longrightarrow> mr_queue m \<in> qr_id ` set (t_queues t)"
  by (simp add: db_ok_def fk_ok_def list_all_iff)

lemma commit1_succeeds:
  assumes "db_ok t" "\<And>m. m \<in> set (t_messages t) \<Longrightarrow> of_gtrid g added m \<Longrightarrow> mr_payload m \<noteq> None"
  shows "\<exists>t'. commit1 g t = Some t'"
  unfolding commit1_def
proof (rule update_rows_succeed [OF assms(1)])
  fix m :: message_row and qs qs'
  assume m: "m \<in> set (t_messages t)" "of_gtrid g added m"
  show "update_state_trigger m (m\<lparr>mr_state := enqueued\<rparr>) qs \<noteq> None"
    by (rule update_state_trigger_total) (simp add: assms(2) [OF m] del: not_None_eq)
  show "update_state_trigger m (m\<lparr>mr_state := enqueued\<rparr>) qs = Some qs' \<Longrightarrow>
      shifted (moved m (m\<lparr>mr_state := enqueued\<rparr>)) qs qs'"
    by (erule update_state_trigger_shifted) (use m in \<open>auto simp: of_gtrid_def\<close>)
  show "mr_queue (m\<lparr>mr_state := enqueued\<rparr>) \<in> qr_id ` set (t_queues t)"
    using message_queue_exists [OF assms(1) m(1)] by simp
qed

lemma commit2_succeeds: "db_ok t \<Longrightarrow> \<exists>t'. commit2 g t = Some t'"
  unfolding commit2_def by (rule delete_rows_succeed)

lemma entry_fields [simp]:
  "entry (m\<lparr>mr_state := s\<rparr>) = entry m" "entry (m\<lparr>mr_gtrid := g\<rparr>) = entry m"
  "entry (m\<lparr>mr_state := s, mr_redelivered := mr_redelivered m + 1\<rparr>) = redeliver (entry m)"
  by (simp_all add: entry_def reply_message_def redeliver_def)

lemmas store_simps = store_of_def entries_filter is_ready_def of_gtrid_def

text \<open>
  C10: Commit implements its specification: the messages the transaction enqueued become ready, those it
  dequeued are gone, and nothing else changes. It succeeds when no message of the transaction is empty.
\<close>

theorem commit_refines:
  assumes "db_ok t" "bound_gtrid x = Some g"
    and "\<forall>m\<in>set (t_messages t). of_gtrid (Some g) added m \<longrightarrow> mr_payload m \<noteq> None"
  shows "\<exists>t'. db_commit x t = (Inr (), t') \<and> store_of t' = spec_commit g (store_of t)"
proof -
  obtain t1 where t1: "commit1 (Some g) t = Some t1" using commit1_succeeds [OF assms(1)] assms(3) by metis
  note 1 = commit1_ok [OF assms(1) t1]
  obtain t2 where t2: "commit2 (Some g) t1 = Some t2" using commit2_succeeds 1 by metis
  note 2 = commit2_ok [OF conjunct1 [OF 1] t2]
  let ?f = "\<lambda>m. if of_gtrid (Some g) added m then m\<lparr>mr_state := enqueued\<rparr> else m"
  have ms: "t_messages t2 = filter (\<lambda>m. \<not> of_gtrid (Some g) removed m) (map ?f (t_messages t))" using 1 2 by simp
  have "entries is_ready (t_messages t2) =
      entries is_ready (t_messages t) + image_mset (\<lambda>e. e) (entries (of_gtrid (Some g) added) (t_messages t))"
    unfolding ms entries_filter by (rule entries_map) (auto simp: is_ready_def of_gtrid_def)
  moreover have "entries (of_gtrid (Some h) added) (t_messages t2) =
      (if h = g then {#} else entries (of_gtrid (Some h) added) (t_messages t))" for h
  proof (cases "h = g")
    case True
    then show ?thesis unfolding ms by (auto simp: of_gtrid_def intro!: entries_none)
  next
    case False
    then show ?thesis
      unfolding ms entries_filter if_not_P [OF False] by (intro entries_map_unchanged) (auto simp: of_gtrid_def)
  qed
  moreover have "entries (of_gtrid (Some h) removed) (t_messages t2) =
      (if h = g then {#} else entries (of_gtrid (Some h) removed) (t_messages t))" for h
  proof (cases "h = g")
    case True
    then show ?thesis unfolding ms by (auto simp: of_gtrid_def intro!: entries_none)
  next
    case False
    then show ?thesis
      unfolding ms entries_filter if_not_P [OF False] by (intro entries_map_unchanged) (auto simp: of_gtrid_def)
  qed
  ultimately have "store_of t2 = spec_commit g (store_of t)"
    by (simp add: store_of_def spec_commit_def fun_eq_iff)
  moreover have "db_commit x t = (Inr (), t2)"
    using t1 t2 assms(2) by (simp add: db_commit_def db_bind_def statement_def)
  ultimately show ?thesis by blast
qed

section \<open>Rollback\<close>

definition linked :: "tables \<Rightarrow> bool" where
  "linked t \<longleftrightarrow> (\<forall>q\<in>set (t_queues t). qr_error q \<in> qr_id ` set (t_queues t))"

lemma same_queues_linked: "same_queues t t' \<Longrightarrow> linked t' = linked t"
  unfolding same_queues_def linked_def image_subset_iff [symmetric] by (simp add: same_queue_sets)

lemma find_same_queue:
  assumes "list_all2 same_queue qs qs'"
  shows "map_option (\<lambda>r. (qr_retries r, qr_error r)) (find (\<lambda>r. qr_id r = i) qs') =
    map_option (\<lambda>r. (qr_retries r, qr_error r)) (find (\<lambda>r. qr_id r = i) qs)"
  using assms by (induction rule: list_all2_induct) (auto simp: same_queue_def)

lemma same_queues_fate: "same_queues t t' \<Longrightarrow> fate_of t' = fate_of t"
  unfolding same_queues_def fate_of_def by (rule ext) (rule find_same_queue)

lemma entry_to_error:
  "entry (if exhausted (t_queues t) m then to_error (t_queues t) m else m) = expire (fate_of t) (entry m)"
proof (cases "find (\<lambda>q. qr_id q = mr_queue m) (t_queues t)")
  case None
  then show ?thesis by (simp add: entry_def exhausted_def expire_def fate_of_def)
next
  case (Some q)
  then show ?thesis by (simp add: entry_def reply_message_def exhausted_def to_error_def expire_def fate_of_def)
qed

lemma rollback1_succeeds: "db_ok t \<Longrightarrow> \<exists>t'. rollback1 g t = Some t'"
  unfolding rollback1_def by (rule delete_rows_succeed)

lemma live_payload: "db_ok t \<Longrightarrow> m \<in> set (t_messages t) \<Longrightarrow> live m \<Longrightarrow> mr_payload m \<noteq> None"
  by (simp add: db_ok_def row_ok_def)

lemma rollback2_succeeds:
  assumes "db_ok t"
  shows "\<exists>t'. rollback2 g t = Some t'"
  unfolding rollback2_def
proof (rule update_rows_succeed [OF assms])
  fix m :: message_row and qs qs'
  let ?m = "m\<lparr>mr_state := enqueued, mr_redelivered := mr_redelivered m + 1\<rparr>"
  assume m: "m \<in> set (t_messages t)" "of_gtrid g removed m"
  show "update_state_trigger m ?m qs \<noteq> None"
    by (rule update_state_trigger_total) (use live_payload [OF assms m(1)] m(2) in \<open>simp add: of_gtrid_def live_def\<close>)
  show "update_state_trigger m ?m qs = Some qs' \<Longrightarrow> shifted (moved m ?m) qs qs'"
    by (erule update_state_trigger_shifted) (use m in \<open>auto simp: of_gtrid_def live_def\<close>)
  show "mr_queue ?m \<in> qr_id ` set (t_queues t)" using message_queue_exists [OF assms m(1)] by simp
qed

lemma undo_store:
  assumes "db_ok t" "rollback1 (Some g) t = Some t1" "rollback2 (Some g) t1 = Some t2"
  shows "store_of t2 = spec_undo g (store_of t)"
proof -
  note 1 = rollback1_ok [OF assms(1,2)]
  note 2 = rollback2_ok [OF conjunct1 [OF 1] assms(3)]
  let ?new = "of_gtrid (Some g) added" and ?taken = "of_gtrid (Some g) removed"
  let ?f = "\<lambda>m. if ?taken m then m\<lparr>mr_state := enqueued, mr_redelivered := mr_redelivered m + 1\<rparr> else m"
  have ms: "t_messages t2 = map ?f (filter (\<lambda>m. \<not> ?new m) (t_messages t))" using 1 2 by simp
  have "entries is_ready (t_messages t2) = entries is_ready (filter (\<lambda>m. \<not> ?new m) (t_messages t)) +
      image_mset redeliver (entries ?taken (filter (\<lambda>m. \<not> ?new m) (t_messages t)))"
    unfolding ms by (rule entries_map) (auto simp: is_ready_def of_gtrid_def)
  also have "entries is_ready (filter (\<lambda>m. \<not> ?new m) (t_messages t)) = entries is_ready (t_messages t)"
    unfolding entries_filter by (rule entries_cong) (auto simp: is_ready_def of_gtrid_def)
  also have "entries ?taken (filter (\<lambda>m. \<not> ?new m) (t_messages t)) = entries ?taken (t_messages t)"
    unfolding entries_filter by (rule entries_cong) (auto simp: of_gtrid_def)
  finally have ready: "entries is_ready (t_messages t2) =
      entries is_ready (t_messages t) + image_mset redeliver (entries ?taken (t_messages t))" .
  have other: "entries (of_gtrid (Some h) st) (t_messages t2) =
      (if h = g then {#} else entries (of_gtrid (Some h) st) (t_messages t))" if "st \<in> {added, removed}" for h st
  proof -
    have "entries (of_gtrid (Some h) st) (t_messages t2) =
        entries (\<lambda>m. h \<noteq> g \<and> of_gtrid (Some h) st m) (filter (\<lambda>m. \<not> ?new m) (t_messages t))"
      unfolding ms by (rule entries_map_unchanged) (use that in \<open>auto simp: of_gtrid_def\<close>)
    also have "\<dots> = entries (\<lambda>m. h \<noteq> g \<and> of_gtrid (Some h) st m) (t_messages t)"
      unfolding entries_filter by (rule entries_cong) (auto simp: of_gtrid_def)
    finally show ?thesis by (simp add: entries_none)
  qed
  show ?thesis using ready other by (simp add: store_of_def spec_undo_def fun_eq_iff)
qed

lemma rollback3_succeeds:
  assumes "db_ok t" "linked t"
  shows "\<exists>t'. rollback3 t = Some t'"
  unfolding rollback3_def
proof (rule update_rows_succeed [OF assms(1)])
  fix m :: message_row and qs qs'
  let ?m = "to_error (t_queues t) m"
  assume m: "m \<in> set (t_messages t)" "exhausted (t_queues t) m"
  note l = exhausted_live [OF assms(1) m]
  show "update_queue_trigger m ?m qs \<noteq> None"
    by (rule update_queue_trigger_total) (use live_payload [OF assms(1) m(1) l] in simp_all)
  show "update_queue_trigger m ?m qs = Some qs' \<Longrightarrow> shifted (moved m ?m) qs qs'"
    by (erule update_queue_trigger_shifted) (simp_all add: l)
  show "mr_queue ?m \<in> qr_id ` set (t_queues t)"
    using assms(2) message_queue_exists [OF assms(1) m(1)]
    by (auto simp: to_error_def linked_def dest!: find_Some_in split: option.splits)
qed

lemma expire_store:
  assumes "db_ok t" "rollback3 t = Some t'"
  shows "store_of t' = spec_expire (fate_of t) (store_of t)"
proof -
  let ?g = "\<lambda>m. if exhausted (t_queues t) m then to_error (t_queues t) m else m"
  have ms: "t_messages t' = map ?g (t_messages t)" using rollback3_ok [OF assms] by simp
  have fields: "mr_state (?g m) = mr_state m" "mr_gtrid (?g m) = mr_gtrid m" for m by simp_all
  have "entries is_ready (t_messages t') = image_mset (expire (fate_of t)) (entries is_ready (t_messages t))"
    unfolding ms by (rule entries_map_same) (simp_all add: is_ready_def entry_to_error fields del: if_split)
  moreover have "entries (of_gtrid (Some h) removed) (t_messages t') =
      image_mset (expire (fate_of t)) (entries (of_gtrid (Some h) removed) (t_messages t))" for h
    unfolding ms by (rule entries_map_same) (simp_all add: of_gtrid_def entry_to_error fields del: if_split)
  moreover have "entries (of_gtrid (Some h) added) (t_messages t') = entries (of_gtrid (Some h) added) (t_messages t)" for h
    unfolding ms
  proof (rule entries_map_unchanged)
    fix m assume m: "m \<in> set (t_messages t)"
    show "of_gtrid (Some h) added (?g m) = of_gtrid (Some h) added m" by (simp add: of_gtrid_def)
    assume "of_gtrid (Some h) added m"
    then have "\<not> exhausted (t_queues t) m"
      using exhausted_live [OF assms(1) m] by (auto simp: of_gtrid_def live_def)
    then show "entry (?g m) = entry m" by simp
  qed
  ultimately show ?thesis by (simp add: store_of_def spec_expire_def fun_eq_iff)
qed

text \<open>
  C11: Rollback implements its specification: the messages the transaction enqueued are gone, those it
  dequeued are ready again and count one more delivery, and a message that has been delivered more often
  than its queue allows is in the error queue with a count of none. It succeeds when the error queues exist.
\<close>

theorem rollback_refines:
  assumes "db_ok t" "linked t" "bound_gtrid x = Some g"
  shows "\<exists>t'. db_rollback x t = (Inr (), t') \<and> store_of t' = spec_rollback (fate_of t) g (store_of t)"
proof -
  obtain t1 where t1: "rollback1 (Some g) t = Some t1" using rollback1_succeeds [OF assms(1)] by metis
  note 1 = rollback1_ok [OF assms(1) t1]
  obtain t2 where t2: "rollback2 (Some g) t1 = Some t2" using rollback2_succeeds 1 by metis
  note 2 = rollback2_ok [OF conjunct1 [OF 1] t2]
  have same: "same_queues t t2" using 1 2 same_queues_trans by blast
  obtain t3 where t3: "rollback3 t2 = Some t3"
    using rollback3_succeeds 2 assms(2) same_queues_linked [OF same] by metis
  have "store_of t3 = spec_rollback (fate_of t) g (store_of t)"
    using undo_store [OF assms(1) t1 t2] expire_store [OF conjunct1 [OF 2] t3] same_queues_fate [OF same]
    by (simp add: spec_rollback_def)
  moreover have "db_rollback x t = (Inr (), t3)"
    using t1 t2 t3 assms(3) by (simp add: db_rollback_def db_bind_def statement_def)
  ultimately show ?thesis by blast
qed

section \<open>Dequeue\<close>

text \<open>What a request is for, of a message as clients see it.\<close>

definition wanted :: "int \<Rightarrow> dequeue_request \<Rightarrow> entry \<Rightarrow> bool" where
  "wanted now r = (\<lambda>(q, d). q = dr_queue r \<and> dm_avalible d < now \<and>
     (if dr_id r \<noteq> nil_uuid then dm_id d = dr_id r
      else dr_properties r \<noteq> [] \<longrightarrow> dm_properties d = dr_properties r))"

definition tx_gtrid :: "trid \<Rightarrow> byte list option" where
  "tx_gtrid x = (if has_trid x then bound_gtrid x else None)"

lemma wanted_entry: "wanted now r (entry m) \<and> is_ready m \<longleftrightarrow> dequeable (dr_queue r) now m \<and> selected r m"
  by (auto simp: wanted_def entry_def reply_message_def is_ready_def dequeable_def selected_def)

lemma in_entries: "e \<in># entries P ms \<longleftrightarrow> (\<exists>m\<in>set ms. P m \<and> e = entry m)"
  by (auto simp: entries_def)

lemma first_message_least:
  assumes "first_message now r t = Some m" "m' \<in> set (t_messages t)" "dequeable (dr_queue r) now m'" "selected r m'"
  shows "mr_timestamp m \<le> mr_timestamp m'"
proof -
  let ?ms = "sort_key mr_timestamp (filter (\<lambda>m. dequeable (dr_queue r) now m \<and> selected r m) (t_messages t))"
  obtain ms where "?ms = m # ms" using assms(1) unfolding first_message_def by (cases ?ms) simp_all
  moreover have "sorted (map mr_timestamp ?ms)" by simp
  moreover have "m' \<in> set ?ms" using assms(2-4) by simp
  ultimately show ?thesis by auto
qed

lemma row_split:
  assumes "db_ok t" "m \<in> set (t_messages t)"
  obtains ys zs where "t_messages t = ys @ m # zs" "\<And>m'. m' \<in> set ys \<union> set zs \<Longrightarrow> mr_rowid m' \<noteq> mr_rowid m"
proof -
  obtain ys zs where s: "t_messages t = ys @ m # zs" using assms(2) by (auto dest: split_list)
  with assms(1) have "distinct (map mr_rowid (ys @ m # zs))" by (simp add: db_ok_def)
  then have "mr_rowid m' \<noteq> mr_rowid m" if "m' \<in> set ys \<union> set zs" for m'
    using that by (auto simp: image_iff)
  with s show ?thesis by (rule that)
qed

lemma of_state: "mr_state m = st \<Longrightarrow> st \<noteq> st' \<Longrightarrow> \<not> of_gtrid g st' m"
  by (simp add: of_gtrid_def)

lemma mark_store:
  assumes "db_ok t" "first_message now r t = Some m" "mark_removed (Some g) (mr_rowid m) t = Some t'"
  shows "store_of t' = spec_take (Some g) (entry m) (store_of t)"
proof -
  note m = first_message_in [OF assms(2)]
  then have st: "mr_state m = enqueued" by (simp add: dequeable_def)
  obtain ys zs where s: "t_messages t = ys @ m # zs" "\<And>m'. m' \<in> set ys \<union> set zs \<Longrightarrow> mr_rowid m' \<noteq> mr_rowid m"
    using row_split [OF assms(1) m(1)] by metis
  have "t_messages t' = ys @ m\<lparr>mr_gtrid := Some g, mr_state := removed\<rparr> # zs"
    using mark_first_ok [OF assms] s by (simp add: map_idI)
  with s(1) st show ?thesis
    by (simp add: store_of_def spec_take_def is_ready_def of_gtrid_def fun_eq_iff)
qed

lemma delete_store:
  assumes "db_ok t" "first_message now r t = Some m" "delete_row (mr_rowid m) t = Some t'"
  shows "store_of t' = spec_take None (entry m) (store_of t)"
proof -
  note m = first_message_in [OF assms(2)]
  then have st: "mr_state m = enqueued" by (simp add: dequeable_def)
  obtain ys zs where s: "t_messages t = ys @ m # zs" "\<And>m'. m' \<in> set ys \<union> set zs \<Longrightarrow> mr_rowid m' \<noteq> mr_rowid m"
    using row_split [OF assms(1) m(1)] by metis
  have "filter (\<lambda>m'. mr_rowid m' \<noteq> mr_rowid m) ys = ys" "filter (\<lambda>m'. mr_rowid m' \<noteq> mr_rowid m) zs = zs"
    using s(2) by (auto simp: filter_id_conv)
  then have "t_messages t' = ys @ zs" using delete_row_ok [OF assms(1,3)] s(1) by simp
  with s(1) st show ?thesis
    by (simp add: store_of_def spec_take_def is_ready_def of_gtrid_def fun_eq_iff)
qed

lemma mark_removed_succeeds:
  assumes "db_ok t" "m \<in> set (t_messages t)" "mr_state m = enqueued"
  shows "\<exists>t'. mark_removed g (mr_rowid m) t = Some t'"
  unfolding mark_removed_def
proof (rule update_rows_succeed [OF assms(1)])
  fix m' :: message_row and qs qs'
  assume m': "m' \<in> set (t_messages t)" "mr_rowid m' = mr_rowid m"
  with same_row [OF assms(1) m'(1) assms(2)] assms(3) have st: "mr_state m' = enqueued" by simp
  then have l: "live m'" by (simp add: live_def)
  show "update_state_trigger m' (m'\<lparr>mr_gtrid := g, mr_state := removed\<rparr>) qs \<noteq> None"
    by (rule update_state_trigger_total) (use live_payload [OF assms(1) m'(1) l] in simp)
  show "update_state_trigger m' (m'\<lparr>mr_gtrid := g, mr_state := removed\<rparr>) qs = Some qs' \<Longrightarrow>
      shifted (moved m' (m'\<lparr>mr_gtrid := g, mr_state := removed\<rparr>)) qs qs'"
    by (erule update_state_trigger_shifted) (simp_all add: st live_def)
  show "mr_queue (m'\<lparr>mr_gtrid := g, mr_state := removed\<rparr>) \<in> qr_id ` set (t_queues t)"
    using message_queue_exists [OF assms(1) m'(1)] by simp
qed

lemma delete_row_succeeds: "db_ok t \<Longrightarrow> \<exists>t'. delete_row row t = Some t'"
  unfolding delete_row_def by (rule delete_rows_succeed)

text \<open>A dequeue that finds a message, and one that does not.\<close>

lemma first_message_None:
  "first_message now r t = None \<longleftrightarrow> (\<forall>e\<in>#st_ready (store_of t). \<not> wanted now r e)"
proof -
  let ?ms = "filter (\<lambda>m. dequeable (dr_queue r) now m \<and> selected r m) (t_messages t)"
  have "first_message now r t = None \<longleftrightarrow> sort_key mr_timestamp ?ms = []"
    unfolding first_message_def by (cases "sort_key mr_timestamp ?ms") simp_all
  also have "\<dots> \<longleftrightarrow> set (sort_key mr_timestamp ?ms) = {}" by (simp only: set_empty)
  also have "\<dots> \<longleftrightarrow> (\<forall>m\<in>set (t_messages t). \<not> (wanted now r (entry m) \<and> is_ready m))"
    unfolding wanted_entry by auto
  also have "\<dots> \<longleftrightarrow> (\<forall>e\<in>#st_ready (store_of t). \<not> wanted now r e)"
    by (simp add: store_of_def Ball_def in_entries del: split_paired_All) blast
  finally show ?thesis .
qed

lemma db_dequeue_found:
  assumes "db_ok t" "first_message now r t = Some m" "has_trid (dr_trid r) \<longrightarrow> bound_gtrid (dr_trid r) \<noteq> None"
  shows "\<exists>t'. db_dequeue now r t = (Inr (Some (reply_message m)), t') \<and>
    store_of t' = spec_take (tx_gtrid (dr_trid r)) (entry m) (store_of t)"
proof (cases "has_trid (dr_trid r)")
  case True
  with assms(3) obtain g where g: "bound_gtrid (dr_trid r) = Some g" by blast
  obtain t' where t': "mark_removed (Some g) (mr_rowid m) t = Some t'"
    using mark_removed_succeeds [OF assms(1)] first_message_in [OF assms(2)] by (fastforce simp: dequeable_def)
  with mark_store [OF assms(1,2) t'] assms(2) True g show ?thesis
    by (simp add: db_dequeue_def db_bind_def statement_def db_return_def tx_gtrid_def)
next
  case False
  obtain t' where t': "delete_row (mr_rowid m) t = Some t'" using delete_row_succeeds [OF assms(1)] by blast
  with delete_store [OF assms(1,2) t'] assms(2) False show ?thesis
    by (simp add: db_dequeue_def db_bind_def statement_def db_return_def tx_gtrid_def)
qed

text \<open>
  C12: Dequeue implements its specification. When no ready message of the queue is wanted it answers with
  none and changes nothing; otherwise it answers with a wanted ready message such that no other is older,
  which is gone, or taken by the transaction. Messages of unfinished transactions are never answered.
\<close>

theorem dequeue_refines:
  assumes "db_ok t" "has_trid (dr_trid r) \<longrightarrow> bound_gtrid (dr_trid r) \<noteq> None"
  shows "if \<forall>e\<in>#st_ready (store_of t). \<not> wanted now r e then db_dequeue now r t = (Inr None, t)
    else \<exists>e t'. e \<in># st_ready (store_of t) \<and> wanted now r e \<and>
      (\<forall>e'\<in>#st_ready (store_of t). wanted now r e' \<longrightarrow> dm_timestamp (snd e) \<le> dm_timestamp (snd e')) \<and>
      db_dequeue now r t = (Inr (Some (snd e)), t') \<and> store_of t' = spec_take (tx_gtrid (dr_trid r)) e (store_of t)"
proof (cases "first_message now r t")
  case None
  with first_message_None [of now r t] show ?thesis by (simp add: db_dequeue_def)
next
  case (Some m)
  note m = first_message_in [OF Some]
  have "entry m \<in># st_ready (store_of t)" "wanted now r (entry m)"
    using m wanted_entry [of now r m] by (auto simp: store_of_def in_entries)
  moreover have "dm_timestamp (snd (entry m)) \<le> dm_timestamp (snd e')"
    if e': "e' \<in># st_ready (store_of t)" "wanted now r e'" for e'
  proof -
    obtain m' where "m' \<in> set (t_messages t)" "is_ready m'" "e' = entry m'" using e'(1) by (auto simp: store_of_def in_entries)
    with e'(2) first_message_least [OF Some] wanted_entry [of now r m'] show ?thesis
      by (simp add: entry_def reply_message_def)
  qed
  moreover obtain t' where "db_dequeue now r t = (Inr (Some (snd (entry m))), t')"
      "store_of t' = spec_take (tx_gtrid (dr_trid r)) (entry m) (store_of t)"
    using db_dequeue_found [OF assms(1) Some assms(2)] by (auto simp: entry_def)
  ultimately have "\<exists>e t'. e \<in># st_ready (store_of t) \<and> wanted now r e \<and>
      (\<forall>e'\<in>#st_ready (store_of t). wanted now r e' \<longrightarrow> dm_timestamp (snd e) \<le> dm_timestamp (snd e')) \<and>
      db_dequeue now r t = (Inr (Some (snd e)), t') \<and> store_of t' = spec_take (tx_gtrid (dr_trid r)) e (store_of t)"
    by blast
  moreover have "\<not> (\<forall>e\<in>#st_ready (store_of t). \<not> wanted now r e)"
    using first_message_None [of now r t] Some by simp
  ultimately show ?thesis by (simp only: if_False)
qed

section \<open>Enqueue\<close>

definition can_enqueue :: "uuid \<Rightarrow> enqueue_request \<Rightarrow> tables \<Rightarrow> bool" where
  "can_enqueue fresh r t \<longleftrightarrow> message_id fresh r \<notin> mr_id ` set (t_messages t) \<and>
     er_queue r \<in> qr_id ` set (t_queues t) \<and> (has_trid (er_trid r) \<or> bm_payload (er_message r) \<noteq> [])"

definition enqueued_entry :: "uuid \<Rightarrow> int \<Rightarrow> enqueue_request \<Rightarrow> entry" where
  "enqueued_entry fresh now r = (er_queue r,
     \<lparr>dm_id = message_id fresh r, dm_properties = bm_properties (er_message r), dm_reply = bm_reply (er_message r),
      dm_redelivered = 0, dm_type = bm_type (er_message r), dm_subtype = bm_subtype (er_message r),
      dm_avalible = bm_avalible (er_message r), dm_timestamp = now, dm_payload = bm_payload (er_message r)\<rparr>)"

lemma new_message_fields [simp]:
  "mr_id (new_message fresh now r t) = message_id fresh r" "mr_queue (new_message fresh now r t) = er_queue r"
  "mr_state (new_message fresh now r t) = (if has_trid (er_trid r) then added else enqueued)"
  "mr_gtrid (new_message fresh now r t) = bound_gtrid (er_trid r)"
  "mr_payload (new_message fresh now r t) = bound (bm_payload (er_message r))"
  "entry (new_message fresh now r t) = enqueued_entry fresh now r"
  by (simp_all add: new_message_def entry_def reply_message_def enqueued_entry_def bound_def)

lemma insert_message_succeeds:
  assumes "db_ok t" "can_enqueue fresh r t"
  shows "\<exists>t'. insert_message (new_message fresh now r t) t = Some t'"
proof -
  let ?m = "new_message fresh now r t"
  have "insert_message_trigger ?m (t_queues t) \<noteq> None"
    using assms(2) tally_total [of ?m]
    by (auto simp: insert_message_trigger_def can_enqueue_def bound_def simp del: not_None_eq intro!: update_queue_total)
  then obtain qs where u: "insert_message_trigger ?m (t_queues t) = Some qs" by blast
  have "qr_id ` set qs = qr_id ` set (t_queues t)"
    by (rule same_queue_sets(1) [OF shifted_same_queues [OF insert_message_trigger_shifted [OF u]]]) simp
  then have "fk_ok (t\<lparr>t_messages := t_messages t @ [?m], t_queues := qs\<rparr>)"
    using assms by (simp add: fk_ok_def db_ok_def can_enqueue_def)
  with u assms(2) show ?thesis by (simp add: insert_message_def on_messages_def can_enqueue_def)
qed

lemma insert_message_fails:
  assumes "db_ok t" "\<not> can_enqueue fresh r t"
  shows "insert_message (new_message fresh now r t) t = None"
proof (rule ccontr)
  let ?m = "new_message fresh now r t"
  assume "insert_message ?m t \<noteq> None"
  then obtain t' where t': "insert_message ?m t = Some t'" by blast
  note k = insert_message_keeps [OF assms(1) t']
  then have m: "?m \<in> set (t_messages t')" by simp
  moreover from k have ok: "db_ok t'" "same_queues t t'" by simp_all
  moreover have "row_ok ?m" using ok(1) m unfolding db_ok_def by blast
  ultimately have "er_queue r \<in> qr_id ` set (t_queues t)" "has_trid (er_trid r) \<or> bm_payload (er_message r) \<noteq> []"
    using message_queue_exists [of t' ?m] same_queue_sets(1) [of "t_queues t" "t_queues t'"]
    by (auto simp: same_queues_def row_ok_def live_def bound_def split: if_splits)
  moreover have "message_id fresh r \<notin> mr_id ` set (t_messages t)"
    using t' by (auto simp: insert_message_def split: if_splits)
  ultimately show False using assms(2) by (simp add: can_enqueue_def)
qed

text \<open>
  C13: Enqueue stores the message, ready at once outside of a transaction and new in the transaction otherwise,
  exactly when its id is unused, its queue exists, and it is not an empty message outside of a transaction;
  otherwise it fails with an error of the database and stores nothing.
\<close>

theorem enqueue_refines:
  assumes "db_ok t" "has_trid (er_trid r) \<longrightarrow> bound_gtrid (er_trid r) \<noteq> None"
  shows "if can_enqueue fresh r t
    then \<exists>t'. db_enqueue fresh now r t = (Inr (message_id fresh r), t') \<and>
      store_of t' = spec_enqueue (tx_gtrid (er_trid r)) (enqueued_entry fresh now r) (store_of t)
    else db_enqueue fresh now r t = (Inl Sql_query_failed, t)"
proof (cases "can_enqueue fresh r t")
  case True
  obtain t' where t': "insert_message (new_message fresh now r t) t = Some t'"
    using insert_message_succeeds [OF assms(1) True] by blast
  then have "t_messages t' = t_messages t @ [new_message fresh now r t]"
    using insert_message_keeps [OF assms(1)] by blast
  then have "store_of t' = spec_enqueue (tx_gtrid (er_trid r)) (enqueued_entry fresh now r) (store_of t)"
    using assms(2) by (auto simp: store_of_def spec_enqueue_def tx_gtrid_def is_ready_def of_gtrid_def fun_eq_iff)
  with t' True show ?thesis by (simp add: db_enqueue_def db_bind_def statement_def db_return_def)
next
  case False
  with insert_message_fails [OF assms(1) False] show ?thesis
    by (simp add: db_enqueue_def db_bind_def statement_def)
qed

end
