(* ===== verification/Queue_Walk.thy ===== *)
theory Queue_Walk
  imports Queue_Group Queue_Store
begin

text \<open>
  What the handlers of a queue group need from an invariant, as interfaces: the operations on the state
  they are made of keep it. \<open>group_requests\<close> is what trying the pending requests needs,
  \<open>group_steps\<close> gives it from the single steps, \<open>group_invariant\<close> is enough for every handler and
  the batch, \<open>group_cycle\<close> for the pump. \<open>A\<close> says which messages may be sent from a handler and
  \<open>E\<close> which events are handled; the first instance is that the tables of the database are consistent,
  before and after a restart.
\<close>

section \<open>The interfaces\<close>

locale group_requests =
  fixes I :: "group_state \<Rightarrow> bool"
  assumes dequeue_request: "maintains I (try_dequeue r)"
    and requests: "I s \<Longrightarrow> I (on_pending (pending_dequeue r) s)"
    and committed: "I s \<Longrightarrow> I (s\<lparr>gs_pending := snd (pending_commit x (gs_pending s))\<rparr>)"
begin

lemma try_request: "maintains I (try_request r)"
  unfolding try_request_def by (intro wf_intros dequeue_request) (auto intro: requests)

lemma pending_loop: "maintains I (pending_loop counts rs)"
proof (induction rs arbitrary: counts)
  case (Cons r rs)
  let ?n = "case counts (dr_queue r) of None \<Rightarrow> 0 | Some n \<Rightarrow> n"
  have "maintains I (after (try_request r) (\<lambda>done. pending_loop (if done then counts(dr_queue r \<mapsto> ?n - 1) else counts) rs))"
    using Cons by (intro wf_intros try_request) simp_all
  moreover have "maintains I (pending_loop counts rs)" using Cons by simp
  ultimately show ?case unfolding maintains_def by (simp add: Let_def)
qed (simp add: maintains_def)

lemma pending_replies: "maintains I (pending_replies x)"
  unfolding maintains_def
proof (intro allI impI)
  fix s assume s: "I s"
  obtain rs counts p where c: "pending_commit x (gs_pending s) = ((rs, counts), p)" by (metis prod_cases3 surj_pair)
  from pending_loop committed [OF s, of x] c show "I (snd (pending_replies x s))"
    by (simp add: pending_replies_def maintains_def)
qed

end

locale group_sends =
  fixes I :: "group_state \<Rightarrow> bool" and A :: "group_message \<Rightarrow> bool"
  assumes pushed: "A m \<Longrightarrow> maintains I (group_push q m)"
    and skipped: "I s \<Longrightarrow> I (s\<lparr>gs_push := dropWhile (\<lambda>p. p = P_full) (gs_push s)\<rparr>)"
    and clock: "I s \<Longrightarrow> I (s\<lparr>gs_clock := ts\<rparr>)"
    and answers: "A (Dequeue_reply c ms)" "A (Group_involved p x)" "A (Forget_reply c b)"
      "A (Queues_reply c p qs)" "A (Messages_reply c p rs)"
begin

lemma sent: "A m \<Longrightarrow> maintains I (group_send q m)"
  unfolding maintains_def group_send_def after_def return_def
  using pushed [of m q] skipped unfolding maintains_def by (auto split: prod.split sum.split) (metis snd_conv)+

lemma now: "maintains I group_now"
  unfolding maintains_def group_now_def using clock by (auto split: list.split)

lemma involved: "maintains I (involved x)"
  unfolding involved_def maintains_def using sent [OF answers(2)] by (simp add: maintains_def)

end

locale group_steps = group_sends I A
  for I :: "group_state \<Rightarrow> bool" and A :: "group_message \<Rightarrow> bool" +
  assumes waits: "I s \<Longrightarrow> I (on_pending (pending_dequeue r) s)"
    and taken_out: "I s \<Longrightarrow> I (s\<lparr>gs_pending := snd (pending_commit x (gs_pending s))\<rparr>)"
    and dequeues: "maintains I (on_db (db_dequeue now r))"
begin

lemma dequeue_request_kept: "maintains I (try_dequeue r)"
  unfolding try_dequeue_def
  by (intro wf_intros now dequeues involved sent answers) (auto intro: waits)

end

sublocale group_steps \<subseteq> group_requests I
  by unfold_locales (blast intro: dequeue_request_kept waits taken_out)+

locale group_invariant = group_sends I A + group_requests I
  for I :: "group_state \<Rightarrow> bool" and A :: "group_message \<Rightarrow> bool" +
  fixes E :: "group_event \<Rightarrow> bool"
  assumes uuids: "I s \<Longrightarrow> I (s\<lparr>gs_uuids := us\<rparr>)"
    and persisted: "maintains I (persist m targets)"
    and counted_enqueue: "I s \<Longrightarrow> I (on_pending (pending_enqueue x i) s)"
    and forgotten: "I s \<Longrightarrow> I (s\<lparr>gs_pending := snd (pending_forget f (gs_pending s))\<rparr>)"
    and rolled_back: "I s \<Longrightarrow> I (on_pending (pending_rollback x) s)"
    and erased: "I s \<Longrightarrow> I (on_pending (pending_erase pid) s)"
    and enqueues: "maintains I (on_db (db_enqueue fresh now e))"
    and commits: "maintains I (on_db (db_commit x))"
    and rollbacks: "maintains I (on_db (db_rollback x))"
    and enqueue_answer: "E (Ge_enqueue e) \<Longrightarrow> has_trid (er_trid e) \<Longrightarrow> A (Enqueue_reply (er_correlation e) i)"
begin

lemma uuid: "maintains I (group_uuid i)"
  unfolding maintains_def group_uuid_def using uuids by (auto split: list.split)

section \<open>The handlers\<close>

lemma handle_enqueue: "E (Ge_enqueue e) \<Longrightarrow> maintains I (handle_enqueue e)"
  unfolding handle_enqueue_def
  by (intro wf_intros uuid now enqueues involved sent persisted pending_replies enqueue_answer) (auto intro: counted_enqueue)

lemma handle_forget: "maintains I (handle_forget f)"
proof -
  have "maintains I (\<lambda>s. case pending_forget f (gs_pending s) of (found, p) \<Rightarrow>
        group_send (ph_queue (fr_process f)) (Forget_reply (fr_correlation f) found) (s\<lparr>gs_pending := p\<rparr>))"
    unfolding maintains_def
  proof (intro allI impI)
    fix s assume s: "I s"
    obtain found p where p: "pending_forget f (gs_pending s) = (found, p)" by fastforce
    with forgotten [OF s, of f] sent [OF answers(3)] show "I (snd (case pending_forget f (gs_pending s) of (found, p) \<Rightarrow>
        group_send (ph_queue (fr_process f)) (Forget_reply (fr_correlation f) found) (s\<lparr>gs_pending := p\<rparr>)))"
      by (simp add: maintains_def)
  qed
  then show ?thesis unfolding handle_forget_def by (intro wf_intros)
qed

lemma maintains_self: "(\<And>p. maintains I (f p)) \<Longrightarrow> maintains I (\<lambda>s. f (gs_self s) s)"
  by (simp add: maintains_def)

lemma outcome: "maintains I f \<Longrightarrow> maintains I (outcome f)"
  unfolding outcome_def by (intro wf_intros)

lemma handle_commit: "maintains I (handle_group_commit r)"
  unfolding handle_group_commit_def
  by (rule maintains_self) (intro wf_intros outcome commits pending_replies persisted)

lemma handle_rollback: "maintains I (handle_group_rollback r)"
  unfolding handle_group_rollback_def
  by (rule maintains_self) (intro wf_intros outcome rollbacks persisted rolled_back)

lemma handle_queues: "maintains I (handle_queues c p)"
  unfolding handle_queues_def maintains_def using sent [OF answers(4)] by (simp add: maintains_def)

lemma handle_messages: "maintains I (handle_messages c p i)"
  unfolding handle_messages_def maintains_def using sent [OF answers(5)] by (simp add: maintains_def)

lemma dispatch:
  assumes "E ev"
  shows "maintains I (group_dispatch ev)"
  using assms unfolding group_dispatch_def handle_dead_def handle_dequeue_def
  by (cases ev) (auto intro!: wf_intros handle_enqueue handle_forget handle_commit handle_rollback handle_queues
      handle_messages dequeue_request intro: erased)

lemma poll: "\<forall>ev\<in>set evs. E ev \<Longrightarrow> maintains I (group_poll evs)"
proof (induction evs)
  case (Cons ev evs)
  show ?case unfolding maintains_def
  proof (intro allI impI)
    fix s assume s: "I s"
    obtain r s' where d: "group_dispatch ev s = (r, s')" by fastforce
    have s': "I s'" by (rule maintainsD [OF dispatch s d]) (use Cons.prems in simp)
    with Cons d show "I (snd (group_poll (ev # evs) s))" by (cases r) (simp_all add: maintains_def)
  qed
qed (simp add: maintains_def)

text \<open>A batch, without the bounds of the database transaction.\<close>

lemma batch:
  assumes "\<forall>ev\<in>insert first (set polls). E ev" "I (on_connection exclusive_begin s)"
    and "group_batch_run first polls s = (r, s')"
  obtains s1 where "I s1" "s' = on_connection connection_commit s1"
proof -
  let ?f = "if gs_persistent s = [] then after (group_dispatch first) (\<lambda>_. group_poll polls) else group_poll polls"
  have "maintains I ?f" using assms(1) by (intro wf_intros dispatch poll) simp_all
  then have "I (snd (?f (on_connection exclusive_begin s)))" using assms(2) by (simp add: maintains_def)
  moreover have "s' = on_connection connection_commit (snd (?f (on_connection exclusive_begin s)))"
    using assms(3) unfolding group_batch_run_def by (auto split: prod.splits)
  ultimately show ?thesis by (rule that)
qed

end

text \<open>An invariant that the database transaction and the sending of what was persisted keep as well.\<close>

locale group_cycle = group_invariant I A E
  for I :: "group_state \<Rightarrow> bool" and A :: "group_message \<Rightarrow> bool" and E :: "group_event \<Rightarrow> bool" +
  assumes begun: "I s \<Longrightarrow> I (on_connection exclusive_begin s)"
    and written: "I s \<Longrightarrow> I (on_connection connection_commit s)"
    and any: "A m"
    and kept: "I s \<Longrightarrow> I (s\<lparr>gs_persistent := ms\<rparr>)"
begin

lemma send_targets: "I s \<Longrightarrow> send_targets m qs s = (rest, s') \<Longrightarrow> I s'"
proof (induction qs arbitrary: rest s)
  case (Cons q qs)
  obtain r s1 where p: "group_push q m s = (r, s1)" by fastforce
  have "I s1" by (rule maintainsD [OF pushed [OF any] Cons.prems(1) p])
  with Cons p show ?case by (cases r) (auto split: prod.splits bool.splits)
qed simp

lemma send_persistent: "I s \<Longrightarrow> send_persistent ms s = (ms', s') \<Longrightarrow> I s'"
proof (induction ms arbitrary: ms' s)
  case (Cons m ms)
  then show ?case using send_targets by (fastforce split: prod.splits)
qed simp

lemma flush: "I s \<Longrightarrow> I (group_flush s)"
  unfolding group_flush_def by (auto split: prod.split intro: kept send_persistent)

lemma batch_run: "\<forall>ev\<in>insert first (set polls). E ev \<Longrightarrow> maintains I (group_batch_run first polls)"
  unfolding maintains_def using batch begun written by (metis prod.collapse)

lemma round: "\<forall>ev\<in>insert first (set polls). E ev \<Longrightarrow> maintains I (group_round first polls)"
  unfolding group_round_def by (intro wf_intros batch_run flush)

lemma pump: "\<forall>(first, polls)\<in>set rounds. \<forall>ev\<in>insert first (set polls). E ev \<Longrightarrow> maintains I (group_pump rounds)"
  unfolding group_pump_def
proof (induction rounds)
  case (Cons a rounds)
  obtain first polls where a: "a = (first, polls)" by fastforce
  have "maintains I (group_round first polls)" using Cons.prems a by (intro round) auto
  moreover have "maintains I (for_each (\<lambda>(first, polls). group_round first polls) rounds)"
    using Cons.prems by (intro Cons.IH) simp
  ultimately have "maintains I (after (group_round first polls)
      (\<lambda>_. for_each (\<lambda>(first, polls). group_round first polls) rounds))"
    by (rule maintains_after)
  then show ?case by (simp add: maintains_def a)
qed (simp add: maintains_def)

end

section \<open>The tables of a queue group\<close>

text \<open>Consistent tables whose error queues exist, the group's own among them.\<close>

definition good :: "tables \<Rightarrow> bool" where
  "good t \<longleftrightarrow> db_ok t \<and> linked t \<and> error_queue \<in> qr_id ` set (t_queues t)"

definition database_good :: "database \<Rightarrow> bool" where
  "database_good d \<longleftrightarrow> good (d_tables d) \<and> good (d_durable d)"

lemma good_same_queues: "good t \<Longrightarrow> db_ok t' \<Longrightarrow> same_queues t t' \<Longrightarrow> good t'"
  unfolding good_def using same_queues_linked same_queue_sets(1) [of "t_queues t" "t_queues t'"]
  by (simp add: same_queues_def)

lemma in_db_good:
  assumes "\<And>t r t'. good t \<Longrightarrow> f t = (r, t') \<Longrightarrow> good t'" "database_good d" "in_db f d = (r, d')"
  shows "database_good d'"
  using assms by (cases "f (d_tables d)") (auto simp: in_db_def database_good_def)

text \<open>The requests that wait are blocking ones, and the persisted replies have someone to go to.\<close>

definition group_ok :: "group_state \<Rightarrow> bool" where
  "group_ok s \<longleftrightarrow> database_good (gs_db s) \<and> (\<forall>r\<in>set (pe_requests (gs_pending s)). dr_block r)"

lemma on_db_good:
  assumes "\<And>t r t'. good t \<Longrightarrow> f t = (r, t') \<Longrightarrow> good t'"
  shows "maintains group_ok (on_db f)"
  unfolding maintains_def
proof (intro allI impI)
  fix s assume s: "group_ok s"
  obtain r d where d: "in_db f (gs_db s) = (r, d)" by fastforce
  have "database_good d" by (rule in_db_good [OF assms _ d]) (use s in \<open>simp_all add: group_ok_def\<close>)
  with s d show "group_ok (snd (on_db f s))" by (cases r) (simp_all add: on_db_def group_ok_def)
qed

lemma keeps_good: "keeps same_queues f \<Longrightarrow> good t \<Longrightarrow> f t = (r, t') \<Longrightarrow> good t'"
  using keepsD [of same_queues f t r t'] good_same_queues [of t t'] unfolding good_def [of t] by blast

lemma group_ok_fields [simp]:
  "group_ok (s\<lparr>gs_push := os\<rparr>) = group_ok s" "group_ok (s\<lparr>gs_clock := ts\<rparr>) = group_ok s"
  "group_ok (s\<lparr>gs_uuids := us\<rparr>) = group_ok s" "group_ok (s\<lparr>gs_persistent := ms\<rparr>) = group_ok s"
  "group_ok (s\<lparr>gs_sent := xs\<rparr>) = group_ok s"
  by (simp_all add: group_ok_def)

lemma group_ok_pending:
  "group_ok s \<Longrightarrow> set (pe_requests p) \<subseteq> set (pe_requests (gs_pending s)) \<Longrightarrow> group_ok (s\<lparr>gs_pending := p\<rparr>)"
  by (auto simp: group_ok_def)

lemma pending_commit_requests:
  "set (pe_requests (snd (pending_commit x p))) \<subseteq> set (pe_requests p)"
  "set (fst (fst (pending_commit x p))) \<subseteq> set (pe_requests p)"
  by (auto simp: pending_commit_def split: option.split prod.split)

lemma pending_forget_requests: "set (pe_requests (snd (pending_forget f p))) \<subseteq> set (pe_requests p)"
  by (auto simp: pending_forget_def Let_def dest: in_erase_firstD)

lemmas group_ok_unfold = on_pending_def pending_dequeue_def pending_enqueue_def pending_rollback_def
  pending_erase_def group_ok_def on_connection_def exclusive_begin_def connection_commit_def database_good_def

lemmas pending_subsets = subsetD [OF pending_commit_requests(1)] subsetD [OF pending_commit_requests(2)]
  subsetD [OF pending_forget_requests]

interpretation table_steps: group_steps group_ok "\<lambda>m. True"
proof unfold_locales
  show "maintains group_ok (group_push q m)" for q m
    by (auto simp: maintains_def group_push_def split: list.split group_push.split)
  show "maintains group_ok (on_db (db_dequeue now r))" for now r
    by (rule on_db_good) (rule keeps_good [OF keeps_db_dequeue])
qed (auto simp: group_ok_unfold dest!: pending_subsets)

interpretation tables: group_cycle group_ok "\<lambda>m. True" "\<lambda>ev. True"
proof unfold_locales
  show "maintains group_ok (persist m targets)" for m targets
    by (simp add: maintains_def persist_def change_def)
  show "maintains group_ok (on_db (db_enqueue fresh now e))" for fresh now e
    by (rule on_db_good) (rule keeps_good [OF keeps_db_enqueue])
  show "maintains group_ok (on_db (db_commit x))" for x
    by (rule on_db_good) (rule keeps_good [OF keeps_db_commit])
  show "maintains group_ok (on_db (db_rollback x))" for x
    by (rule on_db_good) (rule keeps_good [OF keeps_db_rollback])
qed (auto simp: group_ok_unfold dest!: pending_subsets)

section \<open>The start of a queue group\<close>

lemma insert_queue_good:
  assumes "good t" "insert_queue name retries err type now t = (r, t')" "0 \<le> retries" "err \<in> qr_id ` set (t_queues t)"
  shows "good t'" "r = Inr i \<Longrightarrow> i \<in> qr_id ` set (t_queues t')"
proof -
  have "db_ok t'" using keepsD [OF keeps_insert_queue [OF assms(3)] _ assms(2)] assms(1) by (simp add: good_def)
  with assms show "good t'" by (auto simp: insert_queue_def good_def linked_def Let_def split: if_splits)
  show "r = Inr i \<Longrightarrow> i \<in> qr_id ` set (t_queues t')"
    using assms(2) by (auto simp: insert_queue_def Let_def split: if_splits)
qed

lemma db_create_good:
  assumes "good t" "db_create now q t = (r, t')"
  shows "good t'"
proof -
  obtain a t1 where 1: "insert_queue (qi_name q @ ''.error'') (int (qi_retries q)) error_queue cErrorQueue now t = (a, t1)"
    by fastforce
  have g1: "good t1" by (rule insert_queue_good(1) [OF assms(1) 1]) (use assms(1) in \<open>simp_all add: good_def\<close>)
  show ?thesis
  proof (cases a)
    case (Inl e)
    with assms(2) 1 g1 show ?thesis by (simp add: db_create_def db_bind_def)
  next
    case (Inr err)
    have err: "err \<in> qr_id ` set (t_queues t1)"
      by (rule insert_queue_good(2) [OF assms(1) 1]) (use assms(1) Inr in \<open>simp_all add: good_def\<close>)
    obtain b t2 where 2: "insert_queue (qi_name q) (int (qi_retries q)) err cQueue now t1 = (b, t2)" by fastforce
    have "good t2" by (rule insert_queue_good(1) [OF g1 2 _ err]) simp
    with assms(2) 1 2 Inr show ?thesis by (cases b) (simp_all add: db_create_def db_bind_def db_return_def)
  qed
qed

lemma create_missing_ok: "maintains group_ok (create_missing existing c)"
proof -
  have "maintains group_ok (on_db (db_create now q))" for now q by (rule on_db_good) (rule db_create_good)
  then show ?thesis unfolding create_missing_def
    by (cases c) (auto intro!: wf_intros table_steps.now)
qed

text \<open>A new database file, and a group that has not started.\<close>

definition not_started :: "group_state \<Rightarrow> bool" where
  "not_started s \<longleftrightarrow> gs_db s = \<lparr>d_tables = no_tables, d_durable = no_tables, d_begun = False\<rparr> \<and>
     gs_persistent s = [] \<and> pe_requests (gs_pending s) = [] \<and> pe_transactions (gs_pending s) = []"

lemma opened_good: "good (snd (db_open name now no_tables))" "fst (db_open name now no_tables) = Inr ()"
  using new_database_ok [of name now]
  by (simp_all add: good_def linked_def db_open_def statement_def no_tables_def fk_ok_def error_queue_def)

lemma group_start_ok:
  assumes "not_started s"
  shows "group_ok (snd (group_start name config s))"
proof -
  obtain now s1 where now: "group_now s = (Inr now, s1)" "gs_db s1 = gs_db s" "gs_pending s1 = gs_pending s"
    by (cases "gs_clock s") (simp_all add: group_now_def)
  obtain t where t: "db_open name now no_tables = (Inr (), t)" "good t"
    using opened_good [of name now] by (metis prod.collapse)
  define s2 where "s2 = s1\<lparr>gs_db := \<lparr>d_tables = t, d_durable = t, d_begun = False\<rparr>\<rparr>"
  have open': "on_db (db_open name now) s1 = (Inr (), s2)"
    using assms now t by (simp add: on_db_def in_db_def not_started_def s2_def)
  have s2: "group_ok s2"
    using assms now(3) t(2) by (simp add: group_ok_def s2_def database_good_def not_started_def)
  have broker: "maintains group_ok (\<lambda>s. group_send (gs_broker s) (m s) s)" for m
    using table_steps.sent unfolding maintains_def by simp
  let ?rest = "\<lambda>b p d. after (group_send b (Queue_connect_request p)) (\<lambda>_.
       after (group_send d (Dead_registration p)) (\<lambda>_.
       after (read_state (\<lambda>s. map qr_name (db_queues (group_tables s)))) (\<lambda>existing.
       after (for_each (create_missing existing) config) (\<lambda>_ s.
         group_send (gs_broker s) (Queue_information (gs_self s) (db_queues (group_tables s))) s))))"
  have "maintains group_ok (?rest b p d)" for b p d
    by (intro wf_intros table_steps.sent create_missing_ok broker) simp_all
  then have "group_ok (snd (?rest (gs_broker s2) (gs_self s2) (gs_domain s2) s2))" using s2 by (simp add: maintains_def)
  moreover have "group_start name config s = ?rest (gs_broker s2) (gs_self s2) (gs_domain s2) s2"
    unfolding group_start_def after_def [of group_now] now(1) using open'
    by (simp add: after_def [of "on_db (db_open name now)"] after_def [of "group_send d m" for d m] cong: sum.case_cong)
  ultimately show ?thesis by simp
qed


end
