(* ===== verification/Queue_Replies.thy ===== *)
theory Queue_Replies
  imports Queue_Walk
begin

text \<open>
  What a queue group answers and when: a reply that promises that something is stored waits for the write of
  the database, the backlog keeps its order, each request of the transaction manager is answered once, and no
  committed message is lost as long as its receivers are there.
\<close>

section \<open>Replies that promise wait for the write\<close>

definition promises :: "uuid set \<Rightarrow> group_message \<Rightarrow> bool" where
  "promises C m = (case m of Group_commit_reply _ _ _ _ \<Rightarrow> True | Group_rollback_reply _ _ _ _ \<Rightarrow> True
     | Enqueue_reply c _ \<Rightarrow> c \<in> C | _ \<Rightarrow> False)"

text \<open>A request in a transaction must not use a correlation of \<open>C\<close>.\<close>

definition plain :: "uuid set \<Rightarrow> group_event \<Rightarrow> bool" where
  "plain C ev = (case ev of Ge_enqueue e \<Rightarrow> has_trid (er_trid e) \<longrightarrow> er_correlation e \<notin> C | _ \<Rightarrow> True)"

definition waiting_block :: "group_state \<Rightarrow> bool" where
  "waiting_block s \<longleftrightarrow> (\<forall>r\<in>set (pe_requests (gs_pending s)). dr_block r)"

definition held_back :: "uuid set \<Rightarrow> group_state \<Rightarrow> group_state \<Rightarrow> bool" where
  "held_back C s0 s \<longleftrightarrow> waiting_block s \<and> d_begun (gs_db s) \<and>
     (\<exists>xs. gs_sent s = gs_sent s0 @ xs \<and> (\<forall>x\<in>set xs. \<not> promises C (snd x)))"

lemma held_back_push:
  assumes "\<not> promises C m"
  shows "maintains (held_back C s0) (group_push q m)"
  unfolding maintains_def
proof (intro allI impI)
  fix s assume "held_back C s0 s"
  then show "held_back C s0 (snd (group_push q m s))"
    using assms by (auto simp: held_back_def waiting_block_def group_push_def split: list.split group_push.split)
qed

lemma held_back_db: "maintains (held_back C s0) (on_db f)"
  by (auto simp: maintains_def held_back_def waiting_block_def on_db_def in_db_def split: prod.splits sum.split)

lemmas held_back_unfold = held_back_def waiting_block_def on_pending_def pending_dequeue_def pending_enqueue_def
  pending_rollback_def pending_erase_def

interpretation held_back_steps: group_steps "held_back C s0" "\<lambda>m. \<not> promises C m" for C s0
proof unfold_locales
  show "maintains (held_back C s0) (group_push q m)" if "\<not> promises C m" for q m
    by (rule held_back_push [OF that])
  show "maintains (held_back C s0) (on_db (db_dequeue now r))" for now r by (rule held_back_db)
qed (auto simp: held_back_unfold promises_def dest!: pending_subsets)

interpretation held_back: group_invariant "held_back C s0" "\<lambda>m. \<not> promises C m" "plain C" for C s0
proof unfold_locales
  show "maintains (held_back C s0) (persist m targets)" for m targets
    by (auto simp: maintains_def persist_def change_def held_back_unfold)
  show "maintains (held_back C s0) (on_db (db_enqueue fresh now e))" for fresh now e by (rule held_back_db)
  show "maintains (held_back C s0) (on_db (db_commit x))" for x by (rule held_back_db)
  show "maintains (held_back C s0) (on_db (db_rollback x))" for x by (rule held_back_db)
qed (auto simp: held_back_unfold promises_def plain_def dest!: pending_subsets)

section \<open>The backlog keeps its order\<close>

text \<open>What the next \<open>n\<close> pushes meet.\<close>

definition outs :: "nat \<Rightarrow> group_push list \<Rightarrow> group_push list" where
  "outs n os = take n (os @ replicate n P_sent)"

lemma outs_simps [simp]:
  "outs 0 os = []" "outs (Suc n) [] = P_sent # outs n []" "outs (Suc n) (p # os) = p # outs n os" "length (outs n os) = n"
  by (simp_all add: outs_def) (simp add: replicate_append_same [symmetric])

lemma outs_add: "outs (n + k) os = outs n os @ outs k (drop n os)"
proof (induction n arbitrary: os)
  case (Suc n)
  then show ?case by (cases os) simp_all
qed simp

definition pairs :: "persistent_message list \<Rightarrow> (int \<times> group_message) list" where
  "pairs ms = concat (map (\<lambda>m. map (\<lambda>q. (q, pm_message m)) (pm_targets m)) ms)"

definition with_outcome :: "group_push \<Rightarrow> 'a list \<Rightarrow> group_push list \<Rightarrow> 'a list" where
  "with_outcome p xs os = map fst (filter (\<lambda>x. snd x = p) (zip xs (outs (length xs) os)))"

lemma with_outcome_simps [simp]:
  "with_outcome p [] os = []"
  "with_outcome p (x # xs) [] = (if p = P_sent then x # with_outcome p xs [] else with_outcome p xs [])"
  "with_outcome p (x # xs) (q # os) = (if p = q then x # with_outcome p xs os else with_outcome p xs os)"
  by (auto simp: with_outcome_def)

lemma with_outcome_append: "with_outcome p (xs @ ys) os = with_outcome p xs os @ with_outcome p ys (drop (length xs) os)"
  by (simp add: with_outcome_def outs_add)

lemma with_outcome_map: "with_outcome p (map f xs) os = map f (with_outcome p xs os)"
proof (induction xs arbitrary: os)
  case (Cons x xs)
  then show ?case by (cases os) auto
qed simp

lemma send_targets_outcome:
  "send_targets m qs s = (with_outcome P_full qs (gs_push s),
     s\<lparr>gs_push := drop (length qs) (gs_push s),
       gs_sent := gs_sent s @ map (\<lambda>q. (q, m)) (with_outcome P_sent qs (gs_push s))\<rparr>)"
proof (induction qs arbitrary: s)
  case (Cons q qs)
  show ?case
  proof (cases "gs_push s")
    case Nil
    then show ?thesis by (simp add: group_push_def Cons)
  next
    case (Cons p ps)
    with Cons.IH show ?thesis by (cases p) (simp_all add: group_push_def)
  qed
qed simp

lemma send_persistent_outcome:
  "\<exists>ms'. send_persistent ms s = (ms', s\<lparr>gs_push := drop (length (pairs ms)) (gs_push s),
       gs_sent := gs_sent s @ with_outcome P_sent (pairs ms) (gs_push s)\<rparr>) \<and>
     pairs ms' = with_outcome P_full (pairs ms) (gs_push s) \<and> (\<forall>m\<in>set ms'. pm_targets m \<noteq> [])"
proof (induction ms arbitrary: s)
  case (Cons m ms)
  let ?n = "length (pm_targets m)" and ?qs = "map (\<lambda>q. (q, pm_message m)) (pm_targets m)"
  let ?s1 = "s\<lparr>gs_push := drop ?n (gs_push s), gs_sent := gs_sent s @ with_outcome P_sent ?qs (gs_push s)\<rparr>"
  obtain ms' where ms': "send_persistent ms ?s1 = (ms', ?s1\<lparr>gs_push := drop (length (pairs ms)) (gs_push ?s1),
       gs_sent := gs_sent ?s1 @ with_outcome P_sent (pairs ms) (gs_push ?s1)\<rparr>)"
     "pairs ms' = with_outcome P_full (pairs ms) (gs_push ?s1)" "\<forall>m\<in>set ms'. pm_targets m \<noteq> []"
    using Cons.IH [of ?s1] by blast
  have "pairs (m # ms) = ?qs @ pairs ms" by (simp add: pairs_def)
  with ms' show ?case
    by (simp add: send_targets_outcome with_outcome_append with_outcome_map pairs_def add.commute)
qed (simp add: pairs_def)

text \<open>
  Sending the backlog tries every reply once for each receiver, in the order they were persisted: those
  that are sent leave in this order, those whose queue is full stay in this order, those whose queue is
  gone are dropped, and a reply without receivers is not kept.
\<close>

lemma backlog_keeps_its_order:
  "gs_sent (group_flush s) = gs_sent s @ with_outcome P_sent (pairs (gs_persistent s)) (gs_push s) \<and>
   pairs (gs_persistent (group_flush s)) = with_outcome P_full (pairs (gs_persistent s)) (gs_push s) \<and>
   mset (pairs (gs_persistent s)) = mset (with_outcome P_sent (pairs (gs_persistent s)) (gs_push s)) +
     mset (with_outcome P_full (pairs (gs_persistent s)) (gs_push s)) +
     mset (with_outcome P_gone (pairs (gs_persistent s)) (gs_push s)) \<and>
   (\<forall>m\<in>set (gs_persistent (group_flush s)). pm_targets m \<noteq> [])"
proof -
  have "mset xs = mset (with_outcome P_sent xs os) + mset (with_outcome P_full xs os) + mset (with_outcome P_gone xs os)"
    for xs :: "(int \<times> group_message) list" and os
  proof (induction xs arbitrary: os)
    case (Cons x xs)
    show ?case
    proof (cases os)
      case Nil
      with Cons [of "[]"] show ?thesis by simp
    next
      case (Cons p ps)
      with Cons.IH [of ps] show ?thesis by (cases p) simp_all
    qed
  qed simp
  with send_persistent_outcome [of "gs_persistent s" s] show ?thesis by (auto simp: group_flush_def)
qed

text \<open>
  C15: A reply that promises that something is stored - to a commit, to a rollback, to an enqueue outside of a
  transaction - is never sent while the database transaction is open. When a batch ends, also by an exception,
  what it sent are other messages, and the file holds everything the batch did; only then the replies leave,
  and their sending changes nothing in the database.
\<close>

theorem promises_wait_for_the_write:
  assumes "\<forall>r\<in>set (pe_requests (gs_pending s)). dr_block r" "\<forall>ev\<in>insert first (set polls). plain C ev"
    and "group_batch_run first polls s = (r, s')"
  shows "(\<exists>xs. gs_sent s' = gs_sent s @ xs \<and> (\<forall>x\<in>set xs. \<not> promises C (snd x))) \<and>
    d_durable (gs_db s') = d_tables (gs_db s') \<and> gs_db (group_flush s') = gs_db s'"
proof -
  have "held_back C s (on_connection exclusive_begin s)"
    using assms(1) by (simp add: held_back_unfold on_connection_def exclusive_begin_def)
  from held_back.batch [OF assms(2) this assms(3)] obtain s1
    where s1: "held_back C s s1" "s' = on_connection connection_commit s1" .
  then have "(\<exists>xs. gs_sent s' = gs_sent s @ xs \<and> (\<forall>x\<in>set xs. \<not> promises C (snd x))) \<and> d_durable (gs_db s') = d_tables (gs_db s')"
    by (simp add: held_back_def on_connection_def connection_commit_def)
  moreover have "gs_db (group_flush s') = gs_db s'" using send_persistent_outcome [of "gs_persistent s'" s'] by (auto simp: group_flush_def)
  ultimately show ?thesis by blast
qed

section \<open>The transaction manager is answered once\<close>

lemma raises_push: "raises {G_unavailable} (group_push q m)"
  by (auto simp: raises_def group_push_def split: list.splits group_push.splits)

lemma raises_send: "raises {G_unavailable} (group_send q m)"
proof -
  have "raises {G_unavailable} (after (group_push q m) (\<lambda>_. return ()))"
    by (intro raises_intros raises_push)
  then show ?thesis unfolding raises_def group_send_def by blast
qed

lemma raises_weaken: "raises X f \<Longrightarrow> X \<subseteq> Y \<Longrightarrow> raises Y f"
  unfolding raises_def by blast

lemma raises_db: "raises {G_sql} (on_db f)"
  by (auto simp: raises_def on_db_def split: prod.splits sum.splits)

lemma raises_now: "raises X group_now"
  by (auto simp: raises_def group_now_def split: list.splits)

lemma raises_involved: "raises {G_unavailable} (involved x)"
  using raises_send by (simp add: raises_def involved_def)

lemma raises_dequeue_request: "raises {G_unavailable} (try_dequeue r)"
  unfolding try_dequeue_def
proof (rule raises_catch [where X = "{G_unavailable, G_sql}"])
  show "raises {G_unavailable, G_sql} (after group_now (\<lambda>now. after (on_db (db_dequeue now r)) (\<lambda>found.
        if dr_block r \<and> found = None then
          after (change (on_pending (pending_dequeue r))) (\<lambda>_. return False)
        else
          after (if found \<noteq> None \<and> has_trid (dr_trid r) then involved (dr_trid r) else return ()) (\<lambda>_.
          after (group_send (ph_queue (dr_process r))
            (Dequeue_reply (dr_correlation r) (case found of None \<Rightarrow> [] | Some m \<Rightarrow> [m]))) (\<lambda>_. return True)))))"
    by (intro raises_intros raises_now raises_weaken [OF raises_db] raises_weaken [OF raises_send]
        raises_weaken [OF raises_involved]) auto
qed (auto intro: raises_return raises_throw)

lemma raises_try_request: "raises {} (try_request r)"
  unfolding try_request_def
  by (rule raises_catch [where X = "{G_unavailable}"])
    (auto intro!: raises_intros raises_dequeue_request)

lemma raises_pending_loop: "raises {} (pending_loop counts rs)"
proof (induction rs arbitrary: counts)
  case (Cons r rs)
  let ?n = "case counts (dr_queue r) of None \<Rightarrow> 0 | Some n \<Rightarrow> n"
  have "raises {} (after (try_request r) (\<lambda>done. pending_loop (if done then counts(dr_queue r \<mapsto> ?n - 1) else counts) rs))"
    by (intro raises_intros raises_try_request Cons)
  with Cons [of counts] show ?case by (simp add: raises_def Let_def)
qed (simp add: raises_def)

lemma raises_pending_replies: "raises {} (pending_replies x)"
  using raises_pending_loop unfolding raises_def pending_replies_def by (auto split: prod.splits)

definition same_backlog :: "group_state \<Rightarrow> group_state \<Rightarrow> bool" where
  "same_backlog s0 s \<longleftrightarrow> gs_persistent s = gs_persistent s0 \<and> gs_self s = gs_self s0"

interpretation same_backlog: group_steps "same_backlog s0" "\<lambda>m. True" for s0
proof unfold_locales
  show "maintains (same_backlog s0) (group_push q m)" for q m
    by (auto simp: maintains_def group_push_def same_backlog_def split: list.split group_push.split)
  show "maintains (same_backlog s0) (on_db (db_dequeue now r))" for now r
    by (auto simp: maintains_def on_db_def same_backlog_def split: prod.split sum.split)
qed (auto simp: same_backlog_def on_pending_def)

lemma pending_replies_backlog:
  obtains s' where "pending_replies x s = (Inr (), s')" "gs_persistent s' = gs_persistent s" "gs_self s' = gs_self s"
proof -
  obtain s' where s': "pending_replies x s = (Inr (), s')" using raises_none [OF raises_pending_replies] by (metis (full_types) old.unit.exhaust)
  have "same_backlog s s'" by (rule maintainsD [OF same_backlog.pending_replies _ s']) (simp add: same_backlog_def)
  with s' that show ?thesis by (simp add: same_backlog_def)
qed

lemma on_db_outcome:
  "on_db f s = (case f (group_tables s) of
     (Inl e, t) \<Rightarrow> (Inl G_sql, s\<lparr>gs_db := snd (in_db f (gs_db s))\<rparr>)
   | (Inr x, t) \<Rightarrow> (Inr x, s\<lparr>gs_db := snd (in_db f (gs_db s))\<rparr>))"
  by (auto simp: on_db_def in_db_def group_tables_def split: prod.split sum.split)

text \<open>
  C17: Each commit request of the transaction manager gets exactly one reply, to the process that asked and
  with its correlation, persisted behind the replies that wait already. It says that the commit is done
  exactly when the database has done it, whatever the requests that wait for messages meet.
\<close>

theorem commit_is_answered_once:
  "\<exists>s'. handle_group_commit r s = (Inr (), s') \<and>
    gs_persistent s' = gs_persistent s @ [\<lparr>pm_targets = [ph_queue (rr_process r)],
      pm_message = Group_commit_reply (rr_correlation r) (gs_self s) (rr_trid r)
        (if fst (db_commit (rr_trid r) (group_tables s)) = Inr () then XA_OK else XAER_RMFAIL)\<rparr>]"
proof (cases "db_commit (rr_trid r) (group_tables s)")
  case (Pair a t)
  let ?s1 = "s\<lparr>gs_db := snd (in_db (db_commit (rr_trid r)) (gs_db s))\<rparr>"
  obtain s2 where s2: "pending_replies (rr_trid r) ?s1 = (Inr (), s2)" "gs_persistent s2 = gs_persistent ?s1"
    by (rule pending_replies_backlog)
  show ?thesis
    by (cases a) (simp_all add: handle_group_commit_def outcome_def after_def catch_def on_db_outcome Pair s2
        return_def persist_def change_def)
qed

text \<open>The same of a rollback request.\<close>

theorem rollback_is_answered_once:
  "\<exists>s'. handle_group_rollback r s = (Inr (), s') \<and>
    gs_persistent s' = gs_persistent s @ [\<lparr>pm_targets = [ph_queue (rr_process r)],
      pm_message = Group_rollback_reply (rr_correlation r) (gs_self s) (rr_trid r)
        (if fst (db_rollback (rr_trid r) (group_tables s)) = Inr () then XA_OK else XAER_RMFAIL)\<rparr>]"
proof (cases "db_rollback (rr_trid r) (group_tables s)")
  case (Pair a t)
  then show ?thesis
    by (cases a) (simp_all add: handle_group_rollback_def outcome_def after_def catch_def on_db_outcome
        return_def persist_def change_def on_pending_def)
qed

end
