(* ===== verification/Queue_Kept.thy ===== *)
theory Queue_Kept
  imports Queue_Replies
begin

text \<open>
  No committed message is lost: as long as the receivers of the group's messages are there, a message that
  is committed in the database stays there until it has been sent to someone who asked for it.
\<close>

section \<open>The messages of the database\<close>

definition live_ids :: "tables \<Rightarrow> uuid set" where
  "live_ids t = mr_id ` {m \<in> set (t_messages t). live m}"

definition taken_ids :: "tables \<Rightarrow> uuid set" where
  "taken_ids t = mr_id ` {m \<in> set (t_messages t). mr_state m = removed}"

text \<open>No live message is lost but those of \<open>X\<close>, and none is taken but those of \<open>X\<close>.\<close>

definition loses :: "uuid set \<Rightarrow> tables \<Rightarrow> tables \<Rightarrow> bool" where
  "loses X t t' \<longleftrightarrow> live_ids t \<subseteq> live_ids t' \<union> X \<and> taken_ids t' \<subseteq> taken_ids t \<union> X"

lemma loses_refl [simp]: "loses X t t"
  by (simp add: loses_def)

lemma loses_trans: "loses X t t' \<Longrightarrow> loses Y t' t'' \<Longrightarrow> loses (X \<union> Y) t t''"
  unfolding loses_def by blast

lemma loses_mono: "loses X t t' \<Longrightarrow> X \<subseteq> Y \<Longrightarrow> loses Y t t'"
  unfolding loses_def by blast

text \<open>Rows are changed in a way that keeps live messages live and takes none, or deleted.\<close>

lemma loses_map:
  assumes "t_messages t' = map f (t_messages t)"
    and "\<And>m. m \<in> set (t_messages t) \<Longrightarrow> mr_id (f m) = mr_id m"
    and "\<And>m. m \<in> set (t_messages t) \<Longrightarrow> live m \<Longrightarrow> live (f m)"
    and "\<And>m. m \<in> set (t_messages t) \<Longrightarrow> mr_state (f m) = removed \<Longrightarrow> mr_state m = removed \<or> mr_id m \<in> X"
  shows "loses X t t'"
  using assms unfolding loses_def live_ids_def taken_ids_def by (auto simp: image_iff) metis+

lemma loses_filter:
  assumes "t_messages t' = filter P (t_messages t)"
    and "\<And>m. m \<in> set (t_messages t) \<Longrightarrow> \<not> P m \<Longrightarrow> live m \<Longrightarrow> mr_id m \<in> X"
  shows "loses X t t'"
  using assms unfolding loses_def live_ids_def taken_ids_def by (auto simp: image_iff)

lemma db_enqueue_loses:
  assumes "db_ok t" "db_enqueue fresh now r t = (res, t')"
  shows "loses {} t t'"
proof (cases "insert_message (new_message fresh now r t) t")
  case None
  with assms(2) show ?thesis by (simp add: db_enqueue_def db_bind_def statement_def)
next
  case (Some t1)
  with assms(2) have "t' = t1" by (simp add: db_enqueue_def db_bind_def statement_def db_return_def)
  with insert_message_keeps [OF assms(1) Some] show ?thesis
    by (auto simp: loses_def live_ids_def taken_ids_def split: if_splits)
qed

lemma db_dequeue_loses:
  assumes "db_ok t" "db_dequeue now r t = (res, t')"
  shows "loses (case res of Inr (Some d) \<Rightarrow> {dm_id d} | _ \<Rightarrow> {}) t t'"
proof (cases "first_message now r t")
  case None
  with assms(2) show ?thesis by (simp add: db_dequeue_def)
next
  case (Some m)
  note m = first_message_in [OF Some]
  let ?f = "if has_trid (dr_trid r) then mark_removed (bound_gtrid (dr_trid r)) (mr_rowid m) else delete_row (mr_rowid m)"
  show ?thesis
  proof (cases "?f t")
    case None
    with assms(2) Some show ?thesis by (simp add: db_dequeue_def db_bind_def statement_def split: if_splits)
  next
    case (Some t1)
    with assms(2) \<open>first_message now r t = Some m\<close> have r: "res = Inr (Some (reply_message m))" "t' = t1"
      by (simp_all add: db_dequeue_def db_bind_def statement_def db_return_def split: if_splits)
    have "loses {mr_id m} t t1"
    proof (cases "has_trid (dr_trid r)")
      case True
      with Some have "mark_removed (bound_gtrid (dr_trid r)) (mr_rowid m) t = Some t1" by simp
      note mark = mark_first_ok [OF assms(1) \<open>first_message now r t = Some m\<close> this]
      show ?thesis
        by (rule loses_map [OF conjunct2 [OF conjunct2 [OF mark]]])
          (use same_row [OF assms(1) _ m(1)] in \<open>auto simp: live_def split: if_splits\<close>)
    next
      case False
      with Some have "delete_row (mr_rowid m) t = Some t1" by simp
      from delete_row_ok [OF assms(1) this] same_row [OF assms(1) _ m(1)] show ?thesis
        by (intro loses_filter [where P = "\<lambda>m'. mr_rowid m' \<noteq> mr_rowid m"]) auto
    qed
    with r show ?thesis by (simp add: reply_message_def)
  qed
qed

text \<open>A commit may delete what was taken before it, a rollback deletes nothing that is live.\<close>

definition loses_taken :: "tables \<Rightarrow> tables \<Rightarrow> bool" where
  "loses_taken t t' \<longleftrightarrow> loses (taken_ids t) t t'"

lemma loses_order: "reflp (loses {})" "transp (loses {})" "reflp loses_taken" "transp loses_taken"
  by (auto simp: reflp_def loses_taken_def loses_def intro!: transpI) blast+

lemma rows_lose:
  assumes "db_ok t' \<and> same_queues t t' \<and> t_messages t' = map f (t_messages t)"
    and "\<And>m. m \<in> set (t_messages t) \<Longrightarrow> mr_id (f m) = mr_id m"
    and "\<And>m. m \<in> set (t_messages t) \<Longrightarrow> live m \<Longrightarrow> live (f m)"
    and "\<And>m. m \<in> set (t_messages t) \<Longrightarrow> mr_state (f m) = removed \<Longrightarrow> mr_state m = removed"
  shows "db_ok t' \<and> loses X t t'"
  using assms loses_map [of t' f t X] by simp

lemma deletes_lose:
  assumes "db_ok t' \<and> same_queues t t' \<and> t_messages t' = filter P (t_messages t)"
    and "\<And>m. m \<in> set (t_messages t) \<Longrightarrow> \<not> P m \<Longrightarrow> live m \<Longrightarrow> mr_id m \<in> X"
  shows "db_ok t' \<and> loses X t t'"
  using assms loses_filter [of t' P t X] by simp

lemma commit1_loses: "db_ok t \<Longrightarrow> commit1 g t = Some t' \<Longrightarrow> db_ok t' \<and> loses_taken t t'"
  unfolding loses_taken_def by (erule (1) rows_lose [OF commit1_ok]) (auto simp: of_gtrid_def live_def split: if_splits)

lemma commit2_loses: "db_ok t \<Longrightarrow> commit2 g t = Some t' \<Longrightarrow> db_ok t' \<and> loses_taken t t'"
  unfolding loses_taken_def by (erule (1) deletes_lose [OF commit2_ok]) (auto simp: of_gtrid_def taken_ids_def)

lemma rollback1_loses: "db_ok t \<Longrightarrow> rollback1 g t = Some t' \<Longrightarrow> db_ok t' \<and> loses {} t t'"
  by (erule (1) deletes_lose [OF rollback1_ok]) (auto simp: of_gtrid_def live_def)

lemma rollback2_loses: "db_ok t \<Longrightarrow> rollback2 g t = Some t' \<Longrightarrow> db_ok t' \<and> loses {} t t'"
  by (erule (1) rows_lose [OF rollback2_ok]) (auto simp: live_def split: if_splits)

lemma rollback3_loses: "db_ok t \<Longrightarrow> rollback3 t = Some t' \<Longrightarrow> db_ok t' \<and> loses {} t t'"
  by (erule (1) rows_lose [OF rollback3_ok]) (auto simp: live_def split: if_splits)

lemma db_commit_loses: "keeps loses_taken (db_commit x)"
  unfolding db_commit_def
  by (intro keeps_bind keeps_statement loses_order) (erule (1) commit1_loses commit2_loses)+

lemma db_rollback_loses: "keeps (loses {}) (db_rollback x)"
  unfolding db_rollback_def
  by (intro keeps_bind keeps_statement loses_order) (erule (1) rollback1_loses rollback2_loses rollback3_loses)+

section \<open>The group keeps them\<close>

text \<open>The messages that have been sent to someone.\<close>

definition answered :: "group_state \<Rightarrow> uuid set" where
  "answered s = (\<Union>(q, m)\<in>set (gs_sent s). case m of Dequeue_reply c ms \<Rightarrow> dm_id ` set ms | _ \<Rightarrow> {})"

lemma answered_fields [simp]:
  "answered (s\<lparr>gs_db := d\<rparr>) = answered s" "answered (s\<lparr>gs_push := os\<rparr>) = answered s"
  "answered (s\<lparr>gs_clock := ts\<rparr>) = answered s" "answered (s\<lparr>gs_uuids := us\<rparr>) = answered s"
  "answered (s\<lparr>gs_pending := p\<rparr>) = answered s" "answered (s\<lparr>gs_persistent := ms\<rparr>) = answered s"
  by (simp_all add: answered_def)

text \<open>\<open>X\<close> are messages that have left the database and are about to be sent.\<close>

definition owed :: "uuid set \<Rightarrow> group_state \<Rightarrow> group_state \<Rightarrow> bool" where
  "owed X s0 s \<longleftrightarrow> db_ok (group_tables s) \<and> P_gone \<notin> set (gs_push s) \<and>
     taken_ids (group_tables s) \<subseteq> answered s \<union> X \<and>
     live_ids (group_tables s0) \<subseteq> live_ids (group_tables s) \<union> answered s \<union> X"

abbreviation kept :: "group_state \<Rightarrow> group_state \<Rightarrow> bool" where
  "kept \<equiv> owed {}"

lemma tables_fields [simp]:
  "group_tables (s\<lparr>gs_push := os\<rparr>) = group_tables s" "group_tables (s\<lparr>gs_sent := xs\<rparr>) = group_tables s"
  "group_tables (s\<lparr>gs_clock := ts\<rparr>) = group_tables s" "group_tables (s\<lparr>gs_uuids := us\<rparr>) = group_tables s"
  "group_tables (s\<lparr>gs_pending := p\<rparr>) = group_tables s" "group_tables (s\<lparr>gs_persistent := ms\<rparr>) = group_tables s"
  by (simp_all add: group_tables_def)

lemma owed_fields [simp]:
  "owed X s0 (s\<lparr>gs_clock := ts\<rparr>) = owed X s0 s" "owed X s0 (s\<lparr>gs_uuids := us\<rparr>) = owed X s0 s"
  "owed X s0 (s\<lparr>gs_pending := p\<rparr>) = owed X s0 s" "owed X s0 (s\<lparr>gs_persistent := ms\<rparr>) = owed X s0 s"
  by (simp_all add: owed_def)

text \<open>A send to someone who is there does not fail, and pays what is owed.\<close>

definition paid :: "group_message \<Rightarrow> uuid set" where
  "paid m = (case m of Dequeue_reply c ms \<Rightarrow> dm_id ` set ms | _ \<Rightarrow> {})"

lemma answered_sent: "answered (s\<lparr>gs_sent := gs_sent s @ [(q, m)]\<rparr>) = answered s \<union> paid m"
  by (auto simp: answered_def paid_def)

lemma owed_sent:
  assumes "owed X s0 s"
  shows "owed (X - paid m) s0 (s\<lparr>gs_sent := gs_sent s @ [(q, m)]\<rparr>)"
  using assms unfolding owed_def by (simp add: answered_sent) blast

lemma owed_push: "owed X s0 s \<Longrightarrow> set os \<subseteq> set (gs_push s) \<Longrightarrow> owed X s0 (s\<lparr>gs_push := os\<rparr>)"
  unfolding owed_def by auto

lemma push_owed: "triple (owed X s0) (group_push q m) (\<lambda>b. if b then owed (X - paid m) s0 else owed X s0) (\<lambda>_ _. False)"
  unfolding triple_def
proof (intro allI impI)
  fix s assume s: "owed X s0 s"
  then have gone: "P_gone \<notin> set (gs_push s)" by (simp add: owed_def)
  show "case group_push q m s of (Inl e, s') \<Rightarrow> False | (Inr b, s') \<Rightarrow> (if b then owed (X - paid m) s0 else owed X s0) s'"
  proof (cases "gs_push s")
    case Nil
    with owed_sent [OF s, of m q] show ?thesis by (simp add: group_push_def)
  next
    case (Cons p os)
    then have os: "owed X s0 (s\<lparr>gs_push := os\<rparr>)" by (intro owed_push [OF s]) auto
    from gone Cons have "p \<noteq> P_gone" by auto
    with Cons os owed_sent [OF os, of m q] show ?thesis by (cases p) (simp_all add: group_push_def)
  qed
qed

lemma skip_full: "owed X s0 s \<Longrightarrow> owed X s0 (s\<lparr>gs_push := dropWhile (\<lambda>p. p = P_full) (gs_push s)\<rparr>)"
  by (rule owed_push) (auto dest: set_dropWhileD)

lemma push_not_full: "gs_push s = [] \<or> hd (gs_push s) \<noteq> P_full \<Longrightarrow> fst (group_push q m s) \<noteq> Inr False"
  by (cases "gs_push s") (auto simp: group_push_def split: group_push.split)

lemma send_owed: "triple (owed X s0) (group_send q m) (\<lambda>_. owed (X - paid m) s0) (\<lambda>_ _. False)"
  unfolding triple_def
proof (intro allI impI)
  fix s assume s: "owed X s0 s"
  let ?s = "s\<lparr>gs_push := dropWhile (\<lambda>p. p = P_full) (gs_push s)\<rparr>"
  obtain r s' where p: "group_push q m ?s = (r, s')" by fastforce
  have "gs_push ?s = [] \<or> hd (gs_push ?s) \<noteq> P_full"
    using hd_dropWhile [of "\<lambda>p. p = P_full" "gs_push s"] by auto
  then have "r \<noteq> Inr False" using push_not_full [of ?s q m] p by simp
  moreover have "case (r, s') of (Inl e, s') \<Rightarrow> False | (Inr b, s') \<Rightarrow> (if b then owed (X - paid m) s0 else owed X s0) s'"
    using push_owed [of X s0 q m] skip_full [OF s] p unfolding triple_def by metis
  ultimately obtain "r = Inr True" "owed (X - paid m) s0 s'" by (cases r) (auto split: if_splits)
  with p show "case group_send q m s of (Inl e, s') \<Rightarrow> False | (Inr u, s') \<Rightarrow> owed (X - paid m) s0 s'"
    by (simp add: group_send_def after_def return_def)
qed

lemma send_owed_other:
  assumes "paid m = {}"
  shows "triple (owed X s0) (group_send q m) (\<lambda>_. owed X s0) R"
  using triple_weaken [OF send_owed [of X s0 q m], of "\<lambda>_. owed X s0" R] assms by simp

lemma involved_owed: "triple (owed X s0) (involved x) (\<lambda>_. owed X s0) R"
  using send_owed_other [of "Group_involved p x" X s0 q R for p q] unfolding triple_def involved_def by (simp add: paid_def)

text \<open>The operations of the database.\<close>

lemma tables_on_db: "group_tables (snd (on_db f s)) = snd (f (group_tables s))"
  by (auto simp: on_db_def in_db_def group_tables_def split: prod.split sum.split)

lemma on_db_same: "answered (snd (on_db f s)) = answered s" "gs_push (snd (on_db f s)) = gs_push s"
  by (auto simp: on_db_def split: prod.split sum.split)

lemma owed_loses:
  assumes "kept s0 s" "loses Y (group_tables s) (group_tables s')" "db_ok (group_tables s')"
    "answered s' = answered s" "gs_push s' = gs_push s" "Y \<subseteq> answered s \<union> X"
  shows "owed X s0 s'"
  using assms unfolding owed_def loses_def by (simp, blast)

lemma kept_db:
  assumes "\<And>t r t'. db_ok t \<Longrightarrow> f t = (r, t') \<Longrightarrow> db_ok t' \<and> loses (taken_ids t) t t'"
  shows "maintains (kept s0) (on_db f)"
  unfolding maintains_def
proof (intro allI impI)
  fix s assume s: "kept s0 s"
  obtain r t' where t': "f (group_tables s) = (r, t')" by fastforce
  have ok: "db_ok (group_tables s)" "taken_ids (group_tables s) \<subseteq> answered s" using s by (simp_all add: owed_def)
  from assms [OF ok(1) t'] ok(2) show "kept s0 (snd (on_db f s))"
    by (intro owed_loses [OF s, of "taken_ids (group_tables s)"]) (simp_all add: tables_on_db t' on_db_same)
qed

lemma dequeue_owed:
  "triple (kept s0) (on_db (db_dequeue now r))
     (\<lambda>found. case found of None \<Rightarrow> kept s0 | Some m \<Rightarrow> owed {dm_id m} s0) (\<lambda>_. kept s0)"
  unfolding triple_def
proof (intro allI impI)
  fix s assume s: "kept s0 s"
  obtain res t' where d: "db_dequeue now r (group_tables s) = (res, t')" by fastforce
  have ok: "db_ok (group_tables s)" using s by (simp add: owed_def)
  let ?Y = "case res of Inr (Some d) \<Rightarrow> {dm_id d} | _ \<Rightarrow> {}"
  have "owed ?Y s0 (snd (on_db (db_dequeue now r) s))"
    by (rule owed_loses [OF s, of ?Y])
      (use db_dequeue_loses [OF ok d] db_dequeue_ok [OF ok d] in \<open>simp_all add: tables_on_db d on_db_same\<close>)
  then show "case on_db (db_dequeue now r) s of (Inl e, s') \<Rightarrow> kept s0 s'
      | (Inr found, s') \<Rightarrow> (case found of None \<Rightarrow> kept s0 | Some m \<Rightarrow> owed {dm_id m} s0) s'"
    by (auto simp: on_db_outcome d split: sum.splits option.splits)
qed

text \<open>A request that finds a message sends it.\<close>

lemma now_owed: "triple (owed X s0) group_now (\<lambda>_. owed X s0) R"
  by (simp add: triple_def group_now_def split: list.split)

lemma kept_dequeue_request: "maintains (kept s0) (try_dequeue r)"
proof -
  have found: "triple (owed {dm_id m} s0) (after (if b then involved x else return ()) (\<lambda>_.
      after (group_send q (Dequeue_reply c [m])) (\<lambda>_. return True))) (\<lambda>_. kept s0) (\<lambda>_. kept s0)" for m b q c x
  proof (rule triple_after)
    show "triple (owed {dm_id m} s0) (if b then involved x else return ()) (\<lambda>_. owed {dm_id m} s0) (\<lambda>_. kept s0)"
      by (intro triple_if involved_owed triple_return)
    have "triple (owed {dm_id m} s0) (group_send q (Dequeue_reply c [m])) (\<lambda>_. kept s0) (\<lambda>_. kept s0)"
      by (rule triple_weaken [OF send_owed]) (simp_all add: paid_def)
    then show "triple (owed {dm_id m} s0) (after (group_send q (Dequeue_reply c [m])) (\<lambda>_. return True))
        (\<lambda>_. kept s0) (\<lambda>_. kept s0)"
      by (rule triple_after) (rule triple_return)
  qed
  have none: "triple (kept s0) (after (return ()) (\<lambda>_. after (group_send q (Dequeue_reply c [])) (\<lambda>_. return True)))
      (\<lambda>_. kept s0) (\<lambda>_. kept s0)" for q c
    by (intro triple_after [where Q = "\<lambda>_. kept s0"] triple_return send_owed_other) (simp_all add: paid_def)
  have blocks: "triple (kept s0) (after (change (on_pending (pending_dequeue r))) (\<lambda>_. return False))
      (\<lambda>_. kept s0) (\<lambda>_ :: group_exn. kept s0)"
    by (intro triple_after [where Q = "\<lambda>_. kept s0"] triple_change triple_return) (simp_all add: on_pending_def)
  have answer: "triple (case res of None \<Rightarrow> kept s0 | Some m \<Rightarrow> owed {dm_id m} s0)
      (if dr_block r \<and> res = None then after (change (on_pending (pending_dequeue r))) (\<lambda>_. return False)
       else after (if res \<noteq> None \<and> has_trid (dr_trid r) then involved (dr_trid r) else return ()) (\<lambda>_.
          after (group_send (ph_queue (dr_process r))
            (Dequeue_reply (dr_correlation r) (case res of None \<Rightarrow> [] | Some m \<Rightarrow> [m]))) (\<lambda>_. return True)))
      (\<lambda>_. kept s0) (\<lambda>_. kept s0)" for res
    using found none blocks by (cases res) simp_all
  show ?thesis
    unfolding maintains_triple try_dequeue_def
    by (rule triple_catch, rule triple_after [OF now_owed], rule triple_after [OF dequeue_owed], rule answer)
      (simp_all add: triple_return triple_throw)
qed

text \<open>The operations of the database, as \<open>kept_db\<close> wants them.\<close>

lemma enqueue_kept: "maintains (kept s0) (on_db (db_enqueue fresh now e))"
proof (rule kept_db)
  fix t :: tables and r t'
  assume t: "db_ok t" "db_enqueue fresh now e t = (r, t')"
  from db_enqueue_ok [OF t] db_enqueue_loses [OF t] show "db_ok t' \<and> loses (taken_ids t) t t'"
    by (auto intro: loses_mono)
qed

lemma commit_kept: "maintains (kept s0) (on_db (db_commit x))"
  by (rule kept_db) (use keepsD [OF db_commit_loses] in \<open>auto simp: loses_taken_def\<close>)

lemma rollback_kept: "maintains (kept s0) (on_db (db_rollback x))"
  by (rule kept_db) (use keepsD [OF db_rollback_loses] loses_mono [of "{}"] in \<open>auto\<close>)

interpretation kept_sends: group_sends "kept s0" "\<lambda>m. True" for s0
proof unfold_locales
  show "maintains (kept s0) (group_push q m)" for q m
    unfolding maintains_triple
    by (rule triple_weaken [OF push_owed]) (simp_all split: if_splits)
qed (simp_all add: skip_full)

interpretation kept: group_cycle "kept s0" "\<lambda>m. True" "\<lambda>ev. True" for s0
proof unfold_locales
  show "maintains (kept s0) (try_dequeue r)" for r by (rule kept_dequeue_request)
  show "maintains (kept s0) (persist m targets)" for m targets by (simp add: maintains_def persist_def change_def)
  show "maintains (kept s0) (on_db (db_enqueue fresh now e))" for fresh now e by (rule enqueue_kept)
  show "maintains (kept s0) (on_db (db_commit x))" for x by (rule commit_kept)
  show "maintains (kept s0) (on_db (db_rollback x))" for x by (rule rollback_kept)
  show "kept s0 s \<Longrightarrow> kept s0 (on_connection exclusive_begin s)" for s
    by (simp add: owed_def on_connection_def exclusive_begin_def group_tables_def)
  show "kept s0 s \<Longrightarrow> kept s0 (on_connection connection_commit s)" for s
    by (simp add: owed_def on_connection_def connection_commit_def group_tables_def)
qed (simp_all add: on_pending_def)

text \<open>
  C14: No committed message is lost: whatever the pump of a queue group does, as long as none of the queues it
  sends to is gone, each committed message is still in the database or has been sent in the reply to a
  dequeue. In particular neither the commits, nor the rollbacks with their moves to the error queue, nor the
  errors of the database lose one.
\<close>

theorem committed_messages_are_kept:
  assumes "db_ok (group_tables s)" "taken_ids (group_tables s) \<subseteq> answered s" "P_gone \<notin> set (gs_push s)"
  shows "live_ids (group_tables s) \<subseteq>
    live_ids (group_tables (snd (group_pump rounds s))) \<union> answered (snd (group_pump rounds s))"
proof -
  have "kept s s" using assms by (simp add: owed_def)
  moreover have "maintains (kept s) (group_pump rounds)" by (rule kept.pump) simp
  ultimately have "kept s (snd (group_pump rounds s))" by (simp add: maintains_def)
  then show ?thesis by (simp add: owed_def)
qed

end
