(* ===== verification/Queue_Examples.thy ===== *)
theory Queue_Examples
  imports Queue_Kept
begin

text \<open>
  A queue group at work: a group with one queue, and what happens to messages and requests in it. The
  properties of the queue components are applied here to concrete states, and the runs of the second part
  show where the code does not do what it means to.
\<close>

section \<open>A group\<close>

definition tx1 :: trid where "tx1 = create_id (replicate 16 7) (replicate 16 8) (replicate 96 0) no_process"
definition no_tx :: trid where "no_tx = null_id no_process"
definition client :: "int \<Rightarrow> process_handle" where "client p = \<lparr>ph_pid = p, ph_queue = p\<rparr>"

definition idle_group :: group_state where
  "idle_group = \<lparr>gs_db = \<lparr>d_tables = no_tables, d_durable = no_tables, d_begun = False\<rparr>, gs_persistent = [],
     gs_pending = \<lparr>pe_requests = [], pe_transactions = []\<rparr>, gs_self = \<lparr>ph_pid = 1, ph_queue = 1\<rparr>, gs_broker = 2,
     gs_domain = 3, gs_sent = [], gs_push = [], gs_clock = [], gs_uuids = [101, 102, 103, 104]\<rparr>"

text \<open>The queue is the third: after the error queue of the group and its own.\<close>

definition started :: group_state where
  "started = snd (group_start ''g'' [(''q'', 1)] idle_group)"

definition enq_request :: "trid \<Rightarrow> string \<Rightarrow> byte list \<Rightarrow> enqueue_request" where
  "enq_request x props payload = \<lparr>er_correlation = 11, er_process = client 50, er_trid = x, er_queue = 3,
     er_message = \<lparr>bm_id = nil_uuid, bm_properties = props, bm_reply = [], bm_avalible = - 1, bm_type = ''t'',
       bm_subtype = [], bm_payload = payload\<rparr>\<rparr>"

definition enq :: "trid \<Rightarrow> string \<Rightarrow> byte list \<Rightarrow> group_event" where
  "enq x props payload = Ge_enqueue (enq_request x props payload)"

definition deq_request :: "int \<Rightarrow> trid \<Rightarrow> string \<Rightarrow> bool \<Rightarrow> dequeue_request" where
  "deq_request p x props block = \<lparr>dr_correlation = p, dr_process = client p, dr_trid = x, dr_queue = 3,
     dr_properties = props, dr_id = nil_uuid, dr_block = block\<rparr>"

definition commit_request :: "trid \<Rightarrow> rm_request" where
  "commit_request x = \<lparr>rr_correlation = 21, rr_process = client 60, rr_trid = x\<rparr>"

definition run :: "group_event list \<Rightarrow> group_state" where
  "run evs = snd (group_pump [(hd evs, tl evs)] started)"

lemma started_queues: "map qr_name (t_queues (group_tables started)) = [''g.group.error'', ''q.error'', ''q'']"
  by code_simp

text \<open>
  The tables after a message was enqueued and one more is enqueued and another is taken in a transaction.
\<close>

definition sample_ops :: "db_op list" where
  "sample_ops = [Op_create 0 (configured_queue ''q'' 1), Op_enqueue 101 1 (enq_request no_tx [] [1, 2]),
     Op_enqueue 102 2 (enq_request no_tx ''p'' [3]), Op_enqueue 103 3 (enq_request tx1 [] [4]),
     Op_dequeue 4 (deq_request 70 tx1 ''p'' False)]"

definition sample_tables :: tables where
  "sample_tables = fold run_op sample_ops (snd (db_open ''g'' 0 no_tables))"

lemma sample_states:
  "map (\<lambda>m. (mr_id m, mr_state m)) (t_messages sample_tables) = [(101, enqueued), (102, removed), (103, added)]"
  by code_simp

lemma sample_ok: "db_ok sample_tables"
  unfolding sample_tables_def sample_ops_def by (simp only: fold_simps) (intro run_op_ok new_database_ok)

lemma sample_linked: "linked sample_tables"
proof -
  have "list_all (\<lambda>q. qr_error q \<in> set (map qr_id (t_queues sample_tables))) (t_queues sample_tables)"
    by code_simp
  then show ?thesis by (simp add: linked_def list_all_iff)
qed

lemma sample_gtrid: "bound_gtrid tx1 = Some (replicate 16 7)" "has_trid tx1"
  by code_simp+

section \<open>The properties at work\<close>

lemma commit_refines_witness:
  "\<exists>t'. db_commit tx1 sample_tables = (Inr (), t') \<and>
    store_of t' = spec_commit (replicate 16 7) (store_of sample_tables)"
proof (rule commit_refines [OF sample_ok sample_gtrid(1)])
  have "list_all (\<lambda>m. \<not> (of_gtrid (Some (replicate 16 7)) added m \<and> mr_payload m = None)) (t_messages sample_tables)"
    by code_simp
  then show "\<forall>m\<in>set (t_messages sample_tables). of_gtrid (Some (replicate 16 7)) added m \<longrightarrow> mr_payload m \<noteq> None"
    by (simp add: list_all_iff)
qed

lemma rollback_refines_witness:
  "\<exists>t'. db_rollback tx1 sample_tables = (Inr (), t') \<and>
    store_of t' = spec_rollback (fate_of sample_tables) (replicate 16 7) (store_of sample_tables)"
  by (rule rollback_refines [OF sample_ok sample_linked sample_gtrid(1)])

lemma dequeue_refines_witness:
  "\<exists>e t'. e \<in># st_ready (store_of sample_tables) \<and> wanted 5 (deq_request 70 tx1 [] False) e \<and>
    db_dequeue 5 (deq_request 70 tx1 [] False) sample_tables = (Inr (Some (snd e)), t') \<and>
    store_of t' = spec_take (Some (replicate 16 7)) e (store_of sample_tables)"
proof -
  let ?r = "deq_request 70 tx1 [] False"
  have "first_message 5 ?r sample_tables \<noteq> None" by code_simp
  then have "\<not> (\<forall>e\<in>#st_ready (store_of sample_tables). \<not> wanted 5 ?r e)" by (simp only: first_message_None not_False_eq_True)
  moreover have "dr_trid ?r = tx1" "tx_gtrid tx1 = Some (replicate 16 7)" using sample_gtrid
    by (simp_all add: deq_request_def tx_gtrid_def)
  ultimately show ?thesis using dequeue_refines [OF sample_ok, of ?r 5] sample_gtrid(1)
    by (simp only: if_False) (metis option.distinct(1))
qed

lemma enqueue_refines_witness:
  "\<exists>t'. db_enqueue 104 5 (enq_request no_tx [] [9]) sample_tables = (Inr 104, t') \<and>
    store_of t' = spec_enqueue None (enqueued_entry 104 5 (enq_request no_tx [] [9])) (store_of sample_tables)"
proof -
  let ?r = "enq_request no_tx [] [9]"
  have "can_enqueue 104 ?r sample_tables" "\<not> has_trid (er_trid ?r)" "message_id 104 ?r = 104" "tx_gtrid (er_trid ?r) = None"
    by code_simp+
  with enqueue_refines [OF sample_ok, of ?r 104 5] show ?thesis by simp
qed


definition sample_batch :: group_state where
  "sample_batch = snd (group_batch_run (enq no_tx [] [1, 2]) [Ge_dequeue (deq_request 70 tx1 [] False)] started)"

lemma promises_wait_for_the_write_witness:
  "d_durable (gs_db sample_batch) = d_tables (gs_db sample_batch) \<and> gs_db (group_flush sample_batch) = gs_db sample_batch"
proof -
  obtain r where r: "group_batch_run (enq no_tx [] [1, 2]) [Ge_dequeue (deq_request 70 tx1 [] False)] started = (r, sample_batch)"
    by (simp add: sample_batch_def) (metis prod.collapse)
  have "pe_requests (gs_pending started) = []" by code_simp
  with promises_wait_for_the_write [OF _ _ r, of "{11}"] show ?thesis by (simp add: plain_def enq_def enq_request_def deq_request_def no_tx_def has_trid_def null_id_def xid_null_def)
qed

text \<open>A group with these tables, in which message 102 was sent to its client.\<close>

definition sample_group :: group_state where
  "sample_group = idle_group\<lparr>gs_db := \<lparr>d_tables = sample_tables, d_durable = sample_tables, d_begun = False\<rparr>,
     gs_sent := [(70, Dequeue_reply 70 [reply_message (t_messages sample_tables ! 1)])]\<rparr>"

definition sample_rounds :: "(group_event \<times> group_event list) list" where
  "sample_rounds = [(Ge_commit (commit_request tx1), [Ge_dequeue (deq_request 70 no_tx [] False)])]"

lemma committed_messages_are_kept_witness:
  "live_ids sample_tables \<subseteq> live_ids (group_tables (snd (group_pump sample_rounds sample_group))) \<union>
    answered (snd (group_pump sample_rounds sample_group))"
proof -
  have "map mr_id (filter (\<lambda>m. mr_state m = removed) (t_messages sample_tables)) = [102]" "mr_id (t_messages sample_tables ! 1) = 102"
    by code_simp+
  then have "set (map mr_id (filter (\<lambda>m. mr_state m = removed) (t_messages sample_tables))) = {102}" by simp
  then have "taken_ids (group_tables sample_group) = {102}"
    by (simp add: taken_ids_def group_tables_def sample_group_def)
  moreover have "answered sample_group = {102}"
    using \<open>mr_id (t_messages sample_tables ! 1) = 102\<close> by (simp add: answered_def sample_group_def reply_message_def)
  moreover have "group_tables sample_group = sample_tables" "P_gone \<notin> set (gs_push sample_group)"
    by (simp_all add: group_tables_def sample_group_def idle_group_def)
  ultimately show ?thesis using committed_messages_are_kept [of sample_group sample_rounds] sample_ok by simp
qed

section \<open>What the code does not mean to do\<close>

text \<open>The requests that wait, the messages in the database and what was answered to dequeues.\<close>

definition waits :: "group_state \<Rightarrow> uuid list" where
  "waits s = map dr_correlation (pe_requests (gs_pending s))"

definition stored :: "group_state \<Rightarrow> (uuid \<times> message_state) list" where
  "stored s = map (\<lambda>m. (mr_id m, mr_state m)) (t_messages (group_tables s))"

definition replies :: "group_state \<Rightarrow> int list" where
  "replies s = map fst (drop 3 (gs_sent s))"

text \<open>
  A lost wake up: a request that comes between the enqueue and the commit of a transaction waits although its
  message is there once the transaction has committed; nothing was counted when it was enqueued.
\<close>

lemma request_waits_beside_its_message:
  "let s = run [enq tx1 [] [1, 2], Ge_dequeue (deq_request 70 no_tx [] True), Ge_commit (commit_request tx1)]
   in stored s = [(101, enqueued)] \<and> waits s = [70]"
  by code_simp

text \<open>Two requests wait and one message comes: the second request is forgotten and never answered.\<close>

lemma second_request_is_forgotten:
  "let s = run [Ge_dequeue (deq_request 70 no_tx [] True), Ge_dequeue (deq_request 71 no_tx [] True), enq no_tx [] [1, 2]]
   in waits s = [] \<and> replies s = [70, 50]"
  by code_simp

text \<open>A message that a waiting request does not select: the request waits twice.\<close>

lemma request_waits_twice:
  "let s = run [Ge_dequeue (deq_request 70 no_tx ''y'' True), enq no_tx ''x'' [1, 2]]
   in waits s = [70, 70]"
  by code_simp

text \<open>
  A waiting request outside of a transaction whose client is gone: the next message is deleted and sent to
  nobody.
\<close>

lemma message_for_a_dead_client_is_lost:
  "let s = snd (group_pump [(Ge_dequeue (deq_request 70 no_tx [] True), [enq no_tx [] [1]])] (started\<lparr>gs_push := [P_gone]\<rparr>))
   in stored s = [] \<and> waits s = [] \<and> replies s = [50]"
  by code_simp

text \<open>A client that is gone ends the group: the exception of the send leaves the handler and the pump.\<close>

lemma dead_client_ends_the_group:
  "fst (group_pump [(Ge_dequeue (deq_request 70 no_tx [] False), [])] (started\<lparr>gs_push := [P_gone]\<rparr>)) = Inl G_unavailable"
  by code_simp

text \<open>An empty message: outside of a transaction there is no reply, inside of one it cannot be committed.\<close>

lemma empty_message_is_not_answered:
  "let s = run [enq no_tx [] []] in stored s = [] \<and> replies s = [] \<and> gs_persistent s = []"
  by code_simp

lemma empty_message_is_not_committed:
  assumes "db_ok t" "m \<in> set (t_messages t)" "of_gtrid (bound_gtrid x) added m" "mr_payload m = None"
  shows "db_commit x t = (Inl Sql_query_failed, t)"
proof (cases "commit1 (bound_gtrid x) t")
  case None
  then show ?thesis by (simp add: db_commit_def db_bind_def statement_def)
next
  case (Some t')
  let ?m = "m\<lparr>mr_state := enqueued\<rparr>"
  note c = commit1_ok [OF assms(1) Some]
  then have "?m \<in> set (t_messages t')" using assms(2,3) by force
  moreover have "db_ok t'" using c by simp
  ultimately have "row_ok ?m" unfolding db_ok_def by blast
  with assms(4) show ?thesis by (simp add: row_ok_def live_def)
qed

text \<open>Opening an existing database sets the counters of the group's error queue to none.\<close>

lemma reopening_forgets_the_error_queue:
  "let t = fold run_op [Op_create 0 (configured_queue ''q'' 0), Op_enqueue 101 1 (enq_request no_tx [] [1, 2]),
       Op_dequeue 2 (deq_request 70 tx1 [] False), Op_rollback tx1,
       Op_dequeue 3 ((deq_request 70 tx1 [] False)\<lparr>dr_queue := 2\<rparr>), Op_rollback tx1] (snd (db_open ''g'' 0 no_tables));
       t' = snd (db_open ''g'' 9 t)
   in map mr_queue (t_messages t) = [1] \<and> map qr_count (t_queues t) = [1, 0, 0] \<and>
      map mr_queue (t_messages t') = [1] \<and> map qr_count (t_queues t') = [0, 0, 0]"
  by code_simp

text \<open>Removing a queue that has messages fails, but its error queue is gone.\<close>

lemma removing_a_queue_removes_its_error_queue:
  "let (r, t) = db_remove_queue 3 sample_tables
   in r = Inl Sql_query_failed \<and> map qr_id (t_queues t) = [1, 3] \<and> map qr_error (t_queues t) = [1, 2]"
  by code_simp

end
