(* ===== verification/Environment.thy ===== *)
theory Environment
  imports Casual_Prelude "HOL-Library.Word" "HOL-Library.Char_ord"
begin

text \<open>
  Strings from the outside (\<open>common/source/environment.cpp\<close>, \<open>common/source/file.cpp\<close>,
  \<open>common/source/chronology.cpp\<close>): the expansion of environment variables, the parts of a path, and
  times with a unit.
\<close>

section \<open>Variables\<close>

datatype env_exn = E_syntax | E_variable | E_beyond_end

type_synonym environment = "string \<rightharpoonup> string"

text \<open>\<open>range::divide_first\<close>: at the first of any of the characters of \<open>lookup\<close>.\<close>

definition divide_first :: "'a list \<Rightarrow> 'a list \<Rightarrow> 'a list \<times> 'a list" where
  "divide_first xs lookup = (takeWhile (\<lambda>x. x \<notin> set lookup) xs, dropWhile (\<lambda>x. x \<notin> set lookup) xs)"

lemma divide_first_shorter: "(xs', ys) = divide_first xs lookup \<Longrightarrow> length ys \<le> length xs"
  by (simp add: divide_first_def length_dropWhile_le)

datatype token = T_text string | T_token string

text \<open>
  \<open>local::split\<close>, between \<open>${\<close> and \<open>}\<close>. Where the first delimiter is found, as many characters as it has
  are skipped; with fewer left the code reads past the end of the string, which is an exception here.
\<close>

function split_tokens :: "string \<Rightarrow> env_exn + token list" where
  "split_tokens value =
     (let (front, rest) = divide_first value [CHR ''$'', CHR ''{''];
          texts = (if front \<noteq> [] then [T_text front] else [])
      in if rest = [] then Inr texts
         else if length rest < 2 then Inl E_beyond_end
         else (let (inside, rest') = divide_first (drop 2 rest) [CHR ''}'']
               in if rest' = [] then Inl E_syntax
                  else (case split_tokens (drop 1 rest') of
                          Inl e \<Rightarrow> Inl e
                        | Inr ts \<Rightarrow> Inr (texts @ T_token inside # ts))))"
  by pat_completeness auto
termination
proof (relation "measure length")
  fix v x front rest texts y inside rest'
  assume "x = divide_first v [CHR ''$'', CHR ''{'']" "(front, rest) = x" "rest \<noteq> ([] :: string)"
    "y = divide_first (drop 2 rest) [CHR ''}'']" "(inside, rest') = y"
  then have "length rest \<le> length v" "length rest' \<le> length (drop 2 rest)" "rest \<noteq> []"
    using divide_first_shorter by metis+
  then show "(drop 1 rest', v) \<in> measure length" by (cases rest) auto
qed simp

declare split_tokens.simps [simp del]

fun expand_tokens :: "environment \<Rightarrow> token list \<Rightarrow> env_exn + string" where
  "expand_tokens env [] = Inr []"
| "expand_tokens env (T_text t # ts) =
     (case expand_tokens env ts of Inl e \<Rightarrow> Inl e | Inr s \<Rightarrow> Inr (t @ s))"
| "expand_tokens env (T_token n # ts) =
     (case env n of
        None \<Rightarrow> Inl E_variable
      | Some v \<Rightarrow> (case expand_tokens env ts of Inl e \<Rightarrow> Inl e | Inr s \<Rightarrow> Inr (v @ s)))"

definition environment_string :: "environment \<Rightarrow> string \<Rightarrow> env_exn + string" where
  "environment_string env value =
     (case split_tokens value of Inl e \<Rightarrow> Inl e | Inr ts \<Rightarrow> expand_tokens env ts)"

text \<open>
  What a template is meant to say: texts and names of variables, written one after the other. Texts do not hold
  the characters of the first delimiter, names not that of the last.
\<close>

fun write_template :: "(string \<times> string) list \<Rightarrow> string \<Rightarrow> string" where
  "write_template [] t = t"
| "write_template ((t0, n) # ps) t = t0 @ ''${'' @ n @ ''}'' @ write_template ps t"

definition plain_text :: "string \<Rightarrow> bool" where
  "plain_text t \<longleftrightarrow> CHR ''$'' \<notin> set t \<and> CHR ''{'' \<notin> set t"

definition well_written :: "(string \<times> string) list \<Rightarrow> string \<Rightarrow> bool" where
  "well_written ps t \<longleftrightarrow> list_all (\<lambda>(t0, n). plain_text t0 \<and> CHR ''}'' \<notin> set n) ps \<and> plain_text t"

fun template_value :: "environment \<Rightarrow> (string \<times> string) list \<Rightarrow> string \<Rightarrow> string option" where
  "template_value env [] t = Some t"
| "template_value env ((t0, n) # ps) t =
     (case env n of None \<Rightarrow> None | Some v \<Rightarrow> map_option (\<lambda>s. t0 @ v @ s) (template_value env ps t))"

lemma divide_first_at: "set xs \<inter> set lookup = {} \<Longrightarrow> y \<in> set lookup \<Longrightarrow> divide_first (xs @ y # ys) lookup = (xs, y # ys)"
  by (induction xs) (auto simp: divide_first_def)

lemma divide_first_none: "set xs \<inter> set lookup = {} \<Longrightarrow> divide_first xs lookup = (xs, [])"
  by (induction xs) (auto simp: divide_first_def)

lemma split_plain: "plain_text t \<Longrightarrow> split_tokens t = Inr (if t \<noteq> [] then [T_text t] else [])"
  by (subst split_tokens.simps) (simp add: divide_first_none plain_text_def)

lemma split_variable:
  assumes "plain_text t0" "CHR ''}'' \<notin> set n"
  shows "split_tokens (t0 @ ''${'' @ n @ ''}'' @ rest) =
    (case split_tokens rest of
       Inl e \<Rightarrow> Inl e | Inr ts \<Rightarrow> Inr ((if t0 \<noteq> [] then [T_text t0] else []) @ T_token n # ts))"
proof -
  have "divide_first (t0 @ CHR ''$'' # CHR ''{'' # n @ CHR ''}'' # rest) [CHR ''$'', CHR ''{''] =
      (t0, CHR ''$'' # CHR ''{'' # n @ CHR ''}'' # rest)"
    using assms(1) by (intro divide_first_at) (auto simp: plain_text_def)
  moreover have "divide_first (n @ CHR ''}'' # rest) [CHR ''}''] = (n, CHR ''}'' # rest)"
    using assms(2) by (intro divide_first_at) auto
  ultimately show ?thesis by (subst split_tokens.simps) (simp split: sum.split)
qed

text \<open>
  A string in which the variables are written \<open>${name}\<close> expands to the texts with the values of the
  variables between them, and to the error of a missing variable exactly when one of them has no value.
\<close>

theorem templates_expand:
  assumes "well_written ps t"
  shows "environment_string env (write_template ps t) =
    (case template_value env ps t of None \<Rightarrow> Inl E_variable | Some s \<Rightarrow> Inr s)"
proof -
  have "\<exists>ts. split_tokens (write_template ps t) = Inr ts \<and>
      expand_tokens env ts = (case template_value env ps t of None \<Rightarrow> Inl E_variable | Some s \<Rightarrow> Inr s)"
    using assms
  proof (induction ps)
    case Nil
    then show ?case by (simp add: well_written_def split_plain)
  next
    case (Cons p ps)
    obtain t0 n where p: "p = (t0, n)" by fastforce
    with Cons obtain ts where ts: "split_tokens (write_template ps t) = Inr ts"
      "expand_tokens env ts = (case template_value env ps t of None \<Rightarrow> Inl E_variable | Some s \<Rightarrow> Inr s)"
      by (auto simp: well_written_def)
    have "plain_text t0" "CHR ''}'' \<notin> set n" using Cons(2) p by (simp_all add: well_written_def)
    from split_variable [OF this, of "write_template ps t"] ts show ?case
      by (auto simp: p split: option.split)
  qed
  then show ?thesis by (auto simp: environment_string_def)
qed

lemma templates_expand_witness:
  "environment_string [''HOME'' \<mapsto> ''/opt''] (write_template [(''--dir='', ''HOME'')] ''/bin'') = Inr ''--dir=/opt/bin''"
  using templates_expand [of "[(''--dir='', ''HOME'')]" "''/bin''" "[''HOME'' \<mapsto> ''/opt'']"]
  by (simp add: well_written_def plain_text_def)

text \<open>The delimiter is looked for by its characters: a dollar sign of its own is taken for one.\<close>

lemma dollar_is_an_error: "environment_string env ''$HOME/bin'' = Inl E_syntax"
  by code_simp

lemma braces_lose_text: "environment_string [''b'' \<mapsto> ''x''] ''{ab}'' = Inr ''x''"
  by code_simp

lemma dollar_at_the_end: "environment_string env ''cost in $'' = Inl E_beyond_end"
  by code_simp

section \<open>Paths\<close>

text \<open>\<open>file::name\<close>\<close>

definition name_absolute :: "string \<Rightarrow> bool" where
  "name_absolute path = (case path of [] \<Rightarrow> False | c # _ \<Rightarrow> c = CHR ''/'')"

definition name_base :: "string \<Rightarrow> string" where
  "name_base path = rev (takeWhile (\<lambda>c. c \<noteq> CHR ''/'') (rev path))"

definition name_extension :: "string \<Rightarrow> string" where
  "name_extension file =
     (let name = name_base file
      in if CHR ''.'' \<notin> set name then [] else rev (takeWhile (\<lambda>c. c \<noteq> CHR ''.'') (rev name)))"

definition name_without_extension :: "string \<Rightarrow> string" where
  "name_without_extension path = rev (dropWhile (\<lambda>c. c \<noteq> CHR ''.'') (rev path))"

definition directory_base :: "string \<Rightarrow> string" where
  "directory_base path =
     (let end = dropWhile (\<lambda>c. c \<noteq> CHR ''/'') (dropWhile (\<lambda>c. c = CHR ''/'') (rev path))
      in if end = [] then ''/'' else rev end)"

lemma without_extension_keeps_the_dot: "name_without_extension ''queue.db'' = ''queue.''"
  and without_extension_of_a_plain_name: "name_without_extension ''queue'' = []"
  by code_simp+

section \<open>Times\<close>

text \<open>
  \<open>chronology::from::string\<close>: a number, with \<open>stoull\<close>'s range, and a unit. The count is that of
  \<open>std::chrono::microseconds\<close>, 64 bits; a conversion that does not fit wraps.
\<close>

datatype chronology_exn = C_range | C_representation

definition is_digit :: "char \<Rightarrow> bool" where
  "is_digit c \<longleftrightarrow> CHR ''0'' \<le> c \<and> c \<le> CHR ''9''"

definition digits_value :: "string \<Rightarrow> nat" where
  "digits_value cs = foldl (\<lambda>n c. 10 * n + (of_char c - 48)) 0 cs"

definition unit_microseconds :: "string \<Rightarrow> nat option" where
  "unit_microseconds unit =
     (if unit = [] \<or> unit = ''s'' then Some 1000000
      else if unit = ''ms'' then Some 1000
      else if unit = ''min'' then Some 60000000
      else if unit = ''us'' then Some 1
      else if unit = ''h'' then Some 3600000000
      else if unit = ''d'' then Some 86400000000
      else None)"

definition chronology_string :: "string \<Rightarrow> chronology_exn + 64 word" where
  "chronology_string value =
     (let number = takeWhile is_digit value; unit = dropWhile is_digit value; count = digits_value number
      in if number \<noteq> [] \<and> count \<ge> 2 ^ 64 then Inl C_range
         else (case unit_microseconds unit of
                 None \<Rightarrow> Inl C_representation
               | Some scale \<Rightarrow> Inr (word_of_nat (count * scale))))"

fun write_number :: "nat \<Rightarrow> string" where
  "write_number n =
     (if n < 10 then [char_of (48 + n)] else write_number (n div 10) @ [char_of (48 + n mod 10)])"

declare write_number.simps [simp del]

lemma is_digit_char_of: "n < 10 \<Longrightarrow> is_digit (char_of (48 + n :: nat))"
  by (simp add: is_digit_def less_eq_char_def)

lemma written_digits: "list_all is_digit (write_number n)"
proof (induction n rule: write_number.induct)
  case (1 n)
  then show ?case by (subst write_number.simps) (simp add: is_digit_char_of)
qed

lemma written_value: "digits_value (write_number n) = n"
proof (induction n rule: write_number.induct)
  case (1 n)
  have "10 * digits_value (write_number (n div 10)) + n mod 10 = n" if "\<not> n < 10"
    using 1 [OF that] by simp
  moreover have "digits_value (xs @ [c]) = 10 * digits_value xs + (of_char c - 48)" for xs c
    by (simp add: digits_value_def)
  ultimately show ?case
    by (subst write_number.simps) (simp add: digits_value_def)
qed

lemma unit_starts_no_digit: "unit_microseconds unit = Some scale \<Longrightarrow> takeWhile is_digit unit = []"
  by (auto simp: unit_microseconds_def is_digit_def less_eq_char_def split: if_splits)

lemma written_split:
  assumes "unit_microseconds unit = Some scale"
  shows "takeWhile is_digit (write_number n @ unit) = write_number n"
    and "dropWhile is_digit (write_number n @ unit) = unit"
  using written_digits [of n] unit_starts_no_digit [OF assms]
  by (simp_all add: list_all_iff takeWhile_append2 dropWhile_append2 takeWhile_eq_Nil_iff dropWhile_eq_self_iff)

text \<open>
  A count written in decimal, with one of the units the code knows, is read back as that many
  microseconds, as long as they are fewer than \<open>2 ^ 63\<close>.
\<close>

lemma written_times_are_read:
  assumes "unit_microseconds unit = Some scale" and "n * scale < 2 ^ 63"
  shows "\<exists>w. chronology_string (write_number n @ unit) = Inr w \<and> unat w = n * scale \<and> sint w = int (n * scale)"
proof -
  have positive: "1 \<le> scale" using assms(1) by (auto simp: unit_microseconds_def split: if_splits)
  have fits: "n * scale < 2 ^ LENGTH(64)" "n * scale < 2 ^ (LENGTH(64) - 1)" using assms(2) by simp_all
  have "n \<le> n * scale" using mult_le_mono2 [OF positive, of n] by (simp only: mult_1_right)
  from le_less_trans [OF this assms(2)] have "n < 2 ^ 64" by simp
  then have "chronology_string (write_number n @ unit) = Inr (word_of_nat (n * scale))"
    by (simp add: chronology_string_def written_split [OF assms(1)] written_value assms(1))
  moreover have "unat (word_of_nat (n * scale) :: 64 word) = n * scale"
    using fits(1) by (simp only: unat_of_nat mod_less)
  moreover have "sint (word_of_nat (n * scale) :: 64 word) = int (n * scale)"
    using fits(2) by (simp add: signed_of_nat signed_take_bit_int_eq_self_iff del: of_nat_mult)
  ultimately show ?thesis by blast
qed

text \<open>A time that is too large is not an error: it wraps.\<close>

lemma large_times_wrap: "chronology_string ''18446744073709551615h'' = Inr (word_of_nat ((2 ^ 64 - 1) * 3600000000))"
  by (simp add: chronology_string_def digits_value_def is_digit_def less_eq_char_def unit_microseconds_def
      del: of_nat_mult of_nat_numeral)

lemma a_unit_alone_is_zero: "chronology_string ''ms'' = Inr 0"
  by (simp add: chronology_string_def digits_value_def is_digit_def less_eq_char_def unit_microseconds_def)

lemma a_space_is_an_error: "chronology_string ''5 s'' = Inl C_representation"
  by (simp add: chronology_string_def digits_value_def is_digit_def less_eq_char_def unit_microseconds_def)

section \<open>Numbers\<close>

text \<open>\<open>std::stoul\<close>, base ten: white space and a sign may come first, what follows the digits is not looked at.\<close>

datatype number_exn = N_conversion | N_range

definition is_space :: "char \<Rightarrow> bool" where
  "is_space c \<longleftrightarrow> c = CHR '' '' \<or> (CHR 0x09 \<le> c \<and> c \<le> CHR 0x0D)"

definition stoul :: "string \<Rightarrow> number_exn + nat" where
  "stoul value =
     (let text = dropWhile is_space value;
          negative = (case text of [] \<Rightarrow> False | c # _ \<Rightarrow> c = CHR ''-'');
          signed = (case text of [] \<Rightarrow> False | c # _ \<Rightarrow> c = CHR ''-'' \<or> c = CHR ''+'');
          digits = takeWhile is_digit (if signed then tl text else text);
          n = digits_value digits
      in if digits = [] then Inl N_conversion
         else if n \<ge> 2 ^ 64 then Inl N_range
         else Inr (if negative then (2 ^ 64 - n) mod 2 ^ 64 else n))"

text \<open>\<open>string::integer\<close>: the literal with the digits ends with a null character, which is one of its elements.\<close>

definition string_integer :: "string \<Rightarrow> bool" where
  "string_integer value \<longleftrightarrow> value \<noteq> [] \<and> list_all (\<lambda>c. is_digit c \<or> c = CHR 0x00) value"

end
