(* ===== verification/Queue_Broker.thy ===== *)
theory Queue_Broker
  imports Algorithm Queue_Group Environment "HOL-Library.List_Lexorder" "HOL-Library.Product_Lexorder"
begin

text \<open>
  The queue broker (\<open>queue/source/broker\<close>): it knows which group has which queue, and for each transaction the
  groups that are involved. A commit or rollback goes to all of them, and the resource proxy gets one reply when
  they have all answered. Its configuration is \<open>configuration/source/queue.cpp\<close>.
\<close>

section \<open>Configuration\<close>

record cf_queue =
  cq_name :: string
  cq_retries :: string

record cf_queue_group =
  qg_name :: string
  qg_queuebase :: string
  qg_queues :: "cf_queue list"

record cf_queue_domain =
  qd_default :: cf_queue
  qd_groups :: "cf_queue_group list"

definition default_values :: "cf_queue_domain \<Rightarrow> cf_queue_domain" where
  "default_values d = d\<lparr>qd_groups := map (\<lambda>g. g\<lparr>qg_queues := map (\<lambda>q.
     if cq_retries q = [] then q\<lparr>cq_retries := cq_retries (qd_default d)\<rparr> else q) (qg_queues g)\<rparr>) (qd_groups d)\<rparr>"

text \<open>\<open>std::unique\<close>, with an equality that need not be one: each element is compared with the last that was kept.\<close>

fun unique_with :: "('a \<Rightarrow> 'a \<Rightarrow> bool) \<Rightarrow> 'a list \<Rightarrow> 'a list" where
  "unique_with R [] = []"
| "unique_with R [x] = [x]"
| "unique_with R (x # y # xs) = (if R x y then unique_with R (x # xs) else x # unique_with R (y # xs))"

text \<open>\<open>operator ==\<close> of groups, and the order they are sorted in.\<close>

definition group_equal :: "cf_queue_group \<Rightarrow> cf_queue_group \<Rightarrow> bool" where
  "group_equal l r \<longleftrightarrow> qg_name l = qg_name r \<or> qg_queuebase l \<noteq> '':memory:'' \<and> qg_queuebase l = qg_queuebase r"

definition group_sort_key :: "cf_queue_group \<Rightarrow> string \<times> string" where
  "group_sort_key g = (qg_name g, qg_queuebase g)"

definition queue_valid :: "cf_queue \<Rightarrow> bool" where
  "queue_valid q \<longleftrightarrow> cq_name q \<noteq> [] \<and> string_integer (cq_retries q)"

definition group_valid :: "cf_queue_group \<Rightarrow> bool" where
  "group_valid g \<longleftrightarrow> qg_name g \<noteq> [] \<and> qg_queuebase g \<noteq> [] \<and> list_all queue_valid (qg_queues g)"

text \<open>\<open>validate\<close>: whether it returns; otherwise it throws \<open>invalid::Configuration\<close>.\<close>

definition validate :: "cf_queue_domain \<Rightarrow> bool" where
  "validate d \<longleftrightarrow>
     (let groups = sort_key group_sort_key (qd_groups d);
          queues = concat (map qg_queues groups)
      in list_all group_valid (qd_groups d) \<and>
         length (unique_with group_equal groups) = length groups \<and>
         length (unique_by cq_name (sort_key cq_name queues)) = length queues)"

section \<open>State\<close>

record qb_group =
  qb_name :: string
  qb_process :: process_handle
  qb_queuebase :: string
  qb_connected :: bool

text \<open>\<open>Correlation::Stage\<close>, in its order.\<close>

datatype qb_stage = Q_empty | Q_pending | Q_error | Q_replied

fun qb_stage_rank :: "qb_stage \<Rightarrow> nat" where
  "qb_stage_rank Q_empty = 0"
| "qb_stage_rank Q_pending = 1"
| "qb_stage_rank Q_error = 2"
| "qb_stage_rank Q_replied = 3"

instantiation qb_stage :: linorder
begin

definition less_eq_qb_stage :: "qb_stage \<Rightarrow> qb_stage \<Rightarrow> bool" where
  "less_eq_qb_stage x y \<longleftrightarrow> qb_stage_rank x \<le> qb_stage_rank y"

definition less_qb_stage :: "qb_stage \<Rightarrow> qb_stage \<Rightarrow> bool" where
  "less_qb_stage x y \<longleftrightarrow> qb_stage_rank x < qb_stage_rank y"

instance
proof
  fix x y :: qb_stage
  show "x \<le> y \<Longrightarrow> y \<le> x \<Longrightarrow> x = y" by (cases x; cases y) (simp_all add: less_eq_qb_stage_def)
qed (auto simp: less_eq_qb_stage_def less_qb_stage_def)

end

record qb_request =
  qr_group :: process_handle
  qr_stage :: qb_stage

record qb_correlation =
  co_caller :: process_handle
  co_reply_correlation :: uuid
  co_requests :: "qb_request list"

datatype xa_kind = K_commit | K_rollback

record xa_request =
  xq_kind :: xa_kind
  xq_correlation :: uuid
  xq_process :: process_handle
  xq_trid :: trid
  xq_resource :: int
  xq_flags :: int

record xa_reply =
  xr_kind :: xa_kind
  xr_correlation :: uuid
  xr_process :: process_handle
  xr_trid :: trid
  xr_resource :: int
  xr_state :: int

datatype qb_message =
    Qb_lookup_reply process_handle int
  | Qb_request xa_request
  | Qb_reply xa_reply
  | Qb_ping_reply uuid process_handle
  | Qb_connect_reply string "(string \<times> nat) list"

datatype qb_exn = W_unavailable | W_shutdown | W_number | W_spawn | W_no_message

record qb_state =
  qb_groups :: "qb_group list"
  qb_queues :: "string \<rightharpoonup> process_handle \<times> int"
  qb_involved :: "(trid \<times> process_handle list) list"
  qb_correlations :: "(trid \<times> qb_correlation) list"
  qb_self :: process_handle
  qb_sent :: "(int \<times> qb_message) list"
  qb_push :: "group_push list"

type_synonym 'a qb = "(qb_state, qb_exn, 'a) effect"

definition qb_send :: "int \<Rightarrow> qb_message \<Rightarrow> bool qb" where
  "qb_send queue m s =
     (case qb_push s of
        [] \<Rightarrow> (Inr True, s\<lparr>qb_sent := qb_sent s @ [(queue, m)]\<rparr>)
      | P_sent # os \<Rightarrow> (Inr True, s\<lparr>qb_push := os, qb_sent := qb_sent s @ [(queue, m)]\<rparr>)
      | P_full # os \<Rightarrow> (Inr False, s\<lparr>qb_push := os\<rparr>)
      | P_gone # os \<Rightarrow> (Inl W_unavailable, s\<lparr>qb_push := os\<rparr>))"

definition qb_blocking_send :: "int \<Rightarrow> qb_message \<Rightarrow> unit qb" where
  "qb_blocking_send queue m = after (change (\<lambda>s. s\<lparr>qb_push := dropWhile (\<lambda>p. p = P_full) (qb_push s)\<rparr>))
     (\<lambda>_. after (qb_send queue m) (\<lambda>_. return ()))"

section \<open>Correlation\<close>

definition correlation_replied :: "qb_correlation \<Rightarrow> bool" where
  "correlation_replied c \<longleftrightarrow> list_all (\<lambda>r. qr_stage r \<ge> Q_error) (co_requests c)"

definition correlation_stage :: "qb_correlation \<Rightarrow> qb_stage" where
  "correlation_stage c = (case map qr_stage (co_requests c) of [] \<Rightarrow> Q_empty | v # vs \<Rightarrow> fold min vs v)"

definition set_stage :: "process_handle \<Rightarrow> qb_stage \<Rightarrow> qb_correlation \<Rightarrow> qb_correlation" where
  "set_stage p v c = c\<lparr>co_requests := upd_first (\<lambda>r. ph_pid (qr_group r) = ph_pid p) (\<lambda>r. r\<lparr>qr_stage := v\<rparr>) (co_requests c)\<rparr>"

section \<open>Handlers\<close>

text \<open>\<open>process::Exit::apply\<close>\<close>

definition qb_exit :: "int \<Rightarrow> qb_state \<Rightarrow> qb_state" where
  "qb_exit pid s = s\<lparr>
     qb_groups := erase_first (\<lambda>g. ph_pid (qb_process g) = pid) (qb_groups s),
     qb_queues := (\<lambda>name. case qb_queues s name of
        Some (p, i) \<Rightarrow> if ph_pid p = pid then None else Some (p, i) | None \<Rightarrow> None),
     qb_correlations := map (\<lambda>(x, c). (x, c\<lparr>co_requests := map (\<lambda>r.
        if ph_pid (qr_group r) = pid \<and> qr_stage r \<le> Q_pending then r\<lparr>qr_stage := Q_error\<rparr> else r) (co_requests c)\<rparr>)) (qb_correlations s)\<rparr>"

text \<open>The shutdown; which processes have ended is what \<open>lifetime::soft::shutdown\<close> returns.\<close>

definition qb_shutdown :: "int list \<Rightarrow> unit qb" where
  "qb_shutdown ended = after (for_each (\<lambda>pid. change (qb_exit pid)) ended) (\<lambda>_. throw W_shutdown)"

definition qb_lookup :: "process_handle \<Rightarrow> string \<Rightarrow> unit qb" where
  "qb_lookup p name s =
     (case qb_queues s name of
        Some (g, i) \<Rightarrow> qb_blocking_send (ph_queue p) (Qb_lookup_reply g i)
      | None \<Rightarrow> qb_blocking_send (ph_queue p) (Qb_lookup_reply no_process 0)) s"

fun add_queues :: "process_handle \<Rightarrow> (string \<times> int) list \<Rightarrow> (string \<rightharpoonup> process_handle \<times> int) \<Rightarrow> (string \<rightharpoonup> process_handle \<times> int)" where
  "add_queues p [] m = m"
| "add_queues p ((name, i) # qs) m = add_queues p qs (case m name of Some _ \<Rightarrow> m | None \<Rightarrow> m(name \<mapsto> (p, i)))"

definition qb_connect :: "process_handle \<Rightarrow> (string \<times> int) list \<Rightarrow> qb_state \<Rightarrow> qb_state" where
  "qb_connect p queues s = s\<lparr>
     qb_queues := add_queues p queues (qb_queues s),
     qb_groups := (if list_ex (\<lambda>g. qb_process g = p) (qb_groups s)
        then upd_first (\<lambda>g. qb_process g = p) (\<lambda>g. g\<lparr>qb_connected := True\<rparr>) (qb_groups s)
        else qb_groups s @ [\<lparr>qb_name = [], qb_process = p, qb_queuebase = [], qb_connected = False\<rparr>])\<rparr>"

definition add_involved :: "process_handle \<Rightarrow> process_handle list \<Rightarrow> process_handle list" where
  "add_involved p ps = (if p \<in> set ps then ps else ps @ [p])"

definition qb_involve :: "process_handle \<Rightarrow> trid \<Rightarrow> qb_state \<Rightarrow> qb_state" where
  "qb_involve p x s =
     (if list_ex (same_key x) (qb_involved s)
      then s\<lparr>qb_involved := upd_first (same_key x) (\<lambda>(y, ps). (y, add_involved p ps)) (qb_involved s)\<rparr>
      else s\<lparr>qb_involved := qb_involved s @ [(x, [p])]\<rparr>)"

text \<open>
  \<open>local::send\<close>: first to all that take the message at once, then to the busy ones. The partition orders the
  involved groups anew.
\<close>

definition try_group :: "xa_request \<Rightarrow> process_handle \<Rightarrow> qb_state \<Rightarrow> (qb_exn + bool) \<times> process_handle \<times> qb_state" where
  "try_group m g s = (case qb_send (ph_queue g) (Qb_request m) s of
     (Inl e, s') \<Rightarrow> (Inl e, g, s') | (Inr sent, s') \<Rightarrow> (Inr (\<not> sent), g, s'))"

definition send_groups :: "trid \<Rightarrow> xa_request \<Rightarrow> process_handle list \<Rightarrow> unit qb" where
  "send_groups x m groups s =
     (case send_partition (try_group m) groups s of
        (r, left_over, s') \<Rightarrow>
          (let s'' = s'\<lparr>qb_involved := upd_first (same_key x) (\<lambda>(y, _). (y, left_over)) (qb_involved s')\<rparr>
           in (case r of
                 Inl e \<Rightarrow> (Inl e, s'')
               | Inr (busy, _) \<Rightarrow> for_each (\<lambda>g. qb_blocking_send (ph_queue g) (Qb_request m)) busy s'')))"

definition correlate :: "xa_request \<Rightarrow> qb_state \<Rightarrow> qb_state" where
  "correlate m s =
     (case List.find (same_key (xq_trid m)) (qb_involved s) of
        None \<Rightarrow> s
      | Some (x, groups) \<Rightarrow> s\<lparr>
          qb_correlations := (if list_ex (same_key x) (qb_correlations s) then qb_correlations s
            else qb_correlations s @ [(x, \<lparr>co_caller = xq_process m, co_reply_correlation = xq_correlation m,
              co_requests = map (\<lambda>g. \<lparr>qr_group = g, qr_stage = Q_pending\<rparr>) groups\<rparr>)]),
          qb_involved := erase_first (same_key (xq_trid m)) (qb_involved s)\<rparr>)"

definition error_reply :: "xa_request \<Rightarrow> int \<Rightarrow> qb_state \<Rightarrow> qb_message" where
  "error_reply m code s = Qb_reply \<lparr>xr_kind = xq_kind m, xr_correlation = xq_correlation m, xr_process = qb_self s,
     xr_trid = xq_trid m, xr_resource = xq_resource m, xr_state = code\<rparr>"

definition send_error :: "xa_request \<Rightarrow> int \<Rightarrow> unit qb" where
  "send_error m code s = qb_blocking_send (ph_queue (xq_process m)) (error_reply m code s) s"

definition qb_xa_request :: "xa_request \<Rightarrow> unit qb" where
  "qb_xa_request m s =
     (case List.find (same_key (xq_trid m)) (qb_involved s) of
        Some (_, groups) \<Rightarrow>
          catch (after (send_groups (xq_trid m) (m\<lparr>xq_process := qb_self s\<rparr>) groups) (\<lambda>_. change (correlate m)))
            (\<lambda>_. send_error m XAER_RMFAIL)
      | None \<Rightarrow> send_error m XAER_NOTA) s"

definition final_reply :: "xa_reply \<Rightarrow> qb_correlation \<Rightarrow> qb_state \<Rightarrow> qb_message" where
  "final_reply m c s = Qb_reply (m\<lparr>xr_process := qb_self s, xr_correlation := co_reply_correlation c,
     xr_state := (if correlation_stage c = Q_replied then XA_OK else XAER_RMFAIL)\<rparr>)"

definition answer_stage :: "xa_reply \<Rightarrow> qb_stage" where
  "answer_stage m = (if xr_state m = XA_OK then Q_replied else Q_error)"

definition qb_xa_reply :: "xa_reply \<Rightarrow> unit qb" where
  "qb_xa_reply m s =
     (case List.find (same_key (xr_trid m)) (qb_correlations s) of
        None \<Rightarrow> return ()
      | Some (_, old) \<Rightarrow>
          (let c = set_stage (xr_process m) (answer_stage m) old
           in after (change (\<lambda>s. s\<lparr>qb_correlations := upd_first (same_key (xr_trid m)) (\<lambda>(x, _). (x, c)) (qb_correlations s)\<rparr>)) (\<lambda>_.
              if correlation_replied c then
                after (qb_blocking_send (ph_queue (co_caller c)) (final_reply m c s)) (\<lambda>_.
                  change (\<lambda>s. s\<lparr>qb_correlations := erase_first (same_key (xr_trid m)) (qb_correlations s)\<rparr>))
              else return ()))) s"

section \<open>Start and pump\<close>

text \<open>
  \<open>Startup\<close>: the pid of the new process, or none, and the queue of the next process that connects come from the
  surroundings.
\<close>

definition queue_settings :: "cf_queue \<Rightarrow> qb_exn + string \<times> nat" where
  "queue_settings q =
     (if cq_retries q = [] then Inr (cq_name q, 0)
      else (case stoul (cq_retries q) of Inl _ \<Rightarrow> Inl W_number | Inr n \<Rightarrow> Inr (cq_name q, n)))"

fun all_settings :: "cf_queue list \<Rightarrow> qb_exn + (string \<times> nat) list" where
  "all_settings [] = Inr []"
| "all_settings (q # qs) =
     (case queue_settings q of
        Inl e \<Rightarrow> Inl e
      | Inr v \<Rightarrow> (case all_settings qs of Inl e \<Rightarrow> Inl e | Inr vs \<Rightarrow> Inr (v # vs)))"

definition start_group :: "cf_queue_group \<Rightarrow> int option \<times> int \<Rightarrow> unit qb" where
  "start_group g arrival s =
     (case arrival of
        (None, _) \<Rightarrow> (Inl W_spawn, s)
      | (Some pid, queue) \<Rightarrow>
          (case all_settings (qg_queues g) of
             Inl e \<Rightarrow> (Inl e, s)
           | Inr settings \<Rightarrow>
               after (qb_blocking_send queue (Qb_connect_reply (qg_name g) settings)) (\<lambda>_. change (\<lambda>s. s\<lparr>qb_groups := qb_groups s @
                 [\<lparr>qb_name = qg_name g, qb_process = \<lparr>ph_pid = pid, ph_queue = queue\<rparr>, qb_queuebase = qg_queuebase g,
                   qb_connected = False\<rparr>]\<rparr>)) s))"

fun start_groups :: "cf_queue_group list \<Rightarrow> (int option \<times> int) list \<Rightarrow> unit qb" where
  "start_groups [] as s = (Inr (), s)"
| "start_groups (g # gs) [] s = (Inl W_no_message, s)"
| "start_groups (g # gs) (a # as) s = after (start_group g a) (\<lambda>_. start_groups gs as) s"

fun await_groups :: "(process_handle \<times> (string \<times> int) list) list \<Rightarrow> unit qb" where
  "await_groups [] s = (if list_all qb_connected (qb_groups s) then (Inr (), s) else (Inl W_no_message, s))"
| "await_groups ((p, queues) # es) s =
     (if list_all qb_connected (qb_groups s) then (Inr (), s) else await_groups es (qb_connect p queues s))"

definition qb_startup :: "cf_queue_domain \<Rightarrow> (int option \<times> int) list \<Rightarrow> (process_handle \<times> (string \<times> int) list) list \<Rightarrow> unit qb" where
  "qb_startup d arrivals connects = after (start_groups (qd_groups d) arrivals) (\<lambda>_. await_groups connects)"

datatype qb_event =
    Qe_exit int
  | Qe_connect process_handle "(string \<times> int) list"
  | Qe_shutdown "int list"
  | Qe_lookup process_handle string
  | Qe_involved process_handle trid
  | Qe_request xa_request
  | Qe_reply xa_reply
  | Qe_ping uuid process_handle

definition qb_handle :: "qb_event \<Rightarrow> unit qb" where
  "qb_handle ev =
     (case ev of
        Qe_exit pid \<Rightarrow> change (qb_exit pid)
      | Qe_connect p queues \<Rightarrow> change (qb_connect p queues)
      | Qe_shutdown ended \<Rightarrow> qb_shutdown ended
      | Qe_lookup p name \<Rightarrow> qb_lookup p name
      | Qe_involved p x \<Rightarrow> change (qb_involve p x)
      | Qe_request m \<Rightarrow> qb_xa_request m
      | Qe_reply m \<Rightarrow> qb_xa_reply m
      | Qe_ping c p \<Rightarrow> (\<lambda>s. qb_blocking_send (ph_queue p) (Qb_ping_reply c (qb_self s)) s))"

definition qb_pump :: "qb_event list \<Rightarrow> unit qb" where
  "qb_pump = for_each qb_handle"

end
