(* ===== verification/Queue_Broker_Theorems.thy ===== *)
theory Queue_Broker_Theorems
  imports Queue_Broker
begin

text \<open>
  What the queue broker promises: a commit or rollback reaches all groups that are involved, and is answered
  once, when all of them have; and a configuration that is valid has different names.
\<close>

section \<open>Sending\<close>

lemma qb_blocking_sent:
  assumes "P_gone \<notin> set (qb_push s)"
  obtains ps where "qb_blocking_send q m s = (Inr (), s\<lparr>qb_push := ps, qb_sent := qb_sent s @ [(q, m)]\<rparr>)" "P_gone \<notin> set ps"
proof (cases "dropWhile (\<lambda>p. p = P_full) (qb_push s)")
  case Nil
  then have "qb_blocking_send q m s = after (qb_send q m) (\<lambda>_. return ()) (s\<lparr>qb_push := []\<rparr>)"
    by (simp only: qb_blocking_send_def after_def change_def prod.case sum.case)
  then have "qb_blocking_send q m s = (Inr (), s\<lparr>qb_push := [], qb_sent := qb_sent s @ [(q, m)]\<rparr>)"
    by (simp add: after_def qb_send_def return_def)
  then show ?thesis by (rule that) simp
next
  case (Cons p os)
  then have "p \<noteq> P_full" by (metis (mono_tags) dropWhile_eq_Cons_conv)
  moreover have "set (p # os) \<subseteq> set (qb_push s)" unfolding Cons [symmetric] using set_dropWhileD by fastforce
  ultimately show ?thesis using Cons assms
    by (intro that [of os]) (cases p; auto simp: qb_blocking_send_def after_def change_def qb_send_def return_def)+
qed

lemma blocking_sent_all:
  assumes "P_gone \<notin> set (qb_push s)"
  shows "\<exists>ps. for_each (\<lambda>g. qb_blocking_send (f g) m) gs s =
      (Inr (), s\<lparr>qb_push := ps, qb_sent := qb_sent s @ map (\<lambda>g. (f g, m)) gs\<rparr>) \<and> P_gone \<notin> set ps"
  using assms
proof (induction gs arbitrary: s)
  case Nil
  then show ?case by (intro exI [of _ "qb_push s"]) simp
next
  case (Cons g gs)
  obtain ps where ps: "qb_blocking_send (f g) m s = (Inr (), s\<lparr>qb_push := ps, qb_sent := qb_sent s @ [(f g, m)]\<rparr>)" "P_gone \<notin> set ps"
    using qb_blocking_sent [OF Cons(2)] by blast
  from Cons(1) [of "s\<lparr>qb_push := ps, qb_sent := qb_sent s @ [(f g, m)]\<rparr>"] ps show ?case by (auto simp: after_def)
qed

lemma try_group_cases:
  assumes "P_gone \<notin> set (qb_push s)"
  obtains ps where "try_group m g s = (Inr True, g, s\<lparr>qb_push := ps\<rparr>)" "P_gone \<notin> set ps"
  | ps where "try_group m g s = (Inr False, g, s\<lparr>qb_push := ps, qb_sent := qb_sent s @ [(ph_queue g, Qb_request m)]\<rparr>)" "P_gone \<notin> set ps"
proof (cases "qb_push s")
  case Nil
  then show ?thesis by (intro that(2) [of "[]"]) (simp_all add: try_group_def qb_send_def)
next
  case (Cons p ps)
  with assms show ?thesis
    by (cases p) (auto simp: try_group_def qb_send_def intro: that)
qed

definition sends_to :: "xa_request \<Rightarrow> process_handle list \<Rightarrow> (int \<times> qb_message) list" where
  "sends_to m gs = map (\<lambda>g. (ph_queue g, Qb_request m)) gs"

lemma tried_groups:
  assumes "P_gone \<notin> set (qb_push s)"
  shows "\<exists>A B ss ps. send_from (try_group m) L h M R s = (Inr (A, B), A @ B, s\<lparr>qb_push := ps, qb_sent := qb_sent s @ sends_to m ss\<rparr>) \<and>
    P_gone \<notin> set ps \<and> mset A + mset B = mset L + held h + mset M + mset R \<and> mset B = mset R + held h + mset ss"
  using assms
proof (induction "length M" arbitrary: L h M R s rule: less_induct)
  case less
  show ?case
  proof (cases M)
    case Nil
    then show ?thesis using less(2)
      by (intro exI [of _ L] exI [of _ "(case h of None \<Rightarrow> R | Some x \<Rightarrow> x # R)"] exI [of _ "[]"] exI [of _ "qb_push s"])
        (cases h; simp add: held_def sends_to_def)
  next
    case (Cons y N)
    show ?thesis
    proof (cases h)
      case None
      from less(2) show ?thesis
      proof (cases rule: try_group_cases [of s m y])
        case (1 ps)
        have "length N < length M" "P_gone \<notin> set (qb_push (s\<lparr>qb_push := ps\<rparr>))" using Cons 1 by simp_all
        from less(1) [OF this, of "L @ [y]" None R] 1 None Cons show ?thesis by (fastforce simp: held_def)
      next
        case (2 ps)
        let ?t = "s\<lparr>qb_push := ps, qb_sent := qb_sent s @ [(ph_queue y, Qb_request m)]\<rparr>"
        have "length N < length M" "P_gone \<notin> set (qb_push ?t)" using Cons 2 by simp_all
        from less(1) [OF this, of L "Some y" R] obtain A B ss ps' where
          *: "send_from (try_group m) L (Some y) N R ?t = (Inr (A, B), A @ B, ?t\<lparr>qb_push := ps', qb_sent := qb_sent ?t @ sends_to m ss\<rparr>)"
          "P_gone \<notin> set ps'" "mset A + mset B = mset L + held (Some y) + mset N + mset R" "mset B = mset R + held (Some y) + mset ss"
          by blast
        then show ?thesis using 2 None Cons
          by (intro exI [of _ A] exI [of _ B] exI [of _ "y # ss"] exI [of _ ps']) (simp add: held_def sends_to_def)
      qed
    next
      case (Some x)
      obtain M' z where z: "M = M' @ [z]" unfolding Cons by (metis snoc_of_Cons)
      from less(2) show ?thesis
      proof (cases rule: try_group_cases [of s m z])
        case (1 ps)
        have "length M' < length M" "P_gone \<notin> set (qb_push (s\<lparr>qb_push := ps\<rparr>))" using z 1 by simp_all
        from less(1) [OF this, of "L @ [z]" None "x # R"] obtain A B ss ps' where
          "send_from (try_group m) (L @ [z]) None M' (x # R) (s\<lparr>qb_push := ps\<rparr>) =
            (Inr (A, B), A @ B, s\<lparr>qb_push := ps', qb_sent := qb_sent s @ sends_to m ss\<rparr>)"
          "P_gone \<notin> set ps'" "mset A + mset B = mset (L @ [z]) + held None + mset M' + mset (x # R)"
          "mset B = mset (x # R) + held None + mset ss" by auto
        then show ?thesis using 1 Some unfolding z
          by (intro exI [of _ A] exI [of _ B] exI [of _ ss] exI [of _ ps']) (simp add: held_def send_from_snoc)
      next
        case (2 ps)
        let ?t = "s\<lparr>qb_push := ps, qb_sent := qb_sent s @ [(ph_queue z, Qb_request m)]\<rparr>"
        have "length M' < length M" "P_gone \<notin> set (qb_push ?t)" using z 2 by simp_all
        from less(1) [OF this, of L "Some x" "z # R"] obtain A B ss ps' where
          *: "send_from (try_group m) L (Some x) M' (z # R) ?t = (Inr (A, B), A @ B, ?t\<lparr>qb_push := ps', qb_sent := qb_sent ?t @ sends_to m ss\<rparr>)"
          "P_gone \<notin> set ps'" "mset A + mset B = mset L + held (Some x) + mset M' + mset (z # R)"
          "mset B = mset (z # R) + held (Some x) + mset ss" by blast
        then show ?thesis using 2 Some unfolding z
          by (intro exI [of _ A] exI [of _ B] exI [of _ "z # ss"] exI [of _ ps']) (simp add: held_def sends_to_def send_from_snoc)
      qed
    qed
  qed
qed

lemma groups_asked:
  assumes "P_gone \<notin> set (qb_push s)"
  shows "\<exists>left_over gs ps. send_groups x m groups s = (Inr (), s\<lparr>qb_push := ps, qb_sent := qb_sent s @ sends_to m gs,
      qb_involved := upd_first (same_key x) (\<lambda>(y, _). (y, left_over)) (qb_involved s)\<rparr>) \<and>
    P_gone \<notin> set ps \<and> mset left_over = mset groups \<and> mset gs = mset groups"
proof -
  obtain A B ss ps where a: "send_partition (try_group m) groups s = (Inr (A, B), A @ B, s\<lparr>qb_push := ps, qb_sent := qb_sent s @ sends_to m ss\<rparr>)"
    "P_gone \<notin> set ps" "mset A + mset B = mset groups" "mset B = mset ss"
    using tried_groups [OF assms, of m "[]" None groups "[]"] by (auto simp: send_partition_def held_def)
  let ?t = "s\<lparr>qb_push := ps, qb_sent := qb_sent s @ sends_to m ss, qb_involved := upd_first (same_key x) (\<lambda>(y, _). (y, A @ B)) (qb_involved s)\<rparr>"
  obtain ps' where b: "for_each (\<lambda>g. qb_blocking_send (ph_queue g) (Qb_request m)) A ?t =
      (Inr (), ?t\<lparr>qb_push := ps', qb_sent := qb_sent ?t @ sends_to m A\<rparr>)" "P_gone \<notin> set ps'"
    using blocking_sent_all [of ?t ph_queue "Qb_request m" A] a(2) by (auto simp: sends_to_def)
  have "send_groups x m groups s = (Inr (), s\<lparr>qb_push := ps', qb_sent := qb_sent s @ sends_to m (ss @ A),
      qb_involved := upd_first (same_key x) (\<lambda>(y, _). (y, A @ B)) (qb_involved s)\<rparr>)"
    using a(1) b(1) by (simp add: send_groups_def sends_to_def)
  moreover have "mset (A @ B) = mset groups" "mset (ss @ A) = mset groups" using a(3,4) by (simp_all add: ac_simps)
  ultimately show ?thesis using b(2) by blast
qed

section \<open>Collecting the replies\<close>

definition requests_of :: "(int \<Rightarrow> qb_stage) \<Rightarrow> process_handle list \<Rightarrow> qb_request list" where
  "requests_of st gs = map (\<lambda>g. \<lparr>qr_group = g, qr_stage = st (ph_pid g)\<rparr>) gs"

definition stages :: "xa_reply list \<Rightarrow> (int \<Rightarrow> qb_stage) \<Rightarrow> int \<Rightarrow> qb_stage" where
  "stages rs st = fold (\<lambda>r st. st(ph_pid (xr_process r) := answer_stage r)) rs st"

lemma upd_requests:
  "distinct (map ph_pid gs) \<Longrightarrow>
    upd_first (\<lambda>r. ph_pid (qr_group r) = p) (\<lambda>r. r\<lparr>qr_stage := v\<rparr>) (requests_of st gs) = requests_of (st(p := v)) gs"
proof (induction gs)
  case (Cons g gs)
  then show ?case
  proof (cases "ph_pid g = p")
    case True
    with Cons(2) have "ph_pid h \<noteq> p" if "h \<in> set gs" for h using that by (metis distinct.simps(2) image_eqI list.set_map list.simps(9))
    then have "requests_of (st(p := v)) gs = requests_of st gs" by (simp add: requests_of_def)
    with True show ?thesis by (simp add: requests_of_def)
  next
    case False
    with Cons show ?thesis by (simp add: requests_of_def)
  qed
qed (simp add: requests_of_def)

lemma stages_other: "p \<notin> (\<lambda>r. ph_pid (xr_process r)) ` set rs \<Longrightarrow> stages rs st p = st p"
  by (induction rs arbitrary: st) (auto simp: stages_def)

lemma stages_own:
  "distinct (map (\<lambda>r. ph_pid (xr_process r)) rs) \<Longrightarrow> r \<in> set rs \<Longrightarrow> stages rs st (ph_pid (xr_process r)) = answer_stage r"
proof (induction rs arbitrary: st)
  case (Cons r' rs)
  show ?case
  proof (cases "r = r'")
    case True
    with Cons(2) have "ph_pid (xr_process r) \<notin> (\<lambda>r. ph_pid (xr_process r)) ` set rs" by simp
    from stages_other [OF this] True show ?thesis by (simp add: stages_def)
  next
    case False
    with Cons show ?thesis by (simp add: stages_def)
  qed
qed simp

lemma answer_stage_ends: "answer_stage r \<ge> Q_error" "answer_stage r \<noteq> Q_pending"
  by (simp_all add: answer_stage_def less_eq_qb_stage_def)

lemma least_replied: "\<forall>v\<in>set vs. v \<ge> Q_error \<Longrightarrow> w \<ge> Q_error \<Longrightarrow> fold min vs w = Q_replied \<longleftrightarrow> (\<forall>v\<in>set (w # vs). v = Q_replied)"
proof (induction vs arbitrary: w)
  case (Cons v vs)
  have "v = Q_error \<or> v = Q_replied" "w = Q_error \<or> w = Q_replied"
    using Cons(2,3) by (cases v; cases w; simp add: less_eq_qb_stage_def)+
  moreover have "min v w \<ge> Q_error" using Cons(2,3) by simp
  ultimately show ?case using Cons(1) [of "min v w"] Cons(2) by (auto simp: min_def less_eq_qb_stage_def)
qed simp

text \<open>The correlation of a transaction at the end of the table.\<close>

definition awaits :: "qb_state \<Rightarrow> (trid \<times> qb_correlation) list \<Rightarrow> trid \<Rightarrow> qb_correlation \<Rightarrow> bool" where
  "awaits s cs x c \<longleftrightarrow> qb_correlations s = cs @ [(x, c)] \<and> \<not> list_ex (same_key x) cs"

lemma same_key_trans: "same_trid x y \<Longrightarrow> same_key y e = same_key x e"
  by (cases e) (auto simp: same_key_def intro: same_trid_trans same_trid_sym)

lemma upd_first_last: "\<not> list_ex P xs \<Longrightarrow> P y \<Longrightarrow> upd_first P f (xs @ [y]) = xs @ [f y]"
  and erase_first_last: "\<not> list_ex P xs \<Longrightarrow> P y \<Longrightarrow> erase_first P (xs @ [y]) = xs"
  and find_last: "\<not> list_ex P xs \<Longrightarrow> P y \<Longrightarrow> List.find P (xs @ [y]) = Some y"
  by (induction xs) auto

lemma reply_step:
  assumes "awaits s cs x (c\<lparr>co_requests := requests_of st gs\<rparr>)" "distinct (map ph_pid gs)" "same_trid x (xr_trid r)"
  shows "qb_xa_reply r s =
    (let st' = st(ph_pid (xr_process r) := answer_stage r); c' = c\<lparr>co_requests := requests_of st' gs\<rparr>;
         t = s\<lparr>qb_correlations := cs @ [(x, c')]\<rparr>
     in if correlation_replied c' then
          after (qb_blocking_send (ph_queue (co_caller c')) (final_reply r c' s)) (\<lambda>_.
            change (\<lambda>s. s\<lparr>qb_correlations := erase_first (same_key (xr_trid r)) (qb_correlations s)\<rparr>)) t
        else (Inr (), t))"
proof -
  have k: "same_key (xr_trid r) = same_key x" using same_key_trans [OF assms(3)] by (rule ext)
  have n: "\<not> list_ex (same_key x) cs" "same_key x (x, d)" for d using assms(1) by (simp_all add: awaits_def same_key_def)
  have u: "set_stage (xr_process r) (answer_stage r) (c\<lparr>co_requests := requests_of st gs\<rparr>) =
      c\<lparr>co_requests := requests_of (st(ph_pid (xr_process r) := answer_stage r)) gs\<rparr>"
    using upd_requests [OF assms(2)] by (simp add: set_stage_def)
  have f: "List.find (same_key x) (qb_correlations s) = Some (x, c\<lparr>co_requests := requests_of st gs\<rparr>)"
    and w: "upd_first (same_key x) (\<lambda>(x, _). (x, d)) (qb_correlations s) = cs @ [(x, d)]" for d
    using assms(1) find_last [OF n] upd_first_last [OF n] by (simp_all add: awaits_def)
  show ?thesis
    unfolding qb_xa_reply_def k f u option.case prod.case Let_def after_def change_def w return_def by simp
qed

lemma replied_requests: "correlation_replied (c\<lparr>co_requests := requests_of st gs\<rparr>) \<longleftrightarrow> (\<forall>g\<in>set gs. st (ph_pid g) \<ge> Q_error)"
  by (simp add: correlation_replied_def requests_of_def list_all_iff)

lemma stage_of_requests:
  assumes "gs \<noteq> []" "\<forall>g\<in>set gs. st (ph_pid g) \<ge> Q_error"
  shows "correlation_stage (c\<lparr>co_requests := requests_of st gs\<rparr>) = Q_replied \<longleftrightarrow> (\<forall>g\<in>set gs. st (ph_pid g) = Q_replied)"
proof -
  obtain h hs where gs: "gs = h # hs" using assms(1) by (cases gs) auto
  have "map qr_stage (requests_of st gs) = st (ph_pid h) # map (\<lambda>g. st (ph_pid g)) hs" by (simp add: gs requests_of_def)
  then show ?thesis
    using least_replied [of "map (\<lambda>g. st (ph_pid g)) hs" "st (ph_pid h)"] assms(2) by (simp add: correlation_stage_def gs)
qed

lemma replies_pending:
  assumes "awaits s cs x (c\<lparr>co_requests := requests_of st gs\<rparr>)" "distinct (map ph_pid gs)"
    "\<forall>r\<in>set rs. same_trid x (xr_trid r)" "g \<in> set gs" "st (ph_pid g) = Q_pending"
    "ph_pid g \<notin> (\<lambda>r. ph_pid (xr_process r)) ` set rs"
  shows "for_each qb_xa_reply rs s = (Inr (), s\<lparr>qb_correlations := cs @ [(x, c\<lparr>co_requests := requests_of (stages rs st) gs\<rparr>)]\<rparr>)"
  using assms(1,3,5,6)
proof (induction rs arbitrary: s st)
  case Nil
  then show ?case by (simp add: stages_def awaits_def)
next
  case (Cons r rs)
  let ?st = "st(ph_pid (xr_process r) := answer_stage r)"
  let ?t = "s\<lparr>qb_correlations := cs @ [(x, c\<lparr>co_requests := requests_of ?st gs\<rparr>)]\<rparr>"
  have "?st (ph_pid g) = Q_pending" using Cons(4,5) by auto
  then have "\<not> correlation_replied (c\<lparr>co_requests := requests_of ?st gs\<rparr>)"
    using assms(4) unfolding replied_requests by (metis less_eq_qb_stage_def qb_stage_rank.simps(2,3) Suc_1 Suc_n_not_le_n One_nat_def)
  then have "qb_xa_reply r s = (Inr (), ?t)"
    using reply_step [OF Cons(2) assms(2)] Cons(3) by (simp add: Let_def)
  then have "for_each qb_xa_reply (r # rs) s = for_each qb_xa_reply rs ?t" by (simp add: after_def)
  moreover have "awaits ?t cs x (c\<lparr>co_requests := requests_of ?st gs\<rparr>)" using Cons(2) by (simp add: awaits_def)
  have "for_each qb_xa_reply rs ?t = (Inr (), ?t\<lparr>qb_correlations := cs @ [(x, c\<lparr>co_requests := requests_of (stages rs ?st) gs\<rparr>)]\<rparr>)"
    using Cons(3,5) by (intro Cons(1)) (simp_all add: \<open>awaits ?t cs x _\<close> \<open>?st (ph_pid g) = Q_pending\<close> del: fun_upd_apply)
  moreover have "stages (r # rs) st = stages rs ?st" by (simp add: stages_def)
  ultimately show ?case by (simp only:) simp
qed

lemma last_reply:
  assumes "awaits s cs x (c\<lparr>co_requests := requests_of st gs\<rparr>)" "distinct (map ph_pid gs)" "same_trid x (xr_trid r)"
    "\<forall>g\<in>set gs. (st(ph_pid (xr_process r) := answer_stage r)) (ph_pid g) \<ge> Q_error" "gs \<noteq> []" "P_gone \<notin> set (qb_push s)"
  shows "\<exists>ps. qb_xa_reply r s = (Inr (), s\<lparr>qb_correlations := cs, qb_push := ps,
    qb_sent := qb_sent s @ [(ph_queue (co_caller c), Qb_reply (r\<lparr>xr_process := qb_self s, xr_correlation := co_reply_correlation c,
      xr_state := (if \<forall>g\<in>set gs. (st(ph_pid (xr_process r) := answer_stage r)) (ph_pid g) = Q_replied then XA_OK else XAER_RMFAIL)\<rparr>))]\<rparr>)"
proof -
  let ?st = "st(ph_pid (xr_process r) := answer_stage r)"
  let ?c = "c\<lparr>co_requests := requests_of ?st gs\<rparr>"
  let ?t = "s\<lparr>qb_correlations := cs @ [(x, ?c)]\<rparr>"
  have k: "same_key (xr_trid r) = same_key x" using same_key_trans [OF assms(3)] by (rule ext)
  have "\<not> list_ex (same_key x) cs" "same_key x (x, ?c)" using assms(1) by (simp_all add: awaits_def same_key_def)
  note e = erase_first_last [OF this]
  have "P_gone \<notin> set (qb_push ?t)" using assms(6) by simp
  then obtain ps where ps: "qb_blocking_send (ph_queue (co_caller c)) (final_reply r ?c s) ?t =
      (Inr (), ?t\<lparr>qb_push := ps, qb_sent := qb_sent ?t @ [(ph_queue (co_caller c), final_reply r ?c s)]\<rparr>)"
    by (rule qb_blocking_sent)
  have "correlation_replied ?c" using assms(4) unfolding replied_requests .
  then have "qb_xa_reply r s = (Inr (), s\<lparr>qb_correlations := cs, qb_push := ps,
      qb_sent := qb_sent s @ [(ph_queue (co_caller c), final_reply r ?c s)]\<rparr>)"
    using reply_step [OF assms(1-3)] ps e by (simp add: Let_def after_def change_def k)
  then show ?thesis using stage_of_requests [OF assms(5,4), of c] by (simp add: final_reply_def) blast
qed

lemma for_each_append: "for_each f (xs @ ys) s = after (for_each f xs) (\<lambda>_. for_each f ys) s"
proof (induction xs arbitrary: s)
  case (Cons x xs)
  show ?case by (cases "f x s"; cases "fst (f x s)") (simp_all add: after_def Cons)
qed (simp add: after_def)

text \<open>
  The answers of all groups, one after the other: nothing is sent before the last of them.
\<close>

lemma all_replies:
  assumes "awaits s cs x (c\<lparr>co_requests := requests_of (\<lambda>_. Q_pending) gs\<rparr>)" "P_gone \<notin> set (qb_push s)" "gs \<noteq> []"
    "distinct (map ph_pid gs)" "\<forall>r\<in>set rs. same_trid x (xr_trid r)"
    "mset (map (\<lambda>r. ph_pid (xr_process r)) rs) = mset (map ph_pid gs)"
  shows "n < length rs \<Longrightarrow> qb_sent (snd (for_each qb_xa_reply (take n rs) s)) = qb_sent s"
    and "\<exists>t. for_each qb_xa_reply rs s = (Inr (), t) \<and> qb_correlations t = cs \<and>
      qb_sent t = qb_sent s @ [(ph_queue (co_caller c), Qb_reply ((last rs)\<lparr>xr_process := qb_self s,
        xr_correlation := co_reply_correlation c, xr_state := (if \<forall>r\<in>set rs. xr_state r = XA_OK then XA_OK else XAER_RMFAIL)\<rparr>))]"
proof -
  let ?pid = "\<lambda>r. ph_pid (xr_process r)"
  have d: "distinct (map ?pid rs)" using assms(4,6) mset_eq_imp_distinct_iff by blast
  have set: "?pid ` set rs = ph_pid ` set gs" using mset_eq_setD [OF assms(6)] by simp
  have pending: "for_each qb_xa_reply (take n rs) s =
      (Inr (), s\<lparr>qb_correlations := cs @ [(x, c\<lparr>co_requests := requests_of (stages (take n rs) (\<lambda>_. Q_pending)) gs\<rparr>)]\<rparr>)"
    if n: "n < length rs" for n
  proof -
    have "rs ! n \<in> set rs" using n by simp
    then obtain g where g: "g \<in> set gs" "ph_pid g = ?pid (rs ! n)" using set by (metis imageE image_eqI)
    have "?pid (rs ! n) \<notin> ?pid ` set (take n rs)"
    proof
      assume "?pid (rs ! n) \<in> ?pid ` set (take n rs)"
      then obtain k where "k < n" "map ?pid rs ! k = map ?pid rs ! n" using n by (auto simp: in_set_conv_nth)
      with d n show False by (simp add: nth_eq_iff_index_eq distinct_conv_nth)
    qed
    with g show ?thesis
      using assms(5) in_set_takeD [of _ n rs] by (intro replies_pending [OF assms(1,4) _ g(1)]) auto
  qed
  then show "qb_sent (snd (for_each qb_xa_reply (take n rs) s)) = qb_sent s" if "n < length rs" using that by simp
  have "rs \<noteq> []" using assms(3,6) by auto
  then obtain rs' r where rs: "rs = rs' @ [r]" by (metis append_butlast_last_id)
  let ?s = "s\<lparr>qb_correlations := cs @ [(x, c\<lparr>co_requests := requests_of (stages rs' (\<lambda>_. Q_pending)) gs\<rparr>)]\<rparr>"
  have before_last: "for_each qb_xa_reply rs' s = (Inr (), ?s)" using pending [of "length rs'"] by (simp add: rs)
  let ?st = "(stages rs' (\<lambda>_. Q_pending))(?pid r := answer_stage r)"
  have st: "?st = stages rs (\<lambda>_. Q_pending)" by (simp add: rs stages_def)
  have own: "stages rs (\<lambda>_. Q_pending) (?pid q) = answer_stage q" if "q \<in> set rs" for q using stages_own [OF d that] .
  have ended: "\<forall>g\<in>set gs. ?st (ph_pid g) \<ge> Q_error"
  proof
    fix g assume "g \<in> set gs"
    then have "ph_pid g \<in> ?pid ` set rs" unfolding set by simp
    then obtain q where "q \<in> set rs" "ph_pid g = ?pid q" by blast
    then show "?st (ph_pid g) \<ge> Q_error" unfolding st using own answer_stage_ends(1) by simp
  qed
  have all: "(\<forall>g\<in>set gs. ?st (ph_pid g) = Q_replied) \<longleftrightarrow> (\<forall>q\<in>set rs. xr_state q = XA_OK)"
  proof -
    have "(\<forall>g\<in>set gs. ?st (ph_pid g) = Q_replied) \<longleftrightarrow> (\<forall>p\<in>?pid ` set rs. stages rs (\<lambda>_. Q_pending) p = Q_replied)"
      unfolding st set by simp
    also have "\<dots> \<longleftrightarrow> (\<forall>q\<in>set rs. answer_stage q = Q_replied)" using own by simp
    finally show ?thesis by (simp add: answer_stage_def)
  qed
  have "awaits ?s cs x (c\<lparr>co_requests := requests_of (stages rs' (\<lambda>_. Q_pending)) gs\<rparr>)" using assms(1) by (simp add: awaits_def)
  from last_reply [OF this assms(4) _ ended assms(3)] assms(2,5) obtain ps where
    "qb_xa_reply r ?s = (Inr (), ?s\<lparr>qb_correlations := cs, qb_push := ps, qb_sent := qb_sent s @
      [(ph_queue (co_caller c), Qb_reply (r\<lparr>xr_process := qb_self s, xr_correlation := co_reply_correlation c,
        xr_state := (if \<forall>q\<in>set rs. xr_state q = XA_OK then XA_OK else XAER_RMFAIL)\<rparr>))]\<rparr>)"
    unfolding all by (auto simp: rs)
  then show "\<exists>t. for_each qb_xa_reply rs s = (Inr (), t) \<and> qb_correlations t = cs \<and>
      qb_sent t = qb_sent s @ [(ph_queue (co_caller c), Qb_reply ((last rs)\<lparr>xr_process := qb_self s,
        xr_correlation := co_reply_correlation c, xr_state := (if \<forall>r\<in>set rs. xr_state r = XA_OK then XA_OK else XAER_RMFAIL)\<rparr>))]"
    using before_last unfolding rs for_each_append by (simp add: after_def)
qed

lemma request_correlates:
  assumes "List.find (same_key (xq_trid m)) (qb_involved s) = Some (x, groups)" "\<not> list_ex (same_key x) (qb_correlations s)"
    "P_gone \<notin> set (qb_push s)"
  shows "\<exists>left_over gs s1. qb_xa_request m s = (Inr (), s1) \<and> mset left_over = mset groups \<and> mset gs = mset groups \<and>
    P_gone \<notin> set (qb_push s1) \<and> qb_self s1 = qb_self s \<and>
    qb_sent s1 = qb_sent s @ sends_to (m\<lparr>xq_process := qb_self s\<rparr>) gs \<and>
    awaits s1 (qb_correlations s) x (\<lparr>co_caller = xq_process m, co_reply_correlation = xq_correlation m,
      co_requests = requests_of (\<lambda>_. Q_pending) left_over\<rparr>)"
proof -
  let ?m = "m\<lparr>xq_process := qb_self s\<rparr>"
  obtain left_over gs ps where a: "send_groups (xq_trid m) ?m groups s = (Inr (), s\<lparr>qb_push := ps,
      qb_sent := qb_sent s @ sends_to ?m gs, qb_involved := upd_first (same_key (xq_trid m)) (\<lambda>(y, _). (y, left_over)) (qb_involved s)\<rparr>)"
    "P_gone \<notin> set ps" "mset left_over = mset groups" "mset gs = mset groups"
    using groups_asked [OF assms(3)] by blast
  let ?u = "s\<lparr>qb_push := ps, qb_sent := qb_sent s @ sends_to ?m gs,
      qb_involved := upd_first (same_key (xq_trid m)) (\<lambda>(y, _). (y, left_over)) (qb_involved s)\<rparr>"
  have "List.find (same_key (xq_trid m)) (upd_first (same_key (xq_trid m)) (\<lambda>(y, _). (y, left_over)) (qb_involved s)) =
      map_option (\<lambda>(y, _). (y, left_over)) (List.find (same_key (xq_trid m)) (qb_involved s))"
    by (rule find_upd_first) (auto simp: same_key_def)
  then have "qb_correlations (correlate m ?u) = qb_correlations s @ [(x, \<lparr>co_caller = xq_process m, co_reply_correlation = xq_correlation m,
      co_requests = requests_of (\<lambda>_. Q_pending) left_over\<rparr>)]"
    using assms(1,2) by (simp add: correlate_def requests_of_def)
  moreover have "qb_push (correlate m ?u) = ps" "qb_sent (correlate m ?u) = qb_sent s @ sends_to ?m gs" "qb_self (correlate m ?u) = qb_self s"
    by (simp_all add: correlate_def split: option.split)
  moreover have "qb_xa_request m s = (Inr (), correlate m ?u)"
    using assms(1) a(1) by (simp add: qb_xa_request_def catch_def after_def change_def)
  ultimately show ?thesis
    using a(2-4) assms(2) by (intro exI [of _ left_over] exI [of _ gs] exI [of _ "correlate m ?u"]) (simp add: awaits_def)
qed


definition example_xid :: "byte list \<Rightarrow> trid" where
  "example_xid g = \<lparr>t_xid = \<lparr>formatID = 42, gtrid_length = 16, bqual_length = 16, xid_data = g @ replicate 112 0\<rparr>, t_owner = no_process\<rparr>"

definition queue_process :: "int \<Rightarrow> process_handle" where
  "queue_process pid = \<lparr>ph_pid = pid, ph_queue = pid + 100\<rparr>"

definition example_qb :: "group_push list \<Rightarrow> qb_state" where
  "example_qb pushes = \<lparr>qb_groups = [], qb_queues = Map.empty, qb_involved = [(example_xid (replicate 16 1), [queue_process 3, queue_process 4])],
     qb_correlations = [], qb_self = queue_process 1, qb_sent = [], qb_push = pushes\<rparr>"

definition example_commit :: xa_request where
  "example_commit = \<lparr>xq_kind = K_commit, xq_correlation = 9, xq_process = queue_process 2, xq_trid = example_xid (replicate 16 1),
     xq_resource = 5, xq_flags = 0\<rparr>"

definition example_reply :: "int \<Rightarrow> int \<Rightarrow> xa_reply" where
  "example_reply pid code = \<lparr>xr_kind = K_commit, xr_correlation = 9, xr_process = queue_process pid, xr_trid = example_xid (replicate 16 1),
     xr_resource = 5, xr_state = code\<rparr>"


text \<open>
  When the last group that has not answered dies, its request is marked as an error and all have answered; but only an
  answer sends the reply, so the resource proxy waits forever.
\<close>

lemma death_leaves_the_caller_waiting:
  "case qb_pump [Qe_request example_commit, Qe_reply (example_reply 3 XA_OK), Qe_exit 4] (example_qb []) of
     (r, s) \<Rightarrow> r = Inr () \<and> length (qb_sent s) = 2 \<and> map (\<lambda>(_, c). correlation_replied c) (qb_correlations s) = [True]"
  by (simp add: qb_pump_def qb_handle_def after_def change_def qb_xa_request_def catch_def example_qb_def example_commit_def same_key_def
      send_groups_def send_partition_def try_group_def qb_send_def correlate_def qb_xa_reply_def example_reply_def set_stage_def
      queue_process_def Let_def correlation_replied_def answer_stage_def less_eq_qb_stage_def return_def qb_exit_def)

text \<open>
  When one of the groups is gone the request fails, although another group has got it already.
\<close>

lemma failed_commit_reaches_some:
  "case qb_pump [Qe_request example_commit] (example_qb [P_sent, P_gone]) of
     (r, s) \<Rightarrow> r = Inr () \<and> map fst (qb_sent s) = [103, 102] \<and> qb_correlations s = []"
  by (simp add: qb_pump_def qb_handle_def after_def change_def qb_xa_request_def catch_def example_qb_def example_commit_def same_key_def
      send_groups_def send_partition_def try_group_def qb_send_def queue_process_def Let_def send_error_def qb_blocking_send_def
      error_reply_def return_def)

text \<open>A process that is no group of the configuration and connects during the start keeps the broker from starting.\<close>

lemma stranger_blocks_the_start:
  "fst (qb_startup \<lparr>qd_default = \<lparr>cq_name = [], cq_retries = []\<rparr>, qd_groups = []\<rparr> [] []
     (qb_connect (queue_process 7) [] (example_qb []))) = Inl W_no_message"
  by (simp add: qb_startup_def after_def qb_connect_def example_qb_def)

section \<open>Valid configurations\<close>

lemma length_unique_with: "length (unique_with R xs) \<le> length xs"
  by (induction R xs rule: unique_with.induct) auto

lemma unique_with_all: "length (unique_with R xs) = length xs \<Longrightarrow> successively (\<lambda>x y. \<not> R x y) xs"
proof (induction R xs rule: unique_with.induct)
  case (3 R x y xs)
  show ?case
  proof (cases "R x y")
    case True
    with 3(3) length_unique_with [of R "x # xs"] show ?thesis by simp
  next
    case False
    with 3 show ?thesis by simp
  qed
qed auto

lemma length_unique_by: "length (unique_by f xs) \<le> length xs"
  by (induction f xs rule: unique_by.induct) auto

lemma unique_by_all: "length (unique_by f xs) = length xs \<Longrightarrow> unique_by f xs = xs"
proof (induction f xs rule: unique_by.induct)
  case (3 f x y xs)
  show ?case
  proof (cases "f x = f y")
    case True
    with 3(3) length_unique_by [of f "x # xs"] show ?thesis by simp
  next
    case False
    with 3 show ?thesis by simp
  qed
qed auto

lemma sorted_successively_distinct:
  "sorted (map f xs) \<Longrightarrow> successively (\<lambda>x y. f x \<noteq> f y) xs \<Longrightarrow> distinct (map f xs)"
  for f :: "'a \<Rightarrow> 'b :: linorder"
proof (induction xs rule: induct_list012)
  case (3 x y xs)
  then have "f x < f y" by auto
  moreover have "f y \<le> f z" if "z \<in> set (y # xs)" for z using 3(3) that by auto
  ultimately have "f x \<noteq> f z" if "z \<in> set (y # xs)" for z using that by fastforce
  with 3 show ?case by auto
qed auto

lemma mset_concat_map: "mset (concat (map f xs)) = (\<Sum>x\<in>#mset xs. mset (f x))"
  by (induction xs) auto

text \<open>
  A queue configuration that is valid has different names for all its queues, in whatever groups they are, and for
  all its groups, so that a lookup by name is not ambiguous.
\<close>

lemma valid_queues_are_unique:
  assumes "validate d"
  shows "distinct (map cq_name (concat (map qg_queues (qd_groups d)))) \<and> distinct (map qg_name (qd_groups d))"
proof
  let ?gs = "sort_key group_sort_key (qd_groups d)"
  let ?qs = "concat (map qg_queues ?gs)"
  have m: "mset ?gs = mset (qd_groups d)" by simp
  have "length (unique_by cq_name (sort_key cq_name ?qs)) = length (sort_key cq_name ?qs)"
    using assms by (simp add: validate_def Let_def)
  then have "distinct (map cq_name (sort_key cq_name ?qs))"
    using unique_by_all [of cq_name "sort_key cq_name ?qs"] unique_by_distinct [of cq_name "sort_key cq_name ?qs"] by simp
  moreover have "mset (map cq_name (sort_key cq_name ?qs)) = mset (map cq_name (concat (map qg_queues (qd_groups d))))"
  proof -
    have "mset ?qs = mset (concat (map qg_queues (qd_groups d)))" unfolding mset_concat_map m ..
    then show ?thesis by simp
  qed
  ultimately show "distinct (map cq_name (concat (map qg_queues (qd_groups d))))" using mset_eq_imp_distinct_iff by blast
  have "successively (\<lambda>x y. \<not> group_equal x y) ?gs"
    using assms by (intro unique_with_all) (simp add: validate_def Let_def)
  then have "successively (\<lambda>x y. qg_name x \<noteq> qg_name y) ?gs"
    by (rule successively_mono) (simp add: group_equal_def)
  moreover have "sorted (map qg_name ?gs)"
  proof -
    have "sorted (map group_sort_key ?gs)" by simp
    then show ?thesis unfolding sorted_map
      by (rule sorted_wrt_mono_rel [rotated]) (auto simp: group_sort_key_def less_eq_prod_def)
  qed
  ultimately have "distinct (map qg_name ?gs)" by (intro sorted_successively_distinct)
  moreover have "mset (map qg_name ?gs) = mset (map qg_name (qd_groups d))" using m by (metis mset_map)
  ultimately show "distinct (map qg_name (qd_groups d))" using mset_eq_imp_distinct_iff by blast
qed

definition one_queue :: "string \<Rightarrow> string \<Rightarrow> string \<Rightarrow> cf_queue_group" where
  "one_queue name base queue = \<lparr>qg_name = name, qg_queuebase = base, qg_queues = [\<lparr>cq_name = queue, cq_retries = ''3''\<rparr>]\<rparr>"

definition queue_domain :: "cf_queue_group list \<Rightarrow> cf_queue_domain" where
  "queue_domain gs = \<lparr>qd_default = \<lparr>cq_name = [], cq_retries = []\<rparr>, qd_groups = gs\<rparr>"

text \<open>
  That no two groups have the same queue base is not checked: only neighbours in the order of the names are compared.
\<close>

lemma shared_queuebase_is_valid: "validate (queue_domain [one_queue ''a'' ''x.db'' ''q1'', one_queue ''b'' ''y.db'' ''q2'', one_queue ''c'' ''x.db'' ''q3''])"
  by code_simp

lemma neighbours_are_compared: "validate (queue_domain [one_queue ''a'' ''x.db'' ''q1'', one_queue ''b'' ''x.db'' ''q2'']) = False"
  by code_simp

lemma valid_queues_are_unique_witness:
  "distinct (map cq_name (concat (map qg_queues (qd_groups (queue_domain [one_queue ''b'' ''x.db'' ''q2'', one_queue ''a'' ''y.db'' ''q1''])))))"
proof -
  have "validate (queue_domain [one_queue ''b'' ''x.db'' ''q2'', one_queue ''a'' ''y.db'' ''q1''])" by code_simp
  from valid_queues_are_unique [OF this] show ?thesis by (rule conjunct1)
qed

end
