(* ===== verification/Broker_State.thy ===== *)
theory Broker_State
  imports Algorithm Effects Xid "HOL-Library.Char_ord" "HOL-Library.List_Lexorder" "HOL-Library.Product_Lexorder"
begin

text \<open>
  The state of the broker (\<open>broker/state.h\<close>, \<open>broker/source/state.cpp\<close>): the servers and other
  executables of the domain, the running instances of the servers, and the services they advertise. An
  instance and the services it has refer to each other; here the references are the keys of the maps,
  the pid of an instance and the name of a service.
\<close>

section \<open>Data\<close>

record resource =
  rs_id :: nat
  rs_instances :: nat
  rs_key :: string
  rs_openinfo :: string
  rs_closeinfo :: string

record domain_group =
  gr_id :: nat
  gr_name :: string
  gr_note :: string
  gr_resources :: "resource list"
  gr_dependencies :: "nat list"

record executable =
  ex_id :: nat
  ex_alias :: string
  ex_path :: string
  ex_arguments :: "string list"
  ex_note :: string
  ex_instances :: "int list"
  ex_memberships :: "nat list"
  ex_variables :: "string list"
  ex_configured :: nat
  ex_restart :: bool
  ex_deaths :: nat

record server = executable +
  se_restrictions :: "string list"
  se_invoked :: nat

datatype server_state = V_booted | V_idle | V_busy | V_shutdown

record server_instance =
  bi_process :: process_handle
  bi_invoked :: nat
  bi_last :: int
  bi_server :: nat
  bi_services :: "string list"
  bi_state :: server_state

text \<open>\<open>message::Service\<close>; the timeout in microseconds.\<close>

record service_info =
  si_name :: string
  si_type :: nat
  si_timeout :: int
  si_monitors :: "int list"
  si_transaction :: nat

definition cCasualAdmin :: nat where "cCasualAdmin = 10"

record service =
  sv_information :: service_info
  sv_lookedup :: nat
  sv_instances :: "int list"

text \<open>Requests that the broker keeps, and the messages it sends.\<close>

datatype lookup_context = Regular | No_reply | Forward

record lookup_request =
  lr_correlation :: uuid
  lr_requested :: string
  lr_process :: process_handle
  lr_context :: lookup_context

datatype lookup_state = L_absent | L_busy | L_idle

datatype lookup_directive = D_wait | D_direct

record process_lookup =
  pl_correlation :: uuid
  pl_process :: process_handle
  pl_identification :: uuid
  pl_directive :: lookup_directive

datatype exit_reason = X_core | X_exited | X_stopped | X_continued | X_signaled | X_unknown

record process_exit =
  px_pid :: int
  px_status :: int
  px_reason :: exit_reason

definition deceased :: "process_exit \<Rightarrow> bool" where
  "deceased x \<longleftrightarrow> px_reason x = X_core \<or> px_reason x = X_exited \<or> px_reason x = X_signaled"

datatype directive = Start | Singleton | Shutdown

datatype broker_message =
    Server_connect_reply uuid directive
  | Traffic_connect_reply uuid directive
  | Tm_connect_reply uuid directive
  | Tm_configuration uuid string "resource list"
  | Client_connect_reply uuid directive "resource list" string
  | Forward_connect_reply uuid directive
  | Death_event process_exit
  | Process_reply uuid uuid process_handle string
  | Lookup_reply uuid service_info process_handle lookup_state
  | Shutdown_request
  | Call_reply uuid int
  | Ping_reply uuid process_handle

datatype send_task = All_targets | First_target

record waiting_message =
  wm_targets :: "int list"
  wm_message :: broker_message
  wm_task :: send_task

datatype broker_mode = M_boot | M_running | M_shutdown

datatype broker_outcome = B_sent | B_full | B_gone

text \<open>
  The state. The servers and executables are listed in the order in which the hash map that holds them
  is traversed; nothing that is proved depends on it. \<open>singeltons\<close> is ordered by its key. The last
  fields are the surroundings: the broker's own process and the domain's name, what was sent, what the next
  sends meet, the clock, the result of the next starts of a process, the processes started and terminated,
  the next value of the counter of executables.
\<close>

record broker_state =
  bs_servers :: "server list"
  bs_instances :: "int \<rightharpoonup> server_instance"
  bs_services :: "string \<rightharpoonup> service"
  bs_executables :: "executable list"
  bs_groups :: "domain_group list"
  bs_casual_group :: nat
  bs_singeltons :: "(uuid \<times> process_handle) list"
  bs_requests :: "lookup_request list"
  bs_replies :: "waiting_message list"
  bs_process_lookup :: "process_lookup list"
  bs_standard_timeout :: int
  bs_environment :: "string list"
  bs_monitors :: "int list"
  bs_transaction_manager :: int
  bs_forward :: process_handle
  bs_listeners :: "process_handle list"
  bs_mode :: broker_mode
  bs_self :: process_handle
  bs_path :: string
  bs_domain :: string
  bs_sent :: "(int \<times> broker_message) list"
  bs_push :: "broker_outcome list"
  bs_clock :: "int list"
  bs_spawns :: "int option list"
  bs_spawned :: "(string \<times> string list \<times> string list) list"
  bs_terminated :: "int list"
  bs_next_id :: nat

datatype broker_exn = B_missing | B_unavailable | B_invalid_argument | B_terminate | B_shutdown

type_synonym 'a broker = "(broker_state, broker_exn, 'a) effect"

section \<open>Lookup\<close>

text \<open>\<open>local::get\<close> and its like: what is not found is \<open>exception::Missing\<close>.\<close>

definition present :: "(broker_state \<Rightarrow> 'a option) \<Rightarrow> 'a broker" where
  "present f s = (case f s of None \<Rightarrow> (Inl B_missing, s) | Some x \<Rightarrow> (Inr x, s))"

definition has_id :: "nat \<Rightarrow> 'a executable_scheme \<Rightarrow> bool" where
  "has_id i e \<longleftrightarrow> ex_id e = i"

definition get_server_instance :: "int \<Rightarrow> server_instance broker" where
  "get_server_instance pid = present (\<lambda>s. bs_instances s pid)"

definition get_service :: "string \<Rightarrow> service broker" where
  "get_service name = present (\<lambda>s. bs_services s name)"

definition get_server :: "nat \<Rightarrow> server broker" where
  "get_server i = present (\<lambda>s. List.find (has_id i) (bs_servers s))"

definition get_executable :: "nat \<Rightarrow> executable broker" where
  "get_executable i = present (\<lambda>s. List.find (has_id i) (bs_executables s))"

definition get_group :: "nat \<Rightarrow> domain_group broker" where
  "get_group i = present (\<lambda>s. List.find (\<lambda>g. gr_id g = i) (bs_groups s))"

text \<open>Writing through a reference into one of the maps.\<close>

definition on_server_instance :: "int \<Rightarrow> (server_instance \<Rightarrow> server_instance) \<Rightarrow> broker_state \<Rightarrow> broker_state" where
  "on_server_instance pid f s = s\<lparr>bs_instances := (bs_instances s)(pid := map_option f (bs_instances s pid))\<rparr>"

definition on_service :: "string \<Rightarrow> (service \<Rightarrow> service) \<Rightarrow> broker_state \<Rightarrow> broker_state" where
  "on_service name f s = s\<lparr>bs_services := (bs_services s)(name := map_option f (bs_services s name))\<rparr>"

definition on_server :: "nat \<Rightarrow> (server \<Rightarrow> server) \<Rightarrow> broker_state \<Rightarrow> broker_state" where
  "on_server i f s = s\<lparr>bs_servers := upd_first (has_id i) f (bs_servers s)\<rparr>"

definition broker_now :: "int broker" where
  "broker_now s = (case bs_clock s of [] \<Rightarrow> (Inr 0, s) | t # ts \<Rightarrow> (Inr t, s\<lparr>bs_clock := ts\<rparr>))"

definition alter_state :: "int \<Rightarrow> server_state \<Rightarrow> unit broker" where
  "alter_state pid v = after broker_now (\<lambda>now.
     change (on_server_instance pid (\<lambda>i. i\<lparr>bi_state := v, bi_last := now\<rparr>)))"

section \<open>Advertised services\<close>

definition name_of :: "service \<Rightarrow> string" where
  "name_of s = si_name (sv_information s)"

text \<open>A service that is new gets the timeout of the domain's standard service, an administration service none.\<close>

definition new_service :: "int \<Rightarrow> service \<Rightarrow> service" where
  "new_service standard v = v\<lparr>sv_information := (sv_information v)\<lparr>si_timeout :=
     (if si_type (sv_information v) = cCasualAdmin then 0 else standard)\<rparr>\<rparr>"

definition add_service :: "int \<Rightarrow> service \<Rightarrow> broker_state \<Rightarrow> broker_state" where
  "add_service pid v s =
     (let name = name_of v;
          entry = (case bs_services s name of Some w \<Rightarrow> w | None \<Rightarrow> new_service (bs_standard_timeout s) v)
      in on_server_instance pid (\<lambda>i. i\<lparr>bi_services := insert_unique name (bi_services i)\<rparr>)
           (s\<lparr>bs_services := (bs_services s)(name \<mapsto> entry\<lparr>sv_instances := insert_unique pid (sv_instances entry)\<rparr>)\<rparr>))"

definition allowed :: "server \<Rightarrow> service \<Rightarrow> bool" where
  "allowed e v \<longleftrightarrow> se_restrictions e = [] \<or> list_ex (\<lambda>name. name_of v = name) (se_restrictions e)"

definition add_services :: "int \<Rightarrow> service list \<Rightarrow> unit broker" where
  "add_services pid vs = after (get_server_instance pid) (\<lambda>i. after (get_server (bi_server i)) (\<lambda>e.
     for_each (\<lambda>v. change (add_service pid v)) (filter (allowed e) vs)))"

definition service_remove :: "int \<Rightarrow> service \<Rightarrow> service" where
  "service_remove pid v = v\<lparr>sv_instances := erase_first (\<lambda>p. p = pid) (sv_instances v)\<rparr>"

definition instance_remove :: "string \<Rightarrow> server_instance \<Rightarrow> server_instance" where
  "instance_remove name i = i\<lparr>bi_services := erase_first (\<lambda>n. n = name) (bi_services i)\<rparr>"

definition remove_service :: "int \<Rightarrow> service \<Rightarrow> broker_state \<Rightarrow> broker_state" where
  "remove_service pid v s =
     on_service (name_of v) (service_remove pid) (on_server_instance pid (instance_remove (name_of v)) s)"

definition remove_services :: "int \<Rightarrow> service list \<Rightarrow> unit broker" where
  "remove_services pid vs = after (get_server_instance pid) (\<lambda>_. for_each (\<lambda>v. change (remove_service pid v)) vs)"

section \<open>Processes\<close>

definition executable_remove :: "int \<Rightarrow> 'a executable_scheme \<Rightarrow> 'a executable_scheme" where
  "executable_remove pid e = e\<lparr>ex_instances := erase_first (\<lambda>p. p = pid) (ex_instances e)\<rparr>"

definition erase_singelton :: "int \<Rightarrow> broker_state \<Rightarrow> broker_state" where
  "erase_singelton pid s = s\<lparr>bs_singeltons := erase_first (\<lambda>v. ph_pid (snd v) = pid) (bs_singeltons s)\<rparr>"

definition leave_service :: "int \<Rightarrow> string \<Rightarrow> unit broker" where
  "leave_service pid name = after (get_service name) (\<lambda>_. change (on_service name (service_remove pid)))"

definition remove_process :: "int \<Rightarrow> unit broker" where
  "remove_process pid s =
     (case bs_instances s pid of
        Some i \<Rightarrow>
          after (for_each (leave_service pid) (bi_services i)) (\<lambda>_.
          after (get_server (bi_server i)) (\<lambda>_.
          after (change (on_server (bi_server i) (\<lambda>e. (executable_remove pid e)\<lparr>se_invoked := se_invoked e + bi_invoked i\<rparr>))) (\<lambda>_.
          after (change (\<lambda>s. s\<lparr>bs_instances := (bs_instances s)(pid := None)\<rparr>)) (\<lambda>_.
          change (erase_singelton pid))))) s
      | None \<Rightarrow>
          if list_ex (\<lambda>e. pid \<in> set (ex_instances e)) (bs_executables s) then
            (Inr (), s\<lparr>bs_executables := upd_first (\<lambda>e. pid \<in> set (ex_instances e)) (executable_remove pid) (bs_executables s)\<rparr>)
          else (Inr (), erase_singelton pid s))"

definition started_instance :: "nat \<Rightarrow> int \<Rightarrow> int \<Rightarrow> server_instance" where
  "started_instance i pid now = \<lparr>bi_process = \<lparr>ph_pid = pid, ph_queue = 0\<rparr>, bi_invoked = 0, bi_last = now,
     bi_server = i, bi_services = [], bi_state = V_booted\<rparr>"

definition emplace_instance :: "server_instance \<Rightarrow> broker_state \<Rightarrow> broker_state" where
  "emplace_instance i s = (let pid = ph_pid (bi_process i) in
     s\<lparr>bs_instances := (case bs_instances s pid of None \<Rightarrow> (bs_instances s)(pid \<mapsto> i) | Some _ \<Rightarrow> bs_instances s)\<rparr>)"

definition with_instances :: "int list \<Rightarrow> 'a executable_scheme \<Rightarrow> 'a executable_scheme" where
  "with_instances pids e = e\<lparr>ex_instances := unique_by (\<lambda>p. p) (sort (ex_instances e @ pids))\<rparr>"

definition add_instances :: "nat \<Rightarrow> int list \<Rightarrow> unit broker" where
  "add_instances i pids s =
     (case List.find (has_id i) (bs_servers s) of
        Some _ \<Rightarrow>
          after (for_each (\<lambda>pid. after broker_now (\<lambda>now. change (emplace_instance (started_instance i pid now)))) pids) (\<lambda>_.
            change (on_server i (with_instances pids))) s
      | None \<Rightarrow>
          after (get_executable i) (\<lambda>_. change (\<lambda>s.
            s\<lparr>bs_executables := upd_first (has_id i) (with_instances pids) (bs_executables s)\<rparr>)) s)"

definition add_server :: "server \<Rightarrow> broker_state \<Rightarrow> broker_state" where
  "add_server e s = (if list_ex (has_id (ex_id e)) (bs_servers s) then s else s\<lparr>bs_servers := bs_servers s @ [e]\<rparr>)"

definition add_executable :: "executable \<Rightarrow> broker_state \<Rightarrow> broker_state" where
  "add_executable e s =
     (if list_ex (has_id (ex_id e)) (bs_executables s) then s else s\<lparr>bs_executables := bs_executables s @ [e]\<rparr>)"

definition state_processes :: "broker_state \<Rightarrow> int list" where
  "state_processes s = concat (map ex_instances (bs_executables s)) @ concat (map ex_instances (bs_servers s))"

text \<open>\<open>transform::Service\<close>, of an advertised service; and the broker as a server of its own domain.\<close>

definition advertised :: "service_info \<Rightarrow> service" where
  "advertised v = \<lparr>sv_information = \<lparr>si_name = si_name v, si_type = si_type v, si_timeout = 0, si_monitors = [],
     si_transaction = si_transaction v\<rparr>, sv_lookedup = 0, sv_instances = []\<rparr>"

definition new_executable :: "nat \<Rightarrow> executable" where
  "new_executable i = \<lparr>ex_id = i, ex_alias = [], ex_path = [], ex_arguments = [], ex_note = [], ex_instances = [],
     ex_memberships = [], ex_variables = [], ex_configured = 0, ex_restart = False, ex_deaths = 0\<rparr>"

definition new_server :: "nat \<Rightarrow> server" where
  "new_server i = executable.extend (new_executable i) (server.fields [] 0)"

definition broker_server :: "broker_state \<Rightarrow> server" where
  "broker_server s = (new_server (bs_next_id s))\<lparr>ex_alias := ''casual-broker'', ex_configured := 1,
     ex_path := bs_path s, ex_instances := [ph_pid (bs_self s)]\<rparr>"

definition broker_instance :: "broker_state \<Rightarrow> int \<Rightarrow> server_instance" where
  "broker_instance s now = (started_instance (bs_next_id s) (ph_pid (bs_self s)) now)\<lparr>bi_process := bs_self s,
     bi_state := V_idle\<rparr>"

definition connect_broker :: "service_info list \<Rightarrow> unit broker" where
  "connect_broker infos s =
     (case bs_instances s (ph_pid (bs_self s)) of
        Some _ \<Rightarrow> (Inr (), s)
      | None \<Rightarrow>
          after broker_now (\<lambda>now.
          after (change (emplace_instance (broker_instance s now))) (\<lambda>_.
          after (change (\<lambda>t. add_server (broker_server s) (t\<lparr>bs_next_id := bs_next_id s + 1\<rparr>))) (\<lambda>_.
            add_services (ph_pid (bs_self s)) (map advertised infos)))) s)"

section \<open>The boot order\<close>

text \<open>
  \<open>operator <\<close> of groups. Its first two conditions ask the same list to be empty and not empty; what is
  left is that the right one depends on the left one, which is no order.
\<close>

definition group_less :: "domain_group \<Rightarrow> domain_group \<Rightarrow> bool" where
  "group_less lhs rhs =
     (if gr_dependencies lhs = [] \<and> \<not> gr_dependencies lhs = [] then True
      else if \<not> gr_dependencies lhs = [] \<and> gr_dependencies lhs = [] then False
      else gr_id lhs \<in> set (gr_dependencies rhs))"

record boot_batch =
  ba_group :: string
  ba_servers :: "nat list"
  ba_executables :: "nat list"

definition member_of :: "nat \<Rightarrow> 'a executable_scheme \<Rightarrow> bool" where
  "member_of i e \<longleftrightarrow> i \<in> set (ex_memberships e)"

definition batch_of :: "string \<Rightarrow> server list \<Rightarrow> executable list \<Rightarrow> boot_batch" where
  "batch_of name svs exs = \<lparr>ba_group = name, ba_servers = map ex_id svs, ba_executables = map ex_id exs\<rparr>"

fun group_batches :: "domain_group list \<Rightarrow> server list \<Rightarrow> executable list \<Rightarrow> boot_batch list \<times> server list \<times> executable list" where
  "group_batches [] svs exs = ([], svs, exs)"
| "group_batches (g # gs) svs exs =
     (let (svs1, svs2) = List.partition (member_of (gr_id g)) svs; (exs1, exs2) = List.partition (member_of (gr_id g)) exs
      in if svs1 \<noteq> [] \<or> exs1 \<noteq> [] then
           (let (bs, svs', exs') = group_batches gs svs2 exs2 in (batch_of (gr_name g) svs1 exs1 # bs, svs', exs'))
         else group_batches gs svs exs)"

definition boot_order :: "boot_batch list broker" where
  "boot_order s =
     (let groups = stable_sort group_less (bs_groups s);
          (bs, svs, exs) = group_batches (rev groups) (bs_servers s) (bs_executables s)
      in (Inr (rev bs @ (if svs \<noteq> [] \<or> exs \<noteq> [] then [batch_of ''<no group>'' svs exs] else [])),
          s\<lparr>bs_groups := groups\<rparr>))"

end
