(* ===== verification/Broker_Handle.thy ===== *)
theory Broker_Handle
  imports Broker_State
begin

text \<open>
  The handlers of the broker (\<open>broker/source/handle.cpp\<close>): connects, the start and the death of
  processes, the lookup of processes, and the services: advertise, lookup and acknowledge.
\<close>

section \<open>Sending\<close>

definition broker_push :: "int \<Rightarrow> broker_message \<Rightarrow> bool broker" where
  "broker_push queue m s =
     (case bs_push s of
        [] \<Rightarrow> (Inr True, s\<lparr>bs_sent := bs_sent s @ [(queue, m)]\<rparr>)
      | B_sent # os \<Rightarrow> (Inr True, s\<lparr>bs_push := os, bs_sent := bs_sent s @ [(queue, m)]\<rparr>)
      | B_full # os \<Rightarrow> (Inr False, s\<lparr>bs_push := os\<rparr>)
      | B_gone # os \<Rightarrow> (Inl B_unavailable, s\<lparr>bs_push := os\<rparr>))"

text \<open>A blocking send waits while the queue is full.\<close>

definition blocking_send :: "int \<Rightarrow> broker_message \<Rightarrow> unit broker" where
  "blocking_send queue m = after (change (\<lambda>s. s\<lparr>bs_push := dropWhile (\<lambda>p. p = B_full) (bs_push s)\<rparr>))
     (\<lambda>_. after (broker_push queue m) (\<lambda>_. return ()))"

definition send_later :: "broker_message \<Rightarrow> int list \<Rightarrow> send_task \<Rightarrow> unit broker" where
  "send_later m targets task = change (\<lambda>s. s\<lparr>bs_replies := bs_replies s @
     [\<lparr>wm_targets = targets, wm_message = m, wm_task = task\<rparr>]\<rparr>)"

definition send_or_keep :: "broker_message \<Rightarrow> int \<Rightarrow> unit broker" where
  "send_or_keep m queue = after (broker_push queue m) (\<lambda>sent.
     if sent then return () else send_later m [queue] First_target)"

text \<open>
  \<open>pending::send\<close>: to all targets, where a target that is gone counts as served and a full one stays; or
  to the first that takes it.
\<close>

fun push_all :: "broker_message \<Rightarrow> int list \<Rightarrow> broker_state \<Rightarrow> int list \<times> broker_state" where
  "push_all m [] s = ([], s)"
| "push_all m (q # qs) s =
     (case broker_push q m s of
        (Inr False, s') \<Rightarrow> (case push_all m qs s' of (rest, s'') \<Rightarrow> (q # rest, s''))
      | (_, s') \<Rightarrow> push_all m qs s')"

fun push_first :: "broker_message \<Rightarrow> int list \<Rightarrow> broker_state \<Rightarrow> bool \<times> broker_state" where
  "push_first m [] s = (False, s)"
| "push_first m (q # qs) s =
     (case broker_push q m s of
        (Inr False, s') \<Rightarrow> push_first m qs s'
      | (_, s') \<Rightarrow> (True, s'))"

definition send_waiting :: "waiting_message \<Rightarrow> broker_state \<Rightarrow> bool \<times> waiting_message \<times> broker_state" where
  "send_waiting m s =
     (let (rest, s') = (case wm_task m of
          All_targets \<Rightarrow> push_all (wm_message m) (wm_targets m) s
        | First_target \<Rightarrow> (case push_first (wm_message m) (wm_targets m) s of
            (sent, s') \<Rightarrow> (if sent then [] else wm_targets m, s')))
      in (rest = [], m\<lparr>wm_targets := rest\<rparr>, s'))"

section \<open>Lookup of processes\<close>

definition process_reply :: "process_lookup \<Rightarrow> process_handle \<Rightarrow> string \<Rightarrow> broker_message" where
  "process_reply m p domain = Process_reply (pl_correlation m) (pl_identification m) p domain"

definition lookup_process :: "process_lookup \<Rightarrow> unit broker" where
  "lookup_process m s =
     (case map_of (bs_singeltons s) (pl_identification m) of
        Some p \<Rightarrow> send_or_keep (process_reply m p (bs_domain s)) (ph_queue (pl_process m))
      | None \<Rightarrow>
          if pl_directive m = D_direct then
            send_or_keep (process_reply m no_process (bs_domain s)) (ph_queue (pl_process m))
          else change (\<lambda>s. s\<lparr>bs_process_lookup := bs_process_lookup s @ [m]\<rparr>)) s"

section \<open>Connect\<close>

record connect_request =
  cr_correlation :: uuid
  cr_process :: process_handle
  cr_identification :: uuid

record server_connect = connect_request +
  sc_services :: "service_info list"

text \<open>
  \<open>local::handle::connect\<close>, which answers a connect; whether it is accepted. \<open>reply\<close> is the reply
  for a directive. A new singleton answers the lookups that wait.
\<close>

definition register_singelton :: "'a connect_request_scheme \<Rightarrow> unit broker" where
  "register_singelton m =
     after (change (\<lambda>s. s\<lparr>bs_singeltons := insort_key fst (cr_identification m, cr_process m) (bs_singeltons s)\<rparr>)) (\<lambda>_.
     after (read_state bs_process_lookup) (\<lambda>waiting.
     after (change (\<lambda>s. s\<lparr>bs_process_lookup := []\<rparr>)) (\<lambda>_. for_each lookup_process waiting)))"

definition accept_connect :: "'a connect_request_scheme \<Rightarrow> (directive \<Rightarrow> broker_message) \<Rightarrow> bool broker" where
  "accept_connect m reply = after (blocking_send (ph_queue (cr_process m)) (reply Start)) (\<lambda>_. return True)"

definition connect_process :: "'a connect_request_scheme \<Rightarrow> (directive \<Rightarrow> broker_message) \<Rightarrow> bool broker" where
  "connect_process m reply s =
     (if bs_mode s = M_shutdown then
        after (blocking_send (ph_queue (cr_process m)) (reply Shutdown)) (\<lambda>_. return False)
      else if cr_identification m \<noteq> nil_uuid then
        (case map_of (bs_singeltons s) (cr_identification m) of
           Some p \<Rightarrow>
             if p \<noteq> cr_process m then
               after (blocking_send (ph_queue (cr_process m)) (reply Singleton)) (\<lambda>_.
               after (get_server_instance (ph_pid (cr_process m))) (\<lambda>i.
               after (get_server (bi_server i)) (\<lambda>_.
               after (change (on_server (bi_server i) (\<lambda>e. e\<lparr>ex_configured := 1\<rparr>))) (\<lambda>_. return False))))
             else accept_connect m reply
         | None \<Rightarrow> after (register_singelton m) (\<lambda>_. accept_connect m reply))
      else accept_connect m reply) s"

definition handle_server_connect :: "server_connect \<Rightarrow> unit broker" where
  "handle_server_connect m =
     (let pid = ph_pid (cr_process m) in
      catch
        (after (get_server_instance pid) (\<lambda>_.
         after (change (on_server_instance pid (\<lambda>i. i\<lparr>bi_process := (bi_process i)\<lparr>ph_queue := ph_queue (cr_process m)\<rparr>\<rparr>))) (\<lambda>_.
         after (connect_process m (Server_connect_reply (cr_correlation m))) (\<lambda>ok.
           if ok then after (add_services pid (map advertised (sc_services m))) (\<lambda>_. alter_state pid V_idle)
           else return ()))))
        (\<lambda>e. if e = B_missing then change (\<lambda>s. s\<lparr>bs_terminated := bs_terminated s @ [pid]\<rparr>) else throw e))"

definition handle_traffic_connect :: "connect_request \<Rightarrow> unit broker" where
  "handle_traffic_connect m =
     after (connect_process m (Traffic_connect_reply (cr_correlation m))) (\<lambda>ok.
       if ok then change (\<lambda>s. if ph_queue (cr_process m) \<in> set (bs_monitors s) then s
         else s\<lparr>bs_monitors := bs_monitors s @ [ph_queue (cr_process m)]\<rparr>)
       else return ())"

definition handle_traffic_disconnect :: "process_handle \<Rightarrow> unit broker" where
  "handle_traffic_disconnect p = change (\<lambda>s. s\<lparr>bs_monitors := erase_first (\<lambda>q. q = ph_queue p) (bs_monitors s)\<rparr>)"

definition configuration_resources :: "domain_group list \<Rightarrow> resource list" where
  "configuration_resources groups = concat (map gr_resources groups)"

definition handle_tm_connect :: "connect_request \<Rightarrow> unit broker" where
  "handle_tm_connect m =
     after (connect_process m (Tm_connect_reply (cr_correlation m))) (\<lambda>ok.
       if ok then
         after (change (\<lambda>s. s\<lparr>bs_transaction_manager := ph_queue (cr_process m)\<rparr>)) (\<lambda>_ s.
           blocking_send (ph_queue (cr_process m))
             (Tm_configuration (cr_correlation m) (bs_domain s) (configuration_resources (bs_groups s))) s)
       else return ())"

definition handle_tm_ready :: "process_handle \<Rightarrow> bool \<Rightarrow> unit broker" where
  "handle_tm_ready p success =
     (if success then after (get_server_instance (ph_pid p)) (\<lambda>_. alter_state (ph_pid p) V_idle) else throw B_terminate)"

text \<open>
  \<open>client::reply\<close>: the resources of the groups the server is a member of, as many as are found before
  one is missing.
\<close>

fun client_resources :: "nat list \<Rightarrow> resource list broker" where
  "client_resources [] s = (Inr [], s)"
| "client_resources (i # is) s =
     (case get_group i s of
        (Inl e, s') \<Rightarrow> (Inr [], s')
      | (Inr g, s') \<Rightarrow> after (client_resources is) (\<lambda>rs. return (gr_resources g @ rs)) s')"

definition resources_of :: "server_instance \<Rightarrow> resource list broker" where
  "resources_of i = catch (after (get_server (bi_server i)) (\<lambda>e. client_resources (ex_memberships e))) (\<lambda>_. return [])"

definition handle_client_connect :: "connect_request \<Rightarrow> unit broker" where
  "handle_client_connect m = catch
     (after (get_server_instance (ph_pid (cr_process m))) (\<lambda>i. after (resources_of i) (\<lambda>rs s.
        after (connect_process m (\<lambda>d. Client_connect_reply (cr_correlation m) d rs (bs_domain s))) (\<lambda>_. return ()) s)))
     (\<lambda>e. if e = B_missing then (\<lambda>s.
        blocking_send (ph_queue (cr_process m)) (Client_connect_reply nil_uuid Start [] (bs_domain s)) s)
      else throw e)"

definition handle_forward_connect :: "connect_request \<Rightarrow> unit broker" where
  "handle_forward_connect m =
     after (connect_process m (Forward_connect_reply (cr_correlation m))) (\<lambda>ok.
       if ok then change (\<lambda>s. s\<lparr>bs_forward := cr_process m\<rparr>) else return ())"

section \<open>Start and stop of instances\<close>

definition process_spawn :: "'a executable_scheme \<Rightarrow> int broker" where
  "process_spawn e s =
     (case bs_spawns s of
        Some pid # os \<Rightarrow> (Inr pid, s\<lparr>bs_spawns := os,
          bs_spawned := bs_spawned s @ [(ex_path e, ex_arguments e, bs_environment s @ ex_variables e)]\<rparr>)
      | _ \<Rightarrow> (Inl B_invalid_argument, s\<lparr>bs_spawns := drop 1 (bs_spawns s)\<rparr>))"

fun spawn :: "'a executable_scheme \<Rightarrow> nat \<Rightarrow> int list broker" where
  "spawn e 0 s = (Inr [], s)"
| "spawn e (Suc n) s =
     (case process_spawn e s of
        (Inl x, s') \<Rightarrow> (Inl x, s')
      | (Inr pid, s') \<Rightarrow> after (spawn e n) (\<lambda>pids. return (pid # pids)) s')"

text \<open>The difference is that of unsigned numbers of 64 bits.\<close>

definition boot_count :: "'a executable_scheme \<Rightarrow> nat \<Rightarrow> nat" where
  "boot_count e n = nat ((int (max (ex_configured e) n) - int (length (ex_instances e))) mod 2 ^ 64)"

definition boot :: "'a executable_scheme \<Rightarrow> nat \<Rightarrow> unit broker" where
  "boot e n = (if boot_count e n > 0 then after (spawn e (boot_count e n)) (add_instances (ex_id e)) else return ())"

definition shutdown_instance :: "int \<Rightarrow> unit broker" where
  "shutdown_instance pid s =
     (if pid \<noteq> ph_pid (bs_self s) then
        catch
          (after (get_server_instance pid) (\<lambda>_. after (alter_state pid V_shutdown) (\<lambda>_.
             after (get_server_instance pid) (\<lambda>i. send_or_keep Shutdown_request (ph_queue (bi_process i))))))
          (\<lambda>e. if e = B_missing \<or> e = B_unavailable then return () else throw e)
      else return ()) s"

definition shutdown_instances :: "'a executable_scheme \<Rightarrow> nat \<Rightarrow> unit broker" where
  "shutdown_instances e n =
     (let k = min (length (ex_instances e)) n in for_each shutdown_instance (drop (length (ex_instances e) - k) (ex_instances e)))"

definition adjust_instances :: "server \<Rightarrow> unit broker" where
  "adjust_instances e =
     (if ex_configured e > length (ex_instances e) then boot e (ex_configured e - length (ex_instances e))
      else shutdown_instances e (length (ex_instances e) - ex_configured e))"

section \<open>Death of processes\<close>

definition handle_key :: "process_handle \<Rightarrow> int \<times> int" where
  "handle_key p = (ph_pid p, ph_queue p)"

definition handle_registration :: "process_handle \<Rightarrow> unit broker" where
  "handle_registration p = change (\<lambda>s. s\<lparr>bs_listeners := unique_by handle_key (sort_key handle_key (bs_listeners s @ [p]))\<rparr>)"

text \<open>
  The listeners are erased from the one that died to the end. Who is left is told; then the instance is
  removed and, where the server is to be restarted, another one started.
\<close>

definition erase_listeners :: "int \<Rightarrow> broker_state \<Rightarrow> broker_state" where
  "erase_listeners pid s = s\<lparr>bs_listeners := takeWhile (\<lambda>p. ph_pid p \<noteq> pid) (bs_listeners s)\<rparr>"

definition notify_listeners :: "process_exit \<Rightarrow> unit broker" where
  "notify_listeners x s =
     (if bs_listeners s = [] then (Inr (), s)
      else (case send_waiting \<lparr>wm_targets = map ph_queue (bs_listeners s), wm_message = Death_event x, wm_task = All_targets\<rparr> s of
        (sent, m, s') \<Rightarrow> (Inr (), if sent then s' else s'\<lparr>bs_replies := bs_replies s' @ [m]\<rparr>)))"

definition handle_death :: "process_exit \<Rightarrow> unit broker" where
  "handle_death x =
     (if deceased x then
        after (change (erase_listeners (px_pid x))) (\<lambda>_.
        after (notify_listeners x) (\<lambda>_.
        after (get_server_instance (px_pid x)) (\<lambda>i.
        after (get_server (bi_server i)) (\<lambda>_.
        after (change (on_server (bi_server i) (\<lambda>e. e\<lparr>ex_deaths := ex_deaths e + 1\<rparr>))) (\<lambda>_.
        after (remove_process (px_pid x)) (\<lambda>_.
        after (get_server (bi_server i)) (\<lambda>e. if ex_restart e then adjust_instances e else return ())))))))
      else return ())"

section \<open>Services\<close>

definition discard_missing :: "unit broker \<Rightarrow> unit broker" where
  "discard_missing f = catch f (\<lambda>e. if e = B_missing then return () else throw e)"

definition handle_advertise :: "process_handle \<Rightarrow> service_info list \<Rightarrow> unit broker" where
  "handle_advertise p vs = discard_missing (add_services (ph_pid p) (map advertised vs))"

definition handle_unadvertise :: "process_handle \<Rightarrow> service_info list \<Rightarrow> unit broker" where
  "handle_unadvertise p vs = discard_missing (remove_services (ph_pid p) (map advertised vs))"

definition is_idle :: "broker_state \<Rightarrow> int \<Rightarrow> bool" where
  "is_idle s pid = (case bs_instances s pid of None \<Rightarrow> False | Some i \<Rightarrow> bi_state i = V_idle)"

definition handle_of :: "broker_state \<Rightarrow> int \<Rightarrow> process_handle" where
  "handle_of s pid = (case bs_instances s pid of None \<Rightarrow> no_process | Some i \<Rightarrow> bi_process i)"

definition service_reply :: "lookup_request \<Rightarrow> service \<Rightarrow> broker_state \<Rightarrow> process_handle \<Rightarrow> lookup_state \<Rightarrow> broker_message" where
  "service_reply m v s p st =
     Lookup_reply (lr_correlation m) ((sv_information v)\<lparr>si_monitors := bs_monitors s\<rparr>) p st"

definition absent_reply :: "lookup_request \<Rightarrow> broker_message" where
  "absent_reply m = Lookup_reply (lr_correlation m)
     \<lparr>si_name = lr_requested m, si_type = 0, si_timeout = 0, si_monitors = [], si_transaction = 0\<rparr> no_process L_absent"

text \<open>
  A lookup of a service: the first idle instance is given to the caller and busy from then on; a caller that
  wants no reply gets the forward; any other waits until an instance is acknowledged.
\<close>

definition handle_lookup :: "lookup_request \<Rightarrow> unit broker" where
  "handle_lookup m s =
     (case bs_services s (lr_requested m) of
        None \<Rightarrow> blocking_send (ph_queue (lr_process m)) (absent_reply m) s
      | Some v \<Rightarrow>
          (case List.find (is_idle s) (sv_instances v) of
             Some pid \<Rightarrow>
               after (alter_state pid V_busy) (\<lambda>_.
               after (blocking_send (ph_queue (lr_process m)) (service_reply m v s (handle_of s pid) L_idle)) (\<lambda>_.
                 change (on_service (lr_requested m) (\<lambda>v. v\<lparr>sv_lookedup := sv_lookedup v + 1\<rparr>)))) s
           | None \<Rightarrow>
               if lr_context m = No_reply \<or> lr_context m = Forward then
                 blocking_send (ph_queue (lr_process m)) (service_reply m v s (bs_forward s) L_idle) s
               else
                 after (change (\<lambda>s. s\<lparr>bs_requests := bs_requests s @ [m]\<rparr>)) (\<lambda>_.
                   blocking_send (ph_queue (lr_process m)) (service_reply m v s no_process L_busy)) s))"

text \<open>\<open>filter::Pending\<close>: the instance has the service that is requested.\<close>

definition can_serve :: "server_instance \<Rightarrow> lookup_request \<Rightarrow> bool" where
  "can_serve i m \<longleftrightarrow> list_ex (\<lambda>name. name = lr_requested m) (bi_services i)"

definition serve_pending :: "server_instance \<Rightarrow> unit broker" where
  "serve_pending i s = (case List.find (can_serve i) (bs_requests s) of
      None \<Rightarrow> return ()
    | Some m \<Rightarrow> after (handle_lookup m) (\<lambda>_.
        change (\<lambda>s. s\<lparr>bs_requests := erase_first (can_serve i) (bs_requests s)\<rparr>))) s"

definition handle_ack :: "process_handle \<Rightarrow> unit broker" where
  "handle_ack p =
     (let pid = ph_pid p in
      catch
        (after (get_server_instance pid) (\<lambda>_.
         after (alter_state pid V_idle) (\<lambda>_.
         after (change (on_server_instance pid (\<lambda>i. i\<lparr>bi_invoked := bi_invoked i + 1\<rparr>))) (\<lambda>_.
         after (get_server_instance pid) serve_pending))))
        (\<lambda>e. if e = B_missing then return () else throw e))"

end
