(* ===== verification/Codes.thy ===== *)
theory Codes
  imports Xid
begin

text \<open>
  The return codes and flags of the TX, XA and XATMI interfaces (\<open>xatmi/include\<close>).
\<close>

definition TX_NOT_SUPPORTED :: int where "TX_NOT_SUPPORTED = 1"
definition TX_OK :: int where "TX_OK = 0"
definition TX_OUTSIDE :: int where "TX_OUTSIDE = - 1"
definition TX_MIXED :: int where "TX_MIXED = - 3"
definition TX_HAZARD :: int where "TX_HAZARD = - 4"
definition TX_PROTOCOL_ERROR :: int where "TX_PROTOCOL_ERROR = - 5"
definition TX_ERROR :: int where "TX_ERROR = - 6"
definition TX_FAIL :: int where "TX_FAIL = - 7"
definition TX_EINVAL :: int where "TX_EINVAL = - 8"
definition TX_NO_BEGIN :: int where "TX_NO_BEGIN = - 100"

lemmas tx_codes = TX_NOT_SUPPORTED_def TX_OK_def TX_OUTSIDE_def TX_MIXED_def TX_HAZARD_def TX_PROTOCOL_ERROR_def
  TX_ERROR_def TX_FAIL_def TX_EINVAL_def TX_NO_BEGIN_def

definition XAER_DUPID :: int where "XAER_DUPID = - 8"
definition TMRESUME :: int where "TMRESUME = 0x08000000"
definition TMSUCCESS :: int where "TMSUCCESS = 0x04000000"
definition TMSUSPEND :: int where "TMSUSPEND = 0x02000000"
definition TMJOIN :: int where "TMJOIN = 0x00200000"

definition TPEBADDESC :: int where "TPEBADDESC = 2"
definition TPEBLOCK :: int where "TPEBLOCK = 3"
definition TPEINVAL :: int where "TPEINVAL = 4"
definition TPENOENT :: int where "TPENOENT = 6"
definition TPESVCERR :: int where "TPESVCERR = 10"
definition TPESVCFAIL :: int where "TPESVCFAIL = 11"
definition TPESYSTEM :: int where "TPESYSTEM = 12"
definition TPETRAN :: int where "TPETRAN = 14"
definition TPEITYPE :: int where "TPEITYPE = 17"
definition TPEOTYPE :: int where "TPEOTYPE = 18"
definition TPEMATCH :: int where "TPEMATCH = 23"
definition TPFAIL :: int where "TPFAIL = 1"
definition TPSUCCESS :: int where "TPSUCCESS = 2"

end
