(* ===== verification/Broker_Pump.thy ===== *)
theory Broker_Pump
  imports Broker_Handle Codes
begin

text \<open>
  The dispatch of the broker's messages, its administration services, the boot of the domain and the
  message pump (\<open>broker/source/broker.cpp\<close>, \<open>broker/source/admin/server.cpp\<close>, and the end of
  \<open>broker/source/handle.cpp\<close>).
\<close>

section \<open>Administration\<close>

text \<open>\<open>update::instances\<close>: for each directive the servers with its alias, in the order of the map.\<close>

definition configure_server :: "nat \<Rightarrow> nat \<Rightarrow> unit broker" where
  "configure_server n i =
     after (change (on_server i (\<lambda>e. e\<lparr>ex_configured := n\<rparr>))) (\<lambda>_. after (get_server i) adjust_instances)"

definition update_alias :: "string \<times> nat \<Rightarrow> unit broker" where
  "update_alias d s = for_each (configure_server (snd d))
     (map ex_id (filter (\<lambda>e. ex_alias e = fst d) (bs_servers s))) s"

datatype admin_call = Call_state | Call_update_instances "(string \<times> nat) list" | Call_unknown

record service_call =
  ca_correlation :: uuid
  ca_process :: process_handle
  ca_no_reply :: bool
  ca_service :: admin_call


text \<open>A service answers an exception with an error of its own, in the contents of its reply.\<close>

definition admin_service :: "admin_call \<Rightarrow> unit broker" where
  "admin_service c = catch
     (case c of
        Call_update_instances ds \<Rightarrow> for_each update_alias ds
      | _ \<Rightarrow> return ())
     (\<lambda>_. return ())"

definition swallow :: "unit broker \<Rightarrow> unit broker" where
  "swallow f = catch f (\<lambda>_. return ())"

definition call_reply :: "service_call \<Rightarrow> int \<Rightarrow> unit broker" where
  "call_reply m code = (if ca_no_reply m then return ()
     else blocking_send (ph_queue (ca_process m)) (Call_reply (ca_correlation m) code))"

definition call_ack :: "unit broker" where
  "call_ack s = handle_ack (bs_self s) s"

text \<open>
  \<open>basic_call::dispatch\<close> with the broker's policy. The acknowledge and the reply are sent whatever happens:
  after the service the acknowledge first, for a service that is not there the reply first.
\<close>

definition handle_call :: "service_call \<Rightarrow> unit broker" where
  "handle_call m =
     (if ca_service m = Call_unknown then after (swallow (call_reply m TPESVCERR)) (\<lambda>_. swallow call_ack)
      else after (admin_service (ca_service m)) (\<lambda>_. after (swallow call_ack) (\<lambda>_. swallow (call_reply m 0))))"

section \<open>Dispatch\<close>

datatype broker_event =
    Be_tm_connect connect_request
  | Be_tm_ready process_handle bool
  | Be_forward_connect connect_request
  | Be_registration process_handle
  | Be_death process_exit
  | Be_process_lookup process_lookup
  | Be_connect server_connect
  | Be_advertise process_handle "service_info list"
  | Be_unadvertise process_handle "service_info list"
  | Be_lookup lookup_request
  | Be_ack process_handle
  | Be_traffic_connect connect_request
  | Be_traffic_disconnect process_handle
  | Be_client_connect connect_request
  | Be_call service_call
  | Be_ping uuid process_handle
  | Be_shutdown
  | Be_other

definition broker_handle :: "broker_event \<Rightarrow> unit broker" where
  "broker_handle ev =
     (case ev of
        Be_tm_connect m \<Rightarrow> handle_tm_connect m
      | Be_tm_ready p success \<Rightarrow> handle_tm_ready p success
      | Be_forward_connect m \<Rightarrow> handle_forward_connect m
      | Be_registration p \<Rightarrow> handle_registration p
      | Be_death x \<Rightarrow> handle_death x
      | Be_process_lookup m \<Rightarrow> lookup_process m
      | Be_connect m \<Rightarrow> handle_server_connect m
      | Be_advertise p vs \<Rightarrow> handle_advertise p vs
      | Be_unadvertise p vs \<Rightarrow> handle_unadvertise p vs
      | Be_lookup m \<Rightarrow> handle_lookup m
      | Be_ack p \<Rightarrow> handle_ack p
      | Be_traffic_connect m \<Rightarrow> handle_traffic_connect m
      | Be_traffic_disconnect p \<Rightarrow> handle_traffic_disconnect p
      | Be_client_connect m \<Rightarrow> handle_client_connect m
      | Be_call m \<Rightarrow> handle_call m
      | Be_ping corr p \<Rightarrow> (\<lambda>s. blocking_send (ph_queue p) (Ping_reply corr (bs_self s)) s)
      | Be_shutdown \<Rightarrow> throw B_shutdown
      | Be_other \<Rightarrow> return ())"

text \<open>A message of an unknown type is discarded: as without a message, the handler returns false.\<close>

definition broker_dispatch :: "broker_event \<Rightarrow> bool broker" where
  "broker_dispatch ev = after (broker_handle ev) (\<lambda>_. return (ev \<noteq> Be_other))"

section \<open>The pump\<close>

definition broker_batch :: nat where "broker_batch = 100"

text \<open>The messages that are in the queue, until it is empty, at most one more than \<open>n\<close>.\<close>

fun broker_poll :: "nat \<Rightarrow> broker_event list \<Rightarrow> unit broker" where
  "broker_poll n [] s = (Inr (), s)"
| "broker_poll n (ev # evs) s =
     (case broker_dispatch ev s of
        (Inl e, s') \<Rightarrow> (Inl e, s')
      | (Inr handled, s') \<Rightarrow>
          if handled \<and> n > 0 then broker_poll (n - 1) evs s' else (Inr (), s'))"

text \<open>The replies that wait are taken out, sent, and those that were not sent are put back.\<close>

definition try_waiting :: "waiting_message \<Rightarrow> broker_state \<Rightarrow> (broker_exn + bool) \<times> waiting_message \<times> broker_state" where
  "try_waiting m s = (case send_waiting m s of (sent, m', s') \<Rightarrow> (Inr sent, m', s'))"

definition broker_flush :: "unit broker" where
  "broker_flush s =
     (case send_partition try_waiting (bs_replies s) (s\<lparr>bs_replies := []\<rparr>) of
        (Inl e, _, s') \<Rightarrow> (Inl e, s')
      | (Inr (_, remain), _, s') \<Rightarrow> (Inr (), s'\<lparr>bs_replies := bs_replies s' @ remain\<rparr>))"

definition broker_round :: "broker_event \<Rightarrow> broker_event list \<Rightarrow> unit broker" where
  "broker_round first polls s =
     (if bs_replies s = [] then after (broker_dispatch first) (\<lambda>_. return ()) s
      else after broker_flush (\<lambda>_. broker_poll broker_batch polls) s)"

text \<open>
  The construction of the handlers connects the broker to its own domain, with its administration
  services.
\<close>

definition admin_names :: "string list" where
  "admin_names = [''.casual.broker.state'', ''.casual.broker.update.instances'', ''.casual.broker.shutdown'']"

definition admin_services :: "service_info list" where
  "admin_services = map (\<lambda>name. \<lparr>si_name = name, si_type = cCasualAdmin, si_timeout = 0, si_monitors = [],
     si_transaction = 3\<rparr>) admin_names"

definition broker_rounds :: "(broker_event \<times> broker_event list) list \<Rightarrow> unit broker" where
  "broker_rounds = for_each (\<lambda>(first, polls). broker_round first polls)"

definition broker_pump :: "(broker_event \<times> broker_event list) list \<Rightarrow> unit broker" where
  "broker_pump rounds = after (connect_broker admin_services) (\<lambda>_. broker_rounds rounds)"

section \<open>Boot\<close>

definition boot_executable :: "'a executable_scheme \<Rightarrow> unit broker" where
  "boot_executable e = catch (boot e (ex_configured e)) (\<lambda>x. if x = B_invalid_argument then return () else throw x)"

text \<open>\<open>filter::Booted\<close>\<close>

fun instances_booted :: "int list \<Rightarrow> bool broker" where
  "instances_booted [] s = (Inr True, s)"
| "instances_booted (pid # pids) s =
     (case get_server_instance pid s of
        (Inl e, s') \<Rightarrow> (Inl e, s')
      | (Inr i, s') \<Rightarrow> if bi_state i \<noteq> V_booted then instances_booted pids s' else (Inr False, s'))"

fun servers_booted :: "nat list \<Rightarrow> bool broker" where
  "servers_booted [] s = (Inr True, s)"
| "servers_booted (i # is) s =
     (case after (get_server i) (\<lambda>e. instances_booted (ex_instances e)) s of
        (Inl e, s') \<Rightarrow> (Inl e, s')
      | (Inr ok, s') \<Rightarrow> if ok then servers_booted is s' else (Inr False, s'))"

text \<open>
  Messages are handled until all instances of the batch have connected; when none comes in time, the
  broker terminates. Messages of an unknown type stay in the queue.
\<close>

fun await_booted :: "nat list \<Rightarrow> broker_event list \<Rightarrow> broker_event list broker" where
  "await_booted is evs s =
     (case servers_booted is s of
        (Inl e, s') \<Rightarrow> (Inl e, s')
      | (Inr ok, s') \<Rightarrow>
          if ok then (Inr evs, s')
          else (case evs of
              [] \<Rightarrow> (Inl B_terminate, s')
            | ev # evs' \<Rightarrow>
                if ev = Be_other then await_booted is evs' s'
                else (case broker_dispatch ev s' of
                    (Inl e, s'') \<Rightarrow> (Inl e, s'')
                  | (Inr _, s'') \<Rightarrow> await_booted is evs' s'')))"

declare await_booted.simps [simp del]

definition boot_group :: "boot_batch \<Rightarrow> broker_event list \<Rightarrow> broker_event list broker" where
  "boot_group b evs =
     after (for_each (\<lambda>i. after (get_server i) boot_executable) (ba_servers b)) (\<lambda>_.
     after (for_each (\<lambda>i. after (get_executable i) boot_executable) (ba_executables b)) (\<lambda>_.
     after (connect_broker admin_services) (\<lambda>_. await_booted (ba_servers b) evs)))"

fun boot_groups :: "boot_batch list \<Rightarrow> broker_event list \<Rightarrow> broker_event list broker" where
  "boot_groups [] evs s = (Inr evs, s)"
| "boot_groups (b # bs) evs s =
     (case boot_group b evs s of
        (Inl e, s') \<Rightarrow> (Inl e, s')
      | (Inr evs', s') \<Rightarrow> boot_groups bs evs' s')"

definition broker_boot :: "broker_event list \<Rightarrow> broker_event list broker" where
  "broker_boot evs = after boot_order (\<lambda>bs. boot_groups bs evs)"

text \<open>
  \<open>Broker::start\<close>, and the destructor that follows: the broker takes itself out and terminates the processes
  that are left. The first list holds the messages that come while the domain boots.
\<close>

definition broker_terminate :: "broker_state \<Rightarrow> broker_state" where
  "broker_terminate s =
     (case remove_process (ph_pid (bs_self s)) s of
        (Inl _, s') \<Rightarrow> s'
      | (Inr _, s') \<Rightarrow> s'\<lparr>bs_terminated := bs_terminated s' @ state_processes s'\<rparr>)"

definition broker_run :: "broker_event list \<Rightarrow> (broker_event \<times> broker_event list) list \<Rightarrow> broker_state \<Rightarrow> broker_exn option \<times> broker_state" where
  "broker_run evs rounds s =
     (case after (broker_boot evs) (\<lambda>_. broker_pump rounds) s of
        (Inl e, s') \<Rightarrow> (Some e, broker_terminate s')
      | (Inr _, s') \<Rightarrow> (None, s'))"

end
