(* ===== verification/Broker_Invariant.thy ===== *)
theory Broker_Invariant
  imports Broker_Pump
begin

text \<open>
  What holds of the broker's state: an instance has a service exactly when the service has the instance,
  both lists are sorted without duplicates, and a server with restrictions has no other services. Each
  operation of the state keeps it.
\<close>

section \<open>The invariant\<close>

definition has_service :: "broker_state \<Rightarrow> int \<Rightarrow> string \<Rightarrow> bool" where
  "has_service s pid name = (case bs_instances s pid of None \<Rightarrow> False | Some i \<Rightarrow> name \<in> set (bi_services i))"

definition offered :: "broker_state \<Rightarrow> string \<Rightarrow> int \<Rightarrow> bool" where
  "offered s name pid = (case bs_services s name of None \<Rightarrow> False | Some v \<Rightarrow> pid \<in> set (sv_instances v))"

definition instance_ok :: "int \<Rightarrow> server_instance \<Rightarrow> bool" where
  "instance_ok pid i \<longleftrightarrow> ph_pid (bi_process i) = pid \<and> sorted (bi_services i) \<and> distinct (bi_services i)"

definition service_ok :: "string \<Rightarrow> service \<Rightarrow> bool" where
  "service_ok name v \<longleftrightarrow> name_of v = name \<and> sorted (sv_instances v) \<and> distinct (sv_instances v)"

definition within_restrictions :: "server \<Rightarrow> server_instance \<Rightarrow> bool" where
  "within_restrictions e i \<longleftrightarrow> se_restrictions e = [] \<or> set (bi_services i) \<subseteq> set (se_restrictions e)"

definition owned :: "server list \<Rightarrow> server_instance \<Rightarrow> bool" where
  "owned es i \<longleftrightarrow> (\<exists>e. List.find (has_id (bi_server i)) es = Some e \<and> within_restrictions e i)"

definition broker_ok :: "broker_state \<Rightarrow> bool" where
  "broker_ok s \<longleftrightarrow>
     (\<forall>pid name. has_service s pid name = offered s name pid) \<and>
     (\<forall>pid i. bs_instances s pid = Some i \<longrightarrow> instance_ok pid i \<and> owned (bs_servers s) i) \<and>
     (\<forall>name v. bs_services s name = Some v \<longrightarrow> service_ok name v)"

lemma broker_okI:
  assumes "\<And>pid name. has_service s pid name = offered s name pid"
    "\<And>pid i. bs_instances s pid = Some i \<Longrightarrow> instance_ok pid i" "\<And>pid i. bs_instances s pid = Some i \<Longrightarrow> owned (bs_servers s) i"
    "\<And>name v. bs_services s name = Some v \<Longrightarrow> service_ok name v"
  shows "broker_ok s"
  using assms by (simp add: broker_ok_def)

lemma broker_ok_refs: "broker_ok s \<Longrightarrow> has_service s pid name = offered s name pid"
  by (simp add: broker_ok_def)

lemma broker_ok_instance: "broker_ok s \<Longrightarrow> bs_instances s pid = Some i \<Longrightarrow> instance_ok pid i \<and> owned (bs_servers s) i"
  by (simp add: broker_ok_def)

lemma broker_ok_service: "broker_ok s \<Longrightarrow> bs_services s name = Some v \<Longrightarrow> service_ok name v"
  by (simp add: broker_ok_def)

lemma broker_ok_pid: "broker_ok s \<Longrightarrow> bs_instances s pid = Some i \<Longrightarrow> ph_pid (bi_process i) = pid"
  using broker_ok_instance [of s pid i] by (simp add: instance_ok_def)

text \<open>The invariant reads three fields only.\<close>

lemma broker_ok_frame:
  "broker_ok s \<Longrightarrow> bs_instances t = bs_instances s \<Longrightarrow> bs_services t = bs_services s \<Longrightarrow> bs_servers t = bs_servers s \<Longrightarrow> broker_ok t"
  by (simp add: broker_ok_def has_service_def offered_def)

section \<open>Changes of an instance, a service, a server\<close>

lemma ok_on_instance:
  assumes "broker_ok s" "\<And>i. ph_pid (bi_process (f i)) = ph_pid (bi_process i)" "\<And>i. bi_services (f i) = bi_services i"
    "\<And>i. bi_server (f i) = bi_server i"
  shows "broker_ok (on_server_instance pid f s)"
proof (rule broker_okI)
  let ?t = "on_server_instance pid f s"
  have old: "\<exists>j. bs_instances s q = Some j \<and> ph_pid (bi_process i) = ph_pid (bi_process j) \<and> bi_services i = bi_services j \<and> bi_server i = bi_server j"
    if "bs_instances ?t q = Some i" for q i
    using that assms by (auto simp: on_server_instance_def split: if_splits)
  show "has_service ?t q n = offered ?t n q" for q n
    using broker_ok_refs [OF assms(1), of q n] assms(3)
    by (auto simp: has_service_def offered_def on_server_instance_def split: option.splits)
  show "instance_ok q i" if "bs_instances ?t q = Some i" for q i
    using old [OF that] broker_ok_instance [OF assms(1)] by (auto simp: instance_ok_def)
  show "owned (bs_servers ?t) i" if "bs_instances ?t q = Some i" for q i
    using old [OF that] broker_ok_instance [OF assms(1)]
    by (auto simp: owned_def within_restrictions_def on_server_instance_def)
  show "service_ok n v" if "bs_services ?t n = Some v" for n v
    using that broker_ok_service [OF assms(1)] by (simp add: on_server_instance_def)
qed

lemma ok_on_service:
  assumes "broker_ok s" "\<And>v. name_of (f v) = name_of v" "\<And>v. sv_instances (f v) = sv_instances v"
  shows "broker_ok (on_service name f s)"
proof (rule broker_okI)
  let ?t = "on_service name f s"
  show "has_service ?t q n = offered ?t n q" for q n
    using broker_ok_refs [OF assms(1), of q n] assms(3)
    by (auto simp: has_service_def offered_def on_service_def split: option.splits)
  show "service_ok n v" if "bs_services ?t n = Some v" for n v
    using that broker_ok_service [OF assms(1)] assms(2,3) by (auto simp: on_service_def service_ok_def split: if_splits)
qed (use broker_ok_instance [OF assms(1)] in \<open>auto simp: on_service_def\<close>)

lemma find_on_server:
  assumes "\<And>e. ex_id (f e) = ex_id e"
  shows "List.find (has_id j) (upd_first (has_id i) f es) =
    map_option (\<lambda>e. if i = j then f e else e) (List.find (has_id j) es)"
proof (cases "i = j")
  case True
  then show ?thesis using find_upd_first [of "has_id j" f es] assms by (simp add: has_id_def)
next
  case False
  then have "List.find (has_id j) (upd_first (has_id i) f es) = List.find (has_id j) es"
    using assms by (intro find_upd_first_other) (auto simp: has_id_def)
  then show ?thesis using False by (simp add: option.map_ident)
qed

lemma owned_on_server:
  assumes "owned es i" "\<And>e. ex_id (f e) = ex_id e" "\<And>e. se_restrictions (f e) = se_restrictions e"
  shows "owned (upd_first (has_id j) f es) i"
proof -
  obtain e where "List.find (has_id (bi_server i)) es = Some e" "within_restrictions e i"
    using assms(1) by (auto simp: owned_def)
  then show ?thesis using assms(2,3)
    by (cases "j = bi_server i") (auto simp: owned_def find_on_server within_restrictions_def)
qed

lemma ok_on_server:
  assumes "broker_ok s" "\<And>e. ex_id (f e) = ex_id e" "\<And>e. se_restrictions (f e) = se_restrictions e"
  shows "broker_ok (on_server j f s)"
proof (rule broker_okI)
  show "has_service (on_server j f s) q n = offered (on_server j f s) n q" for q n
    using broker_ok_refs [OF assms(1), of q n] by (simp add: has_service_def offered_def on_server_def)
  show "owned (bs_servers (on_server j f s)) i" if "bs_instances (on_server j f s) q = Some i" for q i
    using that broker_ok_instance [OF assms(1)] owned_on_server assms(2,3) by (auto simp: on_server_def)
qed (use broker_ok_instance [OF assms(1)] broker_ok_service [OF assms(1)] in \<open>auto simp: on_server_def\<close>)

section \<open>Services\<close>

lemma erase_first_gone: "distinct xs \<Longrightarrow> x \<notin> set (erase_first (\<lambda>p. p = x) xs)"
  by (induction xs) auto

lemma erase_first_sorted: "sorted xs \<Longrightarrow> sorted (erase_first P xs)"
  and erase_first_distinct: "distinct xs \<Longrightarrow> distinct (erase_first P xs)"
  by (induction xs) (auto dest: in_erase_firstD)

lemma ok_add_service:
  assumes "broker_ok s" "bs_instances s pid = Some i" "List.find (has_id (bi_server i)) (bs_servers s) = Some e" "allowed e v"
    "sv_instances v = []"
  shows "broker_ok (add_service pid v s)"
proof (rule broker_okI)
  let ?t = "add_service pid v s"
  let ?n = "name_of v"
  have inst: "bs_instances ?t = (bs_instances s)(pid \<mapsto> i\<lparr>bi_services := insert_unique ?n (bi_services i)\<rparr>)"
    using assms(2) by (simp add: add_service_def on_server_instance_def Let_def)
  obtain w where w: "bs_services ?t = (bs_services s)(?n \<mapsto> w\<lparr>sv_instances := insert_unique pid (sv_instances w)\<rparr>)"
    and w': "bs_services s ?n = Some w \<or> bs_services s ?n = None \<and> w = new_service (bs_standard_timeout s) v"
    by (cases "bs_services s ?n") (auto simp: add_service_def on_server_instance_def Let_def)
  have servers: "bs_servers ?t = bs_servers s" by (simp add: add_service_def on_server_instance_def Let_def)
  show "has_service ?t q n = offered ?t n q" for q n
    using broker_ok_refs [OF assms(1), of q n] broker_ok_refs [OF assms(1), of q ?n] assms(2,5) w'
    unfolding has_service_def offered_def inst w
    by (cases "q = pid"; cases "n = ?n") (auto simp: set_insert_unique new_service_def)
  show "instance_ok q j" if "bs_instances ?t q = Some j" for q j
    using that broker_ok_instance [OF assms(1)] assms(2) unfolding inst
    by (auto simp: instance_ok_def insert_unique split: if_splits)
  show "service_ok n x" if "bs_services ?t n = Some x" for n x
    using that broker_ok_service [OF assms(1)] w' unfolding w
    by (auto simp: service_ok_def insert_unique name_of_def new_service_def split: if_splits)
  show "owned (bs_servers ?t) j" if "bs_instances ?t q = Some j" for q j
  proof (cases "q = pid")
    case True
    have "within_restrictions e i" using broker_ok_instance [OF assms(1,2)] assms(3) by (auto simp: owned_def)
    with assms(3,4) that True show ?thesis unfolding inst servers
      by (auto simp: owned_def within_restrictions_def allowed_def list_ex_iff set_insert_unique)
  qed (use that broker_ok_instance [OF assms(1)] in \<open>simp add: inst servers\<close>)
qed

lemma ok_remove_service:
  assumes "broker_ok s"
  shows "broker_ok (remove_service pid v s)"
proof (rule broker_okI)
  let ?t = "remove_service pid v s"
  let ?n = "name_of v"
  have inst: "bs_instances ?t = (bs_instances s)(pid := map_option (instance_remove ?n) (bs_instances s pid))"
    and serv: "bs_services ?t = (bs_services s)(?n := map_option (service_remove pid) (bs_services s ?n))"
    and servers: "bs_servers ?t = bs_servers s"
    by (simp_all add: remove_service_def on_service_def on_server_instance_def)
  show "has_service ?t q n = offered ?t n q" for q n
  proof (cases "n = ?n")
    case False
    then show ?thesis using broker_ok_refs [OF assms, of q n]
      by (auto simp: has_service_def offered_def inst serv instance_remove_def not_P_in_erase_first
        dest: in_erase_firstD split: option.splits)
  next
    case n: True
    show ?thesis
    proof (cases "q = pid")
      case True
      have "\<not> has_service ?t q n"
        using broker_ok_instance [OF assms, of pid] n True
        by (auto simp: erase_first_gone has_service_def inst instance_remove_def instance_ok_def split: option.splits)
      moreover have "\<not> offered ?t n q"
        using broker_ok_service [OF assms, of ?n] n True
        by (auto simp: erase_first_gone offered_def serv service_remove_def service_ok_def split: option.splits)
      ultimately show ?thesis by simp
    next
      case False
      then show ?thesis using broker_ok_refs [OF assms, of q n]
        by (auto simp: has_service_def offered_def inst serv service_remove_def not_P_in_erase_first
          dest: in_erase_firstD split: option.splits)
    qed
  qed
  have sub: "set (bi_services (instance_remove n i)) \<subseteq> set (bi_services i)" for n i
    by (simp add: instance_remove_def set_erase_first_subset)
  show "instance_ok q i" if "bs_instances ?t q = Some i" for q i
    using that broker_ok_instance [OF assms] unfolding inst
    by (auto simp: instance_ok_def instance_remove_def erase_first_sorted erase_first_distinct split: if_splits)
  show "service_ok n w" if "bs_services ?t n = Some w" for n w
    using that broker_ok_service [OF assms] unfolding serv
    by (auto simp: service_ok_def service_remove_def name_of_def erase_first_sorted erase_first_distinct split: if_splits)
  show "owned (bs_servers ?t) i" if i: "bs_instances ?t q = Some i" for q i
  proof (cases "q = pid")
    case True
    with i obtain j where j: "bs_instances s pid = Some j" "i = instance_remove ?n j" by (auto simp: inst)
    then show ?thesis using broker_ok_instance [OF assms j(1)] sub [of ?n j]
      by (auto simp: owned_def servers within_restrictions_def instance_remove_def)
  qed (use i broker_ok_instance [OF assms] in \<open>simp add: inst servers\<close>)
qed

section \<open>Processes\<close>

lemma ok_emplace:
  assumes "broker_ok s" "bi_services i = []" "List.find (has_id (bi_server i)) (bs_servers s) \<noteq> None"
  shows "broker_ok (emplace_instance i s)"
proof (cases "bs_instances s (ph_pid (bi_process i))")
  case None
  let ?p = "ph_pid (bi_process i)"
  have t: "emplace_instance i s = s\<lparr>bs_instances := (bs_instances s)(?p \<mapsto> i)\<rparr>"
    by (simp add: emplace_instance_def None Let_def)
  show ?thesis unfolding t
  proof (rule broker_okI)
    show "has_service (s\<lparr>bs_instances := (bs_instances s)(?p \<mapsto> i)\<rparr>) q n = offered (s\<lparr>bs_instances := (bs_instances s)(?p \<mapsto> i)\<rparr>) n q" for q n
      using broker_ok_refs [OF assms(1), of q n] None assms(2) by (auto simp: has_service_def offered_def split: option.splits)
  qed (use assms broker_ok_instance [OF assms(1)] broker_ok_service [OF assms(1)] in
    \<open>auto simp: instance_ok_def owned_def within_restrictions_def split: if_splits\<close>)
next
  case (Some j)
  then show ?thesis using assms(1) by (simp add: emplace_instance_def Let_def)
qed

text \<open>
  While a process is removed it has left some of its services already; the rest of the invariant holds.
\<close>

definition leaving :: "int \<Rightarrow> string set \<Rightarrow> broker_state \<Rightarrow> bool" where
  "leaving pid left s \<longleftrightarrow>
     (\<forall>q name. offered s name q = (has_service s q name \<and> \<not> (q = pid \<and> name \<in> left))) \<and>
     (\<forall>q i. bs_instances s q = Some i \<longrightarrow> instance_ok q i \<and> owned (bs_servers s) i) \<and>
     (\<forall>name v. bs_services s name = Some v \<longrightarrow> service_ok name v)"

lemma leaving_step:
  assumes "leaving pid left s"
  shows "leaving pid (insert name left) (on_service name (service_remove pid) s)"
proof -
  have "offered (on_service name (service_remove pid) s) n q =
      (offered s n q \<and> \<not> (q = pid \<and> n = name))" for n q
  proof (cases "n = name \<and> bs_services s n \<noteq> None")
    case True
    then obtain v where v: "n = name" "bs_services s name = Some v" by auto
    then have "distinct (sv_instances v)" using assms by (auto simp: leaving_def service_ok_def)
    with v show ?thesis
      by (cases "q = pid") (auto simp: offered_def on_service_def service_remove_def erase_first_gone
        not_P_in_erase_first dest: in_erase_firstD)
  next
    case False
    then show ?thesis by (auto simp: offered_def on_service_def split: option.splits)
  qed
  moreover have "has_service (on_service name (service_remove pid) s) q n = has_service s q n" for q n
    by (simp add: has_service_def on_service_def)
  moreover have "service_ok n w" if "bs_services (on_service name (service_remove pid) s) n = Some w" for n w
    using that assms by (auto simp: leaving_def on_service_def service_ok_def service_remove_def name_of_def
      erase_first_sorted erase_first_distinct split: if_splits)
  ultimately show ?thesis using assms by (auto simp: leaving_def on_service_def)
qed

lemma leave_services:
  assumes "leaving pid left s" "\<forall>n\<in>set names. bs_services s n \<noteq> None"
  shows "\<exists>s'. for_each (leave_service pid) names s = (Inr (), s') \<and> leaving pid (left \<union> set names) s' \<and>
    bs_instances s' = bs_instances s \<and> bs_servers s' = bs_servers s"
  using assms
proof (induction names arbitrary: left s)
  case (Cons name names)
  let ?t = "on_service name (service_remove pid) s"
  obtain v where "bs_services s name = Some v" using Cons(3) by auto
  then have step: "leave_service pid name s = (Inr (), ?t)"
    by (simp add: leave_service_def get_service_def present_def after_def change_def)
  have "\<forall>n\<in>set names. bs_services ?t n \<noteq> None" using Cons(3) by (auto simp: on_service_def)
  from Cons(1) [OF leaving_step [OF Cons(2)] this] show ?case
    by (auto simp: after_def step on_service_def)
qed auto

lemma leaving_ok: "leaving pid {} s \<longleftrightarrow> broker_ok s"
  by (auto simp: leaving_def broker_ok_def)

text \<open>An instance that has left all its services can be taken out.\<close>

lemma leaving_erase:
  assumes "leaving pid left s" "bs_instances s pid = Some i" "set (bi_services i) \<subseteq> left"
  shows "broker_ok (s\<lparr>bs_instances := (bs_instances s)(pid := None)\<rparr>)"
proof (rule broker_okI)
  show "has_service (s\<lparr>bs_instances := (bs_instances s)(pid := None)\<rparr>) q n =
      offered (s\<lparr>bs_instances := (bs_instances s)(pid := None)\<rparr>) n q" for q n
  proof -
    have "offered s n q = (has_service s q n \<and> \<not> (q = pid \<and> n \<in> left))" using assms(1) by (simp add: leaving_def)
    then show ?thesis using assms(2,3) by (cases "q = pid") (auto simp: has_service_def offered_def)
  qed
qed (use assms(1) in \<open>auto simp: leaving_def split: if_splits\<close>)

lemma leaving_on_server:
  assumes "leaving pid left s" "\<And>e. ex_id (f e) = ex_id e" "\<And>e. se_restrictions (f e) = se_restrictions e"
  shows "leaving pid left (on_server j f s)"
  using assms owned_on_server unfolding leaving_def by (auto simp: on_server_def offered_def has_service_def)

lemma remove_process_ok:
  assumes "broker_ok s"
  shows "\<exists>s'. remove_process pid s = (Inr (), s') \<and> broker_ok s'"
proof (cases "bs_instances s pid")
  case None
  then show ?thesis
    using broker_ok_frame [OF assms] by (auto simp: remove_process_def erase_singelton_def)
next
  case (Some i)
  have present: "\<forall>n\<in>set (bi_services i). bs_services s n \<noteq> None"
  proof
    fix n assume "n \<in> set (bi_services i)"
    then have "has_service s pid n" using Some by (simp add: has_service_def)
    then have "offered s n pid" using broker_ok_refs [OF assms] by simp
    then show "bs_services s n \<noteq> None" by (cases "bs_services s n") (auto simp: offered_def)
  qed
  from assms have "leaving pid {} s" by (simp add: leaving_ok)
  from leave_services [OF this present] obtain s1 where
    s1: "for_each (leave_service pid) (bi_services i) s = (Inr (), s1)" "leaving pid (set (bi_services i)) s1"
    "bs_instances s1 = bs_instances s" "bs_servers s1 = bs_servers s" by auto
  obtain e where e: "List.find (has_id (bi_server i)) (bs_servers s1) = Some e"
    using broker_ok_instance [OF assms Some] s1(4) by (auto simp: owned_def)
  let ?f = "\<lambda>e. (executable_remove pid e)\<lparr>se_invoked := se_invoked e + bi_invoked i\<rparr>"
  let ?s2 = "on_server (bi_server i) ?f s1"
  let ?s3 = "?s2\<lparr>bs_instances := (bs_instances ?s2)(pid := None)\<rparr>"
  have "leaving pid (set (bi_services i)) ?s2"
    using leaving_on_server [OF s1(2), of ?f] by (simp add: executable_remove_def)
  moreover have "bs_instances ?s2 pid = Some i" using Some s1(3) by (simp add: on_server_def)
  ultimately have "broker_ok ?s3" using leaving_erase by blast
  then have "broker_ok (erase_singelton pid ?s3)"
    by (rule broker_ok_frame) (simp_all add: erase_singelton_def)
  moreover have "remove_process pid s = (Inr (), erase_singelton pid ?s3)"
    using Some s1(1) e by (simp add: remove_process_def after_def change_def get_server_def present_def)
  ultimately show ?thesis by blast
qed

lemma find_add_server:
  "List.find P (bs_servers s) = Some e \<Longrightarrow> List.find P (bs_servers (add_server x s)) = Some e"
  by (simp add: add_server_def find_append)

lemma add_server_simps [simp]:
  "bs_instances (add_server x s) = bs_instances s" "bs_services (add_server x s) = bs_services s"
  "has_service (add_server x s) = has_service s" "offered (add_server x s) = offered s"
  by (auto simp: add_server_def has_service_def offered_def fun_eq_iff)

lemma ok_add_server:
  assumes "broker_ok s"
  shows "broker_ok (add_server x s)"
proof (rule broker_okI)
  show "owned (bs_servers (add_server x s)) i" if "bs_instances (add_server x s) pid = Some i" for pid i
    using that broker_ok_instance [OF assms] find_add_server by (fastforce simp: owned_def)
qed (use broker_ok_refs [OF assms] broker_ok_instance [OF assms] broker_ok_service [OF assms] in simp_all)

section \<open>The operations\<close>

lemma broker_now_returns: "\<exists>now ts. broker_now s = (Inr now, s\<lparr>bs_clock := ts\<rparr>)"
proof (cases "bs_clock s")
  case Nil
  then have "broker_now s = (Inr 0, s\<lparr>bs_clock := bs_clock s\<rparr>)" by (simp add: broker_now_def)
  then show ?thesis by blast
qed (auto simp: broker_now_def)

lemma maintains_now:
  assumes "\<And>s ts. P s \<Longrightarrow> P (s\<lparr>bs_clock := ts\<rparr>)"
  shows "maintains P broker_now"
  unfolding maintains_def using assms broker_now_returns by (metis snd_conv)

lemma keeps_now: "maintains broker_ok broker_now"
  by (rule maintains_now) (auto elim: broker_ok_frame)

lemma keeps_alter_state: "maintains broker_ok (alter_state pid v)"
  unfolding alter_state_def by (intro wf_intros keeps_now) (simp add: ok_on_instance)

text \<open>The services of an instance are added one after the other, with its server and its restrictions fixed.\<close>

definition registered :: "int \<Rightarrow> nat \<Rightarrow> server \<Rightarrow> broker_state \<Rightarrow> bool" where
  "registered pid j e s \<longleftrightarrow> broker_ok s \<and> (\<exists>i. bs_instances s pid = Some i \<and> bi_server i = j) \<and>
     List.find (has_id j) (bs_servers s) = Some e"

lemma registered_add:
  assumes "registered pid j e s" "allowed e v" "sv_instances v = []"
  shows "registered pid j e (add_service pid v s)"
proof -
  from assms(1) obtain i where i: "bs_instances s pid = Some i" "bi_server i = j" and
    e: "List.find (has_id (bi_server i)) (bs_servers s) = Some e" and ok: "broker_ok s" by (auto simp: registered_def)
  have "broker_ok (add_service pid v s)" by (rule ok_add_service [OF ok i(1) e assms(2,3)])
  then show ?thesis using i e by (simp add: registered_def add_service_def on_server_instance_def Let_def)
qed

lemma keeps_add_services: "(\<And>v. v \<in> set vs \<Longrightarrow> sv_instances v = []) \<Longrightarrow> maintains broker_ok (add_services pid vs)"
  unfolding maintains_def
proof (intro allI impI)
  fix s assume fresh: "\<And>v. v \<in> set vs \<Longrightarrow> sv_instances v = []" and s: "broker_ok s"
  show "broker_ok (snd (add_services pid vs s))"
  proof (cases "bs_instances s pid")
    case None
    then show ?thesis using s by (simp add: add_services_def after_def get_server_instance_def present_def)
  next
    case (Some i)
    then obtain e where e: "List.find (has_id (bi_server i)) (bs_servers s) = Some e"
      using broker_ok_instance [OF s] by (auto simp: owned_def)
    have each: "broker_ok (snd (for_each (\<lambda>v. change (add_service pid v)) ws t))"
      if "registered pid (bi_server i) e t" "\<forall>v\<in>set ws. allowed e v \<and> sv_instances v = []" for ws t
      using that by (induction ws arbitrary: t) (auto simp: after_def change_def registered_add, simp add: registered_def)
    have "registered pid (bi_server i) e s" using s Some e by (simp add: registered_def)
    from each [OF this, of "filter (allowed e) vs"] show ?thesis
      using fresh Some e by (simp add: add_services_def after_def get_server_instance_def get_server_def present_def)
  qed
qed

lemma keeps_advertised: "maintains broker_ok (add_services pid (map advertised infos))"
  by (rule keeps_add_services) (auto simp: advertised_def)

lemma keeps_known: "maintains P (present f)"
  by (simp add: maintains_def present_def split: option.split)

lemma keeps_remove_services: "maintains broker_ok (remove_services pid vs)"
  unfolding remove_services_def get_server_instance_def by (intro wf_intros keeps_known) (rule ok_remove_service)

lemma keeps_remove_process: "maintains broker_ok (remove_process pid)"
  unfolding maintains_def using remove_process_ok by (metis snd_conv)

lemma keeps_add_instances: "maintains broker_ok (add_instances j pids)"
  unfolding maintains_def
proof (intro allI impI)
  fix s assume s: "broker_ok s"
  let ?add = "\<lambda>pid. after broker_now (\<lambda>now. change (emplace_instance (started_instance j pid now)))"
  let ?present = "\<lambda>s. broker_ok s \<and> List.find (has_id j) (bs_servers s) \<noteq> None"
  have now: "maintains ?present broker_now"
    by (rule maintains_now) (auto elim: broker_ok_frame)
  have each: "maintains ?present (for_each ?add pids)"
    by (intro wf_intros now) (auto simp: ok_emplace started_instance_def, simp add: emplace_instance_def Let_def)
  have "?present (on_server j (with_instances pids) t)" if "?present t" for t
    using that ok_on_server [of t "with_instances pids" j]
    by (auto simp: with_instances_def on_server_def find_on_server)
  with each have "maintains ?present (after (for_each ?add pids) (\<lambda>_. change (on_server j (with_instances pids))))"
    by (intro maintains_after maintains_change)
  moreover have "maintains broker_ok (after (get_executable j) (\<lambda>_. change (\<lambda>s.
      s\<lparr>bs_executables := upd_first (has_id j) (with_instances pids) (bs_executables s)\<rparr>)))"
    unfolding get_executable_def by (intro wf_intros keeps_known) (auto elim: broker_ok_frame)
  ultimately show "broker_ok (snd (add_instances j pids s))"
    using s unfolding maintains_def add_instances_def by (cases "List.find (has_id j) (bs_servers s)") auto
qed

lemma broker_instance_server: "bi_server (broker_instance s now) = ex_id (broker_server s)"
  by (simp add: broker_instance_def started_instance_def broker_server_def new_server_def new_executable_def
    executable.extend_def server.fields_def)

lemma connect_broker_enters:
  assumes "bs_instances s (ph_pid (bs_self s)) = None" "broker_now s = (Inr now, t)"
  shows "connect_broker infos s = add_services (ph_pid (bs_self s)) (map advertised infos)
    (add_server (broker_server s) ((emplace_instance (broker_instance s now) t)\<lparr>bs_next_id := bs_next_id s + 1\<rparr>))"
  using assms by (simp add: connect_broker_def after_def change_def)

lemma keeps_connect_broker: "maintains broker_ok (connect_broker infos)"
  unfolding maintains_def
proof (intro allI impI)
  fix s assume s: "broker_ok s"
  show "broker_ok (snd (connect_broker infos s))"
  proof (cases "bs_instances s (ph_pid (bs_self s))")
    case None
    obtain now ts where clock: "broker_now s = (Inr now, s\<lparr>bs_clock := ts\<rparr>)" using broker_now_returns by blast
    define s1 where "s1 = s\<lparr>bs_clock := ts\<rparr>"
    have now: "broker_now s = (Inr now, s1)" and s1: "broker_ok s1"
      unfolding s1_def using clock s by (auto elim: broker_ok_frame)
    let ?i = "broker_instance s now"
    let ?enter = "\<lambda>t. add_server (broker_server s) (t\<lparr>bs_next_id := bs_next_id s + 1\<rparr>)"
    have "broker_ok (?enter s1)" by (rule ok_add_server) (use s1 in \<open>auto elim: broker_ok_frame\<close>)
    moreover have "List.find (has_id (bi_server ?i)) (bs_servers (?enter s1)) \<noteq> None"
      unfolding broker_instance_server by (auto simp: add_server_def has_id_def find_None_iff' list_ex_iff)
    ultimately have "broker_ok (emplace_instance ?i (?enter s1))"
      by (intro ok_emplace) (simp_all add: broker_instance_def started_instance_def)
    then have "broker_ok (?enter (emplace_instance ?i s1))"
      by (rule broker_ok_frame) (simp_all add: emplace_instance_def add_server_def Let_def split: option.split)
    moreover have "connect_broker infos s =
        add_services (ph_pid (bs_self s)) (map advertised infos) (?enter (emplace_instance ?i s1))"
      by (rule connect_broker_enters [OF None now])
    moreover have "maintains broker_ok (add_services (ph_pid (bs_self s)) (map advertised infos))"
      by (rule keeps_advertised)
    ultimately show ?thesis by (simp add: maintains_def)
  qed (use s in \<open>simp add: connect_broker_def\<close>)
qed

end
