(* ===== verification/Broker_Walk.thy ===== *)
theory Broker_Walk
  imports Broker_Invariant
begin

text \<open>
  What the handlers of the broker need from an invariant, as an interface: the steps they are made of keep
  it. The handlers, the dispatch and the pump then keep it. \<open>E\<close> says which events are handled. The first
  instance is that instances and services refer to each other.
\<close>

section \<open>The interfaces\<close>

text \<open>The fields an invariant may read.\<close>

definition same_core :: "broker_state \<Rightarrow> broker_state \<Rightarrow> bool" where
  "same_core s t \<longleftrightarrow> bs_instances t = bs_instances s \<and> bs_services t = bs_services s \<and> bs_servers t = bs_servers s \<and>
     bs_requests t = bs_requests s \<and> bs_sent t = bs_sent s \<and> bs_replies t = bs_replies s \<and>
     bs_forward t = bs_forward s \<and> bs_self t = bs_self s"

text \<open>The messages that do not grant an instance; only these wait for a queue.\<close>

fun plain_message :: "broker_message \<Rightarrow> bool" where
  "plain_message (Lookup_reply c i p L_idle) = False"
| "plain_message m = True"

locale broker_sends =
  fixes I :: "broker_state \<Rightarrow> bool"
  assumes frame: "I s \<Longrightarrow> same_core s t \<Longrightarrow> I t"
    and pushed: "plain_message m \<Longrightarrow> maintains I (broker_push q m)"
    and kept_back: "I s \<Longrightarrow> list_all (\<lambda>m. plain_message (wm_message m)) ms \<Longrightarrow> I (s\<lparr>bs_replies := ms\<rparr>)"
    and waiting_plain: "I s \<Longrightarrow> list_all (\<lambda>m. plain_message (wm_message m)) (bs_replies s)"
begin

lemma framed: "(\<And>s. same_core s (f s)) \<Longrightarrow> maintains I (change f)"
  by (rule maintains_change) (blast intro: frame)

lemma sent: "plain_message m \<Longrightarrow> maintains I (blocking_send q m)"
  unfolding blocking_send_def by (intro wf_intros pushed) (auto intro: frame simp: same_core_def)

lemma later: "plain_message m \<Longrightarrow> maintains I (send_later m qs task)"
  unfolding send_later_def by (rule maintains_change) (simp add: kept_back waiting_plain)

lemma sent_or_kept: "plain_message m \<Longrightarrow> maintains I (send_or_keep m q)"
  unfolding send_or_keep_def by (intro wf_intros pushed later)

lemma now: "maintains I broker_now"
  by (rule maintains_now) (auto intro: frame simp: same_core_def)

lemma push_all: "plain_message m \<Longrightarrow> I s \<Longrightarrow> I (snd (push_all m qs s))"
proof (induction qs arbitrary: s)
  case (Cons q qs)
  obtain r t where p: "broker_push q m s = (r, t)" by fastforce
  then have "I t" using maintainsD [OF pushed [OF Cons(2)] Cons(3)] by simp
  with Cons(1) [OF Cons(2) this] p show ?case by (cases r) (auto split: prod.split bool.split)
qed simp

lemma push_first: "plain_message m \<Longrightarrow> I s \<Longrightarrow> I (snd (push_first m qs s))"
proof (induction qs arbitrary: s)
  case (Cons q qs)
  obtain r t where p: "broker_push q m s = (r, t)" by fastforce
  then have "I t" using maintainsD [OF pushed [OF Cons(2)] Cons(3)] by simp
  with Cons(1) [OF Cons(2) this] p show ?case by (cases r) (auto split: prod.split bool.split)
qed simp

lemma send_waiting:
  assumes "send_waiting m s = (sent, m', s')" "plain_message (wm_message m)" "I s"
  shows "I s' \<and> wm_message m' = wm_message m"
  using assms push_all [OF assms(2,3), of "wm_targets m"] push_first [OF assms(2,3), of "wm_targets m"]
  by (auto simp: send_waiting_def Let_def split: send_task.splits prod.splits)

lemma lookup_process: "maintains I (lookup_process m)"
proof -
  have "maintains I (change (\<lambda>s. s\<lparr>bs_process_lookup := bs_process_lookup s @ [m]\<rparr>))"
    by (rule framed) (simp add: same_core_def)
  moreover have "maintains I (send_or_keep (process_reply m p d) q)" for p d q
    by (rule sent_or_kept) (simp add: process_reply_def)
  ultimately show ?thesis
    unfolding maintains_def lookup_process_def by (auto split: option.split)
qed

lemma register_singelton: "maintains I (register_singelton m)"
  unfolding register_singelton_def
  by (intro wf_intros lookup_process framed) (simp_all add: same_core_def frame)

text \<open>The replies that wait are sent in some order; those that stay carry the messages they carried.\<close>

lemma send_from:
  assumes "I s" "list_all (\<lambda>m. plain_message (wm_message m)) (L @ R @ M)" "case h of Some m \<Rightarrow> plain_message (wm_message m) | None \<Rightarrow> True"
    "send_from try_waiting L h M R s = (r, ms, s')"
  shows "I s' \<and> (\<exists>A B. r = Inr (A, B) \<and> list_all (\<lambda>m. plain_message (wm_message m)) B)"
  using assms
proof (induction "length M" arbitrary: L h M R s)
  case 0
  then show ?case by (cases h) auto
next
  case (Suc n)
  show ?case
  proof (cases h)
    case None
    obtain m M' where M: "M = m # M'" using Suc(2) by (cases M) auto
    obtain sent m' t where w: "send_waiting m s = (sent, m', t)" by (metis prod_cases3)
    have t: "I t \<and> wm_message m' = wm_message m" using send_waiting [OF w] Suc(3,4) M by simp
    from Suc(6) None M w have run: "(if sent then send_from try_waiting (L @ [m']) None M' R t
        else send_from try_waiting L (Some m') M' R t) = (r, ms, s')" by (simp add: try_waiting_def)
    show ?thesis
    proof (cases sent)
      case True
      then show ?thesis using Suc(1) [of M' t "L @ [m']" R None] run Suc(2,4) M t by simp
    next
      case False
      then show ?thesis using Suc(1) [of M' t L R "Some m'"] run Suc(2,4) M t by simp
    qed
  next
    case (Some x)
    obtain M' z where e: "M = M' @ [z]" using Suc(2) by (cases M rule: rev_cases) auto
    obtain sent z' t where w: "send_waiting z s = (sent, z', t)" by (metis prod_cases3)
    have t: "I t \<and> wm_message z' = wm_message z" using send_waiting [OF w] Suc(3,4) e by simp
    from Suc(6) w have run: "(if sent then send_from try_waiting (L @ [z']) None M' (x # R) t
        else send_from try_waiting L (Some x) M' (z' # R) t) = (r, ms, s')" unfolding Some e send_from_snoc by (simp add: try_waiting_def)
    have M': "n = length M'" using Suc(2) e by simp
    show ?thesis
    proof (cases sent)
      case True
      then show ?thesis using Suc(1) [of M' t "L @ [z']" "x # R" None] run M' Suc(4,5) Some e t by simp
    next
      case False
      then show ?thesis using Suc(1) [of M' t L "z' # R" "Some x"] run M' Suc(4,5) Some e t by simp
    qed
  qed
qed

lemma flush: "maintains I broker_flush"
  unfolding maintains_def
proof (intro allI impI)
  fix s assume s: "I s"
  let ?s0 = "s\<lparr>bs_replies := []\<rparr>"
  obtain r ms s' where run: "send_from try_waiting [] None (bs_replies s) [] ?s0 = (r, ms, s')" by (metis prod_cases3)
  have "I ?s0" using kept_back [OF s] by simp
  from send_from [OF this _ _ run] obtain A B where
    s': "I s'" "r = Inr (A, B)" "list_all (\<lambda>m. plain_message (wm_message m)) B" using waiting_plain [OF s] by auto
  then have "I (s'\<lparr>bs_replies := bs_replies s' @ B\<rparr>)" by (simp add: kept_back waiting_plain)
  then show "I (snd (broker_flush s))" using run s'(2) by (simp add: broker_flush_def send_partition_def)
qed

end

text \<open>
  What an invariant has to stand of the operations themselves. The lookup of a service is one step; the
  events that release an instance, and the forward, need the permission of \<open>E\<close>.
\<close>

locale broker_steps = broker_sends I
  for I :: "broker_state \<Rightarrow> bool" +
  fixes E :: "broker_event \<Rightarrow> bool"
  assumes server_changed: "I s \<Longrightarrow> (\<And>e. ex_id (f e) = ex_id e) \<Longrightarrow> (\<And>e. se_restrictions (f e) = se_restrictions e) \<Longrightarrow>
      I (on_server j f s)"
    and queue_changed: "I s \<Longrightarrow> I (on_server_instance pid (\<lambda>i. i\<lparr>bi_process := (bi_process i)\<lparr>ph_queue := q\<rparr>\<rparr>) s)"
    and shut_down: "maintains I (alter_state pid V_shutdown)"
    and services_added: "maintains I (add_services pid (map advertised vs))"
    and services_removed: "maintains I (remove_services pid (map advertised vs))"
    and process_removed: "maintains I (remove_process pid)"
    and instances_added: "maintains I (add_instances j pids)"
    and looked_up: "maintains I (handle_lookup m)"
    and connected: "E (Be_connect c) \<Longrightarrow> maintains I (alter_state (ph_pid (cr_process c)) V_idle)"
    and ready: "E (Be_tm_ready p True) \<Longrightarrow> maintains I (alter_state (ph_pid p) V_idle)"
    and acknowledged: "E (Be_ack p) \<Longrightarrow> maintains I (handle_ack p)"
    and self_acknowledged: "E (Be_call k) \<Longrightarrow> maintains I call_ack"
    and forwarding: "E (Be_forward_connect r) \<Longrightarrow> I s \<Longrightarrow> I (s\<lparr>bs_forward := cr_process r\<rparr>)"
begin

lemma found: "maintains I (present f)" by (rule keeps_known)

lemmas found_all = found [of "\<lambda>s. bs_instances s x" for x, folded get_server_instance_def]
  found [of "\<lambda>s. List.find (has_id i) (bs_servers s)" for i, folded get_server_def]
  found [of "\<lambda>s. List.find (has_id i) (bs_executables s)" for i, folded get_executable_def]
  found [of "\<lambda>s. List.find (\<lambda>g. gr_id g = i) (bs_groups s)" for i, folded get_group_def]

lemma at_state: "(\<And>x. maintains I (f x)) \<Longrightarrow> maintains I (\<lambda>s. f (g s) s)"
  by (simp add: maintains_def)

section \<open>Connects\<close>

lemma accept_connect: "(\<And>d. plain_message (reply d)) \<Longrightarrow> maintains I (accept_connect m reply)"
  unfolding accept_connect_def by (intro wf_intros sent)

lemma connect_process:
  assumes "\<And>d. plain_message (reply d)"
  shows "maintains I (connect_process m reply)"
proof -
  have configured: "maintains I (after (get_server_instance pid) (\<lambda>i. after (get_server (bi_server i)) (\<lambda>_.
      after (change (on_server (bi_server i) (\<lambda>e. e\<lparr>ex_configured := 1\<rparr>))) (\<lambda>_. return False))))" for pid
    by (intro wf_intros found_all server_changed) simp_all
  have refused: "maintains I (after (blocking_send q (reply Shutdown)) (\<lambda>_. return False))" for q
    by (intro wf_intros sent assms)
  have single: "maintains I (after (blocking_send q (reply Singleton)) (\<lambda>_. after (get_server_instance pid) (\<lambda>i. after (get_server (bi_server i)) (\<lambda>_.
      after (change (on_server (bi_server i) (\<lambda>e. e\<lparr>ex_configured := 1\<rparr>))) (\<lambda>_. return False)))))" for q pid
    by (intro maintains_after sent assms configured)
  have fresh: "maintains I (after (register_singelton m) (\<lambda>_. accept_connect m reply))"
    by (intro wf_intros register_singelton accept_connect assms)
  have accepted: "maintains I (accept_connect m reply)" by (rule accept_connect) (rule assms)
  show ?thesis
    using refused single fresh accepted unfolding maintains_def connect_process_def
    by (auto split: option.split)
qed

lemma handle_server_connect: "E (Be_connect m) \<Longrightarrow> maintains I (handle_server_connect m)"
  unfolding handle_server_connect_def Let_def
  by (intro wf_intros found_all connect_process services_added connected)
    (simp_all add: queue_changed frame same_core_def)

lemma handle_traffic_connect: "maintains I (handle_traffic_connect m)"
  unfolding handle_traffic_connect_def by (intro wf_intros connect_process framed) (simp_all add: same_core_def)

lemma handle_traffic_disconnect: "maintains I (handle_traffic_disconnect p)"
  unfolding handle_traffic_disconnect_def by (intro framed) (simp add: same_core_def)

lemma handle_tm_connect: "maintains I (handle_tm_connect m)"
proof -
  have "maintains I (\<lambda>s. blocking_send q (Tm_configuration c (bs_domain s) (configuration_resources (bs_groups s))) s)" for q c
    using sent unfolding maintains_def by simp
  then show ?thesis
    unfolding handle_tm_connect_def by (intro wf_intros connect_process) (auto intro: frame simp: same_core_def)
qed

lemma handle_tm_ready: "E (Be_tm_ready p b) \<Longrightarrow> maintains I (handle_tm_ready p b)"
  unfolding handle_tm_ready_def by (intro wf_intros found_all ready) simp

lemma client_resources: "maintains I (client_resources is)"
proof (induction "is")
  case (Cons i "is")
  have rest: "maintains I (after (client_resources is) (\<lambda>rs. return (gr_resources g @ rs)))" for g
    by (intro wf_intros Cons)
  show ?case
    unfolding maintains_def
  proof (intro allI impI)
    fix s assume s: "I s"
    show "I (snd (client_resources (i # is) s))"
    proof (cases "List.find (\<lambda>g. gr_id g = i) (bs_groups s)")
      case None
      then show ?thesis using s by (simp add: get_group_def present_def)
    next
      case (Some g)
      then have "client_resources (i # is) s = after (client_resources is) (\<lambda>rs. return (gr_resources g @ rs)) s"
        by (simp add: get_group_def present_def)
      then show ?thesis using rest [of g] s by (simp add: maintains_def)
    qed
  qed
qed (simp add: maintains_def)

lemma handle_client_connect: "maintains I (handle_client_connect m)"
proof -
  let ?p = "cr_process m"
  have accepted: "maintains I (\<lambda>s. after (connect_process m (\<lambda>d. Client_connect_reply (cr_correlation m) d rs (bs_domain s))) (\<lambda>_. return ()) s)" for rs
    by (rule at_state) (intro wf_intros connect_process, simp)
  have unknown: "maintains I (\<lambda>s. blocking_send (ph_queue ?p) (Client_connect_reply nil_uuid Start [] (bs_domain s)) s)"
    by (rule at_state) (intro sent, simp)
  show ?thesis unfolding handle_client_connect_def resources_of_def
    by (intro wf_intros found_all client_resources accepted unknown)
qed

lemma handle_forward_connect: "E (Be_forward_connect m) \<Longrightarrow> maintains I (handle_forward_connect m)"
  unfolding handle_forward_connect_def by (intro wf_intros connect_process forwarding) simp_all

section \<open>Processes\<close>

lemma spawn: "maintains I (spawn e n)"
proof (induction n)
  case (Suc n)
  have "maintains I (process_spawn e)"
    unfolding maintains_def process_spawn_def by (auto simp: same_core_def frame split: list.split option.split)
  then have "maintains I (after (process_spawn e) (\<lambda>pid. after (spawn e n) (\<lambda>pids. return (pid # pids))))"
    by (intro wf_intros Suc)
  then show ?case by (simp add: maintains_def after_def)
qed (simp add: maintains_def)

lemma boot: "maintains I (boot e n)"
  unfolding boot_def by (intro wf_intros spawn instances_added)

lemma shutdown_instance: "maintains I (shutdown_instance pid)"
proof -
  have "maintains I (catch
          (after (get_server_instance pid) (\<lambda>_. after (alter_state pid V_shutdown) (\<lambda>_.
             after (get_server_instance pid) (\<lambda>i. send_or_keep Shutdown_request (ph_queue (bi_process i))))))
          (\<lambda>e. if e = B_missing \<or> e = B_unavailable then return () else throw e))"
    by (intro wf_intros found_all shut_down sent_or_kept) simp
  then show ?thesis unfolding maintains_def shutdown_instance_def by (simp add: return_def)
qed

lemma adjust_instances: "maintains I (adjust_instances e)"
  unfolding adjust_instances_def shutdown_instances_def Let_def by (intro wf_intros boot shutdown_instance)

lemma handle_registration: "maintains I (handle_registration p)"
  unfolding handle_registration_def by (intro framed) (simp add: same_core_def)

lemma notify_listeners: "maintains I (notify_listeners x)"
  unfolding maintains_def
proof (intro allI impI)
  fix s assume s: "I s"
  let ?m = "\<lparr>wm_targets = map ph_queue (bs_listeners s), wm_message = Death_event x, wm_task = All_targets\<rparr>"
  obtain sent m s' where w: "send_waiting ?m s = (sent, m, s')" by (metis prod_cases3)
  from send_waiting [OF w _ s] have s': "I s'" "plain_message (wm_message m)" by simp_all
  then have "I (s'\<lparr>bs_replies := bs_replies s' @ [m]\<rparr>)" by (simp add: kept_back waiting_plain)
  with s s' w show "I (snd (notify_listeners x s))" by (simp add: notify_listeners_def)
qed

lemma handle_death: "maintains I (handle_death x)"
  unfolding handle_death_def
  by (intro wf_intros found_all notify_listeners process_removed adjust_instances server_changed)
    (simp_all add: erase_listeners_def frame same_core_def)

section \<open>Administration and dispatch\<close>

lemma discard_missing: "maintains I f \<Longrightarrow> maintains I (discard_missing f)"
  unfolding discard_missing_def by (intro wf_intros)

lemma update_alias: "maintains I (update_alias d)"
proof -
  have "maintains I (configure_server n j)" for n j
    unfolding configure_server_def by (intro wf_intros found_all adjust_instances server_changed) simp_all
  then have "maintains I (for_each (configure_server n) js)" for n js by (intro wf_intros)
  then show ?thesis unfolding maintains_def update_alias_def by simp
qed

lemma handle_call: "E (Be_call m) \<Longrightarrow> maintains I (handle_call m)"
proof -
  assume ev: "E (Be_call m)"
  have reply: "maintains I (swallow (call_reply m code))" for code
    unfolding swallow_def call_reply_def by (intro wf_intros sent) simp
  have ack: "maintains I (swallow call_ack)"
    unfolding swallow_def by (intro wf_intros self_acknowledged [OF ev])
  have service: "maintains I (admin_service c)" for c
    unfolding admin_service_def by (cases c) (simp_all add: maintains_catch maintains_for_each update_alias maintains_return)
  show ?thesis unfolding handle_call_def by (intro wf_intros reply ack service)
qed

lemma handled: "E ev \<Longrightarrow> maintains I (broker_handle ev)"
proof (cases ev)
  case (Be_ping c p)
  have "maintains I (\<lambda>s. blocking_send (ph_queue p) (Ping_reply c (bs_self s)) s)"
    by (rule at_state) (intro sent, simp)
  with Be_ping show ?thesis by (simp add: broker_handle_def)
qed (auto simp: broker_handle_def handle_advertise_def handle_unadvertise_def
  intro: handle_tm_connect handle_tm_ready handle_forward_connect handle_registration handle_death lookup_process
    handle_server_connect discard_missing services_added services_removed looked_up acknowledged handle_traffic_connect
    handle_traffic_disconnect handle_client_connect handle_call maintains_throw maintains_return)

lemma dispatched: "E ev \<Longrightarrow> maintains I (broker_dispatch ev)"
  unfolding broker_dispatch_def by (intro wf_intros handled)

lemma polled: "list_all E evs \<Longrightarrow> maintains I (broker_poll n evs)"
proof (induction evs arbitrary: n)
  case (Cons ev evs)
  then have ev: "maintains I (broker_dispatch ev)" and rest: "maintains I (broker_poll n evs)" for n
    by (simp_all add: dispatched)
  show ?case
    unfolding maintains_def
  proof (intro allI impI)
    fix s assume s: "I s"
    obtain r t where d: "broker_dispatch ev s = (r, t)" by fastforce
    then have "I t" using maintainsD [OF ev s] by simp
    with d rest show "I (snd (broker_poll n (ev # evs) s))" by (cases r) (simp_all add: maintains_def)
  qed
qed (simp add: maintains_def)

lemma round: "E first \<Longrightarrow> list_all E polls \<Longrightarrow> maintains I (broker_round first polls)"
proof -
  assume "E first" "list_all E polls"
  have "maintains I (after (broker_dispatch first) (\<lambda>_. return ()))"
    by (intro wf_intros dispatched \<open>E first\<close>)
  moreover have "maintains I (after broker_flush (\<lambda>_. broker_poll broker_batch polls))"
    by (intro wf_intros flush polled \<open>list_all E polls\<close>)
  ultimately show ?thesis unfolding maintains_def broker_round_def by simp
qed

lemma rounds: "\<forall>(first, polls)\<in>set rs. E first \<and> list_all E polls \<Longrightarrow> maintains I (broker_rounds rs)"
proof (induction rs)
  case (Cons r rs)
  obtain first polls where r: "r = (first, polls)" by fastforce
  with Cons have "maintains I (after (broker_round first polls) (\<lambda>_. broker_rounds rs))"
    by (intro wf_intros round) auto
  then show ?case unfolding r by (simp add: broker_rounds_def maintains_def)
qed (simp add: broker_rounds_def maintains_def)

end

section \<open>The life of the broker\<close>

locale broker_life = broker_steps I E
  for I :: "broker_state \<Rightarrow> bool" and E :: "broker_event \<Rightarrow> bool" +
  assumes every: "E ev"
    and broker_connected: "maintains I (connect_broker infos)"
begin

lemma maintains_cases: "(\<And>s. I s \<Longrightarrow> I (snd (f s))) \<Longrightarrow> maintains I f"
  by (simp add: maintains_def)

lemma servers_booted_same: "snd (servers_booted is s) = s"
proof -
  have booted: "snd (instances_booted pids t) = t" for pids t
    by (induction pids) (auto simp: get_server_instance_def present_def split: option.split)
  show ?thesis
  proof (induction "is")
    case (Cons i "is")
    have "snd (after (get_server i) (\<lambda>e. instances_booted (ex_instances e)) s) = s"
      using booted by (auto simp: after_def get_server_def present_def split: option.split)
    with Cons show ?case
      by (cases "after (get_server i) (\<lambda>e. instances_booted (ex_instances e)) s") (auto split: sum.split)
  qed simp
qed

lemma await_booted: "I s \<Longrightarrow> I (snd (await_booted is evs s))"
proof (induction evs arbitrary: s)
  case Nil
  obtain r t where "servers_booted is s = (r, t)" by fastforce
  moreover then have "t = s" using servers_booted_same [of "is" s] by simp
  ultimately show ?case using Nil by (cases r) (simp_all add: await_booted.simps)
next
  case (Cons ev evs)
  obtain r t where b: "servers_booted is s = (r, t)" by fastforce
  then have t: "t = s" using servers_booted_same [of "is" s] by simp
  obtain r' t' where d: "broker_dispatch ev s = (r', t')" by fastforce
  then have "I t'" using maintainsD [OF dispatched [OF every] Cons(2)] by simp
  then show ?case using Cons b d unfolding t
    by (cases r; cases r') (simp_all add: await_booted.simps [of "is" "ev # evs"])
qed

lemma boot_executable: "maintains I (boot_executable e)"
  unfolding boot_executable_def by (intro wf_intros boot)

lemma boot_group: "maintains I (boot_group b evs)"
proof -
  have "maintains I (await_booted is evs)" for "is" by (rule maintains_cases) (rule await_booted)
  then show ?thesis unfolding boot_group_def
    by (intro wf_intros found_all boot_executable broker_connected) simp_all
qed

lemma boot_groups: "I s \<Longrightarrow> I (snd (boot_groups bs evs s))"
proof (induction bs arbitrary: evs s)
  case (Cons b bs)
  obtain r t where d: "boot_group b evs s = (r, t)" by fastforce
  then have "I t" using maintainsD [OF boot_group Cons(2)] by simp
  with Cons d show ?case by (cases r) simp_all
qed simp

lemma broker_boot: "maintains I (broker_boot evs)"
proof -
  have "maintains I boot_order"
    unfolding maintains_def boot_order_def Let_def by (auto intro: frame simp: same_core_def split: prod.split)
  moreover have "maintains I (boot_groups bs evs)" for bs by (rule maintains_cases) (rule boot_groups)
  ultimately show ?thesis unfolding broker_boot_def by (rule maintains_after)
qed

lemma broker_pump: "maintains I (broker_pump rs)"
  unfolding broker_pump_def by (intro wf_intros broker_connected rounds) (simp add: every list_all_iff split_beta)

lemma broker_run: "I s \<Longrightarrow> I (snd (broker_run evs rs s))"
proof -
  assume s: "I s"
  obtain r t where d: "after (broker_boot evs) (\<lambda>_. broker_pump rs) s = (r, t)" by fastforce
  have "maintains I (after (broker_boot evs) (\<lambda>_. broker_pump rs))" by (rule maintains_after [OF broker_boot broker_pump])
  from maintainsD [OF this s d] have t: "I t" .
  obtain r' t' where e: "remove_process (ph_pid (bs_self t)) t = (r', t')" by fastforce
  then have "I t'" using maintainsD [OF process_removed t] by simp
  moreover have "same_core t' (t'\<lparr>bs_terminated := x\<rparr>)" for x by (simp add: same_core_def)
  ultimately have "I (broker_terminate t)"
    using e frame by (cases r') (auto simp: broker_terminate_def)
  with t d show ?thesis by (cases r) (simp_all add: broker_run_def)
qed

end

section \<open>The references are consistent\<close>

definition replies_plain :: "broker_state \<Rightarrow> bool" where
  "replies_plain s = list_all (\<lambda>m. plain_message (wm_message m)) (bs_replies s)"

definition broker_inv :: "broker_state \<Rightarrow> bool" where
  "broker_inv s \<longleftrightarrow> broker_ok s \<and> replies_plain s"

lemma broker_inv_frame: "broker_inv s \<Longrightarrow> same_core s t \<Longrightarrow> broker_inv t"
  unfolding broker_inv_def by (auto simp: same_core_def replies_plain_def elim: broker_ok_frame)

lemma broker_inv_ok: "broker_inv s \<Longrightarrow> broker_ok t \<Longrightarrow> bs_replies t = bs_replies s \<Longrightarrow> broker_inv t"
  by (simp add: broker_inv_def replies_plain_def)

text \<open>
  Relations between the state before and after that every operation of the state respects, as an interface:
  reflexive and transitive, blind to most of the state and to all of an instance but its state.
\<close>

definition follows :: "(broker_state \<Rightarrow> broker_state \<Rightarrow> bool) \<Rightarrow> 'a broker \<Rightarrow> bool" where
  "follows Q f \<longleftrightarrow> (\<forall>s. Q s (snd (f s)))"

locale broker_frame =
  fixes Q :: "broker_state \<Rightarrow> broker_state \<Rightarrow> bool"
  assumes trans: "Q s t \<Longrightarrow> Q t u \<Longrightarrow> Q s u"
    and other: "bs_instances t = bs_instances s \<Longrightarrow> bs_sent t = bs_sent s \<Longrightarrow> bs_requests t = bs_requests s \<Longrightarrow>
      bs_replies t = bs_replies s \<Longrightarrow> bs_forward t = bs_forward s \<Longrightarrow> bs_self t = bs_self s \<Longrightarrow> Q s t"
    and instance_changed: "(\<And>i. bi_state (f i) = bi_state i) \<Longrightarrow> Q s (on_server_instance pid f s)"
    and instance_gone: "Q s (s\<lparr>bs_instances := (bs_instances s)(pid := None)\<rparr>)"
    and instance_started: "Q s (emplace_instance (started_instance j pid now) s)"
begin

lemma same: "Q s s"
  by (rule other) simp_all

lemma follows_after:
  assumes "follows Q f" "\<And>x. follows Q (g x)"
  shows "follows Q (after f g)"
  unfolding follows_def
proof
  fix s
  obtain r t where f: "f s = (r, t)" by fastforce
  then have "Q s t" using assms(1) unfolding follows_def by (metis snd_conv)
  then show "Q s (snd (after f g s))"
    using f assms(2) trans by (cases r) (auto simp: after_def follows_def)
qed

lemma follows_change: "(\<And>s. Q s (h s)) \<Longrightarrow> follows Q (change h)"
  by (simp add: follows_def change_def)

lemma follows_steps: "follows Q (present k)" "follows Q (return x)" "follows Q broker_now"
proof -
  show "follows Q (present k)" "follows Q (return x)"
    by (auto simp: follows_def present_def return_def same split: option.split)
  show "follows Q broker_now"
    unfolding follows_def
  proof
    fix s
    obtain now ts where "broker_now s = (Inr now, s\<lparr>bs_clock := ts\<rparr>)" using broker_now_returns by blast
    then show "Q s (snd (broker_now s))" by (simp add: other)
  qed
qed

lemma follows_each: "(\<And>x. follows Q (f x)) \<Longrightarrow> follows Q (for_each f xs)"
proof (induction xs)
  case (Cons x xs)
  then have "follows Q (after (f x) (\<lambda>_. for_each f xs))" by (intro follows_after) simp_all
  then show ?case by (simp add: follows_def)
qed (simp add: follows_def same)

lemma follows_choice: "(\<And>s. \<exists>g. follows Q g \<and> f s = g s) \<Longrightarrow> follows Q f"
  unfolding follows_def by metis

lemmas follows_rules = follows_after follows_change follows_steps follows_each

lemma altered: "(\<And>s now. Q s (on_server_instance pid (\<lambda>i. i\<lparr>bi_state := v, bi_last := now\<rparr>) s)) \<Longrightarrow> follows Q (alter_state pid v)"
  unfolding alter_state_def by (intro follows_rules)

lemma services_added: "follows Q (add_services pid vs)"
  unfolding add_services_def get_server_instance_def get_server_def
proof (intro follows_rules)
  fix v and s :: broker_state
  show "Q s (add_service pid v s)"
    unfolding add_service_def Let_def by (rule trans [OF other instance_changed]) simp_all
qed

lemma services_removed: "follows Q (remove_services pid vs)"
  unfolding remove_services_def get_server_instance_def
proof (intro follows_rules)
  fix v and s :: broker_state
  show "Q s (remove_service pid v s)"
    unfolding remove_service_def by (rule trans [OF instance_changed other]) (simp_all add: instance_remove_def on_service_def)
qed

lemma process_removed: "follows Q (remove_process pid)"
proof -
  have leave: "follows Q (leave_service pid n)" for n
    unfolding leave_service_def get_service_def by (intro follows_rules other) (simp_all add: on_service_def)
  have "follows Q (after (for_each (leave_service pid) names) (\<lambda>_. after (get_server j) (\<lambda>_.
      after (change (on_server j f)) (\<lambda>_. after (change (\<lambda>s. s\<lparr>bs_instances := (bs_instances s)(pid := None)\<rparr>)) (\<lambda>_.
        change (erase_singelton pid))))))" for names j f
    unfolding get_server_def
    by (intro follows_rules leave instance_gone other) (simp_all add: on_server_def erase_singelton_def)
  moreover have "follows Q (change (erase_singelton pid))"
    "follows Q (change (\<lambda>s. s\<lparr>bs_executables := upd_first (\<lambda>e. pid \<in> set (ex_instances e)) (executable_remove pid) (bs_executables s)\<rparr>))"
    by (intro follows_change other; simp add: erase_singelton_def)+
  ultimately show ?thesis
    by (intro follows_choice) (force simp: remove_process_def change_def split: option.split)
qed

lemma instances_added: "follows Q (add_instances j pids)"
proof -
  have "follows Q (after (for_each (\<lambda>pid. after broker_now (\<lambda>now. change (emplace_instance (started_instance j pid now)))) pids) (\<lambda>_.
      change (on_server j (with_instances pids))))"
    by (intro follows_rules instance_started other) (simp_all add: on_server_def)
  moreover have "follows Q (after (get_executable j) (\<lambda>_. change (\<lambda>s.
      s\<lparr>bs_executables := upd_first (has_id j) (with_instances pids) (bs_executables s)\<rparr>)))"
    unfolding get_executable_def by (intro follows_rules other) simp_all
  ultimately show ?thesis
    by (intro follows_choice) (force simp: add_instances_def split: option.split)
qed

lemma broker_connected:
  assumes "\<And>s u now. Q s (emplace_instance (broker_instance u now) s)"
  shows "follows Q (connect_broker infos)"
proof -
  have "follows Q (after broker_now (\<lambda>now. after (change (emplace_instance (broker_instance u now))) (\<lambda>_.
      after (change (\<lambda>t. add_server e (t\<lparr>bs_next_id := n\<rparr>))) (\<lambda>_. add_services pid vs))))" for u e n pid vs
    by (intro follows_rules services_added assms other) (simp_all add: add_server_def)
  then show ?thesis
    by (intro follows_choice) (force simp: connect_broker_def intro: follows_steps(2) split: option.split simp: return_def)
qed

end

interpretation replies: broker_frame "\<lambda>s t. bs_replies t = bs_replies s"
  by unfold_locales (simp_all add: on_server_instance_def emplace_instance_def Let_def)

lemma inv_of_ok: "maintains broker_ok f \<Longrightarrow> follows (\<lambda>s t. bs_replies t = bs_replies s) f \<Longrightarrow> maintains broker_inv f"
  unfolding maintains_def follows_def broker_inv_def replies_plain_def by simp

lemma inv_pushed: "maintains broker_inv (broker_push q m)"
  unfolding maintains_def broker_push_def
  by (auto split: list.split broker_outcome.split) (auto simp: broker_inv_def replies_plain_def elim: broker_ok_frame)

lemma inv_sent: "maintains broker_inv (blocking_send q m)"
  unfolding blocking_send_def by (intro wf_intros inv_pushed) (auto intro: broker_inv_frame simp: same_core_def)

lemma inv_alter_state: "maintains broker_inv (alter_state pid v)"
  by (intro inv_of_ok keeps_alter_state replies.altered) (simp add: on_server_instance_def)

lemmas inv_add_services = inv_of_ok [OF keeps_advertised replies.services_added]
lemmas inv_remove_services = inv_of_ok [OF keeps_remove_services replies.services_removed]
lemmas inv_remove_process = inv_of_ok [OF keeps_remove_process replies.process_removed]
lemmas inv_add_instances = inv_of_ok [OF keeps_add_instances replies.instances_added]

lemma inv_counted: "maintains broker_inv (change (on_service n (\<lambda>v. v\<lparr>sv_lookedup := sv_lookedup v + 1\<rparr>)))"
proof (rule maintains_change)
  fix s assume "broker_inv s"
  then show "broker_inv (on_service n (\<lambda>v. v\<lparr>sv_lookedup := sv_lookedup v + 1\<rparr>) s)"
    using ok_on_service [of s "\<lambda>v. v\<lparr>sv_lookedup := sv_lookedup v + 1\<rparr>" n]
    by (simp add: broker_inv_def replies_plain_def name_of_def) (simp add: on_service_def)
qed

lemma inv_invoked: "maintains broker_inv (change (on_server_instance pid (\<lambda>i. i\<lparr>bi_invoked := bi_invoked i + 1\<rparr>)))"
proof (rule maintains_change)
  fix s assume "broker_inv s"
  then show "broker_inv (on_server_instance pid (\<lambda>i. i\<lparr>bi_invoked := bi_invoked i + 1\<rparr>) s)"
    using ok_on_instance [of s "\<lambda>i. i\<lparr>bi_invoked := bi_invoked i + 1\<rparr>" pid]
    by (simp add: broker_inv_def replies_plain_def) (simp add: on_server_instance_def)
qed

lemma inv_requests: "maintains broker_inv (change (\<lambda>s. s\<lparr>bs_requests := f (bs_requests s)\<rparr>))"
  by (rule maintains_change) (auto elim: broker_ok_frame simp: broker_inv_def replies_plain_def)

lemma inv_handle_lookup: "maintains broker_inv (handle_lookup m)"
proof -
  have grant: "maintains broker_inv (after (alter_state pid V_busy) (\<lambda>_. after (blocking_send q r) (\<lambda>_.
      change (on_service n (\<lambda>v. v\<lparr>sv_lookedup := sv_lookedup v + 1\<rparr>)))))" for pid q r n
    by (intro maintains_after inv_alter_state inv_sent inv_counted)
  have stack: "maintains broker_inv (after (change (\<lambda>s. s\<lparr>bs_requests := bs_requests s @ [m]\<rparr>)) (\<lambda>_. blocking_send q r))" for q r
    by (intro maintains_after inv_sent inv_requests)
  show ?thesis
    using grant stack inv_sent unfolding maintains_def handle_lookup_def by (auto split: option.split)
qed

lemma inv_handle_ack: "maintains broker_inv (handle_ack p)"
proof -
  have serve: "maintains broker_inv (serve_pending i)" for i
  proof -
    have "maintains broker_inv (after (handle_lookup m) (\<lambda>_.
        change (\<lambda>s. s\<lparr>bs_requests := erase_first (can_serve i) (bs_requests s)\<rparr>)))" for m
      by (intro maintains_after inv_handle_lookup inv_requests)
    then show ?thesis unfolding maintains_def serve_pending_def by (auto simp: return_def split: option.split)
  qed
  show ?thesis unfolding handle_ack_def Let_def get_server_instance_def
    by (intro maintains_catch maintains_after keeps_known inv_alter_state serve inv_invoked maintains_if maintains_return maintains_throw)
qed

interpretation refs: broker_steps broker_inv "\<lambda>_. True"
proof unfold_locales
  show "broker_inv (on_server j f s)" if "broker_inv s" "\<And>e. ex_id (f e) = ex_id e" "\<And>e. se_restrictions (f e) = se_restrictions e" for s f j
    using that ok_on_server [of s f j] by (simp add: broker_inv_def replies_plain_def) (simp add: on_server_def)
  show "broker_inv (on_server_instance pid (\<lambda>i. i\<lparr>bi_process := (bi_process i)\<lparr>ph_queue := q\<rparr>\<rparr>) s)" if "broker_inv s" for s pid q
    using that ok_on_instance [of s "\<lambda>i. i\<lparr>bi_process := (bi_process i)\<lparr>ph_queue := q\<rparr>\<rparr>" pid]
    by (simp add: broker_inv_def replies_plain_def) (simp add: on_server_instance_def)
  show "maintains broker_inv call_ack"
    using inv_handle_ack unfolding maintains_def call_ack_def by simp
  show "broker_inv (s\<lparr>bs_replies := ms\<rparr>)" if "broker_inv s" "list_all (\<lambda>m. plain_message (wm_message m)) ms" for s ms
    using that by (auto simp: broker_inv_def replies_plain_def elim: broker_ok_frame)
  show "broker_inv (s\<lparr>bs_forward := cr_process r\<rparr>)" if "broker_inv s" for s and r :: connect_request
    using that by (auto simp: broker_inv_def replies_plain_def elim: broker_ok_frame)
  show "list_all (\<lambda>m. plain_message (wm_message m)) (bs_replies s)" if "broker_inv s" for s
    using that by (simp add: broker_inv_def replies_plain_def)
qed (auto intro: broker_inv_frame inv_pushed inv_alter_state inv_add_services inv_remove_services inv_remove_process
  inv_add_instances inv_handle_lookup inv_handle_ack)

lemma inv_connect_broker: "maintains broker_inv (connect_broker infos)"
  by (intro inv_of_ok keeps_connect_broker replies.broker_connected) (simp add: emplace_instance_def Let_def)

interpretation refs: broker_life broker_inv "\<lambda>_. True"
  by unfold_locales (simp_all add: inv_connect_broker)

text \<open>
  C19: From a state in which instances and services refer to each other, in particular from a configured
  domain in which nothing runs, they do so after any start, run and end of the broker: a service never holds
  a reference to an instance that is gone, an instance has exactly the services that have the instance, and
  no server with restrictions advertises anything else.
\<close>

theorem no_reference_dangles:
  assumes "broker_ok s" "replies_plain s"
  shows "broker_ok (snd (broker_run evs rounds s))"
  using refs.broker_run [of s evs rounds] assms by (simp add: broker_inv_def)

end
