(* ===== verification/Broker_Config.thy ===== *)
theory Broker_Config
  imports Environment Broker_Walk
begin

text \<open>
  How the broker's state comes out of the configuration of the domain (\<open>config/domain.h\<close>,
  \<open>configuration/source/domain.cpp\<close>, \<open>configuration/source/environment.cpp\<close>,
  \<open>broker/source/transform.cpp\<close>). What is read from a file is a parameter: the parsed domain, and the
  parsed environment files by their path.
\<close>

section \<open>Configuration\<close>

record cf_environment =
  ce_files :: "string list"
  ce_variables :: "(string \<times> string) list"

record cf_executable =
  cx_note :: string
  cx_alias :: string
  cx_path :: string
  cx_instances :: string
  cx_restart :: string
  cx_arguments :: "string list"
  cx_memberships :: "string list"
  cx_environment :: cf_environment

record cf_server = cf_executable +
  cx_restriction :: "string list"

record cf_service =
  cs_name :: string
  cs_timeout :: string
  cs_note :: string
  cs_transaction :: string

record cf_resource =
  cr_key :: string
  cr_instances :: string
  cr_openinfo :: string
  cr_closeinfo :: string

record cf_group =
  cg_name :: string
  cg_note :: string
  cg_resources :: "cf_resource list"
  cg_dependencies :: "string list"

record cf_manager =
  cm_path :: string
  cm_database :: string

record cf_default =
  cd_environment :: cf_environment
  cd_server :: cf_server
  cd_executable :: cf_executable
  cd_service :: cf_service

record cf_domain =
  cf_name :: string
  cf_casual_default :: cf_default
  cf_transactionmanager :: cf_manager
  cf_groups :: "cf_group list"
  cf_servers :: "cf_server list"
  cf_executables :: "cf_executable list"
  cf_services :: "cf_service list"

definition no_environment :: cf_environment where
  "no_environment = \<lparr>ce_files = [], ce_variables = []\<rparr>"

definition no_executable :: cf_executable where
  "no_executable = \<lparr>cx_note = [], cx_alias = [], cx_path = [], cx_instances = [], cx_restart = [], cx_arguments = [],
     cx_memberships = [], cx_environment = no_environment\<rparr>"

definition no_server :: cf_server where
  "no_server = cf_executable.extend no_executable (cf_server.fields [])"

text \<open>The values a domain has that no file names: \<open>Default\<close> and \<open>transaction::Manager\<close>.\<close>

definition casual_default :: cf_default where
  "casual_default = \<lparr>cd_environment = no_environment, cd_server = no_server\<lparr>cx_instances := ''1''\<rparr>,
     cd_executable = no_executable, cd_service = \<lparr>cs_name = [], cs_timeout = ''1h'', cs_note = [], cs_transaction = []\<rparr>\<rparr>"

definition no_domain :: cf_domain where
  "no_domain = \<lparr>cf_name = [], cf_casual_default = casual_default,
     cf_transactionmanager = \<lparr>cm_path = [], cm_database = ''transaction-manager.db''\<rparr>,
     cf_groups = [], cf_servers = [], cf_executables = [], cf_services = []\<rparr>"

subsection \<open>Values that are left out\<close>

definition assign_if_empty :: "string \<Rightarrow> string \<Rightarrow> string" where
  "assign_if_empty value def = (if value = [] \<or> value = ''~'' then def else value)"

text \<open>\<open>nextAlias\<close>, on the counts of the aliases that were asked for.\<close>

definition next_alias :: "string \<Rightarrow> (string \<Rightarrow> nat) \<Rightarrow> string \<times> (string \<Rightarrow> nat)" where
  "next_alias path counts =
     (let alias = name_base path; count = counts alias
      in (if count > 1 then alias @ ''_'' @ write_number count else alias, counts(alias := count + 1)))"

fun complement_servers :: "cf_default \<Rightarrow> cf_server list \<Rightarrow> (string \<Rightarrow> nat) \<Rightarrow> cf_server list" where
  "complement_servers d [] counts = []"
| "complement_servers d (v # vs) counts =
     (let (alias, counts') = next_alias (cx_path v) counts
      in v\<lparr>cx_instances := assign_if_empty (cx_instances v) (cx_instances (cd_server d)),
           cx_restart := assign_if_empty (cx_restart v) (cx_restart (cd_server d)),
           cx_alias := assign_if_empty (cx_alias v) alias\<rparr> # complement_servers d vs counts')"

definition complement_service :: "cf_default \<Rightarrow> cf_service \<Rightarrow> cf_service" where
  "complement_service d v = v\<lparr>cs_timeout := assign_if_empty (cs_timeout v) (cs_timeout (cd_service d)),
     cs_transaction := assign_if_empty (cs_transaction v) (cs_transaction (cd_service d))\<rparr>"

definition complement_domain :: "cf_domain \<Rightarrow> cf_domain" where
  "complement_domain c = c\<lparr>cf_servers := complement_servers (cf_casual_default c) (cf_servers c) (\<lambda>_. 0),
     cf_services := map (complement_service (cf_casual_default c)) (cf_services c)\<rparr>"

section \<open>Environment files\<close>

datatype config_exn = CF_missing | CF_number number_exn | CF_time chronology_exn | CF_string env_exn
  | CF_file | CF_fuel | CF_undefined

text \<open>One step after another, as long as none fails.\<close>

definition and_then :: "'e + 'a \<Rightarrow> ('a \<Rightarrow> 'e + 'b) \<Rightarrow> 'e + 'b" where
  "and_then r f = (case r of Inl e \<Rightarrow> Inl e | Inr x \<Rightarrow> f x)"

fun map_all :: "('a \<Rightarrow> 'e + 'b) \<Rightarrow> 'a list \<Rightarrow> 'e + 'b list" where
  "map_all f [] = Inr []"
| "map_all f (x # xs) = and_then (f x) (\<lambda>y. and_then (map_all f xs) (\<lambda>ys. Inr (y # ys)))"

text \<open>
  \<open>local::fetch\<close>: the variables of the files, and of the files they name, with the paths that were read.
  Fuel bounds the depth of the files.
\<close>

fun fetch_files :: "nat \<Rightarrow> environment \<Rightarrow> (string \<rightharpoonup> cf_environment) \<Rightarrow> string list \<Rightarrow> string list \<Rightarrow>
    config_exn + ((string \<times> string) list \<times> string list)" where
  "fetch_files fuel env disk [] paths = Inr ([], paths)"
| "fetch_files fuel env disk (f # files) paths =
     (case environment_string env f of
        Inl e \<Rightarrow> Inl (CF_string e)
      | Inr path \<Rightarrow>
          if path \<in> set paths then fetch_files fuel env disk files paths
          else (case disk path of
              None \<Rightarrow> Inl CF_file
            | Some nested \<Rightarrow>
                (case fuel of
                   0 \<Rightarrow> Inl CF_fuel
                 | Suc n \<Rightarrow>
                     (case fetch_files n env disk (ce_files nested) (paths @ [path]) of
                        Inl e \<Rightarrow> Inl e
                      | Inr (vars, paths') \<Rightarrow>
                          (case fetch_files fuel env disk files paths' of
                             Inl e \<Rightarrow> Inl e
                           | Inr (vars', paths'') \<Rightarrow> Inr (vars @ ce_variables nested @ vars', paths''))))))"

definition fetch_environment :: "nat \<Rightarrow> environment \<Rightarrow> (string \<rightharpoonup> cf_environment) \<Rightarrow> cf_environment \<Rightarrow>
    config_exn + (string \<times> string) list" where
  "fetch_environment fuel env disk e =
     and_then (fetch_files fuel env disk (ce_files e) []) (\<lambda>(vars, _). Inr (vars @ ce_variables e))"

lemma fetch_reads:
  assumes "fetch_files fuel env disk files paths = Inr (vars, paths')"
  shows "\<exists>read. paths' = paths @ read \<and> set read \<subseteq> dom disk \<and> (distinct paths \<longrightarrow> distinct paths') \<and>
    mset vars = \<Sum>\<^sub># {# mset (ce_variables (the (disk p))). p \<in># mset read #}"
  using assms
proof (induction fuel env disk files paths arbitrary: vars paths' rule: fetch_files.induct)
  case (2 fuel env disk f files paths)
  obtain path where path: "environment_string env f = Inr path"
    using 2(4) by (auto split: sum.splits)
  show ?case
  proof (cases "path \<in> set paths")
    case True
    with 2(1) [OF path] 2(4) path show ?thesis by simp
  next
    case False
    from 2(4) path False obtain nested n v1 p1 v2 where *: "disk path = Some nested" "fuel = Suc n"
      "fetch_files n env disk (ce_files nested) (paths @ [path]) = Inr (v1, p1)"
      "fetch_files fuel env disk files p1 = Inr (v2, paths')" "vars = v1 @ ce_variables nested @ v2"
      by (auto split: option.splits nat.splits sum.splits)
    from 2(2) [OF path False *(1,2,3)] obtain r1 where r1: "p1 = (paths @ [path]) @ r1" "set r1 \<subseteq> dom disk"
      "distinct (paths @ [path]) \<longrightarrow> distinct p1"
      "mset v1 = \<Sum>\<^sub># {# mset (ce_variables (the (disk p))). p \<in># mset r1 #}" by blast
    from 2(3) [OF path False *(1,2,3) refl *(4)] obtain r2 where r2: "paths' = p1 @ r2" "set r2 \<subseteq> dom disk"
      "distinct p1 \<longrightarrow> distinct paths'"
      "mset v2 = \<Sum>\<^sub># {# mset (ce_variables (the (disk p))). p \<in># mset r2 #}" by blast
    have "paths' = paths @ (path # r1 @ r2)" using r1(1) r2(1) by simp
    moreover have "set (path # r1 @ r2) \<subseteq> dom disk" using r1(2) r2(2) *(1) by auto
    moreover have "distinct paths \<longrightarrow> distinct paths'" using r1(3) r2(3) False by auto
    moreover have "mset vars = \<Sum>\<^sub># {# mset (ce_variables (the (disk p))). p \<in># mset (path # r1 @ r2) #}"
      using r1(4) r2(4) *(1,5) by (simp add: ac_simps)
    ultimately show ?thesis by blast
  qed
qed simp

lemma fetch_fuel:
  assumes "finite (dom disk)" "card (dom disk - set paths) \<le> fuel"
  shows "fetch_files fuel env disk files paths \<noteq> Inl CF_fuel"
  using assms
proof (induction fuel env disk files paths rule: fetch_files.induct)
  case (2 fuel env disk f files paths)
  show ?case
  proof (cases "environment_string env f")
    case (Inr path)
    consider "path \<in> set paths" | "path \<notin> set paths" "disk path = None"
      | nested where "path \<notin> set paths" "disk path = Some nested" by fastforce
    then show ?thesis
    proof cases
      case 1
      with 2 Inr show ?thesis by simp
    next
      case 2
      with Inr show ?thesis by simp
    next
      case 3
      have less: "dom disk - set (paths @ [path]) \<subset> dom disk - set paths" using 3 by auto
      then have "card (dom disk - set (paths @ [path])) < card (dom disk - set paths)"
        using 2(4) by (intro psubset_card_mono) auto
      with 2(5) obtain n where n: "fuel = Suc n" "card (dom disk - set (paths @ [path])) \<le> n"
        by (cases fuel) auto
      show ?thesis
      proof (cases "fetch_files n env disk (ce_files nested) (paths @ [path])")
        case (Inl e)
        with 2(2) [OF Inr 3 n(1) 2(4) n(2)] Inr 3 n show ?thesis by simp
      next
        case (Inr r)
        obtain v1 p1 where r: "r = (v1, p1)" by fastforce
        obtain r1 where r1: "p1 = (paths @ [path]) @ r1" using fetch_reads [OF Inr [unfolded r]] by blast
        have "card (dom disk - set p1) \<le> fuel"
          using n card_mono [of "dom disk - set (paths @ [path])" "dom disk - set p1"] 2(4) r1 by fastforce
        with 2(3) [OF \<open>environment_string env f = Inr path\<close> 3 n(1) Inr r [symmetric] 2(4)]
        show ?thesis using \<open>environment_string env f = Inr path\<close> 3 n(1) Inr r
          by (auto split: sum.split)
      qed
    qed
  qed simp
qed simp

definition all_read :: "environment \<Rightarrow> string list \<Rightarrow> string list \<Rightarrow> bool" where
  "all_read env files paths \<longleftrightarrow> list_all (\<lambda>f. case environment_string env f of Inl _ \<Rightarrow> False | Inr p \<Rightarrow> p \<in> set paths) files"

lemma all_read_more: "all_read env files paths \<Longrightarrow> set paths \<subseteq> set paths' \<Longrightarrow> all_read env files paths'"
  unfolding all_read_def list_all_iff by (auto split: sum.splits)

lemma fetch_closed:
  assumes "fetch_files fuel env disk files paths = Inr (vars, paths')"
  shows "all_read env files paths' \<and>
    (\<forall>p\<in>set paths'. p \<in> set paths \<or> all_read env (ce_files (the (disk p))) paths')"
  using assms
proof (induction fuel env disk files paths arbitrary: vars paths' rule: fetch_files.induct)
  case (1 fuel env disk paths)
  then show ?case by (simp add: all_read_def)
next
  case (2 fuel env disk f files paths)
  obtain path where path: "environment_string env f = Inr path"
    using 2(4) by (auto split: sum.splits)
  show ?case
  proof (cases "path \<in> set paths")
    case True
    with 2(4) path have now: "fetch_files fuel env disk files paths = Inr (vars, paths')" by simp
    from 2(1) [OF path True now] fetch_reads [OF now] True path show ?thesis by (auto simp: all_read_def)
  next
    case False
    from 2(4) path False obtain nested n v1 p1 v2 where *: "disk path = Some nested" "fuel = Suc n"
      "fetch_files n env disk (ce_files nested) (paths @ [path]) = Inr (v1, p1)"
      "fetch_files fuel env disk files p1 = Inr (v2, paths')"
      by (auto split: option.splits nat.splits sum.splits)
    have sub: "path \<in> set p1" "set p1 \<subseteq> set paths'" using fetch_reads [OF *(3)] fetch_reads [OF *(4)] by auto
    have one: "all_read env (ce_files nested) p1"
      "\<forall>p\<in>set p1. p \<in> set (paths @ [path]) \<or> all_read env (ce_files (the (disk p))) p1"
      using 2(2) [OF path False *(1,2,3)] by blast+
    have two: "all_read env files paths'"
      "\<forall>p\<in>set paths'. p \<in> set p1 \<or> all_read env (ce_files (the (disk p))) paths'"
      using 2(3) [OF path False *(1,2,3) refl *(4)] by blast+
    have "all_read env (f # files) paths'" using two(1) sub path by (auto simp: all_read_def)
    moreover have "all_read env (ce_files (the (disk path))) paths'"
      using all_read_more [OF one(1) sub(2)] *(1) by simp
    ultimately show ?thesis using one(2) two(2) all_read_more [OF _ sub(2)] by fastforce
  qed
qed

text \<open>
  Reading the environment of a configuration ends, also when its files name each other in a circle: with
  one unit of fuel for every file there is it never runs out. Each file that is named, directly or by one
  that is read, is read exactly once, and the variables are those of the files that were read.
\<close>

theorem environment_files_are_read_once:
  assumes "finite (dom disk)" "card (dom disk) \<le> fuel"
  shows "case fetch_files fuel env disk files [] of
      Inl e \<Rightarrow> e \<noteq> CF_fuel
    | Inr (vars, read) \<Rightarrow> distinct read \<and> set read \<subseteq> dom disk \<and> all_read env files read \<and>
        (\<forall>p\<in>set read. all_read env (ce_files (the (disk p))) read) \<and>
        mset vars = \<Sum>\<^sub># {# mset (ce_variables (the (disk p))). p \<in># mset read #}"
proof (cases "fetch_files fuel env disk files []")
  case (Inl e)
  with fetch_fuel [OF assms(1), of "[]" fuel env files] assms(2) show ?thesis by auto
next
  case (Inr r)
  obtain vars read where r: "r = (vars, read)" by fastforce
  with fetch_reads [of fuel env disk files "[]"] fetch_closed [of fuel env disk files "[]"] Inr
  show ?thesis by auto
qed

definition circle :: "string \<rightharpoonup> cf_environment" where
  "circle = [''a'' \<mapsto> \<lparr>ce_files = [''b''], ce_variables = [(''x'', ''1'')]\<rparr>,
             ''b'' \<mapsto> \<lparr>ce_files = [''a''], ce_variables = [(''y'', ''2'')]\<rparr>]"

lemma circle_is_read: "fetch_files 2 env circle [''a''] [] = Inr ([(''y'', ''2''), (''x'', ''1'')], [''a'', ''b''])"
  by (simp add: circle_def environment_string_def split_plain plain_text_def eval_nat_numeral)

lemma environment_files_are_read_once_witness:
  "case fetch_files 2 Map.empty circle [''a''] [] of
      Inl e \<Rightarrow> e \<noteq> CF_fuel
    | Inr (vars, read) \<Rightarrow> distinct read \<and> all_read Map.empty [''a''] read \<and> length read = 2"
proof -
  have "dom circle = {''a'', ''b''}" by (auto simp: circle_def split: if_splits)
  then have *: "finite (dom circle)" "card (dom circle) \<le> 2" by (simp_all add: card_insert_if)
  show ?thesis using environment_files_are_read_once [OF *, of Map.empty "[''a'']"]
    unfolding circle_is_read by simp
qed

section \<open>The state of a domain\<close>

definition configured_number :: "string \<Rightarrow> config_exn + nat" where
  "configured_number value = (case stoul value of Inl e \<Rightarrow> Inl (CF_number e) | Inr n \<Rightarrow> Inr n)"

text \<open>\<open>local::membership\<close>: the groups are found by name, the first of that name.\<close>

definition membership :: "domain_group list \<Rightarrow> string list \<Rightarrow> config_exn + nat list" where
  "membership groups = map_all (\<lambda>name. case List.find (\<lambda>g. gr_name g = name) groups of
     None \<Rightarrow> Inl CF_missing | Some g \<Rightarrow> Inr (gr_id g))"

text \<open>What the sources read from outside the configuration: the variables, the files, and the fuel for them.\<close>

record cf_outside =
  co_env :: environment
  co_disk :: "string \<rightharpoonup> cf_environment"
  co_fuel :: nat

definition configured_environment :: "cf_outside \<Rightarrow> cf_environment \<Rightarrow> config_exn + string list" where
  "configured_environment out e =
     and_then (fetch_environment (co_fuel out) (co_env out) (co_disk out) e) (\<lambda>vars. Inr (map (\<lambda>(key, value). key @ ''='' @ value) vars))"

text \<open>\<open>local::executable\<close>, into an executable that has been made with a new id.\<close>

definition configured_executable :: "cf_outside \<Rightarrow> domain_group list \<Rightarrow> 'a cf_executable_scheme \<Rightarrow> 'b executable_scheme \<Rightarrow>
    config_exn + 'b executable_scheme" where
  "configured_executable out groups c e =
     and_then (configured_number (cx_instances c)) (\<lambda>n.
     and_then (configured_environment out (cx_environment c)) (\<lambda>vars.
     and_then (membership groups (cx_memberships c)) (\<lambda>ids.
       Inr (e\<lparr>ex_alias := cx_alias c, ex_arguments := cx_arguments c, ex_configured := n, ex_note := cx_note c,
         ex_path := cx_path c, ex_restart := (cx_restart c = ''true''), ex_variables := vars, ex_memberships := ids\<rparr>))))"

definition configured_server :: "cf_outside \<Rightarrow> domain_group list \<Rightarrow> cf_server \<Rightarrow> nat \<Rightarrow> config_exn + server" where
  "configured_server out groups c i =
     and_then (configured_executable out groups c (new_server i)) (\<lambda>e. Inr (e\<lparr>se_restrictions := cx_restriction c\<rparr>))"

text \<open>\<open>Service\<close>: the name and the timeout only.\<close>

definition configured_service :: "cf_service \<Rightarrow> config_exn + service" where
  "configured_service c =
     (case chronology_string (cs_timeout c) of
        Inl e \<Rightarrow> Inl (CF_time e)
      | Inr w \<Rightarrow> Inr \<lparr>sv_information = \<lparr>si_name = cs_name c, si_type = 0, si_timeout = sint w, si_monitors = [],
          si_transaction = 0\<rparr>, sv_lookedup = 0, sv_instances = []\<rparr>)"

text \<open>\<open>Resource\<close> and \<open>Group\<close>; the ids of the resources count through all groups.\<close>

definition configured_resource :: "cf_resource \<Rightarrow> nat \<Rightarrow> config_exn + resource" where
  "configured_resource c i = and_then (configured_number (cr_instances c)) (\<lambda>n.
     Inr \<lparr>rs_id = i, rs_instances = n, rs_key = cr_key c, rs_openinfo = cr_openinfo c, rs_closeinfo = cr_closeinfo c\<rparr>)"

fun map_numbered :: "('a \<Rightarrow> nat \<Rightarrow> config_exn + 'b) \<Rightarrow> 'a list \<Rightarrow> nat \<Rightarrow> config_exn + 'b list" where
  "map_numbered f [] i = Inr []"
| "map_numbered f (x # xs) i = and_then (f x i) (\<lambda>y. and_then (map_numbered f xs (i + 1)) (\<lambda>ys. Inr (y # ys)))"

fun plain_groups :: "cf_group list \<Rightarrow> nat \<Rightarrow> nat \<Rightarrow> config_exn + domain_group list" where
  "plain_groups [] i r = Inr []"
| "plain_groups (c # cs) i r =
     and_then (map_numbered configured_resource (cg_resources c) r) (\<lambda>rs.
     and_then (plain_groups cs (i + 1) (r + length rs)) (\<lambda>gs.
       Inr (\<lparr>gr_id = i, gr_name = cg_name c, gr_note = cg_note c, gr_resources = rs, gr_dependencies = []\<rparr> # gs)))"

fun resolve_dependencies :: "cf_group list \<Rightarrow> domain_group list \<Rightarrow> config_exn + domain_group list" where
  "resolve_dependencies [] gs = Inr gs"
| "resolve_dependencies (c # cs) gs =
     and_then (membership gs (cg_dependencies c)) (\<lambda>ids.
       resolve_dependencies cs (upd_first (\<lambda>g. gr_name g = cg_name c) (\<lambda>g. g\<lparr>gr_dependencies := ids\<rparr>) gs))"

text \<open>
  \<open>local::groups\<close>: every group depends on the group of casual itself, which comes last and is sorted to
  its place. \<open>std::sort\<close> asks for an order and \<open>operator <\<close> is none; up to sixteen groups it
  is the insertion sort, for more the result is not modelled.
\<close>

definition domain_groups :: "cf_group list \<Rightarrow> domain_group \<Rightarrow> config_exn + domain_group list" where
  "domain_groups cs casual =
     and_then (plain_groups cs (gr_id casual + 1) 10) (\<lambda>gs.
     and_then (resolve_dependencies cs gs) (\<lambda>gs.
       let all = map (\<lambda>g. g\<lparr>gr_dependencies := gr_dependencies g @ [gr_id casual]\<rparr>) gs @ [casual]
       in if length all \<le> 16 then Inr (insertion_sort group_less all) else Inl CF_undefined))"

definition casual_group :: domain_group where
  "casual_group = \<lparr>gr_id = 10, gr_name = ''casual-group'', gr_note = ''group for casual stuff'', gr_resources = [],
     gr_dependencies = []\<rparr>"

definition forward_server :: "nat \<Rightarrow> nat \<Rightarrow> server" where
  "forward_server i casual = (new_server i)\<lparr>ex_alias := ''casual-forward-cache'', ex_path := ''casual-forward-cache'',
     ex_configured := 1, ex_memberships := [casual], ex_note := ''TODO...''\<rparr>"

definition manager_server :: "cf_manager \<Rightarrow> nat \<Rightarrow> server" where
  "manager_server c i = (new_server i)\<lparr>ex_alias := ''casual-transaction-manager'', ex_path := cm_path c,
     ex_configured := 1, ex_arguments := [''--database'', cm_database c],
     ex_note := ''the one and only transaction manager in this domain''\<rparr>"

definition add_configured_service :: "service \<Rightarrow> broker_state \<Rightarrow> broker_state" where
  "add_configured_service v s =
     (case bs_services s (name_of v) of
        None \<Rightarrow> s\<lparr>bs_services := (bs_services s)(name_of v \<mapsto> v)\<rparr>
      | Some _ \<Rightarrow> s)"

text \<open>A new \<open>State\<close>, in the surroundings that \<open>s\<close> has.\<close>

definition fresh_state :: "broker_state \<Rightarrow> broker_state" where
  "fresh_state s = s\<lparr>bs_servers := [], bs_instances := Map.empty, bs_services := Map.empty, bs_executables := [],
     bs_groups := [], bs_casual_group := 0, bs_singeltons := [], bs_requests := [], bs_replies := [],
     bs_process_lookup := [], bs_standard_timeout := 0, bs_environment := [], bs_monitors := [],
     bs_transaction_manager := 0, bs_forward := \<lparr>ph_pid = 0, ph_queue = 0\<rparr>, bs_listeners := [],
     bs_mode := M_boot, bs_next_id := 10\<rparr>"

text \<open>\<open>Domain\<close>: the forward cache and the transaction manager come before the configured servers.\<close>

definition casual_servers :: "cf_domain \<Rightarrow> server list" where
  "casual_servers c =
     (let manager = manager_server (cf_transactionmanager c) 11
      in [forward_server 10 10, manager\<lparr>ex_memberships := ex_memberships manager @ [10]\<rparr>])"

definition domain_state :: "cf_domain \<Rightarrow> domain_group list \<Rightarrow> server list \<Rightarrow> executable list \<Rightarrow> service list \<Rightarrow> service \<Rightarrow>
    string list \<Rightarrow> broker_state \<Rightarrow> broker_state" where
  "domain_state c groups servers executables services standard variables s =
     (let s1 = fold add_server (casual_servers c @ servers)
            (fresh_state s\<lparr>bs_domain := cf_name c, bs_groups := groups, bs_casual_group := 10\<rparr>);
          s2 = fold add_configured_service services (fold add_executable executables s1)
      in s2\<lparr>bs_standard_timeout := si_timeout (sv_information standard), bs_environment := variables,
           bs_next_id := 12 + length servers + length executables\<rparr>)"

definition configured_domain :: "cf_outside \<Rightarrow> cf_domain \<Rightarrow> broker_state \<Rightarrow> config_exn + broker_state" where
  "configured_domain out c s =
     and_then (domain_groups (cf_groups c) casual_group) (\<lambda>groups.
     and_then (map_numbered (configured_server out groups) (cf_servers c) 12) (\<lambda>servers.
     and_then (map_numbered (\<lambda>e i. configured_executable out groups e (new_executable i)) (cf_executables c) (12 + length servers)) (\<lambda>executables.
     and_then (map_all configured_service (cf_services c)) (\<lambda>services.
     and_then (configured_service (cd_service (cf_casual_default c))) (\<lambda>standard.
     and_then (configured_environment out (cd_environment (cf_casual_default c))) (\<lambda>variables.
       Inr (domain_state c groups servers executables services standard variables s)))))))"

text \<open>The constructor of \<open>Broker\<close>: with no file for the configuration it starts with an empty domain, as it is.\<close>

definition configured_broker :: "cf_outside \<Rightarrow> cf_domain option \<Rightarrow> broker_state \<Rightarrow> config_exn + broker_state" where
  "configured_broker out c = configured_domain out (case c of None \<Rightarrow> no_domain | Some d \<Rightarrow> complement_domain d)"

end
