(* ===== verification/Broker_Boot.thy ===== *)
theory Broker_Boot
  imports Broker_Walk
begin

text \<open>
  The order in which the domain is booted: every server and every executable is in exactly one batch, that
  of the last of its groups.
\<close>

section \<open>The groups of a process\<close>

text \<open>The group a process is booted with: the last one, in the order of the groups, that it is a member of.\<close>

definition boot_home :: "domain_group list \<Rightarrow> 'a executable_scheme \<Rightarrow> domain_group option" where
  "boot_home groups e = List.find (\<lambda>g. member_of (gr_id g) e) (rev groups)"

definition batch_list :: "string \<Rightarrow> server list \<Rightarrow> executable list \<Rightarrow> boot_batch list" where
  "batch_list name svs exs = (if svs \<noteq> [] \<or> exs \<noteq> [] then [batch_of name svs exs] else [])"

definition batches_by :: "(server \<Rightarrow> domain_group option) \<Rightarrow> (executable \<Rightarrow> domain_group option) \<Rightarrow>
    server list \<Rightarrow> executable list \<Rightarrow> domain_group list \<Rightarrow> boot_batch list" where
  "batches_by hs he svs exs gs =
     concat (map (\<lambda>g. batch_list (gr_name g) (filter (\<lambda>e. hs e = Some g) svs) (filter (\<lambda>e. he e = Some g) exs)) gs)"

lemma batches_by_cong:
  "(\<And>g. g \<in> set gs \<Longrightarrow> filter (\<lambda>e. hs e = Some g) svs = filter (\<lambda>e. hs' e = Some g) svs') \<Longrightarrow>
   (\<And>g. g \<in> set gs \<Longrightarrow> filter (\<lambda>e. he e = Some g) exs = filter (\<lambda>e. he' e = Some g) exs') \<Longrightarrow>
   batches_by hs he svs exs gs = batches_by hs' he' svs' exs' gs"
  unfolding batches_by_def by (intro arg_cong [where f = concat] map_cong) auto

definition in_groups :: "domain_group list \<Rightarrow> 'a executable_scheme \<Rightarrow> domain_group option" where
  "in_groups gs e = List.find (\<lambda>g. member_of (gr_id g) e) gs"

lemma in_groups_set: "in_groups gs e = Some g \<Longrightarrow> g \<in> set gs"
  unfolding in_groups_def using find_Some_in by fastforce

lemma filter_first_group:
  fixes es :: "'a executable_scheme list"
  assumes "g \<notin> set gs" "h \<in> set gs"
  shows "filter (\<lambda>e. in_groups (g # gs) e = Some h) es =
    filter (\<lambda>e. in_groups gs e = Some h) (filter (\<lambda>e. \<not> member_of (gr_id g) e) es)"
proof -
  have "(in_groups (g # gs) e = Some h) \<longleftrightarrow> (in_groups gs e = Some h \<and> \<not> member_of (gr_id g) e)" for e :: "'a executable_scheme"
    using assms by (auto simp: in_groups_def)
  then show ?thesis by (simp add: conj_commute)
qed

lemma filter_own_group:
  "g \<notin> set gs \<Longrightarrow> filter (\<lambda>e. in_groups (g # gs) e = Some g) es = filter (member_of (gr_id g)) es"
  by (rule filter_cong) (auto simp: in_groups_def dest: find_Some_in)

lemma filter_no_group:
  "filter (\<lambda>e. in_groups (g # gs) e = None) es =
    filter (\<lambda>e. in_groups gs e = None) (filter (\<lambda>e. \<not> member_of (gr_id g) e) es)"
  by (simp add: in_groups_def) (rule filter_cong; auto)

lemma group_batches_by:
  assumes "distinct gs"
  shows "group_batches gs svs exs =
    (batches_by (in_groups gs) (in_groups gs) svs exs gs,
     filter (\<lambda>e. in_groups gs e = None) svs, filter (\<lambda>e. in_groups gs e = None) exs)"
  using assms
proof (induction gs arbitrary: svs exs)
  case Nil
  then show ?case by (simp add: batches_by_def in_groups_def)
next
  case (Cons g gs)
  let ?svs = "filter (\<lambda>e. \<not> member_of (gr_id g) e) svs" and ?exs = "filter (\<lambda>e. \<not> member_of (gr_id g) e) exs"
  let ?svs1 = "filter (member_of (gr_id g)) svs" and ?exs1 = "filter (member_of (gr_id g)) exs"
  from Cons(2) have g: "g \<notin> set gs" "distinct gs" by simp_all
  have rest: "batches_by (in_groups (g # gs)) (in_groups (g # gs)) svs exs gs =
      batches_by (in_groups gs) (in_groups gs) ?svs ?exs gs"
    using g(1) by (intro batches_by_cong filter_first_group)
  have all: "batches_by (in_groups (g # gs)) (in_groups (g # gs)) svs exs (g # gs) =
      batch_list (gr_name g) ?svs1 ?exs1 @ batches_by (in_groups gs) (in_groups gs) ?svs ?exs gs"
    using rest by (simp add: batches_by_def filter_own_group [OF g(1)])
  have step: "group_batches (g # gs) svs exs =
      (if ?svs1 \<noteq> [] \<or> ?exs1 \<noteq> [] then
         (case group_batches gs ?svs ?exs of (bs, a, b) \<Rightarrow> (batch_of (gr_name g) ?svs1 ?exs1 # bs, a, b))
       else group_batches gs svs exs)"
    by (simp only: group_batches.simps partition_filter_conv comp_def Let_def prod.case)
  show ?case
  proof (cases "?svs1 = [] \<and> ?exs1 = []")
    case True
    then have same: "?svs = svs" "?exs = exs" by (auto simp: filter_empty_conv)
    from True have "group_batches (g # gs) svs exs = group_batches gs svs exs" unfolding step by simp
    with True same show ?thesis
      unfolding Cons(1) [OF g(2)] all filter_no_group by (simp add: batch_list_def)
  next
    case False
    then show ?thesis
      unfolding step Cons(1) [OF g(2)] all filter_no_group by (simp add: batch_list_def)
  qed
qed

lemma boot_home_in_groups: "boot_home groups = in_groups (rev groups)"
  by (simp add: boot_home_def in_groups_def fun_eq_iff)

lemma rev_batches_by: "rev (batches_by hs he svs exs (rev gs)) = batches_by hs he svs exs gs"
  by (induction gs) (simp_all add: batches_by_def batch_list_def)

lemma distinct_stable_sort: "distinct (map f gs) \<Longrightarrow> distinct (map f (stable_sort lt gs))"
  by (metis mset_map mset_stable_sort mset_eq_imp_distinct_iff)

section \<open>Each process once\<close>

lemma mset_split_homes:
  "distinct gs \<Longrightarrow> mset (concat (map (\<lambda>g. filter (\<lambda>e. h e = Some g) es) gs)) =
    mset (filter (\<lambda>e. \<exists>g\<in>set gs. h e = Some g) es)"
proof (induction gs)
  case (Cons g gs)
  have "mset (filter (\<lambda>e. \<exists>k\<in>set (g # gs). h e = Some k) es) =
      mset (filter (\<lambda>e. h e = Some g) es) + mset (filter (\<lambda>e. \<exists>k\<in>set gs. h e = Some k) es)"
    using Cons(2) by (induction es) auto
  with Cons show ?case by simp
qed simp

lemma mset_homes:
  fixes es :: "'a executable_scheme list"
  assumes "distinct gs"
  shows "mset (concat (map (\<lambda>g. filter (\<lambda>e. in_groups gs e = Some g) es) gs) @ filter (\<lambda>e. in_groups gs e = None) es) = mset es"
proof -
  have "(\<exists>g\<in>set gs. in_groups gs e = Some g) \<longleftrightarrow> \<not> in_groups gs e = None" for e :: "'a executable_scheme"
    using in_groups_set by fastforce
  then show ?thesis
    using mset_split_homes [OF assms, of "in_groups gs" es] mset_filter_partition [of "\<lambda>e. in_groups gs e = None" es]
    by (simp add: add.commute cong: filter_cong)
qed

lemma mset_all_homes:
  fixes es :: "'a executable_scheme list"
  assumes "distinct gs"
  shows "mset (map ex_id (concat (map (\<lambda>g. filter (\<lambda>e. boot_home gs e = Some g) es) gs))) +
    mset (map ex_id (filter (\<lambda>e. boot_home gs e = None) es)) = mset (map ex_id es)"
proof -
  let ?f = "\<lambda>g. filter (\<lambda>e. boot_home gs e = Some g) es"
  have "mset (concat (map ?f (rev gs))) = mset (concat (map ?f gs))"
    unfolding mset_concat by (simp add: rev_map [symmetric])
  moreover have "mset (concat (map ?f (rev gs))) + mset (filter (\<lambda>e. boot_home gs e = None) es) = mset es"
    using mset_homes [of "rev gs" es] assms unfolding boot_home_in_groups by (simp only: mset_append distinct_rev)
  ultimately have all: "mset (concat (map ?f gs)) + mset (filter (\<lambda>e. boot_home gs e = None) es) = mset es" by (simp only:)
  have "mset (map ex_id xs) + mset (map ex_id ys) = image_mset ex_id (mset xs + mset ys)" for xs ys :: "'a executable_scheme list"
    by simp
  then show ?thesis unfolding all by (simp only: all mset_map)
qed

lemma concat_batch_servers: "concat (map ba_servers (batch_list name svs exs)) = map ex_id svs"
  and concat_batch_executables: "concat (map ba_executables (batch_list name svs exs)) = map ex_id exs"
  by (simp_all add: batch_list_def batch_of_def)

lemma concat_batches_servers:
    "concat (map ba_servers (batches_by h k svs exs gs)) = map ex_id (concat (map (\<lambda>g. filter (\<lambda>e. h e = Some g) svs) gs))"
  and concat_batches_executables:
    "concat (map ba_executables (batches_by h k svs exs gs)) = map ex_id (concat (map (\<lambda>g. filter (\<lambda>e. k e = Some g) exs) gs))"
  by (induction gs) (simp_all add: batches_by_def concat_batch_servers concat_batch_executables)

text \<open>The order, for the groups as they are sorted.\<close>

definition boot_batches :: "domain_group list \<Rightarrow> broker_state \<Rightarrow> boot_batch list" where
  "boot_batches groups s =
     batches_by (boot_home groups) (boot_home groups) (bs_servers s) (bs_executables s) groups @
     batch_list ''<no group>'' (filter (\<lambda>e. boot_home groups e = None) (bs_servers s))
       (filter (\<lambda>e. boot_home groups e = None) (bs_executables s))"

lemma boot_order_batches:
  assumes "distinct (map gr_id (bs_groups s))" "groups = stable_sort group_less (bs_groups s)"
  shows "boot_order s = (Inr (boot_batches groups s), s\<lparr>bs_groups := groups\<rparr>)"
proof -
  have "distinct groups" using distinct_stable_sort [OF assms(1)] unfolding assms(2) by (simp add: distinct_map)
  then show ?thesis
    by (simp add: boot_order_def Let_def group_batches_by boot_batches_def boot_home_in_groups rev_batches_by batch_list_def
        assms(2) [symmetric])
qed


end
