(* ===== verification/Broker_Configured.thy ===== *)
theory Broker_Configured
  imports Broker_Config Broker_Boot
begin

text \<open>
  What holds of the state that a configuration gives: its references resolve, its ids are distinct, and the
  group of casual itself, with the transaction manager, is booted before all others.
\<close>

section \<open>Steps that succeed\<close>

lemma and_thenE:
  assumes "and_then r f = Inr y"
  obtains x where "r = Inr x" "f x = Inr y"
  using assms by (cases r) (auto simp: and_then_def)

lemma and_then_simps [simp]: "and_then (Inl e) f = Inl e" "and_then (Inr x) f = f x"
  by (simp_all add: and_then_def)

lemma map_all_set: "map_all f xs = Inr ys \<Longrightarrow> y \<in> set ys \<Longrightarrow> \<exists>x\<in>set xs. f x = Inr y"
  by (induction xs arbitrary: ys) (auto elim!: and_thenE)

lemma map_numbered_nth:
  "map_numbered f xs i = Inr ys \<Longrightarrow> length ys = length xs \<and> (\<forall>k<length xs. f (xs ! k) (i + k) = Inr (ys ! k))"
proof (induction xs arbitrary: ys i)
  case (Cons x xs)
  then obtain y zs where "f x i = Inr y" "map_numbered f xs (i + 1) = Inr zs" "ys = y # zs"
    by (auto elim!: and_thenE)
  with Cons(1) [of "i + 1" zs] show ?case by (auto simp: nth_Cons less_Suc_eq_0_disj split: nat.split)
qed simp

lemma map_numbered_ids:
  assumes "map_numbered f xs i = Inr ys" "\<And>x k y. f x k = Inr y \<Longrightarrow> g y = k"
  shows "map g ys = [i..<i + length xs]"
  using map_numbered_nth [OF assms(1)] assms(2) by (intro nth_equalityI) auto

lemma map_numbered_set:
  assumes "map_numbered f xs i = Inr ys" "y \<in> set ys"
  shows "\<exists>x\<in>set xs. \<exists>k. f x k = Inr y"
  using map_numbered_nth [OF assms(1)] assms(2) by (metis in_set_conv_nth)

lemma membership_known: "membership groups names = Inr ids \<Longrightarrow> set ids \<subseteq> gr_id ` set groups"
  unfolding membership_def by (auto dest!: map_all_set find_Some_in split: option.splits)

section \<open>The groups\<close>

lemma plain_groups_ids:
  "plain_groups cs i r = Inr gs \<Longrightarrow> map gr_id gs = [i..<i + length cs] \<and> (\<forall>g\<in>set gs. gr_dependencies g = [])"
proof (induction cs arbitrary: i r gs)
  case (Cons c cs)
  then obtain rs gs' where *: "plain_groups cs (i + 1) (r + length rs) = Inr gs'"
    "gs = \<lparr>gr_id = i, gr_name = cg_name c, gr_note = cg_note c, gr_resources = rs, gr_dependencies = []\<rparr> # gs'"
    by (auto elim!: and_thenE)
  with Cons(1) [OF *(1)] show ?case by (simp add: upt_conv_Cons del: upt_Suc)
qed simp

lemma resolved_dependencies:
  assumes "resolve_dependencies cs gs = Inr gs'" "\<forall>g\<in>set gs. set (gr_dependencies g) \<subseteq> gr_id ` set gs"
  shows "map gr_id gs' = map gr_id gs \<and> (\<forall>g\<in>set gs'. set (gr_dependencies g) \<subseteq> gr_id ` set gs)"
  using assms
proof (induction cs arbitrary: gs)
  case (Cons c cs)
  let ?up = "\<lambda>ids. upd_first (\<lambda>g. gr_name g = cg_name c) (\<lambda>g. g\<lparr>gr_dependencies := ids\<rparr>) gs"
  from Cons(2) obtain ids where ids: "membership gs (cg_dependencies c) = Inr ids" "resolve_dependencies cs (?up ids) = Inr gs'"
    by (auto elim!: and_thenE)
  have same: "map gr_id (?up ids) = map gr_id gs" by (rule map_upd_first) simp
  then have sets: "gr_id ` set (?up ids) = gr_id ` set gs" by (metis list.set_map)
  have "\<forall>g\<in>set (?up ids). set (gr_dependencies g) \<subseteq> gr_id ` set (?up ids)"
    unfolding sets using Cons(3) membership_known [OF ids(1)] by (auto elim!: in_set_upd_firstE)
  from Cons(1) [OF ids(2) this] show ?case by (simp add: same sets)
qed simp

lemma insertion_sort_last:
  assumes "\<forall>x\<in>set xs. lt c x"
  shows "insertion_sort lt (xs @ [c]) = c # insertion_sort lt xs"
proof (cases "insertion_sort lt xs")
  case Nil
  then show ?thesis by (simp add: insertion_sort_def linear_insert_def)
next
  case (Cons y ys)
  have "set (insertion_sort lt xs) = set xs" using mset_insertion_sort [of lt xs] by (metis set_mset_mset)
  with Cons assms have "lt c y" by auto
  with Cons show ?thesis by (simp add: insertion_sort_def linear_insert_def)
qed

text \<open>The groups of a domain: that of casual first, every other depends on it and on groups of the domain.\<close>

lemma domain_groups_sorted:
  assumes "domain_groups cs casual = Inr gs" "gr_dependencies casual = []"
  shows "\<exists>rest. gs = casual # rest \<and> distinct (map gr_id gs) \<and>
    (\<forall>g\<in>set rest. gr_id casual \<in> set (gr_dependencies g) \<and> set (gr_dependencies g) \<subseteq> gr_id ` set gs)"
proof -
  from assms(1) obtain gs1 gs2 where g: "plain_groups cs (gr_id casual + 1) 10 = Inr gs1" "resolve_dependencies cs gs1 = Inr gs2"
    and sorted: "gs = insertion_sort group_less (map (\<lambda>g. g\<lparr>gr_dependencies := gr_dependencies g @ [gr_id casual]\<rparr>) gs2 @ [casual])"
    unfolding domain_groups_def by (auto elim!: and_thenE simp: Let_def split: if_splits)
  let ?all = "map (\<lambda>g. g\<lparr>gr_dependencies := gr_dependencies g @ [gr_id casual]\<rparr>) gs2"
  have "\<forall>g\<in>set gs1. set (gr_dependencies g) \<subseteq> gr_id ` set gs1" using plain_groups_ids [OF g(1)] by simp
  from resolved_dependencies [OF g(2) this] have gs2: "map gr_id gs2 = [gr_id casual + 1..<gr_id casual + 1 + length cs]"
    "\<forall>g\<in>set gs2. set (gr_dependencies g) \<subseteq> gr_id ` set gs1"
    using plain_groups_ids [OF g(1)] by simp_all
  then have "set (map gr_id gs1) = set (map gr_id gs2)" using plain_groups_ids [OF g(1)] by simp
  then have same: "gr_id ` set gs1 = gr_id ` set gs2" by simp
  have gs: "gs = casual # insertion_sort group_less ?all"
    unfolding sorted by (rule insertion_sort_last) (auto simp: group_less_def)
  have m: "mset (insertion_sort group_less ?all) = mset ?all" by (rule mset_insertion_sort)
  then have s: "set (insertion_sort group_less ?all) = set ?all" by (rule mset_eq_setD)
  have ids: "map gr_id ?all = map gr_id gs2" by simp
  have "mset (map gr_id (insertion_sort group_less ?all)) = image_mset gr_id (mset ?all)" unfolding mset_map m ..
  also have "\<dots> = mset (map gr_id gs2)" unfolding ids [symmetric] by (rule mset_map [symmetric])
  finally have "mset (map gr_id (insertion_sort group_less ?all)) = mset (map gr_id gs2)" .
  then have "distinct (map gr_id (insertion_sort group_less ?all))"
    using mset_eq_imp_distinct_iff distinct_upt unfolding gs2(1) by blast
  moreover have fresh: "gr_id casual \<notin> gr_id ` set gs2"
  proof -
    have "gr_id casual \<notin> set (map gr_id gs2)" unfolding gs2(1) by (simp del: upt_Suc)
    then show ?thesis by simp
  qed
  moreover have image: "gr_id ` set ?all = gr_id ` set gs2" by (simp add: image_image)
  ultimately have "distinct (map gr_id gs)" unfolding gs by (simp add: s)
  moreover have all: "gr_id ` set gs = insert (gr_id casual) (gr_id ` set gs2)" unfolding gs by (simp add: s image_image)
  moreover have "gr_id casual \<in> set (gr_dependencies g) \<and> set (gr_dependencies g) \<subseteq> gr_id ` set gs"
    if "g \<in> set ?all" for g
  proof -
    from that obtain h where h: "h \<in> set gs2" "gr_dependencies g = gr_dependencies h @ [gr_id casual]" by auto
    from bspec [OF gs2(2) h(1)] show ?thesis unfolding all same h(2) by auto
  qed
  ultimately show ?thesis using gs s by simp
qed

section \<open>The state\<close>

lemma no_such_id: "i \<notin> ex_id ` set es \<Longrightarrow> \<not> list_ex (has_id i) es"
  by (auto simp: list_ex_iff has_id_def)

lemma added_servers:
  "distinct (map ex_id (bs_servers s @ es)) \<Longrightarrow> fold add_server es s = s\<lparr>bs_servers := bs_servers s @ es\<rparr>"
  by (induction es arbitrary: s) (auto simp: add_server_def no_such_id)

lemma added_executables:
  "distinct (map ex_id (bs_executables s @ es)) \<Longrightarrow> fold add_executable es s = s\<lparr>bs_executables := bs_executables s @ es\<rparr>"
  by (induction es arbitrary: s) (auto simp: add_executable_def no_such_id)

lemma configured_executable_keeps:
  assumes "configured_executable out groups c e = Inr e'"
  shows "ex_id e' = ex_id e \<and> ex_instances e' = ex_instances e \<and> set (ex_memberships e') \<subseteq> gr_id ` set groups"
  using assms by (auto simp: configured_executable_def elim!: and_thenE dest!: membership_known)

lemma configured_server_keeps:
  assumes "configured_server out groups c i = Inr e"
  shows "ex_id e = i \<and> ex_instances e = [] \<and> set (ex_memberships e) \<subseteq> gr_id ` set groups"
  using assms configured_executable_keeps [of out groups c "new_server i"]
  by (auto simp: configured_server_def new_server_def new_executable_def executable.defs server.defs elim!: and_thenE)

lemma configured_service_unused: "configured_service c = Inr v \<Longrightarrow> sv_instances v = []"
  by (auto simp: configured_service_def split: sum.splits)

lemma numbered_executables:
  assumes "map_numbered f cs i = Inr es"
    "\<And>c k e. f c k = Inr e \<Longrightarrow> ex_id e = k \<and> ex_instances e = [] \<and> set (ex_memberships e) \<subseteq> G"
  shows "map ex_id es = [i..<i + length es]"
    and "e \<in> set es \<Longrightarrow> ex_id e < i + length es \<and> ex_instances e = [] \<and> set (ex_memberships e) \<subseteq> G"
proof -
  have n: "length es = length cs" "\<forall>k<length cs. f (cs ! k) (i + k) = Inr (es ! k)" using map_numbered_nth [OF assms(1)] by simp_all
  with assms(2) show "map ex_id es = [i..<i + length es]" by (intro nth_equalityI) auto
  show "ex_id e < i + length es \<and> ex_instances e = [] \<and> set (ex_memberships e) \<subseteq> G" if "e \<in> set es"
  proof -
    from that obtain k where "k < length es" "e = es ! k" by (metis in_set_conv_nth)
    with n assms(2) [of "cs ! k" "i + k" e] show ?thesis by auto
  qed
qed

text \<open>A table of services that no instance has joined.\<close>

definition services_unused :: "broker_state \<Rightarrow> bool" where
  "services_unused s \<longleftrightarrow> (\<forall>name v. bs_services s name = Some v \<longrightarrow> name_of v = name \<and> sv_instances v = [])"

lemma added_services:
  assumes "services_unused s" "\<forall>v\<in>set vs. sv_instances v = []"
  shows "\<exists>f. fold add_configured_service vs s = s\<lparr>bs_services := f\<rparr> \<and> services_unused (s\<lparr>bs_services := f\<rparr>)"
  using assms
proof (induction vs arbitrary: s)
  case Nil
  then show ?case by (intro exI [of _ "bs_services s"]) simp
next
  case (Cons v vs)
  define f where "f = (case bs_services s (name_of v) of None \<Rightarrow> (bs_services s)(name_of v \<mapsto> v) | Some _ \<Rightarrow> bs_services s)"
  have step: "add_configured_service v s = s\<lparr>bs_services := f\<rparr>"
    by (simp add: add_configured_service_def f_def split: option.split)
  have "services_unused (s\<lparr>bs_services := f\<rparr>)"
    using Cons(2,3) by (auto simp: services_unused_def f_def split: option.splits if_splits)
  from Cons(1) [OF this] Cons(3) step show ?case by auto
qed

text \<open>What a configured state is.\<close>

definition resolved :: "broker_state \<Rightarrow> 'a executable_scheme \<Rightarrow> bool" where
  "resolved s e \<longleftrightarrow> ex_id e < bs_next_id s \<and> ex_instances e = [] \<and> set (ex_memberships e) \<subseteq> gr_id ` set (bs_groups s)"

definition config_typed :: "broker_state \<Rightarrow> bool" where
  "config_typed s \<longleftrightarrow> bs_instances s = Map.empty \<and> services_unused s \<and>
     distinct (map ex_id (bs_servers s) @ map ex_id (bs_executables s)) \<and>
     distinct (map gr_id (bs_groups s)) \<and>
     list_all (resolved s) (bs_servers s) \<and> list_all (resolved s) (bs_executables s) \<and>
     list_all (\<lambda>g. set (gr_dependencies g) \<subseteq> gr_id ` set (bs_groups s)) (bs_groups s)"

lemma config_typed_ok: "config_typed s \<Longrightarrow> broker_ok s"
  by (rule broker_okI) (auto simp: config_typed_def services_unused_def has_service_def offered_def service_ok_def split: option.split)

lemma casual_server_ids: "map ex_id (casual_servers c) = [10, 11]"
  and casual_server_groups: "map ex_memberships (casual_servers c) = [[10], [10]]"
  and casual_server_instances: "map ex_instances (casual_servers c) = [[], []]"
  by (simp_all add: casual_servers_def forward_server_def manager_server_def new_server_def new_executable_def
      executable.defs server.defs Let_def)

lemma domain_state_parts:
  assumes "distinct (map ex_id (casual_servers c @ servers))" "distinct (map ex_id executables)" "\<forall>v\<in>set services. sv_instances v = []"
  shows "\<exists>f. domain_state c groups servers executables services standard variables s =
      fresh_state s\<lparr>bs_domain := cf_name c, bs_groups := groups, bs_casual_group := 10, bs_servers := casual_servers c @ servers,
        bs_executables := executables, bs_services := f, bs_standard_timeout := si_timeout (sv_information standard),
        bs_environment := variables, bs_next_id := 12 + length servers + length executables\<rparr> \<and>
    (\<forall>name v. f name = Some v \<longrightarrow> name_of v = name \<and> sv_instances v = [])"
proof -
  let ?s = "fresh_state s\<lparr>bs_domain := cf_name c, bs_groups := groups, bs_casual_group := 10\<rparr>"
  let ?s1 = "?s\<lparr>bs_servers := casual_servers c @ servers\<rparr>" and ?s2 = "?s\<lparr>bs_servers := casual_servers c @ servers, bs_executables := executables\<rparr>"
  have "fold add_server (casual_servers c @ servers) ?s = ?s1"
    using added_servers [of ?s "casual_servers c @ servers"] assms(1) by (simp add: fresh_state_def)
  moreover have "fold add_executable executables ?s1 = ?s2"
    using added_executables [of ?s1 executables] assms(2) by (simp add: fresh_state_def)
  moreover obtain f where "fold add_configured_service services ?s2 = ?s2\<lparr>bs_services := f\<rparr>" "services_unused (?s2\<lparr>bs_services := f\<rparr>)"
    using added_services [of ?s2 services] assms(3) by (auto simp: services_unused_def fresh_state_def)
  ultimately show ?thesis by (intro exI [of _ f]) (simp add: domain_state_def Let_def services_unused_def)
qed

lemma configured_parts:
  assumes "configured_domain out c s = Inr s'"
  obtains rest servers executables services standard variables where
    "domain_groups (cf_groups c) casual_group = Inr (casual_group # rest)"
    "map_numbered (configured_server out (casual_group # rest)) (cf_servers c) 12 = Inr servers"
    "map_numbered (\<lambda>e i. configured_executable out (casual_group # rest) e (new_executable i)) (cf_executables c)
       (12 + length servers) = Inr executables"
    "map_all configured_service (cf_services c) = Inr services"
    "s' = domain_state c (casual_group # rest) servers executables services standard variables s"
proof -
  from assms obtain groups servers executables services standard variables where
    "domain_groups (cf_groups c) casual_group = Inr groups"
    "map_numbered (configured_server out groups) (cf_servers c) 12 = Inr servers"
    "map_numbered (\<lambda>e i. configured_executable out groups e (new_executable i)) (cf_executables c) (12 + length servers) = Inr executables"
    "map_all configured_service (cf_services c) = Inr services"
    "s' = domain_state c groups servers executables services standard variables s"
    by (auto simp: configured_domain_def elim!: and_thenE)
  then show thesis using that domain_groups_sorted [of "cf_groups c" casual_group groups] by (auto simp: casual_group_def)
qed

lemma configured_broker_parts:
  assumes "configured_broker out c s = Inr s'"
  obtains d rest servers where "bs_groups s' = casual_group # rest" "bs_servers s' = casual_servers d @ servers"
    "distinct (map gr_id (casual_group # rest))" "config_typed s'" "bs_replies s' = []"
proof -
  obtain d where "configured_domain out d s = Inr s'" using assms by (auto simp: configured_broker_def split: option.splits)
  then obtain rest servers executables services standard variables where
    groups: "domain_groups (cf_groups d) casual_group = Inr (casual_group # rest)"
    and servers: "map_numbered (configured_server out (casual_group # rest)) (cf_servers d) 12 = Inr servers"
    and executables: "map_numbered (\<lambda>e i. configured_executable out (casual_group # rest) e (new_executable i)) (cf_executables d)
       (12 + length servers) = Inr executables"
    and services: "map_all configured_service (cf_services d) = Inr services"
    and s': "s' = domain_state d (casual_group # rest) servers executables services standard variables s"
    by (rule configured_parts)
  let ?G = "gr_id ` set (casual_group # rest)"
  have "ex_id e = k \<and> ex_instances e = [] \<and> set (ex_memberships e) \<subseteq> ?G"
    if "configured_server out (casual_group # rest) x k = Inr e" for x k e
    using configured_server_keeps [OF that] .
  note srv = numbered_executables [OF servers this]
  have "ex_id e = k \<and> ex_instances e = [] \<and> set (ex_memberships e) \<subseteq> ?G"
    if "configured_executable out (casual_group # rest) x (new_executable k) = Inr e" for x :: cf_executable and k e
    using configured_executable_keeps [OF that] by (simp add: new_executable_def)
  note exe = numbered_executables [OF executables this]
  have "\<forall>v\<in>set services. sv_instances v = []"
    using map_all_set [OF services] configured_service_unused by blast
  with domain_state_parts [of d servers executables services "casual_group # rest" standard variables s] srv(1) exe(1)
  obtain f where f: "s' =
      fresh_state s\<lparr>bs_domain := cf_name d, bs_groups := casual_group # rest, bs_casual_group := 10,
        bs_servers := casual_servers d @ servers,
        bs_executables := executables, bs_services := f, bs_standard_timeout := si_timeout (sv_information standard),
        bs_environment := variables, bs_next_id := 12 + length servers + length executables\<rparr>"
    "\<forall>name v. f name = Some v \<longrightarrow> name_of v = name \<and> sv_instances v = []"
    unfolding s' by (auto simp: casual_server_ids)
  have casual: "\<forall>e\<in>set (casual_servers d). ex_id e < 12 \<and> ex_instances e = [] \<and> set (ex_memberships e) \<subseteq> ?G"
    by (simp add: casual_servers_def forward_server_def manager_server_def new_server_def new_executable_def
      executable.defs server.defs Let_def casual_group_def)
  obtain rest' where g: "casual_group # rest = casual_group # rest'" "distinct (map gr_id (casual_group # rest))"
    "\<forall>g\<in>set rest'. gr_id casual_group \<in> set (gr_dependencies g) \<and> set (gr_dependencies g) \<subseteq> ?G"
    using domain_groups_sorted [OF groups] by (auto simp: casual_group_def)
  have fields: "bs_next_id s' = 12 + length servers + length executables" "bs_groups s' = casual_group # rest"
    "bs_servers s' = casual_servers d @ servers" "bs_executables s' = executables" "bs_instances s' = Map.empty"
    "bs_services s' = f" unfolding f(1) by (simp_all add: fresh_state_def)
  have "list_all (resolved s') (bs_servers s')" "list_all (resolved s') (bs_executables s')"
    using srv(2) exe(2) casual unfolding list_all_iff resolved_def fields by fastforce+
  moreover have "distinct (map ex_id (bs_servers s') @ map ex_id (bs_executables s'))"
  proof -
    have "map ex_id (bs_servers s') @ map ex_id (bs_executables s') =
        [10, 11] @ [12..<12 + length servers] @ [12 + length servers..<12 + length servers + length executables]"
      by (simp only: fields map_append casual_server_ids srv(1) exe(1) append_assoc)
    then show ?thesis by (simp del: upt_Suc)
  qed
  moreover have "list_all (\<lambda>g. set (gr_dependencies g) \<subseteq> gr_id ` set (bs_groups s')) (bs_groups s')"
    using g(1,3) unfolding fields list_all_iff by (auto simp: casual_group_def)
  ultimately have "config_typed s'"
    unfolding config_typed_def services_unused_def using f(2) g(2) fields by simp
  with f(1) g(2) that show thesis by (simp add: fresh_state_def)
qed

text \<open>
  C25: A configuration that is accepted gives a well-formed state: nothing runs yet, no service has an instance,
  servers and executables have different ids, all of them used up, groups have different ids, and every
  membership and every dependency names a group of the domain. From there the broker keeps its references
  consistent whatever happens until it ends.
\<close>

theorem configuration_is_resolved:
  assumes "configured_broker out c s = Inr s'"
  shows "config_typed s' \<and> broker_ok (snd (broker_run evs rounds s'))"
proof (rule configured_broker_parts [OF assms])
  assume "config_typed s'" "bs_replies s' = []"
  then show ?thesis
    using refs.broker_run [of s' evs rounds] by (simp add: config_typed_ok broker_inv_def replies_plain_def)
qed

text \<open>
  In a configured domain the group of casual itself boots first: the first batch holds the forward cache and
  the transaction manager, so both are there before any server that is configured is started.
\<close>

theorem casual_group_boots_first:
  assumes "configured_broker out c s = Inr s'"
  shows "\<exists>b bs. fst (boot_order s') = Inr (b # bs) \<and> ba_group b = ''casual-group'' \<and> take 2 (ba_servers b) = [10, 11] \<and>
    map ex_alias (take 2 (bs_servers s')) = [''casual-forward-cache'', ''casual-transaction-manager'']"
proof (rule configured_broker_parts [OF assms])
  fix d rest servers
  assume s': "bs_groups s' = casual_group # rest" "bs_servers s' = casual_servers d @ servers" "config_typed s'"
    and d: "distinct (map gr_id (casual_group # rest))"
  obtain gs where gs: "stable_sort group_less (casual_group # rest) = casual_group # gs"
    using hd_stable_sort [of rest group_less casual_group] by (auto simp: group_less_def casual_group_def)
  have dist: "distinct (map gr_id (casual_group # gs))" using distinct_stable_sort [OF d, of group_less] unfolding gs .
  define home :: "server \<Rightarrow> domain_group option" where "home = boot_home (casual_group # gs)"
  define execs where "execs = filter (\<lambda>e. boot_home (casual_group # gs) e = Some casual_group) (bs_executables s')"
  have "\<not> member_of (gr_id g) e" if "g \<in> set gs" "ex_memberships e = [10]" for g and e :: server
    using dist that by (auto simp: member_of_def casual_group_def)
  note none = this
  have "home e = Some casual_group" if "ex_memberships e = [10]" for e
  proof -
    have "List.find (\<lambda>g. member_of (gr_id g) e) (rev gs) = None"
      using none that by (simp add: find_None_iff')
    with that show ?thesis by (simp add: home_def boot_home_def find_append member_of_def casual_group_def)
  qed
  moreover have "\<forall>e\<in>set (casual_servers d). ex_memberships e = [10]"
    by (simp add: casual_servers_def forward_server_def manager_server_def new_server_def executable.defs server.defs
        new_executable_def Let_def)
  ultimately have members: "filter (\<lambda>e. home e = Some casual_group) (casual_servers d @ servers) =
      casual_servers d @ filter (\<lambda>e. home e = Some casual_group) servers"
    by (simp add: filter_id_conv)
  obtain bs where bs: "boot_batches (casual_group # gs) s' =
      batch_list (gr_name casual_group) (casual_servers d @ filter (\<lambda>e. home e = Some casual_group) servers) execs @ bs"
    unfolding boot_batches_def batches_by_def s'(2) home_def [symmetric] using members by (auto simp: execs_def)
  have "fst (boot_order s') = Inr (boot_batches (casual_group # gs) s')"
    using boot_order_batches [of s' "casual_group # gs"] d gs s'(1) by simp
  moreover have "casual_servers d \<noteq> []" by (simp add: casual_servers_def Let_def)
  ultimately have "fst (boot_order s') =
      Inr (batch_of (gr_name casual_group) (casual_servers d @ filter (\<lambda>e. home e = Some casual_group) servers) execs # bs)"
    unfolding bs by (simp add: batch_list_def)
  moreover have "map ex_alias (casual_servers d) = [''casual-forward-cache'', ''casual-transaction-manager'']"
    by (simp add: casual_servers_def forward_server_def manager_server_def new_server_def executable.defs server.defs
        new_executable_def Let_def)
  moreover have "length (casual_servers d) = 2" by (simp add: casual_servers_def Let_def)
  ultimately show ?thesis
    using s'(2) casual_server_ids [of d] by (simp add: batch_of_def casual_group_def)
qed

end
