(* ===== verification/Broker_Theorems.thy ===== *)
theory Broker_Theorems
  imports Broker_Walk
begin

text \<open>
  What the broker promises its callers: what a lookup is answered, that an acknowledge serves the oldest
  request it can, that an instance is given to one caller at a time, and that no waiting caller is
  forgotten.
\<close>

section \<open>Results of the steps\<close>

lemma blocking_send_result:
  obtains ps where "blocking_send q m s = (Inr (), s\<lparr>bs_push := ps, bs_sent := bs_sent s @ [(q, m)]\<rparr>)"
  | ps where "blocking_send q m s = (Inl B_unavailable, s\<lparr>bs_push := ps\<rparr>)" "B_gone \<in> set (bs_push s)"
proof (cases "dropWhile (\<lambda>p. p = B_full) (bs_push s)")
  case Nil
  then have "blocking_send q m s = after (broker_push q m) (\<lambda>_. return ()) (s\<lparr>bs_push := []\<rparr>)"
    by (simp only: blocking_send_def after_def change_def prod.case sum.case)
  then have "blocking_send q m s = (Inr (), s\<lparr>bs_push := [], bs_sent := bs_sent s @ [(q, m)]\<rparr>)"
    by (simp add: after_def broker_push_def return_def)
  then show ?thesis by (rule that(1))
next
  case (Cons o' os)
  then have "o' \<noteq> B_full" by (metis (mono_tags) dropWhile_eq_Cons_conv)
  moreover have "o' \<in> set (bs_push s)" using Cons by (metis list.set_intros(1) set_dropWhileD)
  ultimately show ?thesis using Cons
    by (cases o') (auto simp: blocking_send_def after_def change_def broker_push_def return_def intro: that)
qed

definition deliverable :: "broker_state \<Rightarrow> bool" where
  "deliverable s \<longleftrightarrow> B_gone \<notin> set (bs_push s)"

lemma blocking_send_delivered:
  assumes "deliverable s"
  obtains ps where "blocking_send q m s = (Inr (), s\<lparr>bs_push := ps, bs_sent := bs_sent s @ [(q, m)]\<rparr>)"
  using assms blocking_send_result [of q m s] by (metis deliverable_def)

lemma alter_state_result:
  obtains now ts where
    "alter_state pid v s = (Inr (), on_server_instance pid (\<lambda>i. i\<lparr>bi_state := v, bi_last := now\<rparr>) (s\<lparr>bs_clock := ts\<rparr>))"
proof -
  obtain now ts where "broker_now s = (Inr now, s\<lparr>bs_clock := ts\<rparr>)" using broker_now_returns by blast
  then show ?thesis by (intro that [of now ts]) (simp add: alter_state_def after_def change_def)
qed

lemma is_idle_on_instance:
  "is_idle (on_server_instance pid f s) q = (if q = pid then (case bs_instances s pid of None \<Rightarrow> False | Some i \<Rightarrow> bi_state (f i) = V_idle)
    else is_idle s q)"
  by (auto simp: is_idle_def on_server_instance_def split: option.split)

lemma is_idle_frame: "bs_instances t = bs_instances s \<Longrightarrow> is_idle t = is_idle s"
  by (simp add: is_idle_def fun_eq_iff)

lemma on_instance_frame [simp]:
  "bs_sent (on_server_instance pid f s) = bs_sent s" "bs_requests (on_server_instance pid f s) = bs_requests s"
  "bs_services (on_server_instance pid f s) = bs_services s" "bs_servers (on_server_instance pid f s) = bs_servers s"
  "bs_push (on_server_instance pid f s) = bs_push s" "bs_forward (on_server_instance pid f s) = bs_forward s"
  "bs_self (on_server_instance pid f s) = bs_self s" "bs_replies (on_server_instance pid f s) = bs_replies s"
  "bs_monitors (on_server_instance pid f s) = bs_monitors s"
  by (simp_all add: on_server_instance_def)

lemma on_service_frame [simp]:
  "bs_sent (on_service n f s) = bs_sent s" "bs_requests (on_service n f s) = bs_requests s"
  "bs_instances (on_service n f s) = bs_instances s" "bs_servers (on_service n f s) = bs_servers s"
  "bs_replies (on_service n f s) = bs_replies s" "bs_forward (on_service n f s) = bs_forward s" "bs_self (on_service n f s) = bs_self s"
  by (simp_all add: on_service_def)

lemma find_filter: "List.find P xs = (case filter P xs of [] \<Rightarrow> None | x # _ \<Rightarrow> Some x)"
  by (induction xs) auto

section \<open>The lookup of a service\<close>

lemma lookup_grants:
  assumes "bs_services s (lr_requested m) = Some v" "List.find (is_idle s) (sv_instances v) = Some pid" "deliverable s"
  shows "\<exists>s'. handle_lookup m s = (Inr (), s') \<and>
    bs_sent s' = bs_sent s @ [(ph_queue (lr_process m), service_reply m v s (handle_of s pid) L_idle)] \<and>
    bs_requests s' = bs_requests s \<and> (\<forall>q. is_idle s' q = (is_idle s q \<and> q \<noteq> pid))"
proof -
  obtain now ts where a: "alter_state pid V_busy s =
      (Inr (), on_server_instance pid (\<lambda>i. i\<lparr>bi_state := V_busy, bi_last := now\<rparr>) (s\<lparr>bs_clock := ts\<rparr>))"
    by (rule alter_state_result)
  define t where "t = on_server_instance pid (\<lambda>i. i\<lparr>bi_state := V_busy, bi_last := now\<rparr>) (s\<lparr>bs_clock := ts\<rparr>)"
  have "deliverable t" using assms(3) by (simp add: t_def deliverable_def)
  then obtain ps where b: "blocking_send (ph_queue (lr_process m)) (service_reply m v s (handle_of s pid) L_idle) t =
      (Inr (), t\<lparr>bs_push := ps, bs_sent := bs_sent t @ [(ph_queue (lr_process m), service_reply m v s (handle_of s pid) L_idle)]\<rparr>)"
    by (rule blocking_send_delivered)
  have "is_idle t q = (is_idle s q \<and> q \<noteq> pid)" for q
    unfolding t_def is_idle_on_instance by (auto simp: is_idle_def split: option.split)
  moreover have "bs_sent t = bs_sent s" "bs_requests t = bs_requests s" by (simp_all add: t_def)
  ultimately show ?thesis
    using assms(1,2) a b by (simp add: handle_lookup_def after_def change_def t_def [symmetric] is_idle_def)
qed


section \<open>The acknowledge\<close>

text \<open>An instance that can serve a request is one of the instances of the service.\<close>

lemma can_serve_offered:
  assumes "broker_ok s" "bs_instances s pid = Some i" "can_serve i m"
  shows "\<exists>v. bs_services s (lr_requested m) = Some v \<and> pid \<in> set (sv_instances v)"
proof -
  have "has_service s pid (lr_requested m)" using assms(2,3) by (auto simp: has_service_def can_serve_def list_ex_iff)
  then have "offered s (lr_requested m) pid" using broker_ok_refs [OF assms(1)] by simp
  then show ?thesis by (cases "bs_services s (lr_requested m)") (auto simp: offered_def)
qed

lemma can_serve_idle:
  assumes "broker_ok s" "bs_instances s pid = Some i" "can_serve i m" "bi_state i = V_idle"
  shows "\<exists>v q. bs_services s (lr_requested m) = Some v \<and> List.find (is_idle s) (sv_instances v) = Some q"
proof -
  obtain v where v: "bs_services s (lr_requested m) = Some v" "pid \<in> set (sv_instances v)"
    using can_serve_offered [OF assms(1-3)] by blast
  have "is_idle s pid" using assms(2,4) by (simp add: is_idle_def)
  with v(2) have "List.find (is_idle s) (sv_instances v) \<noteq> None" by (auto simp: find_None_iff')
  with v(1) show ?thesis by blast
qed

text \<open>The acknowledge up to the point where the requests are searched.\<close>

definition released :: "int \<Rightarrow> int \<Rightarrow> int list \<Rightarrow> broker_state \<Rightarrow> broker_state" where
  "released pid now ts s = on_server_instance pid (\<lambda>i. i\<lparr>bi_invoked := bi_invoked i + 1\<rparr>)
     (on_server_instance pid (\<lambda>i. i\<lparr>bi_state := V_idle, bi_last := now\<rparr>) (s\<lparr>bs_clock := ts\<rparr>))"

lemma released_frame [simp]:
  "bs_sent (released pid now ts s) = bs_sent s" "bs_requests (released pid now ts s) = bs_requests s"
  "bs_services (released pid now ts s) = bs_services s" "bs_push (released pid now ts s) = bs_push s"
  "bs_forward (released pid now ts s) = bs_forward s" "bs_self (released pid now ts s) = bs_self s"
  "bs_replies (released pid now ts s) = bs_replies s" "bs_monitors (released pid now ts s) = bs_monitors s"
  by (simp_all add: released_def)

lemma released_idle:
  "bs_instances s pid = Some i \<Longrightarrow> is_idle (released pid now ts s) q = (is_idle s q \<or> q = pid)"
  by (simp add: released_def is_idle_on_instance) (simp add: is_idle_def on_server_instance_def)

lemma released_handle: "handle_of (released pid now ts s) q = handle_of s q"
  by (auto simp: released_def handle_of_def on_server_instance_def split: option.split)

lemma released_ok: "broker_ok s \<Longrightarrow> broker_ok (released pid now ts s)"
  unfolding released_def by (intro ok_on_instance) (auto elim: broker_ok_frame)

lemma released_instance:
  "bs_instances s pid = Some i \<Longrightarrow>
    bs_instances (released pid now ts s) pid = Some (i\<lparr>bi_state := V_idle, bi_last := now, bi_invoked := bi_invoked i + 1\<rparr>)"
  by (simp add: released_def on_server_instance_def)

lemma handle_ack_known:
  assumes "bs_instances s (ph_pid p) = Some i"
  obtains now ts where "handle_ack p s = catch (serve_pending (i\<lparr>bi_state := V_idle, bi_last := now, bi_invoked := bi_invoked i + 1\<rparr>))
      (\<lambda>e. if e = B_missing then return () else throw e) (released (ph_pid p) now ts s)"
proof -
  obtain now ts where a: "alter_state (ph_pid p) V_idle s =
      (Inr (), on_server_instance (ph_pid p) (\<lambda>i. i\<lparr>bi_state := V_idle, bi_last := now\<rparr>) (s\<lparr>bs_clock := ts\<rparr>))"
    by (rule alter_state_result)
  have "get_server_instance (ph_pid p) (released (ph_pid p) now ts s) =
      (Inr (i\<lparr>bi_state := V_idle, bi_last := now, bi_invoked := bi_invoked i + 1\<rparr>), released (ph_pid p) now ts s)"
    using released_instance [OF assms] by (simp add: get_server_instance_def present_def)
  moreover have "get_server_instance (ph_pid p) s = (Inr i, s)" using assms by (simp add: get_server_instance_def present_def)
  moreover have "change (on_server_instance (ph_pid p) (\<lambda>i. i\<lparr>bi_invoked := bi_invoked i + 1\<rparr>))
      (on_server_instance (ph_pid p) (\<lambda>i. i\<lparr>bi_state := V_idle, bi_last := now\<rparr>) (s\<lparr>bs_clock := ts\<rparr>)) =
      ((Inr (), released (ph_pid p) now ts s) :: (broker_exn + unit) \<times> broker_state)" by (simp add: change_def released_def)
  ultimately show ?thesis
    using a by (intro that [of now ts]) (simp add: handle_ack_def Let_def catch_def after_def)
qed

text \<open>
  C22: An acknowledge from an instance that can serve a waiting request serves the oldest such request, when
  its caller is there: exactly one message is sent, to that caller, and it grants the first idle instance
  of the service, counting the one that just became idle; the granted instance is busy, the request does not wait
  any more, the others wait in their order, and no request is stacked a second time.
\<close>

theorem acknowledge_serves_the_oldest_request:
  assumes "broker_ok s" "deliverable s" "bs_instances s (ph_pid p) = Some i"
    "List.find (can_serve i) (bs_requests s) = Some m"
  shows "\<exists>s' v q. handle_ack p s = (Inr (), s') \<and>
    bs_services s (lr_requested m) = Some v \<and>
    List.find (\<lambda>q. is_idle s q \<or> q = ph_pid p) (sv_instances v) = Some q \<and>
    bs_sent s' = bs_sent s @ [(ph_queue (lr_process m), service_reply m v s (handle_of s q) L_idle)] \<and>
    bs_requests s' = erase_first (can_serve i) (bs_requests s) \<and>
    (\<forall>r. is_idle s' r = ((is_idle s r \<or> r = ph_pid p) \<and> r \<noteq> q))"
proof -
  obtain now ts where ack: "handle_ack p s = catch (serve_pending (i\<lparr>bi_state := V_idle, bi_last := now, bi_invoked := bi_invoked i + 1\<rparr>))
      (\<lambda>e. if e = B_missing then return () else throw e) (released (ph_pid p) now ts s)"
    using handle_ack_known [OF assms(3)] by blast
  define t where "t = released (ph_pid p) now ts s"
  let ?j = "i\<lparr>bi_state := V_idle, bi_last := now, bi_invoked := bi_invoked i + 1\<rparr>"
  have same: "can_serve ?j = can_serve i" by (simp add: can_serve_def fun_eq_iff)
  have idle: "is_idle t = (\<lambda>q. is_idle s q \<or> q = ph_pid p)"
    using released_idle [OF assms(3)] by (simp add: t_def fun_eq_iff)
  have m: "can_serve i m" using find_Some_in [OF assms(4)] by simp
  obtain v q where v: "bs_services t (lr_requested m) = Some v" "List.find (is_idle t) (sv_instances v) = Some q"
    using can_serve_idle [of t "ph_pid p" ?j m] released_ok [OF assms(1)] released_instance [OF assms(3)] m same
    unfolding t_def by (metis server_instance.select_convs(6) server_instance.surjective server_instance.update_convs(2,3,6))
  have "deliverable t" using assms(2) by (simp add: t_def deliverable_def)
  from lookup_grants [OF v this] obtain s1 where
    s1: "handle_lookup m t = (Inr (), s1)" "bs_requests s1 = bs_requests s"
      "bs_sent s1 = bs_sent s @ [(ph_queue (lr_process m), service_reply m v t (handle_of t q) L_idle)]"
      "\<forall>r. is_idle s1 r = (is_idle t r \<and> r \<noteq> q)" by (auto simp: t_def)
  let ?s' = "s1\<lparr>bs_requests := erase_first (can_serve i) (bs_requests s)\<rparr>"
  have "serve_pending ?j t = (Inr (), ?s')"
    unfolding serve_pending_def same using assms(4) s1(1,2) by (simp add: t_def after_def change_def)
  then have "handle_ack p s = (Inr (), ?s')" using ack by (simp add: catch_def t_def)
  moreover have "service_reply m v t (handle_of t q) L_idle = service_reply m v s (handle_of s q) L_idle"
    by (simp add: service_reply_def t_def released_handle)
  moreover have "bs_services s (lr_requested m) = Some v" using v(1) by (simp add: t_def)
  moreover have "is_idle ?s' r = ((is_idle s r \<or> r = ph_pid p) \<and> r \<noteq> q)" for r
    using s1(4) by (simp add: idle is_idle_def)
  ultimately show ?thesis using s1(3) v(2) unfolding idle by auto
qed

end
