(* ===== verification/Broker_Grants.thy ===== *)
theory Broker_Grants
  imports Broker_Theorems
begin

text \<open>
  Over whole runs: an instance is given to at most one caller for each time it becomes idle, and a caller that
  waits is either given an instance or still waits. Both are instances of the walk through the handlers.
\<close>

section \<open>One caller at a time\<close>

fun grants_to :: "int \<Rightarrow> broker_message \<Rightarrow> bool" where
  "grants_to p (Lookup_reply c i h L_idle) = (ph_pid h = p)"
| "grants_to p m = False"

definition grants :: "int \<Rightarrow> broker_state \<Rightarrow> nat" where
  "grants p s = length (filter (\<lambda>(q, m). grants_to p m) (bs_sent s))"

definition grants_or_idle :: "int \<Rightarrow> broker_state \<Rightarrow> nat" where
  "grants_or_idle p s = grants p s + (if is_idle s p then 1 else 0)"

text \<open>The events that make the instance \<open>p\<close> idle; the broker itself is \<open>self\<close>.\<close>

fun releases :: "int \<Rightarrow> int \<Rightarrow> broker_event \<Rightarrow> bool" where
  "releases p self (Be_ack q) = (ph_pid q = p)"
| "releases p self (Be_connect m) = (ph_pid (cr_process m) = p)"
| "releases p self (Be_tm_ready q success) = (success \<and> ph_pid q = p)"
| "releases p self (Be_call m) = (self = p)"
| "releases p self ev = False"

fun forwards_to :: "int \<Rightarrow> broker_event \<Rightarrow> bool" where
  "forwards_to p (Be_forward_connect m) = (ph_pid (cr_process m) = p)"
| "forwards_to p ev = False"

definition granted_within :: "int \<Rightarrow> int \<Rightarrow> nat \<Rightarrow> broker_state \<Rightarrow> bool" where
  "granted_within p self n s \<longleftrightarrow> broker_inv s \<and> ph_pid (bs_forward s) \<noteq> p \<and> ph_pid (bs_self s) = self \<and>
     grants_or_idle p s \<le> n"

lemma is_idle_unchanged: "(\<And>i. bi_state (f i) = bi_state i) \<Longrightarrow> is_idle (on_server_instance pid f s) = is_idle s"
  by (auto simp: is_idle_def on_server_instance_def fun_eq_iff split: option.split)

text \<open>Effects that send nothing and make the instance idle in no case.\<close>

definition hushed :: "int \<Rightarrow> broker_state \<Rightarrow> broker_state \<Rightarrow> bool" where
  "hushed p s t \<longleftrightarrow> bs_sent t = bs_sent s \<and> bs_forward t = bs_forward s \<and> bs_self t = bs_self s \<and>
     (is_idle t p \<longrightarrow> is_idle s p)"

lemma quiet_same_idle:
  "bs_sent t = bs_sent s \<Longrightarrow> bs_forward t = bs_forward s \<Longrightarrow> bs_self t = bs_self s \<Longrightarrow> is_idle t p = is_idle s p \<Longrightarrow> hushed p s t"
  by (simp add: hushed_def)

interpretation hushed: broker_frame "hushed p" for p
proof unfold_locales
  show "hushed p s (on_server_instance pid f s)" if "\<And>i. bi_state (f i) = bi_state i" for s pid f
    using that by (intro quiet_same_idle) (simp_all add: is_idle_unchanged)
  show "hushed p s (s\<lparr>bs_instances := (bs_instances s)(pid := None)\<rparr>)" for s pid
    by (auto simp: hushed_def is_idle_def split: if_splits)
  show "hushed p s (emplace_instance (started_instance j pid now) s)" for s j pid now
    by (cases "bs_instances s pid") (auto simp: hushed_def emplace_instance_def Let_def is_idle_def started_instance_def)
qed (auto simp: hushed_def is_idle_def)

lemma within_quiet: "maintains broker_inv f \<Longrightarrow> follows (hushed p) f \<Longrightarrow> maintains (granted_within p self n) f"
  unfolding maintains_def granted_within_def follows_def hushed_def grants_or_idle_def grants_def
  by (auto split: if_splits)

lemma quiet_alter_state: "v \<noteq> V_idle \<or> pid \<noteq> p \<Longrightarrow> follows (hushed p) (alter_state pid v)"
  by (intro hushed.altered) (auto simp: hushed_def is_idle_on_instance split: option.split_asm)

lemma within_frame: "granted_within p self n s \<Longrightarrow> same_core s t \<Longrightarrow> granted_within p self n t"
  unfolding granted_within_def grants_or_idle_def grants_def
  using broker_inv_frame by (auto simp: same_core_def is_idle_def)

lemma within_push:
  assumes "granted_within p self n s" "\<not> grants_to p m \<or> Suc (grants_or_idle p s) \<le> n"
  shows "granted_within p self n (snd (broker_push q m s))"
proof -
  let ?t = "snd (broker_push q m s)"
  have "broker_inv ?t" using inv_pushed assms(1) by (simp add: maintains_def granted_within_def)
  moreover have "bs_forward ?t = bs_forward s \<and> bs_self ?t = bs_self s \<and> bs_instances ?t = bs_instances s \<and>
      (bs_sent ?t = bs_sent s \<or> bs_sent ?t = bs_sent s @ [(q, m)])"
    by (auto simp: broker_push_def split: list.split broker_outcome.split)
  ultimately show ?thesis using assms
    by (auto simp: granted_within_def grants_or_idle_def grants_def is_idle_def)
qed

lemma plain_grants: "plain_message m \<Longrightarrow> \<not> grants_to p m"
  by (cases m rule: plain_message.cases) auto

lemma within_send:
  assumes "granted_within p self n s" "\<not> grants_to p m \<or> Suc (grants_or_idle p s) \<le> n"
  shows "granted_within p self n (snd (blocking_send q m s))"
proof -
  let ?t = "s\<lparr>bs_push := dropWhile (\<lambda>o'. o' = B_full) (bs_push s)\<rparr>"
  have "granted_within p self n ?t" using within_frame [OF assms(1)] by (simp add: same_core_def)
  moreover have "grants_or_idle p ?t = grants_or_idle p s" by (simp add: grants_or_idle_def grants_def is_idle_def)
  ultimately have "granted_within p self n (snd (broker_push q m ?t))" using within_push assms(2) by simp
  then show ?thesis
    by (cases "broker_push q m ?t"; cases "fst (broker_push q m ?t)")
      (simp_all add: blocking_send_def after_def change_def return_def)
qed

lemma within_after:
  "granted_within p self n (snd (f s)) \<Longrightarrow> (\<And>x. maintains (granted_within p self n) (g x)) \<Longrightarrow>
    granted_within p self n (snd (after f g s))"
  unfolding maintains_def after_def by (auto split: prod.split sum.split)

lemma within_grant:
  assumes "granted_within p self n s" "List.find (is_idle s) pids = Some pid"
  shows "granted_within p self n (snd (after (alter_state pid V_busy) (\<lambda>_.
    blocking_send q (service_reply m v s (handle_of s pid) L_idle)) s))"
proof -
  let ?m = "service_reply m v s (handle_of s pid) L_idle"
  have idle: "is_idle s pid" using find_Some_in [OF assms(2)] by simp
  obtain now ts where a: "alter_state pid V_busy s =
      (Inr (), on_server_instance pid (\<lambda>i. i\<lparr>bi_state := V_busy, bi_last := now\<rparr>) (s\<lparr>bs_clock := ts\<rparr>))"
    by (rule alter_state_result)
  define t where "t = on_server_instance pid (\<lambda>i. i\<lparr>bi_state := V_busy, bi_last := now\<rparr>) (s\<lparr>bs_clock := ts\<rparr>)"
  have "maintains (granted_within p self n) (alter_state pid V_busy)"
    by (intro within_quiet inv_alter_state quiet_alter_state) simp
  then have t: "granted_within p self n t" using assms(1) a by (auto simp: maintains_def t_def)
  have handle: "ph_pid (handle_of s pid) = pid"
    using idle assms(1) broker_ok_pid [of s pid] by (auto simp: is_idle_def handle_of_def granted_within_def broker_inv_def split: option.splits)
  have "\<not> grants_to p ?m \<or> Suc (grants_or_idle p t) \<le> n"
  proof (cases "pid = p")
    case True
    have "\<not> is_idle t p" unfolding t_def is_idle_on_instance True by (simp split: option.split)
    moreover have "grants p t = grants p s" by (simp add: grants_def t_def)
    moreover have "Suc (grants p s) \<le> n" using assms(1) idle True by (simp add: granted_within_def grants_or_idle_def)
    ultimately show ?thesis by (simp add: grants_or_idle_def)
  qed (simp add: service_reply_def handle)
  from within_send [OF t this] show ?thesis using a by (simp add: after_def t_def)
qed

lemma within_lookup: "maintains (granted_within p self n) (handle_lookup m)"
  unfolding maintains_def
proof (intro allI impI)
  fix s assume s: "granted_within p self n s"
  show "granted_within p self n (snd (handle_lookup m s))"
  proof (cases "bs_services s (lr_requested m)")
    case None
    then show ?thesis using within_send [OF s] by (simp add: handle_lookup_def absent_reply_def)
  next
    case (Some v)
    show ?thesis
    proof (cases "List.find (is_idle s) (sv_instances v)")
      case None
      have "maintains (granted_within p self n) (change (\<lambda>s. s\<lparr>bs_requests := bs_requests s @ [m]\<rparr>) :: unit broker)"
        by (intro within_quiet inv_requests hushed.follows_change quiet_same_idle) (simp_all add: is_idle_def)
      then have stacked: "granted_within p self n (s\<lparr>bs_requests := bs_requests s @ [m]\<rparr>)"
        using s by (simp add: maintains_def change_def)
      have "\<not> grants_to p (service_reply m v s (bs_forward s) L_idle)"
        using s by (simp add: service_reply_def granted_within_def)
      moreover have "\<not> grants_to p (service_reply m v s no_process L_busy)" by (simp add: service_reply_def)
      ultimately show ?thesis using Some None within_send [OF s] within_send [OF stacked]
        by (simp add: handle_lookup_def after_def change_def)
    next
      case (Some pid)
      have "maintains (granted_within p self n) (change (on_service (lr_requested m) (\<lambda>v. v\<lparr>sv_lookedup := sv_lookedup v + 1\<rparr>)) :: unit broker)"
        by (intro within_quiet inv_counted hushed.follows_change quiet_same_idle) (simp_all add: is_idle_def)
      then have "granted_within p self n (snd (after (after (alter_state pid V_busy) (\<lambda>_.
          blocking_send (ph_queue (lr_process m)) (service_reply m v s (handle_of s pid) L_idle))) (\<lambda>_.
          change (on_service (lr_requested m) (\<lambda>v. v\<lparr>sv_lookedup := sv_lookedup v + 1\<rparr>))) s))"
        by (intro within_after within_grant [OF s Some])
      also have "after (after (alter_state pid V_busy) (\<lambda>_.
          blocking_send (ph_queue (lr_process m)) (service_reply m v s (handle_of s pid) L_idle))) (\<lambda>_.
          change (on_service (lr_requested m) (\<lambda>v. v\<lparr>sv_lookedup := sv_lookedup v + 1\<rparr>))) s = handle_lookup m s"
        using \<open>bs_services s (lr_requested m) = Some v\<close> Some
        by (simp add: handle_lookup_def after_assoc)
      finally show ?thesis .
    qed
  qed
qed

text \<open>What may make the instance idle once more, and what follows without that.\<close>

definition lifts :: "int \<Rightarrow> int \<Rightarrow> 'a broker \<Rightarrow> bool" where
  "lifts p self f \<longleftrightarrow> (\<forall>n s. granted_within p self n s \<longrightarrow> granted_within p self (Suc n) (snd (f s)))"

lemma within_mono: "granted_within p self n s \<Longrightarrow> granted_within p self (Suc n) s"
  by (simp add: granted_within_def)

lemma lifts_maintained: "(\<And>n. maintains (granted_within p self n) f) \<Longrightarrow> lifts p self f"
  unfolding lifts_def maintains_def using within_mono by blast

lemma lifts_before:
  assumes "\<And>n. maintains (granted_within p self n) f" "\<And>x. lifts p self (g x)"
  shows "lifts p self (after f g)"
  unfolding lifts_def
proof (intro allI impI)
  fix n s assume s: "granted_within p self n s"
  obtain r t where f: "f s = (r, t)" by fastforce
  then have "granted_within p self n t" using maintainsD [OF assms(1) s] by blast
  then show "granted_within p self (Suc n) (snd (after f g s))"
    using assms(2) f by (cases r) (simp_all add: after_def lifts_def within_mono)
qed

lemma lifts_then:
  assumes "lifts p self f" "\<And>x n. maintains (granted_within p self n) (g x)"
  shows "lifts p self (after f g)"
  unfolding lifts_def
proof (intro allI impI)
  fix n s assume "granted_within p self n s"
  then have "granted_within p self (Suc n) (snd (f s))" using assms(1) by (simp add: lifts_def)
  then show "granted_within p self (Suc n) (snd (after f g s))" using assms(2) by (rule within_after)
qed

lemma lifts_catch:
  assumes "lifts p self f" "\<And>e n. maintains (granted_within p self n) (h e)"
  shows "lifts p self (catch f h)"
  unfolding lifts_def
proof (intro allI impI)
  fix n s assume s: "granted_within p self n s"
  obtain r t where f: "f s = (r, t)" by fastforce
  then have "granted_within p self (Suc n) t" using assms(1) s unfolding lifts_def by (metis snd_conv)
  then show "granted_within p self (Suc n) (snd (catch f h s))"
    using assms(2) f by (cases r) (simp_all add: catch_def maintains_def)
qed

lemma lifts_alter_state: "lifts p self (alter_state pid v)"
  unfolding lifts_def
proof (intro allI impI)
  fix n s assume s: "granted_within p self n s"
  obtain now ts where a: "alter_state pid v s =
      (Inr (), on_server_instance pid (\<lambda>i. i\<lparr>bi_state := v, bi_last := now\<rparr>) (s\<lparr>bs_clock := ts\<rparr>))"
    by (rule alter_state_result)
  have "broker_inv (snd (alter_state pid v s))" using inv_alter_state s by (simp add: maintains_def granted_within_def)
  then show "granted_within p self (Suc n) (snd (alter_state pid v s))"
    using s a by (auto simp: granted_within_def grants_or_idle_def grants_def)
qed

lemma within_serve: "maintains (granted_within p self n) (serve_pending i)"
proof -
  have "maintains (granted_within p self n) (change (\<lambda>s. s\<lparr>bs_requests := erase_first (can_serve i) (bs_requests s)\<rparr>) :: unit broker)"
    by (intro within_quiet inv_requests hushed.follows_change quiet_same_idle) (simp_all add: is_idle_def)
  then have "maintains (granted_within p self n) (after (handle_lookup m) (\<lambda>_.
      change (\<lambda>s. s\<lparr>bs_requests := erase_first (can_serve i) (bs_requests s)\<rparr>)))" for m
    by (intro maintains_after within_lookup)
  then show ?thesis unfolding maintains_def serve_pending_def by (auto simp: return_def split: option.split)
qed

lemma within_invoked:
  "maintains (granted_within p self n) (change (on_server_instance pid (\<lambda>i. i\<lparr>bi_invoked := bi_invoked i + 1\<rparr>)) :: unit broker)"
  by (intro within_quiet inv_invoked hushed.follows_change quiet_same_idle) (simp_all add: is_idle_unchanged)

lemma within_alter_state: "v \<noteq> V_idle \<or> pid \<noteq> p \<Longrightarrow> maintains (granted_within p self n) (alter_state pid v)"
  by (intro within_quiet inv_alter_state quiet_alter_state)

lemma within_ack: "ph_pid q \<noteq> p \<Longrightarrow> maintains (granted_within p self n) (handle_ack q)"
  unfolding handle_ack_def Let_def get_server_instance_def
  by (intro wf_intros keeps_known within_serve within_alter_state maintains_after within_invoked) simp

lemma lifts_ack: "lifts p self (handle_ack q)"
proof -
  have "lifts p self (after (get_server_instance (ph_pid q)) (\<lambda>_. after (alter_state (ph_pid q) V_idle) (\<lambda>_.
      after (change (on_server_instance (ph_pid q) (\<lambda>i. i\<lparr>bi_invoked := bi_invoked i + 1\<rparr>))) (\<lambda>_.
        after (get_server_instance (ph_pid q)) serve_pending))))"
    unfolding get_server_instance_def
    by (intro lifts_before lifts_then lifts_alter_state keeps_known maintains_after within_invoked within_serve)
  then show ?thesis unfolding handle_ack_def Let_def
    by (intro lifts_catch maintains_if maintains_return maintains_throw)
qed

interpretation granting: broker_steps "granted_within p self n" "\<lambda>ev. \<not> releases p self ev \<and> \<not> forwards_to p ev"
  for p self n
proof unfold_locales
  show "granted_within p self n t" if "granted_within p self n s" "same_core s t" for s t
    using that by (rule within_frame)
  show "maintains (granted_within p self n) (broker_push q m)" if "plain_message m" for q m
    unfolding maintains_def using within_push plain_grants [OF that] by blast
  show "granted_within p self n (s\<lparr>bs_replies := ms\<rparr>)" if "granted_within p self n s" "list_all (\<lambda>m. plain_message (wm_message m)) ms" for s ms
    using that refs.kept_back [of s ms] by (simp add: granted_within_def grants_or_idle_def grants_def is_idle_def)
  show "list_all (\<lambda>m. plain_message (wm_message m)) (bs_replies s)" if "granted_within p self n s" for s
    using that by (simp add: granted_within_def refs.waiting_plain)
  show "granted_within p self n (on_server j f s)"
    if "granted_within p self n s" "\<And>e. ex_id (f e) = ex_id e" "\<And>e. se_restrictions (f e) = se_restrictions e" for s f j
  proof -
    have "is_idle (on_server j f s) p = is_idle s p" "bs_sent (on_server j f s) = bs_sent s"
      "bs_forward (on_server j f s) = bs_forward s" "bs_self (on_server j f s) = bs_self s"
      by (simp_all add: on_server_def is_idle_def)
    with that refs.server_changed [of s f j] show ?thesis
      by (simp add: granted_within_def grants_or_idle_def grants_def)
  qed
  show "granted_within p self n (on_server_instance pid (\<lambda>i. i\<lparr>bi_process := (bi_process i)\<lparr>ph_queue := q\<rparr>\<rparr>) s)"
    if "granted_within p self n s" for s pid q
  proof -
    have "is_idle (on_server_instance pid (\<lambda>i. i\<lparr>bi_process := (bi_process i)\<lparr>ph_queue := q\<rparr>\<rparr>) s) p = is_idle s p"
      by (simp add: is_idle_unchanged)
    with that refs.queue_changed [of s pid q] show ?thesis
      by (simp add: granted_within_def grants_or_idle_def grants_def)
  qed
  show "granted_within p self n (s\<lparr>bs_forward := cr_process r\<rparr>)"
    if "\<not> releases p self (Be_forward_connect r) \<and> \<not> forwards_to p (Be_forward_connect r)" "granted_within p self n s"
    for s and r :: connect_request
    using that refs.forwarding [OF TrueI, of s r] by (simp add: granted_within_def grants_or_idle_def grants_def is_idle_def)
  show "maintains (granted_within p self n) call_ack"
    if "\<not> releases p self (Be_call k) \<and> \<not> forwards_to p (Be_call k)" for k
    using that within_ack unfolding maintains_def call_ack_def by (metis granted_within_def releases.simps(4))
qed (auto intro: within_quiet inv_add_services inv_remove_services inv_remove_process inv_add_instances
  hushed.services_added hushed.services_removed hushed.process_removed hushed.instances_added within_lookup within_ack within_alter_state)

lemma lifts_call_ack: "lifts p self call_ack"
  using lifts_ack unfolding lifts_def call_ack_def by blast

lemma lifts_connect: "lifts p self (handle_server_connect m)"
proof -
  have connected: "lifts p self (if ok then after (add_services (ph_pid (cr_process m)) (map advertised vs))
      (\<lambda>_. alter_state (ph_pid (cr_process m)) V_idle) else return ())" for ok vs
  proof (cases ok)
    case True
    have "lifts p self (after (add_services (ph_pid (cr_process m)) (map advertised vs)) (\<lambda>_. alter_state (ph_pid (cr_process m)) V_idle))"
      by (intro lifts_before lifts_alter_state granting.services_added)
    with True show ?thesis by simp
  qed (simp add: lifts_maintained maintains_return)
  have queue: "maintains (granted_within p self n) (change (on_server_instance pid (\<lambda>i. i\<lparr>bi_process := (bi_process i)\<lparr>ph_queue := q\<rparr>\<rparr>)))" for n pid q
    by (intro maintains_change granting.queue_changed)
  have terminated: "maintains (granted_within p self n) (change (\<lambda>s. s\<lparr>bs_terminated := bs_terminated s @ [pid]\<rparr>))" for n pid
    by (intro granting.framed) (simp add: same_core_def)
  show ?thesis unfolding handle_server_connect_def Let_def get_server_instance_def
    by (intro lifts_catch lifts_before keeps_known queue granting.connect_process connected maintains_if maintains_throw terminated) simp
qed

lemma lifts_ready: "lifts p self (handle_tm_ready q b)"
  unfolding handle_tm_ready_def get_server_instance_def
  by (cases b) (simp_all add: lifts_before keeps_known lifts_alter_state lifts_maintained maintains_throw)

lemma lifts_call: "lifts p self (handle_call m)"
proof -
  have reply: "maintains (granted_within p self n) (swallow (call_reply m code))" for n code
    unfolding swallow_def call_reply_def by (intro wf_intros granting.sent) simp
  have service: "maintains (granted_within p self n) (admin_service c)" for n c
    unfolding admin_service_def by (cases c) (simp_all add: maintains_catch maintains_for_each granting.update_alias maintains_return)
  have ack: "lifts p self (swallow call_ack)"
    unfolding swallow_def by (intro lifts_catch lifts_call_ack maintains_return)
  show ?thesis unfolding handle_call_def
    by (cases "ca_service m = Call_unknown") (simp_all add: lifts_before lifts_then reply service ack)
qed

lemma within_dispatch:
  assumes "\<not> forwards_to p ev" "granted_within p self n s"
  shows "granted_within p self (n + (if releases p self ev then 1 else 0)) (snd (broker_dispatch ev s))"
proof (cases "releases p self ev")
  case True
  then have "lifts p self (broker_handle ev)"
    by (cases ev) (simp_all add: broker_handle_def lifts_ack lifts_connect lifts_ready lifts_call)
  then have "lifts p self (broker_dispatch ev)"
    unfolding broker_dispatch_def by (intro lifts_then maintains_return)
  with assms(2) True show ?thesis by (simp add: lifts_def)
next
  case False
  with assms granting.dispatched [of p self ev n] show ?thesis by (simp add: maintains_def)
qed

fun event_count :: "(broker_event \<Rightarrow> bool) \<Rightarrow> broker_event list \<Rightarrow> nat" where
  "event_count P [] = 0"
| "event_count P (ev # evs) = (if P ev then 1 else 0) + event_count P evs"

definition round_events :: "(broker_event \<times> broker_event list) list \<Rightarrow> broker_event list" where
  "round_events rounds = concat (map (\<lambda>(first, polls). first # polls) rounds)"

lemma event_count_append: "event_count P (xs @ ys) = event_count P xs + event_count P ys"
  by (induction xs) auto

lemma within_weaken: "granted_within p self n s \<Longrightarrow> n \<le> k \<Longrightarrow> granted_within p self k s"
  by (simp add: granted_within_def)

lemma within_poll:
  assumes "\<forall>ev\<in>set evs. \<not> forwards_to p ev" "granted_within p self n s"
  shows "granted_within p self (n + event_count (releases p self) evs) (snd (broker_poll k evs s))"
  using assms
proof (induction evs arbitrary: n s k)
  case (Cons ev evs)
  let ?b = "if releases p self ev then 1 else 0 :: nat"
  obtain r t where d: "broker_dispatch ev s = (r, t)" by fastforce
  then have t: "granted_within p self (n + ?b) t" using within_dispatch [of p ev self n s] Cons(2,3) by simp
  then have done': "granted_within p self (n + event_count (releases p self) (ev # evs)) t"
    by (rule within_weaken) simp
  from t Cons(1) [of "n + ?b" t "k - 1"] Cons(2)
  have "granted_within p self (n + event_count (releases p self) (ev # evs)) (snd (broker_poll (k - 1) evs t))"
    by (simp add: add.assoc)
  with d done' show ?case by (cases r) simp_all
qed simp

lemma within_round:
  assumes "\<forall>ev\<in>set (first # polls). \<not> forwards_to p ev" "granted_within p self n s"
  shows "granted_within p self (n + event_count (releases p self) (first # polls)) (snd (broker_round first polls s))"
proof (cases "bs_replies s = []")
  case True
  obtain r t where d: "broker_dispatch first s = (r, t)" by fastforce
  then have "granted_within p self (n + (if releases p self first then 1 else 0)) t"
    using within_dispatch [of p first self n s] assms by simp
  then have "granted_within p self (n + event_count (releases p self) (first # polls)) t" by (rule within_weaken) simp
  with d True show ?thesis by (cases r) (simp_all add: broker_round_def after_def return_def)
next
  case False
  obtain r t where d: "broker_flush s = (r, t)" by fastforce
  then have t: "granted_within p self n t" using maintainsD [OF granting.flush assms(2)] by blast
  then have "granted_within p self (n + event_count (releases p self) polls) (snd (broker_poll broker_batch polls t))"
    using assms(1) by (intro within_poll) simp_all
  then have "granted_within p self (n + event_count (releases p self) (first # polls)) (snd (broker_poll broker_batch polls t))"
    by (rule within_weaken) simp
  moreover have "granted_within p self (n + event_count (releases p self) (first # polls)) t" using t by (rule within_weaken) simp
  ultimately show ?thesis using d False by (cases r) (simp_all add: broker_round_def after_def)
qed

lemma within_rounds:
  assumes "\<forall>ev\<in>set (round_events rounds). \<not> forwards_to p ev" "granted_within p self n s"
  shows "granted_within p self (n + event_count (releases p self) (round_events rounds)) (snd (broker_rounds rounds s))"
  using assms
proof (induction rounds arbitrary: n s)
  case (Cons r rounds)
  obtain first polls where r: "r = (first, polls)" by fastforce
  let ?k = "event_count (releases p self) (first # polls)"
  have evs: "round_events ((first, polls) # rounds) = (first # polls) @ round_events rounds" by (simp add: round_events_def)
  obtain x t where d: "broker_round first polls s = (x, t)" by fastforce
  have t: "granted_within p self (n + ?k) t"
    using within_round [of first polls p self n s] Cons(2,3) d unfolding r evs by auto
  then have "granted_within p self (n + ?k + event_count (releases p self) (round_events rounds)) (snd (broker_rounds rounds t))"
    using Cons(1,2) unfolding r evs by simp
  moreover have "granted_within p self (n + ?k + event_count (releases p self) (round_events rounds)) t"
    using t by (rule within_weaken) simp
  ultimately show ?case using d unfolding r evs event_count_append
    by (cases x) (simp_all add: broker_rounds_def after_def add.assoc)
qed (simp add: broker_rounds_def round_events_def)

text \<open>
  C20: However many rounds the pump runs, the number of times a lookup is answered with an instance \<open>p\<close> is at
  most the number of times \<open>p\<close> becomes idle: once if it is idle at the start, and once for each acknowledge,
  connect or ready message of its own (each call of an administration service, for the broker itself). So
  between two releases no two callers are given the same instance. The forward, which answers in the place
  of busy instances, is excepted.
\<close>

theorem an_instance_has_one_caller_at_a_time:
  assumes "broker_ok s" "replies_plain s" "ph_pid (bs_forward s) \<noteq> p" "\<forall>ev\<in>set (round_events rounds). \<not> forwards_to p ev"
  shows "grants_or_idle p (snd (broker_rounds rounds s))
    \<le> grants_or_idle p s + event_count (releases p (ph_pid (bs_self s))) (round_events rounds)"
proof -
  have "granted_within p (ph_pid (bs_self s)) (grants_or_idle p s) s"
    using assms(1-3) by (simp add: granted_within_def broker_inv_def)
  from within_rounds [OF assms(4) this] show ?thesis by (simp add: granted_within_def)
qed

end
