(* ===== verification/Broker_Kept.thy ===== *)
theory Broker_Kept
  imports Broker_Theorems
begin

text \<open>
  No waiting caller is forgotten: whatever the broker handles, a request that waits for an instance either
  waits on, or its caller has been sent an instance.
\<close>

definition granted_to :: "lookup_request \<Rightarrow> broker_state \<Rightarrow> bool" where
  "granted_to m s \<longleftrightarrow> (\<exists>i p. (ph_queue (lr_process m), Lookup_reply (lr_correlation m) i p L_idle) \<in> set (bs_sent s))"

definition callers_kept :: "lookup_request set \<Rightarrow> broker_state \<Rightarrow> bool" where
  "callers_kept R s \<longleftrightarrow> broker_inv s \<and> (\<forall>m\<in>R. m \<in> set (bs_requests s) \<or> granted_to m s)"

lemma granted_to_mono: "granted_to m s \<Longrightarrow> set (bs_sent s) \<subseteq> set (bs_sent t) \<Longrightarrow> granted_to m t"
  unfolding granted_to_def by blast

definition requests_stay :: "broker_state \<Rightarrow> broker_state \<Rightarrow> bool" where
  "requests_stay s t \<longleftrightarrow> set (bs_requests s) \<subseteq> set (bs_requests t) \<and> set (bs_sent s) \<subseteq> set (bs_sent t)"

interpretation requests: broker_frame requests_stay
  by unfold_locales (auto simp: requests_stay_def on_server_instance_def emplace_instance_def Let_def)

lemma kept_step: "callers_kept R s \<Longrightarrow> broker_inv t \<Longrightarrow> requests_stay s t \<Longrightarrow> callers_kept R t"
  unfolding callers_kept_def requests_stay_def using granted_to_mono by blast

lemma kept_follows: "maintains broker_inv f \<Longrightarrow> follows requests_stay f \<Longrightarrow> maintains (callers_kept R) f"
  unfolding maintains_def follows_def using kept_step by (metis callers_kept_def)

lemma push_follows: "follows requests_stay (broker_push q m)"
  by (auto simp: follows_def broker_push_def requests_stay_def split: list.split broker_outcome.split)

lemma send_follows: "follows requests_stay (blocking_send q m)"
  unfolding blocking_send_def by (intro requests.follows_rules push_follows requests.other) simp_all

lemma alter_follows: "follows requests_stay (alter_state pid v)"
  by (intro requests.altered) (simp add: requests_stay_def)

lemma lookup_follows: "follows requests_stay (handle_lookup m)"
proof -
  have grant: "follows requests_stay (after (alter_state pid V_busy) (\<lambda>_. after (blocking_send q r) (\<lambda>_.
      change (on_service n (\<lambda>v. v\<lparr>sv_lookedup := sv_lookedup v + 1\<rparr>)))))" for pid q r n
    by (intro requests.follows_after alter_follows send_follows requests.follows_change requests.other) simp_all
  have stack: "follows requests_stay (after (change (\<lambda>s. s\<lparr>bs_requests := bs_requests s @ [m]\<rparr>)) (\<lambda>_. blocking_send q r))" for q r
    by (intro requests.follows_after send_follows requests.follows_change) (auto simp: requests_stay_def)
  show ?thesis
    unfolding follows_def
  proof
    fix s
    show "requests_stay s (snd (handle_lookup m s))"
    proof (cases "bs_services s (lr_requested m)")
      case None
      then show ?thesis using send_follows by (simp add: handle_lookup_def follows_def)
    next
      case (Some v)
      then show ?thesis using grant stack send_follows
        by (cases "List.find (is_idle s) (sv_instances v)") (simp_all add: handle_lookup_def follows_def)
    qed
  qed
qed

text \<open>A request that is taken out has just been answered with an instance.\<close>

lemma lookup_returns_granted:
  assumes "bs_services s (lr_requested m) = Some v" "List.find (is_idle s) (sv_instances v) = Some pid"
    "handle_lookup m s = (Inr (), s')"
  shows "granted_to m s' \<and> bs_requests s' = bs_requests s"
proof -
  obtain now ts where a: "alter_state pid V_busy s =
      (Inr (), on_server_instance pid (\<lambda>i. i\<lparr>bi_state := V_busy, bi_last := now\<rparr>) (s\<lparr>bs_clock := ts\<rparr>))"
    by (rule alter_state_result)
  define t where "t = on_server_instance pid (\<lambda>i. i\<lparr>bi_state := V_busy, bi_last := now\<rparr>) (s\<lparr>bs_clock := ts\<rparr>)"
  let ?q = "ph_queue (lr_process m)" and ?r = "service_reply m v s (handle_of s pid) L_idle"
  show ?thesis
  proof (rule blocking_send_result [of ?q ?r t])
    fix ps assume b: "blocking_send ?q ?r t = (Inr (), t\<lparr>bs_push := ps, bs_sent := bs_sent t @ [(?q, ?r)]\<rparr>)"
    have "bs_requests t = bs_requests s" by (simp add: t_def)
    then have "(?q, ?r) \<in> set (bs_sent s') \<and> bs_requests s' = bs_requests s"
      using assms a b by (auto simp: handle_lookup_def after_def change_def t_def [symmetric])
    then show ?thesis by (auto simp: granted_to_def service_reply_def)
  next
    fix ps assume "blocking_send ?q ?r t = (Inl B_unavailable, t\<lparr>bs_push := ps\<rparr>)"
    then show ?thesis using assms a by (simp add: handle_lookup_def after_def t_def [symmetric])
  qed
qed

lemma set_erase_find: "List.find P xs = Some x \<Longrightarrow> set xs \<subseteq> insert x (set (erase_first P xs))"
  by (induction xs) (auto split: if_splits)

lemma kept_serve:
  assumes "callers_kept R s" "bs_instances s pid = Some i" "bi_state i = V_idle"
  shows "callers_kept R (snd (serve_pending i s))"
proof (cases "List.find (can_serve i) (bs_requests s)")
  case None
  then show ?thesis using assms(1) by (simp add: serve_pending_def return_def)
next
  case (Some m)
  obtain r s' where h: "handle_lookup m s = (r, s')" by fastforce
  have s': "callers_kept R s'" using maintainsD [OF kept_follows [OF inv_handle_lookup lookup_follows] assms(1) h] .
  show ?thesis
  proof (cases r)
    case (Inl e)
    with Some h s' show ?thesis by (simp add: serve_pending_def after_def)
  next
    case (Inr u)
    have m: "can_serve i m" using find_Some_in [OF Some] by simp
    have ok: "broker_ok s" using assms(1) by (simp add: callers_kept_def broker_inv_def)
    obtain v q where "bs_services s (lr_requested m) = Some v" "List.find (is_idle s) (sv_instances v) = Some q"
      using can_serve_idle [OF ok assms(2) m assms(3)] by blast
    then have granted: "granted_to m s'" and same: "bs_requests s' = bs_requests s"
      using lookup_returns_granted h Inr by auto
    let ?t = "s'\<lparr>bs_requests := erase_first (can_serve i) (bs_requests s')\<rparr>"
    have "List.find (can_serve i) (bs_requests s') = Some m" using Some same by simp
    then have "set (bs_requests s') \<subseteq> insert m (set (bs_requests ?t))" using set_erase_find by simp
    moreover have "broker_inv ?t" using inv_requests [of "erase_first (can_serve i)"] s' by (auto simp: maintains_def change_def callers_kept_def)
    moreover have "granted_to x ?t = granted_to x s'" for x by (simp add: granted_to_def)
    ultimately have "callers_kept R ?t" using s' granted unfolding callers_kept_def by blast
    with Some h Inr show ?thesis by (simp add: serve_pending_def after_def change_def)
  qed
qed

lemma kept_ack: "maintains (callers_kept R) (handle_ack p)"
  unfolding maintains_def
proof (intro allI impI)
  fix s assume s: "callers_kept R s"
  show "callers_kept R (snd (handle_ack p s))"
  proof (cases "bs_instances s (ph_pid p)")
    case None
    then show ?thesis using s
      by (simp add: handle_ack_def Let_def catch_def after_def get_server_instance_def present_def return_def)
  next
    case (Some i)
    let ?j = "\<lambda>now. i\<lparr>bi_state := V_idle, bi_last := now, bi_invoked := bi_invoked i + 1\<rparr>"
    obtain now ts where ack: "handle_ack p s = catch (serve_pending (?j now))
        (\<lambda>e. if e = B_missing then return () else throw e) (released (ph_pid p) now ts s)"
      using handle_ack_known [OF Some] by blast
    let ?t = "released (ph_pid p) now ts s"
    have "broker_inv ?t" using s released_ok by (simp add: callers_kept_def broker_inv_def replies_plain_def)
    then have "callers_kept R ?t" using s by (simp add: callers_kept_def granted_to_def)
    then have "callers_kept R (snd (serve_pending (?j now) ?t))"
      by (rule kept_serve [OF _ released_instance [OF Some]]) simp
    then show ?thesis unfolding ack catch_def return_def throw_def by (auto split: prod.split sum.split)
  qed
qed

lemmas kept_steps =
  kept_follows [OF inv_alter_state alter_follows] kept_follows [OF inv_add_services requests.services_added]
  kept_follows [OF inv_remove_services requests.services_removed] kept_follows [OF inv_remove_process requests.process_removed]
  kept_follows [OF inv_add_instances requests.instances_added] kept_follows [OF inv_handle_lookup lookup_follows] kept_ack

interpretation waiting: broker_steps "callers_kept R" "\<lambda>_. True" for R
proof unfold_locales
  show "callers_kept R t" if "callers_kept R s" "same_core s t" for s t
    using that by (intro kept_step [of R s t] refs.frame [of s t]) (simp_all add: callers_kept_def same_core_def requests_stay_def)
  show "maintains (callers_kept R) (broker_push q m)" for q m
    by (intro kept_follows inv_pushed push_follows)
  show "callers_kept R (s\<lparr>bs_replies := ms\<rparr>)" if "callers_kept R s" "list_all (\<lambda>m. plain_message (wm_message m)) ms" for s ms
    using that refs.kept_back [of s ms] by (simp add: callers_kept_def granted_to_def)
  show "list_all (\<lambda>m. plain_message (wm_message m)) (bs_replies s)" if "callers_kept R s" for s
    using that by (simp add: callers_kept_def refs.waiting_plain)
  show "callers_kept R (on_server j f s)"
    if "callers_kept R s" "\<And>e. ex_id (f e) = ex_id e" "\<And>e. se_restrictions (f e) = se_restrictions e" for s f j
  proof (rule kept_step [OF that(1)])
    have "broker_inv s" using that(1) by (simp add: callers_kept_def)
    then show "broker_inv (on_server j f s)" using that(2,3) by (rule refs.server_changed)
  qed (simp add: requests_stay_def on_server_def)
  show "callers_kept R (on_server_instance pid (\<lambda>i. i\<lparr>bi_process := (bi_process i)\<lparr>ph_queue := q\<rparr>\<rparr>) s)" if "callers_kept R s" for s pid q
    using refs.queue_changed [of s pid q] that by (intro kept_step [OF that]) (simp_all add: callers_kept_def requests_stay_def)
  show "callers_kept R (s\<lparr>bs_forward := cr_process r\<rparr>)" if "callers_kept R s" for s and r :: connect_request
    using refs.forwarding [OF TrueI, of s r] that by (intro kept_step [OF that]) (simp_all add: callers_kept_def requests_stay_def)
  show "maintains (callers_kept R) call_ack"
    using kept_ack unfolding maintains_def call_ack_def by blast
qed (rule kept_steps)+

lemma kept_connect_broker: "maintains (callers_kept R) (connect_broker infos)"
  by (intro kept_follows inv_connect_broker requests.broker_connected) (simp add: requests_stay_def emplace_instance_def Let_def)

interpretation waiting: broker_life "callers_kept R" "\<lambda>_. True" for R
  by unfold_locales (simp_all add: kept_connect_broker)

text \<open>
  C21: Over any start, run and end of the broker, with exceptions and dead callers, every request that waited
  at the start either still waits or its caller has been sent an instance that was idle: a caller that was told
  that the service is busy is not dropped, whatever other instances come, go, advertise or unadvertise.
\<close>

theorem waiting_callers_are_kept:
  assumes "broker_ok s" "replies_plain s" "m \<in> set (bs_requests s)"
  shows "m \<in> set (bs_requests (snd (broker_run evs rounds s))) \<or> granted_to m (snd (broker_run evs rounds s))"
proof -
  have "callers_kept (set (bs_requests s)) s" using assms(1,2) by (simp add: callers_kept_def broker_inv_def)
  from waiting.broker_run [OF this] assms(3) show ?thesis by (auto simp: callers_kept_def)
qed

end
