(* ===== verification/Broker_Examples.thy ===== *)
theory Broker_Examples
  imports Broker_Configured Broker_Theorems Broker_Grants Broker_Kept
begin

text \<open>
  The properties of the broker at concrete states, and runs that show what the code does where it surprises.
\<close>

section \<open>A broker with two instances\<close>

definition blank_broker :: broker_state where
  "blank_broker = \<lparr>bs_servers = [], bs_instances = Map.empty, bs_services = Map.empty, bs_executables = [],
     bs_groups = [], bs_casual_group = 0, bs_singeltons = [], bs_requests = [], bs_replies = [], bs_process_lookup = [],
     bs_standard_timeout = 0, bs_environment = [], bs_monitors = [], bs_transaction_manager = 0,
     bs_forward = no_process, bs_listeners = [], bs_mode = M_running,
     bs_self = \<lparr>ph_pid = 1, ph_queue = 2\<rparr>, bs_path = ''casual-broker'', bs_domain = ''d'', bs_sent = [], bs_push = [],
     bs_clock = [], bs_spawns = [], bs_spawned = [], bs_terminated = [], bs_next_id = 13\<rparr>"

definition example_instance :: "int \<Rightarrow> server_state \<Rightarrow> server_instance" where
  "example_instance pid v = \<lparr>bi_process = \<lparr>ph_pid = pid, ph_queue = pid + 100\<rparr>, bi_invoked = 0, bi_last = 0, bi_server = 12,
     bi_services = [''svc''], bi_state = v\<rparr>"

definition example_service :: service where
  "example_service = \<lparr>sv_information = \<lparr>si_name = ''svc'', si_type = 0, si_timeout = 0, si_monitors = [], si_transaction = 0\<rparr>,
     sv_lookedup = 0, sv_instances = [101, 102]\<rparr>"

definition example_broker :: "server_state \<Rightarrow> broker_state" where
  "example_broker v = blank_broker\<lparr>bs_servers := [(new_server 12)\<lparr>ex_path := ''srv'', ex_alias := ''srv'', ex_configured := 2,
       ex_restart := True, ex_instances := [101, 102]\<rparr>],
     bs_instances := [101 \<mapsto> example_instance 101 v, 102 \<mapsto> example_instance 102 V_busy],
     bs_services := [''svc'' \<mapsto> example_service]\<rparr>"

definition example_request :: "int \<Rightarrow> lookup_request" where
  "example_request pid = \<lparr>lr_correlation = pid, lr_requested = ''svc'', lr_process = \<lparr>ph_pid = pid, ph_queue = pid + 100\<rparr>,
     lr_context = Regular\<rparr>"

lemmas example_defs = example_broker_def blank_broker_def example_instance_def example_service_def example_request_def

lemma example_ok: "broker_ok (example_broker v)"
  by (rule broker_okI)
    (auto simp: example_defs has_service_def offered_def instance_ok_def owned_def within_restrictions_def service_ok_def
      name_of_def has_id_def new_server_def new_executable_def executable.defs server.defs split: if_splits)

lemma example_plain: "replies_plain (example_broker v)"
  by (simp add: replies_plain_def example_defs)

lemma example_deliverable: "deliverable (example_broker v)"
  by (simp add: deliverable_def example_defs)

lemma example_fields:
  "bs_sent (example_broker v) = []" "bs_services (example_broker v) ''svc'' = Some example_service"
  "bs_instances (example_broker v) 101 = Some (example_instance 101 v)" "bs_forward (example_broker v) = no_process"
  "ph_pid (bs_self (example_broker v)) = 1"
  "lr_requested (example_request p) = ''svc''" "lr_context (example_request p) = Regular"
  "ph_queue (lr_process (example_request p)) = p + 100" "sv_instances example_service = [101, 102]"
  "is_idle (example_broker v) = (\<lambda>p. p = 101 \<and> v = V_idle)" "handle_of (example_broker v) 101 = \<lparr>ph_pid = 101, ph_queue = 201\<rparr>"
  "bi_services (example_instance p v) = [''svc'']"
  by (auto simp: example_defs is_idle_def handle_of_def fun_eq_iff split: option.split)

lemma more_requests_ok: "broker_ok s \<Longrightarrow> broker_ok (s\<lparr>bs_requests := ms\<rparr>)"
  by (rule broker_ok_frame) simp_all

lemma no_reference_dangles_witness:
  "broker_ok (snd (broker_run [] [(Be_advertise \<lparr>ph_pid = 101, ph_queue = 201\<rparr> [], []), (Be_shutdown, [])] (example_broker V_idle)))"
  using no_reference_dangles [OF example_ok example_plain] .


lemma acknowledge_serves_the_oldest_request_witness:
  "\<exists>s'. handle_ack \<lparr>ph_pid = 101, ph_queue = 201\<rparr> ((example_broker V_busy)\<lparr>bs_requests := [example_request 7, example_request 8]\<rparr>) = (Inr (), s') \<and>
    map fst (bs_sent s') = [107] \<and> bs_requests s' = [example_request 8]"
proof -
  let ?s = "(example_broker V_busy)\<lparr>bs_requests := [example_request 7, example_request 8]\<rparr>"
  have "deliverable ?s" by (simp add: deliverable_def example_defs)
  from acknowledge_serves_the_oldest_request [OF more_requests_ok [OF example_ok] this,
      of "\<lparr>ph_pid = 101, ph_queue = 201\<rparr>" "example_instance 101 V_busy" "example_request 7"]
  show ?thesis by (auto simp: example_fields can_serve_def)
qed

lemma an_instance_has_one_caller_at_a_time_witness:
  "grants_or_idle 101 (snd (broker_rounds [(Be_lookup (example_request 7), []), (Be_lookup (example_request 8), []),
      (Be_ack \<lparr>ph_pid = 101, ph_queue = 201\<rparr>, [])] (example_broker V_idle))) \<le> 2"
proof -
  let ?rounds = "[(Be_lookup (example_request 7), []), (Be_lookup (example_request 8), []), (Be_ack \<lparr>ph_pid = 101, ph_queue = 201\<rparr>, [])]"
  have "ph_pid (bs_forward (example_broker V_idle)) \<noteq> 101" by (simp add: example_fields no_process_def)
  moreover have "\<forall>ev\<in>set (round_events ?rounds). \<not> forwards_to 101 ev" by (simp add: round_events_def)
  ultimately show ?thesis
    using an_instance_has_one_caller_at_a_time [OF example_ok example_plain, of V_idle 101 ?rounds]
    by (simp add: round_events_def grants_or_idle_def [of _ "example_broker _"] grants_def example_fields)
qed

lemma waiting_callers_are_kept_witness:
  "example_request 7 \<in> set (bs_requests (snd (broker_run [] [(Be_ack \<lparr>ph_pid = 101, ph_queue = 201\<rparr>, [])]
       ((example_broker V_busy)\<lparr>bs_requests := [example_request 7]\<rparr>)))) \<or>
   granted_to (example_request 7) (snd (broker_run [] [(Be_ack \<lparr>ph_pid = 101, ph_queue = 201\<rparr>, [])]
       ((example_broker V_busy)\<lparr>bs_requests := [example_request 7]\<rparr>)))"
  by (rule waiting_callers_are_kept [OF more_requests_ok [OF example_ok]]) (simp_all add: replies_plain_def example_defs)

section \<open>A configured domain\<close>

definition plain_group :: "string \<Rightarrow> string list \<Rightarrow> cf_group" where
  "plain_group name deps = \<lparr>cg_name = name, cg_note = [], cg_resources = [], cg_dependencies = deps\<rparr>"

definition plain_server :: "string \<Rightarrow> string \<Rightarrow> cf_server" where
  "plain_server path g = no_server\<lparr>cx_path := path, cx_memberships := [g]\<rparr>"

definition example_domain :: cf_domain where
  "example_domain = no_domain\<lparr>cf_groups := [plain_group ''C'' [], plain_group ''A'' [''B''], plain_group ''X'' [], plain_group ''B'' []],
     cf_servers := [plain_server ''/bin/a'' ''A'', plain_server ''/bin/b'' ''B'']\<rparr>"

definition no_outside :: cf_outside where
  "no_outside = \<lparr>co_env = Map.empty, co_disk = Map.empty, co_fuel = 0\<rparr>"

definition example_groups :: "domain_group list" where
  "example_groups = projr (domain_groups (cf_groups example_domain) casual_group)"

lemma example_groups_accepted: "domain_groups (cf_groups example_domain) casual_group = Inr example_groups"
proof -
  have "\<not> isl (domain_groups (cf_groups example_domain) casual_group)" by code_simp
  then show ?thesis by (simp add: example_groups_def)
qed

lemma one_is_read: "configured_number ''1'' = Inr 1"
  by (simp add: configured_number_def stoul_def is_space_def is_digit_def less_eq_char_def digits_value_def)

lemma nothing_is_not_read: "configured_number [] = Inl (CF_number N_conversion)"
  by (simp add: configured_number_def stoul_def)

lemma one_hour_is_read: "chronology_string ''1h'' = Inr 3600000000"
  by (simp add: chronology_string_def digits_value_def is_digit_def less_eq_char_def unit_microseconds_def)

lemma example_memberships:
  "membership example_groups [''A''] = Inr [12]" "membership example_groups [''B''] = Inr [14]" "membership example_groups [] = Inr []"
  by code_simp+

lemma no_variables: "configured_environment no_outside no_environment = Inr []"
  by (simp add: configured_environment_def fetch_environment_def no_environment_def)

lemmas accepted_simps = configured_domain_def configured_server_def configured_executable_def configured_service_def
  one_is_read one_hour_is_read nothing_is_not_read example_memberships no_variables
  complement_domain_def plain_server_def no_domain_def casual_default_def no_server_def no_executable_def
  cf_executable.defs cf_server.defs assign_if_empty_def next_alias_def Let_def

definition example_configured :: broker_state where
  "example_configured = projr (configured_broker no_outside (Some example_domain) blank_broker)"

lemma example_accepted: "configured_broker no_outside (Some example_domain) blank_broker = Inr example_configured"
proof -
  have "cf_groups (complement_domain example_domain) = cf_groups example_domain" by (simp add: complement_domain_def)
  then have "\<not> isl (configured_broker no_outside (Some example_domain) blank_broker)"
    unfolding configured_broker_def configured_domain_def option.case
    by (simp add: example_groups_accepted) (simp add: example_domain_def accepted_simps)
  then show ?thesis by (simp add: example_configured_def)
qed


lemma configuration_is_resolved_witness:
  "config_typed example_configured \<and> broker_ok (snd (broker_run [] [(Be_shutdown, [])] example_configured))"
  by (rule configuration_is_resolved [OF example_accepted])

lemma casual_group_boots_first_witness:
  "\<exists>b bs. fst (boot_order example_configured) = Inr (b # bs) \<and> ba_group b = ''casual-group'' \<and> take 2 (ba_servers b) = [10, 11] \<and>
    map ex_alias (take 2 (bs_servers example_configured)) = [''casual-forward-cache'', ''casual-transaction-manager'']"
  by (rule casual_group_boots_first [OF example_accepted])

text \<open>
  Group \<open>A\<close> depends on \<open>B\<close>, and is booted before it: the comparison of groups is no order, and the sorts
  leave the two as they were configured.
\<close>

lemma dependency_boots_late:
  "map gr_name (stable_sort group_less example_groups) = [''casual-group'', ''C'', ''A'', ''X'', ''B'']"
  by code_simp

text \<open>Two servers with one path and no alias have the same alias, only the third gets a number.\<close>

lemma second_alias_is_the_first:
  "map cx_alias (complement_servers casual_default (replicate 3 (plain_server ''/bin/a'' ''A'')) (\<lambda>_. 0)) = [''a'', ''a'', ''a_2'']"
  by (simp add: numeral_3_eq_3 next_alias_def name_base_def plain_server_def no_server_def no_executable_def
      cf_executable.defs cf_server.defs assign_if_empty_def Let_def write_number.simps) code_simp

text \<open>An executable that leaves its number of instances to the default is not complemented; it is an error.\<close>

lemma executables_have_no_default:
  "configured_broker no_outside (Some (no_domain\<lparr>cf_executables := [no_executable]\<rparr>)) s = Inl (CF_number N_conversion)"
proof -
  have "domain_groups [] casual_group = Inr [casual_group]"
    by (simp add: domain_groups_def and_then_def insertion_sort_def linear_insert_def)
  then show ?thesis
    by (simp add: configured_broker_def complement_domain_def configured_domain_def configured_executable_def
        no_domain_def no_executable_def nothing_is_not_read)
qed

section \<open>Runs that surprise\<close>

text \<open>When a process dies its listener is erased, and with it all that follow in their order.\<close>

lemma death_erases_later_listeners:
  "bs_listeners (erase_listeners 5 (blank_broker\<lparr>bs_listeners := [\<lparr>ph_pid = 5, ph_queue = 6\<rparr>, \<lparr>ph_pid = 7, ph_queue = 8\<rparr>]\<rparr>)) = []"
  by (simp add: erase_listeners_def)

text \<open>The death of an executable that is no server raises an exception, which ends the pump.\<close>

lemma death_of_an_executable_ends_the_pump:
  "fst (broker_rounds [(Be_death \<lparr>px_pid = 9, px_status = 0, px_reason = X_exited\<rparr>, []), (Be_ping 1 no_process, [])]
     (blank_broker\<lparr>bs_executables := [(new_executable 12)\<lparr>ex_instances := [9]\<rparr>]\<rparr>)) = Inl B_missing"
  by (simp add: broker_rounds_def broker_round_def after_def broker_dispatch_def broker_handle_def handle_death_def deceased_def
      change_def notify_listeners_def erase_listeners_def get_server_instance_def present_def blank_broker_def return_def)

text \<open>So does a lookup whose caller has gone; the instance it was to have stays busy.\<close>

lemma gone_caller_ends_the_pump:
  "case broker_rounds [(Be_lookup (example_request 7), [])] (example_broker V_idle\<lparr>bs_push := [B_gone]\<rparr>) of
     (r, s') \<Rightarrow> r = Inl B_unavailable \<and> \<not> is_idle s' 101"
  by (simp add: broker_rounds_def broker_round_def after_def broker_dispatch_def broker_handle_def handle_lookup_def
      example_defs is_idle_def alter_state_def broker_now_def change_def blocking_send_def broker_push_def on_server_instance_def)

text \<open>
  An instance that connects while a caller waits for its service is idle, and the caller still waits: only an
  acknowledge serves the pending requests.
\<close>

lemma connect_serves_no_pending_request:
  "case broker_dispatch (Be_connect \<lparr>cr_correlation = 3, cr_process = \<lparr>ph_pid = 101, ph_queue = 201\<rparr>, cr_identification = nil_uuid,
       sc_services = []\<rparr>) (example_broker V_booted\<lparr>bs_requests := [example_request 7]\<rparr>) of
     (r, s') \<Rightarrow> is_idle s' 101 \<and> bs_requests s' = [example_request 7]"
  by (simp add: after_def broker_dispatch_def broker_handle_def handle_server_connect_def Let_def connect_process_def
      accept_connect_def catch_def add_services_def get_server_instance_def get_server_def present_def has_id_def new_server_def
      new_executable_def executable.defs server.defs return_def
      example_defs is_idle_def alter_state_def broker_now_def change_def blocking_send_def broker_push_def on_server_instance_def)

text \<open>The connect of a client that is not known is answered without its correlation.\<close>

lemma unknown_client_gets_no_correlation:
  "bs_sent (snd (handle_client_connect \<lparr>cr_correlation = 3, cr_process = \<lparr>ph_pid = 9, ph_queue = 10\<rparr>, cr_identification = nil_uuid\<rparr>
     blank_broker)) = [(10, Client_connect_reply nil_uuid Start [] ''d'')]"
  by (simp add: handle_client_connect_def catch_def after_def get_server_instance_def present_def blank_broker_def blocking_send_def
      change_def broker_push_def return_def)

text \<open>When the second of two processes cannot be started, the first runs and no server has it.\<close>

lemma started_process_is_lost:
  "case boot ((new_executable 12)\<lparr>ex_path := ''srv''\<rparr>) 2 (blank_broker\<lparr>bs_spawns := [Some 31, None]\<rparr>) of
     (r, s') \<Rightarrow> r = Inl B_invalid_argument \<and> length (bs_spawned s') = 1 \<and> state_processes s' = []"
  by (simp add: boot_def boot_count_def spawn.simps process_spawn_def after_def new_executable_def blank_broker_def
      state_processes_def numeral_2_eq_2)

end
