(* ===== verification/Communication.thy ===== *)
theory Communication
  imports Algorithm Effects Xid
begin

text \<open>
  The messages between the processes (\<open>common/communication\<close>): a message is cut into transports that fit
  the ipc queue, and the reader puts the parts of the messages that arrive, one among the other, together again.
  The system calls and the signals are part of the state: what the next calls meet.
\<close>

section \<open>Transports and complete messages\<close>

record transport =
  tp_type :: int
  tp_correlation :: uuid
  tp_offset :: nat
  tp_count :: nat
  tp_complete_size :: nat
  tp_payload :: "byte list"

definition tp_bytes :: "transport \<Rightarrow> byte list" where
  "tp_bytes t = take (tp_count t) (tp_payload t)"

definition tp_last :: "transport \<Rightarrow> bool" where
  "tp_last t \<longleftrightarrow> tp_offset t + tp_count t = tp_complete_size t"

definition tp_assign :: "byte list \<Rightarrow> transport \<Rightarrow> transport" where
  "tp_assign bs t = t\<lparr>tp_count := length bs, tp_payload := bs @ drop (length bs) (tp_payload t)\<rparr>"

text \<open>A range of the payload: its first index and the one after its last.\<close>

type_synonym span = "nat \<times> nat"

record complete =
  cm_type :: int
  cm_correlation :: uuid
  cm_payload :: "byte list"
  cm_unhandled :: "span list"

definition absent_message :: int where "absent_message = 0"

definition no_message :: complete where
  "no_message = \<lparr>cm_type = absent_message, cm_correlation = nil_uuid, cm_payload = [], cm_unhandled = []\<rparr>"

definition is_complete :: "complete \<Rightarrow> bool" where
  "is_complete c \<longleftrightarrow> cm_unhandled c = []"

definition is_message :: "complete \<Rightarrow> bool" where
  "is_message c \<longleftrightarrow> cm_type c \<noteq> absent_message"

subsection \<open>What is still missing\<close>

definition overlap :: "span \<Rightarrow> span \<Rightarrow> bool" where
  "overlap l r \<longleftrightarrow> snd l \<ge> fst r \<and> fst l \<le> snd r"

definition subtract :: "span \<Rightarrow> span \<Rightarrow> span \<times> span" where
  "subtract l r =
     (if overlap l r then
        if fst l < fst r \<and> snd l > snd r then ((fst l, fst r), (snd r, snd l))
        else if fst l < fst r then ((fst l, fst r), (0, 0))
        else if snd l > snd r then ((snd r, snd l), (0, 0))
        else ((0, 0), (0, 0))
      else (l, (0, 0)))"

definition span_empty :: "span \<Rightarrow> bool" where
  "span_empty r \<longleftrightarrow> fst r = snd r"

text \<open>The loop over the missing ranges; only the second half of the last one is remembered.\<close>

fun subtract_all :: "span list \<Rightarrow> span \<Rightarrow> span \<Rightarrow> span list \<times> span" where
  "subtract_all [] d splitted = ([], splitted)"
| "subtract_all (r # rs) d splitted =
     (let (a, b) = subtract r d; (rs', splitted') = subtract_all rs d b in (a # rs', splitted'))"

text \<open>
  \<open>Complete::add\<close>. A transport of another size than the message meets the assertion; one that reaches beyond
  it would write outside the payload.
\<close>

datatype comm_exn = X_unavailable | X_memory | X_argument | X_signal int | X_waits | X_abort | X_undefined

definition add_part :: "transport \<Rightarrow> complete \<Rightarrow> comm_exn + complete" where
  "add_part t c =
     (if length (cm_payload c) \<noteq> tp_complete_size t then Inl X_abort
      else if tp_offset t + tp_count t > length (cm_payload c) then Inl X_undefined
      else let (rs, splitted) = subtract_all (cm_unhandled c) (tp_offset t, tp_offset t + tp_count t) (0, 0);
               rs' = (if span_empty splitted then rs else rs @ [splitted])
           in Inr (c\<lparr>cm_payload := take (tp_offset t) (cm_payload c) @ tp_bytes t @
                       drop (tp_offset t + tp_count t) (cm_payload c),
                     cm_unhandled := fst (range_partition (\<lambda>r. \<not> span_empty r) rs')\<rparr>))"

text \<open>A message begins with its first transport.\<close>

definition new_complete :: "transport \<Rightarrow> comm_exn + complete" where
  "new_complete t = add_part t
     \<lparr>cm_type = tp_type t, cm_correlation = tp_correlation t, cm_payload = replicate (tp_complete_size t) 0,
      cm_unhandled = [(0, tp_complete_size t)]\<rparr>"

section \<open>The ipc queue\<close>

text \<open>
  What the system calls answer: success, or an error; an interrupted call looks for signals. \<open>signal::handle\<close>
  throws the signal there is.
\<close>

datatype sys_error = E_AGAIN | E_INTR | E_IDRM | E_NOMEM | E_INVAL | E_other

record channel =
  ch_queue :: "transport list"
  ch_system :: "sys_error option list"
  ch_signals :: "int option list"

datatype policy = Blocking | Non_blocking | Ignore_blocking | Ignore_non_blocking

definition policy_waits :: "policy \<Rightarrow> bool" where
  "policy_waits p \<longleftrightarrow> p = Blocking \<or> p = Ignore_blocking"

definition policy_signals :: "policy \<Rightarrow> bool" where
  "policy_signals p \<longleftrightarrow> p = Blocking \<or> p = Non_blocking"

definition signal_handle :: "(channel, comm_exn, unit) effect" where
  "signal_handle ch =
     (case ch_signals ch of
        Some s # ss \<Rightarrow> (Inl (X_signal s), ch\<lparr>ch_signals := ss\<rparr>)
      | None # ss \<Rightarrow> (Inr (), ch\<lparr>ch_signals := ss\<rparr>)
      | [] \<Rightarrow> (Inr (), ch))"

text \<open>The call is repeated as long as it is interrupted and there is no signal to throw.\<close>

fun next_answer :: "sys_error option list \<Rightarrow> int option list \<Rightarrow>
    (comm_exn + sys_error option) \<times> sys_error option list \<times> int option list" where
  "next_answer [] ss = (Inr None, [], ss)"
| "next_answer (Some E_INTR # es) [] = next_answer es []"
| "next_answer (Some E_INTR # es) (None # ss) = next_answer es ss"
| "next_answer (Some E_INTR # es) (Some s # ss) = (Inl (X_signal s), es, ss)"
| "next_answer (a # es) ss = (Inr a, es, ss)"

definition system_call :: "(channel, comm_exn, sys_error option) effect" where
  "system_call ch =
     (case next_answer (ch_system ch) (ch_signals ch) of
        (r, es, ss) \<Rightarrow> (r, ch\<lparr>ch_system := es, ch_signals := ss\<rparr>))"

definition native_send :: "transport \<Rightarrow> (channel, comm_exn, bool) effect" where
  "native_send t = after system_call (\<lambda>answer.
     case answer of
       None \<Rightarrow> after (change (\<lambda>ch. ch\<lparr>ch_queue := ch_queue ch @ [t]\<rparr>)) (\<lambda>_. return True)
     | Some E_AGAIN \<Rightarrow> return False
     | Some E_IDRM \<Rightarrow> throw X_unavailable
     | Some E_NOMEM \<Rightarrow> throw X_memory
     | Some E_INVAL \<Rightarrow> throw (if tp_type t > 0 then X_unavailable else X_argument)
     | Some _ \<Rightarrow> throw X_argument)"

text \<open>A blocking receive on an empty queue does not return.\<close>

definition native_receive :: "bool \<Rightarrow> (channel, comm_exn, transport option) effect" where
  "native_receive waits = after system_call (\<lambda>answer.
     case answer of
       None \<Rightarrow> after (read_state ch_queue) (\<lambda>ts.
         case ts of
           t # ts' \<Rightarrow> after (change (\<lambda>ch. ch\<lparr>ch_queue := ts'\<rparr>)) (\<lambda>_. return (Some t))
         | [] \<Rightarrow> if waits then throw X_waits else return None)
     | Some E_AGAIN \<Rightarrow> return None
     | Some E_IDRM \<Rightarrow> throw X_unavailable
     | Some _ \<Rightarrow> throw X_argument)"

definition policy_send :: "policy \<Rightarrow> transport \<Rightarrow> (channel, comm_exn, bool) effect" where
  "policy_send p t = after (if policy_signals p then signal_handle else return ()) (\<lambda>_. native_send t)"

definition policy_receive :: "policy \<Rightarrow> (channel, comm_exn, transport option) effect" where
  "policy_receive p =
     after (if policy_signals p then signal_handle else return ()) (\<lambda>_. native_receive (policy_waits p))"

subsection \<open>Error handlers\<close>

text \<open>
  The handler a caller may give: it returns, and the policy is tried again, or it throws. A wait that never
  ends and an abort are no exceptions to it.
\<close>

type_synonym handler = "(comm_exn \<Rightarrow> comm_exn option) option"

definition handler_result :: "handler \<Rightarrow> comm_exn \<Rightarrow> comm_exn option" where
  "handler_result h e = (if e \<in> {X_waits, X_abort, X_undefined} then Some e else case h of None \<Rightarrow> Some e | Some f \<Rightarrow> f e)"

definition answers_left :: "channel \<Rightarrow> nat" where
  "answers_left ch = length (ch_system ch) + length (ch_signals ch)"

lemma next_answer_uses:
  "next_answer es ss = (r, es', ss') \<Longrightarrow>
    length es' + length ss' \<le> length es + length ss \<and>
    (r \<noteq> Inr None \<longrightarrow> length es' + length ss' < length es + length ss)"
  by (induction es ss rule: next_answer.induct) fastforce+

lemma signal_uses:
  "signal_handle ch = (r, ch') \<Longrightarrow> answers_left ch' \<le> answers_left ch \<and>
    (isl r \<longrightarrow> answers_left ch' < answers_left ch) \<and> ch_queue ch' = ch_queue ch"
  by (auto simp: signal_handle_def answers_left_def split: list.splits option.splits)

lemma system_call_uses:
  "system_call ch = (r, ch') \<Longrightarrow>
    answers_left ch' \<le> answers_left ch \<and> (r \<noteq> Inr None \<longrightarrow> answers_left ch' < answers_left ch)"
  by (auto simp: system_call_def answers_left_def split: prod.splits dest!: next_answer_uses)

lemma native_send_uses:
  "native_send t ch = (r, ch') \<Longrightarrow> answers_left ch' \<le> answers_left ch \<and> (isl r \<longrightarrow> answers_left ch' < answers_left ch)"
  unfolding native_send_def after_def
  by (auto simp: return_def throw_def change_def after_def answers_left_def
    split: prod.splits sum.splits option.splits sys_error.splits dest!: system_call_uses)

lemma policy_send_uses:
  assumes "policy_send p t ch = (Inl e, ch')" shows "answers_left ch' < answers_left ch"
  using assms unfolding policy_send_def after_def
  by (auto simp: return_def split: prod.splits sum.splits if_splits dest!: signal_uses native_send_uses)

text \<open>\<open>Device::apply\<close> of the sender\<close>

function apply_send :: "policy \<Rightarrow> handler \<Rightarrow> transport \<Rightarrow> (channel, comm_exn, bool) effect" where
  "apply_send p h t ch =
     (case policy_send p t ch of
        (Inl e, ch') \<Rightarrow> (case handler_result h e of Some e' \<Rightarrow> (Inl e', ch') | None \<Rightarrow> apply_send p h t ch')
      | (Inr b, ch') \<Rightarrow> (Inr b, ch'))"
  by pat_completeness auto
termination
  by (relation "measure (\<lambda>(p, h, t, ch). answers_left ch)") (auto dest!: policy_send_uses [OF sym])

declare apply_send.simps [simp del]

section \<open>Sending\<close>

text \<open>
  \<open>Device::put\<close>: the payload is cut in parts of at most \<open>payload_max_size\<close>; an empty message is one empty part.
  One transport is reused for all parts. When the queue is full a part may be refused: the parts that were sent stay
  in the queue, and the result is the empty uuid. The size of a part is positive, by the assertion of the class.
\<close>

definition message_size :: nat where "message_size = 1024 * 8"
definition header_size :: nat where "header_size = 40"
definition payload_max_size :: nat where "payload_max_size = message_size - header_size"

definition new_transport :: "complete \<Rightarrow> transport" where
  "new_transport m = \<lparr>tp_type = cm_type m, tp_correlation = cm_correlation m, tp_offset = 0, tp_count = 0,
     tp_complete_size = length (cm_payload m), tp_payload = replicate payload_max_size 0\<rparr>"

function put_from :: "nat \<Rightarrow> policy \<Rightarrow> handler \<Rightarrow> complete \<Rightarrow> transport \<Rightarrow> nat \<Rightarrow> (channel, comm_exn, uuid) effect" where
  "put_from limit p h m t first ch =
     (let stop = (if length (cm_payload m) - first > limit then first + limit else length (cm_payload m));
          t' = (tp_assign (take (stop - first) (drop first (cm_payload m))) t)\<lparr>tp_offset := first\<rparr>
      in case apply_send p h t' ch of
           (Inl e, ch') \<Rightarrow> (Inl e, ch')
         | (Inr False, ch') \<Rightarrow> (Inr nil_uuid, ch')
         | (Inr True, ch') \<Rightarrow>
             if stop < length (cm_payload m) \<and> 0 < limit then put_from limit p h m t' stop ch'
             else (Inr (cm_correlation m), ch'))"
  by pat_completeness auto
termination by (relation "measure (\<lambda>(limit, p, h, m, t, first, ch). length (cm_payload m) - first)") (auto split: if_splits)

declare put_from.simps [simp del]

definition put :: "policy \<Rightarrow> handler \<Rightarrow> complete \<Rightarrow> (channel, comm_exn, uuid) effect" where
  "put p h m = put_from payload_max_size p h m (new_transport m) 0"

text \<open>\<open>Device::send\<close>: a message without correlation gets a new one.\<close>

definition device_send :: "policy \<Rightarrow> handler \<Rightarrow> uuid \<Rightarrow> int \<Rightarrow> uuid \<Rightarrow> byte list \<Rightarrow> (channel, comm_exn, uuid) effect" where
  "device_send p h fresh ty c bytes =
     put p h \<lparr>cm_type = ty, cm_correlation = (if c = nil_uuid then fresh else c), cm_payload = bytes, cm_unhandled = []\<rparr>"

section \<open>The inbound device\<close>

record device = channel +
  dv_cache :: "complete list"
  dv_discarded :: "uuid list"

text \<open>An effect on the ipc queue of a device.\<close>

definition on_channel :: "(channel, comm_exn, 'a) effect \<Rightarrow> (device, comm_exn, 'a) effect" where
  "on_channel f d =
     (case f (channel.truncate d) of
        (r, ch) \<Rightarrow> (r, d\<lparr>ch_queue := ch_queue ch, ch_system := ch_system ch, ch_signals := ch_signals ch\<rparr>))"

lemma native_receive_uses:
  "native_receive w ch = (r, ch') \<Longrightarrow> answers_left ch' \<le> answers_left ch \<and>
    (isl r \<and> r \<noteq> Inl X_waits \<longrightarrow> answers_left ch' < answers_left ch) \<and>
    length (ch_queue ch') \<le> length (ch_queue ch) \<and>
    (\<forall>t. r = Inr (Some t) \<longrightarrow> length (ch_queue ch') < length (ch_queue ch))"
  unfolding native_receive_def after_def
  by (auto simp: return_def throw_def change_def read_state_def after_def answers_left_def system_call_def
    split: prod.splits sum.splits option.splits sys_error.splits list.splits if_splits dest!: next_answer_uses)

lemma policy_receive_uses:
  "policy_receive p ch = (r, ch') \<Longrightarrow>
    (isl r \<and> r \<noteq> Inl X_waits \<longrightarrow> answers_left ch' < answers_left ch) \<and>
    length (ch_queue ch') \<le> length (ch_queue ch) \<and>
    (\<forall>t. r = Inr (Some t) \<longrightarrow> length (ch_queue ch') < length (ch_queue ch))"
  unfolding policy_receive_def after_def
  by (auto simp: return_def split: prod.splits sum.splits if_splits
      dest!: signal_uses native_receive_uses)

lemma handler_result_none: "handler_result h e = None \<Longrightarrow> e \<noteq> X_waits"
  by (auto simp: handler_result_def)

function apply_receive :: "policy \<Rightarrow> handler \<Rightarrow> (channel, comm_exn, transport option) effect" where
  "apply_receive p h ch =
     (case policy_receive p ch of
        (Inl e, ch') \<Rightarrow> (case handler_result h e of Some e' \<Rightarrow> (Inl e', ch') | None \<Rightarrow> apply_receive p h ch')
      | (Inr t, ch') \<Rightarrow> (Inr t, ch'))"
  by pat_completeness auto
termination
  by (relation "measure (\<lambda>(p, h, ch). answers_left ch)")
    (auto dest!: policy_receive_uses [OF sym] handler_result_none)

declare apply_receive.simps [simp del]

text \<open>A discarded transport: with the last part of its message the discard is over.\<close>

definition discard_part :: "transport \<Rightarrow> device \<Rightarrow> device" where
  "discard_part t d =
     (if tp_last t then d\<lparr>dv_discarded := erase_first (\<lambda>c. c = tp_correlation t) (dv_discarded d)\<rparr> else d)"

definition cache_part :: "transport \<Rightarrow> device \<Rightarrow> comm_exn + device" where
  "cache_part t d =
     (case List.find (\<lambda>m. cm_correlation m = tp_correlation t) (dv_cache d) of
        Some m \<Rightarrow> (case add_part t m of Inl e \<Rightarrow> Inl e
          | Inr m' \<Rightarrow> Inr (d\<lparr>dv_cache := upd_first (\<lambda>m. cm_correlation m = tp_correlation t) (\<lambda>_. m') (dv_cache d)\<rparr>))
      | None \<Rightarrow> (case new_complete t of Inl e \<Rightarrow> Inl e | Inr m \<Rightarrow> Inr (d\<lparr>dv_cache := dv_cache d @ [m]\<rparr>)))"

definition take_part :: "transport \<Rightarrow> device \<Rightarrow> comm_exn + device" where
  "take_part t d = (if tp_correlation t \<in> set (dv_discarded d) then Inr (discard_part t d) else cache_part t d)"

lemma take_part_queue: "take_part t d = Inr d' \<Longrightarrow> ch_queue d' = ch_queue d"
  by (auto simp: take_part_def discard_part_def cache_part_def split: if_splits option.splits sum.splits)

lemma apply_receive_uses:
  "apply_receive p h ch = (Inr (Some t), ch') \<Longrightarrow> length (ch_queue ch') < length (ch_queue ch)"
proof (induction p h ch rule: apply_receive.induct)
  case (1 p h ch)
  obtain r ch1 where r: "policy_receive p ch = (r, ch1)" by fastforce
  note uses = policy_receive_uses [OF r]
  show ?case
  proof (cases r)
    case (Inl e)
    with 1(2) r have none: "handler_result h e = None" and rest: "apply_receive p h ch1 = (Inr (Some t), ch')"
      by (simp_all add: apply_receive.simps [of p h ch] split: option.splits)
    from 1(1) [OF r [symmetric] Inl none rest] uses show ?thesis by simp
  next
    case (Inr u)
    with 1(2) r have "u = Some t" "ch1 = ch'" by (simp_all add: apply_receive.simps [of p h ch])
    with uses Inr show ?thesis by simp
  qed
qed

lemma on_channel_queue: "on_channel f d = (r, d') \<Longrightarrow> f (channel.truncate d) = (r, channel.truncate d')"
  by (cases d) (auto simp: on_channel_def channel.truncate_def split: prod.splits)

text \<open>The loop of \<open>Device::find\<close>, which yields the first message of the cache that fits.\<close>

function find_message :: "policy \<Rightarrow> handler \<Rightarrow> (complete \<Rightarrow> bool) \<Rightarrow> (device, comm_exn, complete option) effect" where
  "find_message p h P d =
     (case List.find P (dv_cache d) of
        Some m \<Rightarrow> (Inr (Some m), d)
      | None \<Rightarrow>
          (case on_channel (apply_receive p h) d of
             (Inl e, d') \<Rightarrow> (Inl e, d')
           | (Inr None, d') \<Rightarrow> (Inr None, d')
           | (Inr (Some t), d') \<Rightarrow>
               (case take_part t d' of Inl e \<Rightarrow> (Inl e, d') | Inr d'' \<Rightarrow> find_message p h P d'')))"
  by pat_completeness auto
termination
proof (relation "measure (\<lambda>(p, h, P, d). length (ch_queue d))")
  fix p :: policy and h :: handler and P :: "complete \<Rightarrow> bool" and d d1 d2 :: device and x y t
  assume "(x, d1) = on_channel (apply_receive p h) d" "x = Inr y" "y = Some t" "take_part t d1 = Inr d2"
  then have "apply_receive p h (channel.truncate d) = (Inr (Some t), channel.truncate d1)" "ch_queue d2 = ch_queue d1"
    using on_channel_queue [of "apply_receive p h" d] take_part_queue by auto
  from this(2) apply_receive_uses [OF this(1)] show "((p, h, P, d2), p, h, P, d) \<in> measure (\<lambda>(p, h, P, d). length (ch_queue d))"
    by (simp add: channel.truncate_def)
qed simp

declare find_message.simps [simp del]

definition find_complete :: "policy \<Rightarrow> handler \<Rightarrow> (complete \<Rightarrow> bool) \<Rightarrow> (device, comm_exn, complete) effect" where
  "find_complete p h P =
     after (find_message p h (\<lambda>m. is_complete m \<and> P m)) (\<lambda>found.
       case found of
         Some m \<Rightarrow> after (change (\<lambda>d. d\<lparr>dv_cache := erase_first (\<lambda>m. is_complete m \<and> P m) (dv_cache d)\<rparr>)) (\<lambda>_. return m)
       | None \<Rightarrow> return no_message)"

definition next_any :: "policy \<Rightarrow> handler \<Rightarrow> (device, comm_exn, complete) effect" where
  "next_any p h = find_complete p h (\<lambda>_. True)"

definition next_type :: "int \<Rightarrow> policy \<Rightarrow> handler \<Rightarrow> (device, comm_exn, complete) effect" where
  "next_type ty p h = find_complete p h (\<lambda>m. cm_type m = ty)"

definition next_types :: "int list \<Rightarrow> policy \<Rightarrow> handler \<Rightarrow> (device, comm_exn, complete) effect" where
  "next_types tys p h = find_complete p h (\<lambda>m. cm_type m \<in> set tys)"

definition next_correlated :: "uuid \<Rightarrow> policy \<Rightarrow> handler \<Rightarrow> (device, comm_exn, complete) effect" where
  "next_correlated c p h = find_complete p h (\<lambda>m. cm_correlation m = c)"

text \<open>\<open>receive\<close>: whether there was a message, and its bytes, which the archive reads.\<close>

definition unmarshal :: "complete \<Rightarrow> complete option" where
  "unmarshal m = (if is_message m then Some m else None)"

definition receive_type :: "int \<Rightarrow> policy \<Rightarrow> handler \<Rightarrow> (device, comm_exn, complete option) effect" where
  "receive_type ty p h = after (next_type ty p h) (\<lambda>m. return (unmarshal m))"

definition receive_correlated :: "uuid \<Rightarrow> policy \<Rightarrow> handler \<Rightarrow> (device, comm_exn, complete option) effect" where
  "receive_correlated c p h = after (next_correlated c p h) (\<lambda>m. return (unmarshal m))"

definition device_discard :: "uuid \<Rightarrow> device \<Rightarrow> device" where
  "device_discard c d =
     (case List.find (\<lambda>m. cm_correlation m = c) (dv_cache d) of
        Some m \<Rightarrow> d\<lparr>dv_discarded := (if is_complete m then dv_discarded d else dv_discarded d @ [c]),
                    dv_cache := erase_first (\<lambda>m. cm_correlation m = c) (dv_cache d)\<rparr>
      | None \<Rightarrow> if c \<in> set (dv_discarded d) then d else d\<lparr>dv_discarded := dv_discarded d @ [c]\<rparr>)"

text \<open>\<open>put\<close> returns the correlation of the message it has moved into the cache.\<close>

definition device_put :: "complete \<Rightarrow> (device, comm_exn, uuid) effect" where
  "device_put m = after (change (\<lambda>d. d\<lparr>dv_cache := dv_cache d @ [m]\<rparr>)) (\<lambda>_. return nil_uuid)"

text \<open>
  \<open>ipc::call\<close>: the request goes to the destination, the reply is what has its correlation. The state is the queue of
  the destination and the own device.
\<close>

definition ipc_call :: "policy \<Rightarrow> handler \<Rightarrow> uuid \<Rightarrow> int \<Rightarrow> uuid \<Rightarrow> byte list \<Rightarrow>
    (channel \<times> device, comm_exn, complete option) effect" where
  "ipc_call p h fresh ty c bytes s =
     (case device_send p h fresh ty c bytes (fst s) of
        (Inl e, ch) \<Rightarrow> (Inl e, (ch, snd s))
      | (Inr c', ch) \<Rightarrow> (case receive_correlated c' p h (snd s) of (r, d) \<Rightarrow> (r, (ch, d))))"

end
