(* ===== verification/Communication_Theorems.thy ===== *)
theory Communication_Theorems
  imports Communication
begin

text \<open>
  What the devices promise: the reader gets every message whole, whatever the order its parts arrive in among the
  parts of others, and the messages that are discarded leave nothing behind.
\<close>

section \<open>The parts of a message\<close>

text \<open>The transports that carry the payload of a message from some offset on.\<close>

fun carries :: "complete \<Rightarrow> nat \<Rightarrow> transport list \<Rightarrow> bool" where
  "carries m off [] \<longleftrightarrow> off = length (cm_payload m)"
| "carries m off (t # ts) \<longleftrightarrow>
     tp_type t = cm_type m \<and> tp_correlation t = cm_correlation m \<and> tp_offset t = off \<and>
     tp_complete_size t = length (cm_payload m) \<and> off + tp_count t \<le> length (cm_payload m) \<and>
     tp_bytes t = take (tp_count t) (drop off (cm_payload m)) \<and>
     (0 < tp_count t \<or> cm_payload m = [] \<and> ts = []) \<and> carries m (off + tp_count t) ts"

definition sends :: "complete \<Rightarrow> transport list \<Rightarrow> bool" where
  "sends m ts \<longleftrightarrow> ts \<noteq> [] \<and> carries m 0 ts"

lemma carries_le: "carries m off ts \<Longrightarrow> off \<le> length (cm_payload m)"
  by (cases ts) auto

lemma carries_Nil: "carries m off ts \<Longrightarrow> ts \<noteq> [] \<Longrightarrow> cm_payload m \<noteq> [] \<Longrightarrow> off < length (cm_payload m)"
  by (cases ts) auto

lemma carries_last: "carries m off (t # ts) \<Longrightarrow> tp_last t \<longleftrightarrow> ts = []"
  by (cases ts) (auto simp: tp_last_def dest: carries_le)

text \<open>The message as far as it has come.\<close>

definition assembled :: "complete \<Rightarrow> nat \<Rightarrow> complete" where
  "assembled m off = m\<lparr>cm_payload := take off (cm_payload m) @ replicate (length (cm_payload m) - off) 0,
     cm_unhandled := (if off < length (cm_payload m) then [(off, length (cm_payload m))] else [])\<rparr>"

definition whole :: "complete \<Rightarrow> complete" where
  "whole m = m\<lparr>cm_unhandled := []\<rparr>"

lemma assembled_simps [simp]:
  "cm_correlation (assembled m off) = cm_correlation m" "cm_type (assembled m off) = cm_type m"
  by (simp_all add: assembled_def)

lemma assembled_whole: "assembled m (length (cm_payload m)) = whole m"
  by (simp add: assembled_def whole_def)

lemma assembled_complete: "off \<le> length (cm_payload m) \<Longrightarrow> is_complete (assembled m off) \<longleftrightarrow> off = length (cm_payload m)"
  by (auto simp: assembled_def is_complete_def)

lemma subtract_front: "off \<le> stop \<Longrightarrow> stop \<le> len \<Longrightarrow> fst (range_partition (\<lambda>r. \<not> span_empty r)
    (fst (subtract_all [(off, len)] (off, stop) (0, 0)))) = (if stop < len then [(stop, len)] else [])"
  by (simp add: subtract_def overlap_def range_partition_def span_empty_def)

lemma add_part_assembles:
  assumes "carries m off (t # ts)" "length (cm_payload m) > off \<or> us = [(0, 0)] \<and> off = 0 \<and> cm_payload m = []"
    "length (cm_payload m) > off \<Longrightarrow> us = [(off, length (cm_payload m))]"
  shows "add_part t ((assembled m off)\<lparr>cm_unhandled := us\<rparr>) = Inr (assembled m (off + tp_count t))"
proof -
  let ?n = "length (cm_payload m)"
  have us: "us = [(off, ?n)]" using assms(2,3) by auto
  have c: "tp_offset t = off" "tp_complete_size t = ?n" "off + tp_count t \<le> ?n"
    "tp_bytes t = take (tp_count t) (drop off (cm_payload m))"
    using assms(1) by auto
  have p: "take off (take off (cm_payload m) @ replicate (?n - off) 0) @ tp_bytes t @
      drop (off + tp_count t) (take off (cm_payload m) @ replicate (?n - off) 0) =
      take (off + tp_count t) (cm_payload m) @ replicate (?n - (off + tp_count t)) 0"
    using c by (simp add: take_add)
  have f: "fst (range_partition (\<lambda>r. \<not> span_empty r) (fst (subtract_all us (off, off + tp_count t) (0, 0)))) =
      (if off + tp_count t < ?n then [(off + tp_count t, ?n)] else [])"
    unfolding us using c(3) by (intro subtract_front) simp_all
  have s: "snd (subtract_all us (off, off + tp_count t) (0, 0)) = (0, 0)"
    unfolding us using c(3) by (simp add: subtract_def overlap_def)
  show ?thesis unfolding add_part_def
    using c f s p by (simp add: assembled_def Let_def split_beta span_empty_def)
qed

lemma new_complete_assembles: "carries m 0 (t # ts) \<Longrightarrow> new_complete t = Inr (assembled m (tp_count t))"
proof -
  assume c: "carries m 0 (t # ts)"
  have "new_complete t = add_part t ((assembled m 0)\<lparr>cm_unhandled := [(0, length (cm_payload m))]\<rparr>)"
    using c by (cases m) (simp add: new_complete_def assembled_def)
  also have "\<dots> = Inr (assembled m (0 + tp_count t))" using c by (intro add_part_assembles) auto
  finally show ?thesis by simp
qed

lemma add_part_goes_on:
  assumes "carries m off (t # ts)" "off < length (cm_payload m)"
  shows "add_part t (assembled m off) = Inr (assembled m (off + tp_count t))"
  using add_part_assembles [OF assms(1), of "[(off, length (cm_payload m))]"] assms(2)
  by (simp add: assembled_def)

section \<open>The mailbox\<close>

text \<open>
  A device against the messages its reader can still get (\<open>live\<close>) and those that were discarded while parts of
  them are under way (\<open>dead\<close>).
\<close>

definition parts_of :: "uuid \<Rightarrow> device \<Rightarrow> transport list" where
  "parts_of c d = filter (\<lambda>t. tp_correlation t = c) (ch_queue d)"

definition cached :: "uuid \<Rightarrow> device \<Rightarrow> complete option" where
  "cached c d = List.find (\<lambda>m. cm_correlation m = c) (dv_cache d)"

definition on_its_way :: "complete \<Rightarrow> device \<Rightarrow> bool" where
  "on_its_way m d \<longleftrightarrow> cm_correlation m \<notin> set (dv_discarded d) \<and>
     (case cached (cm_correlation m) d of
        None \<Rightarrow> sends m (parts_of (cm_correlation m) d)
      | Some m' \<Rightarrow> \<exists>off. m' = assembled m off \<and> carries m off (parts_of (cm_correlation m) d) \<and>
                      (off < length (cm_payload m) \<or> parts_of (cm_correlation m) d = []))"

definition going :: "complete \<Rightarrow> device \<Rightarrow> bool" where
  "going m d \<longleftrightarrow> cm_correlation m \<in> set (dv_discarded d) \<and> cached (cm_correlation m) d = None \<and>
     parts_of (cm_correlation m) d \<noteq> [] \<and> (\<exists>off. carries m off (parts_of (cm_correlation m) d))"

definition mailbox :: "complete list \<Rightarrow> complete list \<Rightarrow> device \<Rightarrow> bool" where
  "mailbox live dead d \<longleftrightarrow>
     distinct (map cm_correlation (live @ dead)) \<and>
     (\<forall>m\<in>set live. on_its_way m d) \<and> (\<forall>m\<in>set dead. going m d) \<and>
     distinct (map cm_correlation (dv_cache d)) \<and>
     cm_correlation ` set (dv_cache d) \<subseteq> cm_correlation ` set live \<and>
     tp_correlation ` set (ch_queue d) \<subseteq> cm_correlation ` set (live @ dead)"

lemma parts_of_Cons: "ch_queue d = t # q \<Longrightarrow>
    parts_of c d = (if tp_correlation t = c then [t] else []) @ parts_of c (d\<lparr>ch_queue := q\<rparr>)"
  by (simp add: parts_of_def)

lemma cached_in: "cached c d = Some m \<Longrightarrow> m \<in> set (dv_cache d) \<and> cm_correlation m = c"
  by (auto simp: cached_def dest: find_Some_in)

lemma cached_none: "cached c d = None \<longleftrightarrow> c \<notin> cm_correlation ` set (dv_cache d)"
  by (auto simp: cached_def find_None_iff')

lemma cached_snoc: "cached x (d\<lparr>dv_cache := dv_cache d @ [m]\<rparr>) =
    (if cached x d = None then (if cm_correlation m = x then Some m else None) else cached x d)"
  by (simp add: cached_def find_append split: option.split)

lemma map_upd_first_match: "(\<And>x. P x \<Longrightarrow> g (f x) = g x) \<Longrightarrow> map g (upd_first P f xs) = map g xs"
  by (induction xs) auto

text \<open>What a message sees of the device.\<close>

lemma on_its_way_cong:
  assumes "cm_correlation m \<in> set (dv_discarded d') \<longleftrightarrow> cm_correlation m \<in> set (dv_discarded d)"
    "cached (cm_correlation m) d' = cached (cm_correlation m) d" "parts_of (cm_correlation m) d' = parts_of (cm_correlation m) d"
  shows "on_its_way m d' \<longleftrightarrow> on_its_way m d" and "going m d' \<longleftrightarrow> going m d"
  unfolding on_its_way_def going_def assms by (rule refl)+

text \<open>A step that touches one correlation only.\<close>

lemma mailbox_update:
  assumes box: "mailbox live dead d"
    and same: "\<And>x. x \<noteq> c \<Longrightarrow> cached x d' = cached x d \<and> parts_of x d' = parts_of x d \<and>
      (x \<in> set (dv_discarded d') \<longleftrightarrow> x \<in> set (dv_discarded d))"
    and sub: "\<And>m. m \<in> set live' \<Longrightarrow> cm_correlation m \<noteq> c \<Longrightarrow> m \<in> set live"
      "\<And>m. m \<in> set dead' \<Longrightarrow> cm_correlation m \<noteq> c \<Longrightarrow> m \<in> set dead"
    and new: "\<And>m. m \<in> set live' \<Longrightarrow> cm_correlation m = c \<Longrightarrow> on_its_way m d'"
      "\<And>m. m \<in> set dead' \<Longrightarrow> cm_correlation m = c \<Longrightarrow> going m d'"
    and keys: "distinct (map cm_correlation (live' @ dead'))" "distinct (map cm_correlation (dv_cache d'))"
      "cm_correlation ` set (dv_cache d') \<subseteq> cm_correlation ` set live'"
      "tp_correlation ` set (ch_queue d') \<subseteq> cm_correlation ` set (live' @ dead')"
  shows "mailbox live' dead' d'"
proof -
  have other: "on_its_way m d' \<longleftrightarrow> on_its_way m d" "going m d' \<longleftrightarrow> going m d" if "cm_correlation m \<noteq> c" for m
    using same [OF that] by (metis on_its_way_cong(1), metis on_its_way_cong(2))
  have "on_its_way m d'" if m: "m \<in> set live'" for m
  proof (cases "cm_correlation m = c")
    case False
    have "on_its_way m d" using box sub(1) [OF m False] by (simp add: mailbox_def)
    with other(1) [OF False] show ?thesis by simp
  qed (rule new(1) [OF m])
  moreover have "going m d'" if m: "m \<in> set dead'" for m
  proof (cases "cm_correlation m = c")
    case False
    have "going m d" using box sub(2) [OF m False] by (simp add: mailbox_def)
    with other(2) [OF False] show ?thesis by simp
  qed (rule new(2) [OF m])
  ultimately show ?thesis using keys unfolding mailbox_def by blast
qed

lemma mailboxD:
  assumes "mailbox live dead d"
  shows "distinct (map cm_correlation (live @ dead))" "m \<in> set live \<Longrightarrow> on_its_way m d" "m \<in> set dead \<Longrightarrow> going m d"
    "distinct (map cm_correlation (dv_cache d))" "cm_correlation ` set (dv_cache d) \<subseteq> cm_correlation ` set live"
    "tp_correlation ` set (ch_queue d) \<subseteq> cm_correlation ` set (live @ dead)"
  using assms unfolding mailbox_def by blast+

lemma mailbox_key:
  assumes "mailbox live dead d" "m \<in> set (live @ dead)" "m' \<in> set (live @ dead)" "cm_correlation m = cm_correlation m'"
  shows "m = m'"
proof -
  have "inj_on cm_correlation (set (live @ dead))" using mailboxD(1) [OF assms(1)] by (simp only: distinct_map)
  with assms(2-4) show ?thesis by (simp only: inj_on_eq_iff)
qed

lemma parts_of_tl: "ch_queue d = t # q \<Longrightarrow> x \<noteq> tp_correlation t \<Longrightarrow> parts_of x (d\<lparr>ch_queue := q\<rparr>) = parts_of x d"
  by (simp add: parts_of_Cons)

lemma live_part:
  assumes box: "mailbox live dead d" and q: "ch_queue d = t # q" and m: "m \<in> set live" "tp_correlation t = cm_correlation m"
  shows "\<exists>cache. take_part t (d\<lparr>ch_queue := q\<rparr>) = Inr (d\<lparr>ch_queue := q, dv_cache := cache\<rparr>) \<and>
    mailbox live dead (d\<lparr>ch_queue := q, dv_cache := cache\<rparr>)"
proof -
  let ?c = "cm_correlation m" and ?d = "d\<lparr>ch_queue := q\<rparr>"
  note facts = mailboxD [OF box] and way = mailboxD(2) [OF box m(1)]
  have parts: "parts_of ?c d = t # parts_of ?c ?d" using q m(2) by (simp add: parts_of_Cons)
  have nd: "tp_correlation t \<notin> set (dv_discarded ?d)" using way m(2) by (simp add: on_its_way_def)
  have box': "mailbox live dead (?d\<lparr>dv_cache := cache\<rparr>)"
    if c: "cached ?c (?d\<lparr>dv_cache := cache\<rparr>) = Some (assembled m off)" and carry: "carries m off (parts_of ?c ?d)"
      and stop: "off < length (cm_payload m) \<or> parts_of ?c ?d = []"
      and ot: "\<And>x. x \<noteq> ?c \<Longrightarrow> cached x (?d\<lparr>dv_cache := cache\<rparr>) = cached x ?d"
      and cc: "distinct (map cm_correlation cache)" "cm_correlation ` set cache \<subseteq> insert ?c (cm_correlation ` set (dv_cache d))"
    for cache off
  proof (rule mailbox_update [OF box, where c = ?c])
    show "cached x (?d\<lparr>dv_cache := cache\<rparr>) = cached x d \<and> parts_of x (?d\<lparr>dv_cache := cache\<rparr>) = parts_of x d \<and>
        (x \<in> set (dv_discarded (?d\<lparr>dv_cache := cache\<rparr>)) \<longleftrightarrow> x \<in> set (dv_discarded d))" if "x \<noteq> ?c" for x
      using ot [OF that] parts_of_tl [OF q] that m(2) by (simp add: cached_def parts_of_def)
    show "on_its_way m' (?d\<lparr>dv_cache := cache\<rparr>)" if "m' \<in> set live" "cm_correlation m' = ?c" for m'
      using mailbox_key [OF box, of m' m] that m(1) nd c carry stop m(2) by (auto simp: on_its_way_def parts_of_def)
    show "going m' (?d\<lparr>dv_cache := cache\<rparr>)" if "m' \<in> set dead" "cm_correlation m' = ?c" for m'
      using facts(1) m(1) that by auto
    show "cm_correlation ` set (dv_cache (?d\<lparr>dv_cache := cache\<rparr>)) \<subseteq> cm_correlation ` set live"
      using cc(2) facts(5) m(1) by auto
    show "tp_correlation ` set (ch_queue (?d\<lparr>dv_cache := cache\<rparr>)) \<subseteq> cm_correlation ` set (live @ dead)"
      using facts(6) q by auto
  qed (use facts(1) cc(1) in simp_all)
  show ?thesis
  proof (cases "cached ?c d")
    case None
    then have carry: "carries m 0 (t # parts_of ?c ?d)" using way parts by (simp add: on_its_way_def sends_def)
    then have n: "new_complete t = Inr (assembled m (tp_count t))" "carries m (tp_count t) (parts_of ?c ?d)"
      by (rule new_complete_assembles, simp)
    have stop: "tp_count t < length (cm_payload m) \<or> parts_of ?c ?d = []"
      using n(2) carry by (cases "parts_of ?c ?d") auto
    let ?cache = "dv_cache d @ [assembled m (tp_count t)]"
    have "mailbox live dead (?d\<lparr>dv_cache := ?cache\<rparr>)"
    proof (rule box' [OF _ n(2) stop])
      show "cached ?c (?d\<lparr>dv_cache := ?cache\<rparr>) = Some (assembled m (tp_count t))"
        using None cached_snoc [of ?c ?d] by (simp add: cached_def)
      show "cached x (?d\<lparr>dv_cache := ?cache\<rparr>) = cached x ?d" if "x \<noteq> ?c" for x
        using that cached_snoc [of x ?d "assembled m (tp_count t)"] by simp
      show "distinct (map cm_correlation ?cache)" using None facts(4) by (simp add: cached_none)
    qed auto
    then show ?thesis using n(1) None nd m(2) by (simp add: take_part_def cache_part_def cached_def) blast
  next
    case (Some m')
    then obtain off where m': "m' = assembled m off" and carry: "carries m off (t # parts_of ?c ?d)" "off < length (cm_payload m)"
      using way parts by (auto simp: on_its_way_def)
    have a: "add_part t m' = Inr (assembled m (off + tp_count t))" unfolding m' using carry by (rule add_part_goes_on)
    have n: "carries m (off + tp_count t) (parts_of ?c ?d)" using carry by simp
    have stop: "off + tp_count t < length (cm_payload m) \<or> parts_of ?c ?d = []"
      using n carries_le [OF n] carry(2) by (cases "parts_of ?c ?d") auto
    let ?new = "\<lambda>_. assembled m (off + tp_count t)"
    let ?cache = "upd_first (\<lambda>m. cm_correlation m = ?c) ?new (dv_cache d)"
    have keys: "map cm_correlation ?cache = map cm_correlation (dv_cache d)"
      by (rule map_upd_first_match) simp
    have "mailbox live dead (?d\<lparr>dv_cache := ?cache\<rparr>)"
    proof (rule box' [OF _ n stop])
      show "cached ?c (?d\<lparr>dv_cache := ?cache\<rparr>) = Some (assembled m (off + tp_count t))"
        using Some find_upd_first [of "\<lambda>m. cm_correlation m = ?c" ?new "dv_cache d"] by (simp add: cached_def)
      show "cached x (?d\<lparr>dv_cache := ?cache\<rparr>) = cached x ?d" if "x \<noteq> ?c" for x
        using that find_upd_first_other [of "\<lambda>m. cm_correlation m = ?c" "\<lambda>m. cm_correlation m = x" ?new "dv_cache d"]
        by (simp add: cached_def)
      show "distinct (map cm_correlation ?cache)" using facts(4) keys by simp
      show "cm_correlation ` set ?cache \<subseteq> insert ?c (cm_correlation ` set (dv_cache d))"
        using arg_cong [OF keys, of set] by auto
    qed
    then show ?thesis using Some a nd m(2) by (simp add: take_part_def cache_part_def cached_def) blast
  qed
qed

lemma dead_part:
  assumes box: "mailbox live dead d" and q: "ch_queue d = t # q" and m: "m \<in> set dead" "tp_correlation t = cm_correlation m"
  shows "take_part t (d\<lparr>ch_queue := q\<rparr>) = Inr (discard_part t (d\<lparr>ch_queue := q\<rparr>)) \<and>
    (\<exists>dead'. set dead' \<subseteq> set dead \<and> mailbox live dead' (discard_part t (d\<lparr>ch_queue := q\<rparr>)))"
proof -
  let ?c = "cm_correlation m" and ?d = "d\<lparr>ch_queue := q\<rparr>" and ?d' = "discard_part t (d\<lparr>ch_queue := q\<rparr>)"
  note facts = mailboxD [OF box] and way = mailboxD(3) [OF box m(1)]
  have parts: "parts_of ?c d = t # parts_of ?c ?d" using q m(2) by (simp add: parts_of_Cons)
  then obtain off where carry: "carries m off (t # parts_of ?c ?d)" using way by (auto simp: going_def)
  have last: "tp_last t \<longleftrightarrow> parts_of ?c ?d = []" using carry by (rule carries_last)
  define dead' where "dead' = (if tp_last t then filter (\<lambda>m'. cm_correlation m' \<noteq> ?c) dead else dead)"
  have sub: "set dead' \<subseteq> set dead" by (auto simp: dead'_def)
  have "mailbox live dead' ?d'"
  proof (rule mailbox_update [OF box, where c = ?c])
    show "cached x ?d' = cached x d \<and> parts_of x ?d' = parts_of x d \<and>
        (x \<in> set (dv_discarded ?d') \<longleftrightarrow> x \<in> set (dv_discarded d))" if "x \<noteq> ?c" for x
      using parts_of_tl [OF q] that m(2) by (auto simp: cached_def discard_part_def parts_of_def not_P_in_erase_first dest: in_erase_firstD)
    show "on_its_way m' ?d'" if "m' \<in> set live" "cm_correlation m' = ?c" for m'
      using facts(1) m(1) that by auto
    show "going m' ?d'" if d: "m' \<in> set dead'" and c: "cm_correlation m' = ?c" for m'
    proof -
      have nl: "\<not> tp_last t" using d c by (auto simp: dead'_def split: if_splits)
      have "m' = m" using mailbox_key [OF box _ _ c] d sub m(1) by auto
      then show ?thesis using nl last way carry by (auto simp: going_def discard_part_def cached_def parts_of_def)
    qed
    show "tp_correlation ` set (ch_queue ?d') \<subseteq> cm_correlation ` set (live @ dead')"
    proof
      fix x assume "x \<in> tp_correlation ` set (ch_queue ?d')"
      then obtain u where u: "u \<in> set q" "x = tp_correlation u" by (auto simp: discard_part_def split: if_splits)
      then have "x \<in> cm_correlation ` set (live @ dead)" using facts(6) q by auto
      moreover have "x \<noteq> ?c" if "tp_last t"
        using that last u by (auto simp: parts_of_def filter_empty_conv)
      ultimately show "x \<in> cm_correlation ` set (live @ dead')" by (auto simp: dead'_def)
    qed
    show "distinct (map cm_correlation (live @ dead'))" using facts(1) by (auto simp: dead'_def distinct_map_filter)
  qed (use facts(4,5) sub in \<open>auto simp: discard_part_def\<close>)
  moreover have "take_part t ?d = Inr ?d'" using way m(2) by (simp add: take_part_def going_def)
  ultimately show ?thesis using sub by blast
qed

section \<open>The reader\<close>

text \<open>Interrupted calls are repeated; there is no signal and no error.\<close>

definition undisturbed :: "'a channel_scheme \<Rightarrow> bool" where
  "undisturbed ch \<longleftrightarrow> set (ch_system ch) \<subseteq> {None, Some E_INTR} \<and> set (ch_signals ch) \<subseteq> {None}"

lemma calm_answer:
  "set es \<subseteq> {None, Some E_INTR} \<Longrightarrow> set ss \<subseteq> {None} \<Longrightarrow>
    \<exists>es' ss'. next_answer es ss = (Inr None, es', ss') \<and> set es' \<subseteq> {None, Some E_INTR} \<and> set ss' \<subseteq> {None}"
  by (induction es ss rule: next_answer.induct) auto

lemma calm_call: "undisturbed ch \<Longrightarrow> \<exists>ch'. system_call ch = (Inr None, ch') \<and> ch_queue ch' = ch_queue ch \<and> undisturbed ch'"
  using calm_answer [of "ch_system ch" "ch_signals ch"] by (auto simp: undisturbed_def system_call_def)

lemma calm_signal: "undisturbed ch \<Longrightarrow> \<exists>ch'. signal_handle ch = (Inr (), ch') \<and> ch_queue ch' = ch_queue ch \<and> undisturbed ch'"
  by (auto simp: undisturbed_def signal_handle_def split: list.splits option.splits)

lemma calm_prefix:
  "undisturbed ch \<Longrightarrow> \<exists>ch'. (if policy_signals p then signal_handle else return ()) ch = (Inr (), ch') \<and>
    ch_queue ch' = ch_queue ch \<and> undisturbed ch'"
  using calm_signal [of ch] by (simp add: return_def)

lemma calm_receive:
  assumes "undisturbed ch" "ch_queue ch = t # q"
  shows "\<exists>ch'. apply_receive p h ch = (Inr (Some t), ch') \<and> ch_queue ch' = q \<and> undisturbed ch'"
proof -
  obtain ch1 where 1: "(if policy_signals p then signal_handle else return ()) ch = (Inr (), ch1)" "ch_queue ch1 = ch_queue ch" "undisturbed ch1"
    using calm_prefix [OF assms(1)] by blast
  obtain ch2 where 2: "system_call ch1 = (Inr None, ch2)" "ch_queue ch2 = ch_queue ch1" "undisturbed ch2" using calm_call [OF 1(3)] by blast
  have "policy_receive p ch = (Inr (Some t), ch2\<lparr>ch_queue := q\<rparr>)"
    using 1 2 assms(2) unfolding policy_receive_def native_receive_def after_def
    by (simp add: read_state_def change_def return_def)
  then show ?thesis using 2(3) by (simp add: apply_receive.simps [of p h ch] undisturbed_def)
qed

lemma calm_send:
  assumes "undisturbed ch"
  shows "\<exists>ch'. apply_send p h t ch = (Inr True, ch') \<and> ch_queue ch' = ch_queue ch @ [t] \<and> undisturbed ch'"
proof -
  obtain ch1 where 1: "(if policy_signals p then signal_handle else return ()) ch = (Inr (), ch1)" "ch_queue ch1 = ch_queue ch" "undisturbed ch1"
    using calm_prefix [OF assms(1)] by blast
  obtain ch2 where 2: "system_call ch1 = (Inr None, ch2)" "ch_queue ch2 = ch_queue ch1" "undisturbed ch2" using calm_call [OF 1(3)] by blast
  have "policy_send p t ch = (Inr True, ch2\<lparr>ch_queue := ch_queue ch2 @ [t]\<rparr>)"
    using 1 2 unfolding policy_send_def native_send_def after_def by (simp add: change_def return_def)
  then show ?thesis using 1 2 by (simp add: apply_send.simps [of p h t ch] undisturbed_def)
qed

lemma mailbox_same:
  assumes "dv_cache d' = dv_cache d" "dv_discarded d' = dv_discarded d" "ch_queue d' = ch_queue d"
  shows "mailbox live dead d' \<longleftrightarrow> mailbox live dead d"
  unfolding mailbox_def on_its_way_def going_def cached_def parts_of_def assms by (rule refl)

lemma find_and_key:
  "distinct (map k xs) \<Longrightarrow> List.find (\<lambda>x. Q x \<and> k x = c) xs =
    (case List.find (\<lambda>x. k x = c) xs of Some y \<Rightarrow> if Q y then Some y else None | None \<Rightarrow> None)"
proof (induction xs)
  case (Cons x xs)
  have "List.find (\<lambda>x. Q x \<and> k x = c) xs = None" if "k x = c"
    using Cons.prems that unfolding find_None_iff' by (metis distinct.simps(2) image_eqI list.set_map list.simps(9))
  with Cons show ?case by auto
qed simp

lemma erase_and_key:
  "List.find (\<lambda>x. k x = c) xs = Some y \<Longrightarrow> Q y \<Longrightarrow> erase_first (\<lambda>x. Q x \<and> k x = c) xs = erase_first (\<lambda>x. k x = c) xs"
  by (induction xs) (auto split: if_splits)

lemma find_erase_first_other: "(\<And>x. P x \<Longrightarrow> \<not> Q x) \<Longrightarrow> List.find Q (erase_first P xs) = List.find Q xs"
  by (induction xs) auto

text \<open>Reading one part.\<close>

lemma one_part:
  assumes box: "mailbox live dead d" and undisturbed: "undisturbed d" and q: "ch_queue d = t # q"
  shows "\<exists>d1 d' dead'. on_channel (apply_receive p h) d = (Inr (Some t), d1) \<and> take_part t d1 = Inr d' \<and>
    undisturbed d' \<and> ch_queue d' = q \<and> set dead' \<subseteq> set dead \<and> mailbox live dead' d'"
proof -
  obtain ch where ch: "apply_receive p h (channel.truncate d) = (Inr (Some t), ch)" "ch_queue ch = q" "undisturbed ch"
    using calm_receive [of "channel.truncate d" t q p h] undisturbed q by (auto simp: undisturbed_def channel.truncate_def)
  define e where "e = d\<lparr>ch_system := ch_system ch, ch_signals := ch_signals ch\<rparr>"
  have eq: "on_channel (apply_receive p h) d = (Inr (Some t), e\<lparr>ch_queue := q\<rparr>)"
    using ch(1,2) by (simp add: on_channel_def e_def)
  have box': "mailbox live dead e" and q': "ch_queue e = t # q" using box q mailbox_same [of e d] by (simp_all add: e_def)
  have undisturbed': "undisturbed (e\<lparr>ch_queue := q, dv_cache := cache\<rparr>)" "undisturbed (discard_part t (e\<lparr>ch_queue := q\<rparr>))" for cache
    using ch(3) by (simp_all add: undisturbed_def e_def discard_part_def)
  have "tp_correlation t \<in> cm_correlation ` set (live @ dead)" using mailboxD(6) [OF box'] q' by auto
  then obtain m where m: "m \<in> set live \<or> m \<in> set dead" "tp_correlation t = cm_correlation m" by auto
  from m(1) show ?thesis
  proof
    assume "m \<in> set live"
    from live_part [OF box' q' this m(2)] eq undisturbed'(1) show ?thesis by fastforce
  next
    assume "m \<in> set dead"
    note dead = dead_part [OF box' q' this m(2)]
    have "ch_queue (discard_part t (e\<lparr>ch_queue := q\<rparr>)) = q" by (simp add: discard_part_def)
    with dead eq undisturbed'(2) show ?thesis by blast
  qed
qed

lemma find_live:
  assumes "mailbox live dead d" "undisturbed d" "m \<in> set live"
  shows "\<exists>d' dead'. find_message p h (\<lambda>m'. is_complete m' \<and> cm_correlation m' = cm_correlation m) d = (Inr (Some (whole m)), d') \<and>
    undisturbed d' \<and> set dead' \<subseteq> set dead \<and> mailbox live dead' d' \<and> cached (cm_correlation m) d' = Some (whole m)"
  using assms
proof (induction "length (ch_queue d)" arbitrary: d dead rule: less_induct)
  case less
  let ?P = "\<lambda>m'. is_complete m' \<and> cm_correlation m' = cm_correlation m"
  note facts = mailboxD [OF less.prems(1)] and way = mailboxD(2) [OF less.prems(1,3)]
  have find: "List.find ?P (dv_cache d) = (case cached (cm_correlation m) d of
      Some y \<Rightarrow> if is_complete y then Some y else None | None \<Rightarrow> None)"
    unfolding cached_def by (rule find_and_key [OF facts(4)])
  show ?case
  proof (cases "cached (cm_correlation m) d = Some (whole m)")
    case True
    then have "List.find ?P (dv_cache d) = Some (whole m)" using find by (simp add: whole_def is_complete_def)
    then show ?thesis using less.prems True by (auto simp: find_message.simps [of p h ?P d])
  next
    case False
    have none: "List.find ?P (dv_cache d) = None" and more: "parts_of (cm_correlation m) d \<noteq> []"
    proof -
      have "(cached (cm_correlation m) d = None \<or> (\<exists>y. cached (cm_correlation m) d = Some y \<and> \<not> is_complete y)) \<and>
          parts_of (cm_correlation m) d \<noteq> []"
      proof (cases "cached (cm_correlation m) d")
        case None
        then show ?thesis using way by (simp add: on_its_way_def sends_def)
      next
        case (Some y)
        then obtain off where y: "y = assembled m off" "carries m off (parts_of (cm_correlation m) d)"
          using way by (auto simp: on_its_way_def)
        have "off \<noteq> length (cm_payload m)" using False Some y(1) by (auto simp: assembled_whole)
        with y carries_le [OF y(2)] Some show ?thesis by (auto simp: assembled_complete)
      qed
      with find show "List.find ?P (dv_cache d) = None" "parts_of (cm_correlation m) d \<noteq> []" by auto
    qed
    from more obtain t q where q: "ch_queue d = t # q" by (cases "ch_queue d") (auto simp: parts_of_def)
    from one_part [OF less.prems(1,2) q, of p h] obtain d1 d2 dead2 where
      1: "on_channel (apply_receive p h) d = (Inr (Some t), d1)" "take_part t d1 = Inr d2" "undisturbed d2" "ch_queue d2 = q"
        "set dead2 \<subseteq> set dead" "mailbox live dead2 d2" by blast
    have "length (ch_queue d2) < length (ch_queue d)" using q 1(4) by simp
    from less.hyps [OF this 1(6,3) less.prems(3)] 1(5) none 1(1,2) show ?thesis
      by (simp add: find_message.simps [of p h ?P d]) (meson subset_trans)
  qed
qed

lemma receive_live:
  assumes "mailbox live dead d" "undisturbed d" "m \<in> set live"
  shows "\<exists>d' dead'. next_correlated (cm_correlation m) p h d = (Inr (whole m), d') \<and> undisturbed d' \<and> set dead' \<subseteq> set dead \<and>
    mailbox (filter (\<lambda>m'. cm_correlation m' \<noteq> cm_correlation m) live) dead' d'"
proof -
  let ?c = "cm_correlation m" and ?live = "filter (\<lambda>m'. cm_correlation m' \<noteq> cm_correlation m) live"
  let ?P = "\<lambda>m'. is_complete m' \<and> cm_correlation m' = ?c"
  from find_live [OF assms, of p h] obtain d1 dead1 where
    1: "find_message p h ?P d = (Inr (Some (whole m)), d1)" "undisturbed d1" "set dead1 \<subseteq> set dead" "mailbox live dead1 d1"
      "cached ?c d1 = Some (whole m)" by blast
  define d' where "d' = d1\<lparr>dv_cache := erase_first (\<lambda>m'. cm_correlation m' = ?c) (dv_cache d1)\<rparr>"
  note facts = mailboxD [OF 1(4)]
  have run: "next_correlated ?c p h d = (Inr (whole m), d')"
    using 1(1,5) erase_and_key [of cm_correlation ?c "dv_cache d1" "whole m" is_complete]
    by (simp add: next_correlated_def find_complete_def after_def change_def return_def d'_def cached_def is_complete_def whole_def)
  have off: "parts_of ?c d1 = []"
  proof -
    obtain off where o: "whole m = assembled m off" "carries m off (parts_of ?c d1)"
      "off < length (cm_payload m) \<or> parts_of ?c d1 = []"
      using mailboxD(2) [OF 1(4) assms(3)] 1(5) by (auto simp: on_its_way_def)
    have "is_complete (assembled m off)" unfolding o(1) [symmetric] by (simp add: whole_def is_complete_def)
    with o(3) carries_le [OF o(2)] show ?thesis by (simp add: assembled_complete)
  qed
  have "mailbox ?live dead1 d'"
  proof (rule mailbox_update [OF 1(4), where c = ?c])
    show "cached x d' = cached x d1 \<and> parts_of x d' = parts_of x d1 \<and>
        (x \<in> set (dv_discarded d') \<longleftrightarrow> x \<in> set (dv_discarded d1))" if "x \<noteq> ?c" for x
      using that by (auto simp: d'_def cached_def parts_of_def intro!: find_erase_first_other)
    show "going m' d'" if "m' \<in> set dead1" "cm_correlation m' = ?c" for m'
      using facts(1) assms(3) that by auto
    show "cm_correlation ` set (dv_cache d') \<subseteq> cm_correlation ` set ?live"
    proof
      fix x assume x: "x \<in> cm_correlation ` set (dv_cache d')"
      then have "x \<in> cm_correlation ` set live" using facts(5) by (auto simp: d'_def dest: in_erase_firstD)
      moreover have "x \<noteq> ?c"
        using x find_erase_first_distinct [OF facts(4), of "\<lambda>m'. cm_correlation m' = ?c"]
        by (auto simp: d'_def find_None_iff')
      ultimately show "x \<in> cm_correlation ` set ?live" by auto
    qed
    show "tp_correlation ` set (ch_queue d') \<subseteq> cm_correlation ` set (?live @ dead1)"
    proof
      fix x assume "x \<in> tp_correlation ` set (ch_queue d')"
      then obtain t where t: "t \<in> set (ch_queue d1)" "x = tp_correlation t" by (auto simp: d'_def)
      with off have "x \<noteq> ?c" by (auto simp: parts_of_def filter_empty_conv)
      moreover have "x \<in> cm_correlation ` set (live @ dead1)" using facts(6) t by auto
      ultimately show "x \<in> cm_correlation ` set (?live @ dead1)" by auto
    qed
    show "distinct (map cm_correlation (?live @ dead1))" using facts(1) by (auto simp: distinct_map_filter)
    show "distinct (map cm_correlation (dv_cache d'))" using facts(4) by (simp add: d'_def erase_first_as_upd)
  qed simp_all
  with run 1(2,3) show ?thesis by (auto simp: d'_def undisturbed_def)
qed

lemma not_complete_more:
  assumes "mailbox live dead d" "m \<in> set live" "\<And>y. cached (cm_correlation m) d = Some y \<Longrightarrow> \<not> is_complete y"
  shows "\<exists>off. carries m off (parts_of (cm_correlation m) d) \<and> parts_of (cm_correlation m) d \<noteq> []"
proof (cases "cached (cm_correlation m) d")
  case None
  then show ?thesis using mailboxD(2) [OF assms(1,2)] by (auto simp: on_its_way_def sends_def)
next
  case (Some y)
  then obtain off where y: "y = assembled m off" "carries m off (parts_of (cm_correlation m) d)"
    using mailboxD(2) [OF assms(1,2)] by (auto simp: on_its_way_def)
  have "off \<noteq> length (cm_payload m)" using assms(3) [OF Some] y(1) carries_le [OF y(2)] by (auto simp: assembled_complete)
  with y(2) show ?thesis by auto
qed

lemma discard_live:
  assumes box: "mailbox live dead d" and undisturbed: "undisturbed d" and m: "m \<in> set live"
  shows "undisturbed (device_discard (cm_correlation m) d) \<and> (\<exists>dead'. set dead' \<subseteq> insert m (set dead) \<and>
    mailbox (filter (\<lambda>m'. cm_correlation m' \<noteq> cm_correlation m) live) dead' (device_discard (cm_correlation m) d))"
proof -
  let ?c = "cm_correlation m" and ?live = "filter (\<lambda>m'. cm_correlation m' \<noteq> cm_correlation m) live"
  let ?d' = "device_discard (cm_correlation m) d"
  note facts = mailboxD [OF box]
  have nd: "?c \<notin> set (dv_discarded d)" using mailboxD(2) [OF box m] by (simp add: on_its_way_def)
  have d': "ch_queue ?d' = ch_queue d" "dv_cache ?d' = erase_first (\<lambda>m'. cm_correlation m' = ?c) (dv_cache d)"
    "\<And>x. x \<noteq> ?c \<Longrightarrow> x \<in> set (dv_discarded ?d') \<longleftrightarrow> x \<in> set (dv_discarded d)"
    by (auto simp: device_discard_def nd find_None_iff' erase_first_none split: option.split)
  have gone: "cached ?c ?d' = None"
    unfolding cached_def d' by (rule find_erase_first_distinct [OF facts(4)]) simp
  define dead' where "dead' = (if parts_of ?c d = [] then dead else dead @ [m])"
  have dead: "x \<notin> set dead" if "cm_correlation x = ?c" for x using facts(1) m that by (auto simp: image_iff)
  have "mailbox ?live dead' ?d'"
  proof (rule mailbox_update [OF box, where c = ?c])
    show "cached x ?d' = cached x d \<and> parts_of x ?d' = parts_of x d \<and>
        (x \<in> set (dv_discarded ?d') \<longleftrightarrow> x \<in> set (dv_discarded d))" if "x \<noteq> ?c" for x
      using that d' by (auto simp: cached_def parts_of_def intro!: find_erase_first_other)
    show "going m' ?d'" if m': "m' \<in> set dead'" and c: "cm_correlation m' = ?c" for m'
    proof -
      have eq: "m' = m" and more: "parts_of ?c d \<noteq> []" using m' dead [OF c] by (auto simp: dead'_def split: if_splits)
      have nc: "\<not> is_complete y" if "cached ?c d = Some y" for y
        using mailboxD(2) [OF box m] that more by (auto simp: on_its_way_def assembled_complete)
      obtain off where "carries m off (parts_of ?c d)" using not_complete_more [OF box m nc] by blast
      moreover have "?c \<in> set (dv_discarded ?d')" using nc by (auto simp: device_discard_def cached_def split: option.split)
      ultimately show ?thesis using gone more eq d'(1) by (auto simp: going_def parts_of_def)
    qed
    show "cm_correlation ` set (dv_cache ?d') \<subseteq> cm_correlation ` set ?live"
    proof
      fix x assume x: "x \<in> cm_correlation ` set (dv_cache ?d')"
      then have "x \<in> cm_correlation ` set live" using facts(5) by (auto simp: d' dest: in_erase_firstD)
      moreover have "x \<noteq> ?c" using x gone unfolding cached_none by blast
      ultimately show "x \<in> cm_correlation ` set ?live" by auto
    qed
    show "tp_correlation ` set (ch_queue ?d') \<subseteq> cm_correlation ` set (?live @ dead')"
    proof
      fix x assume "x \<in> tp_correlation ` set (ch_queue ?d')"
      then obtain t where t: "t \<in> set (ch_queue d)" "x = tp_correlation t" by (auto simp: d')
      have "x \<in> cm_correlation ` set (live @ dead)" using facts(6) t by auto
      moreover have "parts_of ?c d \<noteq> []" if "x = ?c" using t that by (auto simp: parts_of_def filter_empty_conv)
      ultimately show "x \<in> cm_correlation ` set (?live @ dead')" using m by (auto simp: dead'_def)
    qed
    show "distinct (map cm_correlation (?live @ dead'))" using facts(1) dead by (auto simp: dead'_def distinct_map_filter)
    show "distinct (map cm_correlation (dv_cache ?d'))" using facts(4) by (simp add: d' erase_first_as_upd)
  qed (use dead in \<open>auto simp: dead'_def split: if_splits\<close>)
  moreover have "undisturbed ?d'" using undisturbed by (auto simp: undisturbed_def device_discard_def split: option.split)
  moreover have "set dead' \<subseteq> insert m (set dead)" by (auto simp: dead'_def)
  ultimately show ?thesis by blast
qed

section \<open>Readers\<close>

datatype reader = Receive uuid | Discard uuid

fun reader_correlation :: "reader \<Rightarrow> uuid" where
  "reader_correlation (Receive c) = c"
| "reader_correlation (Discard c) = c"

fun read_all :: "policy \<Rightarrow> handler \<Rightarrow> reader list \<Rightarrow> (device, comm_exn, complete list) effect" where
  "read_all p h [] = return []"
| "read_all p h (Receive c # rs) = after (next_correlated c p h) (\<lambda>m. after (read_all p h rs) (\<lambda>ms. return (m # ms)))"
| "read_all p h (Discard c # rs) = after (change (device_discard c)) (\<lambda>_. read_all p h rs)"

text \<open>What the reader is to get: the messages it asks for, by their correlation.\<close>

fun expected :: "complete list \<Rightarrow> reader list \<Rightarrow> complete list" where
  "expected ms [] = []"
| "expected ms (Receive c # rs) = filter (\<lambda>m. cm_correlation m = c) ms @ expected ms rs"
| "expected ms (Discard c # rs) = expected ms rs"

lemma filter_key: "distinct (map k xs) \<Longrightarrow> x \<in> set xs \<Longrightarrow> filter (\<lambda>y. k y = k x) xs = [x]"
proof (induction xs)
  case (Cons y ys)
  show ?case
  proof (cases "y = x")
    case True
    then have "filter (\<lambda>y. k y = k x) ys = []" using Cons.prems(1) by (auto simp: filter_empty_conv image_iff)
    with True show ?thesis by simp
  next
    case False
    with Cons.prems have "x \<in> set ys" by simp
    moreover have "k y \<noteq> k x" using Cons.prems(1) \<open>x \<in> set ys\<close> by auto
    ultimately show ?thesis using Cons by simp
  qed
qed simp

lemma expected_without:
  "c \<notin> reader_correlation ` set rs \<Longrightarrow> expected (filter (\<lambda>m. cm_correlation m \<noteq> c) ms) rs = expected ms rs"
proof (induction rs)
  case (Cons r rs)
  have "filter (\<lambda>m. cm_correlation m = x) (filter (\<lambda>m. cm_correlation m \<noteq> c) ms) = filter (\<lambda>m. cm_correlation m = x) ms"
    if "x \<noteq> c" for x
    using that by (simp add: filter_filter) (metis (mono_tags))
  with Cons show ?case by (cases r) auto
qed simp

lemma reader_gets_expected:
  assumes "mailbox live dead d" "undisturbed d" "distinct (map reader_correlation rs)"
    "reader_correlation ` set rs \<subseteq> cm_correlation ` set live"
  shows "\<exists>d'. read_all p h rs d = (Inr (map whole (expected live rs)), d')"
  using assms
proof (induction rs arbitrary: live dead d)
  case (Cons r rs)
  let ?c = "reader_correlation r"
  obtain m where m: "m \<in> set live" "cm_correlation m = ?c" using Cons.prems(4) by auto
  let ?live = "filter (\<lambda>m'. cm_correlation m' \<noteq> cm_correlation m) live"
  have one: "filter (\<lambda>m'. cm_correlation m' = ?c) live = [m]"
    using mailboxD(1) [OF Cons.prems(1)] m filter_key [of cm_correlation live m] by simp
  have rest: "expected ?live rs = expected live rs" using Cons.prems(3) m(2) by (simp add: expected_without)
  have keys: "reader_correlation ` set rs \<subseteq> cm_correlation ` set ?live"
  proof
    fix x assume x: "x \<in> reader_correlation ` set rs"
    with Cons.prems(3) m(2) have "x \<noteq> cm_correlation m" by (metis distinct.simps(2) list.set_map list.simps(9))
    moreover have "x \<in> cm_correlation ` set live" using x Cons.prems(4) by auto
    ultimately show "x \<in> cm_correlation ` set ?live" by auto
  qed
  have ih: "\<exists>d''. read_all p h rs d' = (Inr (map whole (expected live rs)), d'')"
    if "mailbox ?live dead' d'" "undisturbed d'" for dead' d'
    using Cons.IH [OF that _ keys] Cons.prems(3) rest by simp
  show ?case
  proof (cases r)
    case (Receive c)
    obtain d' dead' where 1: "next_correlated ?c p h d = (Inr (whole m), d')" "undisturbed d'" "mailbox ?live dead' d'"
      using receive_live [OF Cons.prems(1,2) m(1), of p h] unfolding m(2) by blast
    obtain d'' where "read_all p h rs d' = (Inr (map whole (expected live rs)), d'')"
      using ih [of dead' d'] 1(2,3) m(2) by auto
    with 1(1) one Receive show ?thesis by (simp add: after_def return_def)
  next
    case (Discard c)
    obtain dead' where "undisturbed (device_discard ?c d)" "mailbox ?live dead' (device_discard ?c d)"
      using discard_live [OF Cons.prems(1,2) m(1)] unfolding m(2) by blast
    then obtain d'' where "read_all p h rs (device_discard ?c d) = (Inr (map whole (expected live rs)), d'')"
      using ih [of dead' "device_discard ?c d"] m(2) by auto
    with Discard show ?thesis by (simp add: after_def change_def)
  qed
qed (simp add: return_def)

section \<open>Senders\<close>

lemma put_from_sends:
  assumes "undisturbed ch" "0 < limit" "tp_type t = cm_type m" "tp_correlation t = cm_correlation m"
    "tp_complete_size t = length (cm_payload m)" "first < length (cm_payload m) \<or> first = 0"
  shows "\<exists>ch' ts. put_from limit p h m t first ch = (Inr (cm_correlation m), ch') \<and> undisturbed ch' \<and>
    ch_queue ch' = ch_queue ch @ ts \<and> ts \<noteq> [] \<and> carries m first ts"
  using assms
proof (induction limit p h m t first ch rule: put_from.induct)
  case (1 limit p h m t first ch)
  let ?n = "length (cm_payload m)"
  define stop where "stop = (if ?n - first > limit then first + limit else ?n)"
  define t' where "t' = (tp_assign (take (stop - first) (drop first (cm_payload m))) t)\<lparr>tp_offset := first\<rparr>"
  have stop: "first \<le> stop" "stop \<le> ?n" "first < stop \<or> cm_payload m = []" using 1(3,7) by (auto simp: stop_def)
  have t': "tp_type t' = cm_type m" "tp_correlation t' = cm_correlation m" "tp_complete_size t' = ?n"
    "tp_offset t' = first" "tp_count t' = stop - first" "tp_bytes t' = take (tp_count t') (drop first (cm_payload m))"
    using 1(4-6) stop by (auto simp: t'_def tp_assign_def tp_bytes_def)
  obtain ch1 where ch1: "apply_send p h t' ch = (Inr True, ch1)" "ch_queue ch1 = ch_queue ch @ [t']" "undisturbed ch1"
    using calm_send [OF 1(2)] by blast
  have run: "put_from limit p h m t first ch =
      (if stop < ?n \<and> 0 < limit then put_from limit p h m t' stop ch1 else (Inr (cm_correlation m), ch1))"
    unfolding put_from.simps [of limit p h m t first ch] by (simp add: ch1(1) flip: stop_def t'_def)
  have head: "carries m first (t' # ts)" if "carries m stop ts" "cm_payload m = [] \<Longrightarrow> ts = []" for ts
    using that t' stop by auto
  show ?case
  proof (cases "stop < ?n")
    case True
    from 1(1) [OF stop_def t'_def ch1(1) [symmetric] refl] True 1(3) ch1(3) t'(1-3)
    obtain ch2 ts where 2: "put_from limit p h m t' stop ch1 = (Inr (cm_correlation m), ch2)" "undisturbed ch2"
      "ch_queue ch2 = ch_queue ch1 @ ts" "carries m stop ts" by auto
    moreover have "carries m first (t' # ts)" using 2(4) True by (intro head) auto
    ultimately show ?thesis using run True 1(3) ch1(2) by (intro exI [of _ ch2] exI [of _ "t' # ts"]) simp
  next
    case False
    then have "carries m first [t']" using stop by (intro head) auto
    then show ?thesis using run False ch1 by (intro exI [of _ ch1] exI [of _ "[t']"]) simp
  qed
qed

lemma put_sends:
  assumes "undisturbed ch"
  obtains ch' ts where "put p h m ch = (Inr (cm_correlation m), ch')" "undisturbed ch'" "ch_queue ch' = ch_queue ch @ ts" "sends m ts"
proof -
  have "0 < payload_max_size" by (simp add: payload_max_size_def message_size_def header_size_def)
  from put_from_sends [OF assms this, of "new_transport m" m 0 p h] that show thesis
    by (auto simp: put_def sends_def new_transport_def)
qed

text \<open>A queue and a device nothing has been sent to.\<close>

definition empty_channel :: channel where
  "empty_channel = \<lparr>ch_queue = [], ch_system = [], ch_signals = []\<rparr>"

definition sent_parts :: "complete \<Rightarrow> transport list" where
  "sent_parts m = ch_queue (snd (put Blocking None m empty_channel))"

lemma sent_parts_sends: "sends m (sent_parts m)"
  by (rule put_sends [of empty_channel Blocking None m]) (auto simp: undisturbed_def empty_channel_def sent_parts_def)

text \<open>
  C26: the messages of several senders, cut in parts by \<open>Device::put\<close>, arrive at one reader in any order that keeps
  the parts of each message in theirs. Whatever the reader asks for next by its correlation, with any policy and
  handler, and whatever messages it discards between, each message it asks for is returned with its type and
  all of its bytes.
\<close>

theorem interleaved_messages_arrive_whole:
  assumes "distinct (map cm_correlation ms)"
    and "\<And>m. m \<in> set ms \<Longrightarrow> filter (\<lambda>t. tp_correlation t = cm_correlation m) (ch_queue d) = sent_parts m"
    and "tp_correlation ` set (ch_queue d) \<subseteq> cm_correlation ` set ms"
    and "dv_cache d = []" and "dv_discarded d = []" and "undisturbed d"
    and "distinct (map reader_correlation rs)" and "reader_correlation ` set rs \<subseteq> cm_correlation ` set ms"
  shows "\<exists>d'. read_all p h rs d = (Inr (map whole (expected ms rs)), d')"
proof -
  have "mailbox ms [] d"
    using assms(1-5) sent_parts_sends by (auto simp: mailbox_def on_its_way_def cached_def parts_of_def)
  with assms(6-8) show ?thesis by (intro reader_gets_expected) auto
qed

subsection \<open>An example\<close>

definition sample_message :: "uuid \<Rightarrow> byte list \<Rightarrow> complete" where
  "sample_message c bytes = \<lparr>cm_type = 42, cm_correlation = c, cm_payload = bytes, cm_unhandled = []\<rparr>"

lemma sent_small_parts:
  assumes "length bytes \<le> payload_max_size"
  shows "sent_parts (sample_message c bytes) =
    [\<lparr>tp_type = 42, tp_correlation = c, tp_offset = 0, tp_count = length bytes, tp_complete_size = length bytes,
      tp_payload = bytes @ drop (length bytes) (replicate payload_max_size 0)\<rparr>]"
proof -
  have "policy_send Blocking t empty_channel = (Inr True, empty_channel\<lparr>ch_queue := [t]\<rparr>)" for t
    by (simp add: policy_send_def policy_signals_def signal_handle_def empty_channel_def native_send_def system_call_def
        after_def change_def return_def)
  then have "apply_send Blocking None t empty_channel = (Inr True, empty_channel\<lparr>ch_queue := [t]\<rparr>)" for t
    by (simp add: apply_send.simps [of Blocking None t empty_channel])
  then show ?thesis using assms
    by (simp add: sent_parts_def put_def put_from.simps [of payload_max_size Blocking None _ _ 0 empty_channel]
        Let_def tp_assign_def sample_message_def new_transport_def)
qed

definition two_messages :: device where
  "two_messages = \<lparr>ch_queue = sent_parts (sample_message 7 [1, 2]) @ sent_parts (sample_message 8 [3]),
     ch_system = [Some E_INTR, None], ch_signals = [], dv_cache = [], dv_discarded = []\<rparr>"

lemma two_messages_parts:
  "map tp_correlation (sent_parts (sample_message 7 [1, 2])) = [7]" "map tp_correlation (sent_parts (sample_message 8 [3])) = [8]"
  by (simp_all add: sent_small_parts payload_max_size_def message_size_def header_size_def)

theorem interleaved_messages_arrive_whole_witness:
  "\<exists>d'. read_all Blocking None [Receive 8, Discard 7] two_messages = (Inr [sample_message 8 [3]], d')"
proof -
  let ?m = "sample_message 7 [1, 2]" and ?n = "sample_message 8 [3]"
  have keys: "\<forall>t\<in>set (sent_parts ?m). tp_correlation t = 7" "\<forall>t\<in>set (sent_parts ?n). tp_correlation t = 8"
    using two_messages_parts by auto
  have k: "cm_correlation ?m = 7" "cm_correlation ?n = 8" by (simp_all add: sample_message_def)
  have "\<exists>d'. read_all Blocking None [Receive 8, Discard 7] two_messages =
      (Inr (map whole (expected [?m, ?n] [Receive 8, Discard 7])), d')"
  proof (rule interleaved_messages_arrive_whole)
    have own: "filter (\<lambda>t. tp_correlation t = 7) (sent_parts ?m) = sent_parts ?m"
        "filter (\<lambda>t. tp_correlation t = 8) (sent_parts ?n) = sent_parts ?n"
      using keys by (simp_all add: filter_id_conv)
    have other: "filter (\<lambda>t. tp_correlation t = 8) (sent_parts ?m) = []"
        "filter (\<lambda>t. tp_correlation t = 7) (sent_parts ?n) = []"
      using keys by (auto simp: filter_empty_conv)
    show "filter (\<lambda>t. tp_correlation t = cm_correlation x) (ch_queue two_messages) = sent_parts x"
      if "x \<in> set [?m, ?n]" for x
      using that own other k by (auto simp: two_messages_def)
    show "tp_correlation ` set (ch_queue two_messages) \<subseteq> cm_correlation ` set [?m, ?n]"
      using keys k by (auto simp: two_messages_def)
  qed (simp_all add: k two_messages_def undisturbed_def)
  then show ?thesis by (simp add: k whole_def) (simp add: sample_message_def)
qed

section \<open>What goes wrong\<close>

text \<open>
  Parts that arrive out of order: when a part splits a missing range that is not the last one, the second half is
  forgotten. The message counts as complete although a byte of it has never come.
\<close>

definition plain_part :: "nat \<Rightarrow> byte list \<Rightarrow> transport" where
  "plain_part off bytes = \<lparr>tp_type = 42, tp_correlation = 7, tp_offset = off, tp_count = length bytes,
     tp_complete_size = 6, tp_payload = bytes\<rparr>"

fun add_parts :: "transport list \<Rightarrow> complete \<Rightarrow> comm_exn + complete" where
  "add_parts [] c = Inr c"
| "add_parts (t # ts) c = (case add_part t c of Inl e \<Rightarrow> Inl e | Inr c' \<Rightarrow> add_parts ts c')"

lemma split_range_is_forgotten:
  "add_parts [plain_part 3 [4, 5], plain_part 1 [2], plain_part 0 [1], plain_part 5 [6]]
     \<lparr>cm_type = 42, cm_correlation = 7, cm_payload = [0, 0, 0, 0, 0, 0], cm_unhandled = [(0, 6)]\<rparr> =
   Inr \<lparr>cm_type = 42, cm_correlation = 7, cm_payload = [1, 2, 0, 4, 5, 6], cm_unhandled = []\<rparr>"
  by (simp add: add_part_def plain_part_def tp_bytes_def subtract_def overlap_def span_empty_def range_partition_def)

text \<open>
  Two messages with the same correlation, as the two answers to a lookup or to a commit: when the second comes while
  the first is still in the cache it is taken for a part of it. It ends the process if their sizes differ, and
  replaces the first otherwise.
\<close>

lemma second_answer_is_taken_for_a_part:
  "cache_part \<lparr>tp_type = 42, tp_correlation = 7, tp_offset = 0, tp_count = 1, tp_complete_size = 1, tp_payload = [9]\<rparr>
     \<lparr>ch_queue = [], ch_system = [], ch_signals = [], dv_cache = [sample_message 7 [1, 2]], dv_discarded = []\<rparr> = Inl X_abort"
  "cache_part \<lparr>tp_type = 42, tp_correlation = 7, tp_offset = 0, tp_count = 2, tp_complete_size = 2, tp_payload = [8, 9]\<rparr>
     \<lparr>ch_queue = [], ch_system = [], ch_signals = [], dv_cache = [sample_message 7 [1, 2]], dv_discarded = []\<rparr> =
   Inr \<lparr>ch_queue = [], ch_system = [], ch_signals = [], dv_cache = [sample_message 7 [8, 9]], dv_discarded = []\<rparr>"
  by (simp_all add: cache_part_def sample_message_def add_part_def tp_bytes_def span_empty_def range_partition_def)

text \<open>
  A send that does not wait and meets a full queue after its first parts reports that nothing was sent; the parts stay
  in the queue. A second try with a new correlation leaves them in the cache of the reader for good.
\<close>

lemma refused_message_leaves_a_fragment:
  "put_from 1 Non_blocking None (sample_message 7 [1, 2]) (new_transport (sample_message 7 [1, 2])) 0
     \<lparr>ch_queue = [], ch_system = [None, Some E_AGAIN], ch_signals = []\<rparr> = (r, ch) \<Longrightarrow>
   r = Inr nil_uuid \<and> map tp_offset (ch_queue ch) = [0] \<and> map tp_complete_size (ch_queue ch) = [2]"
  by (auto simp: put_from.simps apply_send.simps policy_send_def policy_signals_def signal_handle_def native_send_def
      system_call_def after_def change_def return_def tp_assign_def sample_message_def new_transport_def)

end
