(* ===== verification/Buffer_Pool.thy ===== *)
theory Buffer_Pool
  imports Effects Codes "HOL-Library.Char_ord"
begin

text \<open>
  The buffers of a process (\<open>common/source/buffer\<close>): a holder of pools, one for each family of buffer types. A buffer
  is known by its address; what the allocator hands out is part of the state.
\<close>

section \<open>Types and payloads\<close>

type_synonym buffer_type = "string \<times> string"

record payload =
  pay_type :: buffer_type
  pay_memory :: "byte list"

definition null_payload :: payload where
  "null_payload = \<lparr>pay_type = (''NULL'', ''''), pay_memory = []\<rparr>"

definition payload_null :: "payload \<Rightarrow> bool" where
  "payload_null p \<longleftrightarrow> fst (pay_type p) = ''NULL''"

definition type_less :: "buffer_type \<Rightarrow> buffer_type \<Rightarrow> bool" where
  "type_less l r \<longleftrightarrow> (if fst l = fst r then ord.lexordp (<) (snd l) (snd r) else ord.lexordp (<) (fst l) (fst r))"

definition x_octet :: buffer_type where "x_octet = (''X_OCTET'', '''')"

definition x_octet_types :: "buffer_type list" where
  "x_octet_types = [x_octet, (''.binary'', ''''), (''.json'', ''''), (''.yaml'', ''''), (''.xml'', '''')]"

text \<open>What is sent of a buffer.\<close>

record send_buffer =
  sb_payload :: payload
  sb_transport :: nat
  sb_reserved :: nat

definition sent_payload :: "send_buffer \<Rightarrow> payload" where
  "sent_payload b = (sb_payload b)\<lparr>pay_memory := take (sb_transport b) (pay_memory (sb_payload b))\<rparr>"

section \<open>Pools\<close>

text \<open>
  A pool with the functions of its buffer class: how much of a buffer is sent for the size the user gives, and how
  much is reserved.
\<close>

record buffer_pool =
  po_types :: "buffer_type list"
  po_transport :: "payload \<Rightarrow> int \<Rightarrow> nat option"
  po_reserved :: "payload \<Rightarrow> nat"
  po_buffers :: "(int \<times> payload) list"

text \<open>\<open>Buffer\<close>: the size of the user may not exceed the memory; it is compared as an unsigned number.\<close>

definition default_transport :: "payload \<Rightarrow> int \<Rightarrow> nat option" where
  "default_transport p n = (if 0 \<le> n \<and> n \<le> int (length (pay_memory p)) then Some (nat n) else None)"

definition default_pool :: buffer_pool where
  "default_pool = \<lparr>po_types = x_octet_types, po_transport = default_transport,
     po_reserved = (\<lambda>p. length (pay_memory p)), po_buffers = []\<rparr>"

datatype buffer_exn = B_type | B_argument | B_registered

record holder =
  ho_inbound :: int
  ho_pools :: "buffer_pool list"
  ho_address :: "nat \<Rightarrow> int"
  ho_allocations :: nat

type_synonym 'a on_holder = "(holder, buffer_exn, 'a) effect"

definition manages_address :: "int \<Rightarrow> buffer_pool \<Rightarrow> bool" where
  "manages_address a p \<longleftrightarrow> a \<in> fst ` set (po_buffers p)"

definition manages_type :: "buffer_type \<Rightarrow> buffer_pool \<Rightarrow> bool" where
  "manages_type ty p \<longleftrightarrow> ty \<in> set (po_types p)"

text \<open>The memory of a vector: no address when it is empty.\<close>

definition allocate_memory :: "nat \<Rightarrow> int on_holder" where
  "allocate_memory n h =
     (if n = 0 then (Inr 0, h) else (Inr (ho_address h (ho_allocations h)), h\<lparr>ho_allocations := Suc (ho_allocations h)\<rparr>))"

text \<open>\<open>Holder::find\<close>: the pool of a type, and that of a buffer.\<close>

definition find_by_type :: "buffer_type \<Rightarrow> buffer_pool on_holder" where
  "find_by_type ty h = (case List.find (manages_type ty) (ho_pools h) of Some p \<Rightarrow> (Inr p, h) | None \<Rightarrow> (Inl B_type, h))"

definition find_by_address :: "int \<Rightarrow> buffer_pool on_holder" where
  "find_by_address a h = (case List.find (manages_address a) (ho_pools h) of Some p \<Rightarrow> (Inr p, h) | None \<Rightarrow> (Inl B_argument, h))"

definition payload_at :: "int \<Rightarrow> buffer_pool \<Rightarrow> payload" where
  "payload_at a p = snd (hd (filter (\<lambda>b. fst b = a) (po_buffers p)))"

definition change_pool :: "(buffer_pool \<Rightarrow> bool) \<Rightarrow> ((int \<times> payload) list \<Rightarrow> (int \<times> payload) list) \<Rightarrow> unit on_holder" where
  "change_pool P f = change (\<lambda>h. h\<lparr>ho_pools := upd_first P (\<lambda>p. p\<lparr>po_buffers := f (po_buffers p)\<rparr>) (ho_pools h)\<rparr>)"

text \<open>\<open>registration\<close>: a pool may not have a type that another has.\<close>

definition register_pool :: "buffer_pool \<Rightarrow> unit on_holder" where
  "register_pool p = after (read_state ho_pools) (\<lambda>ps.
     if \<exists>ty\<in>set (po_types p). \<exists>q\<in>set ps. manages_type ty q then throw B_registered
     else change (\<lambda>h. h\<lparr>ho_pools := ho_pools h @ [p]\<rparr>))"

section \<open>The holder\<close>

definition holder_allocate :: "buffer_type \<Rightarrow> nat \<Rightarrow> int on_holder" where
  "holder_allocate ty n =
     after (find_by_type ty) (\<lambda>_.
     after (allocate_memory n) (\<lambda>a.
     after (change_pool (manages_type ty) (\<lambda>bs. bs @ [(a, \<lparr>pay_type = ty, pay_memory = replicate n 0\<rparr>)])) (\<lambda>_.
     return a)))"

text \<open>A resize keeps the memory while it fits the capacity of the vector; how the vector grows is the allocator's.\<close>

definition resized :: "nat \<Rightarrow> payload \<Rightarrow> payload" where
  "resized n p = p\<lparr>pay_memory := take n (pay_memory p) @ replicate (n - length (pay_memory p)) 0\<rparr>"

definition holder_reallocate :: "int \<Rightarrow> nat \<Rightarrow> int on_holder" where
  "holder_reallocate a n =
     after (find_by_address a) (\<lambda>p.
     after (if n \<le> length (pay_memory (payload_at a p)) then return a else allocate_memory n) (\<lambda>b.
     after (change_pool (manages_address a) (upd_first (\<lambda>x. fst x = a) (\<lambda>x. (b, resized n (snd x))))) (\<lambda>_.
     after (change (\<lambda>h. if a = ho_inbound h then h\<lparr>ho_inbound := b\<rparr> else h)) (\<lambda>_. return b))))"

definition holder_get :: "int \<Rightarrow> send_buffer on_holder" where
  "holder_get a =
     (if a = 0 then return \<lparr>sb_payload = null_payload, sb_transport = 0, sb_reserved = 0\<rparr>
      else after (find_by_address a) (\<lambda>p.
        let b = payload_at a p
        in case po_transport p b (int (po_reserved p b)) of
             None \<Rightarrow> throw B_argument
           | Some n \<Rightarrow> return \<lparr>sb_payload = b, sb_transport = n, sb_reserved = po_reserved p b\<rparr>))"

definition holder_get_size :: "int \<Rightarrow> int \<Rightarrow> send_buffer on_holder" where
  "holder_get_size a len =
     (if a = 0 then return \<lparr>sb_payload = null_payload, sb_transport = 0, sb_reserved = 0\<rparr>
      else after (find_by_address a) (\<lambda>p.
        let b = payload_at a p
        in case po_transport p b len of
             None \<Rightarrow> throw B_argument
           | Some n \<Rightarrow> return \<lparr>sb_payload = b, sb_transport = n, sb_reserved = po_reserved p b\<rparr>))"

definition holder_type :: "int \<Rightarrow> buffer_type on_holder" where
  "holder_type a = after (holder_get a) (\<lambda>b. return (pay_type (sb_payload b)))"

definition holder_deallocate :: "int \<Rightarrow> unit on_holder" where
  "holder_deallocate a =
     after (read_state ho_inbound) (\<lambda>i.
     if a \<noteq> i \<and> a \<noteq> 0 then
       after (find_by_address a) (\<lambda>_. change_pool (manages_address a) (erase_first (\<lambda>x. fst x = a)))
     else return ())"

text \<open>A payload that is moved into a pool keeps its memory, with the address it has.\<close>

definition holder_insert :: "payload \<Rightarrow> int on_holder" where
  "holder_insert b =
     (if payload_null b then return 0
      else after (find_by_type (pay_type b)) (\<lambda>_.
        after (allocate_memory (length (pay_memory b))) (\<lambda>a.
        after (change_pool (manages_type (pay_type b)) (\<lambda>bs. bs @ [(a, b)])) (\<lambda>_. return a))))"

definition holder_adopt :: "payload \<Rightarrow> int on_holder" where
  "holder_adopt b = after (holder_insert b) (\<lambda>a. after (change (\<lambda>h. h\<lparr>ho_inbound := a\<rparr>)) (\<lambda>_. return a))"

text \<open>The buffer is taken out of its pool, cut to what is sent for the size of the user.\<close>

definition holder_release :: "int \<Rightarrow> int \<Rightarrow> payload on_holder" where
  "holder_release a len =
     (if a = 0 then return null_payload
      else after (find_by_address a) (\<lambda>p.
        let b = payload_at a p
        in after (change_pool (manages_address a) (erase_first (\<lambda>x. fst x = a))) (\<lambda>_.
           case po_transport p b len of
             None \<Rightarrow> throw B_argument
           | Some n \<Rightarrow>
               after (change (\<lambda>h. if ho_inbound h = a then h\<lparr>ho_inbound := 0\<rparr> else h)) (\<lambda>_.
               return (b\<lparr>pay_memory := take n (pay_memory b)\<rparr>)))))"

definition holder_clear :: "unit on_holder" where
  "holder_clear =
     after (read_state ho_inbound) (\<lambda>i.
     if i \<noteq> 0 then
       catch (after (find_by_address i) (\<lambda>_.
              after (change_pool (manages_address i) (erase_first (\<lambda>x. fst x = i))) (\<lambda>_.
              change (\<lambda>h. h\<lparr>ho_inbound := 0\<rparr>)))) (\<lambda>_. return ())
     else return ())"

end
