(* ===== verification/Client_State.thy ===== *)
theory Client_State
  imports Effects Codes Algorithm Broker_State Tm_State Buffer_Pool
begin

text \<open>
  What a process keeps that calls services or offers them (\<open>common/transaction\<close>, \<open>common/call\<close>): its transactions,
  the calls it waits for, its resources and its buffers. What its surroundings do belongs to the state: the answers
  that arrive, what the resource managers return, the sends that fail, the clock and the uuids.
\<close>

section \<open>Codes\<close>

text \<open>\<open>xaTotx\<close>\<close>

definition xa_to_tx :: "int \<Rightarrow> int" where
  "xa_to_tx code =
     (if code \<in> {100, 101, 102, 103, 104, 105, 106, 107, 9, 8} then TX_HAZARD
      else if code \<in> {7, 6, 5} then TX_MIXED
      else if code \<in> {4, 3} then TX_OK
      else if code = 0 then TX_OK
      else if code \<in> {- 2, - 3, - 4} then TX_NO_BEGIN
      else if code \<in> {- 5, - 6} then TX_PROTOCOL_ERROR
      else if code \<in> {- 7, - 8, - 9} then TX_OUTSIDE
      else TX_FAIL)"

text \<open>The codes \<open>error::xa::error\<close> has a text for; it throws for others.\<close>

definition xa_named :: "int \<Rightarrow> bool" where
  "xa_named code \<longleftrightarrow> code \<in> {100, 101, 102, 103, 104, 105, 106, 107, 9, 8, 7, 6, 5, 4, 3, 0, - 2, - 3, - 4, - 5, - 6, - 7, - 8, - 9}"

section \<open>Exceptions\<close>

text \<open>
  Those of \<open>exception::tx\<close> and \<open>exception::xatmi\<close> carry their code; the last two are a call that does not return
  and undefined behaviour.
\<close>

datatype client_exn = Ex_tx int | Ex_xatmi int | Ex_shutdown | Ex_terminate | Ex_process | Ex_base | Ex_std | Ex_never | Ex_undefined

section \<open>Data\<close>

text \<open>Time points and durations in microseconds; \<open>None\<close> is \<open>time_point::max\<close>.\<close>

record timeout =
  to_start :: int
  to_timeout :: int

definition no_timeout :: timeout where
  "no_timeout = \<lparr>to_start = - (2 ^ 63), to_timeout = 0\<rparr>"

definition deadline :: "timeout \<Rightarrow> int option" where
  "deadline t = (if to_timeout t = 0 then None else Some (to_start t + to_timeout t))"

definition earlier :: "int option \<Rightarrow> int option \<Rightarrow> bool" where
  "earlier x y = (case x of None \<Rightarrow> False | Some i \<Rightarrow> (case y of None \<Rightarrow> True | Some j \<Rightarrow> i < j))"

text \<open>\<open>Transaction::State\<close>, in its order\<close>

datatype tx_state = T_active | T_timeout | T_rollback

fun tx_state_code :: "tx_state \<Rightarrow> int" where
  "tx_state_code T_active = 0"
| "tx_state_code T_timeout = 1"
| "tx_state_code T_rollback = 2"

definition tx_state_of :: "int \<Rightarrow> tx_state" where
  "tx_state_of i = (if i = 0 then T_active else if i = 1 then T_timeout else T_rollback)"

record work =
  wk_trid :: trid
  wk_timeout :: timeout
  wk_resources :: "int list"
  wk_state :: tx_state
  wk_descriptors :: "int list"
  wk_local :: bool

definition null_trid :: trid where
  "null_trid = null_id no_process"

definition is_null :: "trid \<Rightarrow> bool" where
  "is_null t \<longleftrightarrow> xid_null (t_xid t)"

definition no_work :: work where
  "no_work = \<lparr>wk_trid = null_trid, wk_timeout = no_timeout, wk_resources = [], wk_state = T_active,
     wk_descriptors = [], wk_local = True\<rparr>"

definition work_on :: "trid \<Rightarrow> work" where
  "work_on t = no_work\<lparr>wk_trid := t\<rparr>"

definition associate :: "int \<Rightarrow> work \<Rightarrow> work" where
  "associate cd w = w\<lparr>wk_descriptors := wk_descriptors w @ [cd], wk_local := False\<rparr>"

definition discard_descriptor :: "int \<Rightarrow> work \<Rightarrow> work" where
  "discard_descriptor cd w = w\<lparr>wk_descriptors := filter (\<lambda>c. c \<noteq> cd) (wk_descriptors w)\<rparr>"

definition associated :: "work \<Rightarrow> bool" where
  "associated w \<longleftrightarrow> wk_descriptors w \<noteq> []"

definition associated_with :: "int \<Rightarrow> work \<Rightarrow> bool" where
  "associated_with cd w \<longleftrightarrow> cd \<in> set (wk_descriptors w)"

text \<open>A resource, with the switch of the resource manager that was linked.\<close>

record linked_resource =
  ls_key :: string
  ls_switch :: nat
  ls_dynamic :: bool
  ls_id :: int
  ls_openinfo :: string
  ls_closeinfo :: string

record call_descriptor =
  de_descriptor :: int
  de_active :: bool
  de_correlation :: uuid
  de_timeout :: timeout

section \<open>Messages\<close>

record service_request =
  cc_correlation :: uuid
  cc_descriptor :: int
  cc_process :: process_handle
  cc_service :: service_info
  cc_parent :: string
  cc_trid :: trid
  cc_flags :: int
  cc_buffer :: payload

record call_answer =
  re_correlation :: uuid
  re_descriptor :: int
  re_error :: int
  re_code :: int
  re_buffer :: payload
  re_trid :: trid
  re_state :: int

record lookup_answer =
  la_service :: service_info
  la_process :: process_handle
  la_state :: lookup_state

datatype commit_stage = Stage_prepare | Stage_commit | Stage_error

datatype client_message =
    M_involved process_handle trid "int list"
  | M_commit process_handle trid "int list"
  | M_rollback process_handle trid "int list"
  | M_lookup string process_handle lookup_context
  | M_call service_request
  | M_ack string process_handle
  | M_reply call_answer
  | M_traffic string
  | M_advertise process_handle "(string \<times> nat \<times> nat) list"
  | M_unadvertise process_handle "string list"

datatype answer = A_commit commit_stage int | A_rollback int | A_lookup lookup_answer | A_call call_answer

section \<open>State\<close>

text \<open>The calls of the resource managers, by switch, and what the process does as seen from outside.\<close>

datatype xa_call =
    Xa_open nat string int int
  | Xa_close nat string int int
  | Xa_start nat xid int int
  | Xa_end nat xid int int
  | Xa_commit nat xid int int
  | Xa_rollback nat xid int int

datatype client_event = Rm xa_call int | Sent int client_message | Timer_set int | Timer_unset

text \<open>\<open>server::Service\<close>; a function is its address.\<close>

datatype transaction_mode = Mode_automatic | Mode_join | Mode_atomic | Mode_none

record server_service =
  ss_origin :: string
  ss_function :: int
  ss_type :: nat
  ss_transaction :: transaction_mode

datatype tx_control = Unchained | Chained | Stacked

datatype commit_return = Completed | Logged

record xatmi_client =
  cl_self :: process_handle
  cl_control :: tx_control
  cl_commit_return :: commit_return
  cl_all :: "linked_resource list"
  cl_fixed :: "linked_resource list"
  cl_dynamic :: "linked_resource list"
  cl_configuration :: "rm_config list"
  cl_transactions :: "work list"
  cl_outside :: work
  cl_caller :: trid
  cl_timeout :: int
  cl_pending :: "call_descriptor list"
  cl_user_code :: int
  cl_manager :: int
  cl_broker :: int
  cl_events :: "client_event list"
  cl_inbox :: "(uuid \<times> answer) list"
  cl_discarded :: "uuid list"
  cl_rm :: "client_event list \<Rightarrow> xa_call \<Rightarrow> int"
  cl_send :: "client_event list \<Rightarrow> int \<Rightarrow> client_exn option"
  cl_no_answer :: client_exn
  cl_ready :: "client_event list \<Rightarrow> nat"
  cl_clock :: "nat \<Rightarrow> int"
  cl_uuid :: "nat \<Rightarrow> uuid"
  cl_uuids :: nat
  cl_ids :: "nat \<Rightarrow> byte list \<times> byte list \<times> byte list"
  cl_created :: nat
  cl_holder :: holder
  cl_service :: string
  cl_parent :: string
  cl_reply :: call_answer
  cl_services :: "(string \<times> server_service) list"
  cl_physical :: "server_service list"

type_synonym 'a client_effect = "(xatmi_client, client_exn, 'a) effect"

section \<open>The surroundings\<close>

definition clock_now :: "int client_effect" where
  "clock_now = read_state (\<lambda>s. cl_clock s (length (cl_events s)))"

definition record_event :: "client_event \<Rightarrow> unit client_effect" where
  "record_event e = change (\<lambda>s. s\<lparr>cl_events := cl_events s @ [e]\<rparr>)"

definition make_uuid :: "uuid client_effect" where
  "make_uuid s = (Inr (cl_uuid s (cl_uuids s)), s\<lparr>cl_uuids := Suc (cl_uuids s)\<rparr>)"

text \<open>A call of a resource manager through its switch.\<close>

definition rm_invoke :: "xa_call \<Rightarrow> int client_effect" where
  "rm_invoke c s = (let r = cl_rm s (cl_events s) c in (Inr r, s\<lparr>cl_events := cl_events s @ [Rm c r]\<rparr>))"

text \<open>A blocking send: it succeeds or throws.\<close>

definition client_send :: "int \<Rightarrow> client_message \<Rightarrow> unit client_effect" where
  "client_send q m s =
     (case cl_send s (cl_events s) q of
        Some e \<Rightarrow> (Inl e, s)
      | None \<Rightarrow> (Inr (), s\<lparr>cl_events := cl_events s @ [Sent q m]\<rparr>))"

text \<open>
  A receive by correlation takes the first answer that has it; when none comes the wait ends as \<open>otherwise\<close> says. A
  discard drops one, the next one that arrives when there is none yet.
\<close>

definition receive_answer :: "client_exn \<Rightarrow> uuid \<Rightarrow> answer client_effect" where
  "receive_answer otherwise c s =
     (case List.find (\<lambda>x. fst x = c) (cl_inbox s) of
        Some x \<Rightarrow> (Inr (snd x), s\<lparr>cl_inbox := erase_first (\<lambda>x. fst x = c) (cl_inbox s)\<rparr>)
      | None \<Rightarrow> (Inl otherwise, s))"

definition inbox_discard :: "uuid \<Rightarrow> unit client_effect" where
  "inbox_discard c = change (\<lambda>s.
     if c \<in> fst ` set (cl_inbox s) then s\<lparr>cl_inbox := erase_first (\<lambda>x. fst x = c) (cl_inbox s)\<rparr>
     else if c \<in> set (cl_discarded s) then s
     else s\<lparr>cl_discarded := cl_discarded s @ [c]\<rparr>)"

definition answer_arrives :: "uuid \<Rightarrow> answer \<Rightarrow> unit client_effect" where
  "answer_arrives c a = change (\<lambda>s.
     if c \<in> set (cl_discarded s) then s\<lparr>cl_discarded := erase_first (\<lambda>d. d = c) (cl_discarded s)\<rparr>
     else s\<lparr>cl_inbox := cl_inbox s @ [(c, a)]\<rparr>)"

text \<open>A receive by type, and one that does not wait and sees what has arrived.\<close>

definition is_call :: "uuid \<times> answer \<Rightarrow> bool" where
  "is_call x \<longleftrightarrow> (case snd x of A_call _ \<Rightarrow> True | _ \<Rightarrow> False)"

definition receive_first :: "bool \<Rightarrow> (uuid \<times> answer \<Rightarrow> bool) \<Rightarrow> answer option client_effect" where
  "receive_first waits P s =
     (case List.find P (if waits then cl_inbox s else take (cl_ready s (cl_events s)) (cl_inbox s)) of
        Some x \<Rightarrow> (Inr (Some (snd x)), s\<lparr>cl_inbox := erase_first P (cl_inbox s)\<rparr>)
      | None \<Rightarrow> if waits then (Inl (cl_no_answer s), s) else (Inr None, s))"

text \<open>An effect on the buffers.\<close>

fun buffer_exception :: "buffer_exn \<Rightarrow> client_exn" where
  "buffer_exception B_type = Ex_xatmi TPEITYPE"
| "buffer_exception B_argument = Ex_xatmi TPEINVAL"
| "buffer_exception B_registered = Ex_base"

definition on_buffers :: "'a on_holder \<Rightarrow> 'a client_effect" where
  "on_buffers f s =
     (case f (cl_holder s) of
        (Inl e, h) \<Rightarrow> (Inl (buffer_exception e), s\<lparr>cl_holder := h\<rparr>)
      | (Inr x, h) \<Rightarrow> (Inr x, s\<lparr>cl_holder := h\<rparr>))"

text \<open>
  Destructors: \<open>on_error\<close> runs them when a block throws, \<open>and_finally\<close> whatever happens in it. What they throw
  themselves is swallowed, as \<open>scope::Execute\<close> does.
\<close>

definition unwinds :: "client_exn \<Rightarrow> bool" where
  "unwinds e \<longleftrightarrow> e \<noteq> Ex_never \<and> e \<noteq> Ex_undefined"

definition on_error ::
    "('s, client_exn, 'a) effect \<Rightarrow> ('s, client_exn, unit) effect \<Rightarrow> ('s, client_exn, 'a) effect" where
  "on_error f g = catch f (\<lambda>e. if unwinds e then after g (\<lambda>_. throw e) else throw e)"

definition guarded :: "('s, client_exn, unit) effect \<Rightarrow> ('s, client_exn, unit) effect" where
  "guarded f = catch f (\<lambda>e. if unwinds e then return () else throw e)"

definition and_finally ::
    "('s, client_exn, 'a) effect \<Rightarrow> ('s, client_exn, unit) effect \<Rightarrow> ('s, client_exn, 'a) effect" where
  "and_finally f g = after (on_error f g) (\<lambda>x. after g (\<lambda>_. return x))"

end
