(* ===== verification/Transaction_Context.thy ===== *)
theory Transaction_Context
  imports Client_State
begin

unbundle bit_operations_syntax

text \<open>
  The transactions of a process (\<open>common/transaction/context.h\<close>, \<open>common/source/transaction\<close>), with the TX interface
  (\<open>xatmi/source/tx.cpp\<close>) and the AX interface of the resource managers (\<open>xatmi/source/xa.cpp\<close>).
\<close>

section \<open>Resources\<close>

text \<open>A result that is no success is logged by its name.\<close>

definition log_result :: "int \<Rightarrow> int client_effect" where
  "log_result r = (if r \<noteq> XA_OK \<and> \<not> xa_named r then throw Ex_std else return r)"

definition resource_start :: "work \<Rightarrow> int \<Rightarrow> linked_resource \<Rightarrow> int client_effect" where
  "resource_start w flags r =
     after (rm_invoke (Xa_start (ls_switch r) (t_xid (wk_trid w)) (ls_id r) flags)) (\<lambda>res.
     after (if res = XAER_DUPID
            then rm_invoke (Xa_start (ls_switch r) (t_xid (wk_trid w)) (ls_id r) (flags OR TMJOIN))
            else return res) log_result)"

definition resource_end :: "work \<Rightarrow> int \<Rightarrow> linked_resource \<Rightarrow> int client_effect" where
  "resource_end w flags r =
     after (rm_invoke (Xa_end (ls_switch r) (t_xid (wk_trid w)) (ls_id r) flags)) log_result"

definition resource_open :: "int \<Rightarrow> linked_resource \<Rightarrow> int client_effect" where
  "resource_open flags r = after (rm_invoke (Xa_open (ls_switch r) (ls_openinfo r) (ls_id r) flags)) log_result"

definition resource_close :: "int \<Rightarrow> linked_resource \<Rightarrow> int client_effect" where
  "resource_close flags r = after (rm_invoke (Xa_close (ls_switch r) (ls_closeinfo r) (ls_id r) flags)) log_result"

text \<open>The result of a commit or a rollback is not logged.\<close>

definition resource_commit_direct :: "work \<Rightarrow> int \<Rightarrow> linked_resource \<Rightarrow> int client_effect" where
  "resource_commit_direct w flags r = rm_invoke (Xa_commit (ls_switch r) (t_xid (wk_trid w)) (ls_id r) flags)"

section \<open>The context\<close>

text \<open>An effect for each element, the results are not looked at.\<close>

definition ignore :: "('a \<Rightarrow> 'b client_effect) \<Rightarrow> 'a \<Rightarrow> unit client_effect" where
  "ignore f x = after (f x) (\<lambda>_. return ())"

definition current :: "xatmi_client \<Rightarrow> work" where
  "current s = (if cl_transactions s = [] then cl_outside s else last (cl_transactions s))"

definition change_current :: "(work \<Rightarrow> work) \<Rightarrow> xatmi_client \<Rightarrow> xatmi_client" where
  "change_current f s =
     (if cl_transactions s = [] then s\<lparr>cl_outside := f (cl_outside s)\<rparr>
      else s\<lparr>cl_transactions := butlast (cl_transactions s) @ [f (last (cl_transactions s))]\<rparr>)"

definition associated_active :: "int \<Rightarrow> xatmi_client \<Rightarrow> bool" where
  "associated_active cd s \<longleftrightarrow> (\<exists>w\<in>set (cl_transactions s). wk_state w = T_active \<and> associated_with cd w)"

text \<open>\<open>pending\<close>: a transaction that another process owns.\<close>

definition pending_transactions :: "xatmi_client \<Rightarrow> bool" where
  "pending_transactions s \<longleftrightarrow>
     (\<exists>w\<in>set (cl_transactions s). \<not> is_null (wk_trid w) \<and> t_owner (wk_trid w) \<noteq> cl_self s)"

definition fixed_ids :: "xatmi_client \<Rightarrow> int list" where
  "fixed_ids s = map ls_id (cl_fixed s)"

definition resources_start :: "work \<Rightarrow> int \<Rightarrow> unit client_effect" where
  "resources_start w flags = after (read_state cl_fixed) (\<lambda>rs.
     if \<not> is_null (wk_trid w) \<and> rs \<noteq> [] then for_each (ignore (resource_start w flags)) rs else return ())"

definition resources_end :: "work \<Rightarrow> int \<Rightarrow> unit client_effect" where
  "resources_end w flags = after (read_state cl_all) (\<lambda>rs.
     if \<not> is_null (wk_trid w) \<and> rs \<noteq> [] then for_each (ignore (resource_end w flags)) rs else return ())"

definition resource_commit :: "int \<Rightarrow> work \<Rightarrow> int \<Rightarrow> int client_effect" where
  "resource_commit rm w flags = after (read_state cl_all) (\<lambda>rs.
     case List.find (\<lambda>r. ls_id r = rm) rs of
       Some r \<Rightarrow> after (resource_commit_direct w flags r) (\<lambda>res. return (xa_to_tx res))
     | None \<Rightarrow> throw (Ex_tx TX_ERROR))"

definition send_involved :: "trid \<Rightarrow> int list \<Rightarrow> unit client_effect" where
  "send_involved t rms =
     (if rms \<noteq> [] then after (read_state id) (\<lambda>s. client_send (cl_manager s) (M_involved (cl_self s) t rms)) else return ())"

text \<open>\<open>open\<close> and \<open>close\<close>\<close>

definition context_open :: "unit client_effect" where
  "context_open = after (read_state cl_all) (for_each (ignore (resource_open TMNOFLAGS)))"

definition context_close :: "unit client_effect" where
  "context_close = after (read_state cl_all) (for_each (ignore (resource_close TMNOFLAGS)))"

text \<open>
  \<open>set\<close>: the resources that were linked to the server are joined with their configuration, which the broker sent;
  each is a key and a switch. Those that register themselves come first then.
\<close>

fun linked_resources :: "(string \<times> nat \<times> bool) list \<Rightarrow> rm_config list \<Rightarrow> linked_resource list \<Rightarrow> linked_resource list client_effect" where
  "linked_resources [] cfg rs = return rs"
| "linked_resources ((key, switch, dynamic) # links) cfg rs =
     (let mine = filter (\<lambda>c. rc_key c = key) cfg
      in if mine = [] then throw Ex_base
         else linked_resources links (filter (\<lambda>c. rc_key c \<noteq> key) cfg)
           (rs @ map (\<lambda>c. \<lparr>ls_key = key, ls_switch = switch, ls_dynamic = dynamic, ls_id = rc_id c,
              ls_openinfo = rc_openinfo c, ls_closeinfo = rc_closeinfo c\<rparr>) mine))"

definition context_set :: "(string \<times> nat \<times> bool) list \<Rightarrow> unit client_effect" where
  "context_set links =
     after (read_state id) (\<lambda>s.
     after (linked_resources links (cl_configuration s) (cl_all s)) (\<lambda>rs.
     let (dynamic, fixed) = range_partition ls_dynamic rs
     in after (change (\<lambda>s. s\<lparr>cl_all := dynamic @ fixed, cl_dynamic := dynamic, cl_fixed := fixed\<rparr>)) (\<lambda>_.
        context_open)))"

subsection \<open>Beginning a transaction\<close>

definition start_transaction :: "int \<Rightarrow> work client_effect" where
  "start_transaction start s =
     (case cl_ids s (cl_created s) of
        (gtrid, bqual, garbage) \<Rightarrow>
          (Inr ((work_on (create_id gtrid bqual garbage (cl_self s)))
             \<lparr>wk_timeout := \<lparr>to_start = start, to_timeout = cl_timeout s * 1000000\<rparr>\<rparr>),
           s\<lparr>cl_created := Suc (cl_created s)\<rparr>))"

definition push_transaction :: "work \<Rightarrow> unit client_effect" where
  "push_transaction w = change (\<lambda>s. s\<lparr>cl_transactions := cl_transactions s @ [w]\<rparr>)"

definition context_join :: "trid \<Rightarrow> unit client_effect" where
  "context_join t =
     (let w = work_on t
      in after (if is_null t then return () else resources_start w TMNOFLAGS) (\<lambda>_. push_transaction w))"

definition context_start :: "int \<Rightarrow> unit client_effect" where
  "context_start start =
     after (start_transaction start) (\<lambda>w. after (resources_start w TMNOFLAGS) (\<lambda>_. push_transaction w))"

definition context_begin :: "int client_effect" where
  "context_begin =
     after (read_state id) (\<lambda>s.
     after (if \<not> is_null (wk_trid (current s)) then
              (if cl_control s \<noteq> Stacked then throw (Ex_tx TX_PROTOCOL_ERROR) else resources_end (current s) TMSUSPEND)
            else if wk_resources (current s) \<noteq> [] then throw (Ex_tx TX_OUTSIDE)
            else return ()) (\<lambda>_.
     after clock_now (\<lambda>t.
     after (context_start t) (\<lambda>_. return TX_OK))))"

subsection \<open>Ending it\<close>

definition pop_transaction :: "int client_effect" where
  "pop_transaction =
     after (read_state id) (\<lambda>s.
     case cl_control s of
       Unchained \<Rightarrow> after (change (\<lambda>s. s\<lparr>cl_transactions := butlast (cl_transactions s) @ [no_work]\<rparr>)) (\<lambda>_. return TX_OK)
     | Chained \<Rightarrow> after (change (\<lambda>s. s\<lparr>cl_transactions := butlast (cl_transactions s) @ [no_work]\<rparr>)) (\<lambda>_. context_begin)
     | Stacked \<Rightarrow>
         after (change (\<lambda>s. s\<lparr>cl_transactions := butlast (cl_transactions s)\<rparr>)) (\<lambda>_.
         after (read_state cl_transactions) (\<lambda>ws.
         if ws = [] then throw Ex_undefined
         else after (resources_end (last ws) TMRESUME) (\<lambda>_. return TX_OK))))"

text \<open>
  A request to the transaction manager. \<open>ipc::call\<close> ignores signals, it waits for the answer; the second answer to a
  commit is waited for with signals.
\<close>

definition call_manager :: "client_message \<Rightarrow> (uuid \<times> answer) client_effect" where
  "call_manager m =
     after make_uuid (\<lambda>c.
     after (read_state cl_manager) (\<lambda>q.
     after (client_send q m) (\<lambda>_.
     after (receive_answer Ex_never c) (\<lambda>a. return (c, a)))))"

definition log_state :: "int \<Rightarrow> unit client_effect" where
  "log_state r = (if xa_named r then return () else throw Ex_std)"

definition commit_answer :: "uuid \<times> answer \<Rightarrow> int client_effect" where
  "commit_answer ca =
     (case snd ca of
        A_commit Stage_prepare state \<Rightarrow>
          after (log_state state) (\<lambda>_.
          after (read_state id) (\<lambda>s.
          if cl_commit_return s = Logged then after (inbox_discard (fst ca)) (\<lambda>_. return (xa_to_tx state))
          else after (receive_answer (cl_no_answer s) (fst ca)) (\<lambda>b.
            case b of A_commit _ state' \<Rightarrow> after (log_state state') (\<lambda>_. return (xa_to_tx state')) | _ \<Rightarrow> throw Ex_undefined)))
      | A_commit _ state \<Rightarrow> after (log_state state) (\<lambda>_. return (xa_to_tx state))
      | _ \<Rightarrow> throw Ex_undefined)"

definition local_commit :: "xatmi_client \<Rightarrow> work \<Rightarrow> bool" where
  "local_commit s w \<longleftrightarrow> wk_local w \<and> length (wk_resources w) + length (cl_fixed s) \<le> 1"

definition commit_work :: "work \<Rightarrow> int client_effect" where
  "commit_work w =
     after (read_state id) (\<lambda>s.
     if is_null (wk_trid w) then throw (Ex_tx TX_NO_BEGIN)
     else if t_owner (wk_trid w) \<noteq> cl_self s then throw (Ex_tx TX_PROTOCOL_ERROR)
     else if wk_state w \<noteq> T_active then throw (Ex_tx TX_PROTOCOL_ERROR)
     else if associated w then throw (Ex_tx TX_PROTOCOL_ERROR)
     else after (resources_end w TMSUCCESS) (\<lambda>_.
       if local_commit s w then
         (case wk_resources w of
            rm # _ \<Rightarrow> resource_commit rm w TMONEPHASE
          | [] \<Rightarrow> (case cl_fixed s of
              r # _ \<Rightarrow> resource_commit (ls_id r) w TMONEPHASE
            | [] \<Rightarrow> return TX_OK))
       else
         after (call_manager (M_commit (cl_self s) (wk_trid w) (fixed_ids s @ wk_resources w))) commit_answer))"

definition context_commit :: "int client_effect" where
  "context_commit =
     after (read_state current) (\<lambda>w.
     after (commit_work w) (\<lambda>r. if r = TX_OK then pop_transaction else return r))"

definition rollback_work :: "work \<Rightarrow> int client_effect" where
  "rollback_work w =
     after (read_state id) (\<lambda>s.
     if is_null (wk_trid w) then throw (Ex_tx TX_PROTOCOL_ERROR)
     else if t_owner (wk_trid w) \<noteq> cl_self s then throw (Ex_tx TX_PROTOCOL_ERROR)
     else after (resources_end w TMSUCCESS) (\<lambda>_.
       after (call_manager (M_rollback (cl_self s) (wk_trid w) (fixed_ids s @ wk_resources w))) (\<lambda>ca.
       case snd ca of
         A_rollback state \<Rightarrow> after (log_state state) (\<lambda>_. return (xa_to_tx state))
       | _ \<Rightarrow> throw Ex_undefined)))"

definition context_rollback :: "int client_effect" where
  "context_rollback =
     after (read_state current) (\<lambda>w.
     after (rollback_work w) (\<lambda>r. if r = TX_OK then pop_transaction else return r))"

subsection \<open>Settings\<close>

definition set_commit_return :: "int \<Rightarrow> int client_effect" where
  "set_commit_return v =
     (if v = 0 then after (change (\<lambda>s. s\<lparr>cl_commit_return := Completed\<rparr>)) (\<lambda>_. return TX_OK)
      else if v = 1 then after (change (\<lambda>s. s\<lparr>cl_commit_return := Logged\<rparr>)) (\<lambda>_. return TX_OK)
      else return TX_EINVAL)"

definition get_commit_return :: "int client_effect" where
  "get_commit_return = read_state (\<lambda>s. if cl_commit_return s = Completed then 0 else 1)"

fun control_code :: "tx_control \<Rightarrow> int" where
  "control_code Unchained = 0"
| "control_code Chained = 1"
| "control_code Stacked = 42"

definition set_transaction_control :: "int \<Rightarrow> int client_effect" where
  "set_transaction_control v =
     (if v = 0 then after (change (\<lambda>s. s\<lparr>cl_control := Unchained\<rparr>)) (\<lambda>_. return TX_OK)
      else if v = 1 then after (change (\<lambda>s. s\<lparr>cl_control := Chained\<rparr>)) (\<lambda>_. return TX_OK)
      else if v = 42 then after (change (\<lambda>s. s\<lparr>cl_control := Stacked\<rparr>)) (\<lambda>_. return TX_OK)
      else throw (Ex_tx TX_EINVAL))"

definition set_transaction_timeout :: "int \<Rightarrow> unit client_effect" where
  "set_transaction_timeout v = (if v < 0 then throw (Ex_tx TX_EINVAL) else change (\<lambda>s. s\<lparr>cl_timeout := v\<rparr>))"

record tx_info =
  ix_xid :: xid
  ix_when_return :: int
  ix_control :: int
  ix_timeout :: int
  ix_state :: int

text \<open>\<open>info\<close> fills in all but when to return.\<close>

definition context_info :: "tx_info option \<Rightarrow> (bool \<times> tx_info option) client_effect" where
  "context_info i = read_state (\<lambda>s.
     (\<not> is_null (wk_trid (current s)),
      map_option (\<lambda>i. i\<lparr>ix_xid := t_xid (wk_trid (current s)), ix_control := control_code (cl_control s),
        ix_timeout := cl_timeout s, ix_state := tx_state_code (wk_state (current s))\<rparr>) i))"

subsection \<open>Suspending and resuming\<close>

text \<open>The xid is returned; it is \<open>None\<close> when the caller gave no place for it.\<close>

definition context_suspend :: "bool \<Rightarrow> xid client_effect" where
  "context_suspend given =
     (if \<not> given then throw (Ex_tx TX_EINVAL)
      else after (read_state current) (\<lambda>w.
        if is_null (wk_trid w) then throw (Ex_tx TX_PROTOCOL_ERROR)
        else after (resources_end w TMSUSPEND) (\<lambda>_.
          after (push_transaction no_work) (\<lambda>_. return (t_xid (wk_trid w))))))"

text \<open>\<open>std::rotate\<close> by one moves the transaction that was found to the end.\<close>

fun move_last :: "('a \<Rightarrow> bool) \<Rightarrow> 'a list \<Rightarrow> 'a list" where
  "move_last P [] = []"
| "move_last P (x # xs) = (if P x then xs @ [x] else x # move_last P xs)"

definition context_resume :: "xid option \<Rightarrow> unit client_effect" where
  "context_resume given =
     (case given of
        None \<Rightarrow> throw (Ex_tx TX_EINVAL)
      | Some x \<Rightarrow>
          if xid_null x then throw (Ex_tx TX_EINVAL)
          else after (read_state id) (\<lambda>s.
            if \<not> is_null (wk_trid (current s)) then throw (Ex_tx TX_PROTOCOL_ERROR)
            else if wk_resources (current s) \<noteq> [] then throw (Ex_tx TX_OUTSIDE)
            else (case List.find (\<lambda>w. same_xid (t_xid (wk_trid w)) x) (cl_transactions s) of
                None \<Rightarrow> throw (Ex_tx TX_EINVAL)
              | Some w \<Rightarrow>
                  after (resources_start w TMRESUME) (\<lambda>_.
                  change (\<lambda>s. s\<lparr>cl_transactions :=
                    move_last (\<lambda>w. same_xid (t_xid (wk_trid w)) x) (butlast (cl_transactions s))\<rparr>)))))"

section \<open>The AX interface\<close>

definition TM_OK :: int where "TM_OK = 0"
definition TM_RESUME :: int where "TM_RESUME = 1"
definition TMER_INVAL :: int where "TMER_INVAL = - 2"
definition TMER_PROTO :: int where "TMER_PROTO = - 3"

text \<open>\<open>resourceRegistration\<close>: the result, and the xid for the resource manager unless it is known already.\<close>

definition ax_reg :: "int \<Rightarrow> (int \<times> xid option) client_effect" where
  "ax_reg rm = after (read_state id) (\<lambda>s.
     if rm \<notin> ls_id ` set (cl_dynamic s) then return (TMER_INVAL, None)
     else if rm \<in> set (wk_resources (current s)) then return (TM_RESUME, None)
     else after (change (change_current (\<lambda>w. w\<lparr>wk_resources := wk_resources w @ [rm]\<rparr>))) (\<lambda>_.
       return (TM_OK, Some (t_xid (wk_trid (current s))))))"

definition ax_unreg :: "int \<Rightarrow> int client_effect" where
  "ax_unreg rm = after (read_state id) (\<lambda>s.
     if is_null (wk_trid (current s)) \<and> rm \<in> set (wk_resources (current s))
     then after (change (change_current (\<lambda>w. w\<lparr>wk_resources := remove1 rm (wk_resources w)\<rparr>))) (\<lambda>_. return TM_OK)
     else return TMER_PROTO)"

section \<open>The TX interface\<close>

text \<open>\<open>error::tx::handler\<close>\<close>

definition tx_handler :: "client_exn \<Rightarrow> int client_effect" where
  "tx_handler e =
     (case e of
        Ex_never \<Rightarrow> throw e
      | Ex_undefined \<Rightarrow> throw e
      | Ex_tx code \<Rightarrow> return (if code \<in> {TX_PROTOCOL_ERROR, TX_FAIL, TX_NOT_SUPPORTED, TX_NO_BEGIN} then code else TX_FAIL)
      | _ \<Rightarrow> return TX_FAIL)"

definition tx_begin :: "int client_effect" where
  "tx_begin = catch context_begin tx_handler"

definition tx_commit :: "int client_effect" where
  "tx_commit = catch context_commit tx_handler"

definition tx_rollback :: "int client_effect" where
  "tx_rollback = catch context_rollback tx_handler"

definition tx_open :: "int client_effect" where
  "tx_open = catch (after context_open (\<lambda>_. return TX_OK)) tx_handler"

definition tx_close :: "int client_effect" where
  "tx_close = catch (after context_close (\<lambda>_. return TX_OK)) tx_handler"

definition tx_set_commit_return :: "int \<Rightarrow> int client_effect" where
  "tx_set_commit_return v = catch (set_commit_return v) tx_handler"

definition tx_set_transaction_control :: "int \<Rightarrow> int client_effect" where
  "tx_set_transaction_control v = catch (set_transaction_control v) tx_handler"

definition tx_set_transaction_timeout :: "int \<Rightarrow> int client_effect" where
  "tx_set_transaction_timeout v = catch (after (set_transaction_timeout v) (\<lambda>_. return TX_OK)) tx_handler"

definition tx_info_call :: "tx_info option \<Rightarrow> (int \<times> tx_info option) client_effect" where
  "tx_info_call i = catch (after (context_info i) (\<lambda>(b, i'). return (if b then 1 else 0, i')))
     (\<lambda>e. after (tx_handler e) (\<lambda>r. return (r, i)))"

definition tx_suspend :: "bool \<Rightarrow> (int \<times> xid option) client_effect" where
  "tx_suspend given = catch (after (context_suspend given) (\<lambda>x. return (TX_OK, Some x)))
     (\<lambda>e. after (tx_handler e) (\<lambda>r. return (r, None)))"

definition tx_resume :: "xid option \<Rightarrow> int client_effect" where
  "tx_resume given = catch (after (context_resume given) (\<lambda>_. return TX_OK)) tx_handler"

definition tx_get_commit_return :: "int client_effect" where
  "tx_get_commit_return = catch get_commit_return tx_handler"

end
