(* ===== verification/Call_Context.thy ===== *)
theory Call_Context
  imports Transaction_Context
begin

text \<open>
  The calls of a process to services (\<open>common/call\<close>): descriptors of the replies it waits for, the lookup of a
  service by the broker, and the XATMI functions on top (\<open>xatmi/source/xatmi.cpp\<close>). No callback of the buffer
  transport is registered in this repository, so its dispatch only looks up the type of the buffer.
\<close>

section \<open>Flags\<close>

definition TPNOBLOCK :: int where "TPNOBLOCK = 0x1"
definition TPNOREPLY :: int where "TPNOREPLY = 0x4"
definition TPNOTRAN :: int where "TPNOTRAN = 0x8"
definition TPNOTIME :: int where "TPNOTIME = 0x20"
definition TPGETANY :: int where "TPGETANY = 0x80"
definition TPNOCHANGE :: int where "TPNOCHANGE = 0x100"

definition has_flag :: "int \<Rightarrow> int \<Rightarrow> bool" where
  "has_flag f flags \<longleftrightarrow> flags AND f = f"

section \<open>Pending descriptors\<close>

definition initial_pending :: "call_descriptor list" where
  "initial_pending = map (\<lambda>i. \<lparr>de_descriptor = i, de_active = False, de_correlation = nil_uuid, de_timeout = no_timeout\<rparr>) [1..8]"

text \<open>
  \<open>reserve\<close>: the first descriptor that is not active, with the start of its old timeout, or a new one. It is given the
  correlation.
\<close>

definition pending_reserve :: "uuid \<Rightarrow> call_descriptor list \<Rightarrow> call_descriptor \<times> call_descriptor list" where
  "pending_reserve c ds =
     (case List.find (\<lambda>d. \<not> de_active d) ds of
        Some d \<Rightarrow>
          (let d' = d\<lparr>de_active := True, de_timeout := (de_timeout d)\<lparr>to_timeout := 0\<rparr>, de_correlation := c\<rparr>
           in (d', upd_first (\<lambda>d. \<not> de_active d) (\<lambda>_. d') ds))
      | None \<Rightarrow>
          (let d' = \<lparr>de_descriptor = de_descriptor (last ds) + 1, de_active = True, de_correlation = c, de_timeout = no_timeout\<rparr>
           in (d', ds @ [d'])))"

definition unreserve :: "int \<Rightarrow> unit client_effect" where
  "unreserve cd = after (read_state cl_pending) (\<lambda>ds.
     if \<exists>d\<in>set ds. de_descriptor d = cd
     then change (\<lambda>s. s\<lparr>cl_pending := upd_first (\<lambda>d. de_descriptor d = cd) (\<lambda>d. d\<lparr>de_active := False\<rparr>) (cl_pending s)\<rparr>)
     else throw (Ex_xatmi TPEBADDESC))"

definition pending_active :: "int \<Rightarrow> call_descriptor list \<Rightarrow> bool" where
  "pending_active cd ds = (case List.find (\<lambda>d. de_descriptor d = cd) ds of Some d \<Rightarrow> de_active d | None \<Rightarrow> False)"

definition pending_get :: "int \<Rightarrow> call_descriptor client_effect" where
  "pending_get cd = after (read_state cl_pending) (\<lambda>ds.
     case List.find (\<lambda>d. de_descriptor d = cd) ds of
       Some d \<Rightarrow> if de_active d then return d else throw (Ex_xatmi TPEBADDESC)
     | None \<Rightarrow> throw (Ex_xatmi TPEBADDESC))"

definition pending_empty :: "xatmi_client \<Rightarrow> bool" where
  "pending_empty s \<longleftrightarrow> list_all (\<lambda>d. \<not> de_active d) (cl_pending s)"

text \<open>The alarm for a deadline; one that has passed is raised at once, by a timer without time.\<close>

definition set_deadline :: "int option \<Rightarrow> int \<Rightarrow> unit client_effect" where
  "set_deadline d start = record_event (case d of None \<Rightarrow> Timer_unset | Some t \<Rightarrow> Timer_set (t - start))"

definition pending_deadline :: "int \<Rightarrow> int \<Rightarrow> unit client_effect" where
  "pending_deadline cd start =
     (if cd = 0 then set_deadline None start
      else after (pending_get cd) (\<lambda>d. set_deadline (deadline (de_timeout d)) start))"

definition pending_discard :: "int \<Rightarrow> unit client_effect" where
  "pending_discard cd = after (read_state (associated_active cd)) (\<lambda>b.
     if b then throw (Ex_xatmi TPETRAN)
     else after (pending_get cd) (\<lambda>d. after (inbox_discard (de_correlation d)) (\<lambda>_. unreserve cd)))"

section \<open>Lookup\<close>

text \<open>
  \<open>service::Lookup\<close>: the request is sent by the constructor; the correlation is kept until no further answer is
  expected, and the destructor discards what may still come.
\<close>

definition lookup_send :: "string \<Rightarrow> lookup_context \<Rightarrow> uuid client_effect" where
  "lookup_send name ctx =
     after make_uuid (\<lambda>c.
     after (read_state id) (\<lambda>s.
     after (client_send (cl_broker s) (M_lookup name (cl_self s) ctx)) (\<lambda>_. return c)))"

definition lookup_receive :: "uuid \<Rightarrow> (lookup_answer \<times> uuid) client_effect" where
  "lookup_receive c =
     after (read_state cl_no_answer) (\<lambda>e.
     after (receive_answer e c) (\<lambda>a.
     case a of
       A_lookup l \<Rightarrow> return (l, if la_state l \<noteq> L_busy then nil_uuid else c)
     | _ \<Rightarrow> throw Ex_undefined))"

definition lookup_end :: "uuid \<Rightarrow> unit client_effect" where
  "lookup_end c = (if c \<noteq> nil_uuid then inbox_discard c else return ())"

section \<open>Calls\<close>

definition validate_input :: "int \<Rightarrow> lookup_context client_effect" where
  "validate_input flags = after (read_state current) (\<lambda>w.
     if has_flag TPNOREPLY flags \<and> \<not> has_flag TPNOTRAN flags \<and> \<not> is_null (wk_trid w) then throw (Ex_xatmi TPEINVAL)
     else return (if has_flag TPNOREPLY flags then No_reply else Regular))"

text \<open>\<open>prepare::message\<close>: reserves a descriptor, and associates it with the transaction.\<close>

definition set_descriptor :: "(call_descriptor \<Rightarrow> call_descriptor) \<Rightarrow> int \<Rightarrow> unit client_effect" where
  "set_descriptor f cd = change (\<lambda>s. s\<lparr>cl_pending := upd_first (\<lambda>d. de_descriptor d = cd) f (cl_pending s)\<rparr>)"

definition reserve_for_call :: "uuid \<Rightarrow> call_descriptor client_effect" where
  "reserve_for_call c s = (case pending_reserve c (cl_pending s) of (d, ds) \<Rightarrow> (Inr d, s\<lparr>cl_pending := ds\<rparr>))"

definition call_timeout :: "int \<Rightarrow> int \<Rightarrow> service_info \<Rightarrow> timeout \<Rightarrow> timeout" where
  "call_timeout flags start v t =
     (if has_flag TPNOTIME flags then t else \<lparr>to_start = start, to_timeout = si_timeout v\<rparr>)"

definition transaction_timeout :: "int \<Rightarrow> timeout \<Rightarrow> timeout \<Rightarrow> timeout" where
  "transaction_timeout start tx t =
     (if earlier (deadline tx) (deadline t) then \<lparr>to_start = start, to_timeout = the (deadline tx) - start\<rparr> else t)"

definition prepare_message :: "int \<Rightarrow> int \<Rightarrow> int \<Rightarrow> int \<Rightarrow> string \<Rightarrow> service_info \<Rightarrow> service_request client_effect" where
  "prepare_message start idata ilen flags parent v =
     after (on_buffers (holder_get_size idata ilen)) (\<lambda>buffer.
     after make_uuid (\<lambda>c.
     after (read_state id) (\<lambda>s0.
     let message = \<lparr>cc_correlation = c, cc_descriptor = 0, cc_process = cl_self s0, cc_service = v, cc_parent = parent,
           cc_trid = null_trid, cc_flags = flags, cc_buffer = sent_payload buffer\<rparr>
     in if has_flag TPNOREPLY flags then return message
        else after (reserve_for_call c) (\<lambda>d.
          after (read_state current) (\<lambda>w.
          let t = call_timeout flags start v (de_timeout d);
              bound = \<not> has_flag TPNOTRAN flags \<and> \<not> is_null (wk_trid w);
              t' = (if bound then transaction_timeout start (wk_timeout w) t else t)
          in after (set_descriptor (\<lambda>d. d\<lparr>de_timeout := t'\<rparr>) (de_descriptor d)) (\<lambda>_.
             after (if bound then change (change_current (associate (de_descriptor d))) else return ()) (\<lambda>_.
             return (message\<lparr>cc_descriptor := de_descriptor d, cc_trid := (if bound then wk_trid w else null_trid),
               cc_service := v\<lparr>si_timeout := to_timeout t'\<rparr>\<rparr>))))))))"

text \<open>
  \<open>async\<close>. When the call does not succeed after the descriptor was reserved, the descriptor is given back and
  the broker is told that the instance is free again, by guards; the lookup discards the answer it still waits for.
\<close>

definition call_guards :: "int \<Rightarrow> lookup_answer \<Rightarrow> unit client_effect" where
  "call_guards cd target =
     after (read_state cl_broker) (\<lambda>q.
     after (guarded (client_send q (M_ack (si_name (la_service target)) (la_process target)))) (\<lambda>_.
     guarded (unreserve cd)))"

definition async_send :: "service_request \<Rightarrow> lookup_answer \<Rightarrow> uuid \<Rightarrow> int client_effect" where
  "async_send message target c =
     after (on_error
       (client_send (ph_queue (la_process target)) (M_call (message\<lparr>cc_service := la_service target\<rparr>)))
       (after (record_event Timer_unset) (\<lambda>_.
        after (call_guards (cc_descriptor message) target) (\<lambda>_. lookup_end c)))) (\<lambda>_.
     after (record_event Timer_unset) (\<lambda>_.
     after (lookup_end c) (\<lambda>_. return (cc_descriptor message))))"

definition async_target :: "service_request \<Rightarrow> lookup_answer \<Rightarrow> uuid \<Rightarrow> int \<Rightarrow> int client_effect" where
  "async_target message target c start =
     after (on_error (pending_deadline (cc_descriptor message) start)
       (after (call_guards (cc_descriptor message) target) (\<lambda>_. lookup_end c))) (\<lambda>_.
     if la_state target = L_busy then
       after (on_error (lookup_receive c)
         (after (record_event Timer_unset) (\<lambda>_.
          after (call_guards (cc_descriptor message) target) (\<lambda>_. lookup_end c)))) (\<lambda>(target', c').
       async_send message target' c')
     else async_send message target c)"

definition call_async :: "string \<Rightarrow> int \<Rightarrow> int \<Rightarrow> int \<Rightarrow> int client_effect" where
  "call_async service idata ilen flags =
     after (validate_input flags) (\<lambda>ctx.
     after (lookup_send service ctx) (\<lambda>c.
     after (on_error
       (after clock_now (\<lambda>start. after (on_buffers (holder_type idata)) (\<lambda>_. after (lookup_receive c) (\<lambda>t. return (start, t)))))
       (lookup_end c)) (\<lambda>(start, target, c').
     after (on_error
       (if la_state target = L_absent then throw (Ex_xatmi TPENOENT)
        else after (read_state cl_service) (\<lambda>parent. prepare_message start idata ilen flags parent (la_service target)))
       (lookup_end c')) (\<lambda>message.
     async_target message target c' start))))"

subsection \<open>Replies\<close>

text \<open>\<open>Context::update\<close> of the transactions\<close>

definition tx_state_max :: "tx_state \<Rightarrow> tx_state \<Rightarrow> tx_state" where
  "tx_state_max s t = (if tx_state_code s < tx_state_code t then t else s)"

definition context_update :: "call_answer \<Rightarrow> unit client_effect" where
  "context_update r = after (read_state cl_transactions) (\<lambda>ws.
     let same = (\<lambda>w. same_trid (wk_trid w) (re_trid r))
     in if \<not> is_null (re_trid r) then
          if \<exists>w\<in>set ws. same w then
            change (\<lambda>s. s\<lparr>cl_transactions := upd_first same
              (\<lambda>w. discard_descriptor (re_descriptor r) (w\<lparr>wk_state := tx_state_max (wk_state w) (tx_state_of (re_state r))\<rparr>))
              (cl_transactions s)\<rparr>)
          else throw (Ex_xatmi TPESYSTEM)
        else change (\<lambda>s. s\<lparr>cl_transactions := map (discard_descriptor (re_descriptor r)) (cl_transactions s)\<rparr>))"

definition reply_receive :: "int \<Rightarrow> int \<Rightarrow> answer option client_effect" where
  "reply_receive cd flags =
     (if cd = 0 then receive_first (\<not> has_flag TPNOBLOCK flags) is_call
      else after (pending_get cd) (\<lambda>d. receive_first (\<not> has_flag TPNOBLOCK flags) (\<lambda>x. fst x = de_correlation d)))"

text \<open>The descriptor, the buffer and its size; the buffer of the user is given up.\<close>

definition reply_buffer :: "call_answer \<Rightarrow> int \<Rightarrow> int \<Rightarrow> (int \<times> int \<times> nat) client_effect" where
  "reply_buffer r odata flags =
     after (context_update r) (\<lambda>_.
     after (if odata \<noteq> 0 \<and> has_flag TPNOCHANGE flags then
              after (on_buffers (holder_get odata)) (\<lambda>b.
              if pay_type (sb_payload b) \<noteq> pay_type (re_buffer r) then throw (Ex_xatmi TPEOTYPE) else return ())
            else return ()) (\<lambda>_.
     after (on_buffers (holder_deallocate odata)) (\<lambda>_.
     after (on_buffers (holder_insert (re_buffer r))) (\<lambda>a.
     return (re_descriptor r, a, length (pay_memory (re_buffer r)))))))"

definition call_reply_to :: "int \<Rightarrow> int \<Rightarrow> int \<Rightarrow> (int \<times> int \<times> nat) client_effect" where
  "call_reply_to descriptor odata flags =
     after clock_now (\<lambda>start.
     let cd = (if has_flag TPGETANY flags then 0 else descriptor)
     in after (pending_deadline cd start) (\<lambda>_.
        and_finally
          (after (reply_receive cd flags) (\<lambda>a.
           case a of
             None \<Rightarrow> throw (Ex_xatmi TPEBLOCK)
           | Some (A_call r) \<Rightarrow>
               after (change (\<lambda>s. s\<lparr>cl_user_code := re_code r\<rparr>)) (\<lambda>_.
               and_finally (reply_buffer r odata flags) (guarded (unreserve (re_descriptor r))))
           | Some _ \<Rightarrow> throw Ex_undefined))
          (record_event Timer_unset)))"

definition call_sync :: "string \<Rightarrow> int \<Rightarrow> int \<Rightarrow> int \<Rightarrow> int \<Rightarrow> (int \<times> int \<times> nat) client_effect" where
  "call_sync service idata ilen odata flags =
     (let supported = NOT TPNOBLOCK AND flags
      in after (call_async service idata ilen supported) (\<lambda>cd. call_reply_to cd odata supported))"

definition call_cancel :: "int \<Rightarrow> unit client_effect" where
  "call_cancel cd = pending_discard cd"

section \<open>The XATMI interface\<close>

text \<open>\<open>error::handler\<close>: the code that becomes \<open>tperrno\<close>.\<close>

fun error_code :: "client_exn \<Rightarrow> int" where
  "error_code Ex_shutdown = 0"
| "error_code Ex_terminate = 0"
| "error_code Ex_process = - 1"
| "error_code (Ex_xatmi code) = code"
| "error_code (Ex_tx code) = code"
| "error_code _ = TPESYSTEM"

text \<open>The result of a function, and \<open>tperrno\<close>.\<close>

definition xatmi_result :: "'a client_effect \<Rightarrow> ('a \<Rightarrow> int) \<Rightarrow> (int \<times> int \<times> 'a option) client_effect" where
  "xatmi_result f g = catch (after f (\<lambda>x. return (g x, 0, Some x)))
     (\<lambda>e. if unwinds e then return (- 1, error_code e, None) else throw e)"

definition tpcall :: "string option \<Rightarrow> int \<Rightarrow> int \<Rightarrow> int \<Rightarrow> int \<Rightarrow> (int \<times> int \<times> (int \<times> int \<times> nat) option) client_effect" where
  "tpcall svc idata ilen odata flags =
     after (change (\<lambda>s. s\<lparr>cl_user_code := 0\<rparr>)) (\<lambda>_.
     case svc of
       None \<Rightarrow> return (- 1, TPEINVAL, None)
     | Some service \<Rightarrow> xatmi_result (call_sync service idata ilen odata flags) (\<lambda>_. 0))"

definition tpacall :: "string option \<Rightarrow> int \<Rightarrow> int \<Rightarrow> int \<Rightarrow> (int \<times> int \<times> int option) client_effect" where
  "tpacall svc idata ilen flags =
     after (change (\<lambda>s. s\<lparr>cl_user_code := 0\<rparr>)) (\<lambda>_.
     case svc of
       None \<Rightarrow> return (- 1, TPEINVAL, None)
     | Some service \<Rightarrow> xatmi_result (call_async service idata ilen flags) (\<lambda>cd. cd))"

definition tpgetrply :: "int \<Rightarrow> int \<Rightarrow> int \<Rightarrow> (int \<times> int \<times> (int \<times> int \<times> nat) option) client_effect" where
  "tpgetrply cd odata flags = xatmi_result (call_reply_to cd odata flags) (\<lambda>_. 0)"

definition tpcancel :: "int \<Rightarrow> (int \<times> int \<times> unit option) client_effect" where
  "tpcancel cd = xatmi_result (call_cancel cd) (\<lambda>_. 0)"

section \<open>Buffers\<close>

text \<open>The address, none for an error, and \<open>tperrno\<close>. An exception of \<open>tpfree\<close> leaves the function.\<close>

definition buffer_address :: "int client_effect \<Rightarrow> (int \<times> int) client_effect" where
  "buffer_address f = catch (after f (\<lambda>a. return (a, 0)))
     (\<lambda>e. if unwinds e then return (0, error_code e) else throw e)"

definition tpalloc :: "string \<Rightarrow> string \<Rightarrow> int \<Rightarrow> (int \<times> int) client_effect" where
  "tpalloc ty sub n = buffer_address (on_buffers (holder_allocate (ty, sub) (nat n)))"

definition tprealloc :: "int \<Rightarrow> int \<Rightarrow> (int \<times> int) client_effect" where
  "tprealloc a n = buffer_address (on_buffers (holder_reallocate a (nat n)))"

text \<open>The names are copied to 8 and 16 characters when the caller wants them; longer ones meet an assertion.\<close>

definition tptypes :: "int \<Rightarrow> bool \<Rightarrow> bool \<Rightarrow> (int \<times> int \<times> (int \<times> buffer_type) option) client_effect" where
  "tptypes a wants_type wants_subtype =
     xatmi_result (after (on_buffers (holder_get a)) (\<lambda>b.
       let ty = pay_type (sb_payload b)
       in if wants_type \<and> length (fst ty) > 8 \<or> wants_subtype \<and> length (snd ty) > 16 then throw Ex_undefined
          else return (int (sb_reserved b), ty))) fst"

definition tpfree :: "int \<Rightarrow> unit client_effect" where
  "tpfree a = on_buffers (holder_deallocate a)"

end
