(* ===== verification/Service_Call.thy ===== *)
theory Service_Call
  imports Call_Context
begin

text \<open>
  A server (\<open>common/server\<close>): how a request is dispatched to the function of its service, with the transaction that
  is joined or started for it, the reply, and the acknowledgement to the broker. The functions of the services are
  the application's, a parameter: what they do to the state, and how they end.
\<close>

section \<open>Consuming the transactions\<close>

text \<open>
  \<open>Context::finalize\<close>. The reply is changed by reference: it is part of the state. Calls whose replies are pending
  are cancelled, and their transaction can only be rolled back.
\<close>

definition set_reply :: "(call_answer \<Rightarrow> call_answer) \<Rightarrow> unit client_effect" where
  "set_reply f = change (\<lambda>s. s\<lparr>cl_reply := f (cl_reply s)\<rparr>)"

definition pending_check :: "work \<Rightarrow> work client_effect" where
  "pending_check w =
     (if associated w then
        after (if \<not> is_null (wk_trid w) then set_reply (\<lambda>r. r\<lparr>re_error := TPESVCERR\<rparr>) else return ()) (\<lambda>_.
        after (for_each call_cancel (wk_descriptors w)) (\<lambda>_.
        return (if \<not> is_null (wk_trid w) then w\<lparr>wk_state := T_rollback\<rparr> else w)))
      else return w)"

fun pending_checks :: "work list \<Rightarrow> work list client_effect" where
  "pending_checks [] = return []"
| "pending_checks (w # ws) = after (pending_check w) (\<lambda>w'. after (pending_checks ws) (\<lambda>ws'. return (w' # ws')))"

definition finish_rollback :: "work \<Rightarrow> unit client_effect" where
  "finish_rollback w = after (rollback_work w) (\<lambda>r.
     if r \<noteq> TX_OK then set_reply (\<lambda>r. r\<lparr>re_error := TPESVCERR\<rparr>) else return ())"

definition finish_owned :: "int \<Rightarrow> work \<Rightarrow> unit client_effect" where
  "finish_owned rval w =
     (if rval = TPSUCCESS \<and> wk_state w = T_active then
        after (commit_work w) (\<lambda>r. if r \<noteq> TX_OK then set_reply (\<lambda>r. r\<lparr>re_error := TPESVCERR\<rparr>) else return ())
      else finish_rollback w)"

text \<open>More than one transaction of another process meets an assertion.\<close>

definition finish_caller :: "int \<Rightarrow> work list \<Rightarrow> unit client_effect" where
  "finish_caller rval ws =
     (if length ws > 1 then throw Ex_undefined
      else after (read_state cl_caller) (\<lambda>caller.
        after (case List.find (\<lambda>w. same_trid (wk_trid w) caller) ws of
            None \<Rightarrow> return ()
          | Some w \<Rightarrow>
              after (set_reply (\<lambda>r. r\<lparr>re_state := tx_state_code (if rval = TPSUCCESS then wk_state w else T_rollback)\<rparr>)) (\<lambda>_.
              after (read_state fixed_ids) (\<lambda>ids.
              let involved = ids @ wk_resources w
              in after (if \<not> is_null (wk_trid w) \<and> involved \<noteq> [] then send_involved (wk_trid w) involved else return ()) (\<lambda>_.
                 resources_end w TMSUCCESS)))) (\<lambda>_.
        after (set_reply (\<lambda>r. r\<lparr>re_trid := caller\<rparr>)) (\<lambda>_.
        change (\<lambda>s. s\<lparr>cl_caller := snd (move_id (cl_caller s))\<rparr>)))))"

definition context_finalize :: "int \<Rightarrow> unit client_effect" where
  "context_finalize rval =
     after (read_state id) (\<lambda>s.
     after (change (\<lambda>s. s\<lparr>cl_transactions := []\<rparr>)) (\<lambda>_.
     after (if rval = TPESVCERR \<or> rval = TPSUCCESS then return () else set_reply (\<lambda>r. r\<lparr>re_error := TPESVCFAIL\<rparr>)) (\<lambda>_.
     after (pending_checks (cl_transactions s)) (\<lambda>ws.
     let actual = filter (\<lambda>w. \<not> is_null (wk_trid w)) ws;
         owned = filter (\<lambda>w. t_owner (wk_trid w) = cl_self s) actual;
         others = filter (\<lambda>w. t_owner (wk_trid w) \<noteq> cl_self s) actual
     in after (for_each (finish_owned rval) owned) (\<lambda>_. finish_caller rval others)))))"

section \<open>The policy of servers\<close>

definition policy_ack :: "service_request \<Rightarrow> unit client_effect" where
  "policy_ack m = after (read_state id) (\<lambda>s. client_send (cl_broker s) (M_ack (si_name (cc_service m)) (cl_self s)))"

definition policy_reply :: "service_request \<Rightarrow> unit client_effect" where
  "policy_reply m = after (read_state cl_reply) (\<lambda>r. client_send (ph_queue (cc_process m)) (M_reply r))"

definition policy_statistics :: "service_request \<Rightarrow> int \<Rightarrow> unit client_effect" where
  "policy_statistics m q = guarded (client_send q (M_traffic (si_name (cc_service m))))"

definition policy_transaction :: "service_request \<Rightarrow> transaction_mode \<Rightarrow> int \<Rightarrow> unit client_effect" where
  "policy_transaction m mode start =
     after (change (\<lambda>s. s\<lparr>cl_caller := cc_trid m\<rparr>)) (\<lambda>_.
     after (case mode of
         Mode_automatic \<Rightarrow> if \<not> is_null (cc_trid m) then context_join (cc_trid m) else context_start start
       | Mode_join \<Rightarrow> context_join (cc_trid m)
       | Mode_atomic \<Rightarrow> context_start start
       | Mode_none \<Rightarrow> after (read_state cl_self) (\<lambda>self. context_join (null_id self))) (\<lambda>_.
     change (change_current (\<lambda>w. w\<lparr>wk_timeout := \<lparr>to_start = start, to_timeout = si_timeout (cc_service m)\<rparr>\<rparr>))))"

text \<open>How a service ends: by \<open>tpreturn\<close>, by a forward, or by returning without either.\<close>

datatype jump = J_return int int int int | J_forward string int int | J_none

definition forward_message :: "service_request \<Rightarrow> payload \<Rightarrow> service_request" where
  "forward_message m buffer = m\<lparr>cc_parent := si_name (cc_service m), cc_buffer := buffer\<rparr>"

text \<open>\<open>Default::forward\<close>\<close>

definition policy_forward :: "service_request \<Rightarrow> string \<Rightarrow> int \<Rightarrow> int \<Rightarrow> unit client_effect" where
  "policy_forward m service data len =
     after (read_state pending_transactions) (\<lambda>b.
     if b then throw (Ex_xatmi TPESVCERR)
     else
       after (lookup_send service Forward) (\<lambda>c.
       after (on_error
         (after (if data = 0 then return null_payload else on_buffers (holder_release data len)) (\<lambda>buffer.
          after (lookup_receive c) (\<lambda>t. return (buffer, t))))
         (lookup_end c)) (\<lambda>(buffer, target, c').
       if la_state target = L_absent then after (lookup_end c') (\<lambda>_. throw (Ex_xatmi TPENOENT))
       else
         after (if la_state target = L_busy then on_error (lookup_receive c') (lookup_end c') else return (target, c')) (\<lambda>(target', c'').
         and_finally
           (client_send (ph_queue (la_process target')) (M_call ((forward_message m buffer)\<lparr>cc_service := la_service target'\<rparr>)))
           (lookup_end c'')))))"

section \<open>Dispatch\<close>

record call_information =
  ci_name :: string
  ci_data :: int
  ci_len :: nat
  ci_cd :: int
  ci_flags :: int

definition XATMI_SERVICE_NAME_LENGTH :: nat where "XATMI_SERVICE_NAME_LENGTH = 128"

definition initial_reply :: "service_request \<Rightarrow> call_answer" where
  "initial_reply m = \<lparr>re_correlation = cc_correlation m, re_descriptor = cc_descriptor m, re_error = TPESVCERR, re_code = 0,
     re_buffer = null_payload, re_trid = null_trid, re_state = 0\<rparr>"

definition service_information :: "service_request \<Rightarrow> call_information client_effect" where
  "service_information m =
     after (on_buffers (holder_adopt (cc_buffer m))) (\<lambda>a.
     return \<lparr>ci_name = take XATMI_SERVICE_NAME_LENGTH (si_name (cc_service m)), ci_data = a,
       ci_len = length (pay_memory (cc_buffer m)), ci_cd = cc_descriptor m, ci_flags = cc_flags m\<rparr>)"

text \<open>\<open>transform::reply\<close> with the result of the service\<close>

definition reply_with :: "int \<Rightarrow> int \<Rightarrow> int \<Rightarrow> unit client_effect" where
  "reply_with code data len =
     after (set_reply (\<lambda>r. r\<lparr>re_code := code, re_error := 0\<rparr>)) (\<lambda>_.
     if data \<noteq> 0 then
       catch (after (on_buffers (holder_release data len)) (\<lambda>b. set_reply (\<lambda>r. r\<lparr>re_buffer := b\<rparr>)))
         (\<lambda>_. set_reply (\<lambda>r. r\<lparr>re_error := TPESVCERR\<rparr>))
     else set_reply (\<lambda>r. r\<lparr>re_buffer := null_payload\<rparr>))"

definition server_finalize :: "unit client_effect" where
  "server_finalize = after (on_buffers holder_clear) (\<lambda>_. change (\<lambda>s. s\<lparr>cl_service := '''', cl_parent := ''''\<rparr>))"

definition send_service_reply :: "service_request \<Rightarrow> unit client_effect" where
  "send_service_reply m = (if has_flag TPNOREPLY (cc_flags m) then return () else policy_reply m)"

definition monitor_call :: "service_request \<Rightarrow> unit client_effect" where
  "monitor_call m = for_each (policy_statistics m) (si_monitors (cc_service m))"

text \<open>The call of the function; an exception from it is logged.\<close>

type_synonym services = "int \<Rightarrow> call_information \<Rightarrow> jump client_effect"

definition call_function :: "services \<Rightarrow> server_service \<Rightarrow> call_information \<Rightarrow> jump client_effect" where
  "call_function functions v i = catch (functions (ss_function v) i) (\<lambda>e. if unwinds e then return J_none else throw e)"

text \<open>Until the error guard is released: the value of \<open>tpreturn\<close>, or nothing after a forward.\<close>

definition finish_service :: "service_request \<Rightarrow> jump \<Rightarrow> int option client_effect" where
  "finish_service m j =
     (case j of
        J_none \<Rightarrow> throw (Ex_xatmi TPESVCERR)
      | J_forward service data len \<Rightarrow>
          after (read_state id) (\<lambda>s.
          if \<not> pending_empty s then throw (Ex_xatmi TPESVCERR)
          else if map_of (cl_services s) service \<noteq> None then throw (Ex_xatmi TPESVCERR)
          else after (policy_forward m service data len) (\<lambda>_. return None))
      | J_return rval code data len \<Rightarrow>
          after (on_buffers (holder_type data)) (\<lambda>_.
          after (reply_with code data len) (\<lambda>_. return (Some rval))))"

definition dispatch_service :: "services \<Rightarrow> service_request \<Rightarrow> int option client_effect" where
  "dispatch_service functions m =
     after clock_now (\<lambda>start.
     after (read_state cl_services) (\<lambda>vs.
     case map_of vs (si_name (cc_service m)) of
       None \<Rightarrow> throw (Ex_xatmi TPESYSTEM)
     | Some v \<Rightarrow>
         after (change (\<lambda>s. s\<lparr>cl_service := si_name (cc_service m), cl_parent := cc_parent m\<rparr>)) (\<lambda>_.
         after (policy_transaction m (ss_transaction v) start) (\<lambda>_.
         after (service_information m) (\<lambda>i.
         after (on_buffers (holder_type (ci_data i))) (\<lambda>_.
         after (call_function functions v i) (finish_service m)))))))"

text \<open>The guards, in the order they are run by an exception, and the end of a call that went well.\<close>

definition error_guards :: "service_request \<Rightarrow> unit client_effect" where
  "error_guards m =
     after (guarded (context_finalize TPESVCERR)) (\<lambda>_. after (guarded (send_service_reply m)) (\<lambda>_. guarded (policy_ack m)))"

definition finish_call :: "service_request \<Rightarrow> int \<Rightarrow> unit client_effect" where
  "finish_call m rval =
     after (on_error (policy_ack m)
       (after (monitor_call m) (\<lambda>_. after (guarded (context_finalize rval)) (\<lambda>_. guarded (send_service_reply m))))) (\<lambda>_.
     after (on_error (context_finalize rval) (after (monitor_call m) (\<lambda>_. guarded (send_service_reply m)))) (\<lambda>_.
     after (on_error (send_service_reply m) (monitor_call m)) (\<lambda>_.
     monitor_call m)))"

definition dispatch_guarded :: "services \<Rightarrow> service_request \<Rightarrow> unit client_effect" where
  "dispatch_guarded functions m =
     after (on_error (dispatch_service functions m) (error_guards m)) (\<lambda>returned.
     case returned of
       None \<Rightarrow> guarded (policy_ack m)
     | Some rval \<Rightarrow> finish_call m rval)"

definition dispatch_call :: "services \<Rightarrow> service_request \<Rightarrow> unit client_effect" where
  "dispatch_call functions m =
     after (set_reply (\<lambda>_. initial_reply m)) (\<lambda>_.
     and_finally (dispatch_guarded functions m) (guarded server_finalize))"

text \<open>\<open>operator ()\<close> logs what is thrown.\<close>

definition handle_service_call :: "services \<Rightarrow> service_request \<Rightarrow> unit client_effect" where
  "handle_service_call functions m = guarded (dispatch_call functions m)"

section \<open>Advertising services\<close>

fun mode_code :: "transaction_mode \<Rightarrow> nat" where
  "mode_code Mode_automatic = 0"
| "mode_code Mode_join = 1"
| "mode_code Mode_atomic = 2"
| "mode_code Mode_none = 3"

text \<open>\<open>unordered_map::emplace\<close> keeps what there is.\<close>

definition emplace_service :: "string \<Rightarrow> server_service \<Rightarrow> (string \<times> server_service) list \<Rightarrow> (string \<times> server_service) list" where
  "emplace_service name v vs = (if map_of vs name = None then (name, v) # vs else vs)"

text \<open>
  \<open>advertise\<close>: a function that is new is moved into the list of the physical services, and its name with it; the
  string that was moved from is empty, and it is what the service is registered by.
\<close>

definition advertised_name :: "string \<Rightarrow> string" where
  "advertised_name name = (if length name \<ge> XATMI_SERVICE_NAME_LENGTH then take (XATMI_SERVICE_NAME_LENGTH - 1) name else name)"

definition server_advertise :: "string \<Rightarrow> int \<Rightarrow> unit client_effect" where
  "server_advertise name address =
     (let origin = advertised_name name;
          prospect = \<lparr>ss_origin = origin, ss_function = address, ss_type = 0, ss_transaction = Mode_automatic\<rparr>
      in after (read_state id) (\<lambda>s.
         case map_of (cl_services s) origin of
           Some v \<Rightarrow> if ss_function v \<noteq> address then throw (Ex_xatmi TPEMATCH) else return ()
         | None \<Rightarrow>
             after (case List.find (\<lambda>v. ss_function v = address) (cl_physical s) of
                 Some v \<Rightarrow> after (change (\<lambda>s. s\<lparr>cl_services := emplace_service origin v (cl_services s)\<rparr>)) (\<lambda>_. return v)
               | None \<Rightarrow> after (change (\<lambda>s. s\<lparr>cl_physical := cl_physical s @ [prospect],
                   cl_services := emplace_service '''' prospect (cl_services s)\<rparr>)) (\<lambda>_. return prospect)) (\<lambda>v.
             client_send (cl_broker s) (M_advertise (cl_self s) [(origin, ss_type v, mode_code (ss_transaction v))]))))"

definition server_unadvertise :: "string \<Rightarrow> unit client_effect" where
  "server_unadvertise name =
     after (read_state id) (\<lambda>s.
     if map_of (cl_services s) name = None then throw (Ex_xatmi TPENOENT)
     else after (change (\<lambda>s. s\<lparr>cl_services := filter (\<lambda>v. fst v \<noteq> name) (cl_services s)\<rparr>)) (\<lambda>_.
       client_send (cl_broker s) (M_unadvertise (cl_self s) [name])))"

definition tpadvertise :: "string \<Rightarrow> int \<Rightarrow> (int \<times> int \<times> unit option) client_effect" where
  "tpadvertise name address = xatmi_result (server_advertise name address) (\<lambda>_. 0)"

definition tpunadvertise :: "string \<Rightarrow> (int \<times> int \<times> unit option) client_effect" where
  "tpunadvertise name = xatmi_result (server_unadvertise name) (\<lambda>_. 0)"

end
