(* ===== verification/Client_Invariant.thy ===== *)
theory Client_Invariant
  imports Service_Call
begin

text \<open>
  What every operation of a process keeps: its descriptors are distinct and known, a transaction only waits for
  calls that have a descriptor, and only resources that register themselves are registered.
\<close>

section \<open>The invariant\<close>

definition work_wf :: "xatmi_client \<Rightarrow> work \<Rightarrow> bool" where
  "work_wf s w \<longleftrightarrow>
     (is_null (wk_trid w) \<longrightarrow> wk_descriptors w = []) \<and> (wk_local w \<longrightarrow> wk_descriptors w = []) \<and>
     set (wk_descriptors w) \<subseteq> de_descriptor ` set (cl_pending s) \<and>
     distinct (wk_resources w) \<and> set (wk_resources w) \<subseteq> ls_id ` set (cl_dynamic s)"

definition client_wf :: "xatmi_client \<Rightarrow> bool" where
  "client_wf s \<longleftrightarrow>
     is_null (wk_trid (cl_outside s)) \<and> work_wf s (cl_outside s) \<and> (\<forall>w\<in>set (cl_transactions s). work_wf s w) \<and>
     distinct (map de_descriptor (cl_pending s)) \<and> cl_pending s \<noteq> [] \<and> sorted (map de_descriptor (cl_pending s)) \<and>
     (\<forall>d\<in>set (cl_pending s). 0 < de_descriptor d)"

text \<open>The invariant does not see the surroundings, the buffers and the reply.\<close>

definition same_core :: "xatmi_client \<Rightarrow> xatmi_client \<Rightarrow> bool" where
  "same_core s t \<longleftrightarrow> cl_outside t = cl_outside s \<and> cl_transactions t = cl_transactions s \<and>
     cl_pending t = cl_pending s \<and> cl_dynamic t = cl_dynamic s"

lemma same_core_wf: "same_core s t \<Longrightarrow> client_wf t \<longleftrightarrow> client_wf s"
  by (simp add: same_core_def client_wf_def work_wf_def)

lemma maintains_core: "(\<And>s. same_core s (snd (f s))) \<Longrightarrow> maintains client_wf f"
  unfolding maintains_def using same_core_wf by blast

lemma wf_surroundings [wf_intros]:
  "maintains client_wf clock_now" "maintains client_wf (record_event e)" "maintains client_wf make_uuid"
  "maintains client_wf (rm_invoke k)" "maintains client_wf (client_send q m)"
  "maintains client_wf (receive_answer x c)" "maintains client_wf (inbox_discard c)"
  "maintains client_wf (receive_first b P)" "maintains client_wf (on_buffers h)" "maintains client_wf (set_reply g)"
  by (rule maintains_core; simp add: clock_now_def read_state_def record_event_def change_def make_uuid_def rm_invoke_def
      client_send_def receive_answer_def inbox_discard_def receive_first_def on_buffers_def set_reply_def same_core_def
      Let_def split: option.split prod.split sum.split)+

lemma maintains_option [wf_intros]:
  "(x = None \<Longrightarrow> maintains P f) \<Longrightarrow> (\<And>y. x = Some y \<Longrightarrow> maintains P (g y)) \<Longrightarrow>
    maintains P (case x of None \<Rightarrow> f | Some y \<Rightarrow> g y)"
  by (cases x) simp_all

lemma maintains_list [wf_intros]:
  "(xs = [] \<Longrightarrow> maintains P f) \<Longrightarrow> (\<And>y ys. xs = y # ys \<Longrightarrow> maintains P (g y ys)) \<Longrightarrow>
    maintains P (case xs of [] \<Rightarrow> f | y # ys \<Rightarrow> g y ys)"
  by (cases xs) simp_all

lemma maintains_pair [wf_intros]: "(\<And>x y. z = (x, y) \<Longrightarrow> maintains P (f x y)) \<Longrightarrow> maintains P (case z of (x, y) \<Rightarrow> f x y)"
  by (cases z) simp

lemma maintains_let [wf_intros]: "(\<And>x. x = e \<Longrightarrow> maintains P (f x)) \<Longrightarrow> maintains P (let x = e in f x)"
  by (simp add: Let_def)

lemma maintains_on_error [wf_intros]: "maintains P f \<Longrightarrow> maintains P g \<Longrightarrow> maintains P (on_error f g)"
  unfolding on_error_def by (intro wf_intros)

lemma maintains_guarded [wf_intros]: "maintains P f \<Longrightarrow> maintains P (guarded f)"
  unfolding guarded_def by (intro wf_intros)

lemma maintains_and_finally [wf_intros]: "maintains P f \<Longrightarrow> maintains P g \<Longrightarrow> maintains P (and_finally f g)"
  unfolding and_finally_def by (intro wf_intros)

lemma maintains_ignore [wf_intros]: "(\<And>x. maintains P (f x)) \<Longrightarrow> maintains P (ignore f x)"
  unfolding ignore_def by (intro wf_intros)

section \<open>The transactions\<close>

lemma wf_resources [wf_intros]:
  "maintains client_wf (log_result r)"
  "maintains client_wf (resource_start w f l)" "maintains client_wf (resource_end w f l)"
  "maintains client_wf (resource_open f l)" "maintains client_wf (resource_close f l)"
  "maintains client_wf (resource_commit_direct w f l)" "maintains client_wf (log_state i)"
  unfolding resource_start_def resource_end_def resource_open_def resource_close_def resource_commit_direct_def
    log_result_def log_state_def by (intro wf_intros)+

lemma wf_context [wf_intros]:
  "maintains client_wf (resources_start w f)" "maintains client_wf (resources_end w f)"
  "maintains client_wf (resource_commit rm w f)" "maintains client_wf (send_involved t rms)"
  "maintains client_wf context_open" "maintains client_wf context_close" "maintains client_wf (call_manager m)"
  unfolding resources_start_def resources_end_def resource_commit_def send_involved_def context_open_def context_close_def
    call_manager_def by (intro wf_intros)+

text \<open>What is put on the stack has neither calls nor resources.\<close>

definition fresh_work :: "work \<Rightarrow> bool" where
  "fresh_work w \<longleftrightarrow> wk_descriptors w = [] \<and> wk_resources w = []"

lemma fresh_works: "fresh_work no_work" "fresh_work (work_on t)" "fresh_work ((work_on t)\<lparr>wk_timeout := o'\<rparr>)"
  by (simp_all add: fresh_work_def no_work_def work_on_def)

lemma fresh_work_wf: "fresh_work w \<Longrightarrow> work_wf s w"
  by (simp add: fresh_work_def work_wf_def)

lemma work_wf_cong:
  "cl_pending t = cl_pending s \<Longrightarrow> cl_dynamic t = cl_dynamic s \<Longrightarrow> work_wf t w \<longleftrightarrow> work_wf s w"
  by (simp add: work_wf_def)

lemma wf_set_stack:
  "client_wf s \<Longrightarrow> (\<And>w. w \<in> set ws \<Longrightarrow> w \<in> set (cl_transactions s) \<or> fresh_work w) \<Longrightarrow>
    client_wf (s\<lparr>cl_transactions := ws\<rparr>)"
proof -
  assume s: "client_wf s" and ws: "\<And>w. w \<in> set ws \<Longrightarrow> w \<in> set (cl_transactions s) \<or> fresh_work w"
  have cong: "work_wf (s\<lparr>cl_transactions := ws\<rparr>) = work_wf s" by (rule ext) (simp add: work_wf_def)
  have "\<forall>w\<in>set ws. work_wf s w" using s ws fresh_work_wf unfolding client_wf_def by blast
  with s show ?thesis by (simp add: client_wf_def cong)
qed

lemma wf_push: "fresh_work w \<Longrightarrow> maintains client_wf (push_transaction w)"
  unfolding push_transaction_def by (intro wf_intros wf_set_stack) auto

lemma wf_start_transaction: "client_wf s \<Longrightarrow> start_transaction t s = (r, s') \<Longrightarrow> client_wf s' \<and> (\<forall>w. r = Inr w \<longrightarrow> fresh_work w)"
proof -
  assume "client_wf s" "start_transaction t s = (r, s')"
  moreover from this(2) have "same_core s s'" "\<forall>w. r = Inr w \<longrightarrow> fresh_work w"
    by (auto simp: start_transaction_def same_core_def fresh_works split: prod.splits)
  ultimately show ?thesis using same_core_wf by blast
qed

lemma wf_context_start [wf_intros]: "maintains client_wf (context_start t)"
  unfolding maintains_def
proof (intro allI impI)
  fix s assume wf: "client_wf s"
  obtain r s1 where 1: "start_transaction t s = (r, s1)" by fastforce
  show "client_wf (snd (context_start t s))"
  proof (cases r)
    case (Inl e)
    with 1 wf_start_transaction [OF wf 1] show ?thesis by (simp add: context_start_def after_def)
  next
    case (Inr w)
    with wf_start_transaction [OF wf 1] have s1: "client_wf s1" "fresh_work w" by simp_all
    have "maintains client_wf (after (resources_start w TMNOFLAGS) (\<lambda>_. push_transaction w))"
      by (intro wf_intros wf_push s1(2))
    with s1(1) 1 Inr show ?thesis by (simp add: context_start_def after_def maintains_def)
  qed
qed

lemma wf_join [wf_intros]: "maintains client_wf (context_join t)"
  unfolding context_join_def by (intro wf_intros wf_push) (simp add: fresh_works)

lemma wf_begin [wf_intros]: "maintains client_wf context_begin"
  unfolding context_begin_def by (intro wf_intros)

lemma in_butlast: "x \<in> set (butlast xs) \<Longrightarrow> x \<in> set xs"
  by (rule in_set_butlastD)

lemma wf_pop [wf_intros]: "maintains client_wf pop_transaction"
proof -
  have drop: "maintains client_wf (change (\<lambda>s. s\<lparr>cl_transactions := butlast (cl_transactions s)\<rparr>))"
    "maintains client_wf (change (\<lambda>s. s\<lparr>cl_transactions := butlast (cl_transactions s) @ [no_work]\<rparr>))"
    by (intro wf_intros wf_set_stack; auto simp: fresh_works dest: in_butlast)+
  show ?thesis unfolding pop_transaction_def
    by (rule maintains_after, intro wf_intros) (simp split: tx_control.split, intro conjI impI wf_intros drop)
qed

lemma wf_commit_answer [wf_intros]: "maintains client_wf (commit_answer ca)"
  unfolding commit_answer_def by (simp split: answer.split commit_stage.split) (intro conjI allI impI wf_intros; simp split: answer.split; intro conjI allI impI wf_intros)

lemma wf_commit [wf_intros]: "maintains client_wf (commit_work w)" "maintains client_wf context_commit"
  unfolding commit_work_def context_commit_def by (intro wf_intros)+

lemma wf_rollback [wf_intros]: "maintains client_wf (rollback_work w)" "maintains client_wf context_rollback"
proof -
  show "maintains client_wf (rollback_work w)" for w
    unfolding rollback_work_def by (intro wf_intros; simp split: answer.split; intro conjI allI impI wf_intros)
  then show "maintains client_wf context_rollback" unfolding context_rollback_def by (intro wf_intros)
qed

lemma move_last_set: "set (move_last P xs) = set xs"
  by (induction xs) auto

lemma wf_suspend_resume [wf_intros]: "maintains client_wf (context_suspend b)" "maintains client_wf (context_resume x)"
proof -
  show "maintains client_wf (context_suspend b)"
    unfolding context_suspend_def by (intro wf_intros wf_push fresh_works)
  have turned: "maintains client_wf (change (\<lambda>s. s\<lparr>cl_transactions := move_last P (butlast (cl_transactions s))\<rparr>))" for P
    by (intro wf_intros wf_set_stack) (auto simp: move_last_set dest: in_butlast)
  show "maintains client_wf (context_resume x)"
    unfolding context_resume_def by (intro wf_intros turned)
qed


lemma maintains_when: "(\<And>s. P s \<Longrightarrow> P (snd (g (f s) s))) \<Longrightarrow> maintains P (after (read_state f) g)"
  by (simp add: maintains_def after_def read_state_def)

lemma after_change: "after (change f) g s = g () (f s)"
  by (simp add: after_def change_def)

lemma wf_change_current:
  assumes s: "client_wf s" and f: "\<And>w. work_wf s w \<Longrightarrow> work_wf s (f w)" "\<And>w. wk_trid (f w) = wk_trid w"
  shows "client_wf (change_current f s)"
proof -
  have cong: "work_wf (change_current f s) = work_wf s"
    by (rule ext) (simp add: work_wf_def change_current_def)
  show ?thesis
  proof (cases "cl_transactions s = []")
    case True
    with s f show ?thesis by (simp add: client_wf_def cong) (simp add: change_current_def)
  next
    case False
    with s have "work_wf s (f (last (cl_transactions s)))" "\<forall>w\<in>set (butlast (cl_transactions s)). work_wf s w"
      using f(1) by (auto simp: client_wf_def dest: in_butlast)
    with s False show ?thesis by (simp add: client_wf_def cong) (auto simp: change_current_def)
  qed
qed

lemma wf_ax_reg [wf_intros]: "maintains client_wf (ax_reg rm)"
  unfolding ax_reg_def
proof (rule maintains_when)
  fix s assume s: "client_wf s"
  have new: "client_wf (change_current (\<lambda>w. w\<lparr>wk_resources := wk_resources w @ [rm]\<rparr>) s)"
    if "rm \<in> ls_id ` set (cl_dynamic s)" "rm \<notin> set (wk_resources (current s))"
  proof -
    have "work_wf s ((current s)\<lparr>wk_resources := wk_resources (current s) @ [rm]\<rparr>)"
      using that s by (auto simp: client_wf_def work_wf_def current_def split: if_splits)
    with s that(1) show ?thesis
      by (auto simp: client_wf_def change_current_def current_def work_wf_def split: if_splits dest: in_butlast)
  qed
  with s show "client_wf (snd ((if rm \<notin> ls_id ` set (cl_dynamic (id s)) then return (TMER_INVAL, None)
      else if rm \<in> set (wk_resources (current (id s))) then return (TM_RESUME, None)
      else after (change (change_current (\<lambda>w. w\<lparr>wk_resources := wk_resources w @ [rm]\<rparr>)))
        (\<lambda>_. return (TM_OK, Some (t_xid (wk_trid (current (id s))))))) s))"
    by (simp add: return_def after_change)
qed

lemma wf_ax_unreg [wf_intros]: "maintains client_wf (ax_unreg rm)"
proof -
  have "maintains client_wf (change (change_current (\<lambda>w. w\<lparr>wk_resources := remove1 rm (wk_resources w)\<rparr>)))"
    by (intro wf_intros wf_change_current) (auto simp: work_wf_def dest: set_remove1_subset [THEN subsetD])
  note turned = maintains_after [OF this maintains_return]
  show ?thesis unfolding ax_unreg_def by (intro maintains_after maintains_read maintains_if turned maintains_return)
qed

lemma wf_settings [wf_intros]:
  "maintains client_wf (set_commit_return v)" "maintains client_wf get_commit_return"
  "maintains client_wf (set_transaction_control v)" "maintains client_wf (set_transaction_timeout v)"
  "maintains client_wf (context_info i)"
  unfolding set_commit_return_def get_commit_return_def set_transaction_control_def set_transaction_timeout_def context_info_def
  by (intro wf_intros; simp add: client_wf_def work_wf_def)+

section \<open>The calls\<close>

text \<open>A change of the descriptors that keeps their numbers, or adds one at the end.\<close>

lemma wf_set_pending:
  assumes "client_wf s" "map de_descriptor ds = map de_descriptor (cl_pending s)"
  shows "client_wf (s\<lparr>cl_pending := ds\<rparr>)"
proof -
  have sets: "de_descriptor ` set ds = de_descriptor ` set (cl_pending s)" using arg_cong [OF assms(2), of set] by simp
  then have "(\<forall>n\<in>de_descriptor ` set ds. 0 < n) \<longleftrightarrow> (\<forall>n\<in>de_descriptor ` set (cl_pending s). 0 < n)" by (simp only:)
  then have "(\<forall>d\<in>set ds. 0 < de_descriptor d) \<longleftrightarrow> (\<forall>d\<in>set (cl_pending s). 0 < de_descriptor d)" by simp
  moreover have "ds = [] \<longleftrightarrow> cl_pending s = []" using assms(2) by (cases ds; cases "cl_pending s") auto
  ultimately show ?thesis using assms by (simp add: client_wf_def work_wf_def sets)
qed

lemma upd_first_map: "(\<And>x. P x \<Longrightarrow> g (f x) = g x) \<Longrightarrow> map g (upd_first P f xs) = map g xs"
  by (induction xs) auto

lemma wf_unreserve [wf_intros]: "maintains client_wf (unreserve cd)"
  unfolding unreserve_def by (intro wf_intros wf_set_pending upd_first_map) auto

lemma wf_pending [wf_intros]:
  "maintains client_wf (pending_get cd)" "maintains client_wf (set_deadline d t)"
  "maintains client_wf (pending_deadline cd t)" "maintains client_wf (pending_discard cd)"
  "maintains client_wf (call_cancel cd)"
  unfolding call_cancel_def pending_discard_def pending_deadline_def set_deadline_def pending_get_def
  by (intro wf_intros)+

lemma wf_lookup [wf_intros]:
  "maintains client_wf (lookup_send name x)" "maintains client_wf (lookup_receive c)" "maintains client_wf (lookup_end c)"
  "maintains client_wf (validate_input f)"
  unfolding lookup_send_def lookup_receive_def lookup_end_def validate_input_def
  by (intro wf_intros; simp split: answer.split; intro conjI allI impI wf_intros)+

definition knows :: "int \<Rightarrow> xatmi_client \<Rightarrow> bool" where
  "knows cd s \<longleftrightarrow> client_wf s \<and> cd \<in> de_descriptor ` set (cl_pending s)"

text \<open>A reserved descriptor is one of the known ones; a new one is greater than all of them.\<close>

lemma upd_first_found: "List.find P xs = Some d \<Longrightarrow> g d' = g d \<Longrightarrow> map g (upd_first P (\<lambda>_. d') xs) = map g xs"
  by (induction xs) (auto split: if_splits)

lemma upd_first_in: "List.find P xs = Some d \<Longrightarrow> d' \<in> set (upd_first P (\<lambda>_. d') xs)"
  by (induction xs) (auto split: if_splits)

lemma last_is_greatest: "sorted xs \<Longrightarrow> x \<in> set xs \<Longrightarrow> x \<le> (last xs :: int)"
  by (induction xs) auto

lemma wf_new_descriptor:
  assumes s: "client_wf s" and d: "de_descriptor d = de_descriptor (last (cl_pending s)) + 1"
  shows "client_wf (s\<lparr>cl_pending := cl_pending s @ [d]\<rparr>)"
proof -
  let ?ns = "map de_descriptor (cl_pending s)"
  have last: "last ?ns = de_descriptor (last (cl_pending s))" using s by (simp add: client_wf_def last_map)
  have less: "n < de_descriptor d" if "n \<in> set ?ns" for n
    using last_is_greatest [OF _ that] s d by (simp add: client_wf_def last)
  have "sorted (?ns @ [de_descriptor d])" "distinct (?ns @ [de_descriptor d])"
    using s less by (auto simp: client_wf_def sorted_append less_imp_le)
  moreover have "0 < de_descriptor (last (cl_pending s))" using s by (simp add: client_wf_def)
  then have "0 < de_descriptor d" using d by simp
  moreover have "work_wf (s\<lparr>cl_pending := cl_pending s @ [d]\<rparr>) w" if "work_wf s w" for w
    using that by (auto simp: work_wf_def)
  ultimately show ?thesis using s by (auto simp: client_wf_def)
qed

lemma reserve_knows:
  assumes s: "client_wf s"
  shows "\<exists>d s'. reserve_for_call c s = (Inr d, s') \<and> knows (de_descriptor d) s'"
proof (cases "List.find (\<lambda>d. \<not> de_active d) (cl_pending s)")
  case (Some d)
  define d' where "d' = d\<lparr>de_active := True, de_timeout := (de_timeout d)\<lparr>to_timeout := 0\<rparr>, de_correlation := c\<rparr>"
  let ?ds = "upd_first (\<lambda>d. \<not> de_active d) (\<lambda>_. d') (cl_pending s)"
  have "client_wf (s\<lparr>cl_pending := ?ds\<rparr>)"
    by (rule wf_set_pending [OF s upd_first_found [OF Some]]) (simp add: d'_def)
  with upd_first_in [OF Some, of d'] have "knows (de_descriptor d') (s\<lparr>cl_pending := ?ds\<rparr>)"
    by (simp add: knows_def)
  with Some show ?thesis by (simp add: reserve_for_call_def pending_reserve_def Let_def d'_def)
next
  case None
  with wf_new_descriptor [OF s] show ?thesis
    by (simp add: reserve_for_call_def pending_reserve_def Let_def knows_def)
qed

lemma wf_set_descriptor: "(\<And>d. de_descriptor (f d) = de_descriptor d) \<Longrightarrow> maintains (knows cd) (set_descriptor f n)"
proof -
  assume f: "\<And>d. de_descriptor (f d) = de_descriptor d"
  have "map de_descriptor (upd_first P f ds) = map de_descriptor ds" for P ds by (rule map_upd_first) (rule f)
  then have "knows cd (s\<lparr>cl_pending := upd_first P f (cl_pending s)\<rparr>)" if "knows cd s" for P s
    using that wf_set_pending [of s "upd_first P f (cl_pending s)"]
    by (simp add: knows_def) (metis list.set_map)
  then show ?thesis unfolding set_descriptor_def by (intro wf_intros)
qed

text \<open>The rest of a call, once the descriptor is reserved.\<close>

lemma knows_wf: "knows cd s \<Longrightarrow> client_wf s"
  by (simp add: knows_def)

lemma wf_associate: "\<not> is_null (wk_trid (current s)) \<Longrightarrow> knows cd s \<Longrightarrow> client_wf (change_current (associate cd) s)"
  by (auto simp: client_wf_def change_current_def current_def work_wf_def associate_def knows_def split: if_splits dest: in_butlast)

lemma maintains_reserved:
  assumes "\<And>d s. knows (de_descriptor d) s \<Longrightarrow> client_wf (snd (f d s))"
  shows "maintains client_wf (after (reserve_for_call c) f)"
  unfolding maintains_def
proof (intro allI impI)
  fix s assume "client_wf s"
  then obtain d s' where "reserve_for_call c s = (Inr d, s')" "knows (de_descriptor d) s'" using reserve_knows by blast
  with assms show "client_wf (snd (after (reserve_for_call c) f s))" by (simp add: after_def)
qed

lemma wf_prepare [wf_intros]: "maintains client_wf (prepare_message start idata ilen flags parent v)"
  unfolding prepare_message_def
proof (rule maintains_after, rule wf_surroundings, rule maintains_after, rule wf_surroundings, rule maintains_after,
    rule maintains_read, rule maintains_let, rule maintains_if, rule maintains_return, rule maintains_reserved, goal_cases)
  case (1 buffer c s0 m d s)
  let ?w = "current s"
  define bound where "bound \<longleftrightarrow> \<not> has_flag TPNOTRAN flags \<and> \<not> is_null (wk_trid ?w)"
  define t where "t = (if bound then transaction_timeout start (wk_timeout ?w) (call_timeout flags start v (de_timeout d))
    else call_timeout flags start v (de_timeout d))"
  define s' where "s' = snd (set_descriptor (\<lambda>d. d\<lparr>de_timeout := t\<rparr>) (de_descriptor d) s)"
  have s': "knows (de_descriptor d) s'"
    using wf_set_descriptor [of "\<lambda>d. d\<lparr>de_timeout := t\<rparr>" "de_descriptor d" "de_descriptor d"] 1(3)
    by (simp add: maintains_def s'_def)
  have "current s' = ?w" by (simp add: s'_def set_descriptor_def change_def current_def)
  with s' have "bound \<Longrightarrow> client_wf (change_current (associate (de_descriptor d)) s')" by (simp add: wf_associate bound_def)
  moreover have "set_descriptor (\<lambda>d. d\<lparr>de_timeout := t\<rparr>) (de_descriptor d) s = (Inr (), s')"
    by (simp add: s'_def set_descriptor_def change_def)
  ultimately show ?case using knows_wf [OF s']
    by (simp add: after_def read_state_def Let_def return_def change_def flip: bound_def t_def)
qed

lemma wf_call_guards [wf_intros]: "maintains client_wf (call_guards cd t)"
  unfolding call_guards_def by (intro wf_intros)

lemma wf_async_send [wf_intros]: "maintains client_wf (async_send m t c)"
  unfolding async_send_def by (intro wf_intros)

lemma wf_async_target [wf_intros]: "maintains client_wf (async_target m t c start)"
  unfolding async_target_def by (intro wf_intros)

lemma wf_async [wf_intros]: "maintains client_wf (call_async service idata ilen flags)"
  unfolding call_async_def by (intro wf_intros)

text \<open>What a reply does to the transactions.\<close>

lemma wf_change_works:
  assumes s: "client_wf s" and f: "\<And>w. work_wf s w \<Longrightarrow> work_wf s (f w)" "map f (cl_transactions s) = ws \<or> upd_first P f (cl_transactions s) = ws"
  shows "client_wf (s\<lparr>cl_transactions := ws\<rparr>)"
proof -
  have cong: "work_wf (s\<lparr>cl_transactions := ws\<rparr>) = work_wf s" by (rule ext) (simp add: work_wf_def)
  have "\<forall>w\<in>set ws. work_wf s w"
    using f s set_upd_first_subset [of P f "cl_transactions s"] unfolding client_wf_def by auto
  with s show ?thesis by (simp add: client_wf_def cong)
qed

lemma work_wf_discard: "work_wf s w \<Longrightarrow> work_wf s (discard_descriptor cd (w\<lparr>wk_state := x\<rparr>))" "work_wf s w \<Longrightarrow> work_wf s (discard_descriptor cd w)"
  by (auto simp: work_wf_def discard_descriptor_def)

lemma wf_update [wf_intros]: "maintains client_wf (context_update r)"
proof -
  have "maintains client_wf (change (\<lambda>s. s\<lparr>cl_transactions := upd_first P (\<lambda>w. discard_descriptor cd (w\<lparr>wk_state := g w\<rparr>)) (cl_transactions s)\<rparr>))"
    "maintains client_wf (change (\<lambda>s. s\<lparr>cl_transactions := map (discard_descriptor cd) (cl_transactions s)\<rparr>))" for P cd g
    by (intro wf_intros, erule wf_change_works; use work_wf_discard in blast)+
  then show ?thesis unfolding context_update_def by (intro maintains_after maintains_read maintains_let maintains_if maintains_throw)
qed

lemma wf_reply [wf_intros]:
  "maintains client_wf (reply_receive cd f)" "maintains client_wf (reply_buffer r odata f)"
  unfolding reply_receive_def reply_buffer_def by (intro wf_intros)+

lemma wf_user_code [wf_intros]: "maintains client_wf (change (\<lambda>s. s\<lparr>cl_user_code := n\<rparr>))"
  by (rule maintains_core) (simp add: change_def same_core_def)

lemma wf_call_reply [wf_intros]:
  "maintains client_wf (call_reply_to cd odata f)" "maintains client_wf (call_sync service idata ilen odata f)"
proof -
  show "maintains client_wf (call_reply_to cd odata f)" for cd f
    unfolding call_reply_to_def
    by (intro maintains_after maintains_let maintains_and_finally wf_surroundings wf_pending wf_reply maintains_option
      maintains_throw; split answer.split; intro conjI allI impI wf_intros)
  then show "maintains client_wf (call_sync service idata ilen odata f)"
    unfolding call_sync_def by (intro wf_intros)
qed

section \<open>Serving calls\<close>

lemma wf_pending_check [wf_intros]: "maintains client_wf (pending_check w)"
  unfolding pending_check_def by (intro wf_intros)

lemma wf_pending_checks [wf_intros]: "maintains client_wf (pending_checks ws)"
  by (induction ws) (simp_all, (intro wf_intros; assumption?)+)

lemma wf_finish [wf_intros]:
  "maintains client_wf (finish_rollback w)" "maintains client_wf (finish_owned rval w)" 
proof -
  show rollback: "maintains client_wf (finish_rollback w)" for w unfolding finish_rollback_def by (intro wf_intros)
  show "maintains client_wf (finish_owned rval w)" unfolding finish_owned_def by (intro wf_intros rollback)
qed

lemma wf_caller [wf_intros]: "maintains client_wf (change (\<lambda>s. s\<lparr>cl_caller := f s\<rparr>))"
  by (rule maintains_core) (simp add: change_def same_core_def)

lemma wf_finish_caller [wf_intros]: "maintains client_wf (finish_caller rval ws)"
  unfolding finish_caller_def by (intro wf_intros)

lemma wf_empty_stack: "maintains client_wf (change (\<lambda>s. s\<lparr>cl_transactions := []\<rparr>))"
  by (intro wf_intros wf_set_stack) auto

lemma wf_finalize [wf_intros]: "maintains client_wf (context_finalize rval)"
  unfolding context_finalize_def
  by (intro maintains_after maintains_read wf_empty_stack maintains_if maintains_return wf_surroundings wf_pending_checks
    maintains_let maintains_for_each wf_finish wf_finish_caller)

lemma wf_policies [wf_intros]:
  "maintains client_wf (policy_ack m)" "maintains client_wf (policy_reply m)" "maintains client_wf (policy_statistics m q)"
  "maintains client_wf (policy_forward m service data len)"
  unfolding policy_ack_def policy_reply_def policy_statistics_def policy_forward_def by (intro wf_intros)+

lemma wf_policy_transaction [wf_intros]: "maintains client_wf (policy_transaction m mode start)"
proof -
  have timeout: "maintains client_wf (change (change_current (\<lambda>w. w\<lparr>wk_timeout := o'\<rparr>)))" for o'
    by (intro wf_intros wf_change_current) (auto simp: work_wf_def)
  show ?thesis unfolding policy_transaction_def
    by (intro maintains_after wf_caller timeout; split transaction_mode.split; intro conjI impI wf_intros)
qed

lemma wf_services [wf_intros]:
  "maintains client_wf (change (\<lambda>s. s\<lparr>cl_service := a s, cl_parent := b s\<rparr>))"
  "maintains client_wf (change (\<lambda>s. s\<lparr>cl_services := f s\<rparr>))"
  "maintains client_wf (change (\<lambda>s. s\<lparr>cl_physical := g s, cl_services := h s\<rparr>))"
  by (rule maintains_core; simp add: change_def same_core_def)+

lemma wf_dispatch_parts [wf_intros]:
  "maintains client_wf (service_information m)" "maintains client_wf (reply_with code data len)"
  "maintains client_wf server_finalize" "maintains client_wf (send_service_reply m)" "maintains client_wf (monitor_call m)"
  unfolding service_information_def reply_with_def server_finalize_def send_service_reply_def monitor_call_def
  by (intro wf_intros)+

lemma wf_finish_service [wf_intros]: "maintains client_wf (finish_service m j)"
  unfolding finish_service_def by (cases j; simp; intro wf_intros)

lemma wf_guards [wf_intros]: "maintains client_wf (error_guards m)" "maintains client_wf (finish_call m rval)"
  unfolding error_guards_def finish_call_def by (intro wf_intros)+

lemma wf_handle:
  assumes "\<And>a i. maintains client_wf (functions a i)"
  shows "maintains client_wf (handle_service_call functions m)"
proof -
  have "maintains client_wf (dispatch_service functions m)"
    unfolding dispatch_service_def call_function_def by (intro wf_intros assms)
  then show ?thesis unfolding handle_service_call_def dispatch_call_def dispatch_guarded_def
    by (intro maintains_guarded maintains_after maintains_and_finally wf_surroundings maintains_on_error wf_guards
      maintains_option wf_dispatch_parts wf_policies)
qed

lemma wf_advertise [wf_intros]: "maintains client_wf (server_advertise name a)" "maintains client_wf (server_unadvertise name)"
  unfolding server_advertise_def server_unadvertise_def by (intro wf_intros)+

section \<open>The interface\<close>

lemma maintains_xatmi_result [wf_intros]: "maintains P f \<Longrightarrow> maintains P (xatmi_result f g)"
  unfolding xatmi_result_def by (intro wf_intros)

lemma wf_tx_handler [wf_intros]: "maintains client_wf (tx_handler e)"
  unfolding tx_handler_def by (split client_exn.split) (intro conjI allI impI wf_intros)

lemma wf_tx [wf_intros]:
  "maintains client_wf tx_begin" "maintains client_wf tx_commit" "maintains client_wf tx_rollback"
  "maintains client_wf tx_open" "maintains client_wf tx_close" "maintains client_wf (tx_set_commit_return v)"
  "maintains client_wf (tx_set_transaction_control v)" "maintains client_wf (tx_set_transaction_timeout v)"
  "maintains client_wf (tx_info_call i)" "maintains client_wf (tx_suspend b)" "maintains client_wf (tx_resume x)"
  "maintains client_wf tx_get_commit_return"
  unfolding tx_begin_def tx_commit_def tx_rollback_def tx_open_def tx_close_def tx_set_commit_return_def
    tx_set_transaction_control_def tx_set_transaction_timeout_def tx_info_call_def tx_suspend_def tx_resume_def
    tx_get_commit_return_def by (intro wf_intros)+

lemma wf_tp [wf_intros]:
  "maintains client_wf (tpcall svc idata ilen odata f)" "maintains client_wf (tpacall svc idata ilen f)"
  "maintains client_wf (tpgetrply cd odata f)" "maintains client_wf (tpcancel cd)"
  "maintains client_wf (tpadvertise name a)" "maintains client_wf (tpunadvertise name)"
  unfolding tpcall_def tpacall_def tpgetrply_def tpcancel_def tpadvertise_def tpunadvertise_def by (intro wf_intros)+

lemma wf_buffers [wf_intros]:
  "maintains client_wf (tpalloc ty sub n)" "maintains client_wf (tprealloc a n)" "maintains client_wf (tptypes a x y)"
  "maintains client_wf (tpfree a)"
  unfolding tpalloc_def tprealloc_def tptypes_def tpfree_def buffer_address_def by (intro wf_intros)+

end
