(* ===== verification/Client_Application.thy ===== *)
theory Client_Application
  imports Client_Invariant
begin

text \<open>
  The application: it calls the interface, sees what the calls return, and decides by that what it does next. With
  it a process runs: it serves requests, and answers arrive at it. The second half of the theory is an interface for
  what no call of the application changes.
\<close>

section \<open>Applications\<close>

datatype api_call =
    Api_begin
  | Api_commit
  | Api_rollback
  | Api_open
  | Api_close
  | Api_commit_return int
  | Api_control int
  | Api_timeout int
  | Api_info
  | Api_suspend bool
  | Api_resume "xid option"
  | Api_register int
  | Api_unregister int
  | Api_call "string option" int int int int
  | Api_acall "string option" int int int
  | Api_getrply int int int
  | Api_cancel int
  | Api_advertise string int
  | Api_unadvertise string
  | Api_alloc string string int
  | Api_realloc int int
  | Api_types int
  | Api_free int

datatype api_result = Tx_code int | Tx_xid int "xid option" | Tp_code int int | Tp_reply int int "(int \<times> int \<times> nat) option"

fun invoke_api :: "api_call \<Rightarrow> api_result client_effect" where
  "invoke_api Api_begin = after tx_begin (\<lambda>r. return (Tx_code r))"
| "invoke_api Api_commit = after tx_commit (\<lambda>r. return (Tx_code r))"
| "invoke_api Api_rollback = after tx_rollback (\<lambda>r. return (Tx_code r))"
| "invoke_api Api_open = after tx_open (\<lambda>r. return (Tx_code r))"
| "invoke_api Api_close = after tx_close (\<lambda>r. return (Tx_code r))"
| "invoke_api (Api_commit_return v) = after (tx_set_commit_return v) (\<lambda>r. return (Tx_code r))"
| "invoke_api (Api_control v) = after (tx_set_transaction_control v) (\<lambda>r. return (Tx_code r))"
| "invoke_api (Api_timeout v) = after (tx_set_transaction_timeout v) (\<lambda>r. return (Tx_code r))"
| "invoke_api Api_info = after (tx_info_call None) (\<lambda>(r, _). return (Tx_code r))"
| "invoke_api (Api_suspend b) = after (tx_suspend b) (\<lambda>(r, x). return (Tx_xid r x))"
| "invoke_api (Api_resume x) = after (tx_resume x) (\<lambda>r. return (Tx_code r))"
| "invoke_api (Api_register rm) = after (ax_reg rm) (\<lambda>(r, x). return (Tx_xid r x))"
| "invoke_api (Api_unregister rm) = after (ax_unreg rm) (\<lambda>r. return (Tx_code r))"
| "invoke_api (Api_call svc i n out f) = after (tpcall svc i n out f) (\<lambda>(r, e, x). return (Tp_reply r e x))"
| "invoke_api (Api_acall svc i n f) = after (tpacall svc i n f) (\<lambda>(r, e, _). return (Tp_code r e))"
| "invoke_api (Api_getrply cd out f) = after (tpgetrply cd out f) (\<lambda>(r, e, x). return (Tp_reply r e x))"
| "invoke_api (Api_cancel cd) = after (tpcancel cd) (\<lambda>(r, e, _). return (Tp_code r e))"
| "invoke_api (Api_advertise name a) = after (tpadvertise name a) (\<lambda>(r, e, _). return (Tp_code r e))"
| "invoke_api (Api_unadvertise name) = after (tpunadvertise name) (\<lambda>(r, e, _). return (Tp_code r e))"
| "invoke_api (Api_alloc ty sub n) = after (tpalloc ty sub n) (\<lambda>(a, e). return (Tp_code a e))"
| "invoke_api (Api_realloc a n) = after (tprealloc a n) (\<lambda>(a', e). return (Tp_code a' e))"
| "invoke_api (Api_types a) = after (tptypes a False False) (\<lambda>(r, e, _). return (Tp_code r e))"
| "invoke_api (Api_free a) = after (tpfree a) (\<lambda>_. return (Tp_code 0 0))"

text \<open>An application ends as its last step says: a service by a jump, or by an exception of its own.\<close>

datatype application = Ends jump | Raises client_exn | Calls api_call "api_result \<Rightarrow> application"

primrec run_application :: "application \<Rightarrow> jump client_effect" where
  "run_application (Ends j) = return j"
| "run_application (Raises e) = throw e"
| "run_application (Calls c k) = after (invoke_api c) (\<lambda>r. run_application (k r))"

definition services_of :: "(int \<Rightarrow> call_information \<Rightarrow> application) \<Rightarrow> services" where
  "services_of apps a i = run_application (apps a i)"

text \<open>An effect that keeps a property and whose value has another.\<close>

definition yields :: "('s \<Rightarrow> bool) \<Rightarrow> ('s, 'e, 'a) effect \<Rightarrow> ('a \<Rightarrow> bool) \<Rightarrow> bool" where
  "yields I f P \<longleftrightarrow> triple I f (\<lambda>x s. I s \<and> P x) (\<lambda>_. I)"

lemma yields_after: "maintains I f \<Longrightarrow> (\<And>x. yields I (g x) P) \<Longrightarrow> yields I (after f g) P"
  unfolding yields_def maintains_triple by (rule triple_after)

lemma yields_return: "P x \<Longrightarrow> yields I (return x) P"
  unfolding yields_def by (rule triple_return) simp

lemma yields_throw: "yields I (throw e) P"
  unfolding yields_def by (rule triple_throw) simp

lemma after_yields: "yields I f P \<Longrightarrow> (\<And>x. P x \<Longrightarrow> maintains I (g x)) \<Longrightarrow> maintains I (after f g)"
  unfolding yields_def maintains_triple by (erule triple_after) (auto simp: triple_def)

lemma yields_on_error: "yields I f P \<Longrightarrow> maintains I g \<Longrightarrow> yields I (on_error f g) P"
  unfolding on_error_def yields_def
  by (erule triple_catch) (auto simp: triple_def maintains_def after_def throw_def split: prod.split sum.split)

lemma yields_read: "(\<And>s. I s \<Longrightarrow> yields I (g (f s)) P) \<Longrightarrow> yields I (after (read_state f) g) P"
  by (auto simp: yields_def triple_def after_def read_state_def)

lemma yields_let: "(\<And>x. x = e \<Longrightarrow> yields I (f x) P) \<Longrightarrow> yields I (let x = e in f x) P"
  by (simp add: Let_def)

lemma yields_if: "(b \<Longrightarrow> yields I f P) \<Longrightarrow> (\<not> b \<Longrightarrow> yields I g P) \<Longrightarrow> yields I (if b then f else g) P"
  by simp

section \<open>The interface of what is left alone\<close>

text \<open>
  A property of the state that does not see what the operations change: the transactions, the calls, the buffers,
  the settings and the services, and that the surroundings keep. No call of an application changes it.
\<close>

locale left_alone =
  fixes I :: "xatmi_client \<Rightarrow> bool" and self :: process_handle
  assumes own_self: "\<And>s. I s \<Longrightarrow> cl_self s = self"
    and surroundings:
      "maintains I clock_now" "\<And>c r. maintains I (record_event (Rm c r))" "maintains I make_uuid" "\<And>k. maintains I (rm_invoke k)"
      "\<And>d. maintains I (record_event (Timer_set d))" "maintains I (record_event Timer_unset)"
      "\<And>x c. maintains I (receive_answer x c)" "\<And>c. maintains I (inbox_discard c)"
      "\<And>b P. maintains I (receive_first b P)"
    and sends:
      "\<And>q p t rms. maintains I (client_send q (M_involved p t rms))" "\<And>q p t rms. maintains I (client_send q (M_commit p t rms))"
      "\<And>q p t rms. maintains I (client_send q (M_rollback p t rms))" "\<And>q n p x. maintains I (client_send q (M_lookup n p x))"
      "\<And>q n p. maintains I (client_send q (M_ack n p))" "\<And>q n. maintains I (client_send q (M_traffic n))"
      "\<And>q p ns. maintains I (client_send q (M_advertise p ns))" "\<And>q p ns. maintains I (client_send q (M_unadvertise p ns))"
    and own_calls: "\<And>q c. cc_process c = self \<Longrightarrow> maintains I (client_send q (M_call c))"
    and updates:
      "\<And>x s. I (s\<lparr>cl_transactions := x\<rparr>) = I s" "\<And>x s. I (s\<lparr>cl_outside := x\<rparr>) = I s" "\<And>x s. I (s\<lparr>cl_created := x\<rparr>) = I s"
      "\<And>x s. I (s\<lparr>cl_control := x\<rparr>) = I s" "\<And>x s. I (s\<lparr>cl_commit_return := x\<rparr>) = I s" "\<And>x s. I (s\<lparr>cl_timeout := x\<rparr>) = I s"
      "\<And>x s. I (s\<lparr>cl_pending := x\<rparr>) = I s" "\<And>x s. I (s\<lparr>cl_user_code := x\<rparr>) = I s" "\<And>x s. I (s\<lparr>cl_holder := x\<rparr>) = I s"
      "\<And>x s. I (s\<lparr>cl_services := x\<rparr>) = I s" "\<And>x s. I (s\<lparr>cl_physical := x\<rparr>) = I s"
      "\<And>x s. I (s\<lparr>cl_service := x\<rparr>) = I s" "\<And>x s. I (s\<lparr>cl_parent := x\<rparr>) = I s"
begin

lemma kept_updates:
  "maintains I (change (\<lambda>s. s\<lparr>cl_transactions := f1 s\<rparr>))" "maintains I (change (change_current g))"
  "maintains I (change (\<lambda>s. s\<lparr>cl_control := f2 s\<rparr>))" "maintains I (change (\<lambda>s. s\<lparr>cl_commit_return := f3 s\<rparr>))"
  "maintains I (change (\<lambda>s. s\<lparr>cl_timeout := f4 s\<rparr>))" "maintains I (change (\<lambda>s. s\<lparr>cl_pending := f5 s\<rparr>))"
  "maintains I (change (\<lambda>s. s\<lparr>cl_user_code := f6 s\<rparr>))" "maintains I (change (\<lambda>s. s\<lparr>cl_services := f7 s\<rparr>))"
  "maintains I (change (\<lambda>s. s\<lparr>cl_physical := f8 s, cl_services := f9 s\<rparr>))"
  "maintains I (change (\<lambda>s. s\<lparr>cl_service := f11 s, cl_parent := f12 s\<rparr>))"
  "maintains I (on_buffers h)"
  by (rule maintains_change, simp add: updates change_current_def)+
    (simp add: maintains_def on_buffers_def updates split: prod.split sum.split)

lemmas basics = surroundings sends kept_updates

lemma kept_resources:
  "maintains I (log_result r)" "maintains I (resource_start w f l)" "maintains I (resource_end w f l)"
  "maintains I (resource_open f l)" "maintains I (resource_close f l)" "maintains I (resource_commit_direct w f l)"
  "maintains I (log_state i)"
  unfolding resource_start_def resource_end_def resource_open_def resource_close_def resource_commit_direct_def
    log_result_def log_state_def by (intro wf_intros basics)+

lemma kept_context:
  "maintains I (resources_start w f)" "maintains I (resources_end w f)" "maintains I (resource_commit rm w f)"
  "maintains I (send_involved t rms)" "maintains I context_open" "maintains I context_close"
  "maintains I (call_manager (M_commit p t rms))" "maintains I (call_manager (M_rollback p t rms))"
  unfolding resources_start_def resources_end_def resource_commit_def send_involved_def context_open_def context_close_def
    call_manager_def by (intro wf_intros basics kept_resources)+

lemma kept_start: "maintains I (start_transaction t)" "maintains I (push_transaction w)"
  unfolding push_transaction_def by (simp add: maintains_def start_transaction_def updates split: prod.split) (intro basics)

lemma kept_begin: "maintains I (context_join t)" "maintains I (context_start x)" "maintains I context_begin"
  unfolding context_join_def context_start_def context_begin_def by (intro wf_intros basics kept_context kept_start)+

lemma kept_pop: "maintains I pop_transaction"
  unfolding pop_transaction_def
  by (rule maintains_after, intro wf_intros) (split tx_control.split, intro conjI impI wf_intros basics kept_begin kept_context)

lemma kept_commit_answer: "maintains I (commit_answer ca)"
  unfolding commit_answer_def
  by (simp split: answer.split commit_stage.split) (intro conjI allI impI wf_intros basics kept_resources; simp split: answer.split; intro conjI allI impI wf_intros basics kept_resources)

lemma kept_commit: "maintains I (commit_work w)" "maintains I context_commit"
  unfolding commit_work_def context_commit_def by (intro wf_intros kept_context kept_commit_answer kept_pop)+

lemma kept_rollback: "maintains I (rollback_work w)" "maintains I context_rollback"
  unfolding context_rollback_def rollback_work_def
  by (intro wf_intros kept_context kept_pop; (split answer.split)?; intro conjI allI impI wf_intros kept_resources)+

lemma kept_suspend: "maintains I (context_suspend b)" "maintains I (context_resume x)"
  unfolding context_suspend_def context_resume_def by (intro wf_intros basics kept_context kept_start)+

lemma kept_ax: "maintains I (ax_reg rm)" "maintains I (ax_unreg rm)"
  unfolding ax_reg_def ax_unreg_def by (intro wf_intros basics)+

lemma kept_settings:
  "maintains I (set_commit_return v)" "maintains I get_commit_return" "maintains I (set_transaction_control v)"
  "maintains I (set_transaction_timeout v)" "maintains I (context_info i)"
  unfolding set_commit_return_def get_commit_return_def set_transaction_control_def set_transaction_timeout_def context_info_def
  by (intro wf_intros basics)+

lemma kept_deadline: "maintains I (set_deadline d t)"
  unfolding set_deadline_def by (cases d) (simp_all add: surroundings)

lemma kept_pending:
  "maintains I (unreserve cd)" "maintains I (pending_get cd)" "maintains I (pending_deadline cd t)"
  unfolding pending_deadline_def pending_get_def unreserve_def
  by (intro wf_intros basics kept_deadline)+

lemma kept_cancel: "maintains I (pending_discard cd)" "maintains I (call_cancel cd)"
  unfolding call_cancel_def pending_discard_def by (intro wf_intros basics kept_pending)+

lemma kept_lookup:
  "maintains I (lookup_send name x)" "maintains I (lookup_receive c)" "maintains I (lookup_end c)" "maintains I (validate_input f)"
  unfolding lookup_send_def lookup_receive_def lookup_end_def validate_input_def
  by (intro wf_intros basics; (split answer.split)?; intro conjI allI impI wf_intros)+

text \<open>A request that is prepared comes from this process.\<close>

lemma kept_reserve: "maintains I (reserve_for_call c)"
  by (simp add: maintains_def reserve_for_call_def updates split: prod.split)

lemma kept_prepare: "yields I (prepare_message start idata ilen flags parent v) (\<lambda>m. cc_process m = self)"
  unfolding prepare_message_def set_descriptor_def
proof (rule yields_after, rule basics, rule yields_after, rule basics, rule yields_read, rule yields_let, rule yields_if, goal_cases)
  case (1 buffer c s0 m)
  then show ?case using own_self by (intro yields_return) simp
next
  case (2 buffer c s0 m)
  have m: "cc_process m = self" using 2 own_self by simp
  show ?case
    by (intro yields_after kept_reserve maintains_read yields_let basics maintains_if maintains_return yields_return) (simp add: m)
qed

lemma kept_guards: "maintains I (call_guards cd t)"
  unfolding call_guards_def by (intro wf_intros basics kept_pending)

lemma kept_async_send: "cc_process m = self \<Longrightarrow> maintains I (async_send m t c)"
  unfolding async_send_def by (intro wf_intros basics kept_guards kept_lookup own_calls) simp

lemma kept_async_target: "cc_process m = self \<Longrightarrow> maintains I (async_target m t c start)"
  unfolding async_target_def by (intro wf_intros basics kept_guards kept_lookup kept_async_send kept_pending)

lemma kept_async: "maintains I (call_async service idata ilen flags)"
proof -
  have prepared: "yields I (if la_state target = L_absent then throw (Ex_xatmi TPENOENT)
      else after (read_state cl_service) (\<lambda>parent. prepare_message start idata ilen flags parent (la_service target)))
    (\<lambda>m. cc_process m = self)" for target start
    by (intro yields_if yields_throw yields_after maintains_read kept_prepare)
  have rest: "maintains I (after (on_error (if la_state target = L_absent then throw (Ex_xatmi TPENOENT)
      else after (read_state cl_service) (\<lambda>parent. prepare_message start idata ilen flags parent (la_service target)))
      (lookup_end c)) (\<lambda>m. async_target m target c start))" for target start c
    by (rule after_yields [OF yields_on_error [OF prepared]]) (intro kept_lookup, rule kept_async_target)
  show ?thesis unfolding call_async_def
    by (rule maintains_after, rule kept_lookup, rule maintains_after, rule kept_lookup, rule maintains_after)
      (intro wf_intros basics kept_lookup, intro maintains_pair rest)
qed

lemma kept_update: "maintains I (context_update r)"
  unfolding context_update_def by (intro wf_intros basics)

lemma kept_reply: "maintains I (reply_receive cd f)" "maintains I (reply_buffer r odata f)"
  unfolding reply_receive_def reply_buffer_def by (intro wf_intros basics kept_pending kept_update)+

lemma kept_call_reply: "maintains I (call_reply_to cd odata f)" "maintains I (call_sync service idata ilen odata f)"
proof -
  show "maintains I (call_reply_to cd odata f)" for cd f
    unfolding call_reply_to_def
    by (intro maintains_after maintains_let maintains_and_finally basics kept_pending kept_reply maintains_option
      maintains_throw; split answer.split; intro conjI allI impI wf_intros basics kept_reply kept_pending)
  then show "maintains I (call_sync service idata ilen odata f)"
    unfolding call_sync_def by (intro wf_intros kept_async)
qed

lemma kept_advertise: "maintains I (server_advertise name a)" "maintains I (server_unadvertise name)"
  unfolding server_advertise_def server_unadvertise_def by (intro wf_intros basics)+

lemma kept_tx_handler: "maintains I (tx_handler e)"
  unfolding tx_handler_def by (split client_exn.split) (intro conjI allI impI wf_intros)

lemma kept_tx:
  "maintains I tx_begin" "maintains I tx_commit" "maintains I tx_rollback" "maintains I tx_open" "maintains I tx_close"
  "maintains I (tx_set_commit_return v)" "maintains I (tx_set_transaction_control v)"
  "maintains I (tx_set_transaction_timeout v)" "maintains I (tx_info_call i)" "maintains I (tx_suspend b)"
  "maintains I (tx_resume x)" "maintains I tx_get_commit_return"
  unfolding tx_begin_def tx_commit_def tx_rollback_def tx_open_def tx_close_def tx_set_commit_return_def
    tx_set_transaction_control_def tx_set_transaction_timeout_def tx_info_call_def tx_suspend_def tx_resume_def
    tx_get_commit_return_def
  by (intro wf_intros kept_tx_handler kept_begin kept_commit kept_rollback kept_context kept_settings kept_suspend)+

lemma kept_tp:
  "maintains I (tpcall svc idata ilen odata f)" "maintains I (tpacall svc idata ilen f)"
  "maintains I (tpgetrply cd odata f)" "maintains I (tpcancel cd)" "maintains I (tpadvertise name a)"
  "maintains I (tpunadvertise name)" "maintains I (tpalloc ty sub n)" "maintains I (tprealloc a n)"
  "maintains I (tptypes a x y)" "maintains I (tpfree a)"
  unfolding tpcall_def tpacall_def tpgetrply_def tpcancel_def tpadvertise_def tpunadvertise_def tpalloc_def tprealloc_def
    tptypes_def tpfree_def buffer_address_def
  by (intro wf_intros basics kept_call_reply kept_async kept_cancel kept_advertise)+

lemma kept_invoke: "maintains I (invoke_api c)"
  by (cases c; simp only: invoke_api.simps) (intro wf_intros kept_tx kept_tp kept_ax)+

lemma kept_application: "maintains I (run_application a)"
  by (induction a) (simp_all only: run_application.simps, (intro wf_intros kept_invoke; simp)+)

end

end
