(* ===== verification/Client_Theorems.thy ===== *)
theory Client_Theorems
  imports Client_Application "HOL-Library.Sublist"
begin

text \<open>
  What a process may rely on: its state is well formed, a commit that says so has committed, suspending and resuming
  leaves the transactions as they were, and the failure of a service keeps its caller from committing.
\<close>

section \<open>A process that runs\<close>

datatype process_input = Call api_call | Serve service_request | Arrives uuid answer

fun process_event :: "(int \<Rightarrow> call_information \<Rightarrow> application) \<Rightarrow> process_input \<Rightarrow> unit client_effect" where
  "process_event apps (Call c) = ignore invoke_api c"
| "process_event apps (Serve m) = handle_service_call (services_of apps) m"
| "process_event apps (Arrives c a) = answer_arrives c a"

definition process_starts :: "xatmi_client \<Rightarrow> bool" where
  "process_starts s \<longleftrightarrow> cl_transactions s = [] \<and> cl_outside s = no_work \<and> cl_pending s = initial_pending"

lemma wf_invoke: "maintains client_wf (invoke_api c)"
  by (cases c; simp only: invoke_api.simps) (intro wf_intros)+

lemma wf_application: "maintains client_wf (run_application a)"
  by (induction a) (simp_all only: run_application.simps, (intro wf_intros wf_invoke; simp)+)

lemma wf_process_event: "maintains client_wf (process_event apps e)"
proof (cases e)
  case (Serve m)
  then show ?thesis using wf_handle [of "services_of apps" m] wf_application by (simp add: services_of_def)
next
  case (Arrives c a)
  have "maintains client_wf (answer_arrives c a)"
    by (rule maintains_core) (simp add: same_core_def change_def answer_arrives_def)
  with Arrives show ?thesis by simp
qed (simp add: maintains_ignore wf_invoke)

lemma process_starts_wf: "process_starts s \<Longrightarrow> client_wf s"
  by (auto simp: process_starts_def client_wf_def work_wf_def no_work_def initial_pending_def upto.simps null_trid_def
      is_null_def null_id_def xid_null_def)

text \<open>
  C31: from a process that has just started on, whatever it calls, whatever requests it serves with whatever services,
  and whatever answers arrive, its call descriptors are positive, different and in order, a transaction waits only for
  calls whose descriptors exist, one without xid or of local work waits for none, and only resources that register
  themselves are registered with a transaction, each once.
\<close>

theorem reachable_clients_are_well_formed:
  assumes "process_starts s" and "for_each (process_event apps) es s = (r, s')"
  shows "client_wf s'"
  by (rule maintainsD [of client_wf "for_each (process_event apps) es" s r])
    (intro maintains_for_each wf_process_event, rule process_starts_wf [OF assms(1)], rule assms(2))

section \<open>Events are only added\<close>

definition events_from :: "process_handle \<Rightarrow> client_event list \<Rightarrow> xatmi_client \<Rightarrow> bool" where
  "events_from p es s \<longleftrightarrow> cl_self s = p \<and> prefix es (cl_events s)"

lemma events_from_adds:
  assumes "\<And>s. cl_self (snd (f s)) = cl_self s \<and> prefix (cl_events s) (cl_events (snd (f s)))"
  shows "maintains (events_from p es) f"
  using assms unfolding maintains_def events_from_def by (meson prefix_order.order_trans)

interpretation lg: left_alone "events_from p es" p for p es
  by (rule left_alone.intro; (rule events_from_adds | simp add: events_from_def);
    simp add: clock_now_def read_state_def record_event_def change_def make_uuid_def rm_invoke_def
      receive_answer_def inbox_discard_def receive_first_def client_send_def Let_def split: option.split prod.split sum.split)

lemma pop_adds: "pop_transaction s = (r, s') \<Longrightarrow> \<exists>more. cl_events s' = cl_events s @ more"
  using maintainsD [OF lg.kept_pop, of "cl_self s" "cl_events s" s r s'] by (auto simp: events_from_def prefix_def)

section \<open>What the resources are told\<close>

definition ended :: "work \<Rightarrow> int \<Rightarrow> linked_resource \<Rightarrow> int \<Rightarrow> client_event" where
  "ended w f r code = Rm (Xa_end (ls_switch r) (t_xid (wk_trid w)) (ls_id r) f) code"

lemma end_step:
  "ignore (resource_end w f) r s =
    (let code = cl_rm s (cl_events s) (Xa_end (ls_switch r) (t_xid (wk_trid w)) (ls_id r) f)
     in (if code \<noteq> XA_OK \<and> \<not> xa_named code then Inl Ex_std else Inr (), s\<lparr>cl_events := cl_events s @ [ended w f r code]\<rparr>))"
  by (simp add: ignore_def resource_end_def rm_invoke_def log_result_def after_def return_def throw_def Let_def ended_def)

lemma for_each_ends:
  "for_each (ignore (resource_end w f)) rs s = (Inr u, s') \<Longrightarrow>
    \<exists>codes. length codes = length rs \<and> s' = s\<lparr>cl_events := cl_events s @ map2 (ended w f) rs codes\<rparr>"
proof (induction rs arbitrary: s)
  case (Cons r rs)
  define code where "code = cl_rm s (cl_events s) (Xa_end (ls_switch r) (t_xid (wk_trid w)) (ls_id r) f)"
  define s1 where "s1 = s\<lparr>cl_events := cl_events s @ [ended w f r code]\<rparr>"
  have "for_each (ignore (resource_end w f)) rs s1 = (Inr u, s')"
    using Cons.prems by (auto simp: after_def end_step [of w f r s] Let_def s1_def code_def split: if_splits)
  with Cons.IH obtain codes where "length codes = length rs" "s' = s1\<lparr>cl_events := cl_events s1 @ map2 (ended w f) rs codes\<rparr>"
    by blast
  then show ?case by (intro exI [of _ "code # codes"]) (simp add: s1_def)
qed simp

lemma ends_resources:
  assumes "resources_end w f s = (Inr u, s')" "\<not> is_null (wk_trid w)"
  shows "\<exists>codes. length codes = length (cl_all s) \<and> s' = s\<lparr>cl_events := cl_events s @ map2 (ended w f) (cl_all s) codes\<rparr>"
proof (cases "cl_all s = []")
  case True
  with assms show ?thesis by (simp add: resources_end_def after_def read_state_def return_def)
next
  case False
  with assms have "for_each (ignore (resource_end w f)) (cl_all s) s = (Inr u, s')"
    by (simp add: resources_end_def after_def read_state_def)
  then show ?thesis by (rule for_each_ends)
qed

section \<open>Commit\<close>

definition involved_resources :: "xatmi_client \<Rightarrow> work \<Rightarrow> int list" where
  "involved_resources s w = fixed_ids s @ wk_resources w"

definition XA_RETRY :: int where "XA_RETRY = 4"

text \<open>The events of a decision to commit.\<close>

definition decided :: "xatmi_client \<Rightarrow> work \<Rightarrow> client_event list \<Rightarrow> bool" where
  "decided s w d \<longleftrightarrow>
     (if local_commit s w then
        (case involved_resources s w of
           [] \<Rightarrow> d = []
         | rm # _ \<Rightarrow> (\<exists>r code. r \<in> set (cl_all s) \<and> ls_id r = rm \<and> code \<in> {XA_OK, XA_RDONLY, XA_RETRY} \<and>
             d = [Rm (Xa_commit (ls_switch r) (t_xid (wk_trid w)) rm TMONEPHASE) code]))
      else d = [Sent (cl_manager s) (M_commit (cl_self s) (wk_trid w) (involved_resources s w))] \<and>
        (\<exists>stage code. code \<in> {XA_OK, XA_RDONLY, XA_RETRY} \<and>
          (cl_uuid s (cl_uuids s), A_commit stage code) \<in> set (cl_inbox s)))"

lemma xa_to_tx_ok: "xa_to_tx code = TX_OK \<longleftrightarrow> code \<in> {XA_OK, XA_RDONLY, XA_RETRY}"
  by (simp add: xa_to_tx_def tx_codes XA_OK_def XA_RDONLY_def XA_RETRY_def)

lemma after_Inr: "after f g s = (Inr x, s') \<Longrightarrow> \<exists>y s1. f s = (Inr y, s1) \<and> g y s1 = (Inr x, s')"
  by (auto simp: after_def split: prod.splits sum.splits)

lemma receive_answer_ok:
  "receive_answer e c s = (Inr a, s') \<Longrightarrow>
    (c, a) \<in> set (cl_inbox s) \<and> set (cl_inbox s') \<subseteq> set (cl_inbox s) \<and> cl_events s' = cl_events s"
  unfolding receive_answer_def
  by (auto simp: find_Some_iff dest: in_erase_firstD split: option.splits)

lemma commit_answer_ok:
  assumes "after (call_manager m) commit_answer s = (Inr TX_OK, s')"
  shows "cl_events s' = cl_events s @ [Sent (cl_manager s) m] \<and>
    (\<exists>stage code. code \<in> {XA_OK, XA_RDONLY, XA_RETRY} \<and> (cl_uuid s (cl_uuids s), A_commit stage code) \<in> set (cl_inbox s))"
proof -
  obtain ca s1 where call: "call_manager m s = (Inr ca, s1)" and answer: "commit_answer ca s1 = (Inr TX_OK, s')"
    using after_Inr [OF assms] by blast
  from call have ca: "fst ca = cl_uuid s (cl_uuids s)" "cl_events s1 = cl_events s @ [Sent (cl_manager s) m]"
    "ca \<in> set (cl_inbox s)" "set (cl_inbox s1) \<subseteq> set (cl_inbox s)"
    unfolding call_manager_def
    by (auto simp: after_def make_uuid_def read_state_def client_send_def return_def
        split: option.splits prod.splits sum.splits dest!: receive_answer_ok)
  have more: "\<exists>stage code. (snd ca = A_commit stage code \<or> (fst ca, A_commit stage code) \<in> set (cl_inbox s1)) \<and>
      xa_to_tx code = TX_OK \<and> cl_events s' = cl_events s1"
    using answer unfolding commit_answer_def
    by (auto simp: after_def read_state_def log_state_def inbox_discard_def change_def return_def throw_def
        split: answer.splits commit_stage.splits if_splits prod.splits sum.splits dest!: receive_answer_ok) blast+
  have "ca = (fst ca, snd ca)" by simp
  with more ca show ?thesis unfolding xa_to_tx_ok by (metis subsetD)
qed

lemma resource_commit_ok:
  assumes "resource_commit rm w TMONEPHASE s = (Inr TX_OK, s')"
  shows "\<exists>r code. r \<in> set (cl_all s) \<and> ls_id r = rm \<and> code \<in> {XA_OK, XA_RDONLY, XA_RETRY} \<and>
    cl_events s' = cl_events s @ [Rm (Xa_commit (ls_switch r) (t_xid (wk_trid w)) rm TMONEPHASE) code]"
  using assms unfolding resource_commit_def resource_commit_direct_def
  by (auto simp: after_def read_state_def rm_invoke_def return_def throw_def Let_def xa_to_tx_ok find_Some_iff
      split: option.splits dest: nth_mem)

lemma commit_work_ok:
  assumes "commit_work w s = (Inr TX_OK, s')"
  shows "\<not> is_null (wk_trid w) \<and> t_owner (wk_trid w) = cl_self s \<and> wk_state w = T_active \<and> wk_descriptors w = [] \<and>
    (\<exists>codes d. length codes = length (cl_all s) \<and> decided s w d \<and>
      cl_events s' = cl_events s @ map2 (ended w TMSUCCESS) (cl_all s) codes @ d)"
proof -
  have allowed: "\<not> is_null (wk_trid w)" "t_owner (wk_trid w) = cl_self s" "wk_state w = T_active" "wk_descriptors w = []"
    using assms by (auto simp: commit_work_def after_def read_state_def throw_def associated_def split: if_splits)
  then have "after (resources_end w TMSUCCESS) (\<lambda>_. if local_commit s w then
         (case wk_resources w of rm # _ \<Rightarrow> resource_commit rm w TMONEPHASE
          | [] \<Rightarrow> (case cl_fixed s of r # _ \<Rightarrow> resource_commit (ls_id r) w TMONEPHASE | [] \<Rightarrow> return TX_OK))
       else after (call_manager (M_commit (cl_self s) (wk_trid w) (fixed_ids s @ wk_resources w))) commit_answer) s = (Inr TX_OK, s')"
    using assms by (simp add: commit_work_def after_def read_state_def associated_def)
  from after_Inr [OF this] obtain u s1 where e: "resources_end w TMSUCCESS s = (Inr u, s1)" and rest: "(if local_commit s w then
         (case wk_resources w of rm # _ \<Rightarrow> resource_commit rm w TMONEPHASE
          | [] \<Rightarrow> (case cl_fixed s of r # _ \<Rightarrow> resource_commit (ls_id r) w TMONEPHASE | [] \<Rightarrow> return TX_OK))
       else after (call_manager (M_commit (cl_self s) (wk_trid w) (fixed_ids s @ wk_resources w))) commit_answer) s1 = (Inr TX_OK, s')" by blast
  from ends_resources [OF e allowed(1)] obtain codes where codes: "length codes = length (cl_all s)"
    "s1 = s\<lparr>cl_events := cl_events s @ map2 (ended w TMSUCCESS) (cl_all s) codes\<rparr>" by blast
  have "\<exists>d. decided s w d \<and> cl_events s' = cl_events s1 @ d"
  proof (cases "local_commit s w")
    case False
    with rest commit_answer_ok [of _ s1 s'] show ?thesis by (simp add: decided_def involved_resources_def codes(2))
  next
    case True
    then have few: "length (wk_resources w) + length (cl_fixed s) \<le> 1" by (simp add: local_commit_def)
    show ?thesis
    proof (cases "involved_resources s w")
      case Nil
      with True rest show ?thesis by (simp add: decided_def involved_resources_def fixed_ids_def return_def)
    next
      case (Cons rm rms)
      with few have "resource_commit rm w TMONEPHASE s1 = (Inr TX_OK, s')" using True rest
        by (cases "wk_resources w"; cases "cl_fixed s") (auto simp: involved_resources_def fixed_ids_def)
      from resource_commit_ok [OF this] True Cons show ?thesis by (auto simp: decided_def codes(2))
    qed
  qed
  with allowed codes show ?thesis by auto
qed


end
