(* ===== verification/Client_Suspend.thy ===== *)
theory Client_Suspend
  imports Client_Theorems
begin

unbundle bit_operations_syntax

text \<open>
  Suspending and resuming a transaction, and the failure of a service, which reaches the caller's transaction
  through the reply.
\<close>

section \<open>Resources with known results\<close>

definition named_results :: "xatmi_client \<Rightarrow> bool" where
  "named_results s \<longleftrightarrow> (\<forall>es c. xa_named (cl_rm s es c))"

lemma named_results_events: "named_results (s\<lparr>cl_events := es\<rparr>) \<longleftrightarrow> named_results s"
  by (simp add: named_results_def)

lemma ends_return: "named_results s \<Longrightarrow> \<exists>s'. resources_end w f s = (Inr (), s')"
proof -
  have "named_results s \<Longrightarrow> \<exists>s'. for_each (ignore (resource_end w f)) rs s = (Inr (), s')" for rs
  proof (induction rs arbitrary: s)
    case (Cons r rs)
    then show ?case
      by (simp add: after_def end_step [of w f r s] Let_def named_results_def)
  qed simp
  then show "named_results s \<Longrightarrow> \<exists>s'. resources_end w f s = (Inr (), s')"
    by (simp add: resources_end_def after_def read_state_def return_def)
qed

definition rm_calls :: "client_event list \<Rightarrow> xa_call list" where
  "rm_calls es = concat (map (\<lambda>e. case e of Rm c _ \<Rightarrow> [c] | _ \<Rightarrow> []) es)"

lemma rm_calls_append: "rm_calls (es @ fs) = rm_calls es @ rm_calls fs"
  by (simp add: rm_calls_def)

text \<open>The starts with the given flags: those that are not the second try, which joins.\<close>

fun starts_with :: "int \<Rightarrow> xa_call \<Rightarrow> bool" where
  "starts_with f (Xa_start _ _ _ f') \<longleftrightarrow> f' = f"
| "starts_with f _ \<longleftrightarrow> False"

definition start_call :: "work \<Rightarrow> int \<Rightarrow> linked_resource \<Rightarrow> xa_call" where
  "start_call w f r = Xa_start (ls_switch r) (t_xid (wk_trid w)) (ls_id r) f"

lemma start_step:
  assumes "named_results s" "f OR TMJOIN \<noteq> f"
  shows "\<exists>es. ignore (resource_start w f) r s = (Inr (), s\<lparr>cl_events := cl_events s @ es\<rparr>) \<and>
    filter (starts_with f) (rm_calls es) = [start_call w f r]"
  using assms
  by (auto simp: ignore_def resource_start_def rm_invoke_def log_result_def after_def return_def Let_def named_results_def
      rm_calls_def start_call_def intro: exI [of _ "[Rm (start_call w f r) c, Rm (start_call w (f OR TMJOIN) r) d]" for c d])

lemma starts_return:
  assumes "named_results s" "f OR TMJOIN \<noteq> f" "\<not> is_null (wk_trid w)"
  shows "\<exists>es. resources_start w f s = (Inr (), s\<lparr>cl_events := cl_events s @ es\<rparr>) \<and>
    filter (starts_with f) (rm_calls es) = map (start_call w f) (cl_fixed s)"
proof -
  have "\<exists>es. for_each (ignore (resource_start w f)) rs s = (Inr (), s\<lparr>cl_events := cl_events s @ es\<rparr>) \<and>
      filter (starts_with f) (rm_calls es) = map (start_call w f) rs" for rs
    using assms(1)
  proof (induction rs arbitrary: s)
    case (Cons r rs)
    from start_step [OF Cons.prems assms(2)] obtain es where
      first: "ignore (resource_start w f) r s = (Inr (), s\<lparr>cl_events := cl_events s @ es\<rparr>)"
        "filter (starts_with f) (rm_calls es) = [start_call w f r]" by blast
    let ?s = "s\<lparr>cl_events := cl_events s @ es\<rparr>"
    from Cons obtain fs where "for_each (ignore (resource_start w f)) rs ?s = (Inr (), ?s\<lparr>cl_events := cl_events ?s @ fs\<rparr>)"
        "filter (starts_with f) (rm_calls fs) = map (start_call w f) rs"
      using named_results_events by blast
    with first show ?case by (intro exI [of _ "es @ fs"]) (simp add: after_def rm_calls_append)
  qed (simp add: rm_calls_def exI [of _ "[]"])
  from this [of "cl_fixed s"] show ?thesis using assms(3)
    by (auto simp: resources_start_def after_def read_state_def return_def rm_calls_def intro: exI [of _ "[]"])
qed

section \<open>Suspend and resume\<close>

lemma find_last: "(\<And>x. x \<in> set xs \<Longrightarrow> \<not> P x) \<Longrightarrow> P y \<Longrightarrow> List.find P (xs @ y # ys) = Some y"
  by (induction xs) auto

lemma move_last_same: "(\<And>x. x \<in> set xs \<Longrightarrow> \<not> P x) \<Longrightarrow> P y \<Longrightarrow> move_last P (xs @ [y]) = xs @ [y]"
  by (induction xs) auto

text \<open>
  C30: a transaction that is suspended is out of the way, and resuming it by the xid it was suspended with puts the
  process back where it was: its transactions are the same, in the same order, with their state, their resources and
  their calls. All resources were told that the work ends for a suspension, in their order, and all that do not register
  themselves that it is resumed. The results of the resource managers do not matter, as long as they have names.
\<close>

theorem suspend_resume_round_trip:
  assumes "client_wf s" and "named_results s" and "w = current s" and "\<not> is_null (wk_trid w)"
    and "\<And>v. v \<in> set (butlast (cl_transactions s)) \<Longrightarrow> \<not> same_trid (wk_trid v) (wk_trid w)"
  shows "\<exists>s1 codes es. tx_suspend True s = (Inr (TX_OK, Some (t_xid (wk_trid w))), s1) \<and> current s1 = no_work \<and>
    tx_resume (Some (t_xid (wk_trid w))) s1 =
      (Inr TX_OK, s\<lparr>cl_events := cl_events s @ map2 (ended w TMSUSPEND) (cl_all s) codes @ es\<rparr>) \<and>
    length codes = length (cl_all s) \<and>
    filter (starts_with TMRESUME) (rm_calls es) = map (start_call w TMRESUME) (cl_fixed s)"
proof -
  let ?x = "t_xid (wk_trid w)" and ?P = "\<lambda>v. same_xid (t_xid (wk_trid v)) (t_xid (wk_trid w))"
  have stack: "cl_transactions s = butlast (cl_transactions s) @ [w]"
    using assms(1,3,4) by (auto simp: current_def client_wf_def)
  obtain s0 where "resources_end w TMSUSPEND s = (Inr (), s0)" using ends_return [OF assms(2)] by blast
  moreover from ends_resources [OF this assms(4)] obtain codes where codes: "length codes = length (cl_all s)"
    "s0 = s\<lparr>cl_events := cl_events s @ map2 (ended w TMSUSPEND) (cl_all s) codes\<rparr>" by blast
  moreover define s1 where "s1 = s0\<lparr>cl_transactions := cl_transactions s @ [no_work]\<rparr>"
  ultimately have suspend: "tx_suspend True s = (Inr (TX_OK, Some ?x), s1)"
    using assms(3,4) by (simp add: tx_suspend_def catch_def context_suspend_def after_def read_state_def return_def
        push_transaction_def change_def)
  have named: "named_results s1" using assms(2) codes(2) by (simp add: s1_def named_results_def)
  obtain es where start: "resources_start w TMRESUME s1 = (Inr (), s1\<lparr>cl_events := cl_events s1 @ es\<rparr>)"
    "filter (starts_with TMRESUME) (rm_calls es) = map (start_call w TMRESUME) (cl_fixed s)"
    using starts_return [OF named _ assms(4), of TMRESUME] codes(2) by (auto simp: TMRESUME_def TMJOIN_def s1_def)
  have first: "\<And>v. v \<in> set (butlast (cl_transactions s)) \<Longrightarrow> \<not> ?P v" using assms(5) by (simp add: same_trid_def)
  have self: "?P w" by (simp add: same_xid_def)
  have "cl_transactions s1 = butlast (cl_transactions s) @ [w, no_work]"
    using arg_cong [OF stack, of "\<lambda>ws. ws @ [no_work]"] by (simp add: s1_def)
  then have find: "List.find ?P (cl_transactions s1) = Some w" using find_last [of "butlast (cl_transactions s)" ?P w "[no_work]", OF first self] by simp
  have same: "move_last ?P (cl_transactions s) = cl_transactions s"
    using move_last_same [of "butlast (cl_transactions s)" ?P w, OF first self] stack by simp
  have top: "current s1 = no_work" by (simp add: s1_def current_def)
  have "tx_resume (Some ?x) s1 = (Inr TX_OK, s\<lparr>cl_events := cl_events s @ map2 (ended w TMSUSPEND) (cl_all s) codes @ es\<rparr>)"
  proof -
    have outside: "is_null (wk_trid no_work)" "wk_resources no_work = []"
      by (simp_all add: no_work_def is_null_def null_trid_def null_id_def xid_null_def)
    have restored: "s1\<lparr>cl_events := cl_events s1 @ es, cl_transactions := move_last ?P (butlast (cl_transactions s1))\<rparr> =
        s\<lparr>cl_events := cl_events s @ map2 (ended w TMSUSPEND) (cl_all s) codes @ es\<rparr>"
      using codes(2) same by (simp add: s1_def)
    show ?thesis using assms(4) find start(1) outside restored
      by (simp add: tx_resume_def catch_def context_resume_def after_def read_state_def return_def change_def top is_null_def)
  qed
  with suspend top codes(1) start(2) show ?thesis by blast
qed

section \<open>The failure of a service\<close>

text \<open>The caller of a server and its reply are not what the transactions change.\<close>

definition calling :: "process_handle \<Rightarrow> trid \<Rightarrow> xatmi_client \<Rightarrow> bool" where
  "calling p t s \<longleftrightarrow> cl_self s = p \<and> cl_caller s = t"

definition replying :: "process_handle \<Rightarrow> call_answer \<Rightarrow> xatmi_client \<Rightarrow> bool" where
  "replying p r s \<longleftrightarrow> cl_self s = p \<and> cl_reply s = r"

lemma keeps_fields:
  assumes "\<And>s. cl_self (snd (f s)) = cl_self s \<and> cl_caller (snd (f s)) = cl_caller s"
  shows "maintains (calling p t) f"
  using assms by (simp add: maintains_def calling_def)

lemma keeps_reply:
  assumes "\<And>s. cl_self (snd (f s)) = cl_self s \<and> cl_reply (snd (f s)) = cl_reply s"
  shows "maintains (replying p r) f"
  using assms by (simp add: maintains_def replying_def)

lemmas surroundings_defs = clock_now_def read_state_def record_event_def change_def make_uuid_def rm_invoke_def
  receive_answer_def inbox_discard_def receive_first_def client_send_def Let_def

interpretation ca: left_alone "calling p t" p for p t
  by (rule left_alone.intro; (rule keeps_fields | simp add: calling_def);
    simp add: surroundings_defs split: option.split prod.split sum.split)

interpretation ry: left_alone "replying p r" p for p r
  by (rule left_alone.intro; (rule keeps_reply | simp add: replying_def);
    simp add: surroundings_defs split: option.split prod.split sum.split)

lemma calling_reply: "maintains (calling p t) (set_reply g)"
  by (rule keeps_fields) (simp add: set_reply_def change_def)

lemma calling_check: "maintains (calling p t) (pending_check w)"
  unfolding pending_check_def by (intro wf_intros calling_reply ca.kept_cancel)

lemma calling_checks: "maintains (calling p t) (pending_checks ws)"
  by (induction ws) (simp_all, (intro wf_intros calling_check; assumption?)+)

lemma calling_owned: "maintains (calling p t) (finish_owned rval w)"
  unfolding finish_owned_def finish_rollback_def by (intro wf_intros ca.kept_commit ca.kept_rollback calling_reply)

lemma pending_check_trid: "pending_check w s = (Inr w', s') \<Longrightarrow> wk_trid w' = wk_trid w"
  by (auto simp: pending_check_def after_def return_def split: if_splits prod.splits sum.splits)

lemma pending_checks_trids: "pending_checks ws s = (Inr ws', s') \<Longrightarrow> map wk_trid ws' = map wk_trid ws"
proof (induction ws arbitrary: s s' ws')
  case (Cons w ws)
  from after_Inr [OF Cons.prems [unfolded pending_checks.simps]] obtain w' s1 where
    w: "pending_check w s = (Inr w', s1)" "after (pending_checks ws) (\<lambda>ws'. return (w' # ws')) s1 = (Inr ws', s')" by blast
  from after_Inr [OF w(2)] obtain us s2 where "pending_checks ws s1 = (Inr us, s2)" "ws' = w' # us" by (auto simp: return_def)
  with w(1) Cons.IH pending_check_trid show ?case by auto
qed (simp add: return_def)

text \<open>What the server says of the caller's transaction.\<close>

lemma finish_caller_rolls_back:
  assumes "finish_caller rval ws s = (Inr (), s')" and "rval \<noteq> TPSUCCESS" and "w \<in> set ws" and "wk_trid w = cl_caller s"
  shows "re_trid (cl_reply s') = cl_caller s \<and> re_state (cl_reply s') = 2"
proof -
  define s1 where "s1 = s\<lparr>cl_reply := (cl_reply s)\<lparr>re_state := 2\<rparr>\<rparr>"
  have few: "ws = [w]" using assms(1,3)
    by (cases ws; cases "tl ws") (auto simp: finish_caller_def throw_def)
  have found: "List.find (\<lambda>w. same_trid (wk_trid w) (cl_caller s)) ws = Some w" by (simp add: few assms(4))
  let ?f = "after (read_state fixed_ids) (\<lambda>ids. let involved = ids @ wk_resources w
    in after (if \<not> is_null (wk_trid w) \<and> involved \<noteq> [] then send_involved (wk_trid w) involved else return ()) (\<lambda>_.
       resources_end w TMSUCCESS))"
  let ?rest = "\<lambda>_. after (set_reply (\<lambda>r. r\<lparr>re_trid := cl_caller s\<rparr>)) (\<lambda>_. change (\<lambda>s. s\<lparr>cl_caller := snd (move_id (cl_caller s))\<rparr>))"
  have f: "maintains (replying (cl_self s) (cl_reply s1)) ?f" by (intro wf_intros ry.kept_context)
  have "after ?f ?rest s1 = (Inr (), s')"
    using assms(1,2) found unfolding finish_caller_def
    by (simp add: after_def [of "read_state cl_caller"] read_state_def [of cl_caller]
        after_assoc after_change few set_reply_def s1_def)
  from after_Inr [OF this] obtain u s2 where s2: "?f s1 = (Inr u, s2)"
    "after (set_reply (\<lambda>r. r\<lparr>re_trid := cl_caller s\<rparr>)) (\<lambda>_. change (\<lambda>s. s\<lparr>cl_caller := snd (move_id (cl_caller s))\<rparr>)) s2 = (Inr (), s')"
    by blast
  have "cl_reply s2 = cl_reply s1" using maintainsD [OF f _ s2(1)] by (simp add: replying_def s1_def)
  with s2(2) show ?thesis by (auto simp: after_def set_reply_def change_def s1_def)
qed

lemma finalize_rolls_back:
  assumes "context_finalize rval s = (Inr (), s')" and "rval \<noteq> TPSUCCESS"
    and "w \<in> set (cl_transactions s)" and "wk_trid w = cl_caller s" and "\<not> is_null (wk_trid w)" and "t_owner (wk_trid w) \<noteq> cl_self s"
  shows "re_trid (cl_reply s') = cl_caller s \<and> re_state (cl_reply s') = 2"
proof -
  let ?g = "\<lambda>ws. let actual = filter (\<lambda>w. \<not> is_null (wk_trid w)) ws;
         owned = filter (\<lambda>w. t_owner (wk_trid w) = cl_self s) actual;
         others = filter (\<lambda>w. t_owner (wk_trid w) \<noteq> cl_self s) actual
     in after (for_each (finish_owned rval) owned) (\<lambda>_. finish_caller rval others)"
  let ?start = "after (change (\<lambda>s. s\<lparr>cl_transactions := []\<rparr>)) (\<lambda>_. if rval = TPESVCERR \<or> rval = TPSUCCESS then return ()
    else set_reply (\<lambda>r. r\<lparr>re_error := TPESVCFAIL\<rparr>))"
  have "after ?start (\<lambda>_. after (pending_checks (cl_transactions s)) ?g) s = (Inr (), s')"
    using assms(1) by (simp add: context_finalize_def after_def [of "read_state id"] read_state_def [of id] after_assoc)
  from after_Inr [OF this] obtain u s1 where s1: "?start s = (Inr u, s1)"
    "after (pending_checks (cl_transactions s)) ?g s1 = (Inr (), s')" by blast
  from after_Inr [OF s1(2)] obtain ws s2 where s2: "pending_checks (cl_transactions s) s1 = (Inr ws, s2)" "?g ws s2 = (Inr (), s')"
    by blast
  let ?others = "filter (\<lambda>w. t_owner (wk_trid w) \<noteq> cl_self s) (filter (\<lambda>w. \<not> is_null (wk_trid w)) ws)"
  from s2(2) obtain u' s3 where s3: "for_each (finish_owned rval) (filter (\<lambda>w. t_owner (wk_trid w) = cl_self s)
      (filter (\<lambda>w. \<not> is_null (wk_trid w)) ws)) s2 = (Inr u', s3)" "finish_caller rval ?others s3 = (Inr (), s')"
    using after_Inr by (metis (no_types, lifting))
  have start: "maintains (calling (cl_self s) (cl_caller s)) ?start" by (intro wf_intros ca.kept_updates calling_reply)
  have "calling (cl_self s) (cl_caller s) s" by (simp add: calling_def)
  note maintainsD [OF maintains_for_each [OF calling_owned] maintainsD [OF calling_checks maintainsD [OF start this s1(1)] s2(1)] s3(1)]
  then have caller: "cl_caller s3 = cl_caller s" by (simp add: calling_def)
  have "wk_trid w \<in> wk_trid ` set ws" using arg_cong [OF pending_checks_trids [OF s2(1)], of set] assms(3) by auto
  then obtain w' where "w' \<in> set ?others" "wk_trid w' = cl_caller s3" using assms(4-6) caller by auto
  from finish_caller_rolls_back [OF s3(2) assms(2) this] show ?thesis by (simp add: caller)
qed


end
