(* ===== verification/Client_Replies.thy ===== *)
theory Client_Replies
  imports Client_Application
begin

text \<open>
  What a server sends for a request: one reply, or one request to another service in its place, whatever the service
  does and wherever it fails.
\<close>

section \<open>The answers to a request\<close>

text \<open>The replies a process has sent, and the requests it has sent for the process that has sent \<open>m\<close>.\<close>

definition answers_to :: "service_request \<Rightarrow> client_event list \<Rightarrow> client_event list" where
  "answers_to m es = filter (\<lambda>e. case e of
     Sent _ (M_reply _) \<Rightarrow> True | Sent _ (M_call c) \<Rightarrow> cc_process c = cc_process m | _ \<Rightarrow> False) es"

fun answers_request :: "service_request \<Rightarrow> client_event \<Rightarrow> bool" where
  "answers_request m (Sent q (M_reply r)) \<longleftrightarrow>
     q = ph_queue (cc_process m) \<and> re_correlation r = cc_correlation m \<and> re_descriptor r = cc_descriptor m"
| "answers_request m (Sent q (M_call c)) \<longleftrightarrow>
     cc_correlation c = cc_correlation m \<and> cc_descriptor c = cc_descriptor m \<and> cc_process c = cc_process m \<and>
     cc_trid c = cc_trid m \<and> cc_flags c = cc_flags m"
| "answers_request m _ \<longleftrightarrow> False"

text \<open>While the service runs the sends go well, the reply is the one to the request, and \<open>es\<close> has been answered.\<close>

definition serving :: "process_handle \<Rightarrow> service_request \<Rightarrow> client_event list \<Rightarrow> xatmi_client \<Rightarrow> bool" where
  "serving p m es s \<longleftrightarrow> p \<noteq> cc_process m \<and> cl_self s = p \<and> cl_send s = (\<lambda>_ _. None) \<and> re_correlation (cl_reply s) = cc_correlation m \<and>
     re_descriptor (cl_reply s) = cc_descriptor m \<and> answers_to m (cl_events s) = es"

lemma answers_append: "answers_to m (es @ [e]) = answers_to m es @ answers_to m [e]"
  by (simp add: answers_to_def)

lemma serving_sends:
  "answers_to m [Sent q x] = [] \<Longrightarrow> maintains (serving p m es) (client_send q x)"
  by (simp add: maintains_def serving_def client_send_def answers_append)

lemma serving_same:
  assumes "\<And>s. cl_self (snd (f s)) = cl_self s \<and> cl_send (snd (f s)) = cl_send s \<and> cl_reply (snd (f s)) = cl_reply s \<and>
    answers_to m (cl_events (snd (f s))) = answers_to m (cl_events s)"
  shows "maintains (serving p m es) f"
  using assms by (simp add: maintains_def serving_def)

lemma serving_surroundings:
  "maintains (serving p m es) clock_now" "maintains (serving p m es) (record_event (Rm k r))" "maintains (serving p m es) make_uuid"
  "maintains (serving p m es) (rm_invoke k)" "maintains (serving p m es) (record_event (Timer_set d))"
  "maintains (serving p m es) (record_event Timer_unset)" "maintains (serving p m es) (receive_answer x c)"
  "maintains (serving p m es) (inbox_discard c)" "maintains (serving p m es) (receive_first b P)"
  by (rule serving_same; simp add: clock_now_def read_state_def record_event_def change_def make_uuid_def rm_invoke_def
      receive_answer_def inbox_discard_def receive_first_def Let_def answers_to_def split: option.split prod.split sum.split)+

lemma serving_other_sends:
  "maintains (serving p m es) (client_send q (M_involved p' t rms))" "maintains (serving p m es) (client_send q (M_commit p' t rms))"
  "maintains (serving p m es) (client_send q (M_rollback p' t rms))" "maintains (serving p m es) (client_send q (M_lookup n p' x))"
  "maintains (serving p m es) (client_send q (M_ack n p'))" "maintains (serving p m es) (client_send q (M_traffic n))"
  "maintains (serving p m es) (client_send q (M_advertise p' vs))" "maintains (serving p m es) (client_send q (M_unadvertise p' ns))"
  by (rule serving_sends; simp add: answers_to_def)+

lemma serving_calls: "cc_process c = p \<Longrightarrow> maintains (serving p m es) (client_send q (M_call c))"
  by (auto simp: maintains_def serving_def client_send_def answers_append) (simp add: answers_to_def)

interpretation sv: left_alone "serving p m es" p for p m es
  by (rule left_alone.intro; (rule serving_surroundings serving_other_sends serving_calls | simp add: serving_def))

section \<open>Blocks with destructors\<close>

lemma triple_on_error:
  assumes "triple P f Q R" "\<And>e. unwinds e \<Longrightarrow> triple (R e) g (\<lambda>_. R' e) R'" "\<And>e s. \<not> unwinds e \<Longrightarrow> R e s \<Longrightarrow> R' e s"
  shows "triple P (on_error f g) Q R'"
  unfolding on_error_def
proof (rule triple_catch [OF assms(1)])
  fix e
  show "triple (R e) (if unwinds e then after g (\<lambda>_. throw e) else throw e) Q R'"
    using assms(2,3) by (intro triple_if triple_after [of _ _ "\<lambda>_. R' e"] triple_throw) auto
qed

lemma triple_on_no_error: "triple P f Q (\<lambda>_ _. False) \<Longrightarrow> triple P (on_error f g) Q R"
  by (rule triple_on_error [where R = "\<lambda>_ _. False"]) (auto simp: triple_def)

lemma triple_guarded:
  assumes "triple P f Q R" "\<And>e s. unwinds e \<Longrightarrow> R e s \<Longrightarrow> Q () s"
  shows "triple P (guarded f) Q (\<lambda>e s. \<not> unwinds e)"
  unfolding guarded_def
  by (rule triple_catch [OF assms(1)]) (use assms(2) in \<open>auto intro!: triple_if triple_return triple_throw\<close>)

lemma triple_and_finally:
  assumes "triple P f Q R" "\<And>x. triple (Q x) g (\<lambda>_. Q x) R" "\<And>e. unwinds e \<Longrightarrow> triple (R e) g (\<lambda>_. R e) R"
  shows "triple P (and_finally f g) Q R"
  unfolding and_finally_def
  by (rule triple_after [OF triple_on_error [OF assms(1,3)]]) (auto intro: triple_after [OF assms(2)] triple_return)

lemma triple_for_each: "(\<And>x. triple P (f x) (\<lambda>_. P) R) \<Longrightarrow> triple P (for_each f xs) (\<lambda>_. P) R"
proof (induction xs)
  case (Cons x xs)
  have "triple P (after (f x) (\<lambda>_. for_each f xs)) (\<lambda>_. P) R" using Cons by (intro triple_after) auto
  then show ?case by (simp add: triple_def)
qed (simp add: triple_def)

lemma maintains_keeps: "maintains P f \<Longrightarrow> triple P f (\<lambda>_. P) (\<lambda>_. P)"
  by (simp add: maintains_triple)

section \<open>What a server does\<close>

lemma serving_reply: "(\<And>r. re_correlation (g r) = re_correlation r \<and> re_descriptor (g r) = re_descriptor r) \<Longrightarrow>
    maintains (serving p m es) (set_reply g)"
  by (simp add: maintains_def serving_def set_reply_def change_def)

lemma serving_caller: "maintains (serving p m es) (change (\<lambda>s. s\<lparr>cl_caller := f s\<rparr>))"
  by (simp add: maintains_def serving_def change_def)

lemmas serving_basics = serving_caller sv.basics sv.kept_context sv.kept_begin sv.kept_commit sv.kept_rollback sv.kept_lookup sv.kept_cancel

lemma serving_finalize: "maintains (serving p m es) (context_finalize rval)"
proof -
  have check: "maintains (serving p m es) (pending_check w)" for w
    unfolding pending_check_def by (intro wf_intros serving_basics serving_reply) simp
  have checks: "maintains (serving p m es) (pending_checks ws)" for ws
    by (induction ws) (simp_all, (intro wf_intros check; assumption?)+)
  have owned: "maintains (serving p m es) (finish_owned rval w)" for w
    unfolding finish_owned_def finish_rollback_def by (intro wf_intros serving_basics serving_reply; simp)
  have others: "maintains (serving p m es) (finish_caller rval ws)" for ws
    unfolding finish_caller_def by (intro wf_intros serving_basics serving_reply; simp)
  show ?thesis unfolding context_finalize_def
    by (intro wf_intros serving_basics serving_reply checks owned others; simp)
qed

lemma serving_policies:
  "maintains (serving p m es) (policy_transaction m' mode start)" "maintains (serving p m es) (service_information m')"
  "maintains (serving p m es) (reply_with c d n)" "maintains (serving p m es) server_finalize"
  unfolding policy_transaction_def service_information_def reply_with_def server_finalize_def
  by (intro wf_intros serving_basics serving_reply; (split transaction_mode.split)?; intro conjI impI wf_intros serving_basics; simp)+

text \<open>Sends never fail here.\<close>

lemma serving_send: "answers_to m [Sent q x] = [] \<Longrightarrow> triple (serving p m es) (client_send q x) (\<lambda>_. serving p m es) (\<lambda>_ _. False)"
  by (simp add: triple_def serving_def client_send_def answers_append)

lemma serving_ack: "triple (serving p m es) (policy_ack m') (\<lambda>_. serving p m es) (\<lambda>_ _. False)"
  unfolding policy_ack_def
proof (rule triple_after)
  show "triple (serving p m es) (read_state id) (\<lambda>_. serving p m es) (\<lambda>_ _. False)" by (simp add: triple_def read_state_def)
qed (rule serving_send, simp add: answers_to_def)

lemma serving_monitor: "triple (serving p m es) (monitor_call m') (\<lambda>_. serving p m es) (\<lambda>_ _. False)"
  unfolding monitor_call_def policy_statistics_def guarded_def
proof (intro triple_for_each triple_catch)
  show "triple (serving p m es) (client_send q (M_traffic (si_name (cc_service m')))) (\<lambda>_. serving p m es) (\<lambda>_ _. False)" for q
    by (rule serving_send) (simp add: answers_to_def)
qed (simp add: triple_def)

definition answered :: "process_handle \<Rightarrow> service_request \<Rightarrow> client_event list \<Rightarrow> xatmi_client \<Rightarrow> bool" where
  "answered p m old s \<longleftrightarrow> (\<exists>e. serving p m (old @ [e]) s \<and> answers_request m e)"

lemma answered_keeps: "(\<And>es. triple (serving p m es) f (\<lambda>_. serving p m es) R) \<Longrightarrow> triple (answered p m old) f (\<lambda>_. answered p m old) R"
  unfolding triple_def answered_def by (fastforce split: sum.split prod.split)

lemma answered_maintains: "(\<And>es. maintains (serving p m es) f) \<Longrightarrow> maintains (answered p m old) f"
  unfolding maintains_def answered_def by blast

lemma serving_send_reply:
  "\<not> has_flag TPNOREPLY (cc_flags m) \<Longrightarrow> triple (serving p m old) (send_service_reply m) (\<lambda>_. answered p m old) (\<lambda>_ _. False)"
  unfolding send_service_reply_def policy_reply_def
  by (simp add: triple_def after_def read_state_def client_send_def serving_def answers_append answered_def)
    (simp add: answers_to_def)

lemma after_keeps: "maintains P f \<Longrightarrow> (\<And>x. triple P (g x) Q (\<lambda>_. P)) \<Longrightarrow> triple P (after f g) Q (\<lambda>_. P)"
  by (rule triple_after [OF maintains_keeps])

lemma lookup_end_answered: "triple (answered p m old) (lookup_end c) (\<lambda>_. answered p m old) (\<lambda>_ _. False)"
proof -
  have "triple (serving p m es) (lookup_end c) (\<lambda>_. serving p m es) (\<lambda>_ _. False)" for es
    using sv.kept_lookup(3) [of p m es c]
    by (auto simp: maintains_def triple_def lookup_end_def inbox_discard_def change_def return_def split: if_splits)
  then show ?thesis by (rule answered_keeps)
qed

lemma forward_sends:
  assumes "cc_correlation c = cc_correlation m" "cc_descriptor c = cc_descriptor m" "cc_process c = cc_process m"
    "cc_trid c = cc_trid m" "cc_flags c = cc_flags m"
  shows "triple (serving p m old) (and_finally (client_send q (M_call c)) (lookup_end k)) (\<lambda>_. answered p m old) (\<lambda>_. serving p m old)"
proof (rule triple_weaken)
  have "triple (serving p m old) (client_send q (M_call c)) (\<lambda>_. answered p m old) (\<lambda>_ _. False)"
    using assms by (simp add: triple_def client_send_def serving_def answers_append answered_def) (simp add: answers_to_def)
  then show "triple (serving p m old) (and_finally (client_send q (M_call c)) (lookup_end k)) (\<lambda>_. answered p m old) (\<lambda>_ _. False)"
    by (rule triple_and_finally) (rule lookup_end_answered, simp add: triple_def)
qed simp_all

lemma forward_answers:
  "triple (serving p m old) (policy_forward m service data len) (\<lambda>_. answered p m old) (\<lambda>_. serving p m old)"
proof -
  have send: "triple (serving p m old) (and_finally
      (client_send (ph_queue (la_process target)) (M_call ((forward_message m buffer)\<lparr>cc_service := la_service target\<rparr>)))
      (lookup_end c)) (\<lambda>_. answered p m old) (\<lambda>_. serving p m old)" for target c buffer
    by (rule forward_sends) (simp_all add: forward_message_def)
  have rest: "triple (serving p m old) (case x of (buffer, target, c) \<Rightarrow>
      if la_state target = L_absent then after (lookup_end c) (\<lambda>_. throw (Ex_xatmi TPENOENT))
      else after (if la_state target = L_busy then on_error (lookup_receive c) (lookup_end c) else return (target, c))
        (\<lambda>(target', c'). and_finally
          (client_send (ph_queue (la_process target')) (M_call ((forward_message m buffer)\<lparr>cc_service := la_service target'\<rparr>)))
          (lookup_end c'))) (\<lambda>_. answered p m old) (\<lambda>_. serving p m old)" for x
    by (cases x) (auto intro!: triple_if after_keeps triple_throw send wf_intros sv.kept_lookup simp del: case_prod_unfold)
  show ?thesis unfolding policy_forward_def
    by (rule after_keeps, rule maintains_read, rule triple_if, rule triple_throw, assumption, rule after_keeps, rule sv.kept_lookup,
      rule after_keeps, intro wf_intros sv.basics sv.kept_lookup, rule rest)
qed

lemma finish_service_answers:
  "triple (serving p m old) (finish_service m j)
    (\<lambda>r s. case r of None \<Rightarrow> answered p m old s | Some _ \<Rightarrow> serving p m old s) (\<lambda>_. serving p m old)"
proof (cases j)
  case (J_return rval code data len)
  then show ?thesis unfolding finish_service_def
    by (auto intro!: after_keeps sv.basics serving_policies triple_return)
next
  case (J_forward service data len)
  then show ?thesis unfolding finish_service_def
    by (auto intro!: after_keeps wf_intros triple_if triple_throw triple_after [OF forward_answers] triple_return)
qed (simp add: finish_service_def triple_throw)

lemma dispatch_answers:
  "triple (serving p m old) (dispatch_service (services_of apps) m)
    (\<lambda>r s. case r of None \<Rightarrow> answered p m old s | Some _ \<Rightarrow> serving p m old s) (\<lambda>_. serving p m old)"
proof -
  have called: "maintains (serving p m old) (call_function (services_of apps) v i)" for v i
    unfolding call_function_def services_of_def by (intro wf_intros sv.kept_application)
  show ?thesis unfolding dispatch_service_def
    by (rule after_keeps, rule sv.basics, rule after_keeps, rule maintains_read, split option.split)
      (auto intro!: triple_throw after_keeps sv.basics serving_policies called finish_service_answers)
qed

lemma error_answers:
  assumes "\<not> has_flag TPNOREPLY (cc_flags m)"
  shows "triple (serving p m old) (error_guards m) (\<lambda>_. answered p m old) (\<lambda>e _. \<not> unwinds e)"
  unfolding error_guards_def
proof (intro triple_after)
  show "triple (serving p m old) (guarded (context_finalize TPESVCERR)) (\<lambda>_. serving p m old) (\<lambda>e _. \<not> unwinds e)"
    by (rule triple_guarded [OF maintains_keeps [OF serving_finalize]])
  show "triple (serving p m old) (guarded (send_service_reply m)) (\<lambda>_. answered p m old) (\<lambda>e _. \<not> unwinds e)"
    by (rule triple_guarded [OF serving_send_reply [OF assms]]) simp
  show "triple (answered p m old) (guarded (policy_ack m)) (\<lambda>_. answered p m old) (\<lambda>e _. \<not> unwinds e)"
    by (rule triple_guarded [OF answered_keeps [OF serving_ack]]) simp
qed

lemma finish_answers:
  assumes "\<not> has_flag TPNOREPLY (cc_flags m)"
  shows "triple (serving p m old) (finish_call m rval) (\<lambda>_. answered p m old) (\<lambda>e s. unwinds e \<longrightarrow> answered p m old s)"
  unfolding finish_call_def
proof (intro triple_after)
  let ?R = "\<lambda>e s. unwinds e \<longrightarrow> answered p m old s"
  show "triple (serving p m old) (on_error (policy_ack m) g) (\<lambda>_. serving p m old) ?R" for g
    by (rule triple_on_no_error [OF serving_ack])
  have late: "triple (serving p m old) (guarded (send_service_reply m)) (\<lambda>_. answered p m old) ?R"
    by (rule triple_weaken [OF triple_guarded [OF serving_send_reply [OF assms]]]) simp_all
  have monitor: "triple (serving p m old) (monitor_call m) (\<lambda>_. serving p m old) ?R"
    by (rule triple_weaken [OF serving_monitor]) simp_all
  show "triple (serving p m old) (on_error (context_finalize rval) (after (monitor_call m) (\<lambda>_. guarded (send_service_reply m))))
      (\<lambda>_. serving p m old) ?R"
    by (rule triple_on_error [OF maintains_keeps [OF serving_finalize]], rule triple_weaken [OF triple_after [OF monitor late]]) simp_all
  show "triple (serving p m old) (on_error (send_service_reply m) (monitor_call m)) (\<lambda>_. answered p m old) ?R"
    by (rule triple_on_no_error [OF serving_send_reply [OF assms]])
  show "triple (answered p m old) (monitor_call m) (\<lambda>_. answered p m old) ?R"
    by (rule triple_weaken [OF answered_keeps [OF serving_monitor]]) simp_all
qed

lemma guarded_dispatch_answers:
  assumes "\<not> has_flag TPNOREPLY (cc_flags m)"
  shows "triple (serving p m old) (dispatch_guarded (services_of apps) m) (\<lambda>_. answered p m old) (\<lambda>e s. unwinds e \<longrightarrow> answered p m old s)"
  unfolding dispatch_guarded_def
proof (rule triple_after)
  let ?R = "\<lambda>e s. unwinds e \<longrightarrow> answered p m old s"
  show "triple (serving p m old) (on_error (dispatch_service (services_of apps) m) (error_guards m))
      (\<lambda>r s. case r of None \<Rightarrow> answered p m old s | Some _ \<Rightarrow> serving p m old s) ?R"
    by (rule triple_on_error [OF dispatch_answers]) (auto intro!: triple_weaken [OF error_answers [OF assms]])
  have forwarded: "triple (answered p m old) (guarded (policy_ack m)) (\<lambda>_. answered p m old) ?R"
    by (rule triple_weaken [OF triple_guarded [OF answered_keeps [OF serving_ack]]]) simp_all
  show "triple (\<lambda>s. case r of None \<Rightarrow> answered p m old s | Some _ \<Rightarrow> serving p m old s)
      (case r of None \<Rightarrow> guarded (policy_ack m) | Some rval \<Rightarrow> finish_call m rval) (\<lambda>_. answered p m old) ?R" for r
    using forwarded finish_answers [OF assms] by (cases r) simp_all
qed

lemma dispatch_call_answers:
  assumes "\<not> has_flag TPNOREPLY (cc_flags m)"
  shows "triple (\<lambda>s. serving p m old (s\<lparr>cl_reply := initial_reply m\<rparr>)) (handle_service_call (services_of apps) m)
    (\<lambda>_. answered p m old) (\<lambda>e _. \<not> unwinds e)"
  unfolding handle_service_call_def dispatch_call_def
proof (rule triple_guarded)
  let ?R = "\<lambda>e s. unwinds e \<longrightarrow> answered p m old s"
  have cleaned: "triple (answered p m old) (guarded server_finalize) (\<lambda>_. answered p m old) ?R"
    by (rule triple_weaken [OF triple_guarded [OF maintains_keeps [OF answered_maintains [OF serving_policies(4)]]]]) simp_all
  show "triple (\<lambda>s. serving p m old (s\<lparr>cl_reply := initial_reply m\<rparr>))
      (after (set_reply (\<lambda>_. initial_reply m)) (\<lambda>_. and_finally (dispatch_guarded (services_of apps) m) (guarded server_finalize)))
      (\<lambda>_. answered p m old) ?R"
  proof (rule triple_after)
    show "triple (\<lambda>s. serving p m old (s\<lparr>cl_reply := initial_reply m\<rparr>)) (set_reply (\<lambda>_. initial_reply m)) (\<lambda>_. serving p m old) ?R"
      unfolding set_reply_def by (rule triple_change)
    show "triple (serving p m old) (and_finally (dispatch_guarded (services_of apps) m) (guarded server_finalize)) (\<lambda>_. answered p m old) ?R"
      by (rule triple_and_finally [OF guarded_dispatch_answers [OF assms]]) (simp_all add: cleaned)
  qed
qed simp


end
