(* ===== verification/Client_Examples.thy ===== *)
theory Client_Examples
  imports Client_Suspend Client_Replies
begin

text \<open>
  Processes with a few transactions, resources and calls: the properties at concrete inputs, and what the code does
  that it does not mean to.
\<close>

section \<open>Two processes\<close>

definition sample_resource :: "int \<Rightarrow> bool \<Rightarrow> linked_resource" where
  "sample_resource rm dynamic = \<lparr>ls_key = ''db'', ls_switch = 0, ls_dynamic = dynamic, ls_id = rm, ls_openinfo = '''', ls_closeinfo = ''''\<rparr>"

definition quiet_reply :: call_answer where
  "quiet_reply = \<lparr>re_correlation = nil_uuid, re_descriptor = 0, re_error = 0, re_code = 0, re_buffer = null_payload,
     re_trid = null_trid, re_state = 0\<rparr>"

definition sample_process :: "int \<Rightarrow> xatmi_client" where
  "sample_process pid = \<lparr>cl_self = \<lparr>ph_pid = pid, ph_queue = 10 * pid\<rparr>, cl_control = Unchained, cl_commit_return = Completed,
     cl_all = [sample_resource 7 True, sample_resource 3 False], cl_fixed = [sample_resource 3 False],
     cl_dynamic = [sample_resource 7 True], cl_configuration = [], cl_transactions = [], cl_outside = no_work,
     cl_caller = null_trid, cl_timeout = 0, cl_pending = initial_pending, cl_user_code = 0, cl_manager = 1000, cl_broker = 1001,
     cl_events = [], cl_inbox = [], cl_discarded = [], cl_rm = (\<lambda>_ _. 0), cl_send = (\<lambda>_ _. None), cl_no_answer = Ex_never,
     cl_ready = (\<lambda>_. 0), cl_clock = int, cl_uuid = (\<lambda>n. 100 * pid + int n), cl_uuids = 0,
     cl_ids = (\<lambda>n. ([of_nat n, of_int pid], [0, 0], [])), cl_created = 0,
     cl_holder = \<lparr>ho_inbound = 0, ho_pools = [default_pool], ho_address = (\<lambda>n. int n + 1), ho_allocations = 0\<rparr>,
     cl_service = '''', cl_parent = '''', cl_reply = quiet_reply, cl_services = [], cl_physical = []\<rparr>"

lemma sample_starts: "process_starts (sample_process pid)"
  by (simp add: process_starts_def sample_process_def)

definition sample_service :: server_service where
  "sample_service = \<lparr>ss_origin = ''svc'', ss_function = 77, ss_type = 0, ss_transaction = Mode_automatic\<rparr>"

definition sample_info :: "string \<Rightarrow> service_info" where
  "sample_info name = \<lparr>si_name = name, si_type = 0, si_timeout = 0, si_monitors = [5], si_transaction = 0\<rparr>"

definition sample_server :: xatmi_client where
  "sample_server = (sample_process 2)\<lparr>cl_services := [(''svc'', sample_service)], cl_physical := [sample_service],
     cl_inbox := [(200, A_rollback 0)]\<rparr>"

definition sample_request :: "trid \<Rightarrow> service_request" where
  "sample_request t = \<lparr>cc_correlation = 44, cc_descriptor = 1, cc_process = \<lparr>ph_pid = 1, ph_queue = 10\<rparr>,
     cc_service = sample_info ''svc'', cc_parent = '''', cc_trid = t, cc_flags = 0, cc_buffer = null_payload\<rparr>"

section \<open>Well-formed processes\<close>

definition busy_inputs :: "process_input list" where
  "busy_inputs = [Call Api_begin, Call (Api_register 7), Arrives 100 (A_lookup \<lparr>la_service = sample_info ''svc'',
       la_process = \<lparr>ph_pid = 2, ph_queue = 20\<rparr>, la_state = L_idle\<rparr>), Call (Api_acall (Some ''svc'') 0 0 0)]"

definition busy_process :: xatmi_client where
  "busy_process = snd (for_each (process_event (\<lambda>_ _. Ends J_none)) busy_inputs (sample_process 1))"

lemma busy_process_works: "map wk_descriptors (cl_transactions busy_process) = [[1]]"
  "map wk_resources (cl_transactions busy_process) = [[7]]" "map de_active (cl_pending busy_process) = True # replicate 7 False"
  by code_simp+

theorem reachable_clients_are_well_formed_witness: "client_wf busy_process"
proof -
  have "for_each (process_event (\<lambda>_ _. Ends J_none)) busy_inputs (sample_process 1) =
      (fst (for_each (process_event (\<lambda>_ _. Ends J_none)) busy_inputs (sample_process 1)), busy_process)"
    by (simp add: busy_process_def)
  then show ?thesis by (rule reachable_clients_are_well_formed [OF sample_starts])
qed

section \<open>Commit\<close>

text \<open>A transaction with both resources; the transaction manager has answered.\<close>

definition sample_trid :: trid where
  "sample_trid = create_id [1, 2] [0, 0] [] \<lparr>ph_pid = 1, ph_queue = 10\<rparr>"

definition prepared_process :: xatmi_client where
  "prepared_process = (sample_process 1)\<lparr>cl_transactions := [(work_on sample_trid)\<lparr>wk_resources := [7]\<rparr>],
     cl_inbox := [(100, A_commit Stage_commit 0)]\<rparr>"

lemma sample_trid_given: "\<not> is_null sample_trid"
  by (simp add: sample_trid_def is_null_def xid_null_def create_id_def casual_xid_def cCasual_def cNull_def)

lemma prepared_wf: "client_wf prepared_process"
  by (simp add: client_wf_def work_wf_def prepared_process_def sample_process_def work_on_def no_work_def sample_trid_given
      initial_pending_def upto.simps sample_resource_def) (simp add: null_trid_def is_null_def null_id_def xid_null_def)

lemma prepared_commits: "tx_commit prepared_process = (Inr TX_OK, snd (tx_commit prepared_process))"
proof -
  have "fst (tx_commit prepared_process) = Inr TX_OK" by code_simp
  then show ?thesis by (metis prod.collapse)
qed


section \<open>Suspend and resume\<close>

theorem suspend_resume_round_trip_witness:
  "\<exists>s1 codes es. tx_suspend True prepared_process = (Inr (TX_OK, Some (t_xid (wk_trid (current prepared_process)))), s1) \<and>
    tx_resume (Some (t_xid (wk_trid (current prepared_process)))) s1 =
      (Inr TX_OK, prepared_process\<lparr>cl_events := cl_events prepared_process @
         map2 (ended (current prepared_process) TMSUSPEND) (cl_all prepared_process) codes @ es\<rparr>)"
proof -
  have "named_results prepared_process"
    by (simp add: named_results_def prepared_process_def sample_process_def xa_named_def)
  moreover have "wk_trid (current prepared_process) = sample_trid" "butlast (cl_transactions prepared_process) = []"
    by (simp_all add: prepared_process_def current_def work_on_def)
  ultimately show ?thesis
    using suspend_resume_round_trip [OF prepared_wf _ refl] sample_trid_given by auto
qed

section \<open>One answer\<close>

text \<open>A service that begins a transaction of its own, fails to call another one and is left by an exception.\<close>

definition sample_application :: "int \<Rightarrow> call_information \<Rightarrow> application" where
  "sample_application a i = Calls Api_begin (\<lambda>_. Calls (Api_acall None 0 0 0) (\<lambda>_. Raises Ex_std))"

lemma sample_request_served:
  "handle_service_call (services_of sample_application) (sample_request null_trid) sample_server =
    (Inr (), snd (handle_service_call (services_of sample_application) (sample_request null_trid) sample_server))"
proof -
  have "fst (handle_service_call (services_of sample_application) (sample_request null_trid) sample_server) = Inr ()" by code_simp
  then show ?thesis by (metis prod.collapse)
qed


section \<open>A service that fails\<close>

definition calling_process :: xatmi_client where
  "calling_process = (sample_process 1)\<lparr>cl_transactions := [work_on sample_trid]\<rparr>"

definition joined_server :: xatmi_client where
  "joined_server = sample_server\<lparr>cl_transactions := [work_on sample_trid], cl_caller := sample_trid\<rparr>"

lemma joined_server_ends: "context_finalize TPFAIL joined_server = (Inr (), snd (context_finalize TPFAIL joined_server))"
proof -
  have "fst (context_finalize TPFAIL joined_server) = Inr ()" by code_simp
  then show ?thesis by (metis prod.collapse)
qed

definition told_process :: xatmi_client where
  "told_process = snd (context_update (cl_reply (snd (context_finalize TPFAIL joined_server))) calling_process)"

lemma process_told: "context_update (cl_reply (snd (context_finalize TPFAIL joined_server))) calling_process = (Inr (), told_process)"
proof -
  have "fst (context_update (cl_reply (snd (context_finalize TPFAIL joined_server))) calling_process) = Inr ()" by code_simp
  then show ?thesis by (metis told_process_def prod.collapse)
qed


section \<open>What goes wrong\<close>

text \<open>
  A commit in a process with stacked transactions tells the resources of the transaction that becomes the current one
  \<open>xa_end\<close> with \<open>TMRESUME\<close>, not \<open>xa_start\<close>; when there is no other, the code reads the last element of an empty vector.
\<close>

definition stacked_process :: "work list \<Rightarrow> xatmi_client" where
  "stacked_process ws = prepared_process\<lparr>cl_control := Stacked, cl_transactions := ws @ cl_transactions prepared_process\<rparr>"

lemma stacked_commit_ends_the_resumed:
  "fst (tx_commit (stacked_process [work_on sample_trid])) = Inr TX_OK"
  "drop 2 (rm_calls (cl_events (snd (tx_commit (stacked_process [work_on sample_trid]))))) =
    [Xa_end 0 (t_xid sample_trid) 7 TMRESUME, Xa_end 0 (t_xid sample_trid) 3 TMRESUME]"
  "fst (tx_commit (stacked_process [])) = Inl Ex_undefined"
  by code_simp+

text \<open>A chained process keeps a null transaction for each one it has ended.\<close>

lemma chained_commit_grows_the_stack:
  "map (is_null \<circ> wk_trid) (cl_transactions (snd (tx_commit (prepared_process\<lparr>cl_control := Chained\<rparr>)))) = [True, False]"
  by code_simp

text \<open>Without a transaction a commit says that there was one.\<close>

lemma commit_without_transaction: "fst (tx_commit (sample_process 1)) = Inr TX_NO_BEGIN"
  by code_simp

text \<open>\<open>XA_RETRY\<close>, which says that the commit has to be tried again, counts as a success.\<close>

lemma retry_counts_as_committed:
  "fst (tx_commit (prepared_process\<lparr>cl_inbox := [(100, A_commit Stage_commit XA_RETRY)]\<rparr>)) = Inr TX_OK"
  by code_simp

text \<open>A result of a resource manager that has no name makes the begin fail, though the resource was started.\<close>

lemma unnamed_result_throws: "fst (tx_begin ((sample_process 1)\<lparr>cl_rm := \<lambda>_ _. 50\<rparr>)) = Inr TX_FAIL"
  by code_simp

text \<open>Invalid arguments are reported as a fatal error.\<close>

lemma invalid_argument_is_fatal: "fst (tx_set_transaction_timeout (- 1) (sample_process 1)) = Inr TX_FAIL"
  by code_simp

text \<open>
  A call that fails after its descriptor was reserved gives the descriptor back, but the transaction still waits for it:
  it can not be committed, and the descriptor can not be cancelled.
\<close>

definition lookup_reply :: "lookup_state \<Rightarrow> lookup_answer" where
  "lookup_reply st = \<lparr>la_service = sample_info ''svc'', la_process = \<lparr>ph_pid = 2, ph_queue = 20\<rparr>, la_state = st\<rparr>"

definition failed_caller :: xatmi_client where
  "failed_caller = snd (tpacall (Some ''svc'') 0 0 0 (calling_process\<lparr>cl_inbox := [(100, A_lookup (lookup_reply L_idle))],
     cl_send := \<lambda>_ q. if q = 20 then Some Ex_base else None\<rparr>))"

lemma failed_call_blocks_the_commit:
  "map wk_descriptors (cl_transactions failed_caller) = [[1]]" "list_all (\<lambda>d. \<not> de_active d) (cl_pending failed_caller)"
  "fst (tx_commit failed_caller) = Inr TX_PROTOCOL_ERROR" "map_sum id fst (fst (tpcancel 1 failed_caller)) = Inr (- 1)"
  by code_simp+

text \<open>
  When a service ends with such a transaction, \<open>finalize\<close> fails before it says anything of the caller's transaction:
  the reply has no transaction, and the caller of the failed service can commit.
\<close>

definition failed_server :: xatmi_client where
  "failed_server = joined_server\<lparr>cl_transactions := [(work_on sample_trid)\<lparr>wk_descriptors := [1], wk_local := False\<rparr>]\<rparr>"

lemma failed_call_in_service_lets_the_caller_commit:
  "fst (context_finalize TPFAIL failed_server) = Inl (Ex_xatmi TPEBADDESC)"
  "is_null (re_trid (cl_reply (snd (context_finalize TPFAIL failed_server))))"
  "cl_transactions (snd (context_finalize TPFAIL failed_server)) = []"
  "map wk_state (cl_transactions (snd (context_update (cl_reply (snd (context_finalize TPFAIL failed_server))) calling_process))) = [T_active]"
  by code_simp+

text \<open>A caller does not look at the error of a reply: a call that failed returns as one that did not.\<close>

definition answering :: "int \<Rightarrow> xatmi_client" where
  "answering code = (sample_process 1)\<lparr>cl_inbox := [(100, A_lookup (lookup_reply L_idle)),
     (101, A_call (quiet_reply\<lparr>re_correlation := 101, re_descriptor := 1, re_error := code\<rparr>))]\<rparr>"

lemma service_error_is_not_seen: "fst (tpcall (Some ''svc'') 0 0 0 0 (answering TPESVCERR)) = fst (tpcall (Some ''svc'') 0 0 0 0 (answering 0))"
  "map_sum id (\<lambda>(r, e, _). (r, e)) (fst (tpcall (Some ''svc'') 0 0 0 0 (answering TPESVCERR))) = Inr (0, 0)"
  by code_simp+

text \<open>
  A service that forwards ends with its transaction still there: it is neither committed nor rolled back, and the next
  request meets it on the stack.
\<close>

definition forwarding_server :: xatmi_client where
  "forwarding_server = snd (handle_service_call (services_of (\<lambda>_ _. Ends (J_forward ''other'' 0 0))) (sample_request null_trid)
     (sample_server\<lparr>cl_inbox := [(200, A_lookup (lookup_reply L_idle))]\<rparr>))"

lemma forward_leaves_its_transaction:
  "map (is_null \<circ> wk_trid) (cl_transactions forwarding_server) = [False]"
  "length (answers_to (sample_request null_trid) (cl_events forwarding_server)) = 1"
  by code_simp+

text \<open>A function that is advertised for the first time is registered by the empty name.\<close>

lemma advertised_by_no_name: "map fst (cl_services (snd (server_advertise ''svc'' 5 (sample_process 1)))) = ['''']"
  by code_simp

text \<open>
  A caller that stops waiting for a busy service acknowledges the call to the broker before an instance is
  reserved for it, and will throw away the answer that brings the instance: nobody acknowledges that one.
\<close>

definition impatient_caller :: xatmi_client where
  "impatient_caller = snd (tpacall (Some ''svc'') 0 0 0
     ((sample_process 1)\<lparr>cl_inbox := [(100, A_lookup (lookup_reply L_busy))], cl_no_answer := Ex_xatmi 13\<rparr>))"

lemma late_instance_stays_reserved:
  "cl_events impatient_caller = [Sent 1001 (M_lookup ''svc'' \<lparr>ph_pid = 1, ph_queue = 10\<rparr> Regular), Timer_unset, Timer_unset,
    Sent 1001 (M_ack ''svc'' \<lparr>ph_pid = 2, ph_queue = 20\<rparr>)]"
  "cl_discarded impatient_caller = [100]"
  "let s = snd (process_event (\<lambda>_ _. Ends J_none) (Arrives 100 (A_lookup (lookup_reply L_idle))) impatient_caller)
   in cl_inbox s = [] \<and> cl_events s = cl_events impatient_caller"
  by code_simp+

end
