(* ===== verification/Order_Buffer.thy ===== *)
theory Order_Buffer
  imports Field_Api
begin

text \<open>
  The order buffer of middleware/buffer (\<open>source/order.cpp\<close>): values are appended behind each
  other in network byte order and are read back in the same order; only reading beyond what has been
  inserted is checked. The memory of the vector is modelled with its whole allocation, since the
  selecting functions look at the bytes before they check that they have been inserted: the bytes in
  use are a prefix of \<open>ob_store\<close>, whose length is the capacity, and what an allocation finds in
  its memory is an argument.
\<close>

section \<open>The buffer\<close>

record order_buffer =
  ob_store :: "byte list"
  ob_used :: nat
  ob_selector :: nat

definition ob_memory :: "order_buffer \<Rightarrow> byte list" where
  "ob_memory b = take (ob_used b) (ob_store b)"

definition ob_reserved :: "order_buffer \<Rightarrow> nat" where
  "ob_reserved b = length (ob_store b)"

definition ob_utilized :: "order_buffer \<Rightarrow> nat" where
  "ob_utilized b = ob_used b"

definition ob_consumed :: "order_buffer \<Rightarrow> nat" where
  "ob_consumed b = ob_selector b"

text \<open>\<open>transport\<close> throws when the user claims more than is allocated.\<close>

definition ob_transport :: "order_buffer \<Rightarrow> nat \<Rightarrow> nat option" where
  "ob_transport b user_size = (if user_size > ob_reserved b then None else Some (ob_utilized b))"

definition ob_clear :: "order_buffer \<Rightarrow> order_buffer" where
  "ob_clear b = b\<lparr>ob_used := 0, ob_selector := 0\<rparr>"

definition ob_reset :: "order_buffer \<Rightarrow> order_buffer" where
  "ob_reset b = b\<lparr>ob_selector := 0\<rparr>"

text \<open>The insertion at the end of the vector, for bytes that fit its capacity.\<close>

definition ob_insert :: "byte list \<Rightarrow> order_buffer \<Rightarrow> order_buffer" where
  "ob_insert bs b =
     b\<lparr>ob_store := overwrite (ob_used b) bs (ob_store b), ob_used := ob_used b + length bs\<rparr>"

text \<open>A native value of \<open>n\<close> bytes with the unsigned pattern \<open>v\<close>.\<close>

definition ob_append_value :: "nat \<Rightarrow> nat \<Rightarrow> order_buffer \<Rightarrow> bool \<times> order_buffer" where
  "ob_append_value n v b =
     (if ob_reserved b - ob_utilized b < n then (False, b) else (True, ob_insert (be_bytes n v) b))"

text \<open>A C string is the bytes before the first null, and is stored with its null.\<close>

definition ob_append_string :: "byte list \<Rightarrow> order_buffer \<Rightarrow> bool \<times> order_buffer" where
  "ob_append_string text b =
     (let bs = takeWhile (\<lambda>c. c \<noteq> 0) text @ [0]
      in if ob_reserved b - ob_utilized b < length bs then (False, b) else (True, ob_insert bs b))"

text \<open>The data is the \<open>n\<close> bytes the pointer leads to.\<close>

definition ob_append_binary :: "byte list \<Rightarrow> nat \<Rightarrow> order_buffer \<Rightarrow> bool \<times> order_buffer" where
  "ob_append_binary data n b =
     (if ob_reserved b - ob_utilized b < 8 + n then (False, b)
      else (True, ob_insert (take n data) (snd (ob_append_value 8 n b))))"

text \<open>
  What a \<open>select\<close> comes to. \<open>Over_read\<close> is a read outside the allocation, of which the language says
  nothing; otherwise a refusal leaves the buffer as it was.
\<close>

datatype 'a selection = Selected 'a order_buffer | Refused | Over_read

definition ob_select_value :: "nat \<Rightarrow> order_buffer \<Rightarrow> nat selection" where
  "ob_select_value n b =
     (if ob_reserved b < ob_selector b + n then Over_read
      else if ob_utilized b - ob_consumed b < n then Refused
      else Selected (be_value (take n (drop (ob_selector b) (ob_store b))))
             (b\<lparr>ob_selector := ob_selector b + n\<rparr>))"

text \<open>The result is the position the pointer is set to.\<close>

definition ob_select_string :: "order_buffer \<Rightarrow> nat selection" where
  "ob_select_string b =
     (let text = drop (ob_selector b) (ob_store b)
      in if 0 \<notin> set text then Over_read
         else let count = length (takeWhile (\<lambda>c. c \<noteq> 0) text) + 1
              in if ob_utilized b - ob_consumed b < count then Refused
                 else Selected (ob_selector b) (b\<lparr>ob_selector := ob_selector b + count\<rparr>))"

text \<open>
  The size is read first; the check adds it to an unsigned number, modulo \<open>2 ^ 64\<close>. The first
  component is what has been written through \<open>size\<close>, which happens also when the data is refused.
\<close>

definition ob_select_binary :: "order_buffer \<Rightarrow> int option \<times> nat selection" where
  "ob_select_binary b =
     (case ob_select_value 8 b of
        Over_read \<Rightarrow> (None, Over_read)
      | Refused \<Rightarrow> (None, Refused)
      | Selected u b' \<Rightarrow>
          let n = to_signed 8 u; past = to_unsigned 8 (int (ob_consumed b') + n)
          in (Some n,
              if ob_utilized b' < past then Refused
              else Selected (ob_selector b') (b'\<lparr>ob_selector := past\<rparr>)))"

text \<open>The assignment of the vector keeps the allocation, since the bytes fit it.\<close>

definition ob_copy :: "order_buffer \<Rightarrow> order_buffer \<Rightarrow> bool \<times> order_buffer" where
  "ob_copy target source =
     (if ob_reserved target < ob_utilized source then (False, target)
      else (True, \<lparr>ob_store = overwrite 0 (ob_memory source) (ob_store target),
                   ob_used = ob_used source, ob_selector = 0\<rparr>))"

section \<open>The pool\<close>

type_synonym opool = "(handle \<times> order_buffer) list"

text \<open>
  \<open>stale\<close> is what an allocation finds in its memory. \<open>reallocate\<close> gives memory back only when less
  is asked for than is allocated, and never cuts what is in use.
\<close>

definition ob_allocate :: "(nat \<Rightarrow> byte) \<Rightarrow> nat \<Rightarrow> order_buffer" where
  "ob_allocate stale n =
     \<lparr>ob_store = map stale [0..<if n \<noteq> 0 then n else 1], ob_used = 0, ob_selector = 0\<rparr>"

definition ob_grow :: "(nat \<Rightarrow> byte) \<Rightarrow> nat \<Rightarrow> order_buffer \<Rightarrow> order_buffer" where
  "ob_grow stale n b =
     (if n \<le> ob_reserved b then b
      else b\<lparr>ob_store := ob_memory b @ map stale [ob_used b..<n]\<rparr>)"

definition ob_reallocate :: "(nat \<Rightarrow> byte) \<Rightarrow> order_buffer \<Rightarrow> nat \<Rightarrow> order_buffer" where
  "ob_reallocate stale b n =
     ob_grow stale (if n \<noteq> 0 then n else 1) (if n < ob_reserved b then b\<lparr>ob_store := ob_memory b\<rparr> else b)"

definition opool_allocate :: "(nat \<Rightarrow> byte) \<Rightarrow> opool \<Rightarrow> handle \<Rightarrow> nat \<Rightarrow> handle \<times> opool" where
  "opool_allocate stale p fresh n = (fresh, p @ [(fresh, ob_allocate stale n)])"

definition opool_reallocate :: "(nat \<Rightarrow> byte) \<Rightarrow> opool \<Rightarrow> handle \<Rightarrow> handle \<Rightarrow> nat \<Rightarrow> (handle \<times> opool) option" where
  "opool_reallocate stale p h fresh n =
     (case pool_find p h of
        None \<Rightarrow> None
      | Some b \<Rightarrow>
          let b' = ob_reallocate stale b n;
              h' = (if ob_utilized b \<noteq> ob_reserved b \<and> n < ob_reserved b \<or> ob_reserved b' \<noteq> ob_reserved b then fresh else h)
          in Some (h', upd_first (\<lambda>e. fst e = h) (\<lambda>_. (h', b')) p))"

text \<open>A payload that arrives: nothing has been selected of it.\<close>

definition opool_insert :: "opool \<Rightarrow> handle \<Rightarrow> byte list \<Rightarrow> byte list \<Rightarrow> handle \<times> opool" where
  "opool_insert p fresh memory slack =
     (fresh, p @ [(fresh, \<lparr>ob_store = memory @ slack, ob_used = length memory, ob_selector = 0\<rparr>)])"

section \<open>The C interface\<close>

datatype order_code =
  ORDER_SUCCESS | ORDER_NO_SPACE | ORDER_NO_PLACE | ORDER_INVALID_BUFFER | ORDER_INVALID_ARGUMENT
  | ORDER_INTERNAL_FAILURE

fun order_code_value :: "order_code \<Rightarrow> int" where
  "order_code_value ORDER_SUCCESS = 0"
| "order_code_value ORDER_NO_SPACE = 1"
| "order_code_value ORDER_NO_PLACE = 2"
| "order_code_value ORDER_INVALID_BUFFER = 3"
| "order_code_value ORDER_INVALID_ARGUMENT = 4"
| "order_code_value ORDER_INTERNAL_FAILURE = 9"

definition order_explore :: "opool \<Rightarrow> handle \<Rightarrow> order_code \<times> (nat \<times> nat) option" where
  "order_explore p h =
     (case pool_find p h of
        None \<Rightarrow> (ORDER_INVALID_BUFFER, None)
      | Some b \<Rightarrow> (ORDER_SUCCESS, Some (ob_reserved b, ob_utilized b)))"

definition order_copy :: "opool \<Rightarrow> handle \<Rightarrow> handle \<Rightarrow> order_code \<times> opool" where
  "order_copy p target source =
     (case (pool_find p target, pool_find p source) of
        (Some t, Some s) \<Rightarrow>
          (case ob_copy t s of (ok, t') \<Rightarrow> (if ok then ORDER_SUCCESS else ORDER_NO_SPACE, pool_put p target t'))
      | _ \<Rightarrow> (ORDER_INVALID_BUFFER, p))"

definition order_clear :: "opool \<Rightarrow> handle \<Rightarrow> order_code \<times> opool" where
  "order_clear p h =
     (case pool_find p h of
        None \<Rightarrow> (ORDER_INVALID_BUFFER, p)
      | Some b \<Rightarrow> (ORDER_SUCCESS, pool_put p h (ob_clear b)))"

definition order_reset :: "opool \<Rightarrow> handle \<Rightarrow> order_code \<times> opool" where
  "order_reset p h =
     (case pool_find p h of
        None \<Rightarrow> (ORDER_INVALID_BUFFER, p)
      | Some b \<Rightarrow> (ORDER_SUCCESS, pool_put p h (ob_reset b)))"

text \<open>The templates \<open>add\<close> and \<open>get\<close> over the overloads of the buffer. \<open>None\<close> is the read outside the memory.\<close>

definition order_add ::
    "opool \<Rightarrow> handle \<Rightarrow> (order_buffer \<Rightarrow> bool \<times> order_buffer) \<Rightarrow> order_code \<times> opool" where
  "order_add p h app =
     (case pool_find p h of
        None \<Rightarrow> (ORDER_INVALID_BUFFER, p)
      | Some b \<Rightarrow> (case app b of (ok, b') \<Rightarrow>
          (if ok then ORDER_SUCCESS else ORDER_NO_SPACE, pool_put p h b')))"

definition order_get ::
    "opool \<Rightarrow> handle \<Rightarrow> (order_buffer \<Rightarrow> 'a selection) \<Rightarrow> (order_code \<times> 'a option \<times> opool) option" where
  "order_get p h sel =
     (case pool_find p h of
        None \<Rightarrow> Some (ORDER_INVALID_BUFFER, None, p)
      | Some b \<Rightarrow> (case sel b of
          Over_read \<Rightarrow> None
        | Refused \<Rightarrow> Some (ORDER_NO_PLACE, None, p)
        | Selected v b' \<Rightarrow> Some (ORDER_SUCCESS, Some v, pool_put p h b')))"

definition CasualOrderExploreBuffer :: "opool \<Rightarrow> handle \<Rightarrow> order_code \<times> (nat \<times> nat) option" where
  "CasualOrderExploreBuffer p h = order_explore p h"

definition CasualOrderAddPrepare :: "opool \<Rightarrow> handle \<Rightarrow> order_code \<times> opool" where
  "CasualOrderAddPrepare p h = order_clear p h"

definition CasualOrderGetPrepare :: "opool \<Rightarrow> handle \<Rightarrow> order_code \<times> opool" where
  "CasualOrderGetPrepare p h = order_reset p h"

text \<open>The six functions for native values differ in the type only; the value is its bit pattern.\<close>

definition CasualOrderAddPlain :: "opool \<Rightarrow> handle \<Rightarrow> ctype \<Rightarrow> nat \<Rightarrow> order_code \<times> opool" where
  "CasualOrderAddPlain p h t v = order_add p h (ob_append_value (size_traits t) v)"

definition CasualOrderAddString :: "opool \<Rightarrow> handle \<Rightarrow> byte list \<Rightarrow> order_code \<times> opool" where
  "CasualOrderAddString p h text = order_add p h (ob_append_string text)"

definition CasualOrderAddBinary :: "opool \<Rightarrow> handle \<Rightarrow> byte list \<Rightarrow> int \<Rightarrow> order_code \<times> opool" where
  "CasualOrderAddBinary p h data n =
     (if n < 0 then (ORDER_INVALID_ARGUMENT, p) else order_add p h (ob_append_binary data (nat n)))"

definition CasualOrderGetPlain ::
    "opool \<Rightarrow> handle \<Rightarrow> ctype \<Rightarrow> (order_code \<times> nat option \<times> opool) option" where
  "CasualOrderGetPlain p h t = order_get p h (ob_select_value (size_traits t))"

definition CasualOrderGetString :: "opool \<Rightarrow> handle \<Rightarrow> (order_code \<times> nat option \<times> opool) option" where
  "CasualOrderGetString p h = order_get p h ob_select_string"

text \<open>The last component is what has been written through \<open>size\<close>.\<close>

definition CasualOrderGetBinary ::
    "opool \<Rightarrow> handle \<Rightarrow> ((order_code \<times> nat option \<times> opool) \<times> int option) option" where
  "CasualOrderGetBinary p h =
     map_option (\<lambda>r. (r, case pool_find p h of None \<Rightarrow> None | Some b \<Rightarrow> fst (ob_select_binary b)))
       (order_get p h (\<lambda>b. snd (ob_select_binary b)))"

definition CasualOrderCopyBuffer :: "opool \<Rightarrow> handle \<Rightarrow> handle \<Rightarrow> order_code \<times> opool" where
  "CasualOrderCopyBuffer p target source = order_copy p target source"

definition CasualOrderDescription :: "int \<Rightarrow> string" where
  "CasualOrderDescription code =
     (if code = 0 then ''Success''
      else if code = 1 then ''No space''
      else if code = 2 then ''No place''
      else if code = 3 then ''Invalid buffer''
      else if code = 4 then ''Invalid argument''
      else if code = 9 then ''Internal failure''
      else ''Unknown code'')"

section \<open>The buffer is well formed\<close>

text \<open>What is selected has been inserted, and what is inserted is within the allocation.\<close>

definition ob_ok :: "order_buffer \<Rightarrow> bool" where
  "ob_ok b \<longleftrightarrow> ob_selector b \<le> ob_used b \<and> ob_used b \<le> ob_reserved b"

definition opool_ok :: "opool \<Rightarrow> bool" where
  "opool_ok p \<longleftrightarrow> (\<forall>e\<in>set p. ob_ok (snd e))"

named_theorems ob_defs
lemmas [ob_defs] = ob_ok_def ob_reserved_def ob_utilized_def ob_consumed_def ob_memory_def

lemma length_overwrite [simp]: "pos + length bs \<le> length mem \<Longrightarrow> length (overwrite pos bs mem) = length mem"
  by (simp add: overwrite_def)

lemma reserved_insert [simp]:
  "ob_used b + length bs \<le> ob_reserved b \<Longrightarrow> ob_reserved (ob_insert bs b) = ob_reserved b"
  by (simp add: ob_insert_def ob_reserved_def)

lemma insert_ok: "ob_ok b \<Longrightarrow> ob_used b + length bs \<le> ob_reserved b \<Longrightarrow> ob_ok (ob_insert bs b)"
  by (simp add: ob_ok_def) (simp add: ob_insert_def)

lemma memory_insert:
  "ob_ok b \<Longrightarrow> ob_used b + length bs \<le> ob_reserved b \<Longrightarrow> ob_memory (ob_insert bs b) = ob_memory b @ bs"
  by (simp add: ob_defs ob_insert_def overwrite_def)

lemma append_value_ok: "ob_ok b \<Longrightarrow> ob_ok (snd (ob_append_value n v b))"
  by (auto simp: ob_append_value_def ob_utilized_def ob_ok_def [of b] intro!: insert_ok)

lemma append_string_ok: "ob_ok b \<Longrightarrow> ob_ok (snd (ob_append_string text b))"
  by (auto simp: ob_append_string_def ob_utilized_def Let_def ob_ok_def [of b] intro!: insert_ok)

lemma append_binary_ok:
  assumes "ob_ok b" shows "ob_ok (snd (ob_append_binary data n b))"
proof (cases "ob_reserved b - ob_utilized b < 8 + n")
  case False
  let ?b = "ob_insert (be_bytes 8 n) b"
  have "ob_used b + 8 \<le> ob_reserved b" using False assms by (simp add: ob_utilized_def ob_ok_def)
  then have "ob_ok ?b" "ob_reserved ?b = ob_reserved b" using assms by (simp_all add: insert_ok)
  moreover have "ob_used ?b + length (take n data) \<le> ob_reserved b"
    using False by (simp add: ob_insert_def ob_utilized_def)
  ultimately show ?thesis using False by (simp add: ob_append_binary_def ob_append_value_def insert_ok)
qed (simp add: ob_append_binary_def assms)

lemma select_value_ok: "ob_ok b \<Longrightarrow> ob_select_value n b = Selected v b' \<Longrightarrow> ob_ok b'"
  by (auto simp: ob_select_value_def ob_defs split: if_splits)

lemma select_string_ok: "ob_ok b \<Longrightarrow> ob_select_string b = Selected v b' \<Longrightarrow> ob_ok b'"
  by (auto simp: ob_select_string_def ob_defs Let_def split: if_splits)

lemma select_binary_ok: "ob_ok b \<Longrightarrow> snd (ob_select_binary b) = Selected v b' \<Longrightarrow> ob_ok b'"
  by (cases "ob_select_value 8 b") (auto simp: ob_select_binary_def Let_def ob_select_value_def ob_defs split: if_splits)

lemma copy_ok: "ob_ok t \<Longrightarrow> ob_ok s \<Longrightarrow> ob_ok (snd (ob_copy t s))"
  by (auto simp: ob_copy_def ob_defs)

lemma reallocate_ok: "ob_ok b \<Longrightarrow> ob_ok (ob_reallocate stale b n) \<and> n \<le> ob_reserved (ob_reallocate stale b n)"
  by (auto simp: ob_reallocate_def ob_grow_def ob_defs)

lemma reallocate_memory: "ob_ok b \<Longrightarrow> ob_memory (ob_reallocate stale b n) = ob_memory b"
  by (auto simp: ob_reallocate_def ob_grow_def ob_defs)

end
