(* ===== verification/Order_Theorems.thy ===== *)
theory Order_Theorems
  imports Order_Buffer
begin

text \<open>
  What is added to an order buffer comes back in the order in which it was added, also when some additions
  in between have been refused for want of space. The two places where the selecting functions trust
  the bytes are at the end: a read at the end of a full buffer leaves the allocation, and a size that
  is negative moves the selection backwards.
\<close>

section \<open>Values and their bytes\<close>

datatype order_value = O_plain ctype nat | O_string "byte list" | O_binary "byte list"
datatype order_kind = K_plain ctype | K_string | K_binary

fun order_kind_of :: "order_value \<Rightarrow> order_kind" where
  "order_kind_of (O_plain t v) = K_plain t"
| "order_kind_of (O_string text) = K_string"
| "order_kind_of (O_binary data) = K_binary"

fun order_bytes :: "order_value \<Rightarrow> byte list" where
  "order_bytes (O_plain t v) = be_bytes (size_traits t) v"
| "order_bytes (O_string text) = text @ [0]"
| "order_bytes (O_binary data) = be_bytes 8 (length data) @ data"

text \<open>The value has a pattern of its type, the text no null inside, and the size fits a \<open>long\<close>.\<close>

fun order_value_ok :: "order_value \<Rightarrow> bool" where
  "order_value_ok (O_plain t v) \<longleftrightarrow> v < 256 ^ size_traits t"
| "order_value_ok (O_string text) \<longleftrightarrow> 0 \<notin> set text"
| "order_value_ok (O_binary data) \<longleftrightarrow> 2 * length data < 256 ^ 8"

fun order_put :: "opool \<Rightarrow> handle \<Rightarrow> order_value \<Rightarrow> order_code \<times> opool" where
  "order_put p h (O_plain t v) = CasualOrderAddPlain p h t v"
| "order_put p h (O_string text) = CasualOrderAddString p h (text @ [0])"
| "order_put p h (O_binary data) = CasualOrderAddBinary p h data (int (length data))"

fun order_put_all :: "opool \<Rightarrow> handle \<Rightarrow> order_value list \<Rightarrow> order_code list \<times> opool" where
  "order_put_all p h [] = ([], p)"
| "order_put_all p h (v # vs) =
     (case order_put p h v of (c, p') \<Rightarrow>
        (case order_put_all p' h vs of (cs, p'') \<Rightarrow> (c # cs, p'')))"

text \<open>The caller reads what the pointer it got leads to.\<close>

definition bytes_at :: "opool \<Rightarrow> handle \<Rightarrow> nat \<Rightarrow> byte list" where
  "bytes_at p h pos = (case pool_find p h of None \<Rightarrow> [] | Some b \<Rightarrow> drop pos (ob_store b))"

fun order_take :: "opool \<Rightarrow> handle \<Rightarrow> order_kind \<Rightarrow> (order_code \<times> order_value option \<times> opool) option" where
  "order_take p h (K_plain t) =
     map_option (\<lambda>(c, v, p'). (c, map_option (O_plain t) v, p')) (CasualOrderGetPlain p h t)"
| "order_take p h K_string =
     map_option (\<lambda>(c, w, p').
       (c, map_option (\<lambda>pos. O_string (takeWhile (\<lambda>x. x \<noteq> 0) (bytes_at p h pos))) w, p')) (CasualOrderGetString p h)"
| "order_take p h K_binary =
     map_option (\<lambda>((c, w, p'), n).
       (c, map_option (\<lambda>pos. O_binary (take (nat (the n)) (bytes_at p h pos))) w, p')) (CasualOrderGetBinary p h)"

fun order_take_all :: "opool \<Rightarrow> handle \<Rightarrow> order_kind list \<Rightarrow> ((order_code \<times> order_value option) list \<times> opool) option" where
  "order_take_all p h [] = Some ([], p)"
| "order_take_all p h (k # ks) =
     (case order_take p h k of
        None \<Rightarrow> None
      | Some (c, v, p') \<Rightarrow> map_option (\<lambda>(rs, p''). ((c, v) # rs, p'')) (order_take_all p' h ks))"

definition stored_values :: "order_code list \<Rightarrow> order_value list \<Rightarrow> order_value list" where
  "stored_values cs vs = map snd (filter (\<lambda>e. fst e = ORDER_SUCCESS) (zip cs vs))"

lemma stored_Nil [simp]: "stored_values [] [] = []"
  by (simp add: stored_values_def)

lemma stored_Cons [simp]:
  "stored_values (c # cs) (v # vs) = (if c = ORDER_SUCCESS then v # stored_values cs vs else stored_values cs vs)"
  by (simp add: stored_values_def)

section \<open>Pools\<close>

lemma find_put [simp]: "pool_find p h = Some b \<Longrightarrow> pool_find (pool_put p h b') h = Some b'"
proof (induction p)
  case (Cons e p)
  then show ?case by (cases "fst e = h") (auto simp: pool_find_def pool_put_def)
qed (simp add: pool_find_def)

lemma pool_find_member: "pool_find p h = Some b \<Longrightarrow> (h, b) \<in> set p"
  by (auto simp: pool_find_def find_Some_iff) (metis fst_conv nth_mem)

lemma occurrence_ok: "opool_ok p \<Longrightarrow> pool_find p h = Some b \<Longrightarrow> ob_ok b"
  by (force simp: opool_ok_def dest: pool_find_member)

section \<open>Adding\<close>

text \<open>An addition appends the bytes of its value, or is refused and changes nothing.\<close>

lemma insert_insert: "ob_ok b \<Longrightarrow> ob_used b + length xs + length ys \<le> ob_reserved b \<Longrightarrow>
    ob_insert ys (ob_insert xs b) = ob_insert (xs @ ys) b"
  by (simp add: ob_insert_def overwrite_def ob_defs add.assoc add.commute add.left_commute)

lemma append_binary_insert:
  assumes "ob_ok b"
  shows "ob_append_binary data (length data) b =
    (if ob_reserved b - ob_used b < 8 + length data then (False, b)
     else (True, ob_insert (be_bytes 8 (length data) @ data) b))"
  using assms by (auto simp: ob_append_binary_def ob_append_value_def ob_utilized_def insert_insert ob_ok_def
      intro!: insert_insert)

lemma order_put_appends:
  assumes "pool_find p h = Some b" "ob_ok b" "order_value_ok v" "order_put p h v = (c, p')"
  shows "\<exists>b'. pool_find p' h = Some b' \<and> ob_ok b' \<and> ob_reserved b' = ob_reserved b \<and>
    ob_memory b' = ob_memory b @ (if c = ORDER_SUCCESS then order_bytes v else [])"
proof -
  let ?b = "if ob_reserved b - ob_used b < length (order_bytes v) then b else ob_insert (order_bytes v) b"
  have "c = (if ob_reserved b - ob_used b < length (order_bytes v) then ORDER_NO_SPACE else ORDER_SUCCESS) \<and>
      p' = pool_put p h ?b"
  proof (cases v)
    case (O_string s)
    have "takeWhile (\<lambda>c. c \<noteq> 0) (s @ [0]) = s" using assms(3) O_string by (auto simp: takeWhile_append)
    then show ?thesis using assms(1,4) O_string
      by (auto simp: CasualOrderAddString_def order_add_def ob_append_string_def ob_utilized_def Let_def split: if_splits)
  next
    case (O_binary data)
    then show ?thesis using assms(1,4)
      by (auto simp: CasualOrderAddBinary_def order_add_def append_binary_insert [OF assms(2)] split: if_splits)
  qed (use assms(1,4) in \<open>auto simp: CasualOrderAddPlain_def order_add_def ob_append_value_def ob_utilized_def split: if_splits\<close>)
  moreover have "ob_used b \<le> ob_reserved b" using assms(2) by (simp add: ob_ok_def)
  ultimately show ?thesis using assms(1,2) by (auto simp: insert_ok memory_insert split: if_splits)
qed

lemma order_put_all_appends:
  assumes "pool_find p h = Some b" "ob_ok b" "list_all order_value_ok vs" "order_put_all p h vs = (cs, p')"
  shows "\<exists>b'. pool_find p' h = Some b' \<and> ob_ok b' \<and> ob_reserved b' = ob_reserved b \<and>
    ob_memory b' = ob_memory b @ concat (map order_bytes (stored_values cs vs))"
  using assms
proof (induction vs arbitrary: p b cs)
  case (Cons v vs)
  obtain c q where q: "order_put p h v = (c, q)" by fastforce
  obtain ds where ds: "order_put_all q h vs = (ds, p')" "cs = c # ds"
    using Cons.prems(4) q by (auto split: prod.splits)
  obtain b' where b': "pool_find q h = Some b'" "ob_ok b'" "ob_reserved b' = ob_reserved b"
      "ob_memory b' = ob_memory b @ (if c = ORDER_SUCCESS then order_bytes v else [])"
    using order_put_appends [OF Cons.prems(1,2) _ q] Cons.prems(3) by auto
  from Cons.IH [OF b'(1,2) _ ds(1)] Cons.prems(3) b'(3,4) ds(2) show ?case by auto
qed auto

section \<open>Selecting\<close>

lemma store_at:
  assumes "ob_ok b" "ob_memory b = pre @ xs @ post" "ob_selector b = length pre"
  obtains rest where "drop (ob_selector b) (ob_store b) = xs @ rest"
proof -
  have "ob_store b = ob_memory b @ drop (ob_used b) (ob_store b)" by (simp add: ob_memory_def)
  then have "drop (ob_selector b) (ob_store b) = xs @ post @ drop (ob_used b) (ob_store b)"
    using assms(2,3) by (metis append.assoc append_eq_conv_conj)
  then show ?thesis by (rule that)
qed

lemma used_at:
  assumes "ob_ok b" "ob_memory b = pre @ xs @ post" "ob_selector b = length pre"
  shows "ob_selector b + length xs \<le> ob_used b" "ob_used b \<le> ob_reserved b"
proof -
  have "length (ob_memory b) = ob_used b" using assms(1) by (simp add: ob_defs)
  then show "ob_selector b + length xs \<le> ob_used b" using assms(2,3) by (metis length_append le_add1 add.assoc)
  show "ob_used b \<le> ob_reserved b" using assms(1) by (simp add: ob_ok_def)
qed

lemma select_value_at:
  assumes "ob_ok b" "ob_memory b = pre @ be_bytes n v @ post" "ob_selector b = length pre" "v < 256 ^ n"
  shows "ob_select_value n b = Selected v (b\<lparr>ob_selector := ob_selector b + n\<rparr>)"
proof -
  obtain rest where rest: "drop (ob_selector b) (ob_store b) = be_bytes n v @ rest"
    using store_at [OF assms(1-3)] by blast
  show ?thesis using used_at [OF assms(1-3)] assms(4)
    by (simp add: ob_select_value_def ob_utilized_def ob_consumed_def rest be_value_be_bytes)
qed

lemma select_string_at:
  assumes "ob_ok b" "ob_memory b = pre @ (text @ [0]) @ post" "ob_selector b = length pre" "0 \<notin> set text"
  shows "ob_select_string b = Selected (ob_selector b) (b\<lparr>ob_selector := ob_selector b + (length text + 1)\<rparr>)"
    "takeWhile (\<lambda>c. c \<noteq> 0) (drop (ob_selector b) (ob_store b)) = text"
proof -
  obtain rest where rest: "drop (ob_selector b) (ob_store b) = (text @ [0]) @ rest"
    using store_at [OF assms(1-3)] by blast
  show tw: "takeWhile (\<lambda>c. c \<noteq> 0) (drop (ob_selector b) (ob_store b)) = text"
    using assms(4) by (auto simp: rest takeWhile_append)
  show "ob_select_string b = Selected (ob_selector b) (b\<lparr>ob_selector := ob_selector b + (length text + 1)\<rparr>)"
    using used_at [OF assms(1-3)] tw
    by (simp add: ob_select_string_def Let_def ob_utilized_def ob_consumed_def rest)
qed

lemma select_binary_at:
  assumes "ob_ok b" "ob_memory b = pre @ (be_bytes 8 (length data) @ data) @ post" "ob_selector b = length pre"
    "2 * length data < 256 ^ 8" "ob_reserved b < 256 ^ 8"
  shows "ob_select_binary b = (Some (int (length data)),
      Selected (ob_selector b + 8) (b\<lparr>ob_selector := ob_selector b + (8 + length data)\<rparr>))"
    "take (length data) (drop (ob_selector b + 8) (ob_store b)) = data"
proof -
  obtain rest where rest: "drop (ob_selector b) (ob_store b) = (be_bytes 8 (length data) @ data) @ rest"
    using store_at [OF assms(1-3)] by blast
  show "take (length data) (drop (ob_selector b + 8) (ob_store b)) = data"
    using rest by (metis append.assoc append_eq_conv_conj drop_drop length_be_bytes add.commute)
  have v: "ob_select_value 8 b = Selected (length data) (b\<lparr>ob_selector := ob_selector b + 8\<rparr>)"
    using assms(2,4) by (intro select_value_at [OF assms(1) _ assms(3), where post = "data @ post"]) auto
  have n: "to_signed 8 (length data) = int (length data)" using assms(4) by (simp add: to_signed_def)
  have "ob_selector b + (8 + length data) \<le> ob_used b" using used_at [OF assms(1-3)] by simp
  moreover have "ob_used b \<le> ob_reserved b" using assms(1) by (simp add: ob_ok_def)
  moreover from calculation have "to_unsigned 8 (int (ob_selector b + 8) + int (length data)) = ob_selector b + (8 + length data)"
    using assms(5) by (simp add: to_unsigned_def)
  ultimately show "ob_select_binary b = (Some (int (length data)),
      Selected (ob_selector b + 8) (b\<lparr>ob_selector := ob_selector b + (8 + length data)\<rparr>))"
    by (simp add: ob_select_binary_def v n ob_consumed_def ob_utilized_def)
qed

text \<open>A value that lies at the selection is selected, whatever follows it.\<close>

lemma order_take_at:
  assumes "pool_find p h = Some b" "ob_ok b" "ob_reserved b < 256 ^ 8" "order_value_ok v"
    "ob_memory b = pre @ order_bytes v @ post" "ob_selector b = length pre"
  shows "order_take p h (order_kind_of v) = Some (ORDER_SUCCESS, Some v,
    pool_put p h (b\<lparr>ob_selector := ob_selector b + length (order_bytes v)\<rparr>))"
proof (cases v)
  case (O_plain t u)
  then show ?thesis using assms select_value_at [of b pre "size_traits t" u post]
    by (simp add: CasualOrderGetPlain_def order_get_def)
next
  case (O_string s)
  then show ?thesis using assms select_string_at [of b pre s post]
    by (simp add: CasualOrderGetString_def order_get_def bytes_at_def)
next
  case (O_binary data)
  then show ?thesis using assms select_binary_at [of b pre data post]
    by (simp add: CasualOrderGetBinary_def order_get_def bytes_at_def)
qed

lemma selector_moved [simp]:
  "ob_memory (b\<lparr>ob_selector := n\<rparr>) = ob_memory b" "ob_reserved (b\<lparr>ob_selector := n\<rparr>) = ob_reserved b"
  by (simp_all add: ob_memory_def ob_reserved_def)

lemma order_take_all_at:
  assumes "pool_find p h = Some b" "ob_ok b" "ob_reserved b < 256 ^ 8" "list_all order_value_ok vs"
    "ob_memory b = pre @ concat (map order_bytes vs) @ post" "ob_selector b = length pre"
  shows "\<exists>p'. order_take_all p h (map order_kind_of vs) = Some (map (\<lambda>v. (ORDER_SUCCESS, Some v)) vs, p') \<and>
    pool_find p' h = Some (b\<lparr>ob_selector := length pre + length (concat (map order_bytes vs))\<rparr>)"
  using assms
proof (induction vs arbitrary: p b pre)
  case Nil
  then have "b\<lparr>ob_selector := length pre\<rparr> = b" by simp
  then show ?case using Nil by simp
next
  case (Cons v vs)
  let ?b = "b\<lparr>ob_selector := ob_selector b + length (order_bytes v)\<rparr>"
  have m: "ob_memory b = pre @ order_bytes v @ (concat (map order_bytes vs) @ post)" using Cons.prems(5) by simp
  have t: "order_take p h (order_kind_of v) = Some (ORDER_SUCCESS, Some v, pool_put p h ?b)"
    using Cons.prems by (intro order_take_at [OF _ _ _ _ m]) auto
  have "ob_ok ?b" using used_at [OF Cons.prems(2) m Cons.prems(6)] by (simp add: ob_ok_def)
  with Cons.IH [of "pool_put p h ?b" ?b "pre @ order_bytes v"] Cons.prems m
  show ?case by (auto simp: t add.assoc)
qed

text \<open>
  C32: After \<open>CasualOrderAddPrepare\<close>, whatever values are added, each that was accepted comes back, in
  the order of the additions and byte for byte, from the selections that follow \<open>CasualOrderGetPrepare\<close>;
  an addition that was refused leaves no trace. Afterwards exactly what was inserted has been consumed.
\<close>

theorem order_values_come_back:
  assumes "pool_find p h = Some b" "ob_ok b" "ob_reserved b < 256 ^ 8" "list_all order_value_ok vs"
    and "order_put_all (snd (CasualOrderAddPrepare p h)) h vs = (cs, q)"
  shows "\<exists>q' b'. order_take_all (snd (CasualOrderGetPrepare q h)) h (map order_kind_of (stored_values cs vs))
      = Some (map (\<lambda>v. (ORDER_SUCCESS, Some v)) (stored_values cs vs), q') \<and>
    pool_find q' h = Some b' \<and> ob_consumed b' = ob_utilized b' \<and> ob_ok b'"
proof -
  have "pool_find (snd (CasualOrderAddPrepare p h)) h = Some (ob_clear b)" "ob_ok (ob_clear b)"
    using assms(1,2) by (simp_all add: CasualOrderAddPrepare_def order_clear_def ob_clear_def ob_ok_def)
  from order_put_all_appends [OF this assms(4,5)] obtain b1 where b1: "pool_find q h = Some b1" "ob_ok b1"
      "ob_reserved b1 = ob_reserved b" "ob_memory b1 = concat (map order_bytes (stored_values cs vs))"
    by (auto simp: ob_clear_def ob_memory_def ob_reserved_def)
  have v: "list_all order_value_ok (stored_values cs vs)"
    using assms(4) by (auto simp: stored_values_def list_all_iff dest: set_zip_rightD)
  have r: "ob_ok (ob_reset b1)" "ob_reserved (ob_reset b1) = ob_reserved b" "ob_memory (ob_reset b1) = ob_memory b1"
    using b1 by (simp_all add: ob_reset_def) (simp add: ob_ok_def)
  from order_take_all_at [of "snd (CasualOrderGetPrepare q h)" h "ob_reset b1" "stored_values cs vs" "[]" "[]"]
  obtain q' where q': "order_take_all (snd (CasualOrderGetPrepare q h)) h (map order_kind_of (stored_values cs vs))
      = Some (map (\<lambda>v. (ORDER_SUCCESS, Some v)) (stored_values cs vs), q')"
    "pool_find q' h = Some (ob_reset b1\<lparr>ob_selector := length (ob_memory b1)\<rparr>)"
    using b1 v r assms(3) by (auto simp: CasualOrderGetPrepare_def order_reset_def ob_reset_def)
  have "length (ob_memory b1) = ob_used b1" using b1(2) by (simp add: ob_defs)
  with q' b1(2) show ?thesis by (auto simp: ob_reset_def ob_consumed_def ob_utilized_def ob_ok_def)
qed

section \<open>An example\<close>

definition example_orders :: "order_value list" where
  "example_orders = [O_plain T_short 513, O_string [104, 105], O_plain T_double 7, O_binary [1, 0], O_plain T_bool 1]"

text \<open>The fourth value does not fit the 20 bytes that have been allocated.\<close>

lemma order_values_come_back_witness:
  "order_put_all [(7, ob_allocate (\<lambda>_. 255) 20)] 7 example_orders
    = ([ORDER_SUCCESS, ORDER_SUCCESS, ORDER_SUCCESS, ORDER_NO_SPACE, ORDER_SUCCESS],
       [(7, \<lparr>ob_store = [2, 1, 104, 105, 0, 0, 0, 0, 0, 0, 0, 0, 7, 1] @ replicate 6 255, ob_used = 14, ob_selector = 0\<rparr>)]) \<and>
   (\<exists>q' b'. order_take_all
       [(7, \<lparr>ob_store = [2, 1, 104, 105, 0, 0, 0, 0, 0, 0, 0, 0, 7, 1] @ replicate 6 255, ob_used = 14, ob_selector = 0\<rparr>)] 7
       [K_plain T_short, K_string, K_plain T_double, K_plain T_bool]
     = Some (map (\<lambda>v. (ORDER_SUCCESS, Some v)) [O_plain T_short 513, O_string [104, 105], O_plain T_double 7, O_plain T_bool 1], q') \<and>
     pool_find q' 7 = Some b' \<and> ob_consumed b' = ob_utilized b' \<and> ob_ok b')"
proof -
  let ?p = "[(7, ob_allocate (\<lambda>_. 255) 20)] :: opool"
  let ?q = "[(7, \<lparr>ob_store = [2, 1, 104, 105, 0, 0, 0, 0, 0, 0, 0, 0, 7, 1] @ replicate 6 255, ob_used = 14, ob_selector = 0\<rparr>)] :: opool"
  let ?cs = "[ORDER_SUCCESS, ORDER_SUCCESS, ORDER_SUCCESS, ORDER_NO_SPACE, ORDER_SUCCESS]"
  have put: "order_put_all ?p 7 example_orders = (?cs, ?q)" by code_simp
  have prepare: "snd (CasualOrderAddPrepare ?p 7) = ?p" by code_simp
  have get: "snd (CasualOrderGetPrepare ?q 7) = ?q" by code_simp
  have stored: "stored_values ?cs example_orders = [O_plain T_short 513, O_string [104, 105], O_plain T_double 7, O_plain T_bool 1]"
    by code_simp
  have "pool_find ?p 7 = Some (ob_allocate (\<lambda>_. 255) 20)" by code_simp
  moreover have "ob_ok (ob_allocate (\<lambda>_. 255) 20)" by (simp add: ob_ok_def ob_allocate_def)
  moreover have "ob_reserved (ob_allocate (\<lambda>_. 255) 20) < 256 ^ 8" by (simp add: ob_reserved_def ob_allocate_def)
  moreover have "list_all order_value_ok example_orders" by (simp add: example_orders_def)
  moreover have "order_put_all (snd (CasualOrderAddPrepare ?p 7)) 7 example_orders = (?cs, ?q)" by (simp only: prepare put)
  ultimately have "\<exists>q' b'. order_take_all (snd (CasualOrderGetPrepare ?q 7)) 7 (map order_kind_of (stored_values ?cs example_orders))
      = Some (map (\<lambda>v. (ORDER_SUCCESS, Some v)) (stored_values ?cs example_orders), q') \<and>
    pool_find q' 7 = Some b' \<and> ob_consumed b' = ob_utilized b' \<and> ob_ok b'"
    by (rule order_values_come_back)
  then show ?thesis by (simp only: put get stored list.map order_kind_of.simps)
qed

section \<open>Where the bytes are trusted\<close>

text \<open>At the end of a full buffer the bytes are read before the check: the read leaves the allocation.\<close>

lemma full_buffer_is_read_beyond:
  assumes "pool_find p h = Some b" "ob_selector b = ob_reserved b"
  shows "CasualOrderGetPlain p h t = None" "CasualOrderGetString p h = None" "CasualOrderGetBinary p h = None"
proof -
  have "0 < size_traits t" by (cases t) auto
  then show "CasualOrderGetPlain p h t = None" using assms
    by (simp add: CasualOrderGetPlain_def order_get_def ob_select_value_def)
  show "CasualOrderGetString p h = None" "CasualOrderGetBinary p h = None" using assms
    by (simp_all add: CasualOrderGetString_def CasualOrderGetBinary_def order_get_def ob_select_string_def
        ob_select_binary_def ob_select_value_def ob_reserved_def)
qed

text \<open>
  The size -8, added as a \<open>long\<close>, is accepted as the size of binary data, and the selection is back where it was.
\<close>

lemma negative_size_goes_back:
  defines "p \<equiv> [(7, \<lparr>ob_store = replicate 16 0, ob_used = 0, ob_selector = 0\<rparr>)] :: opool"
  defines "q \<equiv> [(7, \<lparr>ob_store = [255, 255, 255, 255, 255, 255, 255, 248] @ replicate 8 0, ob_used = 8, ob_selector = 0\<rparr>)] :: opool"
  shows "CasualOrderAddPlain p 7 T_long (to_unsigned 8 (- 8)) = (ORDER_SUCCESS, q) \<and>
    CasualOrderGetBinary q 7 = Some ((ORDER_SUCCESS, Some 8, q), Some (- 8))"
proof
  let ?bs = "[255, 255, 255, 255, 255, 255, 255, 248] :: byte list"
  have u: "to_unsigned 8 (- 8) = 18446744073709551608" by (simp add: to_unsigned_def)
  have v: "be_value ?bs = 18446744073709551608" by (simp add: be_value_def)
  have "length ?bs = 8" by simp
  with be_bytes_be_value [of ?bs] have e: "be_bytes 8 18446744073709551608 = ?bs" by (simp only: v)
  show "CasualOrderAddPlain p 7 T_long (to_unsigned 8 (- 8)) = (ORDER_SUCCESS, q)"
    by (simp add: p_def q_def u e CasualOrderAddPlain_def order_add_def ob_append_value_def pool_find_def pool_put_def
        ob_insert_def overwrite_def ob_reserved_def ob_utilized_def)
  have "ob_select_value 8 (snd (hd q)) = Selected (be_value ?bs) ((snd (hd q))\<lparr>ob_selector := 8\<rparr>)"
    by (simp add: q_def ob_select_value_def ob_reserved_def ob_utilized_def ob_consumed_def)
  then show "CasualOrderGetBinary q 7 = Some ((ORDER_SUCCESS, Some 8, q), Some (- 8))"
    by (simp add: v q_def CasualOrderGetBinary_def order_get_def ob_select_binary_def pool_find_def
        pool_put_def ob_consumed_def ob_utilized_def to_signed_def to_unsigned_def)
qed

end
