(* ===== verification/String_Buffer.thy ===== *)
theory String_Buffer
  imports Order_Buffer
begin

text \<open>
  The string buffer of middleware/buffer (\<open>source/string.cpp\<close>) and the octet buffer
  (\<open>source/octet.cpp\<close>). A string buffer is one C string in a vector; since \<open>strlen\<close> does not know
  where the vector ends, the bytes of the allocation behind it are part of the model.
\<close>

section \<open>The buffer\<close>

record string_buffer =
  st_store :: "byte list"
  st_size :: nat

definition st_memory :: "string_buffer \<Rightarrow> byte list" where
  "st_memory b = take (st_size b) (st_store b)"

text \<open>\<open>std::strlen\<close>; \<open>None\<close> is the read beyond the allocation.\<close>

definition c_strlen :: "byte list \<Rightarrow> nat option" where
  "c_strlen bs = (if 0 \<in> set bs then Some (length (takeWhile (\<lambda>c. c \<noteq> 0) bs)) else None)"

datatype transported = Transported nat | Transport_refused | Transport_over_read

definition st_transport :: "string_buffer \<Rightarrow> nat \<Rightarrow> transported" where
  "st_transport b user_size =
     (if user_size > st_size b then Transport_refused
      else (case c_strlen (st_store b) of None \<Rightarrow> Transport_over_read | Some n \<Rightarrow> Transported (n + 1)))"

definition st_allocate :: "nat \<Rightarrow> string_buffer" where
  "st_allocate n = \<lparr>st_store = (replicate (if n > 0 then n else 1) 0)[0 := 0], st_size = (if n > 0 then n else 1)\<rparr>"

text \<open>
  \<open>resize\<close>: within the capacity the new bytes are zeroed; beyond it the vector moves to a memory at least twice
  the size in use, of which \<open>stale\<close> is what it held before.
\<close>

definition st_resize :: "(nat \<Rightarrow> byte) \<Rightarrow> nat \<Rightarrow> string_buffer \<Rightarrow> string_buffer" where
  "st_resize stale n b =
     (if n \<le> st_size b then b\<lparr>st_size := n\<rparr>
      else if n \<le> length (st_store b) then
        b\<lparr>st_store := overwrite (st_size b) (replicate (n - st_size b) 0) (st_store b), st_size := n\<rparr>
      else \<lparr>st_store = st_memory b @ replicate (n - st_size b) 0 @ map stale [n..<max n (2 * st_size b)], st_size = n\<rparr>)"

definition st_reallocate :: "(nat \<Rightarrow> byte) \<Rightarrow> string_buffer \<Rightarrow> nat \<Rightarrow> string_buffer" where
  "st_reallocate stale b n =
     (let m = (if n > 0 then n else 1); b' = st_resize stale m b
      in b'\<lparr>st_store := (st_store b')[m - 1 := 0]\<rparr>)"

type_synonym spool = "(handle \<times> string_buffer) list"

definition spool_allocate :: "spool \<Rightarrow> handle \<Rightarrow> nat \<Rightarrow> handle \<times> spool" where
  "spool_allocate p fresh n = (fresh, p @ [(fresh, st_allocate n)])"

text \<open>\<open>None\<close> is the access through \<open>end()\<close> for a handle that is not in the pool.\<close>

definition spool_reallocate :: "(nat \<Rightarrow> byte) \<Rightarrow> spool \<Rightarrow> handle \<Rightarrow> handle \<Rightarrow> nat \<Rightarrow> (handle \<times> spool) option" where
  "spool_reallocate stale p h fresh n =
     (case pool_find p h of
        None \<Rightarrow> None
      | Some b \<Rightarrow>
          let h' = (if length (st_store b) < (if n > 0 then n else 1) then fresh else h)
          in Some (h', upd_first (\<lambda>e. fst e = h) (\<lambda>_. (h', st_reallocate stale b n)) p))"

section \<open>The C interface\<close>

datatype string_code =
  STRING_SUCCESS | STRING_NO_SPACE | STRING_NO_PLACE | STRING_INVALID_BUFFER | STRING_INVALID_ARGUMENT
  | STRING_INTERNAL_FAILURE

fun string_code_value :: "string_code \<Rightarrow> int" where
  "string_code_value STRING_SUCCESS = 0"
| "string_code_value STRING_NO_SPACE = 1"
| "string_code_value STRING_NO_PLACE = 2"
| "string_code_value STRING_INVALID_BUFFER = 3"
| "string_code_value STRING_INVALID_ARGUMENT = 4"
| "string_code_value STRING_INTERNAL_FAILURE = 9"

definition CasualStringDescription :: "int \<Rightarrow> string" where
  "CasualStringDescription code =
     (if code = 0 then ''Success''
      else if code = 1 then ''No space''
      else if code = 2 then ''No place''
      else if code = 3 then ''Invalid buffer''
      else if code = 4 then ''Invalid argument''
      else if code = 9 then ''Internal failure''
      else ''Unknown code'')"

text \<open>The size and what is used are written also when the string has no end inside the vector.\<close>

definition CasualStringExploreBuffer :: "spool \<Rightarrow> handle \<Rightarrow> (string_code \<times> (nat \<times> nat) option) option" where
  "CasualStringExploreBuffer p h =
     (case pool_find p h of
        None \<Rightarrow> Some (STRING_INVALID_BUFFER, None)
      | Some b \<Rightarrow>
          map_option (\<lambda>n. (if n + 1 > st_size b then STRING_NO_PLACE else STRING_SUCCESS, Some (st_size b, n + 1)))
            (c_strlen (st_store b)))"

text \<open>The pointer of the caller, null or the bytes up to the null it leads to.\<close>

definition CasualStringWriteString :: "spool \<Rightarrow> handle \<Rightarrow> byte list option \<Rightarrow> string_code \<times> spool" where
  "CasualStringWriteString p h v =
     (case pool_find p h of
        None \<Rightarrow> (STRING_INVALID_BUFFER, p)
      | Some b \<Rightarrow>
          (case v of
             None \<Rightarrow> (STRING_INVALID_ARGUMENT, p)
           | Some text \<Rightarrow>
               let bs = takeWhile (\<lambda>c. c \<noteq> 0) text @ [0]
               in if length bs > st_size b then (STRING_NO_SPACE, p)
                  else (STRING_SUCCESS, pool_put p h (b\<lparr>st_store := overwrite 0 bs (st_store b)\<rparr>))))"

text \<open>Whether the caller has given a place for the pointer; the result is the C string it is set to.\<close>

definition CasualStringParseString :: "spool \<Rightarrow> handle \<Rightarrow> bool \<Rightarrow> (string_code \<times> byte list option) option" where
  "CasualStringParseString p h place =
     (case pool_find p h of
        None \<Rightarrow> Some (STRING_INVALID_BUFFER, None)
      | Some b \<Rightarrow>
          if place then
            map_option (\<lambda>n. if n + 1 > st_size b then (STRING_NO_PLACE, None)
                             else (STRING_SUCCESS, Some (take n (st_store b))))
              (c_strlen (st_store b))
          else Some (STRING_INVALID_ARGUMENT, None))"

text \<open>The octet buffer adds types to the default pool, and nothing else.\<close>

definition octet_types :: "(string \<times> string) list" where
  "octet_types = [(''COCTET'', ''''), (''COCTET'', ''XML''), (''COCTET'', ''JSON''), (''COCTET'', ''YAML'')]"

section \<open>A string in its buffer\<close>

text \<open>The string ends inside the vector, and the vector is within its allocation.\<close>

definition st_ok :: "string_buffer \<Rightarrow> bool" where
  "st_ok b \<longleftrightarrow> st_size b \<le> length (st_store b) \<and> 0 \<in> set (st_memory b)"

lemma strlen_within: "0 \<in> set (take n bs) \<Longrightarrow> \<exists>k < n. c_strlen bs = Some k"
proof (induction bs arbitrary: n)
  case (Cons x bs)
  show ?case
  proof (cases n)
    case (Suc m)
    then show ?thesis using Cons by (cases "x = 0") (fastforce simp: c_strlen_def dest: in_set_takeD split: if_splits)+
  qed (use Cons.prems in simp)
qed simp

lemma strlen_text: "0 \<notin> set s \<Longrightarrow> c_strlen (s @ 0 # rest) = Some (length s)"
  by (auto simp: c_strlen_def takeWhile_append)

lemma st_allocate_ok: "st_ok (st_allocate n) \<and> st_size (st_allocate n) = max n 1"
  by (cases n) (auto simp: st_allocate_def st_ok_def st_memory_def)

lemma st_resize_size: "st_size b \<le> length (st_store b) \<Longrightarrow>
    st_size (st_resize stale n b) = n \<and> n \<le> length (st_store (st_resize stale n b))"
  by (auto simp: st_resize_def st_memory_def overwrite_def)

text \<open>Reallocation writes a null at the new end, whatever the memory held.\<close>

lemma st_reallocate_ok:
  assumes "st_size b \<le> length (st_store b)"
  shows "st_ok (st_reallocate stale b n) \<and> st_size (st_reallocate stale b n) = max n 1"
proof -
  define m where "m = (if n > 0 then n else 1)"
  define b' where "b' = st_resize stale m b"
  have s: "st_size b' = m" "m \<le> length (st_store b')" using st_resize_size [OF assms] by (simp_all add: b'_def)
  have m: "0 < m" "m = max n 1" by (simp_all add: m_def)
  have "take m ((st_store b')[m - 1 := 0]) ! (m - 1) = 0" using s(2) m(1) by simp
  moreover have "m - 1 < length (take m ((st_store b')[m - 1 := 0]))" using s(2) m(1) by simp
  ultimately have "0 \<in> set (take m ((st_store b')[m - 1 := 0]))" by (metis nth_mem)
  moreover have "st_reallocate stale b n = b'\<lparr>st_store := (st_store b')[m - 1 := 0]\<rparr>"
    by (simp add: st_reallocate_def Let_def m_def b'_def)
  ultimately show ?thesis using s m(2) by (simp add: st_ok_def st_memory_def)
qed

text \<open>A string that was written is what is parsed; one that does not fit changes nothing.\<close>

lemma written_string_is_parsed:
  assumes "pool_find p h = Some b" "st_ok b" "0 \<notin> set s"
    and "CasualStringWriteString p h (Some (s @ [0])) = (c, p')"
  shows "if length s < st_size b
    then c = STRING_SUCCESS \<and> CasualStringParseString p' h True = Some (STRING_SUCCESS, Some s) \<and>
      CasualStringExploreBuffer p' h = Some (STRING_SUCCESS, Some (st_size b, length s + 1))
    else c = STRING_NO_SPACE \<and> p' = p"
proof -
  have tw: "takeWhile (\<lambda>c. c \<noteq> 0) (s @ [0]) = s" using assms(3) by (auto simp: takeWhile_append)
  have put: "pool_find (pool_put p h b') h = Some b'" for b'
    using assms(1) by (induction p) (auto simp: pool_find_def pool_put_def)
  show ?thesis
  proof (cases "length s < st_size b")
    case True
    let ?b = "b\<lparr>st_store := overwrite 0 (s @ [0]) (st_store b)\<rparr>"
    have "c = STRING_SUCCESS" "p' = pool_put p h ?b"
      using assms(1,4) True by (simp_all add: CasualStringWriteString_def tw)
    moreover have "c_strlen (st_store ?b) = Some (length s)"
      using strlen_text [OF assms(3)] by (simp add: overwrite_def)
    moreover have "take (length s) (st_store ?b) = s" by (simp add: overwrite_def)
    ultimately show ?thesis using True
      by (simp add: CasualStringParseString_def CasualStringExploreBuffer_def put)
  qed (use assms(1,4) in \<open>simp add: CasualStringWriteString_def tw\<close>)
qed

text \<open>
  A string the user has written over the end of the vector, with a null in the allocation behind it, is
  transported with more bytes than the vector has.
\<close>

lemma transport_exceeds_the_vector:
  "st_transport \<lparr>st_store = [104, 105, 106, 0], st_size = 2\<rparr> 2 = Transported 4"
  by code_simp

end
