(* ===== verification/Marshal.thy ===== *)
theory Marshal
  imports Communication
begin

text \<open>
  The marshalling of messages (\<open>common/marshal/binary.h\<close>, \<open>common/marshal/network.h\<close>, with
  \<open>common/memory.h\<close> and the functions for durations, time points and transaction identifiers): what a
  struct lists in its \<open>marshal\<close> function is written member by member behind each other, in the byte order
  of the host or in network order, and is read the same way. A struct is described by its schema, a
  member by its value; native values are unsigned bit patterns of their size. The reading side meets
  an assertion (or an allocation that fails) when the bytes do not suffice; a transaction identifier that
  says it is longer than its memory is written beyond it.
\<close>

section \<open>Native values\<close>

text \<open>The size in memory; an enumeration over \<open>char\<close> is a \<open>char\<close>, sizes and time points are \<open>long\<close>.\<close>

fun native_size :: "ctype \<Rightarrow> nat" where
  "native_size T_bool = 1"
| "native_size T_char = 1"
| "native_size T_short = 2"
| "native_size T_int = 4"
| "native_size T_long = 8"
| "native_size T_float = 4"
| "native_size T_double = 8"

text \<open>\<open>binary::Policy\<close> copies the memory, \<open>network::Policy\<close> encodes it: an \<open>int\<close> travels as eight bytes.\<close>

datatype wire = Binary endian | Network endian

fun wire_size :: "wire \<Rightarrow> ctype \<Rightarrow> nat" where
  "wire_size (Binary e) t = native_size t"
| "wire_size (Network e) t = size_traits t"

fun write_native :: "wire \<Rightarrow> ctype \<Rightarrow> nat \<Rightarrow> byte list" where
  "write_native (Binary e) t u = host_bytes e (native_size t) u"
| "write_native (Network e) t u =
     host_bytes e (size_traits t)
       (transcode_encode e (size_traits t) (to_unsigned (size_traits t) (to_signed (native_size t) u)))"

fun native_value :: "wire \<Rightarrow> ctype \<Rightarrow> byte list \<Rightarrow> nat" where
  "native_value (Binary e) t bs = host_value e bs"
| "native_value (Network e) t bs =
     to_unsigned (native_size t) (to_signed (size_traits t) (transcode_decode e (size_traits t) (host_value e bs)))"

lemma length_host_bytes [simp]: "length (host_bytes e n u) = n"
  by (cases e) (simp_all add: host_bytes_def)

lemma length_write_native [simp]: "length (write_native w t u) = wire_size w t"
  by (cases w) simp_all

lemma host_value_host_bytes: "u < 256 ^ n \<Longrightarrow> host_value e (host_bytes e n u) = u"
  by (cases e) (simp_all add: host_value_def host_bytes_def be_value_be_bytes)

lemma to_signed_range: "u < 256 ^ n \<Longrightarrow> in_range n (to_signed n u)"
proof -
  assume "u < 256 ^ n"
  then have "int u < int (256 ^ n)" by (simp only: of_nat_less_iff)
  then have "int u < 256 ^ n" by (simp only: of_nat_power of_nat_numeral)
  moreover have "0 \<le> int u" by simp
  moreover have "- p \<le> 2 * (if 2 * x < p then x else x - p) \<and> 2 * (if 2 * x < p then x else x - p) < p"
    if "0 \<le> x" "x < p" for x p :: int using that by auto
  ultimately show ?thesis unfolding to_signed_def in_range_def by blast
qed

lemma to_unsigned_to_signed: "u < 256 ^ n \<Longrightarrow> to_unsigned n (to_signed n u) = u"
proof -
  assume "u < 256 ^ n"
  then have "int u < int (256 ^ n)" by (simp only: of_nat_less_iff)
  then have "int u mod 256 ^ n = int u" by simp
  moreover have "(int u - 256 ^ n) mod 256 ^ n = int u mod 256 ^ n" by simp
  ultimately show ?thesis by (auto simp: to_unsigned_def to_signed_def)
qed

lemma native_size_le: "native_size t \<le> size_traits t"
  by (cases t) simp_all

lemma in_range_mono: "in_range m i \<Longrightarrow> m \<le> n \<Longrightarrow> in_range n i"
proof -
  assume i: "in_range m i" and "m \<le> n"
  then have "(256::int) ^ m \<le> 256 ^ n" by (simp add: power_increasing)
  with i show ?thesis unfolding in_range_def by linarith
qed

lemma native_round_trip:
  assumes "u < 256 ^ native_size t"
  shows "native_value w t (write_native w t u) = u"
proof (cases w)
  case (Network e)
  have r: "in_range (size_traits t) (to_signed (native_size t) u)"
    using to_signed_range [OF assms] native_size_le by (rule in_range_mono)
  then show ?thesis using Network assms
    by (simp add: host_value_host_bytes transcode_decode_encode to_unsigned_bound to_signed_to_unsigned
        to_unsigned_to_signed wire_image wire_value [of "be_bytes _ _"] be_value_be_bytes)
qed (use assms in \<open>simp add: host_value_host_bytes\<close>)

section \<open>Values and schemas\<close>

datatype schema =
    S_native ctype
  | S_array nat
  | S_string
  | S_binary
  | S_vector schema
  | S_struct "schema list"
  | S_trid

datatype mval =
    V_native ctype nat
  | V_array "byte list"
  | V_string "byte list"
  | V_binary "byte list"
  | V_vector "mval list"
  | V_struct "mval list"
  | V_trid trid

section \<open>Writing\<close>

text \<open>\<open>casual_marshal_value\<close> of a transaction identifier: a null identifier is its format only.\<close>

definition marshal_trid :: "wire \<Rightarrow> trid \<Rightarrow> byte list" where
  "marshal_trid w t =
     write_native w T_long (to_unsigned 8 (formatID (t_xid t))) @
     (if xid_null (t_xid t) then []
      else write_native w T_int (to_unsigned 4 (ph_pid (t_owner t))) @
           write_native w T_int (to_unsigned 4 (ph_queue (t_owner t))) @
           write_native w T_long (to_unsigned 8 (gtrid_length (t_xid t))) @
           write_native w T_long (to_unsigned 8 (bqual_length (t_xid t))) @
           xid_range (t_xid t))"

fun write_value :: "wire \<Rightarrow> mval \<Rightarrow> byte list" where
  "write_value w (V_native t u) = write_native w t u"
| "write_value w (V_array bs) = bs"
| "write_value w (V_string bs) = write_native w T_long (length bs) @ bs"
| "write_value w (V_binary bs) = write_native w T_long (length bs) @ bs"
| "write_value w (V_vector vs) = write_native w T_long (length vs) @ concat (map (write_value w) vs)"
| "write_value w (V_struct vs) = concat (map (write_value w) vs)"
| "write_value w (V_trid t) = marshal_trid w t"

section \<open>Reading\<close>

text \<open>
  A result with the offset behind it, an assertion or allocation that stops the process or throws, or a write
  outside of the memory of the result.
\<close>

datatype 'a unmarshalled = Unmarshalled 'a nat | Malformed | Overrun

definition then_read :: "'a unmarshalled \<Rightarrow> ('a \<Rightarrow> nat \<Rightarrow> 'b unmarshalled) \<Rightarrow> 'b unmarshalled" where
  "then_read r f = (case r of Unmarshalled v off \<Rightarrow> f v off | Malformed \<Rightarrow> Malformed | Overrun \<Rightarrow> Overrun)"

lemma then_read_simps [simp]:
  "then_read (Unmarshalled v off) f = f v off" "then_read Malformed f = Malformed" "then_read Overrun f = Overrun"
  by (simp_all add: then_read_def)

lemma then_read_cong [fundef_cong]:
  "r = r' \<Longrightarrow> (\<And>v off. r' = Unmarshalled v off \<Longrightarrow> f v off = g v off) \<Longrightarrow> then_read r f = then_read r' g"
  by (cases r') simp_all

definition consume :: "byte list \<Rightarrow> nat \<Rightarrow> nat \<Rightarrow> byte list unmarshalled" where
  "consume buf n off =
     (if off + n \<le> length buf then Unmarshalled (take n (drop off buf)) (off + n) else Malformed)"

definition read_native :: "wire \<Rightarrow> byte list \<Rightarrow> ctype \<Rightarrow> nat \<Rightarrow> nat unmarshalled" where
  "read_native w buf t off =
     then_read (consume buf (wire_size w t) off) (\<lambda>bs off'. Unmarshalled (native_value w t bs) off')"

definition read_signed :: "wire \<Rightarrow> byte list \<Rightarrow> ctype \<Rightarrow> nat \<Rightarrow> int unmarshalled" where
  "read_signed w buf t off =
     then_read (read_native w buf t off) (\<lambda>u off'. Unmarshalled (to_signed (native_size t) u) off')"

text \<open>
  \<open>casual_unmarshal_value\<close> of a transaction identifier, into one that is null. The sum of the lengths
  is added to the offset as an unsigned number, and nothing else is asked of it.
\<close>

definition unmarshal_trid :: "wire \<Rightarrow> byte list \<Rightarrow> nat \<Rightarrow> trid unmarshalled" where
  "unmarshal_trid w buf off =
     then_read (read_signed w buf T_long off) (\<lambda>format off.
     if format = cNull then Unmarshalled (null_id no_process) off
     else then_read (read_signed w buf T_int off) (\<lambda>pid off.
       then_read (read_signed w buf T_int off) (\<lambda>queue off.
       then_read (read_signed w buf T_long off) (\<lambda>g off.
       then_read (read_signed w buf T_long off) (\<lambda>b off.
       if \<not> in_range 8 (g + b) then Overrun
       else if to_unsigned 8 (int off + (g + b)) > length buf then Malformed
       else if g + b < 0 \<or> g + b > int XIDDATASIZE then Overrun
       else let n = nat (g + b)
            in Unmarshalled
                 \<lparr>t_xid = \<lparr>formatID = format, gtrid_length = g, bqual_length = b,
                    xid_data = take n (drop off buf) @ drop n (xid_data (t_xid (null_id no_process)))\<rparr>,
                  t_owner = \<lparr>ph_pid = pid, ph_queue = queue\<rparr>\<rparr> (off + n))))))"

fun read_value :: "wire \<Rightarrow> byte list \<Rightarrow> schema \<Rightarrow> nat \<Rightarrow> mval unmarshalled"
  and read_struct :: "wire \<Rightarrow> byte list \<Rightarrow> schema list \<Rightarrow> nat \<Rightarrow> mval list unmarshalled"
  and read_vector :: "wire \<Rightarrow> byte list \<Rightarrow> schema \<Rightarrow> nat \<Rightarrow> nat \<Rightarrow> mval list unmarshalled" where
  "read_value w buf (S_native t) off = then_read (read_native w buf t off) (\<lambda>u. Unmarshalled (V_native t u))"
| "read_value w buf (S_array n) off = then_read (consume buf n off) (\<lambda>bs. Unmarshalled (V_array bs))"
| "read_value w buf S_string off =
     then_read (read_native w buf T_long off) (\<lambda>n off.
     then_read (consume buf n off) (\<lambda>bs. Unmarshalled (V_string bs)))"
| "read_value w buf S_binary off =
     then_read (read_native w buf T_long off) (\<lambda>n off.
     then_read (consume buf n off) (\<lambda>bs. Unmarshalled (V_binary bs)))"
| "read_value w buf (S_vector s) off =
     then_read (read_native w buf T_long off) (\<lambda>n off.
     then_read (read_vector w buf s n off) (\<lambda>vs. Unmarshalled (V_vector vs)))"
| "read_value w buf (S_struct ss) off =
     then_read (read_struct w buf ss off) (\<lambda>vs. Unmarshalled (V_struct vs))"
| "read_value w buf S_trid off = then_read (unmarshal_trid w buf off) (\<lambda>t. Unmarshalled (V_trid t))"
| "read_struct w buf [] off = Unmarshalled [] off"
| "read_struct w buf (s # ss) off =
     then_read (read_value w buf s off) (\<lambda>v off.
     then_read (read_struct w buf ss off) (\<lambda>vs. Unmarshalled (v # vs)))"
| "read_vector w buf s 0 off = Unmarshalled [] off"
| "read_vector w buf s (Suc n) off =
     then_read (read_value w buf s off) (\<lambda>v off.
     then_read (read_vector w buf s n off) (\<lambda>vs. Unmarshalled (v # vs)))"

section \<open>What is written is read\<close>

text \<open>A value of a schema: patterns of their size, arrays of their length, sizes that fit.\<close>

definition trid_ok :: "trid \<Rightarrow> bool" where
  "trid_ok t \<longleftrightarrow> xid_wf (t_xid t) \<and> in_range 4 (ph_pid (t_owner t)) \<and> in_range 4 (ph_queue (t_owner t))"

fun conforms :: "schema \<Rightarrow> mval \<Rightarrow> bool" where
  "conforms (S_native t) (V_native t' u) \<longleftrightarrow> t' = t \<and> u < 256 ^ native_size t"
| "conforms (S_array n) (V_array bs) \<longleftrightarrow> length bs = n"
| "conforms S_string (V_string bs) \<longleftrightarrow> length bs < 256 ^ 8"
| "conforms S_binary (V_binary bs) \<longleftrightarrow> length bs < 256 ^ 8"
| "conforms (S_vector s) (V_vector vs) \<longleftrightarrow> length vs < 256 ^ 8 \<and> list_all (conforms s) vs"
| "conforms (S_struct ss) (V_struct vs) \<longleftrightarrow> list_all2 conforms ss vs"
| "conforms S_trid (V_trid t) \<longleftrightarrow> trid_ok t"
| "conforms _ _ \<longleftrightarrow> False"

text \<open>The identifier that arrives has zeros where the code does not look, and without a format no owner.\<close>

definition arrived_trid :: "trid \<Rightarrow> trid" where
  "arrived_trid t =
     (if xid_null (t_xid t) then null_id no_process
      else t\<lparr>t_xid := (t_xid t)\<lparr>xid_data := xid_range (t_xid t) @ replicate (XIDDATASIZE - length (xid_range (t_xid t))) 0\<rparr>\<rparr>)"

fun arrived :: "mval \<Rightarrow> mval" where
  "arrived (V_vector vs) = V_vector (map arrived vs)"
| "arrived (V_struct vs) = V_struct (map arrived vs)"
| "arrived (V_trid t) = V_trid (arrived_trid t)"
| "arrived v = v"

lemma arrived_trid_same: "xid_wf (t_xid t) \<Longrightarrow> same_trid (arrived_trid t) t"
  by (auto simp: arrived_trid_def same_trid_def same_xid_def null_id_def xid_null_def xid_range_def xid_wf_def XIDDATASIZE_def)

text \<open>The bytes at an offset, and what follows them.\<close>

definition lies_at :: "byte list \<Rightarrow> nat \<Rightarrow> byte list \<Rightarrow> bool" where
  "lies_at buf off bs \<longleftrightarrow> off \<le> length buf \<and> (\<exists>rest. drop off buf = bs @ rest)"

lemma lies_at_append [simp]:
  "lies_at buf off (xs @ ys) \<longleftrightarrow> lies_at buf off xs \<and> lies_at buf (off + length xs) ys"
proof
  assume "lies_at buf off (xs @ ys)"
  then obtain rest where r: "off \<le> length buf" "drop off buf = xs @ ys @ rest" by (auto simp: lies_at_def)
  from arg_cong [OF r(2), of length] r(1) have l: "off + length xs \<le> length buf" by simp
  have "drop (off + length xs) buf = drop (length xs) (drop off buf)" by (simp add: add.commute)
  with r(2) have "drop (off + length xs) buf = ys @ rest" by simp
  with l r show "lies_at buf off xs \<and> lies_at buf (off + length xs) ys" by (auto simp: lies_at_def)
next
  assume "lies_at buf off xs \<and> lies_at buf (off + length xs) ys"
  then obtain r1 r2 where r: "off \<le> length buf" "drop off buf = xs @ r1" "drop (off + length xs) buf = ys @ r2"
    by (auto simp: lies_at_def)
  have "drop (off + length xs) buf = drop (length xs) (drop off buf)" by (simp add: add.commute)
  with r have "r1 = ys @ r2" by simp
  with r show "lies_at buf off (xs @ ys)" by (auto simp: lies_at_def)
qed

lemma lies_at_le: "lies_at buf off xs \<Longrightarrow> off + length xs \<le> length buf"
  using lies_at_append [of buf off xs "[]"] by (simp add: lies_at_def)

lemma consume_at: "lies_at buf off bs \<Longrightarrow> consume buf (length bs) off = Unmarshalled bs (off + length bs)"
  using lies_at_le [of buf off bs] by (auto simp: consume_def lies_at_def)

lemma read_native_at:
  "u < 256 ^ native_size t \<Longrightarrow> lies_at buf off (write_native w t u) \<Longrightarrow>
    read_native w buf t off = Unmarshalled u (off + wire_size w t)"
  using consume_at [of buf off "write_native w t u"] by (simp add: read_native_def native_round_trip)

lemma read_signed_at:
  "in_range (native_size t) i \<Longrightarrow> lies_at buf off (write_native w t (to_unsigned (native_size t) i)) \<Longrightarrow>
    read_signed w buf t off = Unmarshalled i (off + wire_size w t)"
  using read_native_at [OF to_unsigned_bound, of buf off w t i] by (simp add: read_signed_def to_signed_to_unsigned)

text \<open>The part of an identifier in front of its data, and what follows once it has been read.\<close>

definition trid_header :: "wire \<Rightarrow> trid \<Rightarrow> byte list" where
  "trid_header w t =
     write_native w T_long (to_unsigned 8 (formatID (t_xid t))) @
     write_native w T_int (to_unsigned 4 (ph_pid (t_owner t))) @
     write_native w T_int (to_unsigned 4 (ph_queue (t_owner t))) @
     write_native w T_long (to_unsigned 8 (gtrid_length (t_xid t))) @
     write_native w T_long (to_unsigned 8 (bqual_length (t_xid t)))"

definition trid_ranges :: "trid \<Rightarrow> bool" where
  "trid_ranges t \<longleftrightarrow> in_range 8 (formatID (t_xid t)) \<and> in_range 8 (gtrid_length (t_xid t)) \<and>
     in_range 8 (bqual_length (t_xid t)) \<and> in_range 4 (ph_pid (t_owner t)) \<and> in_range 4 (ph_queue (t_owner t))"

lemma marshal_trid_header: "\<not> xid_null (t_xid t) \<Longrightarrow> marshal_trid w t = trid_header w t @ xid_range (t_xid t)"
  by (simp add: marshal_trid_def trid_header_def)

lemma trid_header_at:
  assumes "trid_ranges t" "\<not> xid_null (t_xid t)" "lies_at buf off (trid_header w t)"
    and "in_range 8 (gtrid_length (t_xid t) + bqual_length (t_xid t))"
  defines "n \<equiv> gtrid_length (t_xid t) + bqual_length (t_xid t)" and "past \<equiv> off + length (trid_header w t)"
  shows "unmarshal_trid w buf off =
    (if to_unsigned 8 (int past + n) > length buf then Malformed
     else if n < 0 \<or> n > int XIDDATASIZE then Overrun
     else Unmarshalled (t\<lparr>t_xid := (t_xid t)\<lparr>xid_data := take (nat n) (drop past buf) @ replicate (XIDDATASIZE - nat n) 0\<rparr>\<rparr>)
            (past + nat n))"
proof -
  let ?x = "t_xid t" and ?L = "wire_size w T_long" and ?I = "wire_size w T_int"
  have r: "in_range (native_size T_long) (formatID ?x)" "in_range (native_size T_long) (gtrid_length ?x)"
      "in_range (native_size T_long) (bqual_length ?x)" "in_range (native_size T_int) (ph_pid (t_owner t))"
      "in_range (native_size T_int) (ph_queue (t_owner t))"
    using assms(1) by (simp_all add: trid_ranges_def)
  have past: "past = off + ?L + ?I + ?I + ?L + ?L" by (simp add: past_def trid_header_def)
  have l: "lies_at buf off (write_native w T_long (to_unsigned 8 (formatID ?x)))"
    "lies_at buf (off + ?L) (write_native w T_int (to_unsigned 4 (ph_pid (t_owner t))))"
    "lies_at buf (off + ?L + ?I) (write_native w T_int (to_unsigned 4 (ph_queue (t_owner t))))"
    "lies_at buf (off + ?L + ?I + ?I) (write_native w T_long (to_unsigned 8 (gtrid_length ?x)))"
    "lies_at buf (off + ?L + ?I + ?I + ?L) (write_native w T_long (to_unsigned 8 (bqual_length ?x)))"
    using assms(3) by (auto simp: trid_header_def add.assoc)
  have reads: "read_signed w buf T_long off = Unmarshalled (formatID ?x) (off + ?L)"
    "read_signed w buf T_int (off + ?L) = Unmarshalled (ph_pid (t_owner t)) (off + ?L + ?I)"
    "read_signed w buf T_int (off + ?L + ?I) = Unmarshalled (ph_queue (t_owner t)) (off + ?L + ?I + ?I)"
    "read_signed w buf T_long (off + ?L + ?I + ?I) = Unmarshalled (gtrid_length ?x) (off + ?L + ?I + ?I + ?L)"
    "read_signed w buf T_long (off + ?L + ?I + ?I + ?L) = Unmarshalled (bqual_length ?x) past"
    using l r unfolding past by (auto intro!: read_signed_at)
  show ?thesis using assms(2,4) reads
    by (simp add: unmarshal_trid_def xid_null_def null_id_def Let_def flip: n_def)
qed

lemma unmarshal_trid_at:
  assumes "trid_ok t" "lies_at buf off (marshal_trid w t)" "length buf < 256 ^ 8"
  shows "unmarshal_trid w buf off = Unmarshalled (arrived_trid t) (off + length (marshal_trid w t))"
proof (cases "xid_null (t_xid t)")
  case True
  have "in_range (native_size T_long) (formatID (t_xid t))" using assms(1) by (simp add: trid_ok_def xid_wf_def)
  then have "read_signed w buf T_long off = Unmarshalled (formatID (t_xid t)) (off + wire_size w T_long)"
    using assms(2) by (intro read_signed_at) (auto simp: marshal_trid_def)
  with True show ?thesis by (simp add: unmarshal_trid_def marshal_trid_def arrived_trid_def xid_null_def)
next
  case False
  let ?n = "gtrid_length (t_xid t) + bqual_length (t_xid t)" and ?past = "off + length (trid_header w t)"
  have ranges: "trid_ranges t" using assms(1) xid_wf_range [of "t_xid t"] by (simp add: trid_ok_def trid_ranges_def xid_wf_def)
  have n: "length (xid_range (t_xid t)) = nat ?n" "0 \<le> ?n" "?n \<le> 128"
    using assms(1) by (auto simp: trid_ok_def xid_wf_def xid_range_def XIDDATASIZE_def)
  have l: "lies_at buf off (trid_header w t)" "lies_at buf ?past (xid_range (t_xid t))"
    using assms(2) marshal_trid_header [OF False] by simp_all
  have "?past + nat ?n \<le> length buf" using lies_at_le [OF l(2)] n(1) by simp
  then have "to_unsigned 8 (int ?past + ?n) \<le> length buf" using n assms(3) by (simp add: to_unsigned_def)
  moreover have "take (nat ?n) (drop ?past buf) = xid_range (t_xid t)" using l(2) n(1) by (auto simp: lies_at_def)
  moreover have "in_range 8 ?n" using n by (simp add: in_range_8_iff)
  ultimately show ?thesis using trid_header_at [OF ranges False l(1)] n marshal_trid_header [OF False, of w]
    by (simp add: arrived_trid_def XIDDATASIZE_def False)
qed

text \<open>An identifier that says it is longer than its memory is written beyond it, when the message has the bytes.\<close>

lemma long_identifier_overruns:
  assumes "trid_ranges t" "\<not> xid_null (t_xid t)" "lies_at buf off (marshal_trid w t)" "length buf < 2 ^ 62"
    and "gtrid_length (t_xid t) + bqual_length (t_xid t) = int (length (xid_range (t_xid t)))"
    and "XIDDATASIZE < length (xid_range (t_xid t))"
  shows "unmarshal_trid w buf off = Overrun"
proof -
  let ?past = "off + length (trid_header w t)"
  have l: "lies_at buf off (trid_header w t)" "lies_at buf ?past (xid_range (t_xid t))"
    using assms(3) marshal_trid_header [OF assms(2)] by simp_all
  from lies_at_le [OF l(2)] have "?past + length (xid_range (t_xid t)) \<le> length buf" .
  then have "to_unsigned 8 (int ?past + int (length (xid_range (t_xid t)))) \<le> length buf"
    "in_range 8 (int (length (xid_range (t_xid t))))"
    using assms(4) by (simp_all add: to_unsigned_def in_range_8_iff)
  then show ?thesis using trid_header_at [OF assms(1,2) l(1)] assms(5,6) by simp
qed

text \<open>The three functions that read, on what lies at the offset.\<close>

definition read_back :: "wire \<Rightarrow> byte list \<Rightarrow> schema \<Rightarrow> mval \<Rightarrow> bool" where
  "read_back w buf s v \<longleftrightarrow> (\<forall>off. lies_at buf off (write_value w v) \<longrightarrow>
     read_value w buf s off = Unmarshalled (arrived v) (off + length (write_value w v)))"

lemma unmarshal_members_at:
  assumes "list_all2 (read_back w buf) ss vs" "lies_at buf off (concat (map (write_value w) vs))"
  shows "read_struct w buf ss off = Unmarshalled (map arrived vs) (off + length (concat (map (write_value w) vs)))"
  using assms
proof (induction ss vs arbitrary: off rule: list_all2_induct)
  case Nil
  then show ?case by simp
next
  case (Cons s ss v vs)
  then show ?case by (auto simp: read_back_def add.assoc)
qed

lemma unmarshal_elements_at:
  assumes "list_all (read_back w buf s) vs" "lies_at buf off (concat (map (write_value w) vs))"
  shows "read_vector w buf s (length vs) off =
    Unmarshalled (map arrived vs) (off + length (concat (map (write_value w) vs)))"
  using assms
proof (induction vs arbitrary: off)
  case (Cons v vs)
  then show ?case by (auto simp: read_back_def add.assoc)
qed simp

lemma conforming_value_is_read_back:
  assumes "conforms s v" "length buf < 256 ^ 8"
  shows "read_back w buf s v"
  using assms(1)
proof (induction s v rule: conforms.induct)
  case (1 t t' u)
  then show ?case by (auto simp: read_back_def read_native_at)
next
  case (2 n bs)
  then show ?case using consume_at [of buf _ bs] by (auto simp: read_back_def)
next
  case (3 bs)
  then show ?case using consume_at [of buf _ bs] read_native_at [of "length bs" T_long buf _ w]
    by (auto simp: read_back_def add.assoc)
next
  case (4 bs)
  then show ?case using consume_at [of buf _ bs] read_native_at [of "length bs" T_long buf _ w]
    by (auto simp: read_back_def add.assoc)
next
  case (5 s vs)
  then have "list_all (read_back w buf s) vs" by (auto simp: list_all_iff)
  with 5 show ?case using read_native_at [of "length vs" T_long buf _ w] unmarshal_elements_at [of w buf s vs]
    by (auto simp: read_back_def add.assoc)
next
  case (6 ss vs)
  then have "list_all2 (read_back w buf) ss vs" by (auto simp: list_all2_conv_all_nth)
  then show ?case using unmarshal_members_at [of w buf ss vs] by (simp add: read_back_def)
next
  case (7 t)
  then show ?case using unmarshal_trid_at [OF _ _ assms(2)] by (simp add: read_back_def)
qed simp_all

end
