(* ===== verification/Messages.thy ===== *)
theory Messages
  imports Marshal Buffer_Pool
begin

text \<open>
  The messages of the middleware (\<open>common/message\<close>): for every type of message the members its struct
  marshals, in their order, and how a message becomes a complete message of the communication and is read
  from it. The execution id is the first member of every message; a call and a traffic event write it a second time.
\<close>

section \<open>The types of messages\<close>

text \<open>\<open>message::Type\<close>, with the numbers the declaration gives.\<close>

type_synonym message_type = int

definition Type_flush_ipc :: message_type where "Type_flush_ipc = 501"
definition Type_poke :: message_type where "Type_poke = 502"
definition Type_shutdownd_request :: message_type where "Type_shutdownd_request = 503"
definition Type_shutdownd_reply :: message_type where "Type_shutdownd_reply = 504"
definition Type_forward_connect_request :: message_type where "Type_forward_connect_request = 505"
definition Type_forward_connect_reply :: message_type where "Type_forward_connect_reply = 506"
definition Type_process_death_registration :: message_type where "Type_process_death_registration = 507"
definition Type_process_death_event :: message_type where "Type_process_death_event = 508"
definition Type_lookup_process_request :: message_type where "Type_lookup_process_request = 509"
definition Type_lookup_process_reply :: message_type where "Type_lookup_process_reply = 510"
definition Type_server_connect_request :: message_type where "Type_server_connect_request = 1001"
definition Type_server_connect_reply :: message_type where "Type_server_connect_reply = 1002"
definition Type_server_disconnect :: message_type where "Type_server_disconnect = 1003"
definition Type_server_ping_request :: message_type where "Type_server_ping_request = 1004"
definition Type_server_ping_reply :: message_type where "Type_server_ping_reply = 1005"
definition Type_service_advertise :: message_type where "Type_service_advertise = 2001"
definition Type_service_unadvertise :: message_type where "Type_service_unadvertise = 2002"
definition Type_service_name_lookup_request :: message_type where "Type_service_name_lookup_request = 2003"
definition Type_service_name_lookup_reply :: message_type where "Type_service_name_lookup_reply = 2004"
definition Type_service_call :: message_type where "Type_service_call = 2005"
definition Type_service_reply :: message_type where "Type_service_reply = 2006"
definition Type_service_acknowledge :: message_type where "Type_service_acknowledge = 2007"
definition Type_traffic_monitor_connect_request :: message_type where "Type_traffic_monitor_connect_request = 3001"
definition Type_traffic_monitor_connect_reply :: message_type where "Type_traffic_monitor_connect_reply = 3002"
definition Type_traffic_monitor_disconnect :: message_type where "Type_traffic_monitor_disconnect = 3003"
definition Type_traffic_event :: message_type where "Type_traffic_event = 3004"
definition Type_transaction_client_connect_request :: message_type where "Type_transaction_client_connect_request = 4001"
definition Type_transaction_client_connect_reply :: message_type where "Type_transaction_client_connect_reply = 4002"
definition Type_transaction_manager_connect_request :: message_type where "Type_transaction_manager_connect_request = 4003"
definition Type_transaction_manager_connect_reply :: message_type where "Type_transaction_manager_connect_reply = 4004"
definition Type_transaction_manager_configuration :: message_type where "Type_transaction_manager_configuration = 4005"
definition Type_transaction_manager_ready :: message_type where "Type_transaction_manager_ready = 4006"
definition Type_transaction_begin_request :: message_type where "Type_transaction_begin_request = 4100"
definition Type_transaction_begin_reply :: message_type where "Type_transaction_begin_reply = 4101"
definition Type_transaction_commit_request :: message_type where "Type_transaction_commit_request = 4102"
definition Type_transaction_commit_reply :: message_type where "Type_transaction_commit_reply = 4103"
definition Type_transaction_Rollback_request :: message_type where "Type_transaction_Rollback_request = 4104"
definition Type_transaction_rollback_reply :: message_type where "Type_transaction_rollback_reply = 4105"
definition Type_transaction_generic_reply :: message_type where "Type_transaction_generic_reply = 4106"
definition Type_transaction_resurce_connect_reply :: message_type where "Type_transaction_resurce_connect_reply = 4200"
definition Type_transaction_resource_prepare_request :: message_type where "Type_transaction_resource_prepare_request = 4201"
definition Type_transaction_resource_prepare_reply :: message_type where "Type_transaction_resource_prepare_reply = 4202"
definition Type_transaction_resource_commit_request :: message_type where "Type_transaction_resource_commit_request = 4203"
definition Type_transaction_resource_commit_reply :: message_type where "Type_transaction_resource_commit_reply = 4204"
definition Type_transaction_resource_rollback_request :: message_type where "Type_transaction_resource_rollback_request = 4205"
definition Type_transaction_resource_rollback_reply :: message_type where "Type_transaction_resource_rollback_reply = 4206"
definition Type_transaction_domain_resource_prepare_request :: message_type where "Type_transaction_domain_resource_prepare_request = 4300"
definition Type_transaction_domain_resource_prepare_reply :: message_type where "Type_transaction_domain_resource_prepare_reply = 4301"
definition Type_transaction_domain_resource_commit_request :: message_type where "Type_transaction_domain_resource_commit_request = 4302"
definition Type_transaction_domain_resource_commit_reply :: message_type where "Type_transaction_domain_resource_commit_reply = 4303"
definition Type_transaction_domain_resource_rollback_request :: message_type where "Type_transaction_domain_resource_rollback_request = 4304"
definition Type_transaction_domain_resource_rollback_reply :: message_type where "Type_transaction_domain_resource_rollback_reply = 4305"
definition Type_transaction_resource_involved :: message_type where "Type_transaction_resource_involved = 4400"
definition Type_transaction_domain_resource_involved :: message_type where "Type_transaction_domain_resource_involved = 4401"
definition Type_transaction_resource_id_request :: message_type where "Type_transaction_resource_id_request = 4500"
definition Type_transaction_resource_id_reply :: message_type where "Type_transaction_resource_id_reply = 4501"
definition Type_queue_connect_request :: message_type where "Type_queue_connect_request = 5001"
definition Type_queue_connect_reply :: message_type where "Type_queue_connect_reply = 5002"
definition Type_queue_enqueue_request :: message_type where "Type_queue_enqueue_request = 5100"
definition Type_queue_enqueue_reply :: message_type where "Type_queue_enqueue_reply = 5101"
definition Type_queue_dequeue_request :: message_type where "Type_queue_dequeue_request = 5200"
definition Type_queue_dequeue_reply :: message_type where "Type_queue_dequeue_reply = 5201"
definition Type_queue_dequeue_forget_request :: message_type where "Type_queue_dequeue_forget_request = 5202"
definition Type_queue_dequeue_forget_reply :: message_type where "Type_queue_dequeue_forget_reply = 5203"
definition Type_queue_information :: message_type where "Type_queue_information = 5300"
definition Type_queue_queues_information_request :: message_type where "Type_queue_queues_information_request = 5301"
definition Type_queue_queues_information_reply :: message_type where "Type_queue_queues_information_reply = 5302"
definition Type_queue_queue_information_request :: message_type where "Type_queue_queue_information_request = 5303"
definition Type_queue_queue_information_reply :: message_type where "Type_queue_queue_information_reply = 5304"
definition Type_queue_lookup_request :: message_type where "Type_queue_lookup_request = 5400"
definition Type_queue_lookup_reply :: message_type where "Type_queue_lookup_reply = 5401"
definition Type_queue_group_involved :: message_type where "Type_queue_group_involved = 5500"
definition Type_mockup_disconnect :: message_type where "Type_mockup_disconnect = 1000001"
definition Type_mockup_clear :: message_type where "Type_mockup_clear = 1000002"

section \<open>Members\<close>

datatype member = Execution | Member schema

definition process_schema :: "schema" where
  "process_schema = S_struct [S_native T_int, S_native T_int]"

definition exit_schema :: "schema" where
  "exit_schema = S_struct [S_native T_int, S_native T_int, S_native T_char]"

definition buffer_type_schema :: "schema" where
  "buffer_type_schema = S_struct [S_string, S_string]"

definition payload_schema :: "schema" where
  "payload_schema = S_struct [buffer_type_schema, S_binary]"

definition statistics_schema :: "schema" where
  "statistics_schema = S_struct [S_native T_long, S_native T_long]"

definition service_schema :: "schema" where
    "service_schema = S_struct [S_string, S_native T_long, S_native T_long, S_vector (S_native T_int), S_native
     T_long]"

definition basic_message :: "member list" where
  "basic_message = [Execution]"

definition type_wrapper :: "member list \<Rightarrow> member list" where
  "type_wrapper ms = Execution # ms"

definition shutdown_request :: "member list" where
  "shutdown_request = basic_message @ [Member (S_native T_bool)]"

definition pid_holder_schema :: "schema" where
  "pid_holder_schema = S_struct [S_vector (S_native T_int), S_vector (S_native T_int)]"

definition process_holder_schema :: "schema" where
  "process_holder_schema = S_struct [S_vector process_schema, S_vector process_schema]"

definition shutdown_reply :: "member list" where
  "shutdown_reply = basic_message @ [Member pid_holder_schema, Member process_holder_schema]"

definition basic_id :: "member list" where
  "basic_id = basic_message @ [Member process_schema]"

definition connect_basic_request :: "member list" where
  "connect_basic_request = basic_id @ [Member S_string, Member (S_array 16)]"

definition connect_basic_reply :: "member list" where
  "connect_basic_reply = basic_message @ [Member (S_native T_char)]"

definition basic_disconnect :: "member list" where
  "basic_disconnect = basic_id"

definition death_event :: "member list" where
  "death_event = basic_message @ [Member exit_schema]"

definition process_lookup_request :: "member list" where
  "process_lookup_request = basic_id @ [Member (S_array 16), Member (S_native T_char)]"

definition process_lookup_reply :: "member list" where
  "process_lookup_reply = basic_id @ [Member (S_array 16), Member S_string]"

definition ping_request :: "member list" where
  "ping_request = basic_id"

definition ping_reply :: "member list" where
  "ping_reply = basic_id @ [Member (S_array 16)]"

definition server_connect_request_members :: "member list" where
  "server_connect_request_members = connect_basic_request @ [Member (S_vector service_schema)]"

definition transaction_state_schema :: "schema" where
  "transaction_state_schema = S_struct [S_trid, S_native T_long]"

definition advertise_members :: "member list" where
    "advertise_members = basic_message @ [Member S_string, Member process_schema, Member (S_vector
     service_schema)]"

definition unadvertise_members :: "member list" where
  "unadvertise_members = basic_message @ [Member process_schema, Member (S_vector service_schema)]"

definition service_lookup_request :: "member list" where
  "service_lookup_request = basic_message @ [Member S_string, Member process_schema, Member (S_native T_char)]"

definition service_lookup_reply :: "member list" where
    "service_lookup_reply = basic_message @ [Member service_schema, Member process_schema, Member (S_native
     T_char)]"

definition base_call :: "member list" where
    "base_call = basic_message @ [Member (S_native T_int), Member process_schema, Member service_schema, Member
     S_string, Execution, Member S_trid, Member (S_native T_long)]"

definition callee_request :: "member list" where
  "callee_request = base_call @ [Member payload_schema]"

definition service_reply_members :: "member list" where
    "service_reply_members = basic_message @ [Member (S_native T_int), Member (S_native T_int), Member (S_native
     T_long), Member payload_schema, Member transaction_state_schema]"

definition service_ack :: "member list" where
  "service_ack = basic_message @ [Member S_string, Member process_schema]"

definition traffic_event_members :: "member list" where
    "traffic_event_members = basic_message @ [Member S_string, Member S_string, Member process_schema,
     Execution, Member S_trid, Member (S_native T_long), Member (S_native T_long)]"

definition resource_manager_schema :: "schema" where
  "resource_manager_schema = S_struct [S_native T_long, S_native T_long, S_string, S_string, S_string]"

definition client_connect_reply :: "member list" where
  "client_connect_reply = connect_basic_reply @ [Member (S_vector resource_manager_schema), Member S_string]"

definition manager_configuration :: "member list" where
  "manager_configuration = basic_message @ [Member S_string, Member (S_vector resource_manager_schema)]"

definition manager_ready :: "member list" where
  "manager_ready = basic_message @ [Member process_schema, Member (S_native T_bool)]"

definition basic_transaction :: "member list" where
  "basic_transaction = basic_message @ [Member process_schema, Member S_trid]"

definition transaction_basic_request :: "member list" where
  "transaction_basic_request = basic_transaction"

definition transaction_basic_reply :: "member list" where
  "transaction_basic_reply = basic_transaction @ [Member (S_native T_int)]"

definition commit_request_members :: "member list" where
  "commit_request_members = transaction_basic_request @ [Member (S_vector (S_native T_int))]"

definition commit_reply_members :: "member list" where
  "commit_reply_members = transaction_basic_reply @ [Member (S_native T_char)]"

definition rollback_request_members :: "member list" where
  "rollback_request_members = transaction_basic_request @ [Member (S_vector (S_native T_int))]"

definition rollback_reply_members :: "member list" where
  "rollback_reply_members = transaction_basic_reply @ [Member (S_native T_char)]"

definition resource_id_request :: "member list" where
  "resource_id_request = basic_message @ [Member process_schema, Member (S_array 16)]"

definition resource_id_reply :: "member list" where
  "resource_id_reply = basic_message @ [Member (S_native T_int), Member (S_array 16)]"

definition resource_basic_reply :: "member list" where
  "resource_basic_reply = transaction_basic_reply @ [Member (S_native T_int), Member statistics_schema]"

definition resource_involved :: "member list" where
  "resource_involved = basic_transaction @ [Member (S_vector (S_native T_int))]"

definition resource_basic_request :: "member list" where
  "resource_basic_request = basic_transaction @ [Member (S_native T_int), Member (S_native T_int)]"

definition resource_connect_reply :: "member list" where
    "resource_connect_reply = basic_message @ [Member process_schema, Member (S_native T_int), Member (S_native
     T_int)]"

definition domain_involved :: "member list" where
  "domain_involved = basic_transaction @ [Member (S_array 16)]"

definition base_message_schema :: "schema" where
    "base_message_schema = S_struct [S_array 16, S_string, S_string, S_native T_long, buffer_type_schema,
     S_binary]"

definition queue_lookup_request_members :: "member list" where
  "queue_lookup_request_members = basic_message @ [Member process_schema, Member S_string]"

definition queue_lookup_reply_members :: "member list" where
  "queue_lookup_reply_members = type_wrapper [Member process_schema, Member (S_native T_long)]"

definition enqueue_request_members :: "member list" where
    "enqueue_request_members = basic_message @ [Member process_schema, Member S_trid, Member (S_native T_long),
     Member base_message_schema]"

definition enqueue_reply_members :: "member list" where
  "enqueue_reply_members = basic_message @ [Member (S_array 16)]"

definition selector_schema :: "schema" where
  "selector_schema = S_struct [S_string, S_array 16]"

definition dequeue_request_members :: "member list" where
    "dequeue_request_members = basic_message @ [Member process_schema, Member S_trid, Member (S_native T_long),
     Member selector_schema, Member (S_native T_bool)]"

definition dequeued_message_schema :: "schema" where
    "dequeued_message_schema = S_struct [S_array 16, S_string, S_string, S_native T_long, buffer_type_schema,
     S_binary, S_native T_long, S_native T_long]"

definition dequeue_reply_members :: "member list" where
  "dequeue_reply_members = basic_message @ [Member (S_vector dequeued_message_schema)]"

definition forget_request_members :: "member list" where
  "forget_request_members = basic_message @ [Member process_schema, Member (S_native T_long)]"

definition forget_reply_members :: "member list" where
  "forget_reply_members = basic_message @ [Member (S_native T_bool)]"

definition queue_schema :: "schema" where
  "queue_schema = S_struct [S_native T_long, S_string, S_native T_long, S_native T_long, S_native T_int]"

definition queue_information_schema :: "schema" where
    "queue_information_schema = S_struct [S_native T_long, S_string, S_native T_long, S_native T_long, S_native
     T_int, S_native T_long, S_native T_long, S_native T_long, S_native T_long]"

definition basic_information :: "member list" where
  "basic_information = basic_message @ [Member process_schema, Member (S_vector queue_information_schema)]"

definition message_information_schema :: "schema" where
    "message_information_schema = S_struct [S_array 16, S_native T_long, S_native T_long, S_binary, S_native
     T_long, S_string, S_native T_long, buffer_type_schema, S_native T_long, S_native T_long, S_native T_long]"

definition messages_request :: "member list" where
  "messages_request = basic_id @ [Member (S_native T_long)]"

definition messages_reply :: "member list" where
  "messages_reply = basic_id @ [Member (S_vector message_information_schema)]"

definition queue_connect_request_members :: "member list" where
  "queue_connect_request_members = basic_message @ [Member process_schema]"

definition queue_connect_reply_members :: "member list" where
  "queue_connect_reply_members = basic_message @ [Member S_string, Member (S_vector queue_schema)]"

definition group_involved_members :: "member list" where
  "group_involved_members = basic_message @ [Member process_schema, Member S_trid]"

lemmas member_defs =
  basic_message_def type_wrapper_def shutdown_request_def shutdown_reply_def basic_id_def
  connect_basic_request_def connect_basic_reply_def basic_disconnect_def death_event_def
  process_lookup_request_def process_lookup_reply_def ping_request_def ping_reply_def
  server_connect_request_members_def advertise_members_def unadvertise_members_def service_lookup_request_def
  service_lookup_reply_def base_call_def callee_request_def service_reply_members_def service_ack_def
  traffic_event_members_def client_connect_reply_def manager_configuration_def manager_ready_def
  basic_transaction_def transaction_basic_request_def transaction_basic_reply_def commit_request_members_def
  commit_reply_members_def rollback_request_members_def rollback_reply_members_def resource_id_request_def
  resource_id_reply_def resource_basic_reply_def resource_involved_def resource_basic_request_def
  resource_connect_reply_def domain_involved_def queue_lookup_request_members_def queue_lookup_reply_members_def
  enqueue_request_members_def enqueue_reply_members_def dequeue_request_members_def dequeue_reply_members_def
  forget_request_members_def forget_reply_members_def basic_information_def messages_request_def
  messages_reply_def queue_connect_request_members_def queue_connect_reply_members_def
  group_involved_members_def

text \<open>The struct of each type; some types have none.\<close>

definition message_table :: "(message_type \<times> member list) list" where
  "message_table = [
     (Type_flush_ipc, basic_message),
     (Type_shutdownd_request, shutdown_request),
     (Type_shutdownd_reply, shutdown_reply),
     (Type_forward_connect_request, connect_basic_request),
     (Type_forward_connect_reply, connect_basic_reply),
     (Type_process_death_registration, basic_id),
     (Type_process_death_event, death_event),
     (Type_lookup_process_request, process_lookup_request),
     (Type_lookup_process_reply, process_lookup_reply),
     (Type_server_connect_request, server_connect_request_members),
     (Type_server_connect_reply, connect_basic_reply),
     (Type_server_ping_request, ping_request),
     (Type_server_ping_reply, ping_reply),
     (Type_service_advertise, advertise_members),
     (Type_service_unadvertise, unadvertise_members),
     (Type_service_name_lookup_request, service_lookup_request),
     (Type_service_name_lookup_reply, service_lookup_reply),
     (Type_service_call, callee_request),
     (Type_service_reply, service_reply_members),
     (Type_service_acknowledge, service_ack),
     (Type_traffic_monitor_connect_request, connect_basic_request),
     (Type_traffic_monitor_connect_reply, connect_basic_reply),
     (Type_traffic_monitor_disconnect, basic_disconnect),
     (Type_traffic_event, traffic_event_members),
     (Type_transaction_client_connect_request, connect_basic_request),
     (Type_transaction_client_connect_reply, client_connect_reply),
     (Type_transaction_manager_connect_request, connect_basic_request),
     (Type_transaction_manager_connect_reply, connect_basic_reply),
     (Type_transaction_manager_configuration, manager_configuration),
     (Type_transaction_manager_ready, manager_ready),
     (Type_transaction_commit_request, commit_request_members),
     (Type_transaction_commit_reply, commit_reply_members),
     (Type_transaction_Rollback_request, rollback_request_members),
     (Type_transaction_rollback_reply, rollback_reply_members),
     (Type_transaction_resurce_connect_reply, resource_connect_reply),
     (Type_transaction_resource_prepare_request, resource_basic_request),
     (Type_transaction_resource_prepare_reply, resource_basic_reply),
     (Type_transaction_resource_commit_request, resource_basic_request),
     (Type_transaction_resource_commit_reply, resource_basic_reply),
     (Type_transaction_resource_rollback_request, resource_basic_request),
     (Type_transaction_resource_rollback_reply, resource_basic_reply),
     (Type_transaction_domain_resource_prepare_request, resource_basic_request),
     (Type_transaction_domain_resource_prepare_reply, resource_basic_reply),
     (Type_transaction_domain_resource_commit_request, resource_basic_request),
     (Type_transaction_domain_resource_commit_reply, resource_basic_reply),
     (Type_transaction_domain_resource_rollback_request, resource_basic_request),
     (Type_transaction_domain_resource_rollback_reply, resource_basic_reply),
     (Type_transaction_resource_involved, resource_involved),
     (Type_transaction_domain_resource_involved, domain_involved),
     (Type_transaction_resource_id_request, resource_id_request),
     (Type_transaction_resource_id_reply, resource_id_reply),
     (Type_queue_connect_request, queue_connect_request_members),
     (Type_queue_connect_reply, queue_connect_reply_members),
     (Type_queue_enqueue_request, enqueue_request_members),
     (Type_queue_enqueue_reply, enqueue_reply_members),
     (Type_queue_dequeue_request, dequeue_request_members),
     (Type_queue_dequeue_reply, dequeue_reply_members),
     (Type_queue_dequeue_forget_request, forget_request_members),
     (Type_queue_dequeue_forget_reply, forget_reply_members),
     (Type_queue_information, basic_information),
     (Type_queue_queues_information_request, basic_id),
     (Type_queue_queues_information_reply, basic_information),
     (Type_queue_queue_information_request, messages_request),
     (Type_queue_queue_information_reply, messages_reply),
     (Type_queue_lookup_request, queue_lookup_request_members),
     (Type_queue_lookup_reply, queue_lookup_reply_members),
     (Type_queue_group_involved, group_involved_members)]"

definition message_members :: "message_type \<Rightarrow> member list option" where
  "message_members t = map_of message_table t"

lemmas message_type_defs =
  Type_flush_ipc_def Type_shutdownd_request_def Type_shutdownd_reply_def Type_forward_connect_request_def
  Type_forward_connect_reply_def Type_process_death_registration_def Type_process_death_event_def
  Type_lookup_process_request_def Type_lookup_process_reply_def Type_server_connect_request_def
  Type_server_connect_reply_def Type_server_ping_request_def Type_server_ping_reply_def
  Type_service_advertise_def Type_service_unadvertise_def Type_service_name_lookup_request_def
  Type_service_name_lookup_reply_def Type_service_call_def Type_service_reply_def Type_service_acknowledge_def
  Type_traffic_monitor_connect_request_def Type_traffic_monitor_connect_reply_def
  Type_traffic_monitor_disconnect_def Type_traffic_event_def Type_transaction_client_connect_request_def
  Type_transaction_client_connect_reply_def Type_transaction_manager_connect_request_def
  Type_transaction_manager_connect_reply_def Type_transaction_manager_configuration_def
  Type_transaction_manager_ready_def Type_transaction_commit_request_def Type_transaction_commit_reply_def
  Type_transaction_Rollback_request_def Type_transaction_rollback_reply_def
  Type_transaction_resurce_connect_reply_def Type_transaction_resource_prepare_request_def
  Type_transaction_resource_prepare_reply_def Type_transaction_resource_commit_request_def
  Type_transaction_resource_commit_reply_def Type_transaction_resource_rollback_request_def
  Type_transaction_resource_rollback_reply_def Type_transaction_domain_resource_prepare_request_def
  Type_transaction_domain_resource_prepare_reply_def Type_transaction_domain_resource_commit_request_def
  Type_transaction_domain_resource_commit_reply_def Type_transaction_domain_resource_rollback_request_def
  Type_transaction_domain_resource_rollback_reply_def Type_transaction_resource_involved_def
  Type_transaction_domain_resource_involved_def Type_transaction_resource_id_request_def
  Type_transaction_resource_id_reply_def Type_queue_connect_request_def Type_queue_connect_reply_def
  Type_queue_enqueue_request_def Type_queue_enqueue_reply_def Type_queue_dequeue_request_def
  Type_queue_dequeue_reply_def Type_queue_dequeue_forget_request_def Type_queue_dequeue_forget_reply_def
  Type_queue_information_def Type_queue_queues_information_request_def Type_queue_queues_information_reply_def
  Type_queue_queue_information_request_def Type_queue_queue_information_reply_def Type_queue_lookup_request_def
  Type_queue_lookup_reply_def Type_queue_group_involved_def

text \<open>No two of these types have the same number, and none has that of the absent message.\<close>

lemma message_types_differ: "distinct (absent_message # map fst message_table)"
  by (simp add: message_table_def message_type_defs absent_message_def)

lemma execution_is_a_member: "message_members t = Some ms \<Longrightarrow> Execution \<in> set ms"
proof -
  have "\<forall>e\<in>set message_table. Execution \<in> set (snd e)" by (simp add: message_table_def member_defs)
  moreover assume "message_members t = Some ms"
  then have "(t, ms) \<in> set message_table" by (auto simp: message_members_def dest: map_of_SomeD)
  ultimately show ?thesis by force
qed

section \<open>Complete messages\<close>

record message =
  mg_type :: message_type
  mg_correlation :: uuid
  mg_execution :: "byte list"
  mg_members :: "mval list"

fun write_message ::
    "wire \<Rightarrow> byte list \<Rightarrow> member list \<Rightarrow> mval list \<Rightarrow> byte list" where
  "write_message w x (Execution # ms) vs = x @ write_message w x ms vs"
| "write_message w x (Member s # ms) (v # vs) = write_value w v @ write_message w x ms vs"
| "write_message w x _ _ = []"

fun read_message ::
    "wire \<Rightarrow> byte list \<Rightarrow> member list \<Rightarrow> byte list \<Rightarrow> nat \<Rightarrow> (byte list \<times> mval list) unmarshalled" where
  "read_message w buf [] x off = Unmarshalled (x, []) off"
| "read_message w buf (Execution # ms) x off =
     then_read (consume buf 16 off) (\<lambda>bs off. read_message w buf ms bs off)"
| "read_message w buf (Member s # ms) x off =
     then_read (read_value w buf s off) (\<lambda>v off.
     then_read (read_message w buf ms x off) (\<lambda>(x', vs). Unmarshalled (x', v # vs)))"

text \<open>
  \<open>marshal::complete\<close>: a message without an execution id gets the one of the process, one without a
  correlation a new one.
\<close>

definition nil_execution :: "byte list" where
  "nil_execution = replicate 16 0"

definition sent_message :: "byte list \<Rightarrow> uuid \<Rightarrow> message \<Rightarrow> message" where
  "sent_message own fresh m =
     m\<lparr>mg_execution := (if mg_execution m = nil_execution then own else mg_execution m),
       mg_correlation := (if mg_correlation m = nil_uuid then fresh else mg_correlation m)\<rparr>"

definition complete_of :: "wire \<Rightarrow> byte list \<Rightarrow> uuid \<Rightarrow> member list \<Rightarrow> message \<Rightarrow> complete" where
  "complete_of w own fresh ms m =
     (let m' = sent_message own fresh m
      in \<lparr>cm_type = mg_type m', cm_correlation = mg_correlation m',
          cm_payload = write_message w (mg_execution m') ms (mg_members m'), cm_unhandled = []\<rparr>)"

text \<open>Reading into a new message of a type; a complete message of another type meets the assertion.\<close>

definition message_of :: "wire \<Rightarrow> message_type \<Rightarrow> member list \<Rightarrow> complete \<Rightarrow> message unmarshalled" where
  "message_of w t ms c =
     (if cm_type c \<noteq> t then Malformed
      else then_read (read_message w (cm_payload c) ms nil_execution 0) (\<lambda>(x, vs).
        Unmarshalled \<lparr>mg_type = t, mg_correlation = cm_correlation c, mg_execution = x, mg_members = vs\<rparr>))"

section \<open>A message that is sent is received\<close>

definition members_conform :: "member list \<Rightarrow> mval list \<Rightarrow> bool" where
  "members_conform ms vs \<longleftrightarrow> list_all2 conforms [s. Member s \<leftarrow> ms] vs"

lemma members_conform_simps [simp]:
  "members_conform [] vs \<longleftrightarrow> vs = []"
  "members_conform (Execution # ms) vs \<longleftrightarrow> members_conform ms vs"
  "members_conform (Member s # ms) vs \<longleftrightarrow> (\<exists>v vs'. vs = v # vs' \<and> conforms s v \<and> members_conform ms vs')"
  by (auto simp: members_conform_def list_all2_Cons1)

lemma unmarshal_message_at:
  assumes "members_conform ms vs" "length x = 16" "length buf < 256 ^ 8" "lies_at buf off (write_message w x ms vs)"
  shows "read_message w buf ms x0 off =
    Unmarshalled (if Execution \<in> set ms then x else x0, map arrived vs) (off + length (write_message w x ms vs))"
  using assms(1,4)
proof (induction ms arbitrary: vs off x0)
  case (Cons m ms)
  show ?case
  proof (cases m)
    case Execution
    then show ?thesis using Cons assms(2) consume_at [of buf off x] by (auto simp: add.assoc)
  next
    case (Member s)
    then obtain v vs' where v: "vs = v # vs'" "conforms s v" "members_conform ms vs'" using Cons.prems(1) by auto
    have "read_back w buf s v" using v(2) assms(3) by (rule conforming_value_is_read_back)
    then show ?thesis using Cons.IH [OF v(3)] Cons.prems(2) v(1) Member by (auto simp: read_back_def add.assoc)
  qed
qed auto


text \<open>An acknowledge of the service \<open>ab\<close> by the process 10, sent without a correlation and an execution id.\<close>

definition sample_ack :: message where
  "sample_ack = \<lparr>mg_type = Type_service_acknowledge, mg_correlation = nil_uuid, mg_execution = nil_execution,
     mg_members = [V_string [97, 98], V_struct [V_native T_int 10, V_native T_int 4]]\<rparr>"

definition sample_execution :: "byte list" where
  "sample_execution = replicate 16 7"

lemma sample_ack_bytes:
  "cm_payload (complete_of (Binary LITTLE_ENDIAN) sample_execution 5 service_ack sample_ack) =
    replicate 16 7 @ [2, 0, 0, 0, 0, 0, 0, 0, 97, 98, 10, 0, 0, 0, 4, 0, 0, 0]"
  by code_simp


section \<open>A call and its buffer\<close>

text \<open>
  The caller marshals its buffer where it lies, cut to what is transported; the callee reads a payload. \<open>None\<close> is
  the read behind the end of the memory.
\<close>

definition char_bytes :: "string \<Rightarrow> byte list" where
  "char_bytes s = map of_char s"

definition payload_value :: "payload \<Rightarrow> mval" where
  "payload_value p =
     V_struct [V_struct [V_string (char_bytes (fst (pay_type p))), V_string (char_bytes (snd (pay_type p)))],
       V_binary (pay_memory p)]"

definition marshal_send :: "wire \<Rightarrow> send_buffer \<Rightarrow> byte list option" where
  "marshal_send w b =
     (let ty = pay_type (sb_payload b); mem = pay_memory (sb_payload b)
      in if sb_transport b > length mem then None
         else Some (write_value w (V_struct [V_string (char_bytes (fst ty)), V_string (char_bytes (snd ty))]) @
                write_native w T_long (sb_transport b) @ take (sb_transport b) mem))"

definition caller_request :: "wire \<Rightarrow> byte list \<Rightarrow> mval list \<Rightarrow> send_buffer \<Rightarrow> byte list option" where
  "caller_request w x vs b = map_option (\<lambda>bs. write_message w x base_call vs @ bs) (marshal_send w b)"

lemma marshal_members_append:
  "members_conform ms vs \<Longrightarrow> write_message w x (ms @ ms') (vs @ vs') = write_message w x ms vs @ write_message w x ms' vs'"
proof (induction ms arbitrary: vs)
  case (Cons m ms)
  then show ?case by (cases m) auto
qed simp

lemma marshal_sent_payload:
  "sb_transport b \<le> length (pay_memory (sb_payload b)) \<Longrightarrow>
    marshal_send w b = Some (write_value w (payload_value (sent_payload b)))"
  by (simp add: marshal_send_def payload_value_def sent_payload_def Let_def)

text \<open>What the caller sends is what the callee would write_value, with the buffer cut to the part that is transported.\<close>

lemma caller_sends_the_callee_request:
  assumes "members_conform base_call vs" "sb_transport b \<le> length (pay_memory (sb_payload b))"
  shows "caller_request w x vs b = Some (write_message w x callee_request (vs @ [payload_value (sent_payload b)]))"
  using assms by (simp add: caller_request_def marshal_sent_payload callee_request_def marshal_members_append)

lemma callee_gets_the_sent_payload:
  assumes "members_conform base_call vs" "sb_transport b \<le> length (pay_memory (sb_payload b))" "length x = 16"
    and "length (fst (pay_type (sb_payload b))) < 256 ^ 8" "length (snd (pay_type (sb_payload b))) < 256 ^ 8"
    and "caller_request w x vs b = Some bytes" "length bytes < 256 ^ 8"
  shows "read_message w bytes callee_request nil_execution 0 =
    Unmarshalled (x, map arrived vs @ [payload_value (sent_payload b)]) (length bytes)"
proof -
  let ?vs = "vs @ [payload_value (sent_payload b)]"
  have bytes: "bytes = write_message w x callee_request ?vs"
    using caller_sends_the_callee_request [OF assms(1,2)] assms(6) by simp
  have "sb_transport b < 256 ^ 8"
    using assms(2,6,7) by (auto simp: caller_request_def marshal_send_def Let_def)
  then have "conforms payload_schema (payload_value (sent_payload b))"
    using assms(2,4,5) by (simp add: payload_schema_def buffer_type_schema_def payload_value_def sent_payload_def char_bytes_def)
  then have "members_conform callee_request ?vs"
    using assms(1) by (auto simp: members_conform_def callee_request_def intro!: list_all2_appendI)
  moreover have "Execution \<in> set callee_request" by (simp add: member_defs)
  moreover have "arrived (payload_value (sent_payload b)) = payload_value (sent_payload b)" by (simp add: payload_value_def)
  ultimately show ?thesis
    using unmarshal_message_at [OF _ assms(3), of callee_request ?vs bytes 0 w nil_execution] assms(7)
    by (simp add: bytes lies_at_def)
qed

section \<open>What goes wrong\<close>

text \<open>The process that asks for a shutdown is not part of what is marshalled: the receiver cannot know it.\<close>

lemma shutdown_request_has_no_process:
  "Member process_schema \<notin> set shutdown_request"
  by (simp add: shutdown_request_def basic_message_def process_schema_def)

end
