(* ===== verification/Forward_Cache.thy ===== *)
theory Forward_Cache
  imports Call_Context
begin

text \<open>
  The forward cache (\<open>broker/source/forward/cache.cpp\<close>): a process that takes calls whose caller does not wait for
  an instance. It asks the broker for the service, keeps the call until there is an idle instance, and sends it
  there; when that fails the caller gets an error reply. What the sends meet is part of the state.
\<close>

section \<open>State\<close>

datatype cache_message =
    F_lookup string process_handle
  | F_call service_request
  | F_reply call_answer

text \<open>\<open>pending::Message\<close> with one target\<close>

type_synonym forward_pending = "cache_message \<times> int"

datatype forward_exn = F_unavailable | F_shutdown

datatype send_outcome = Send_done | Send_full | Send_gone

datatype forward_input = I_lookup lookup_answer | I_call service_request | I_shutdown | I_other

text \<open>
  The map from the services to the calls that wait, in the order of their first use; the calls nobody waits for an
  answer to, and those whose caller is gone, are noted in \<open>fc_dropped\<close>.
\<close>

record forward_cache =
  fc_requested :: "(string \<times> service_request list) list"
  fc_pending :: "forward_pending list"
  fc_self :: process_handle
  fc_broker :: int
  fc_sent :: "forward_pending list"
  fc_dropped :: "uuid list"
  fc_outcomes :: "send_outcome list"
  fc_inbox :: "forward_input list"

type_synonym 'a forward = "(forward_cache, forward_exn, 'a) effect"

section \<open>Sending\<close>

definition non_blocking_send :: "cache_message \<Rightarrow> int \<Rightarrow> bool forward" where
  "non_blocking_send m q s =
     (case fc_outcomes s of
        [] \<Rightarrow> (Inr True, s\<lparr>fc_sent := fc_sent s @ [(m, q)]\<rparr>)
      | Send_done # os \<Rightarrow> (Inr True, s\<lparr>fc_outcomes := os, fc_sent := fc_sent s @ [(m, q)]\<rparr>)
      | Send_full # os \<Rightarrow> (Inr False, s\<lparr>fc_outcomes := os\<rparr>)
      | Send_gone # os \<Rightarrow> (Inl F_unavailable, s\<lparr>fc_outcomes := os\<rparr>))"

text \<open>A blocking send waits while the queue is full.\<close>

definition cache_send_blocking :: "cache_message \<Rightarrow> int \<Rightarrow> unit forward" where
  "cache_send_blocking m q s =
     after (non_blocking_send m q) (\<lambda>_. return ()) (s\<lparr>fc_outcomes := dropWhile (\<lambda>r. r = Send_full) (fc_outcomes s)\<rparr>)"

definition push_pending :: "cache_message \<Rightarrow> int \<Rightarrow> unit forward" where
  "push_pending m q = change (\<lambda>s. s\<lparr>fc_pending := fc_pending s @ [(m, q)]\<rparr>)"

text \<open>The correlations of the calls a message is about.\<close>

definition message_calls :: "forward_pending \<Rightarrow> uuid list" where
  "message_calls p = (case fst p of F_lookup _ _ \<Rightarrow> [] | F_call m \<Rightarrow> [cc_correlation m] | F_reply r \<Rightarrow> [re_correlation r])"

definition note_dropped :: "uuid list \<Rightarrow> unit forward" where
  "note_dropped cs = change (\<lambda>s. s\<lparr>fc_dropped := fc_dropped s @ cs\<rparr>)"

section \<open>Handlers\<close>

definition error_answer :: "service_request \<Rightarrow> call_answer" where
  "error_answer m =
     \<lparr>re_correlation = cc_correlation m, re_descriptor = cc_descriptor m, re_error = TPESVCERR, re_code = 0,
      re_buffer = null_payload, re_trid = cc_trid m, re_state = 0\<rparr>"

definition call_error_reply :: "service_request \<Rightarrow> unit forward" where
  "call_error_reply m =
     (if has_flag TPNOREPLY (cc_flags m) then note_dropped [cc_correlation m]
      else catch
        (after (non_blocking_send (F_reply (error_answer m)) (ph_queue (cc_process m))) (\<lambda>ok.
         if ok then return () else push_pending (F_reply (error_answer m)) (ph_queue (cc_process m))))
        (\<lambda>e. if e = F_unavailable then note_dropped [cc_correlation m] else throw e))"

fun waiting_for :: "string \<Rightarrow> (string \<times> service_request list) list \<Rightarrow> service_request list" where
  "waiting_for n [] = []"
| "waiting_for n (e # es) = (if fst e = n then snd e else waiting_for n es)"

text \<open>\<open>reqested[ name]\<close> makes the entry when there is none.\<close>

fun on_requested ::
    "string \<Rightarrow> (service_request list \<Rightarrow> service_request list) \<Rightarrow> (string \<times> service_request list) list \<Rightarrow> (string \<times> service_request list) list" where
  "on_requested n f [] = [(n, f [])]"
| "on_requested n f (e # es) = (if fst e = n then (n, f (snd e)) # es else e # on_requested n f es)"

definition change_requested :: "string \<Rightarrow> (service_request list \<Rightarrow> service_request list) \<Rightarrow> unit forward" where
  "change_requested n f = change (\<lambda>s. s\<lparr>fc_requested := on_requested n f (fc_requested s)\<rparr>)"

text \<open>The guard \<open>error_reply\<close> sends the reply when the handler is left before it is released, also by an exception.\<close>

definition forward_to :: "service_request \<Rightarrow> lookup_answer \<Rightarrow> unit forward" where
  "forward_to r a =
     (let q = ph_queue (la_process a)
      in catch
        (after (non_blocking_send (F_call r) q) (\<lambda>ok. if ok then return () else push_pending (F_call r) q))
        (\<lambda>e. after (call_error_reply r) (\<lambda>_. throw e)))"

definition handle_forward :: "lookup_answer \<Rightarrow> unit forward" where
  "handle_forward a =
     (if la_state a = L_busy then return ()
      else
        after (change_requested (si_name (la_service a)) id) (\<lambda>_.
        after (read_state (\<lambda>s. waiting_for (si_name (la_service a)) (fc_requested s))) (\<lambda>rs.
        case rs of
          [] \<Rightarrow> return ()
        | m # _ \<Rightarrow>
            after (change_requested (si_name (la_service a)) tl) (\<lambda>_.
            let r = m\<lparr>cc_service := la_service a\<rparr>
            in if la_state a = L_absent then call_error_reply r else forward_to r a))))"

text \<open>\<open>Lookup::operator()\<close> catches everything.\<close>

definition forward_lookup :: "lookup_answer \<Rightarrow> unit forward" where
  "forward_lookup a = catch (handle_forward a) (\<lambda>_. return ())"

definition forward_call :: "service_request \<Rightarrow> unit forward" where
  "forward_call m =
     after (read_state id) (\<lambda>s.
     after (cache_send_blocking (F_lookup (si_name (cc_service m)) (fc_self s)) (fc_broker s)) (\<lambda>_.
     change_requested (si_name (cc_service m)) (\<lambda>ms. ms @ [m])))"

section \<open>The pump\<close>

text \<open>A shutdown throws; a message without a handler is consumed, and the dispatch says so.\<close>

fun forward_dispatch :: "forward_input \<Rightarrow> bool forward" where
  "forward_dispatch (I_lookup a) = after (forward_lookup a) (\<lambda>_. return True)"
| "forward_dispatch (I_call m) = after (forward_call m) (\<lambda>_. return True)"
| "forward_dispatch I_shutdown = throw F_shutdown"
| "forward_dispatch I_other = return False"

text \<open>The sender keeps what a full queue refuses, and drops what is for a queue that is gone.\<close>

definition pending_remains :: "forward_pending \<Rightarrow> bool forward" where
  "pending_remains p =
     catch (after (non_blocking_send (fst p) (snd p)) (\<lambda>ok. return (\<not> ok)))
       (\<lambda>e. after (note_dropped (message_calls p)) (\<lambda>_. return False))"

fun send_pending :: "forward_pending list \<Rightarrow> forward_pending list forward" where
  "send_pending [] = return []"
| "send_pending (p # ps) =
     after (pending_remains p) (\<lambda>b. after (send_pending ps) (\<lambda>qs. return (if b then p # qs else qs)))"

definition batch_pending :: nat where "batch_pending = 100"

text \<open>
  \<open>while( handler( next( non blocking)) && pending.size() < batch)\<close>, over the messages that are there; an empty device yields
  a message without a handler.
\<close>

fun drain :: "forward_input list \<Rightarrow> unit forward" where
  "drain [] = change (\<lambda>s. s\<lparr>fc_inbox := []\<rparr>)"
| "drain (i # is) =
     after (change (\<lambda>s. s\<lparr>fc_inbox := is\<rparr>)) (\<lambda>_.
     after (forward_dispatch i) (\<lambda>b.
     after (read_state (\<lambda>s. length (fc_pending s) < batch_pending)) (\<lambda>c. if b \<and> c then drain is else return ())))"

text \<open>One turn of the loop; with nothing pending and nothing to read it waits.\<close>

definition forward_turn :: "unit forward" where
  "forward_turn =
     after (read_state id) (\<lambda>s.
     if fc_pending s = [] then
       (case fc_inbox s of
          [] \<Rightarrow> return ()
        | i # is \<Rightarrow> after (change (\<lambda>s. s\<lparr>fc_inbox := is\<rparr>)) (\<lambda>_. after (forward_dispatch i) (\<lambda>_. return ())))
     else
       after (change (\<lambda>s. s\<lparr>fc_pending := []\<rparr>)) (\<lambda>_.
       after (send_pending (fc_pending s)) (\<lambda>ps.
       after (change (\<lambda>s. s\<lparr>fc_pending := ps\<rparr>)) (\<lambda>_. drain (fc_inbox s)))))"

fun forward_turns :: "nat \<Rightarrow> unit forward" where
  "forward_turns 0 = return ()"
| "forward_turns (Suc n) = after forward_turn (\<lambda>_. forward_turns n)"

text \<open>\<open>Cache::start\<close> ends with a shutdown; other exceptions leave it.\<close>

definition forward_start :: "nat \<Rightarrow> unit forward" where
  "forward_start n = catch (forward_turns n) (\<lambda>e. if e = F_shutdown then return () else throw e)"

section \<open>No call is lost\<close>

text \<open>The correlations of the calls the cache has to do with: waiting, about to be sent, sent, or given up.\<close>

definition input_calls :: "forward_input \<Rightarrow> uuid list" where
  "input_calls i = (case i of I_call m \<Rightarrow> [cc_correlation m] | _ \<Rightarrow> [])"

definition waiting_calls :: "forward_cache \<Rightarrow> uuid multiset" where
  "waiting_calls s = mset (map cc_correlation (concat (map snd (fc_requested s))))"

definition settled_calls :: "forward_cache \<Rightarrow> uuid multiset" where
  "settled_calls s = mset (concat (map message_calls (fc_sent s))) + mset (fc_dropped s)"

definition known_calls :: "forward_cache \<Rightarrow> uuid multiset" where
  "known_calls s = waiting_calls s + mset (concat (map message_calls (fc_pending s))) + settled_calls s +
     mset (concat (map input_calls (fc_inbox s)))"

lemmas effect_defs = after_def return_def catch_def throw_def change_def read_state_def

lemmas known_defs = known_calls_def waiting_calls_def settled_calls_def

lemma non_blocking_send_known:
  assumes "non_blocking_send m q s = (r, s')"
  shows "fc_requested s' = fc_requested s" "fc_inbox s' = fc_inbox s" "fc_pending s' = fc_pending s"
    "settled_calls s' = (if r = Inr True then settled_calls s + mset (message_calls (m, q)) else settled_calls s)"
    "r = Inr True \<or> r = Inr False \<or> r = Inl F_unavailable"
  using assms by (auto simp: non_blocking_send_def settled_calls_def split: list.splits send_outcome.splits)

text \<open>What an error reply or a forwarded call does to the books: the call is settled or pending.\<close>

lemma call_error_reply_known:
  assumes "call_error_reply m s = (r, s')"
  shows "r = Inr ()" "known_calls s' = add_mset (cc_correlation m) (known_calls s)"
    "fc_requested s' = fc_requested s" "fc_inbox s' = fc_inbox s"
proof -
  obtain b s1 where b: "non_blocking_send (F_reply (error_answer m)) (ph_queue (cc_process m)) s = (b, s1)" by fastforce
  note sent = non_blocking_send_known [OF b]
  show "r = Inr ()" "known_calls s' = add_mset (cc_correlation m) (known_calls s)"
    "fc_requested s' = fc_requested s" "fc_inbox s' = fc_inbox s"
    using assms b sent
    by (auto simp: call_error_reply_def effect_defs note_dropped_def push_pending_def known_calls_def waiting_calls_def
        settled_calls_def message_calls_def error_answer_def split: if_splits)
qed

lemma forward_to_known:
  assumes "forward_to m a s = (r, s')"
  shows "known_calls s' = add_mset (cc_correlation m) (known_calls s)"
    "fc_requested s' = fc_requested s" "fc_inbox s' = fc_inbox s"
proof -
  obtain b s1 where b: "non_blocking_send (F_call m) (ph_queue (la_process a)) s = (b, s1)" by fastforce
  obtain c s2 where c: "call_error_reply m s1 = (c, s2)" by fastforce
  note sent = non_blocking_send_known [OF b] and failed = call_error_reply_known [OF c]
  show "known_calls s' = add_mset (cc_correlation m) (known_calls s)"
    "fc_requested s' = fc_requested s" "fc_inbox s' = fc_inbox s"
    using assms b c sent failed
    by (auto simp: forward_to_def Let_def effect_defs push_pending_def known_calls_def waiting_calls_def
        settled_calls_def message_calls_def split: if_splits)
qed

subsection \<open>The waiting calls\<close>

abbreviation all_waiting :: "(string \<times> service_request list) list \<Rightarrow> uuid multiset" where
  "all_waiting es \<equiv> mset (map cc_correlation (concat (map snd es)))"

lemma waiting_for_touched [simp]: "waiting_for n (on_requested n id es) = waiting_for n es"
  by (induction es) auto

lemma waiting_touched [simplified, simp]: "all_waiting (on_requested n id es) = all_waiting es"
  by (induction es) auto

lemma waiting_taken:
  "waiting_for n es = m # ms \<Longrightarrow> all_waiting es = add_mset (cc_correlation m) (all_waiting (on_requested n tl es))"
  by (induction es) (auto split: if_splits)

lemma waiting_added: "all_waiting (on_requested n (\<lambda>ms. ms @ [m]) es) = add_mset (cc_correlation m) (all_waiting es)"
  by (induction es) auto

lemma change_requested_known:
  "known_calls (s\<lparr>fc_requested := es\<rparr>) + waiting_calls s = known_calls s + all_waiting es"
  by (simp add: known_defs)

lemma handle_forward_known:
  assumes "handle_forward a s = (r, s')"
  shows "known_calls s' = known_calls s \<and> fc_inbox s' = fc_inbox s"
proof (cases "la_state a = L_busy")
  case True
  with assms show ?thesis by (simp add: handle_forward_def return_def)
next
  case False
  let ?n = "si_name (la_service a)"
  let ?es = "on_requested ?n id (fc_requested s)"
  let ?s = "s\<lparr>fc_requested := ?es\<rparr>"
  have touched: "known_calls ?s = known_calls s"
    by (simp add: known_defs)
  show ?thesis
  proof (cases "waiting_for ?n (fc_requested s)")
    case Nil
    with False assms touched show ?thesis by (auto simp: handle_forward_def change_requested_def effect_defs)
  next
    case (Cons m ms)
    let ?r = "m\<lparr>cc_service := la_service a\<rparr>" and ?t = "?s\<lparr>fc_requested := on_requested ?n tl ?es\<rparr>"
    have "waiting_for ?n ?es = m # ms" using Cons by simp
    then have "all_waiting ?es = add_mset (cc_correlation m) (all_waiting (on_requested ?n tl ?es))" by (rule waiting_taken)
    then have taken: "add_mset (cc_correlation m) (known_calls ?t) = known_calls ?s" by (simp add: known_defs)
    have "(if la_state a = L_absent then call_error_reply ?r else forward_to ?r a) ?t = (r, s')"
      using assms False Cons by (simp add: handle_forward_def change_requested_def effect_defs Let_def)
    then have "known_calls s' = add_mset (cc_correlation m) (known_calls ?t) \<and> fc_inbox s' = fc_inbox ?t"
      using call_error_reply_known [of ?r ?t r s'] forward_to_known [of ?r a ?t r s'] by (auto split: if_splits)
    with taken touched show ?thesis by simp
  qed
qed

lemma forward_call_known:
  assumes "forward_call m s = (Inr x, s')"
  shows "known_calls s' = add_mset (cc_correlation m) (known_calls s) \<and> fc_inbox s' = fc_inbox s"
proof -
  let ?s = "s\<lparr>fc_outcomes := dropWhile (\<lambda>r. r = Send_full) (fc_outcomes s)\<rparr>"
  obtain b s1 where b: "non_blocking_send (F_lookup (si_name (cc_service m)) (fc_self s)) (fc_broker s) ?s = (b, s1)" by fastforce
  note sent = non_blocking_send_known [OF b]
  have "known_calls ?s = known_calls s" by (simp add: known_defs)
  moreover have "known_calls s1 = known_calls ?s"
    using sent by (auto simp: known_calls_def waiting_calls_def message_calls_def split: if_splits)
  moreover have "s' = s1\<lparr>fc_requested := on_requested (si_name (cc_service m)) (\<lambda>ms. ms @ [m]) (fc_requested s1)\<rparr>"
    using assms b by (auto simp: forward_call_def cache_send_blocking_def change_requested_def effect_defs split: sum.splits)
  ultimately show ?thesis using waiting_added [of "si_name (cc_service m)" m "fc_requested s1"] sent(2)
    by (simp add: known_defs)
qed

subsection \<open>The pump\<close>

lemma forward_dispatch_known:
  assumes "forward_dispatch i s = (Inr b, s')"
  shows "known_calls s' = known_calls s + mset (input_calls i) \<and> fc_inbox s' = fc_inbox s"
proof (cases i)
  case (I_lookup a)
  obtain r s1 where r: "handle_forward a s = (r, s1)" by fastforce
  with assms I_lookup handle_forward_known [OF r] show ?thesis
    by (cases r) (auto simp: forward_lookup_def effect_defs input_calls_def)
next
  case (I_call m)
  then obtain x where "forward_call m s = (Inr x, s')"
    using assms by (cases "forward_call m s"; cases "fst (forward_call m s)") (auto simp: effect_defs)
  from forward_call_known [OF this] I_call show ?thesis by (simp add: input_calls_def)
qed (use assms in \<open>auto simp: effect_defs input_calls_def\<close>)

lemma read_next:
  "fc_inbox s = i # js \<Longrightarrow> known_calls (s\<lparr>fc_inbox := js\<rparr>) + mset (input_calls i) = known_calls s"
  by (simp add: known_defs ac_simps)

lemma drain_known:
  assumes "drain js s = (Inr x, s')" "fc_inbox s = js"
  shows "known_calls s' = known_calls s"
  using assms
proof (induction js arbitrary: s)
  case Nil
  then show ?case by (auto simp: change_def known_defs)
next
  case (Cons i js)
  let ?s = "s\<lparr>fc_inbox := js\<rparr>"
  obtain b s1 where b: "forward_dispatch i ?s = (Inr b, s1)"
    using Cons.prems by (cases "forward_dispatch i ?s"; cases "fst (forward_dispatch i ?s)") (auto simp: effect_defs)
  have "known_calls s1 = known_calls s"
    using forward_dispatch_known [OF b] read_next [OF Cons.prems(2)] by simp
  moreover have "known_calls s' = known_calls s1"
    using Cons.IH [of s1] Cons.prems(1) b forward_dispatch_known [OF b] by (auto simp: effect_defs split: if_splits)
  ultimately show ?case by simp
qed

lemma pending_remains_known:
  assumes "pending_remains p s = (r, s')"
  shows "\<exists>b. r = Inr b \<and> settled_calls s' + mset (if b then message_calls p else []) = settled_calls s + mset (message_calls p) \<and>
    fc_requested s' = fc_requested s \<and> fc_inbox s' = fc_inbox s \<and> fc_pending s' = fc_pending s"
proof -
  obtain b s1 where b: "non_blocking_send (fst p) (snd p) s = (b, s1)" by fastforce
  note sent = non_blocking_send_known [OF b]
  have p: "message_calls (fst p, snd p) = message_calls p" by simp
  from sent(5) consider "b = Inr True" | "b = Inr False" | "b = Inl F_unavailable" by blast
  then show ?thesis
  proof cases
    case 1
    then have "r = Inr False" "s' = s1" using assms b by (simp_all add: pending_remains_def effect_defs)
    then show ?thesis using sent 1 p by (intro exI [of _ False]) simp
  next
    case 2
    then have "r = Inr True" "s' = s1" using assms b by (simp_all add: pending_remains_def effect_defs)
    then show ?thesis using sent(1-3) sent(4) [unfolded 2] by (intro exI [of _ True]) simp
  next
    case 3
    then have "r = Inr False" "s' = s1\<lparr>fc_dropped := fc_dropped s1 @ message_calls p\<rparr>"
      using assms b by (simp_all add: pending_remains_def effect_defs note_dropped_def)
    then show ?thesis using sent 3 by (intro exI [of _ False]) (simp add: settled_calls_def)
  qed
qed

lemma send_pending_known:
  assumes "send_pending ps s = (r, s')"
  shows "\<exists>qs. r = Inr qs \<and>
    settled_calls s' + mset (concat (map message_calls qs)) = settled_calls s + mset (concat (map message_calls ps)) \<and>
    fc_requested s' = fc_requested s \<and> fc_inbox s' = fc_inbox s \<and> fc_pending s' = fc_pending s"
  using assms
proof (induction ps arbitrary: s r s')
  case Nil
  then show ?case by (auto simp: return_def)
next
  case (Cons p ps)
  obtain r1 s1 where r1: "pending_remains p s = (r1, s1)" by fastforce
  obtain b where b: "r1 = Inr b"
      "settled_calls s1 + mset (if b then message_calls p else []) = settled_calls s + mset (message_calls p)"
      "fc_requested s1 = fc_requested s" "fc_inbox s1 = fc_inbox s" "fc_pending s1 = fc_pending s"
    using pending_remains_known [OF r1] by blast
  obtain r2 s2 where r2: "send_pending ps s1 = (r2, s2)" by fastforce
  obtain qs where qs: "r2 = Inr qs"
      "settled_calls s2 + mset (concat (map message_calls qs)) = settled_calls s1 + mset (concat (map message_calls ps))"
      "fc_requested s2 = fc_requested s1" "fc_inbox s2 = fc_inbox s1" "fc_pending s2 = fc_pending s1"
    using Cons.IH [OF r2] by blast
  have s': "r = Inr (if b then p # qs else qs)" "s' = s2"
    using Cons.prems r1 r2 b(1) qs(1) by (auto simp: effect_defs)
  have "settled_calls s2 + mset (concat (map message_calls (if b then p # qs else qs))) =
      (settled_calls s2 + mset (concat (map message_calls qs))) + mset (if b then message_calls p else [])"
    by (simp add: ac_simps)
  also have "\<dots> = settled_calls s + mset (concat (map message_calls (p # ps)))"
    using qs(2) b(2) by (simp add: ac_simps)
  finally show ?case using s' b qs by simp
qed

lemma forward_turn_known:
  assumes "forward_turn s = (Inr x, s')"
  shows "known_calls s' = known_calls s"
proof (cases "fc_pending s")
  case Nil
  show ?thesis
  proof (cases "fc_inbox s")
    case (Cons i js)
    let ?s = "s\<lparr>fc_inbox := js\<rparr>"
    obtain b where "forward_dispatch i ?s = (Inr b, s')"
      using assms Nil Cons by (cases "forward_dispatch i ?s"; cases "fst (forward_dispatch i ?s)") (auto simp: forward_turn_def effect_defs)
    from forward_dispatch_known [OF this] read_next [OF Cons] show ?thesis by simp
  qed (use assms Nil in \<open>simp add: forward_turn_def effect_defs\<close>)
next
  case (Cons p ps)
  let ?s = "s\<lparr>fc_pending := []\<rparr>"
  obtain r1 s1 where r1: "send_pending (fc_pending s) ?s = (r1, s1)" by fastforce
  obtain qs where qs: "r1 = Inr qs"
      "settled_calls s1 + mset (concat (map message_calls qs)) = settled_calls ?s + mset (concat (map message_calls (fc_pending s)))"
      "fc_requested s1 = fc_requested ?s" "fc_inbox s1 = fc_inbox ?s" "fc_pending s1 = fc_pending ?s"
    using send_pending_known [OF r1] by blast
  let ?t = "s1\<lparr>fc_pending := qs\<rparr>"
  have "settled_calls s1 + mset (concat (map message_calls qs)) = settled_calls s + mset (concat (map message_calls (fc_pending s)))"
    using qs(2) by (simp add: settled_calls_def)
  then have "waiting_calls s + (mset (concat (map message_calls qs)) + settled_calls s1) =
      waiting_calls s + (mset (concat (map message_calls (fc_pending s))) + settled_calls s)" by (simp add: ac_simps)
  moreover have "waiting_calls ?t = waiting_calls s" "settled_calls ?t = settled_calls s1"
    using qs(3) by (simp_all add: waiting_calls_def settled_calls_def)
  ultimately have "known_calls ?t = known_calls s"
    using qs(4) by (simp add: known_calls_def ac_simps)
  moreover have "drain (fc_inbox s) ?t = (Inr x, s')"
    using assms Cons r1 qs(1) by (simp add: forward_turn_def effect_defs)
  ultimately show ?thesis using drain_known [of "fc_inbox s" ?t] qs(4) by simp
qed


text \<open>A call for a service whose instance has a full queue, and one for a service that nobody has.\<close>

definition sample_forwarded :: "uuid \<Rightarrow> string \<Rightarrow> service_request" where
  "sample_forwarded c svc = \<lparr>cc_correlation = c, cc_descriptor = 1, cc_process = \<lparr>ph_pid = 1, ph_queue = 10\<rparr>,
     cc_service = \<lparr>si_name = svc, si_type = 0, si_timeout = 0, si_monitors = [], si_transaction = 0\<rparr>, cc_parent = [], cc_trid = null_trid,
     cc_flags = 0, cc_buffer = null_payload\<rparr>"

definition sample_found :: "string \<Rightarrow> lookup_state \<Rightarrow> lookup_answer" where
  "sample_found svc l = \<lparr>la_service = \<lparr>si_name = svc, si_type = 0, si_timeout = 0, si_monitors = [], si_transaction = 0\<rparr>,
     la_process = \<lparr>ph_pid = 2, ph_queue = 20\<rparr>, la_state = l\<rparr>"

definition sample_cache :: forward_cache where
  "sample_cache = \<lparr>fc_requested = [], fc_pending = [], fc_self = \<lparr>ph_pid = 9, ph_queue = 90\<rparr>, fc_broker = 1000, fc_sent = [],
     fc_dropped = [], fc_outcomes = [Send_done, Send_done, Send_full, Send_full],
     fc_inbox = [I_call (sample_forwarded 51 ''a''), I_call (sample_forwarded 52 ''b''), I_lookup (sample_found ''a'' L_idle),
       I_lookup (sample_found ''b'' L_absent)]\<rparr>"


section \<open>What goes wrong\<close>

text \<open>
  When the broker cannot be asked the call is gone: the handler throws before it has kept the call, and no reply is sent.
\<close>

lemma call_without_broker_is_lost:
  "forward_dispatch (I_call m) (s\<lparr>fc_outcomes := [Send_gone]\<rparr>) = (Inl F_unavailable, s\<lparr>fc_outcomes := []\<rparr>)"
  by (simp add: forward_call_def cache_send_blocking_def non_blocking_send_def effect_defs)

end
