(* ===== verification/Resource_Proxy.thy ===== *)
theory Resource_Proxy
  imports Tm_Pump Effects
begin

text \<open>
  The resource proxy (\<open>transaction/source/resource/proxy.cpp\<close>): the process through which the transaction manager
  reaches a resource manager. It opens the resource and says so, and then answers each request with what the
  resource manager has returned. What it sends are the events of \<open>Tm_Pump\<close>, what it gets the messages of
  \<open>Tm_State\<close>; the resource manager and the clock belong to its state.
\<close>

section \<open>State\<close>

datatype proxy_call =
    P_open string int int
  | P_close string int int
  | P_prepare xid int int
  | P_commit xid int int
  | P_rollback xid int int

datatype proxy_event = Called proxy_call int | Told tm_event

text \<open>The switch that is linked: its key, and whether there is one; a null pointer is \<open>None\<close>.\<close>

record switch_mapping =
  sm_key :: "string option"
  sm_switch :: bool

record resource_proxy =
  px_id :: int
  px_key :: string
  px_openinfo :: string
  px_closeinfo :: string
  px_switches :: "switch_mapping option"
  px_self :: process_handle
  px_rm :: "proxy_event list \<Rightarrow> proxy_call \<Rightarrow> int"
  px_clock :: "proxy_event list \<Rightarrow> int"
  px_reachable :: "proxy_event list \<Rightarrow> bool"
  px_events :: "proxy_event list"

datatype proxy_exn = Px_mismatch | Px_open | Px_unavailable | Px_shutdown

type_synonym 'a on_proxy = "(resource_proxy, proxy_exn, 'a) effect"

definition proxy_now :: "int on_proxy" where
  "proxy_now = read_state (\<lambda>s. px_clock s (px_events s))"

definition invoke_rm :: "proxy_call \<Rightarrow> int on_proxy" where
  "invoke_rm c s = (let r = px_rm s (px_events s) c in (Inr r, s\<lparr>px_events := px_events s @ [Called c r]\<rparr>))"

text \<open>A blocking send to the transaction manager, whose queue may be gone.\<close>

definition tell :: "tm_event \<Rightarrow> unit on_proxy" where
  "tell e s = (if px_reachable s (px_events s) then (Inr (), s\<lparr>px_events := px_events s @ [Told e]\<rparr>) else (Inl Px_unavailable, s))"

section \<open>Handlers\<close>

definition validate_proxy :: "resource_proxy \<Rightarrow> bool" where
  "validate_proxy s \<longleftrightarrow>
     (case px_switches s of
        None \<Rightarrow> False
      | Some m \<Rightarrow> sm_key m = Some (px_key s) \<and> px_key s \<noteq> [] \<and> sm_switch m)"

definition proxy_open :: "unit on_proxy" where
  "proxy_open =
     after (read_state id) (\<lambda>s.
     after (invoke_rm (P_open (px_openinfo s) (px_id s) TMNOFLAGS)) (\<lambda>r.
     after (tell (Ev_connect (px_self s) (px_id s) r)) (\<lambda>_.
     if r \<noteq> XA_OK then throw Px_open else return ())))"

fun policy_call :: "rm_call \<Rightarrow> xid \<Rightarrow> int \<Rightarrow> int \<Rightarrow> proxy_call" where
  "policy_call Rm_prepare x rm flags = P_prepare x rm flags"
| "policy_call Rm_commit x rm flags = P_commit x rm flags"
| "policy_call Rm_rollback x rm flags = P_rollback x rm flags"

text \<open>\<open>basic_handler\<close>, with the policy of the request and in the domain it came from.\<close>

definition proxy_handler :: "rm_call \<Rightarrow> bool \<Rightarrow> trid \<Rightarrow> int \<Rightarrow> unit on_proxy" where
  "proxy_handler call domain t flags =
     after (read_state id) (\<lambda>s.
     after proxy_now (\<lambda>start.
     after (invoke_rm (policy_call call (t_xid t) (px_id s) flags)) (\<lambda>r.
     after proxy_now (\<lambda>finish.
     tell (Ev_reply call domain
       \<lparr>rp_process = px_self s, rp_trid = t, rp_resource = px_id s, rp_state = r, rp_start = start, rp_end = finish\<rparr>)))))"

fun proxy_dispatch :: "tm_message \<Rightarrow> bool on_proxy" where
  "proxy_dispatch (Resource_request call domain p t flags) = after (proxy_handler call domain t flags) (\<lambda>_. return True)"
| "proxy_dispatch Shutdown_request = throw Px_shutdown"
| "proxy_dispatch _ = return False"

text \<open>The pump goes on while there is a handler, over the messages that arrive.\<close>

fun proxy_pump :: "tm_message list \<Rightarrow> unit on_proxy" where
  "proxy_pump [] = return ()"
| "proxy_pump (m # ms) = after (proxy_dispatch m) (\<lambda>b. if b then proxy_pump ms else return ())"

definition proxy_start :: "tm_message list \<Rightarrow> unit on_proxy" where
  "proxy_start ms = after proxy_open (\<lambda>_. proxy_pump ms)"

text \<open>The destructor closes the resource, also when the pump has thrown; its result is only logged.\<close>

definition proxy_close :: "unit on_proxy" where
  "proxy_close =
     after (read_state id) (\<lambda>s. after (invoke_rm (P_close (px_closeinfo s) (px_id s) TMNOFLAGS)) (\<lambda>_. return ()))"

definition proxy_run :: "tm_message list \<Rightarrow> unit on_proxy" where
  "proxy_run ms s =
     (if \<not> validate_proxy s then (Inl Px_mismatch, s)
      else let (r, s') = proxy_start ms s in (r, snd (proxy_close s')))"

section \<open>Each request is answered\<close>

definition told :: "resource_proxy \<Rightarrow> tm_event list" where
  "told s = [e. Told e \<leftarrow> px_events s]"

text \<open>The answer to a request: of its kind, for its transaction, from this proxy, with what the resource manager returned.\<close>

definition proxy_answers :: "resource_proxy \<Rightarrow> tm_message \<Rightarrow> tm_event \<Rightarrow> bool" where
  "proxy_answers s m e \<longleftrightarrow>
     (\<exists>call domain p t flags r. m = Resource_request call domain p t flags \<and> e = Ev_reply call domain r \<and>
        rp_trid r = t \<and> rp_process r = px_self s \<and> rp_resource r = px_id s \<and>
        Called (policy_call call (t_xid t) (px_id s) flags) (rp_state r) \<in> set (px_events s))"

definition same_surroundings :: "resource_proxy \<Rightarrow> resource_proxy \<Rightarrow> bool" where
  "same_surroundings s s' \<longleftrightarrow> (\<exists>es. s' = s\<lparr>px_events := px_events s @ es\<rparr>)"

lemma answers_later: "proxy_answers s m e \<Longrightarrow> same_surroundings s s' \<Longrightarrow> proxy_answers s' m e"
  by (fastforce simp: proxy_answers_def same_surroundings_def)

lemma same_surroundings_trans: "same_surroundings s t \<Longrightarrow> same_surroundings t u \<Longrightarrow> same_surroundings s u"
  by (auto simp: same_surroundings_def)

lemmas proxy_effects = after_def return_def throw_def read_state_def

lemma proxy_handler_tells:
  assumes "proxy_handler call domain t flags s = (r, s')"
  shows "same_surroundings s s' \<and> (r = Inr () \<and> (\<exists>e. told s' = told s @ [e] \<and> proxy_answers s' (Resource_request call domain p t flags) e)
    \<or> r = Inl Px_unavailable \<and> told s' = told s)"
proof -
  let ?c = "policy_call call (t_xid t) (px_id s) flags"
  let ?s = "s\<lparr>px_events := px_events s @ [Called ?c (px_rm s (px_events s) ?c)]\<rparr>"
  let ?e = "Ev_reply call domain \<lparr>rp_process = px_self s, rp_trid = t, rp_resource = px_id s,
    rp_state = px_rm s (px_events s) ?c, rp_start = px_clock s (px_events s), rp_end = px_clock ?s (px_events ?s)\<rparr>"
  have "tell ?e ?s = (r, s')"
    using assms by (simp add: proxy_handler_def proxy_effects proxy_now_def invoke_rm_def Let_def)
  then show ?thesis
    by (auto simp: tell_def told_def same_surroundings_def proxy_answers_def split: if_splits)
qed


text \<open>A proxy whose resource manager refuses the second request, and that is asked for three things.\<close>

definition sample_resource_proxy :: resource_proxy where
  "sample_resource_proxy = \<lparr>px_id = 5, px_key = ''db'', px_openinfo = [], px_closeinfo = [],
     px_switches = Some \<lparr>sm_key = Some ''db'', sm_switch = True\<rparr>, px_self = \<lparr>ph_pid = 15, ph_queue = 115\<rparr>,
     px_rm = (\<lambda>es _. if length es = 2 then XAER_RMFAIL else XA_OK), px_clock = (\<lambda>es. int (length es)),
     px_reachable = (\<lambda>_. True), px_events = []\<rparr>"

definition proxied_trid :: trid where
  "proxied_trid = create_id (replicate 16 1) (replicate 16 2) [] \<lparr>ph_pid = 3, ph_queue = 30\<rparr>"

definition sample_asked :: "tm_message list" where
  "sample_asked =
     [Resource_request Rm_prepare False \<lparr>ph_pid = 3, ph_queue = 30\<rparr> proxied_trid TMNOFLAGS,
      Resource_request Rm_commit False \<lparr>ph_pid = 3, ph_queue = 30\<rparr> proxied_trid TMNOFLAGS,
      Resource_request Rm_rollback True \<lparr>ph_pid = 3, ph_queue = 30\<rparr> proxied_trid TMNOFLAGS]"


text \<open>The resource is closed whatever has happened, and an open that fails is told before the proxy ends.\<close>

lemma proxy_closes:
  assumes "validate_proxy s" "proxy_run ms s = (r, s')"
  shows "\<exists>es code. px_events s' = es @ [Called (P_close (px_closeinfo s') (px_id s') TMNOFLAGS) code]"
  using assms by (auto simp: proxy_run_def proxy_close_def proxy_effects invoke_rm_def Let_def split: prod.splits)

lemma failed_open_is_told:
  assumes "px_rm s (px_events s) (P_open (px_openinfo s) (px_id s) TMNOFLAGS) = code" "code \<noteq> XA_OK"
    and "px_reachable s (px_events s @ [Called (P_open (px_openinfo s) (px_id s) TMNOFLAGS) code])"
  shows "fst (proxy_start ms s) = Inl Px_open \<and> told (snd (proxy_start ms s)) = told s @ [Ev_connect (px_self s) (px_id s) code]"
  using assms by (simp add: proxy_start_def proxy_open_def proxy_effects invoke_rm_def tell_def told_def)

section \<open>What goes wrong\<close>

text \<open>A message that the proxy has no handler for ends its pump.\<close>

lemma unknown_message_ends_the_proxy: "proxy_pump (Tm_ready p # ms) s = (Inr (), s)"
  by (simp add: proxy_effects)

end
