(* ===== verification/Queue_Access.thy ===== *)
theory Queue_Access
  imports Queue_Group Call_Context
begin

text \<open>
  How a process gets at the queues (\<open>queue/source/api/rm/queue.cpp\<close>, \<open>queue/source/common/queue.cpp\<close>, the resource
  manager \<open>queue/source/rm/switch.cpp\<close>, and the forward of messages to services, \<open>queue/source/forward\<close>). An
  access registers the resource manager with the transactions of the process, asks the queue broker for the
  group of the queue and sends it the request; the requests are those of \<open>Queue_Group\<close>, the transactions
  those of \<open>Transaction_Context\<close>. What broker and group answer belongs to the state.
\<close>

section \<open>State\<close>

text \<open>\<open>queue::Message\<close> and \<open>Selector\<close>\<close>

record api_message =
  am_id :: uuid
  am_properties :: string
  am_reply :: string
  am_available :: int
  am_type :: string
  am_subtype :: string
  am_data :: "byte list"

record api_selector =
  as_properties :: string
  as_id :: uuid

definition no_selector :: api_selector where
  "no_selector = \<lparr>as_properties = [], as_id = nil_uuid\<rparr>"

datatype access_event =
    Asked string process_handle
  | To_group int group_event
  | To_broker rm_call process_handle trid int int

datatype access_answer = Dequeued uuid "dequeued_message list" | Told_shutdown

record queue_access =
  qa_client :: xatmi_client
  qa_rm :: int
  qa_broker :: int
  qa_events :: "access_event list"
  qa_uuid :: "access_event list \<Rightarrow> uuid"
  qa_found :: "access_event list \<Rightarrow> client_exn + process_handle \<times> int"
  qa_enqueued :: "access_event list \<Rightarrow> client_exn + uuid"
  qa_next :: "access_event list \<Rightarrow> client_exn + access_answer"
  qa_forgotten :: "access_event list \<Rightarrow> client_exn + bool"
  qa_state :: "access_event list \<Rightarrow> client_exn + int"
  qa_send :: "access_event list \<Rightarrow> int \<Rightarrow> client_exn option"

type_synonym 'a on_access = "(queue_access, client_exn, 'a) effect"

definition on_client :: "'a client_effect \<Rightarrow> 'a on_access" where
  "on_client f s = (let (r, c) = f (qa_client s) in (r, s\<lparr>qa_client := c\<rparr>))"

text \<open>A blocking send yields the correlation of the message; a receive an answer, or what interrupts it.\<close>

definition access_send :: "int \<Rightarrow> access_event \<Rightarrow> uuid on_access" where
  "access_send q e s =
     (case qa_send s (qa_events s) q of
        Some x \<Rightarrow> (Inl x, s)
      | None \<Rightarrow> (Inr (qa_uuid s (qa_events s)), s\<lparr>qa_events := qa_events s @ [e]\<rparr>))"

definition access_receive :: "(queue_access \<Rightarrow> access_event list \<Rightarrow> client_exn + 'a) \<Rightarrow> 'a on_access" where
  "access_receive f s = (f s (qa_events s), s)"

section \<open>The resource manager\<close>

text \<open>\<open>xa::local::Call\<close>: the broker of the queues is asked, and its reply is the code.\<close>

definition switch_call :: "rm_call \<Rightarrow> xid \<Rightarrow> int \<Rightarrow> int \<Rightarrow> int on_access" where
  "switch_call call x rm flags =
     after (read_state id) (\<lambda>s.
     after (access_send (qa_broker s)
       (To_broker call (cl_self (qa_client s)) \<lparr>t_xid = x, t_owner = no_process\<rparr> rm flags)) (\<lambda>_.
     access_receive qa_state))"

definition xa_open_entry :: "string \<Rightarrow> int \<Rightarrow> int \<Rightarrow> int on_access" where
  "xa_open_entry info rm flags = after (change (\<lambda>s. s\<lparr>qa_rm := rm\<rparr>)) (\<lambda>_. return XA_OK)"

definition xa_close_entry :: "string \<Rightarrow> int \<Rightarrow> int \<Rightarrow> int on_access" where
  "xa_close_entry info rm flags = return XA_OK"

definition xa_start_entry :: "xid \<Rightarrow> int \<Rightarrow> int \<Rightarrow> int on_access" where
  "xa_start_entry x rm flags = return XA_OK"

definition xa_end_entry :: "xid \<Rightarrow> int \<Rightarrow> int \<Rightarrow> int on_access" where
  "xa_end_entry x rm flags = return XA_OK"

definition xa_rollback_entry :: "xid \<Rightarrow> int \<Rightarrow> int \<Rightarrow> int on_access" where
  "xa_rollback_entry x rm flags = switch_call Rm_rollback x rm flags"

definition xa_prepare_entry :: "xid \<Rightarrow> int \<Rightarrow> int \<Rightarrow> int on_access" where
  "xa_prepare_entry x rm flags = return XA_OK"

definition xa_commit_entry :: "xid \<Rightarrow> int \<Rightarrow> int \<Rightarrow> int on_access" where
  "xa_commit_entry x rm flags = switch_call Rm_commit x rm flags"

definition xa_recover_entry :: "int \<Rightarrow> int \<Rightarrow> int \<Rightarrow> int on_access" where
  "xa_recover_entry n rm flags = return XA_OK"

definition xa_forget_entry :: "xid \<Rightarrow> int \<Rightarrow> int \<Rightarrow> int on_access" where
  "xa_forget_entry x rm flags = return XA_OK"

definition xa_complete_entry :: "int \<Rightarrow> int \<Rightarrow> int on_access" where
  "xa_complete_entry rm flags = return XA_OK"

section \<open>Access\<close>

text \<open>
  \<open>scoped::AX_reg\<close>: the result of the registration is not looked at; the identifier is null unless the registration
  has filled it in, and then the destructor unregisters.
\<close>

definition registered_trid :: "xid option \<Rightarrow> trid" where
  "registered_trid x = (case x of None \<Rightarrow> null_trid | Some x \<Rightarrow> null_trid\<lparr>t_xid := x\<rparr>)"

definition with_registration :: "(trid \<Rightarrow> 'a on_access) \<Rightarrow> 'a on_access" where
  "with_registration f =
     after (read_state qa_rm) (\<lambda>rm.
     after (on_client (ax_reg rm)) (\<lambda>(_, x).
     let t = registered_trid x
     in and_finally (f t) (if is_null t then after (on_client (ax_unreg rm)) (\<lambda>_. return ()) else return ())))"

text \<open>\<open>queue::Lookup\<close>, made and then asked\<close>

definition ask_for :: "string \<Rightarrow> uuid on_access" where
  "ask_for queue = after (read_state id) (\<lambda>s. access_send (qa_broker s) (Asked queue (cl_self (qa_client s))))"

definition group_of :: "string \<Rightarrow> (process_handle \<times> int) on_access" where
  "group_of queue = after (ask_for queue) (\<lambda>_. access_receive qa_found)"

text \<open>The correlation of a request is made when it is sent; the id of the message is not passed on.\<close>

definition enqueue_request_of :: "uuid \<Rightarrow> process_handle \<Rightarrow> trid \<Rightarrow> int \<Rightarrow> api_message \<Rightarrow> enqueue_request" where
  "enqueue_request_of c self t q m =
     \<lparr>er_correlation = c, er_process = self, er_trid = t, er_queue = q,
      er_message = \<lparr>bm_id = nil_uuid, bm_properties = am_properties m, bm_reply = am_reply m, bm_avalible = am_available m,
        bm_type = am_type m, bm_subtype = am_subtype m, bm_payload = am_data m\<rparr>\<rparr>"

definition dequeue_request_of :: "uuid \<Rightarrow> process_handle \<Rightarrow> trid \<Rightarrow> int \<Rightarrow> api_selector \<Rightarrow> bool \<Rightarrow> dequeue_request" where
  "dequeue_request_of c self t q sel blocks =
     \<lparr>dr_correlation = c, dr_process = self, dr_trid = t, dr_queue = q, dr_properties = as_properties sel,
      dr_id = as_id sel, dr_block = blocks\<rparr>"

definition rm_enqueue :: "string \<Rightarrow> api_message \<Rightarrow> uuid on_access" where
  "rm_enqueue queue m =
     with_registration (\<lambda>t.
     after (group_of queue) (\<lambda>(g, q).
     if q = 0 then throw Ex_base
     else after (read_state id) (\<lambda>s.
       after (access_send (ph_queue g)
         (To_group (ph_queue g) (Ge_enqueue (enqueue_request_of (qa_uuid s (qa_events s)) (cl_self (qa_client s)) t q m)))) (\<lambda>_.
       access_receive qa_enqueued))))"

text \<open>The guard that takes back a request that may be waiting; what it throws is swallowed.\<close>

definition forget_blocking :: "string \<Rightarrow> unit on_access" where
  "forget_blocking queue =
     guarded (after (group_of queue) (\<lambda>(g, q).
       after (read_state id) (\<lambda>s.
       after (access_send (ph_queue g)
         (To_group (ph_queue g) (Ge_forget \<lparr>fr_correlation = qa_uuid s (qa_events s), fr_process = cl_self (qa_client s), fr_queue = q\<rparr>))) (\<lambda>_.
       after (access_receive qa_forgotten) (\<lambda>_. return ())))))"

text \<open>\<open>transform::Message\<close>\<close>

definition api_message_of :: "dequeued_message \<Rightarrow> api_message" where
  "api_message_of m =
     \<lparr>am_id = dm_id m, am_properties = dm_properties m, am_reply = dm_reply m, am_available = dm_avalible m,
      am_type = dm_type m, am_subtype = dm_subtype m, am_data = dm_payload m\<rparr>"

definition request_dequeue :: "string \<Rightarrow> api_selector \<Rightarrow> bool \<Rightarrow> trid \<Rightarrow> api_message list on_access" where
  "request_dequeue queue sel blocks t =
     after (group_of queue) (\<lambda>(g, q).
     after (read_state id) (\<lambda>s.
     after (access_send (ph_queue g)
       (To_group (ph_queue g) (Ge_dequeue (dequeue_request_of (qa_uuid s (qa_events s)) (cl_self (qa_client s)) t q sel blocks)))) (\<lambda>c.
     after (access_receive qa_next) (\<lambda>a.
     case a of
       Dequeued c' ms \<Rightarrow> if c' \<noteq> c then throw Ex_base else return (map api_message_of ms)
     | Told_shutdown \<Rightarrow> throw Ex_shutdown))))"

definition rm_dequeue :: "string \<Rightarrow> api_selector \<Rightarrow> bool \<Rightarrow> api_message list on_access" where
  "rm_dequeue queue sel blocks =
     with_registration (\<lambda>t. on_error (request_dequeue queue sel blocks t) (forget_blocking queue))"

definition blocking_dequeue :: "string \<Rightarrow> api_selector \<Rightarrow> api_message on_access" where
  "blocking_dequeue queue sel =
     after (rm_dequeue queue sel True) (\<lambda>ms. case ms of [] \<Rightarrow> throw Ex_base | m # _ \<Rightarrow> return m)"

section \<open>Forwarding\<close>

text \<open>\<open>Holder::release\<close> without a size: the payload leaves its pool as it is.\<close>

definition holder_release_whole :: "int \<Rightarrow> payload on_holder" where
  "holder_release_whole a =
     (if a = 0 then return null_payload
      else after (find_by_address a) (\<lambda>p.
        after (change_pool (manages_address a) (erase_first (\<lambda>x. fst x = a))) (\<lambda>_.
        after (change (\<lambda>h. if ho_inbound h = a then h\<lparr>ho_inbound := 0\<rparr> else h)) (\<lambda>_.
        return (payload_at a p)))))"

text \<open>\<open>forward::Caller\<close>: the message is the request of a service, whose reply is enqueued when there is a queue for it.\<close>

definition forward_caller :: "string \<Rightarrow> string \<Rightarrow> api_message \<Rightarrow> unit on_access" where
  "forward_caller service reply m =
     after (on_client (on_buffers (holder_insert \<lparr>pay_type = (am_type m, am_subtype m), pay_memory = am_data m\<rparr>))) (\<lambda>a.
     after (on_client (call_sync service a (int (length (am_data m))) a TPNOTIME)) (\<lambda>(cd, b, n).
     let queue = (if reply = [] then am_reply m else reply)
     in if queue = [] then return ()
        else
          after (on_client (on_buffers (holder_release_whole b))) (\<lambda>p.
          after (rm_enqueue queue
            \<lparr>am_id = nil_uuid, am_properties = [], am_reply = [], am_available = - (2 ^ 63),
             am_type = fst (pay_type p), am_subtype = snd (pay_type p), am_data = pay_memory p\<rparr>) (\<lambda>_. return ()))))"

text \<open>\<open>perform\<close>: the transaction is rolled back when the block is left without a commit.\<close>

definition forward_perform :: "string \<Rightarrow> (api_message \<Rightarrow> unit on_access) \<Rightarrow> bool on_access" where
  "forward_perform queue dispatch =
     catch
       (after (on_client tx_begin) (\<lambda>r.
        if r \<noteq> TX_OK then return False
        else
          after (on_error
            (after (blocking_dequeue queue no_selector) (\<lambda>m.
             after (dispatch m) (\<lambda>_.
             after (on_client (read_state (\<lambda>c. wk_state (current c) = T_active))) (\<lambda>active.
             if active then after (on_client tx_commit) (\<lambda>_. return True) else return False))))
            (after (on_client tx_rollback) (\<lambda>_. return ()))) (\<lambda>released.
          after (if released then return () else after (on_client tx_rollback) (\<lambda>_. return ())) (\<lambda>_.
          return True))))
       (\<lambda>e. if unwinds e then return False else throw e)"

fun forward_execute :: "nat \<Rightarrow> string \<Rightarrow> (api_message \<Rightarrow> unit on_access) \<Rightarrow> unit on_access" where
  "forward_execute 0 queue dispatch = return ()"
| "forward_execute (Suc n) queue dispatch =
     after (forward_perform queue dispatch) (\<lambda>b. if b then forward_execute n queue dispatch else return ())"

section \<open>In the transaction or outside\<close>

lemmas access_effects = after_def return_def throw_def catch_def change_def read_state_def on_error_def and_finally_def

lemma current_changed [simp]: "current (change_current f c) = f (current c)"
  by (simp add: current_def change_current_def)

lemma ax_reg_returns: "\<exists>code x c'. ax_reg rm c = (Inr (code, x), c') \<and> cl_self c' = cl_self c"
  by (simp add: ax_reg_def access_effects change_current_def)

text \<open>An access that returns has registered, done its work, and unregistered when it was given no transaction.\<close>

lemma with_registration_returns:
  assumes "with_registration f s = (Inr v, s')" "ax_reg (qa_rm s) (qa_client s) = (Inr (code, x), c)"
  obtains s2 where "f (registered_trid x) (s\<lparr>qa_client := c\<rparr>) = (Inr v, s2)"
    and "s' = (if is_null (registered_trid x) then s2\<lparr>qa_client := snd (ax_unreg (qa_rm s) (qa_client s2))\<rparr> else s2)"
proof -
  obtain r s2 where r: "f (registered_trid x) (s\<lparr>qa_client := c\<rparr>) = (r, s2)" by fastforce
  from assms r show thesis
    by (cases r; intro that [of s2])
      (auto simp: with_registration_def access_effects on_client_def Let_def split: if_splits prod.splits sum.splits)
qed

lemma on_error_returns: "on_error f g s = (Inr x, s') \<Longrightarrow> f s = (Inr x, s')"
  by (auto simp: access_effects split: prod.splits sum.splits if_splits)

lemma group_of_returns:
  "group_of queue s = (Inr (g, q), s') \<Longrightarrow>
    qa_client s' = qa_client s \<and> qa_events s' = qa_events s @ [Asked queue (cl_self (qa_client s))]"
  by (auto simp: group_of_def ask_for_def access_send_def access_receive_def access_effects split: option.splits)

text \<open>A successful enqueue asks for the group and sends one request, with the identifier the registration gave.\<close>

lemma enqueue_sends:
  assumes "rm_enqueue queue m s = (Inr i, s')" "ax_reg (qa_rm s) (qa_client s) = (Inr (code, x), c)"
  defines "self \<equiv> cl_self (qa_client s)" and "t \<equiv> registered_trid x"
  shows "\<exists>(g :: process_handle) c' q. qa_events s' = qa_events s @
      [Asked queue self, To_group (ph_queue g) (Ge_enqueue (enqueue_request_of c' self t q m))] \<and>
    qa_client s' = (if is_null t then snd (ax_unreg (qa_rm s) c) else c)"
proof -
  let ?f = "\<lambda>t. after (group_of queue) (\<lambda>(g, q).
     if q = 0 then throw Ex_base
     else after (read_state id) (\<lambda>s.
       after (access_send (ph_queue g)
         (To_group (ph_queue g) (Ge_enqueue (enqueue_request_of (qa_uuid s (qa_events s)) (cl_self (qa_client s)) t q m)))) (\<lambda>_.
       access_receive qa_enqueued)))"
  have "with_registration ?f s = (Inr i, s')" using assms(1) by (simp add: rm_enqueue_def)
  then obtain s2 where s2: "?f t (s\<lparr>qa_client := c\<rparr>) = (Inr i, s2)"
      "s' = (if is_null t then s2\<lparr>qa_client := snd (ax_unreg (qa_rm s) (qa_client s2))\<rparr> else s2)"
    using assms(2) unfolding t_def by (rule with_registration_returns)
  have self: "cl_self c = self" using ax_reg_returns [of "qa_rm s" "qa_client s"] assms(2) by (auto simp: self_def)
  obtain r s1 where g: "group_of queue (s\<lparr>qa_client := c\<rparr>) = (r, s1)" by fastforce
  then obtain g q where r: "r = Inr (g, q)" using s2(1) by (cases r) (auto simp: after_def)
  note g1 = group_of_returns [OF g [unfolded r]]
  obtain c' where "qa_client s2 = c" "qa_events s2 = qa_events s1 @ [To_group (ph_queue g) (Ge_enqueue (enqueue_request_of c' self t q m))]"
    using s2(1) g r g1 self
    by (auto simp: access_effects access_send_def access_receive_def split: if_splits option.splits)
  with g1 s2(2) self show ?thesis by (intro exI [of _ g] exI [of _ c'] exI [of _ q]) auto
qed

text \<open>
  The first access within a transaction is part of it: the request has the transaction's identifier, and the
  resource manager is among the resources that a commit of the transaction involves.
\<close>

theorem first_access_is_in_the_transaction:
  assumes "rm_enqueue queue m s = (Inr i, s')"
    and "qa_rm s \<in> ls_id ` set (cl_dynamic (qa_client s))" "qa_rm s \<notin> set (wk_resources (current (qa_client s)))"
    and "\<not> is_null (wk_trid (current (qa_client s)))"
  shows "\<exists>g r. qa_events s' = qa_events s @ [Asked queue (cl_self (qa_client s)), To_group g (Ge_enqueue r)] \<and>
    t_xid (er_trid r) = t_xid (wk_trid (current (qa_client s))) \<and>
    qa_rm s \<in> set (wk_resources (current (qa_client s')))"
proof -
  let ?w = "current (qa_client s)"
  have "ax_reg (qa_rm s) (qa_client s) = (Inr (TM_OK, Some (t_xid (wk_trid ?w))),
      change_current (\<lambda>w. w\<lparr>wk_resources := wk_resources w @ [qa_rm s]\<rparr>) (qa_client s))"
    using assms(2,3) by (simp add: ax_reg_def access_effects)
  from enqueue_sends [OF assms(1) this] assms(4) show ?thesis
    by (fastforce simp: registered_trid_def is_null_def enqueue_request_of_def)
qed

text \<open>
  Outside of transactions the request has a null identifier, and afterwards the process is as it was: the
  registration has been taken back.
\<close>

lemma access_outside_is_not_registered:
  assumes "rm_enqueue queue m s = (Inr i, s')"
    and "qa_rm s \<in> ls_id ` set (cl_dynamic (qa_client s))" "qa_rm s \<notin> set (wk_resources (current (qa_client s)))"
    and "is_null (wk_trid (current (qa_client s)))"
  shows "\<exists>g r. qa_events s' = qa_events s @ [Asked queue (cl_self (qa_client s)), To_group g (Ge_enqueue r)] \<and>
    is_null (er_trid r) \<and> wk_resources (current (qa_client s')) = wk_resources (current (qa_client s))"
proof -
  let ?w = "current (qa_client s)"
  let ?c = "change_current (\<lambda>w. w\<lparr>wk_resources := wk_resources w @ [qa_rm s]\<rparr>) (qa_client s)"
  have reg: "ax_reg (qa_rm s) (qa_client s) = (Inr (TM_OK, Some (t_xid (wk_trid ?w))), ?c)"
    using assms(2,3) by (simp add: ax_reg_def access_effects)
  have "snd (ax_unreg (qa_rm s) ?c) = change_current (\<lambda>w. w\<lparr>wk_resources := remove1 (qa_rm s) (wk_resources w)\<rparr>) ?c"
    using assms(4) by (simp add: ax_unreg_def access_effects)
  moreover have "remove1 (qa_rm s) (wk_resources ?w @ [qa_rm s]) = wk_resources ?w"
    using assms(3) by (simp add: remove1_append)
  moreover have "is_null (registered_trid (Some (t_xid (wk_trid ?w))))" using assms(4) by (simp add: registered_trid_def is_null_def)
  ultimately show ?thesis using enqueue_sends [OF assms(1) reg] by (fastforce simp: enqueue_request_of_def)
qed

section \<open>What goes wrong\<close>

text \<open>
  The second access within a transaction: the registration answers that it is known already and gives no
  identifier, and since nobody looks at the answer the request is sent as one outside of any transaction. It is
  not undone by a rollback. So the reply of a forwarded message is always enqueued outside of the transaction
  in which the message was dequeued.
\<close>

theorem second_access_is_outside_of_the_transaction:
  assumes "rm_enqueue queue m s = (Inr i, s')"
    and "qa_rm s \<in> ls_id ` set (cl_dynamic (qa_client s))" "qa_rm s \<in> set (wk_resources (current (qa_client s)))"
  shows "\<exists>g r. qa_events s' = qa_events s @ [Asked queue (cl_self (qa_client s)), To_group g (Ge_enqueue r)] \<and>
    is_null (er_trid r)"
proof -
  have "ax_reg (qa_rm s) (qa_client s) = (Inr (TM_RESUME, None), qa_client s)"
    using assms(2,3) by (simp add: ax_reg_def access_effects)
  from enqueue_sends [OF assms(1) this] show ?thesis
    by (fastforce simp: registered_trid_def is_null_def null_trid_def null_id_def xid_null_def enqueue_request_of_def)
qed

text \<open>The access that makes the second one second: a dequeue within a transaction leaves the registration.\<close>

lemma dequeue_leaves_the_registration:
  assumes "rm_dequeue queue sel blocks s = (Inr ms, s')"
    and "qa_rm s \<in> ls_id ` set (cl_dynamic (qa_client s))" "\<not> is_null (wk_trid (current (qa_client s)))"
    and "qa_rm s \<notin> set (wk_resources (current (qa_client s)))"
  shows "qa_rm s \<in> set (wk_resources (current (qa_client s')))"
proof -
  let ?c = "change_current (\<lambda>w. w\<lparr>wk_resources := wk_resources w @ [qa_rm s]\<rparr>) (qa_client s)"
  let ?x = "t_xid (wk_trid (current (qa_client s)))"
  have reg: "ax_reg (qa_rm s) (qa_client s) = (Inr (TM_OK, Some ?x), ?c)"
    using assms(2,4) by (simp add: ax_reg_def access_effects)
  have "\<not> is_null (registered_trid (Some ?x))" using assms(3) by (simp add: registered_trid_def is_null_def)
  then obtain s2 where s2: "s' = s2" "on_error (request_dequeue queue sel blocks (registered_trid (Some ?x))) (forget_blocking queue)
      (s\<lparr>qa_client := ?c\<rparr>) = (Inr ms, s2)"
    using with_registration_returns [OF assms(1) [unfolded rm_dequeue_def] reg] by auto
  note body = on_error_returns [OF s2(2)]
  obtain r s1 where g: "group_of queue (s\<lparr>qa_client := ?c\<rparr>) = (r, s1)" by fastforce
  with body obtain h q where r: "r = Inr (h, q)" by (cases r) (auto simp: request_dequeue_def after_def)
  have "qa_client s2 = qa_client s1"
    using body unfolding request_dequeue_def after_def [of "group_of queue"] g r
    by (simp add: after_def read_state_def access_send_def access_receive_def split: option.splits sum.splits)
      (auto simp: return_def throw_def split: access_answer.splits if_splits)
  moreover have "qa_client s1 = ?c" using group_of_returns [OF g [unfolded r]] by simp
  ultimately have "qa_client s2 = ?c" by simp
  with s2(1) show ?thesis by simp
qed

end
