(* ===== verification/Spec2Isabelle.thy ===== *)
theory Spec2Isabelle
  imports Casual_Prelude Byteorder Field_Theorems Tm_Examples Queue_Examples Queue_Broker_Theorems Broker_Examples
    Communication_Theorems Client_Examples Order_Theorems String_Buffer Messages
    Forward_Cache Resource_Proxy Queue_Access
begin

text \<open>
  The middleware casual: XATMI services with distributed transactions, and transactional queues. All paths below
  are relative to \<open>src/middleware\<close>.

  \<^bold>\<open>The parts of the program and how they interact.\<close> A domain is a set of processes, each with one inbound
  queue, that send each other messages. The broker (\<open>broker\<close>) boots the servers of the configuration, knows which
  instance has which service, and gives a caller an idle instance or lets it wait. A process that calls or
  offers services (\<open>common/call\<close>, \<open>common/server\<close>, with the C interfaces of \<open>xatmi\<close>) asks the broker for an instance,
  sends it the request and waits for the reply; a call without a reply may go through the forward cache
  (\<open>broker/source/forward\<close>). Requests and replies carry buffers (\<open>buffer\<close>, \<open>common/buffer\<close>) and the
  transaction they belong to (\<open>common/transaction\<close>). The one who starts a transaction commits it through the transaction
  manager (\<open>transaction/source/manager\<close>), which asks the involved resource managers in two phases; it reaches each through the
  instances of a resource proxy (\<open>transaction/source/resource\<close>). The queues (\<open>queue\<close>) are such a resource: queue
  groups keep messages in an SQLite database, the queue broker knows the group of each queue and passes a commit on
  to the groups that are involved, and processes get at them through \<open>queue/api/rm\<close>. Messages are marshalled
  (\<open>common/marshal\<close>, \<open>common/message\<close>) and cut into transports that fit the system queues
  (\<open>common/communication\<close>).

  \<^bold>\<open>The theories.\<close>

  \<^item> Shared: \<open>Casual_Prelude\<close> (lists, the first match of a range, the collections of hints), \<open>Effects\<close> (code with
    state and exceptions: \<open>return\<close>, \<open>throw\<close>, \<open>after\<close>, \<open>catch\<close>, \<open>change\<close>), \<open>Algorithm\<close> (\<open>common/algorithm.h\<close> over the
    standard library: \<open>partition\<close>, \<open>sort\<close>, \<open>stable_sort\<close>, \<open>unique\<close>), \<open>Byteorder\<close> (\<open>common/network/byteorder\<close>).

  \<^item> Buffers: \<open>Field_Buffer\<close> is the class \<open>Buffer\<close> of \<open>buffer/source/field.cpp\<close> with its bytes and index,
    \<open>Field_Store\<close> the interface the C functions use, \<open>Field_Api\<close> the pool and the C functions, \<open>Field_Theorems\<close> what they promise;
    \<open>Order_Buffer\<close> and \<open>Order_Theorems\<close> are \<open>buffer/source/order.cpp\<close>, \<open>String_Buffer\<close> is \<open>string.cpp\<close> and \<open>octet.cpp\<close>;
    \<open>Buffer_Pool\<close> is the holder of all pools of a process (\<open>common/source/buffer\<close>).

  \<^item> Transactions: \<open>Xid\<close> (\<open>common/transaction/id\<close>); \<open>Tm_State\<close> (\<open>manager/state\<close>, \<open>log\<close>), \<open>Tm_Action\<close> (\<open>action.cpp\<close>), \<open>Tm_Handle\<close>
    (\<open>handle.cpp\<close>) and \<open>Tm_Pump\<close> (\<open>manager.cpp\<close>) are the manager, in the order of the sources; \<open>Tm_Walk\<close> states what the handlers need
    of an invariant, \<open>Tm_Invariant\<close>, \<open>Tm_Work\<close>, \<open>Tm_Replies\<close>, \<open>Tm_Decisions\<close> and \<open>Tm_Theorems\<close> are its properties,
    \<open>Tm_Examples\<close> a run. \<open>Resource_Proxy\<close> is \<open>transaction/source/resource/proxy.cpp\<close>.

  \<^item> Queues: \<open>Queue_Database\<close> and \<open>Queue_Group\<close> are \<open>queue/source/group\<close>; \<open>Queue_Counters\<close>, \<open>Queue_Operations\<close> and \<open>Queue_Store\<close> are the
    invariant of the tables, the operations as a whole, and the abstract store they implement; \<open>Queue_Walk\<close>, \<open>Queue_Kept\<close> and
    \<open>Queue_Replies\<close> carry this through the handlers and the pump, \<open>Queue_Examples\<close> has runs. \<open>Queue_Broker\<close> and
    \<open>Queue_Broker_Theorems\<close> are \<open>queue/source/broker\<close> with \<open>configuration/source/queue.cpp\<close>. \<open>Queue_Access\<close> is \<open>queue/source/api/rm\<close>,
    \<open>queue/source/rm\<close> and \<open>queue/source/forward\<close>.

  \<^item> The broker: \<open>Environment\<close> (strings with variables, paths, times), \<open>Broker_State\<close> (\<open>broker/source/state.cpp\<close>), \<open>Broker_Config\<close>
    (\<open>configuration/source/domain.cpp\<close>, \<open>broker/source/transform.cpp\<close>), \<open>Broker_Handle\<close> (\<open>handle.cpp\<close>), \<open>Broker_Pump\<close>
    (\<open>broker.cpp\<close>, \<open>admin/server.cpp\<close>); \<open>Broker_Invariant\<close>, \<open>Broker_Walk\<close>, \<open>Broker_Grants\<close>, \<open>Broker_Kept\<close>, \<open>Broker_Boot\<close>,
    \<open>Broker_Configured\<close> and \<open>Broker_Theorems\<close> are its properties, \<open>Broker_Examples\<close> runs. \<open>Forward_Cache\<close> is
    \<open>broker/source/forward/cache.cpp\<close>.

  \<^item> Messages: \<open>Communication\<close> and \<open>Communication_Theorems\<close> (\<open>common/communication\<close>), \<open>Marshal\<close> (\<open>common/marshal\<close>), \<open>Messages\<close>
    (\<open>common/message\<close>: the members of every message with their order and types).

  \<^item> Processes: \<open>Codes\<close> (\<open>xatmi/include\<close>), \<open>Client_State\<close> (what a process keeps), \<open>Transaction_Context\<close> (\<open>common/source/transaction\<close>,
    \<open>xatmi/source/tx.cpp\<close>, \<open>xa.cpp\<close>), \<open>Call_Context\<close> (\<open>common/source/call\<close>, \<open>xatmi/source/xatmi.cpp\<close>), \<open>Service_Call\<close>
    (\<open>common/source/server\<close>), \<open>Client_Application\<close> (a program over these interfaces); \<open>Client_Invariant\<close>, \<open>Client_Suspend\<close>,
    \<open>Client_Replies\<close>, \<open>Client_Theorems\<close> are the properties, \<open>Client_Examples\<close> runs.
\<close>

text \<open>
  \<^bold>\<open>How state and operations correspond to the code.\<close> The state class of a component is a record, its members the fields; an
  operation has the name of the function or a name close to it, and takes and returns the state. An exception is a value of the
  component's own type of exceptions; destructors that do something are \<open>on_error\<close> or \<open>and_finally\<close> (\<open>Client_State\<close>) around
  what follows their declaration. An instance of the broker and its services, which point at each other, refer by
  key. What is out of the program's hands is part of the state or an argument, and the theorems hold whatever it is: what a send
  meets (done, queue full, queue gone), the messages that arrive, the clock, unique ids, the pids of new
  processes, what resource managers and services return, parsed configuration files, memory that the allocator hands
  out. A blocking send waits while the queue is full. A message pump is a function over the messages that arrive.

  \<^bold>\<open>What the lemmas show.\<close> For the transaction manager: the invariant of every reachable state, that a
  commit is asked for only after all votes, that the prepare reply waits for the log, that work neither gets lost nor waits beside
  an idle instance. For the queues: the counters of the triggers, the refinement of an abstract transactional store by
  enqueue, dequeue, commit and rollback, that committed messages are kept until they are sent, that promises wait for the write,
  and that the queue broker answers when all groups have. For the broker: that no reference between instances and services
  dangles, that an instance has one caller at a time, that no waiting caller is forgotten, what a lookup is answered, that each
  process boots once in the order of the groups, and what the configuration gives. For processes: that each request gets one
  reply or is passed on once, that a commit that says so has committed, that the failure of a service dooms the
  transaction, that suspend and resume are inverse. For messages and buffers: that what is sent, marshalled or added comes back as it was, in
  whatever order the parts arrive; that the loops end; that reachable buffers are well formed. For the
  forward cache and the resource proxy: that each call and each request is settled once.

  Invariants are carried through the handlers by locales (\<open>manager_invariant\<close>, \<open>manager_cycle\<close>, \<open>broker_sends\<close>, \<open>broker_steps\<close>,
  \<open>broker_life\<close>, \<open>broker_frame\<close>, \<open>group_requests\<close>, \<open>group_sends\<close>, \<open>group_steps\<close>, \<open>group_invariant\<close>, \<open>group_cycle\<close>, \<open>left_alone\<close>): their
  assumptions are that the basic operations keep a predicate, and inside them all handlers and the pump are shown to keep it; each is
  interpreted once for every invariant. \<open>field_store\<close> is the contract between the field buffer and its C functions, and is
  interpreted for the buffer and for the pool.

  The lemmas in the sections \<^emph>\<open>What goes wrong\<close> and the runs in the example theories show where the code does what it does not
  mean to; the statements of the properties are then restricted to where they hold.

  \<^bold>\<open>Bounds and fuel.\<close> \<open>fetch_files\<close> has fuel for the depth of environment files that include each other; the number of files on the
  disk is enough, because none is read twice (\<open>fetch_fuel\<close>). \<open>forward_turns\<close>, \<open>forward_execute\<close> and the runs of the
  pumps count turns of loops that are meant to run for ever. \<open>change_loop\<close> and \<open>update_index_from\<close> may not end and are partial
  functions; that the first ends is proved, that the second does not on some bytes too. Integers are unbounded, with
  the conversion written out where the code relies on or suffers from a width: sizes and ids of the field buffer, sizes in
  order buffers, native values on the wire. \<open>std::sort\<close> is the insertion sort the library uses for at most
  sixteen elements; for longer lists the order of elements that are equal is up to the library, and the outcome is \<open>CF_undefined\<close>. Hash maps
  that the code iterates over are lists in the order of the iteration; rows whose order the statement leaves open come by rowid. Reading behind a buffer, writing behind one and messages that are cut short are outcomes of their own (\<open>Over_read\<close>,
  \<open>Overrun\<close>, \<open>Malformed\<close>); what would wait for ever or be undefined in a process is the exception \<open>Ex_never\<close> or \<open>Ex_undefined\<close>.

  \<^bold>\<open>What is not modelled.\<close> System calls for processes, files, signals and sockets; log, trace and the options of programs; base64 and character
  sets, which are libraries; the serviceframework, whose archives read and write formats by libraries, and whose proxies are a layer over
  the XATMI interface that is modelled; administration programs and the services that only list a state; traffic
  monitors, the gateway (which is empty), tools that generate source text, the plugin for nginx, bindings, the build system,
  third party code, tests and mockups. Within the components: the shutdown of a whole domain by the broker, which waits
  for processes and signals; callbacks of the buffer transport, of which none is registered; printing.
\<close>

end
